(* ===== verification/Prelude.thy ===== *)
theory Prelude
  imports Complex_Main "HOL-Library.Word" "HOL-Library.AList" "HOL-Library.Sublist"
    "HOL-Library.Multiset"
begin

text \<open>
  The shared vocabulary of the development: JavaScript strings, numbers, insertion-ordered
  sets and maps, and the generic lemmas on lists and association lists that the component
  theories use.

  A JavaScript string is its list of UTF-16 code units, so \<^term>\<open>length\<close>, indexing and slicing
  agree with the language.  An ASCII literal of the source is written \<open>js ''...''\<close>; any other
  literal is written as its code units.  A number that the code only uses as an integer is an
  \<^typ>\<open>int\<close> or \<^typ>\<open>nat\<close> (exact below \<open>2 ^ 53\<close>); other numbers are rationals without the
  rounding of binary floating point.
\<close>

named_theorems wf_intro \<open>introduction rules for the components' invariants\<close>
named_theorems codec_simps \<open>round-trip equations of the URL codecs\<close>

section \<open>Strings of UTF-16 code units\<close>

type_synonym code_unit = "16 word"
type_synonym jstr = "code_unit list"

definition js :: "string \<Rightarrow> jstr" where
  "js s = map of_char s"

lemma js_Nil [simp]: "js [] = []"
  and js_Cons [simp]: "js (c # cs) = of_char c # js cs"
  by (simp_all add: js_def)

lemma js_eq_Nil_iff [simp]: "js s = [] \<longleftrightarrow> s = []"
  by (cases s) auto

lemma length_js [simp]: "length (js s) = length s"
  by (simp add: js_def)

lemma unat_of_char [simp]: "unat (of_char c :: code_unit) = of_char c"
proof -
  have "of_char c = (word_of_nat (of_char c) :: code_unit)"
    by (simp only: of_nat_of_char)
  moreover have "unat (word_of_nat (of_char c) :: code_unit) = of_char c"
    by (simp add: unat_of_nat mod_less less_trans [OF nat_of_char_less_256])
  ultimately show ?thesis by simp
qed

lemma of_char_unit_eq_iff: "(of_char c :: code_unit) = of_char d \<longleftrightarrow> c = d"
  by (metis unat_of_char of_char_eqI)

lemma js_eq_iff: "js s = js t \<longleftrightarrow> s = t"
proof -
  have "inj (of_char :: char \<Rightarrow> code_unit)"
    by (rule injI) (simp add: of_char_unit_eq_iff)
  then show ?thesis by (simp add: js_def inj_map_eq_map)
qed

text \<open>The characters \<open>String.prototype.trim\<close> and the regular expression class \<open>\s\<close> remove.\<close>

definition js_space :: "code_unit \<Rightarrow> bool" where
  "js_space c \<longleftrightarrow> (9 \<le> c \<and> c \<le> 13) \<or> c = 0x20 \<or> c = 0xA0 \<or> c = 0x1680 \<or>
     (0x2000 \<le> c \<and> c \<le> 0x200A) \<or> c = 0x2028 \<or> c = 0x2029 \<or> c = 0x202F \<or> c = 0x205F \<or>
     c = 0x3000 \<or> c = 0xFEFF"

definition trim_start :: "jstr \<Rightarrow> jstr" where
  "trim_start s = dropWhile js_space s"

definition trim_end :: "jstr \<Rightarrow> jstr" where
  "trim_end s = rev (dropWhile js_space (rev s))"

definition js_trim :: "jstr \<Rightarrow> jstr" where
  "js_trim s = trim_end (trim_start s)"

definition is_digit :: "code_unit \<Rightarrow> bool" where
  "is_digit c \<longleftrightarrow> 48 \<le> c \<and> c \<le> 57"

definition lower_unit :: "code_unit \<Rightarrow> code_unit" where
  "lower_unit c = (if 65 \<le> c \<and> c \<le> 90 then c + 32 else if c = 0x212A then 107 else c)"

text \<open>
  \<open>toLowerCase\<close> on the ASCII range and the Kelvin sign, the one other code unit whose lower case
  is an ASCII letter alone; the code compares its result with ASCII literals only.
\<close>

definition to_lower :: "jstr \<Rightarrow> jstr" where
  "to_lower s = map lower_unit s"

definition upper_unit :: "code_unit \<Rightarrow> code_unit" where
  "upper_unit c = (if 97 \<le> c \<and> c \<le> 122 then c - 32 else c)"

definition to_upper :: "jstr \<Rightarrow> jstr" where
  "to_upper s = map upper_unit s"

definition starts_with :: "jstr \<Rightarrow> jstr \<Rightarrow> bool" where
  "starts_with s p = prefix p s"

definition ends_with :: "jstr \<Rightarrow> jstr \<Rightarrow> bool" where
  "ends_with s p = suffix p s"

fun str_includes :: "jstr \<Rightarrow> jstr \<Rightarrow> bool" where
  "str_includes [] p = (p = [])"
| "str_includes (c # s) p = (prefix p (c # s) \<or> str_includes s p)"

text \<open>\<open>s.split(sep)\<close> for a one-unit separator, and \<open>xs.join(sep)\<close>.\<close>

fun split_on :: "'a \<Rightarrow> 'a list \<Rightarrow> 'a list list" where
  "split_on c [] = [[]]"
| "split_on c (x # xs) =
     (if x = c then [] # split_on c xs
      else (case split_on c xs of [] \<Rightarrow> [[x]] | y # ys \<Rightarrow> (x # y) # ys))"

fun join :: "'a list \<Rightarrow> 'a list list \<Rightarrow> 'a list" where
  "join sep [] = []"
| "join sep [x] = x"
| "join sep (x # y # ys) = x @ sep @ join sep (y # ys)"

text \<open>\<open>s.slice(0, n)\<close> and \<open>s.slice(-n)\<close> for \<open>0 < n\<close>.\<close>

definition slice_last :: "nat \<Rightarrow> 'a list \<Rightarrow> 'a list" where
  "slice_last n s = drop (length s - n) s"

lemma split_on_not_Nil [simp]: "split_on c xs \<noteq> []"
  by (induction xs) (auto split: list.splits)

lemma join_Cons: "ys \<noteq> [] \<Longrightarrow> join sep (x # ys) = x @ sep @ join sep ys"
  by (cases ys) auto

lemma join_split_on [simp]: "join [c] (split_on c xs) = xs"
proof (induction xs)
  case Nil
  then show ?case by simp
next
  case (Cons x xs)
  obtain y ys where eq: "split_on c xs = y # ys"
    by (cases "split_on c xs") auto
  show ?case
  proof (cases "x = c")
    case True
    with Cons eq show ?thesis by (simp add: join_Cons)
  next
    case False
    with Cons eq show ?thesis by (cases ys) auto
  qed
qed

lemma split_on_free: "c \<notin> set xs \<Longrightarrow> split_on c xs = [xs]"
  by (induction xs) auto

lemma split_on_append:
  "c \<notin> set x \<Longrightarrow> split_on c (x @ c # ys) = x # split_on c ys"
  by (induction x) auto

lemma split_on_sep: "split_on c (xs @ c # ys) = split_on c xs @ split_on c ys"
proof (induction xs)
  case (Cons x xs)
  obtain z zs where "split_on c xs = z # zs"
    by (cases "split_on c xs") auto
  with Cons show ?case by auto
qed simp

lemma split_on_join:
  "xs \<noteq> [] \<Longrightarrow> (\<And>x. x \<in> set xs \<Longrightarrow> c \<notin> set x) \<Longrightarrow> split_on c (join [c] xs) = xs"
proof (induction "[c]" xs rule: join.induct)
  case (3 x y ys)
  then show ?case by (simp add: split_on_append)
qed (auto simp: split_on_free)

lemma split_on_parts_free: "y \<in> set (split_on c xs) \<Longrightarrow> c \<notin> set y"
proof (induction xs arbitrary: y)
  case Nil
  then show ?case by simp
next
  case (Cons x xs)
  obtain z zs where eq: "split_on c xs = z # zs"
    by (cases "split_on c xs") auto
  with Cons show ?case by (auto split: if_splits)
qed

lemma split_on_subset: "y \<in> set (split_on c xs) \<Longrightarrow> set y \<subseteq> set xs"
proof (induction xs arbitrary: y)
  case (Cons x xs)
  obtain z zs where eq: "split_on c xs = z # zs"
    by (cases "split_on c xs") auto
  with Cons.prems have "y = [] \<or> y = x # z \<or> y \<in> set (split_on c xs)"
    by (auto split: if_splits)
  then show ?case using Cons.IH [of y] Cons.IH [of z] eq by (auto simp: subset_iff)
qed simp

lemma length_split_on: "length (split_on c xs) = Suc (count_list xs c)"
proof (induction xs)
  case Nil
  then show ?case by simp
next
  case (Cons x xs)
  obtain z zs where "split_on c xs = z # zs"
    by (cases "split_on c xs") auto
  with Cons show ?case by simp
qed

lemma dropWhile_idem [simp]: "dropWhile P (dropWhile P xs) = dropWhile P xs"
  by (induction xs) auto

lemma trim_start_Nil [simp]: "trim_start [] = []"
  and trim_end_Nil [simp]: "trim_end [] = []"
  and js_trim_Nil [simp]: "js_trim [] = []"
  by (simp_all add: trim_start_def trim_end_def js_trim_def)

definition trimmed :: "jstr \<Rightarrow> bool" where
  "trimmed s \<longleftrightarrow> s = [] \<or> (\<not> js_space (hd s) \<and> \<not> js_space (last s))"

lemma trimmed_js_trim_id: "trimmed s \<Longrightarrow> js_trim s = s"
proof -
  assume t: "trimmed s"
  show ?thesis
  proof (cases "s = []")
    case False
    with t have h: "\<not> js_space (hd s)" and l: "\<not> js_space (hd (rev s))"
      by (auto simp: trimmed_def hd_rev)
    have "dropWhile js_space s = s"
      using h False by (cases s) auto
    moreover have "dropWhile js_space (rev s) = rev s"
      using l False by (cases "rev s") auto
    ultimately show ?thesis by (simp add: js_trim_def trim_start_def trim_end_def)
  qed simp
qed

lemma hd_trim_end: "trim_end s \<noteq> [] \<Longrightarrow> hd (trim_end s) = hd s"
proof -
  assume ne: "trim_end s \<noteq> []"
  have "rev s = takeWhile js_space (rev s) @ dropWhile js_space (rev s)"
    by simp
  then have "s = trim_end s @ rev (takeWhile js_space (rev s))"
    unfolding trim_end_def by (metis rev_append rev_rev_ident)
  with ne show ?thesis by (metis hd_append2)
qed

lemma trimmed_js_trim [simp]: "trimmed (js_trim s)"
proof (cases "js_trim s = []")
  case False
  then have ne: "dropWhile js_space (rev (trim_start s)) \<noteq> []"
    by (simp add: js_trim_def trim_end_def)
  have "\<not> js_space (hd (dropWhile js_space (rev (trim_start s))))"
    by (rule hd_dropWhile [OF ne])
  moreover have "last (js_trim s) = hd (dropWhile js_space (rev (trim_start s)))"
    using ne by (simp add: js_trim_def trim_end_def last_rev)
  moreover have "\<not> js_space (hd (js_trim s))"
  proof -
    from ne have "trim_start s \<noteq> []" by auto
    then have "\<not> js_space (hd (trim_start s))"
      unfolding trim_start_def by (rule hd_dropWhile)
    moreover have "hd (js_trim s) = hd (trim_start s)"
      using False hd_trim_end [of "trim_start s"] by (simp add: js_trim_def)
    ultimately show ?thesis by simp
  qed
  ultimately show ?thesis by (simp add: trimmed_def)
qed (simp add: trimmed_def)

lemma js_trim_idem [simp]: "js_trim (js_trim s) = js_trim s"
  by (simp add: trimmed_js_trim_id)

lemma set_js_trim_subset: "set (js_trim s) \<subseteq> set s"
proof -
  have "set (trim_start s) \<subseteq> set s"
    unfolding trim_start_def by (meson set_dropWhileD subsetI)
  moreover have "set (trim_end t) \<subseteq> set t" for t
    unfolding trim_end_def by (auto dest: set_dropWhileD)
  ultimately show ?thesis unfolding js_trim_def by blast
qed

lemma length_js_trim_le: "length (js_trim s) \<le> length s"
  unfolding js_trim_def trim_end_def trim_start_def
  by (metis length_dropWhile_le length_rev order_trans)

definition high_surrogate :: "code_unit \<Rightarrow> bool" where
  "high_surrogate c \<longleftrightarrow> 0xD800 \<le> c \<and> c \<le> 0xDBFF"

definition low_surrogate :: "code_unit \<Rightarrow> bool" where
  "low_surrogate c \<longleftrightarrow> 0xDC00 \<le> c \<and> c \<le> 0xDFFF"

text \<open>The code points of a string, as \<open>for (const _ of value)\<close> visits them (a lone surrogate is one).\<close>

fun code_points :: "jstr \<Rightarrow> nat list" where
  "code_points [] = []"
| "code_points (c # s) =
     (case s of
        d # s' \<Rightarrow>
          if high_surrogate c \<and> low_surrogate d
          then (0x10000 + (unat c - 0xD800) * 0x400 + (unat d - 0xDC00)) # code_points s'
          else unat c # code_points s
      | [] \<Rightarrow> [unat c])"

section \<open>Insertion-ordered sets and maps\<close>

text \<open>\<open>[...new Set(xs)]\<close>: the distinct elements in order of first occurrence.\<close>

definition set_add :: "'a list \<Rightarrow> 'a \<Rightarrow> 'a list" where
  "set_add s x = (if x \<in> set s then s else s @ [x])"

definition uniq :: "'a list \<Rightarrow> 'a list" where
  "uniq xs = foldl set_add [] xs"

lemma set_set_add [simp]: "set (set_add s x) = insert x (set s)"
  by (auto simp: set_add_def)

lemma distinct_set_add [simp]: "distinct (set_add s x) \<longleftrightarrow> distinct s"
  by (auto simp: set_add_def)

lemma foldl_set_add:
  "set (foldl set_add s xs) = set s \<union> set xs"
  "distinct (foldl set_add s xs) \<longleftrightarrow> distinct s"
  by (induction xs arbitrary: s) auto

lemma set_uniq [simp]: "set (uniq xs) = set xs"
  by (simp add: uniq_def foldl_set_add)

lemma distinct_uniq [simp]: "distinct (uniq xs)"
  by (simp add: uniq_def foldl_set_add)

lemma foldl_set_add_distinct:
  "distinct (s @ xs) \<Longrightarrow> foldl set_add s xs = s @ xs"
  by (induction xs arbitrary: s) (auto simp: set_add_def)

lemma uniq_distinct: "distinct xs \<Longrightarrow> uniq xs = xs"
  unfolding uniq_def using foldl_set_add_distinct [of "[]" xs] by simp

lemma uniq_idem [simp]: "uniq (uniq xs) = uniq xs"
  by (simp add: uniq_distinct)

lemma uniq_Nil [simp]: "uniq [] = []"
  by (simp add: uniq_def)

lemma uniq_eq_Nil_iff [simp]: "uniq xs = [] \<longleftrightarrow> xs = []"
  by (metis set_empty set_uniq)

lemma uniq_append_single:
  "uniq (xs @ [x]) = (if x \<in> set xs then uniq xs else uniq xs @ [x])"
proof -
  have "uniq (xs @ [x]) = set_add (uniq xs) x"
    by (simp add: uniq_def)
  then show ?thesis by (simp add: set_add_def)
qed

lemma length_uniq_le: "length (uniq xs) \<le> length xs"
  by (metis card_length distinct_card distinct_uniq set_uniq)

lemma length_uniq_card: "length (uniq xs) = card (set xs)"
  by (metis distinct_card distinct_uniq set_uniq)

text \<open>
  A \<open>Map\<close> is an association list with distinct keys, in insertion order:
  \<^term>\<open>map_of\<close> is \<open>get\<close>, \<^term>\<open>AList.update\<close> is \<open>set\<close> (an existing key keeps its place) and
  \<^term>\<open>AList.delete\<close> is \<open>delete\<close>.
\<close>

definition wf_map :: "('k \<times> 'v) list \<Rightarrow> bool" where
  "wf_map m \<longleftrightarrow> distinct (map fst m)"

lemma wf_map_Nil [simp, wf_intro]: "wf_map []"
  by (simp add: wf_map_def)

lemma wf_map_update [simp, wf_intro]: "wf_map m \<Longrightarrow> wf_map (AList.update k v m)"
  by (simp add: wf_map_def distinct_update)

lemma wf_map_delete [simp, wf_intro]: "wf_map m \<Longrightarrow> wf_map (AList.delete k m)"
  by (simp add: wf_map_def delete_keys distinct_removeAll)

lemma wf_map_tl [wf_intro]: "wf_map (p # m) \<Longrightarrow> wf_map m"
  by (simp add: wf_map_def)

lemma wf_map_drop [wf_intro]: "wf_map m \<Longrightarrow> wf_map (drop n m)"
  by (simp add: wf_map_def drop_map [symmetric])

lemma set_update_subset: "p \<in> set (AList.update k v m) \<Longrightarrow> p = (k, v) \<or> p \<in> set m"
  by (induction m) (auto split: if_splits)

lemma update_fresh: "k \<notin> fst ` set m \<Longrightarrow> AList.update k v m = m @ [(k, v)]"
  by (induction m) auto

lemma update_present_length:
  "k \<in> fst ` set m \<Longrightarrow> length (AList.update k v m) = length m"
  by (induction m) auto

lemma length_update_le: "length (AList.update k v m) \<le> Suc (length m)"
  by (induction m) auto

lemma length_delete_le: "length (AList.delete k m) \<le> length m"
  by (induction m) auto

section \<open>Sorting\<close>

text \<open>
  \<open>xs.sort(compare)\<close> is a stable sort; for a comparator that is a total preorder its result does
  not depend on the algorithm, and insertion sort stands for it.
\<close>

fun insert_by :: "('a \<Rightarrow> 'a \<Rightarrow> int) \<Rightarrow> 'a \<Rightarrow> 'a list \<Rightarrow> 'a list" where
  "insert_by cmp x [] = [x]"
| "insert_by cmp x (y # ys) = (if cmp x y \<le> 0 then x # y # ys else y # insert_by cmp x ys)"

definition sort_by :: "('a \<Rightarrow> 'a \<Rightarrow> int) \<Rightarrow> 'a list \<Rightarrow> 'a list" where
  "sort_by cmp xs = foldr (insert_by cmp) xs []"

definition total_cmp :: "('a \<Rightarrow> 'a \<Rightarrow> int) \<Rightarrow> bool" where
  "total_cmp cmp \<longleftrightarrow> (\<forall>x y. cmp x y \<le> 0 \<or> cmp y x \<le> 0) \<and>
     (\<forall>x y z. cmp x y \<le> 0 \<longrightarrow> cmp y z \<le> 0 \<longrightarrow> cmp x z \<le> 0)"

lemma mset_insert_by [simp]: "mset (insert_by cmp x xs) = add_mset x (mset xs)"
  by (induction xs) auto

lemma sort_by_simps [simp]:
  "sort_by cmp [] = []"
  "sort_by cmp (x # xs) = insert_by cmp x (sort_by cmp xs)"
  by (simp_all add: sort_by_def)

lemma mset_sort_by [simp]: "mset (sort_by cmp xs) = mset xs"
  by (induction xs) auto

lemma set_sort_by [simp]: "set (sort_by cmp xs) = set xs"
  by (metis mset_sort_by set_mset_mset)

lemma length_sort_by [simp]: "length (sort_by cmp xs) = length xs"
  by (metis mset_sort_by size_mset)

lemma set_insert_by [simp]: "set (insert_by cmp x xs) = insert x (set xs)"
  by (induction xs) auto

lemma sorted_insert_by:
  assumes "total_cmp cmp" "sorted_wrt (\<lambda>a b. cmp a b \<le> 0) xs"
  shows "sorted_wrt (\<lambda>a b. cmp a b \<le> 0) (insert_by cmp x xs)"
  using assms(2)
proof (induction xs)
  case (Cons y ys)
  show ?case
  proof (cases "cmp x y \<le> 0")
    case True
    with Cons.prems assms(1) show ?thesis by (auto simp: total_cmp_def)
  next
    case False
    then have "cmp y x \<le> 0" using assms(1) by (auto simp: total_cmp_def)
    with Cons False show ?thesis by simp
  qed
qed simp

lemma sorted_sort_by: "total_cmp cmp \<Longrightarrow> sorted_wrt (\<lambda>a b. cmp a b \<le> 0) (sort_by cmp xs)"
  by (induction xs) (simp_all add: sorted_insert_by)

text \<open>Stability: elements that compare equal keep their order.\<close>

lemma filter_insert_by:
  assumes "total_cmp cmp" "\<And>a b. P a \<Longrightarrow> P b \<Longrightarrow> cmp a b \<le> 0"
  shows "filter P (insert_by cmp x xs) = (if P x then x # filter P xs else filter P xs)"
  by (induction xs) (use assms(2) in auto)

lemma sort_by_stable:
  assumes "total_cmp cmp" "\<And>a b. P a \<Longrightarrow> P b \<Longrightarrow> cmp a b \<le> 0"
  shows "filter P (sort_by cmp xs) = filter P xs"
  by (induction xs) (simp_all add: filter_insert_by [OF assms])

lemma mset_concat_map: "mset (concat (map f xs)) = (\<Sum>x \<in># mset xs. mset (f x))"
  by (induction xs) simp_all

lemma mset_concat_map_sort:
  assumes "\<And>x. x \<in> set xs \<Longrightarrow> mset (f (g x)) = mset (h x)"
  shows "mset (concat (map f (sort_by c (map g xs)))) = mset (concat (map h xs))"
proof -
  have "mset (concat (map f (sort_by c (map g xs)))) = (\<Sum>x \<in># mset (map g xs). mset (f x))"
    unfolding mset_concat_map by simp
  also have "\<dots> = (\<Sum>x \<in># mset xs. mset (h x))"
    using assms by (induction xs) simp_all
  finally show ?thesis unfolding mset_concat_map .
qed

section \<open>Numbers\<close>

text \<open>\<open>Math.round\<close>, \<open>Math.floor\<close> and \<open>Math.ceil\<close> on finite numbers.\<close>

definition js_round :: "rat \<Rightarrow> int" where
  "js_round x = \<lfloor>x + 1 / 2\<rfloor>"

lemma js_round_of_int [simp]: "js_round (of_int n) = n"
  unfolding js_round_def by (rule floor_unique) auto

lemma js_round_mono: "x \<le> y \<Longrightarrow> js_round x \<le> js_round y"
  unfolding js_round_def by (rule floor_mono) simp

lemma js_round_ge: "of_int n \<le> x \<Longrightarrow> n \<le> js_round x"
  using js_round_mono [of "of_int n" x] by simp

lemma js_round_le: "x \<le> of_int n \<Longrightarrow> js_round x \<le> n"
  using js_round_mono [of x "of_int n"] by simp

lemma js_round_near: "\<bar>of_int (js_round x) - x\<bar> \<le> 1 / 2"
  unfolding js_round_def by linarith

end
