(* ===== verification/Js_Number.thy ===== *)
theory Js_Number
  imports Prelude
begin

text \<open>
  \<open>Number(s)\<close> on strings, \<open>String(n)\<close> on non-negative integers, and the integer tests the
  URL parsers rest on.  \<open>Number\<close> follows the language's StringNumericLiteral grammar: white
  space around the literal, the empty string as 0, an optional sign, decimal digits with an
  optional fraction and exponent, \<open>Infinity\<close>, and unsigned \<open>0x\<close>, \<open>0o\<close>, \<open>0b\<close> integers.  Values
  are exact rationals; a magnitude that no double can hold is infinite.
\<close>

datatype jsnum = Fin rat | PosInf | NegInf | NaN

definition overflow_bound :: rat where
  "overflow_bound = 2 ^ 1024 - 2 ^ 970"

definition num_of_rat :: "rat \<Rightarrow> jsnum" where
  "num_of_rat r =
     (if overflow_bound \<le> r then PosInf else if r \<le> - overflow_bound then NegInf else Fin r)"

definition digit_value :: "code_unit \<Rightarrow> nat option" where
  "digit_value c =
     (if 48 \<le> c \<and> c \<le> 57 then Some (unat c - 48)
      else if 97 \<le> c \<and> c \<le> 122 then Some (unat c - 87)
      else if 65 \<le> c \<and> c \<le> 90 then Some (unat c - 55)
      else None)"

text \<open>The value of a digit string in a base; \<^const>\<open>None\<close> when a character is no digit of it.\<close>

fun digits_value :: "nat \<Rightarrow> nat \<Rightarrow> jstr \<Rightarrow> nat option" where
  "digits_value b acc [] = Some acc"
| "digits_value b acc (c # cs) =
     (case digit_value c of
        None \<Rightarrow> None
      | Some d \<Rightarrow> if d < b then digits_value b (acc * b + d) cs else None)"

definition scale10 :: "nat \<Rightarrow> int \<Rightarrow> rat" where
  "scale10 m e = (if 0 \<le> e then of_nat m * 10 ^ nat e else of_nat m / 10 ^ nat (- e))"

text \<open>The exponent after \<open>e\<close>: an optional sign and at least one digit.\<close>

definition parse_exponent :: "jstr \<Rightarrow> int option" where
  "parse_exponent s =
     (case s of
        [] \<Rightarrow> None
      | c # cs \<Rightarrow>
          (let (sg, ds) = (if c = 45 then (-1, cs) else if c = 43 then (1, cs) else (1, s))
           in if ds = [] then None else map_option (\<lambda>n. sg * int n) (digits_value 10 0 ds)))"

definition parse_mantissa :: "jstr \<Rightarrow> int \<Rightarrow> rat option" where
  "parse_mantissa s e =
     (case split_on 46 s of
        [w] \<Rightarrow> if w = [] then None else map_option (\<lambda>n. scale10 n e) (digits_value 10 0 w)
      | [w, f] \<Rightarrow>
          if w = [] \<and> f = [] then None
          else map_option (\<lambda>n. scale10 n (e - int (length f))) (digits_value 10 0 (w @ f))
      | _ \<Rightarrow> None)"

definition parse_unsigned :: "jstr \<Rightarrow> jsnum" where
  "parse_unsigned s =
     (if s = js ''Infinity'' then PosInf
      else (let m = takeWhile (\<lambda>c. c \<noteq> 101 \<and> c \<noteq> 69) s; r = dropWhile (\<lambda>c. c \<noteq> 101 \<and> c \<noteq> 69) s
            in case (case r of [] \<Rightarrow> parse_mantissa m 0
                             | _ # es \<Rightarrow> Option.bind (parse_exponent es) (parse_mantissa m)) of
                 None \<Rightarrow> NaN
               | Some v \<Rightarrow> num_of_rat v))"

definition neg_num :: "jsnum \<Rightarrow> jsnum" where
  "neg_num x = (case x of Fin r \<Rightarrow> Fin (- r) | PosInf \<Rightarrow> NegInf | NegInf \<Rightarrow> PosInf | NaN \<Rightarrow> NaN)"

definition parse_radix :: "nat \<Rightarrow> jstr \<Rightarrow> jsnum" where
  "parse_radix b s =
     (if s = [] then NaN
      else case digits_value b 0 s of None \<Rightarrow> NaN | Some n \<Rightarrow> num_of_rat (of_nat n))"

definition js_number :: "jstr \<Rightarrow> jsnum" where
  "js_number s =
     (let t = js_trim s; p = map lower_unit (take 2 t) in
      if t = [] then Fin 0
      else if p = js ''0x'' then parse_radix 16 (drop 2 t)
      else if p = js ''0o'' then parse_radix 8 (drop 2 t)
      else if p = js ''0b'' then parse_radix 2 (drop 2 t)
      else if hd t = 45 then neg_num (parse_unsigned (tl t))
      else if hd t = 43 then parse_unsigned (tl t)
      else parse_unsigned t)"

text \<open>\<open>Number(x)\<close> of a nullable string: \<open>Number(null)\<close> is 0.\<close>

definition js_number_opt :: "jstr option \<Rightarrow> jsnum" where
  "js_number_opt x = (case x of None \<Rightarrow> Fin 0 | Some s \<Rightarrow> js_number s)"

text \<open>\<open>Number.isInteger(n)\<close> together with the integer itself.\<close>

definition as_integer :: "jsnum \<Rightarrow> int option" where
  "as_integer x = (case x of Fin r \<Rightarrow> if of_int \<lfloor>r\<rfloor> = r then Some \<lfloor>r\<rfloor> else None | _ \<Rightarrow> None)"

definition is_finite_num :: "jsnum \<Rightarrow> bool" where
  "is_finite_num x = (case x of Fin _ \<Rightarrow> True | _ \<Rightarrow> False)"

section \<open>Printing natural numbers\<close>

definition digit_unit :: "nat \<Rightarrow> code_unit" where
  "digit_unit d = of_nat (48 + d)"

fun show_nat :: "nat \<Rightarrow> jstr" where
  "show_nat n = (if n < 10 then [digit_unit n] else show_nat (n div 10) @ [digit_unit (n mod 10)])"

declare show_nat.simps [simp del]

definition show_int :: "int \<Rightarrow> jstr" where
  "show_int i = (if i < 0 then 45 # show_nat (nat (- i)) else show_nat (nat i))"

lemma show_nat_not_Nil [simp]: "show_nat n \<noteq> []"
  by (subst show_nat.simps) simp

lemma unat_digit_unit: "d < 10 \<Longrightarrow> unat (digit_unit d) = 48 + d"
  unfolding digit_unit_def unat_of_nat by simp

lemma digit_value_digit_unit [simp]: "d < 10 \<Longrightarrow> digit_value (digit_unit d) = Some d"
  by (simp add: digit_value_def word_le_nat_alt unat_digit_unit)

lemma is_digit_digit_unit [simp]: "d < 10 \<Longrightarrow> is_digit (digit_unit d)"
  by (simp add: is_digit_def word_le_nat_alt unat_digit_unit)

lemma digits_value_append:
  "digits_value b a (s @ t) = Option.bind (digits_value b a s) (\<lambda>n. digits_value b n t)"
  by (induction b a s rule: digits_value.induct) (auto split: option.splits)

lemma digits_value_show_nat [simp]: "digits_value 10 0 (show_nat n) = Some n"
proof (induction n rule: show_nat.induct)
  case (1 n)
  show ?case
  proof (cases "n < 10")
    case True
    then show ?thesis by (simp add: show_nat.simps [of n])
  next
    case False
    with 1 show ?thesis
      by (subst show_nat.simps) (simp add: digits_value_append)
  qed
qed

lemma show_nat_digits: "c \<in> set (show_nat n) \<Longrightarrow> is_digit c"
proof (induction n rule: show_nat.induct)
  case (1 n)
  show ?case
  proof (cases "n < 10")
    case True
    with 1 show ?thesis by (simp add: show_nat.simps [of n])
  next
    case False
    with 1 show ?thesis by (auto simp: show_nat.simps [of n])
  qed
qed

lemma show_nat_inj: "show_nat m = show_nat n \<longleftrightarrow> m = n"
  by (metis digits_value_show_nat option.inject)

lemma is_digit_unat: "is_digit c \<longleftrightarrow> 48 \<le> unat c \<and> unat c \<le> 57"
  by (simp add: is_digit_def word_le_nat_alt)

lemma digit_not_space: "is_digit c \<Longrightarrow> \<not> js_space c"
  by (auto simp: is_digit_unat js_space_def word_le_nat_alt)

lemma digit_neq:
  assumes "is_digit c"
  shows "c \<noteq> 46" "c \<noteq> 101" "c \<noteq> 69" "c \<noteq> 45" "c \<noteq> 43" "c \<noteq> 44" "c \<noteq> 120" "c \<noteq> 111" "c \<noteq> 98" "c \<noteq> 124"
  using assms by (auto simp: is_digit_unat)

lemma lower_digit [simp]: "is_digit c \<Longrightarrow> lower_unit c = c"
  by (auto simp: is_digit_unat lower_unit_def word_le_nat_alt)

lemma all_digits_trimmed: "(\<And>c. c \<in> set s \<Longrightarrow> is_digit c) \<Longrightarrow> trimmed s"
  by (auto simp: trimmed_def digit_not_space)

text \<open>A literal of digits and points that starts with a digit is read by its mantissa.\<close>

lemma js_number_plain:
  assumes plain: "\<And>c. c \<in> set s \<Longrightarrow> is_digit c \<or> c = 46" and ne: "s \<noteq> []" and hd: "is_digit (hd s)"
  shows "js_number s = (case parse_mantissa s 0 of None \<Rightarrow> NaN | Some v \<Rightarrow> num_of_rat v)"
proof -
  have "\<not> js_space c" if "c \<in> set s" for c
    using plain [OF that] by (auto simp: digit_not_space) (simp add: js_space_def)
  then have tr: "js_trim s = s"
    using ne by (intro trimmed_js_trim_id) (simp add: trimmed_def)
  have p: "map lower_unit (take 2 s) \<noteq> js [c, x]" if "of_char x \<in> {120, 111, 98::code_unit}" for c x
  proof
    assume eq: "map lower_unit (take 2 s) = js [c, x]"
    then have "length (take 2 s) = 2" by (metis length_js length_map length_Cons list.size(3) numeral_2_eq_2)
    then obtain a b r where s: "s = a # b # r"
      by (cases s; cases "tl s") auto
    then have b: "is_digit b \<or> b = 46" using plain by simp
    moreover have "lower_unit (46 :: code_unit) = 46" by (simp add: lower_unit_def)
    ultimately have "b = of_char x" using eq s by auto
    with b that digit_neq [of b] show False by auto
  qed
  have free: "101 \<notin> set s" "69 \<notin> set s"
    using plain digit_neq by fastforce+
  have tw: "takeWhile (\<lambda>c. c \<noteq> 101 \<and> c \<noteq> 69) s = s" "dropWhile (\<lambda>c. c \<noteq> 101 \<and> c \<noteq> 69) s = []"
    using free by (auto simp: takeWhile_eq_all_conv dropWhile_eq_Nil_conv)
  have ninf: "s \<noteq> js ''Infinity''"
  proof
    assume "s = js ''Infinity''"
    then have "is_digit (hd (js ''Infinity''))" using hd by simp
    then show False by (simp add: is_digit_def)
  qed
  have "parse_unsigned s = (case parse_mantissa s 0 of None \<Rightarrow> NaN | Some v \<Rightarrow> num_of_rat v)"
    unfolding parse_unsigned_def Let_def tw using ninf by (simp del: js_Cons)
  with ne tr p [where x = "CHR ''x''"] p [where x = "CHR ''o''"] p [where x = "CHR ''b''"] digit_neq [OF hd] show ?thesis
    by (simp add: js_number_def Let_def del: js_Cons)
qed

text \<open>The round trip of an integer through its decimal text.\<close>

lemma js_number_show_nat:
  assumes "of_nat n < overflow_bound"
  shows "js_number (show_nat n) = Fin (of_nat n)"
proof -
  have d: "is_digit c" if "c \<in> set (show_nat n)" for c using show_nat_digits that .
  then have "46 \<notin> set (show_nat n)" using digit_neq by blast
  then have "parse_mantissa (show_nat n) 0 = Some (of_nat n)"
    by (simp add: parse_mantissa_def split_on_free scale10_def)
  moreover have "num_of_rat (of_nat n) = Fin (of_nat n)"
    using assms by (simp add: num_of_rat_def overflow_bound_def)
  ultimately show ?thesis using d by (simp add: js_number_plain)
qed

lemma as_integer_of_nat [simp]: "as_integer (Fin (of_nat n)) = Some (int n)"
  by (simp add: as_integer_def)

lemma as_integer_show_nat:
  "of_nat n < overflow_bound \<Longrightarrow> as_integer (js_number (show_nat n)) = Some (int n)"
  by (simp add: js_number_show_nat)

lemma digits_value_replicate_zero [simp]: "digits_value 10 0 (replicate k 48 @ s) = digits_value 10 0 s"
  by (induction k) (simp_all add: digit_value_def word_le_nat_alt)

lemma length_show_nat: "n < 10 ^ k \<Longrightarrow> 0 < k \<Longrightarrow> length (show_nat n) \<le> k"
proof (induction k arbitrary: n)
  case (Suc k)
  show ?case
  proof (cases "n < 10")
    case True
    then show ?thesis by (subst show_nat.simps) simp
  next
    case False
    then have "0 < k" using Suc.prems by (cases k) auto
    moreover have "n div 10 < 10 ^ k" using Suc.prems by auto
    ultimately have "length (show_nat (n div 10)) \<le> k" using Suc.IH by blast
    then show ?thesis using False by (subst show_nat.simps) simp
  qed
qed simp

end
