(* ===== verification/Url_Params.thy ===== *)
theory Url_Params
  imports Js_Number
begin

text \<open>
  \<open>URLSearchParams\<close> as the ordered list of its decoded pairs, the enum and date pickers the
  pages share, and the interface of a page's URL codec: filters are parsed from the address
  and written back to it.  The percent-encoding between the pairs and the address text is the
  platform's and is not modelled.
\<close>

section \<open>Query parameters\<close>

type_synonym url_params = "(jstr \<times> jstr) list"

text \<open>\<open>q.get(k)\<close>, and a guarded \<open>if (c) q.set(k, v)\<close>, for a literal name \<open>k\<close>.\<close>

definition qget :: "url_params \<Rightarrow> string \<Rightarrow> jstr option" where
  "qget q k = map_of q (js k)"

definition qput :: "string \<Rightarrow> bool \<Rightarrow> jstr \<Rightarrow> url_params \<Rightarrow> url_params" where
  "qput k c v q = (if c then AList.update (js k) v q else q)"

definition or_empty :: "jstr option \<Rightarrow> jstr" where
  "or_empty x = (case x of None \<Rightarrow> [] | Some s \<Rightarrow> s)"

lemma qget_Nil [simp]: "qget [] k = None"
  by (simp add: qget_def)

lemma qget_qput [simp]:
  "qget (qput k c v q) l = (if c \<and> k = l then Some v else qget q l)"
  by (simp add: qget_def qput_def update_conv' js_eq_iff)

text \<open>\<open>set\<close> and \<open>delete\<close> of \<open>URLSearchParams\<close>.\<close>

definition qset :: "string \<Rightarrow> jstr \<Rightarrow> url_params \<Rightarrow> url_params" where
  "qset k v q = AList.update (js k) v q"

definition qdel :: "string \<Rightarrow> url_params \<Rightarrow> url_params" where
  "qdel k q = AList.delete (js k) q"

lemma qget_qset [simp]: "qget (qset k v q) l = (if k = l then Some v else qget q l)"
  by (simp add: qset_def qget_def update_conv' js_eq_iff)

lemma qget_qdel [simp]: "qget (qdel k q) l = (if k = l then None else qget q l)"
  by (simp add: qdel_def qget_def delete_conv' js_eq_iff)

lemma or_empty_simps [simp]: "or_empty None = []" "or_empty (Some s) = s"
  by (simp_all add: or_empty_def)

lemma wf_map_qput [simp, wf_intro]: "wf_map q \<Longrightarrow> wf_map (qput k c v q)"
  by (simp add: qput_def)

section \<open>Pickers\<close>

text \<open>
  \<open>pickEnum(value, allowed, fallback)\<close>: a TypeScript union of string literals is a datatype,
  and \<open>name\<close> gives each constructor its literal.
\<close>

definition pick_enum :: "('e \<Rightarrow> string) \<Rightarrow> 'e list \<Rightarrow> 'e \<Rightarrow> jstr option \<Rightarrow> 'e" where
  "pick_enum name allowed fb v =
     (case v of
        None \<Rightarrow> fb
      | Some s \<Rightarrow>
          (case find (\<lambda>e. js (name e) = s \<and> s \<noteq> []) allowed of None \<Rightarrow> fb | Some e \<Rightarrow> e))"

lemma pick_enum_None [simp]: "pick_enum name allowed fb None = fb"
  by (simp add: pick_enum_def)

lemma pick_enum_name:
  assumes "e \<in> set allowed" and "inj_on name (set allowed)" and "name e \<noteq> []"
  shows "pick_enum name allowed fb (Some (js (name e))) = e"
proof -
  have "find (\<lambda>d. js (name d) = js (name e) \<and> js (name e) \<noteq> []) allowed = Some e"
    using assms
  proof (induction allowed)
    case (Cons a as)
    then show ?case
      by (cases "a = e") (auto simp: js_eq_iff inj_on_def)
  qed simp
  then show ?thesis by (simp add: pick_enum_def)
qed

lemma pick_enum_range: "pick_enum name allowed fb v \<in> insert fb (set allowed)"
  by (auto simp: pick_enum_def find_Some_iff split: option.splits)

text \<open>\<open>const n = Number(x); Number.isInteger(n) && n > lo ? n : fallback\<close>.\<close>

definition pick_int :: "int \<Rightarrow> int \<Rightarrow> jstr option \<Rightarrow> int" where
  "pick_int lo fb v =
     (case as_integer (js_number_opt v) of
        Some n \<Rightarrow> if lo < n then n else fb
      | None \<Rightarrow> fb)"

text \<open>\<open>allowed.includes(Number(x)) ? Number(x) : fallback\<close>.\<close>

definition pick_size :: "int list \<Rightarrow> int \<Rightarrow> jstr option \<Rightarrow> int" where
  "pick_size allowed fb v =
     (case as_integer (js_number_opt v) of
        Some n \<Rightarrow> if n \<in> set allowed then n else fb
      | None \<Rightarrow> fb)"

definition printable_int :: "int \<Rightarrow> bool" where
  "printable_int n \<longleftrightarrow> 0 \<le> n \<and> of_int n < overflow_bound"

lemma as_integer_show_int:
  assumes "printable_int n"
  shows "as_integer (js_number (show_int n)) = Some n"
proof -
  have "of_nat (nat n) < overflow_bound"
    using assms by (simp add: printable_int_def of_nat_nat)
  from as_integer_show_nat [OF this] show ?thesis
    using assms by (simp add: printable_int_def show_int_def)
qed

lemma pick_int_None [simp]: "0 \<le> lo \<Longrightarrow> pick_int lo fb None = fb"
  by (simp add: pick_int_def js_number_opt_def as_integer_def)

lemma pick_int_show [simp]:
  "printable_int n \<Longrightarrow> pick_int lo fb (Some (show_int n)) = (if lo < n then n else fb)"
  by (simp add: pick_int_def js_number_opt_def as_integer_show_int)

lemma pick_int_bound: "lo < fb \<Longrightarrow> lo < pick_int lo fb v"
  by (auto simp: pick_int_def split: option.splits)

lemma pick_size_None [simp]: "0 \<notin> set allowed \<Longrightarrow> pick_size allowed fb None = fb"
  by (simp add: pick_size_def js_number_opt_def as_integer_def)

lemma pick_size_show [simp]:
  "printable_int n \<Longrightarrow> n \<in> set allowed \<Longrightarrow> pick_size allowed fb (Some (show_int n)) = n"
  by (simp add: pick_size_def js_number_opt_def as_integer_show_int)

lemma pick_size_range: "fb \<in> set allowed \<Longrightarrow> pick_size allowed fb v \<in> set allowed"
  by (auto simp: pick_size_def split: option.splits)

text \<open>Comma-separated lists.\<close>

lemma split_join_comma:
  "xs \<noteq> [] \<Longrightarrow> (\<And>x. x \<in> set xs \<Longrightarrow> 44 \<notin> set x) \<Longrightarrow> split_on 44 (join [44] xs) = (xs :: jstr list)"
  by (rule split_on_join)

lemma show_int_no_comma: "0 \<le> n \<Longrightarrow> 44 \<notin> set (show_int n)"
  by (auto simp: show_int_def dest: show_nat_digits digit_neq)

lemma join_eq_Nil: "join sep xs = [] \<Longrightarrow> x \<in> set xs \<Longrightarrow> x = []"
  by (induction sep xs rule: join.induct) auto

section \<open>Dates typed into a filter\<close>

text \<open>String comparison \<open>a < b\<close>, by code units.\<close>

fun str_less :: "jstr \<Rightarrow> jstr \<Rightarrow> bool" where
  "str_less _ [] = False"
| "str_less [] (_ # _) = True"
| "str_less (a # as) (b # bs) = (a < b \<or> (a = b \<and> str_less as bs))"

lemma str_less_irrefl [simp]: "\<not> str_less s s"
  by (induction s) auto

lemma str_less_asym: "str_less s t \<Longrightarrow> \<not> str_less t s"
  by (induction s t rule: str_less.induct) auto

definition order_pair :: "jstr \<Rightarrow> jstr \<Rightarrow> jstr \<times> jstr" where
  "order_pair a b = (if a \<noteq> [] \<and> b \<noteq> [] \<and> str_less b a then (b, a) else (a, b))"

definition ordered_pair :: "jstr \<Rightarrow> jstr \<Rightarrow> bool" where
  "ordered_pair a b \<longleftrightarrow> a = [] \<or> b = [] \<or> \<not> str_less b a"

lemma order_pair_ordered: "order_pair a b = (c, d) \<Longrightarrow> ordered_pair c d"
  by (auto simp: order_pair_def ordered_pair_def str_less_asym split: if_splits)

lemma order_pair_range:
  "order_pair a b = (c, d) \<Longrightarrow> P a \<Longrightarrow> P b \<Longrightarrow> P c \<and> P d"
  by (auto simp: order_pair_def split: if_splits)

lemma order_pair_id: "ordered_pair a b \<Longrightarrow> order_pair a b = (a, b)"
  by (auto simp: order_pair_def ordered_pair_def)

section \<open>The codec of a page\<close>

text \<open>
  A page parses its filters from the address and prints them back.  \<open>canon\<close> is what printing
  forgets (outer white space of a search box); \<open>valid\<close> is what every parsed value satisfies.
\<close>

locale url_codec =
  fixes parse :: "url_params \<Rightarrow> 'f"
    and print :: "'f \<Rightarrow> url_params"
    and canon :: "'f \<Rightarrow> 'f"
    and valid :: "'f \<Rightarrow> bool"
  assumes parse_print: "valid f \<Longrightarrow> parse (print f) = canon f"
    and valid_canon: "valid f \<Longrightarrow> valid (canon f)"
    and canon_idem: "canon (canon f) = canon f"
    and print_canon: "print (canon f) = print f"
begin

lemma print_stable: "valid f \<Longrightarrow> print (parse (print f)) = print f"
  by (simp add: parse_print print_canon)

lemma parse_canonical: "valid f \<Longrightarrow> parse (print (canon f)) = canon f"
  by (simp add: print_canon parse_print)

lemma reload_idem: "valid f \<Longrightarrow> parse (print (parse (print f))) = parse (print f)"
  by (simp add: print_stable)

lemma print_inj: "valid f \<Longrightarrow> valid g \<Longrightarrow> print f = print g \<longleftrightarrow> canon f = canon g"
  by (metis parse_print print_canon)

end

end
