(* ===== verification/Inventory_Filters.thy ===== *)
theory Inventory_Filters
  imports Url_Params
begin

text \<open>
  The URL state of the seller inventory pages (features/seller-inventory/model.ts): the
  packages console, the package page and the export page.  Each page's parser and printer
  form the interface \<open>url_codec\<close>, interpreted below on the model's definitions.
\<close>

section \<open>Enumerations\<close>

datatype stock_tab = TabAll | TabLow | TabOut | TabError | TabInactive
datatype package_sort = AvailableAsc | AvailableDesc | SortTitle | LastRestock | SoldDesc
datatype product_status_filter = ProductsAll | ProductsActive | ProductsPaused

fun stock_tab_name :: "stock_tab \<Rightarrow> string" where
  "stock_tab_name TabAll = ''all''"
| "stock_tab_name TabLow = ''low''"
| "stock_tab_name TabOut = ''out''"
| "stock_tab_name TabError = ''error''"
| "stock_tab_name TabInactive = ''inactive''"

fun package_sort_name :: "package_sort \<Rightarrow> string" where
  "package_sort_name AvailableAsc = ''available_asc''"
| "package_sort_name AvailableDesc = ''available_desc''"
| "package_sort_name SortTitle = ''title''"
| "package_sort_name LastRestock = ''last_restock''"
| "package_sort_name SoldDesc = ''sold_desc''"

fun product_status_name :: "product_status_filter \<Rightarrow> string" where
  "product_status_name ProductsAll = ''all''"
| "product_status_name ProductsActive = ''active''"
| "product_status_name ProductsPaused = ''paused''"

definition STOCK_TABS :: "stock_tab list" where
  "STOCK_TABS = [TabAll, TabLow, TabOut, TabError, TabInactive]"

definition PACKAGE_SORTS :: "package_sort list" where
  "PACKAGE_SORTS = [AvailableAsc, AvailableDesc, SortTitle, LastRestock, SoldDesc]"

definition PRODUCT_STATUS_FILTERS :: "product_status_filter list" where
  "PRODUCT_STATUS_FILTERS = [ProductsAll, ProductsActive, ProductsPaused]"

lemma pick_stock_tab [codec_simps]:
  "pick_enum stock_tab_name STOCK_TABS fb (Some (js (stock_tab_name e))) = e"
  by (rule pick_enum_name; cases e; auto simp: STOCK_TABS_def inj_on_def)

lemma pick_package_sort [codec_simps]:
  "pick_enum package_sort_name PACKAGE_SORTS fb (Some (js (package_sort_name e))) = e"
  by (rule pick_enum_name; cases e; auto simp: PACKAGE_SORTS_def inj_on_def)

lemma pick_product_status [codec_simps]:
  "pick_enum product_status_name PRODUCT_STATUS_FILTERS fb (Some (js (product_status_name e))) = e"
  by (rule pick_enum_name; cases e; auto simp: PRODUCT_STATUS_FILTERS_def inj_on_def)

section \<open>The packages console\<close>

record inventory_filters =
  inv_tab :: stock_tab
  inv_search :: jstr
  inv_categoryIds :: "int list"
  inv_productStatus :: product_status_filter
  inv_sort :: package_sort
  inv_grouped :: bool
  inv_hideInactive :: bool
  inv_page :: int

definition DEFAULT_INVENTORY_FILTERS :: inventory_filters where
  "DEFAULT_INVENTORY_FILTERS =
     \<lparr>inv_tab = TabAll, inv_search = [], inv_categoryIds = [], inv_productStatus = ProductsAll,
      inv_sort = AvailableAsc, inv_grouped = True, inv_hideInactive = True, inv_page = 1\<rparr>"

text \<open>\<open>s.split(",").map(Number).filter(n => Number.isInteger(n) && n > 0)\<close>, without repeats.\<close>

definition positive_ints :: "jstr \<Rightarrow> int list" where
  "positive_ints s =
     filter (\<lambda>n. 0 < n) (List.map_filter (\<lambda>part. as_integer (js_number part)) (split_on 44 s))"

definition parseInventoryFilters :: "url_params \<Rightarrow> inventory_filters" where
  "parseInventoryFilters q =
     \<lparr>inv_tab = pick_enum stock_tab_name STOCK_TABS TabAll (qget q ''tab''),
      inv_search = or_empty (qget q ''search''),
      inv_categoryIds = uniq (positive_ints (or_empty (qget q ''category''))),
      inv_productStatus =
        pick_enum product_status_name PRODUCT_STATUS_FILTERS
          (inv_productStatus DEFAULT_INVENTORY_FILTERS) (qget q ''products''),
      inv_sort = pick_enum package_sort_name PACKAGE_SORTS AvailableAsc (qget q ''sort''),
      inv_grouped = (qget q ''view'' \<noteq> Some (js ''flat'')),
      inv_hideInactive = (qget q ''inactive'' \<noteq> Some (js ''show'')),
      inv_page = pick_int 1 1 (qget q ''page'')\<rparr>"

definition inventoryFiltersToSearch :: "inventory_filters \<Rightarrow> url_params" where
  "inventoryFiltersToSearch f =
     qput ''page'' (1 < inv_page f) (show_int (inv_page f))
     (qput ''inactive'' (\<not> inv_hideInactive f) (js ''show'')
     (qput ''view'' (\<not> inv_grouped f) (js ''flat'')
     (qput ''sort'' (inv_sort f \<noteq> AvailableAsc) (js (package_sort_name (inv_sort f)))
     (qput ''products'' (inv_productStatus f \<noteq> inv_productStatus DEFAULT_INVENTORY_FILTERS)
        (js (product_status_name (inv_productStatus f)))
     (qput ''category'' (inv_categoryIds f \<noteq> []) (join [44] (map show_int (inv_categoryIds f)))
     (qput ''search'' (js_trim (inv_search f) \<noteq> []) (js_trim (inv_search f))
     (qput ''tab'' (inv_tab f \<noteq> TabAll) (js (stock_tab_name (inv_tab f))) [])))))))"

definition hasActiveInventoryFilters :: "inventory_filters \<Rightarrow> bool" where
  "hasActiveInventoryFilters f \<longleftrightarrow>
     inv_tab f \<noteq> TabAll \<or> js_trim (inv_search f) \<noteq> [] \<or> inv_categoryIds f \<noteq> [] \<or>
     inv_productStatus f \<noteq> inv_productStatus DEFAULT_INVENTORY_FILTERS"

definition inventory_canon :: "inventory_filters \<Rightarrow> inventory_filters" where
  "inventory_canon f = f\<lparr>inv_search := js_trim (inv_search f)\<rparr>"

definition inventory_valid :: "inventory_filters \<Rightarrow> bool" where
  "inventory_valid f \<longleftrightarrow>
     distinct (inv_categoryIds f) \<and> (\<forall>n \<in> set (inv_categoryIds f). 0 < n \<and> printable_int n) \<and>
     1 \<le> inv_page f \<and> printable_int (inv_page f)"

lemma positive_ints_Nil [simp]: "positive_ints [] = []"
  by (simp add: positive_ints_def map_filter_simps js_number_def as_integer_def)

lemma positive_ints_join [codec_simps]:
  assumes "\<And>n. n \<in> set ns \<Longrightarrow> 0 < n \<and> printable_int n" and "ns \<noteq> []"
  shows "positive_ints (join [44] (map show_int ns)) = ns"
proof -
  have "split_on 44 (join [44] (map show_int ns)) = map show_int ns"
    using assms by (intro split_join_comma) (auto simp: show_int_no_comma dest!: assms(1))
  moreover have "List.map_filter (\<lambda>p. as_integer (js_number p)) (map show_int ns) = ns"
    using assms(1) by (induction ns) (simp_all add: map_filter_simps as_integer_show_int)
  ultimately show ?thesis
    using assms(1) by (simp add: positive_ints_def)
qed

lemma join_show_int_not_Nil [simp]: "join [44] (map show_int (n # ns)) \<noteq> []"
  by (cases ns) (auto simp: show_int_def)

interpretation inventory_url: url_codec parseInventoryFilters inventoryFiltersToSearch
  inventory_canon inventory_valid
proof
  fix f :: inventory_filters
  assume v: "inventory_valid f"
  show "parseInventoryFilters (inventoryFiltersToSearch f) = inventory_canon f"
    using v
    by (intro inventory_filters.equality)
      (auto simp: parseInventoryFilters_def inventoryFiltersToSearch_def inventory_canon_def
        inventory_valid_def DEFAULT_INVENTORY_FILTERS_def codec_simps uniq_distinct js_eq_iff)
  show "inventory_valid (inventory_canon f)"
    using v by (simp add: inventory_valid_def inventory_canon_def)
qed (auto simp: inventory_canon_def inventoryFiltersToSearch_def)


text \<open>Whatever the address holds, the parsed filters are in range.\<close>

lemma parseInventoryFilters_range:
  "1 \<le> inv_page (parseInventoryFilters q)"
  "distinct (inv_categoryIds (parseInventoryFilters q))"
  "n \<in> set (inv_categoryIds (parseInventoryFilters q)) \<Longrightarrow> 0 < n"
  by (auto simp: parseInventoryFilters_def positive_ints_def pick_int_def split: option.splits)

section \<open>The package page\<close>

datatype resource_status = StAvailable | StAssigned | StError | StReturned | StExpired
datatype status_filter = StatusAll | StatusOf resource_status | StatusArchived
datatype date_preset = DateAll | Date7d | Date30d | Date90d | DateCustom
datatype order_filter = OrderAll | OrderWith | OrderWithout
datatype resource_sort = Newest | Oldest

fun resource_status_name :: "resource_status \<Rightarrow> string" where
  "resource_status_name StAvailable = ''available''"
| "resource_status_name StAssigned = ''assigned''"
| "resource_status_name StError = ''error''"
| "resource_status_name StReturned = ''returned''"
| "resource_status_name StExpired = ''expired''"

fun status_filter_name :: "status_filter \<Rightarrow> string" where
  "status_filter_name StatusAll = ''all''"
| "status_filter_name (StatusOf s) = resource_status_name s"
| "status_filter_name StatusArchived = ''archived''"

fun date_preset_name :: "date_preset \<Rightarrow> string" where
  "date_preset_name DateAll = ''all''"
| "date_preset_name Date7d = ''7d''"
| "date_preset_name Date30d = ''30d''"
| "date_preset_name Date90d = ''90d''"
| "date_preset_name DateCustom = ''custom''"

fun order_filter_name :: "order_filter \<Rightarrow> string" where
  "order_filter_name OrderAll = ''all''"
| "order_filter_name OrderWith = ''with''"
| "order_filter_name OrderWithout = ''without''"

fun resource_sort_name :: "resource_sort \<Rightarrow> string" where
  "resource_sort_name Newest = ''newest''"
| "resource_sort_name Oldest = ''oldest''"

definition RESOURCE_PAGE_SIZES :: "int list" where
  "RESOURCE_PAGE_SIZES = [25, 50, 100, 200, 500]"

definition RESOURCE_STATUSES :: "resource_status list" where
  "RESOURCE_STATUSES = [StAvailable, StAssigned, StError, StReturned, StExpired]"

definition RESOURCE_STATUS_TABS :: "status_filter list" where
  "RESOURCE_STATUS_TABS =
     [StatusAll, StatusOf StAvailable, StatusOf StAssigned, StatusOf StError, StatusOf StReturned,
      StatusOf StExpired, StatusArchived]"

definition RESOURCE_DATE_PRESETS :: "date_preset list" where
  "RESOURCE_DATE_PRESETS = [DateAll, Date7d, Date30d, Date90d, DateCustom]"

definition ORDER_FILTERS :: "order_filter list" where
  "ORDER_FILTERS = [OrderAll, OrderWith, OrderWithout]"

definition RESOURCE_SORTS :: "resource_sort list" where
  "RESOURCE_SORTS = [Newest, Oldest]"

lemma inj_resource_status_name: "resource_status_name a = resource_status_name b \<longleftrightarrow> a = b"
  by (cases a; cases b) auto

lemma inj_status_filter_name: "status_filter_name a = status_filter_name b \<longleftrightarrow> a = b"
proof -
  have "resource_status_name s \<noteq> ''all''" "resource_status_name s \<noteq> ''archived''"
    "''all'' \<noteq> resource_status_name s" "''archived'' \<noteq> resource_status_name s" for s
    by (cases s; simp)+
  then show ?thesis
    by (cases a; cases b) (simp_all add: inj_resource_status_name)
qed

lemma resource_status_name_not_Nil [simp]: "resource_status_name s \<noteq> []"
  by (cases s) auto

lemma pick_status_filter [codec_simps]:
  "pick_enum status_filter_name RESOURCE_STATUS_TABS fb (Some (js (status_filter_name e))) = e"
proof (rule pick_enum_name)
  show "e \<in> set RESOURCE_STATUS_TABS"
  proof (cases e)
    case (StatusOf s)
    then show ?thesis by (cases s) (simp_all add: RESOURCE_STATUS_TABS_def)
  qed (simp_all add: RESOURCE_STATUS_TABS_def)
  show "inj_on status_filter_name (set RESOURCE_STATUS_TABS)"
    by (simp add: inj_on_def inj_status_filter_name)
  show "status_filter_name e \<noteq> []" by (cases e) simp_all
qed

lemma pick_date_preset [codec_simps]:
  "pick_enum date_preset_name RESOURCE_DATE_PRESETS fb (Some (js (date_preset_name e))) = e"
  by (rule pick_enum_name; cases e; auto simp: RESOURCE_DATE_PRESETS_def inj_on_def)

lemma pick_order_filter [codec_simps]:
  "pick_enum order_filter_name ORDER_FILTERS fb (Some (js (order_filter_name e))) = e"
  by (rule pick_enum_name; cases e; auto simp: ORDER_FILTERS_def inj_on_def)

lemma pick_resource_sort [codec_simps]:
  "pick_enum resource_sort_name RESOURCE_SORTS fb (Some (js (resource_sort_name e))) = e"
  by (rule pick_enum_name; cases e; auto simp: RESOURCE_SORTS_def inj_on_def)

text \<open>
  \<open>isIsoDate\<close> of features/seller-dashboard/model.ts.  \<open>date_ok v\<close> says that
  \<open>Date.parse(v + "T00:00:00Z")\<close> is a time; on the days 29 to 31 of a shorter month engines
  differ, so it is a parameter.
\<close>

definition iso_shape :: "jstr \<Rightarrow> bool" where
  "iso_shape v \<longleftrightarrow>
     length v = 10 \<and> list_all is_digit (take 4 v) \<and> v ! 4 = 45 \<and>
     list_all is_digit (take 2 (drop 5 v)) \<and> v ! 7 = 45 \<and> list_all is_digit (drop 8 v)"

definition isIsoDate :: "(jstr \<Rightarrow> bool) \<Rightarrow> jstr \<Rightarrow> bool" where
  "isIsoDate date_ok v \<longleftrightarrow> v \<noteq> [] \<and> iso_shape v \<and> date_ok v"

definition BATCH_REF :: "jstr \<Rightarrow> bool" where
  "BATCH_REF s \<longleftrightarrow>
     s = js ''none'' \<or> (s \<noteq> [] \<and> list_all is_digit s) \<or>
     (4 \<le> length s \<and> length s \<le> 12 \<and>
      list_all (\<lambda>c. is_digit c \<or> (97 \<le> c \<and> c \<le> 122)) s)"

record resource_filters =
  res_status :: status_filter
  res_search :: jstr
  res_datePreset :: date_preset
  res_from :: jstr
  res_to :: jstr
  res_order :: order_filter
  res_sort :: resource_sort
  res_page :: int
  res_perPage :: int
  res_restock :: bool
  res_batch :: jstr

definition DEFAULT_RESOURCE_FILTERS :: resource_filters where
  "DEFAULT_RESOURCE_FILTERS =
     \<lparr>res_status = StatusAll, res_search = [], res_datePreset = DateAll, res_from = [], res_to = [],
      res_order = OrderAll, res_sort = Newest, res_page = 1, res_perPage = 100, res_restock = False,
      res_batch = []\<rparr>"

text \<open>The two dates of a custom range: each one applies on its own, and they are put in order.\<close>

definition custom_range :: "(jstr \<Rightarrow> bool) \<Rightarrow> date_preset \<Rightarrow> url_params \<Rightarrow> jstr \<times> jstr" where
  "custom_range date_ok preset q =
     (let rawFrom = or_empty (qget q ''from''); rawTo = or_empty (qget q ''to'');
          custom = (preset = DateCustom);
          from = (if custom \<and> isIsoDate date_ok rawFrom then rawFrom else []);
          to = (if custom \<and> isIsoDate date_ok rawTo then rawTo else [])
      in order_pair from to)"

definition batch_param :: "url_params \<Rightarrow> jstr" where
  "batch_param q =
     (if BATCH_REF (or_empty (qget q ''batch'')) then or_empty (qget q ''batch'') else [])"

definition parseResourceFilters :: "(jstr \<Rightarrow> bool) \<Rightarrow> url_params \<Rightarrow> resource_filters" where
  "parseResourceFilters date_ok q =
     (let preset = pick_enum date_preset_name RESOURCE_DATE_PRESETS DateAll (qget q ''date'');
          (from, to) = custom_range date_ok preset q
      in \<lparr>res_status = pick_enum status_filter_name RESOURCE_STATUS_TABS StatusAll (qget q ''status''),
          res_search = or_empty (qget q ''search''),
          res_datePreset = preset, res_from = from, res_to = to,
          res_order = pick_enum order_filter_name ORDER_FILTERS OrderAll (qget q ''order''),
          res_sort = pick_enum resource_sort_name RESOURCE_SORTS Newest (qget q ''sort''),
          res_page = pick_int 1 1 (qget q ''page''),
          res_perPage = pick_size RESOURCE_PAGE_SIZES 100 (qget q ''per_page''),
          res_restock = (qget q ''restock'' = Some (js ''1'')),
          res_batch = batch_param q\<rparr>)"

definition resourceFiltersToSearch :: "resource_filters \<Rightarrow> url_params" where
  "resourceFiltersToSearch f =
     qput ''batch'' (res_batch f \<noteq> []) (res_batch f)
     (qput ''restock'' (res_restock f) (js ''1'')
     (qput ''per_page'' (res_perPage f \<noteq> 100) (show_int (res_perPage f))
     (qput ''page'' (1 < res_page f) (show_int (res_page f))
     (qput ''sort'' (res_sort f \<noteq> Newest) (js (resource_sort_name (res_sort f)))
     (qput ''order'' (res_order f \<noteq> OrderAll) (js (order_filter_name (res_order f)))
     (qput ''to'' (res_datePreset f = DateCustom \<and> res_to f \<noteq> []) (res_to f)
     (qput ''from'' (res_datePreset f = DateCustom \<and> res_from f \<noteq> []) (res_from f)
     (qput ''date'' (res_datePreset f \<noteq> DateAll) (js (date_preset_name (res_datePreset f)))
     (qput ''search'' (js_trim (res_search f) \<noteq> []) (js_trim (res_search f))
     (qput ''status'' (res_status f \<noteq> StatusAll) (js (status_filter_name (res_status f))) []))))))))))"

definition resource_canon :: "resource_filters \<Rightarrow> resource_filters" where
  "resource_canon f = f\<lparr>res_search := js_trim (res_search f)\<rparr>"

definition range_valid :: "(jstr \<Rightarrow> bool) \<Rightarrow> date_preset \<Rightarrow> jstr \<Rightarrow> jstr \<Rightarrow> bool" where
  "range_valid date_ok preset from to \<longleftrightarrow>
     (preset \<noteq> DateCustom \<longrightarrow> from = [] \<and> to = []) \<and>
     (from = [] \<or> isIsoDate date_ok from) \<and> (to = [] \<or> isIsoDate date_ok to) \<and> ordered_pair from to"

definition resource_valid :: "(jstr \<Rightarrow> bool) \<Rightarrow> resource_filters \<Rightarrow> bool" where
  "resource_valid date_ok f \<longleftrightarrow>
     range_valid date_ok (res_datePreset f) (res_from f) (res_to f) \<and>
     1 \<le> res_page f \<and> printable_int (res_page f) \<and> res_perPage f \<in> set RESOURCE_PAGE_SIZES \<and>
     (res_batch f = [] \<or> BATCH_REF (res_batch f))"

lemma isIsoDate_Nil [simp]: "\<not> isIsoDate date_ok []"
  by (simp add: isIsoDate_def)

lemma BATCH_REF_Nil [simp]: "\<not> BATCH_REF []"
  by (simp add: BATCH_REF_def)

lemma page_size_printable: "n \<in> set RESOURCE_PAGE_SIZES \<Longrightarrow> printable_int n"
  by (auto simp: RESOURCE_PAGE_SIZES_def printable_int_def overflow_bound_def)

lemma custom_range_valid:
  assumes "custom_range date_ok preset q = (a, b)"
  shows "range_valid date_ok preset a b"
proof -
  let ?P = "\<lambda>s. (preset \<noteq> DateCustom \<longrightarrow> s = []) \<and> (s = [] \<or> isIsoDate date_ok s)"
  have "?P a \<and> ?P b"
    by (rule order_pair_range [OF assms [unfolded custom_range_def Let_def]]) simp_all
  moreover have "ordered_pair a b"
    by (rule order_pair_ordered [OF assms [unfolded custom_range_def Let_def]])
  ultimately show ?thesis by (auto simp: range_valid_def)
qed

text \<open>A range survives its printed form.\<close>

lemma custom_range_print:
  assumes "range_valid date_ok preset a b"
    and "or_empty (qget q ''from'') = (if preset = DateCustom then a else [])"
    and "or_empty (qget q ''to'') = (if preset = DateCustom then b else [])"
  shows "custom_range date_ok preset q = (a, b)"
proof -
  have "order_pair a b = (a, b)"
    using assms(1) by (intro order_pair_id) (simp add: range_valid_def)
  then show ?thesis
    using assms by (cases "preset = DateCustom") (auto simp: custom_range_def Let_def range_valid_def)
qed

lemma pick_page_size [codec_simps]:
  "n \<in> set RESOURCE_PAGE_SIZES \<Longrightarrow> pick_size RESOURCE_PAGE_SIZES fb (Some (show_int n)) = n"
  by (simp add: page_size_printable)

lemma pick_page_size_None [codec_simps]: "pick_size RESOURCE_PAGE_SIZES fb None = fb"
  by (simp add: RESOURCE_PAGE_SIZES_def)

lemma parse_resource_print:
  assumes "resource_valid date_ok f"
  shows "parseResourceFilters date_ok (resourceFiltersToSearch f) = resource_canon f"
proof -
  let ?q = "resourceFiltersToSearch f"
  have preset: "pick_enum date_preset_name RESOURCE_DATE_PRESETS DateAll (qget ?q ''date'') =
      res_datePreset f"
    by (simp add: resourceFiltersToSearch_def codec_simps)
  have range: "custom_range date_ok (res_datePreset f) ?q = (res_from f, res_to f)"
    using assms by (intro custom_range_print) (simp_all add: resource_valid_def resourceFiltersToSearch_def)
  have batch: "batch_param ?q = res_batch f"
    using assms by (auto simp: batch_param_def resourceFiltersToSearch_def resource_valid_def)
  show ?thesis
    unfolding parseResourceFilters_def Let_def preset range batch
    using assms
    by (intro resource_filters.equality)
      (auto simp: resourceFiltersToSearch_def resource_canon_def resource_valid_def codec_simps js_eq_iff)
qed

interpretation resource_url: url_codec "parseResourceFilters date_ok" resourceFiltersToSearch
  resource_canon "resource_valid date_ok" for date_ok
  by (unfold_locales, erule parse_resource_print)
    (simp_all add: resource_canon_def resource_valid_def resourceFiltersToSearch_def)

lemma parseResourceFilters_range:
  "range_valid date_ok (res_datePreset (parseResourceFilters date_ok q))
     (res_from (parseResourceFilters date_ok q)) (res_to (parseResourceFilters date_ok q))"
  "res_perPage (parseResourceFilters date_ok q) \<in> set RESOURCE_PAGE_SIZES"
  by (auto simp: parseResourceFilters_def Let_def custom_range_valid pick_size_range
      RESOURCE_PAGE_SIZES_def pick_size_def split: prod.splits option.splits)


section \<open>The export page\<close>

datatype export_tab = TabReport | TabGoods
datatype archived_mode = ArchExclude | ArchInclude | ArchOnly

fun export_tab_name :: "export_tab \<Rightarrow> string" where
  "export_tab_name TabReport = ''report''"
| "export_tab_name TabGoods = ''goods''"

fun archived_mode_name :: "archived_mode \<Rightarrow> string" where
  "archived_mode_name ArchExclude = ''exclude''"
| "archived_mode_name ArchInclude = ''include''"
| "archived_mode_name ArchOnly = ''only''"

definition ARCHIVED_MODES :: "archived_mode list" where
  "ARCHIVED_MODES = [ArchExclude, ArchInclude, ArchOnly]"

lemma pick_archived_mode [codec_simps]:
  "pick_enum archived_mode_name ARCHIVED_MODES fb (Some (js (archived_mode_name e))) = e"
  by (rule pick_enum_name; cases e; auto simp: ARCHIVED_MODES_def inj_on_def)

text \<open>The goods filters; \<open>statuses\<close> of \<^const>\<open>None\<close> is the export's own default (ready stock).\<close>

record goods_filters =
  goods_statuses :: "resource_status list option"
  goods_archived :: archived_mode
  goods_search :: jstr
  goods_order :: order_filter
  goods_batch :: jstr
  goods_preset :: date_preset
  goods_from :: jstr
  goods_to :: jstr

record export_params =
  exp_tab :: export_tab
  exp_variantRefs :: "jstr list"
  exp_goods :: goods_filters

definition DEFAULT_GOODS_EXPORT_FILTERS :: goods_filters where
  "DEFAULT_GOODS_EXPORT_FILTERS =
     \<lparr>goods_statuses = None, goods_archived = ArchExclude, goods_search = [], goods_order = OrderAll,
      goods_batch = [], goods_preset = DateAll, goods_from = [], goods_to = []\<rparr>"

definition resource_status_of :: "jstr \<Rightarrow> resource_status option" where
  "resource_status_of s = find (\<lambda>e. js (resource_status_name e) = s) RESOURCE_STATUSES"

text \<open>\<open>s.split(",").map(trim).filter(Boolean)\<close>\<close>

definition trimmed_parts :: "jstr \<Rightarrow> jstr list" where
  "trimmed_parts s = filter (\<lambda>p. p \<noteq> []) (map js_trim (split_on 44 s))"

definition parseExportParams :: "(jstr \<Rightarrow> bool) \<Rightarrow> url_params \<Rightarrow> export_params" where
  "parseExportParams date_ok q =
     (let refs = trimmed_parts (or_empty (qget q ''variants''));
          raw = (case qget q ''statuses'' of Some s \<Rightarrow> s | None \<Rightarrow> or_empty (qget q ''status''));
          listed = List.map_filter resource_status_of (split_on 44 raw);
          rawArchived = qget q ''archived'';
          archived = (if rawArchived = Some (js ''1'') then ArchOnly
                      else pick_enum archived_mode_name ARCHIVED_MODES ArchExclude rawArchived);
          preset = pick_enum date_preset_name RESOURCE_DATE_PRESETS DateAll (qget q ''date'');
          (from, to) = custom_range date_ok preset q
      in \<lparr>exp_tab = (if qget q ''tab'' = Some (js ''goods'') then TabGoods else TabReport),
          exp_variantRefs = refs,
          exp_goods =
            \<lparr>goods_statuses = (if listed \<noteq> [] then Some (uniq listed) else None),
             goods_archived = archived,
             goods_search = js_trim (or_empty (qget q ''search'')),
             goods_order = pick_enum order_filter_name ORDER_FILTERS OrderAll (qget q ''order''),
             goods_batch = batch_param q,
             goods_preset = preset, goods_from = from, goods_to = to\<rparr>\<rparr>)"

text \<open>
  \<open>exportPageHref\<close> with every goods field given; its result is the query of
  \<open>/seller/inventory/export\<close>.
\<close>

definition exportPageHref :: "jstr list \<Rightarrow> goods_filters \<Rightarrow> export_tab \<Rightarrow> url_params" where
  "exportPageHref variantRefs g tab =
     (let created = goods_preset g \<noteq> DateAll; custom = (goods_preset g = DateCustom);
          statuses = (case goods_statuses g of None \<Rightarrow> [] | Some xs \<Rightarrow> xs) in
     qput ''to'' (created \<and> custom \<and> goods_to g \<noteq> []) (goods_to g)
     (qput ''from'' (created \<and> custom \<and> goods_from g \<noteq> []) (goods_from g)
     (qput ''date'' created (js (date_preset_name (goods_preset g)))
     (qput ''batch'' (goods_batch g \<noteq> []) (goods_batch g)
     (qput ''order'' (goods_order g \<noteq> OrderAll) (js (order_filter_name (goods_order g)))
     (qput ''search'' (js_trim (goods_search g) \<noteq> []) (js_trim (goods_search g))
     (qput ''archived'' (goods_archived g \<noteq> ArchExclude) (js (archived_mode_name (goods_archived g)))
     (qput ''statuses'' (statuses \<noteq> [])
        (join [44] (map (\<lambda>s. js (resource_status_name s)) statuses))
     (qput ''variants'' (variantRefs \<noteq> []) (join [44] variantRefs)
     (qput ''tab'' True (js (export_tab_name tab)) []))))))))))"

definition stockTableExportFilters :: "resource_filters \<Rightarrow> goods_filters" where
  "stockTableExportFilters f =
     (let tab = res_status f in
      \<lparr>goods_statuses =
         Some (case tab of StatusOf s \<Rightarrow> [s] | _ \<Rightarrow> RESOURCE_STATUSES),
       goods_archived = (if tab = StatusArchived then ArchOnly else ArchExclude),
       goods_search = js_trim (res_search f),
       goods_order = res_order f,
       goods_batch = res_batch f,
       goods_preset = res_datePreset f, goods_from = res_from f, goods_to = res_to f\<rparr>)"

datatype narrowing = NarrowSearch | NarrowOrder | NarrowBatch

definition goodsNarrowing :: "goods_filters \<Rightarrow> narrowing list" where
  "goodsNarrowing f =
     (if js_trim (goods_search f) \<noteq> [] then [NarrowSearch] else []) @
     (if goods_order f \<noteq> OrderAll then [NarrowOrder] else []) @
     (if goods_batch f \<noteq> [] then [NarrowBatch] else [])"

text \<open>What a parsed export address can hold.\<close>

definition ref_valid :: "jstr \<Rightarrow> bool" where
  "ref_valid r \<longleftrightarrow> r \<noteq> [] \<and> trimmed r \<and> 44 \<notin> set r"

definition goods_valid :: "(jstr \<Rightarrow> bool) \<Rightarrow> goods_filters \<Rightarrow> bool" where
  "goods_valid date_ok g \<longleftrightarrow>
     (case goods_statuses g of None \<Rightarrow> True | Some xs \<Rightarrow> xs \<noteq> [] \<and> distinct xs) \<and>
     range_valid date_ok (goods_preset g) (goods_from g) (goods_to g) \<and>
     (goods_batch g = [] \<or> BATCH_REF (goods_batch g))"

definition export_valid :: "(jstr \<Rightarrow> bool) \<Rightarrow> export_params \<Rightarrow> bool" where
  "export_valid date_ok e \<longleftrightarrow>
     list_all ref_valid (exp_variantRefs e) \<and> goods_valid date_ok (exp_goods e)"

definition export_print :: "export_params \<Rightarrow> url_params" where
  "export_print e = exportPageHref (exp_variantRefs e) (exp_goods e) (exp_tab e)"

definition export_canon :: "export_params \<Rightarrow> export_params" where
  "export_canon e =
     e\<lparr>exp_goods := (exp_goods e)\<lparr>goods_search := js_trim (goods_search (exp_goods e))\<rparr>\<rparr>"

lemma resource_status_of_name [simp]: "resource_status_of (js (resource_status_name s)) = Some s"
  by (cases s) (auto simp: resource_status_of_def RESOURCE_STATUSES_def)

lemma resource_status_name_no_comma: "44 \<notin> set (js (resource_status_name s))"
  by (cases s) auto

lemma map_filter_status_names:
  "List.map_filter resource_status_of (map (\<lambda>s. js (resource_status_name s)) xs) = xs"
  by (induction xs) (simp_all add: map_filter_simps)

lemma statuses_roundtrip:
  "xs \<noteq> [] \<Longrightarrow>
     List.map_filter resource_status_of
       (split_on 44 (join [44] (map (\<lambda>s. js (resource_status_name s)) xs))) = xs"
  by (subst split_join_comma)
    (auto simp: resource_status_name_no_comma map_filter_status_names)

lemma trimmed_parts_join:
  "xs \<noteq> [] \<Longrightarrow> list_all ref_valid xs \<Longrightarrow> trimmed_parts (join [44] xs) = xs"
proof -
  assume ne: "xs \<noteq> []" and v: "list_all ref_valid xs"
  have "split_on 44 (join [44] xs) = xs"
    using ne v by (intro split_join_comma) (auto simp: ref_valid_def list_all_iff)
  moreover have "map js_trim xs = xs" "filter (\<lambda>p. p \<noteq> []) xs = xs"
    using v by (auto simp: ref_valid_def list_all_iff trimmed_js_trim_id intro!: map_idI filter_True)
  ultimately show ?thesis by (simp add: trimmed_parts_def)
qed

lemma trimmed_parts_Nil [simp]: "trimmed_parts [] = []"
  by (simp add: trimmed_parts_def)

lemma parse_export_print:
  assumes v: "export_valid date_ok e"
  shows "parseExportParams date_ok (export_print e) = export_canon e"
proof -
  let ?q = "export_print e" and ?g = "exp_goods e"
  note unf = export_print_def exportPageHref_def Let_def
  have g: "goods_valid date_ok ?g" using v by (simp add: export_valid_def)
  have preset: "pick_enum date_preset_name RESOURCE_DATE_PRESETS DateAll (qget ?q ''date'') =
      goods_preset ?g"
    by (simp add: unf codec_simps)
  have range: "custom_range date_ok (goods_preset ?g) ?q = (goods_from ?g, goods_to ?g)"
    using g by (intro custom_range_print) (simp_all add: goods_valid_def unf)
  have batch: "batch_param ?q = goods_batch ?g"
    using g by (auto simp: batch_param_def unf goods_valid_def)
  have refs: "trimmed_parts (or_empty (qget ?q ''variants'')) = exp_variantRefs e"
    using v by (cases "exp_variantRefs e = []") (simp_all add: unf export_valid_def trimmed_parts_join)
  have raw: "List.map_filter resource_status_of (split_on 44
      (case qget ?q ''statuses'' of Some s \<Rightarrow> s | None \<Rightarrow> or_empty (qget ?q ''status''))) =
      (case goods_statuses ?g of None \<Rightarrow> [] | Some xs \<Rightarrow> xs)"
    using g by (auto simp: unf goods_valid_def statuses_roundtrip map_filter_simps
        resource_status_of_def RESOURCE_STATUSES_def split: option.splits)
  have arch: "(if qget ?q ''archived'' = Some (js ''1'') then ArchOnly
      else pick_enum archived_mode_name ARCHIVED_MODES ArchExclude (qget ?q ''archived'')) =
      goods_archived ?g"
    by (cases "goods_archived ?g") (simp_all add: unf codec_simps js_eq_iff pick_enum_def ARCHIVED_MODES_def)
  have tab: "(qget ?q ''tab'' = Some (js ''goods'')) = (exp_tab e = TabGoods)"
    by (cases "exp_tab e") (simp_all add: unf js_eq_iff)
  have rest: "js_trim (or_empty (qget ?q ''search'')) = js_trim (goods_search ?g)"
    "pick_enum order_filter_name ORDER_FILTERS OrderAll (qget ?q ''order'') = goods_order ?g"
    by (auto simp: unf codec_simps)
  have st: "(if (case goods_statuses ?g of None \<Rightarrow> [] | Some xs \<Rightarrow> xs) \<noteq> []
      then Some (uniq (case goods_statuses ?g of None \<Rightarrow> [] | Some xs \<Rightarrow> xs)) else None) =
      goods_statuses ?g"
    using g by (auto simp: goods_valid_def uniq_distinct split: option.splits)
  show ?thesis
    unfolding parseExportParams_def Let_def preset range batch refs raw arch tab rest split_conv st
    by (cases "exp_tab e")
      (auto intro!: export_params.equality goods_filters.equality simp: export_canon_def)
qed

interpretation export_url: url_codec "parseExportParams date_ok" export_print
  export_canon "export_valid date_ok" for date_ok
  by (unfold_locales, erule parse_export_print)
    (simp_all add: export_canon_def export_valid_def goods_valid_def export_print_def exportPageHref_def)

text \<open>A link from the stock table opens the export on exactly the filters of the table.\<close>

lemma stockTableExportFilters_valid:
  "resource_valid date_ok f \<Longrightarrow> goods_valid date_ok (stockTableExportFilters f)"
  by (auto simp: resource_valid_def goods_valid_def stockTableExportFilters_def Let_def
      RESOURCE_STATUSES_def split: status_filter.splits)

section \<open>Properties\<close>

text \<open>
  The packages console keeps its filters in the address.  Reading the address
  written for any filters the page can hold gives them back, with the search text trimmed, and
  writing them again gives the same address; whatever an address holds, the page number is
  positive and the category ids are positive and not repeated.
\<close>

theorem inventory_filters_roundtrip:
  assumes "inventory_valid f"
  shows "parseInventoryFilters (inventoryFiltersToSearch f) = inventory_canon f \<and>
         inventoryFiltersToSearch (parseInventoryFilters (inventoryFiltersToSearch f)) =
           inventoryFiltersToSearch f \<and>
         1 \<le> inv_page (parseInventoryFilters q) \<and>
         distinct (inv_categoryIds (parseInventoryFilters q)) \<and>
         list_all (\<lambda>n. 0 < n) (inv_categoryIds (parseInventoryFilters q))"
  using inventory_url.parse_print [OF assms] inventory_url.print_stable [OF assms]
    parseInventoryFilters_range
  by (simp add: list_all_iff)

lemma inventory_filters_roundtrip_witness:
  "inv_categoryIds (parseInventoryFilters (inventoryFiltersToSearch
     (DEFAULT_INVENTORY_FILTERS\<lparr>inv_tab := TabLow, inv_categoryIds := [3, 7], inv_page := 2\<rparr>))) = [3, 7]"
proof -
  have "inventory_valid (DEFAULT_INVENTORY_FILTERS\<lparr>inv_tab := TabLow, inv_categoryIds := [3, 7], inv_page := 2\<rparr>)"
    by (simp add: inventory_valid_def DEFAULT_INVENTORY_FILTERS_def printable_int_def overflow_bound_def)
  from inventory_filters_roundtrip [OF this] show ?thesis by (simp add: inventory_canon_def)
qed

text \<open>
  The package page keeps its filters in the address.  Reading the address
  written for filters the page can hold gives them back with the search text trimmed; and from any
  address, the custom dates read are valid dates in order, present only for a custom range, and the
  page size is one of the offered ones.
\<close>

theorem resource_filters_roundtrip:
  assumes "resource_valid date_ok f"
  shows "parseResourceFilters date_ok (resourceFiltersToSearch f) = resource_canon f \<and>
         range_valid date_ok (res_datePreset (parseResourceFilters date_ok q))
           (res_from (parseResourceFilters date_ok q)) (res_to (parseResourceFilters date_ok q)) \<and>
         res_perPage (parseResourceFilters date_ok q) \<in> set RESOURCE_PAGE_SIZES"
  using resource_url.parse_print [OF assms] parseResourceFilters_range by simp

lemma resource_filters_roundtrip_witness:
  "res_status (parseResourceFilters (\<lambda>_. True) (resourceFiltersToSearch
     (DEFAULT_RESOURCE_FILTERS\<lparr>res_status := StatusOf StError, res_perPage := 500\<rparr>))) = StatusOf StError"
proof -
  have "resource_valid (\<lambda>_. True) (DEFAULT_RESOURCE_FILTERS\<lparr>res_status := StatusOf StError, res_perPage := 500\<rparr>)"
    by (simp add: resource_valid_def range_valid_def DEFAULT_RESOURCE_FILTERS_def printable_int_def
        overflow_bound_def RESOURCE_PAGE_SIZES_def ordered_pair_def)
  from resource_filters_roundtrip [OF this] show ?thesis
    by (simp add: resource_canon_def DEFAULT_RESOURCE_FILTERS_def)
qed

text \<open>
  The export opened from the stock table has exactly the table's
  filters.  The address that \<open>exportPageHref\<close> writes for the filters of the table and a package is
  read back as the goods tab, that package and those filters, with nothing widened or lost.
\<close>

theorem stock_table_export_link:
  assumes "resource_valid date_ok f" "list_all ref_valid refs"
  shows "parseExportParams date_ok (exportPageHref refs (stockTableExportFilters f) TabGoods) =
         \<lparr>exp_tab = TabGoods, exp_variantRefs = refs, exp_goods = stockTableExportFilters f\<rparr>"
proof -
  let ?e = "\<lparr>exp_tab = TabGoods, exp_variantRefs = refs, exp_goods = stockTableExportFilters f\<rparr>"
  have "export_valid date_ok ?e"
    using assms stockTableExportFilters_valid by (simp add: export_valid_def)
  from export_url.parse_print [OF this] show ?thesis
    by (simp add: export_print_def export_canon_def stockTableExportFilters_def Let_def)
qed

lemma stock_table_export_link_witness:
  "parseExportParams (\<lambda>_. True)
     (exportPageHref [[112]] (stockTableExportFilters DEFAULT_RESOURCE_FILTERS) TabGoods) =
   \<lparr>exp_tab = TabGoods, exp_variantRefs = [[112]],
    exp_goods = stockTableExportFilters DEFAULT_RESOURCE_FILTERS\<rparr>"
  by (rule stock_table_export_link)
    (simp_all add: resource_valid_def range_valid_def DEFAULT_RESOURCE_FILTERS_def printable_int_def
        overflow_bound_def RESOURCE_PAGE_SIZES_def ordered_pair_def ref_valid_def trimmed_def js_space_def)

end
