(* ===== verification/Inventory_Tree.thy ===== *)
theory Inventory_Tree
  imports Prelude
begin

text \<open>
  The trees of the seller inventory (features/seller-inventory/model.ts): the category filter
  with its tri-state selection, the groups of the packages table, and the export scope over
  categories, products and packages.  JavaScript's mutable nodes become updates of a forest;
  \<open>Set\<close> values that only answer \<open>has\<close> are lists in insertion order.
\<close>

section \<open>Packages\<close>

datatype inventory_stock_state = InStock | Low | Out | Inactive | Unlimited

record inventory_package =
  product_id :: int
  product_key :: "jstr option"
  product_title :: jstr
  product_status :: jstr
  cover_id :: "jstr option"
  service_type :: "jstr option"
  category_id :: int
  category_name :: jstr
  category_parent_id :: "int option"
  category_parent_name :: "jstr option"
  variant_id :: int
  variant_key :: "jstr option"
  variant_name :: jstr
  price :: rat
  delivery_mode :: "jstr option"
  is_active :: bool
  available :: int
  assigned :: int
  error_count :: int
  returned :: int
  expired :: int
  archived :: int
  sold_30d :: int
  last_restock_at :: "jstr option"
  stock_state :: inventory_stock_state
  manual_stock :: "int option"

record category_facet =
  facet_id :: int
  facet_name :: jstr
  facet_parent_id :: "int option"
  facet_parent_name :: "jstr option"
  facet_count :: int

section \<open>The category filter\<close>

datatype category_node =
  CategoryNode (cn_id: int) (cn_name: jstr) (cn_count: int) (cn_children: "category_node list")

text \<open>\<open>root(id, name)\<close>: the node of that id, made when absent, named when it had no name.\<close>

definition ensure_root :: "int \<Rightarrow> jstr \<Rightarrow> category_node list \<Rightarrow> category_node list" where
  "ensure_root i nm roots =
     (if i \<in> cn_id ` set roots
      then map (\<lambda>n. if cn_id n = i \<and> cn_name n = []
                    then CategoryNode i nm (cn_count n) (cn_children n) else n) roots
      else roots @ [CategoryNode i nm 0 []])"

definition add_to_root :: "int \<Rightarrow> category_node list \<Rightarrow> int \<Rightarrow> category_node list \<Rightarrow> category_node list" where
  "add_to_root i kids c roots =
     map (\<lambda>n. if cn_id n = i
              then CategoryNode i (cn_name n) (cn_count n + c) (cn_children n @ kids) else n) roots"

definition add_facet :: "category_node list \<Rightarrow> category_facet \<Rightarrow> category_node list" where
  "add_facet roots cat =
     (case facet_parent_id cat of
        None \<Rightarrow>
          add_to_root (facet_id cat) [] (facet_count cat)
            (ensure_root (facet_id cat) (facet_name cat) roots)
      | Some p \<Rightarrow>
          add_to_root p [CategoryNode (facet_id cat) (facet_name cat) (facet_count cat) []]
            (facet_count cat)
            (ensure_root p (case facet_parent_name cat of None \<Rightarrow> [] | Some s \<Rightarrow> s) roots))"

definition buildCategoryTree :: "category_facet list \<Rightarrow> category_node list" where
  "buildCategoryTree facet = foldl add_facet [] facet"

fun categoryNodeIds :: "category_node \<Rightarrow> int list" where
  "categoryNodeIds (CategoryNode i _ _ kids) = i # concat (map categoryNodeIds kids)"

fun expand_walk :: "int list \<Rightarrow> bool \<Rightarrow> category_node \<Rightarrow> int list \<Rightarrow> int list" where
  "expand_walk picked inherited (CategoryNode i _ _ kids) out =
     (let on = (inherited \<or> i \<in> set picked)
      in fold (expand_walk picked on) kids (if on then set_add out i else out))"

definition expandCategorySelection :: "category_node list \<Rightarrow> int list \<Rightarrow> int list" where
  "expandCategorySelection tree picked = fold (expand_walk picked False) tree []"

fun compact_walk :: "int list \<Rightarrow> category_node \<Rightarrow> int list" where
  "compact_walk ticked (CategoryNode i nm c kids) =
     (if \<forall>j \<in> set (categoryNodeIds (CategoryNode i nm c kids)). j \<in> set ticked
      then [i] else concat (map (compact_walk ticked) kids))"

definition compactCategorySelection :: "category_node list \<Rightarrow> int list \<Rightarrow> int list" where
  "compactCategorySelection tree ticked = concat (map (compact_walk ticked) tree)"

fun label_walk :: "int list \<Rightarrow> category_node \<Rightarrow> jstr list" where
  "label_walk picked (CategoryNode i nm _ kids) =
     (if i \<in> set picked then [nm] else concat (map (label_walk picked) kids))"

definition categorySelectionLabel :: "category_node list \<Rightarrow> int list \<Rightarrow> jstr list" where
  "categorySelectionLabel tree picked = concat (map (label_walk picked) tree)"

subsection \<open>The tree keeps every facet row\<close>

definition forest_ids :: "category_node list \<Rightarrow> int list" where
  "forest_ids tree = concat (map categoryNodeIds tree)"

lemma map_ids_ensure_root:
  "map cn_id (ensure_root i nm roots) =
     (if i \<in> cn_id ` set roots then map cn_id roots else map cn_id roots @ [i])"
proof -
  have "map cn_id (map (\<lambda>n. if cn_id n = i \<and> cn_name n = []
      then CategoryNode i nm (cn_count n) (cn_children n) else n) roots) = map cn_id roots"
    by (induction roots) auto
  then show ?thesis by (simp add: ensure_root_def del: map_map)
qed

lemma ids_ensure_root [simp]: "cn_id ` set (ensure_root i nm roots) = insert i (cn_id ` set roots)"
proof -
  have "set (map cn_id (ensure_root i nm roots)) = insert i (set (map cn_id roots))"
    unfolding map_ids_ensure_root by auto
  then show ?thesis by simp
qed

lemma map_ids_add_to_root [simp]: "map cn_id (add_to_root i kids c roots) = map cn_id roots"
  by (simp add: add_to_root_def)

lemma distinct_ensure_root:
  "distinct (map cn_id roots) \<Longrightarrow> distinct (map cn_id (ensure_root i nm roots))"
  by (simp add: map_ids_ensure_root)

lemma sum_ensure_root: "sum_list (map cn_count (ensure_root i nm roots)) = sum_list (map cn_count roots)"
proof -
  have "map cn_count (map (\<lambda>n. if cn_id n = i \<and> cn_name n = []
      then CategoryNode i nm (cn_count n) (cn_children n) else n) roots) = map cn_count roots"
    by (induction roots) auto
  then show ?thesis unfolding ensure_root_def by (simp del: map_map)
qed

lemma sum_add_to_root:
  "distinct (map cn_id roots) \<Longrightarrow>
     sum_list (map cn_count (add_to_root i kids c roots)) =
     sum_list (map cn_count roots) + (if i \<in> cn_id ` set roots then c else 0)"
proof (induction roots)
  case (Cons n roots)
  then have "i \<notin> cn_id ` set roots \<or> cn_id n \<noteq> i" by auto
  moreover have "add_to_root i kids c (n # roots) =
      (if cn_id n = i then CategoryNode i (cn_name n) (cn_count n + c) (cn_children n @ kids) else n) #
      add_to_root i kids c roots"
    by (simp add: add_to_root_def)
  ultimately show ?case using Cons by auto
qed (simp add: add_to_root_def)

lemma distinct_add_facet:
  "distinct (map cn_id roots) \<Longrightarrow> distinct (map cn_id (add_facet roots cat))"
  by (simp add: add_facet_def distinct_ensure_root split: option.splits)

lemma sum_add_facet:
  "distinct (map cn_id roots) \<Longrightarrow>
     sum_list (map cn_count (add_facet roots cat)) = sum_list (map cn_count roots) + facet_count cat"
  by (simp add: add_facet_def sum_add_to_root distinct_ensure_root sum_ensure_root
      split: option.splits)

lemma foldl_add_facet:
  "distinct (map cn_id roots) \<Longrightarrow>
     distinct (map cn_id (foldl add_facet roots facet)) \<and>
     sum_list (map cn_count (foldl add_facet roots facet)) =
       sum_list (map cn_count roots) + sum_list (map facet_count facet)"
  by (induction facet arbitrary: roots) (simp_all add: distinct_add_facet sum_add_facet)

subsection \<open>Ticking and compacting\<close>

text \<open>A set of ids is branch-closed when a ticked node has its whole branch ticked.\<close>

fun branch_closed :: "int set \<Rightarrow> category_node \<Rightarrow> bool" where
  "branch_closed T (CategoryNode i nm c kids) \<longleftrightarrow>
     (i \<in> T \<longrightarrow> set (categoryNodeIds (CategoryNode i nm c kids)) \<subseteq> T) \<and>
     (\<forall>k \<in> set kids. branch_closed T k)"

text \<open>The ids one walk ticks, as a set.\<close>

fun ticked_in :: "int set \<Rightarrow> bool \<Rightarrow> category_node \<Rightarrow> int set" where
  "ticked_in P inherited (CategoryNode i _ _ kids) =
     (if inherited \<or> i \<in> P then insert i (\<Union>k \<in> set kids. ticked_in P True k)
      else (\<Union>k \<in> set kids. ticked_in P False k))"

lemma set_expand_walk:
  "set (expand_walk picked inh n out) = set out \<union> ticked_in (set picked) inh n"
proof (induction n arbitrary: inh out)
  case (CategoryNode i nm c kids)
  have fold: "set (fold (expand_walk picked on) ks acc) =
      set acc \<union> (\<Union>k \<in> set ks. ticked_in (set picked) on k)"
    if "set ks \<subseteq> set kids" for ks acc on
    using that by (induction ks arbitrary: acc) (auto simp: CategoryNode.IH)
  show ?case by (auto simp: Let_def fold)
qed

lemma set_expandCategorySelection:
  "set (expandCategorySelection tree picked) = (\<Union>n \<in> set tree. ticked_in (set picked) False n)"
proof -
  have "set (fold (expand_walk picked False) ns acc) =
      set acc \<union> (\<Union>n \<in> set ns. ticked_in (set picked) False n)" for ns acc
    by (induction ns arbitrary: acc) (auto simp: set_expand_walk)
  then show ?thesis by (simp add: expandCategorySelection_def)
qed

lemma ticked_in_True: "ticked_in P True n = set (categoryNodeIds n)"
  by (induction n) auto

lemma ticked_in_subset: "ticked_in P inh n \<subseteq> set (categoryNodeIds n)"
  by (induction n arbitrary: inh) (fastforce split: if_splits)

lemma ticked_in_closed:
  "branch_closed T n \<Longrightarrow> P \<subseteq> T \<Longrightarrow> ticked_in P False n \<subseteq> T"
proof (induction n)
  case (CategoryNode i nm c kids)
  show ?case
  proof (cases "i \<in> P")
    case True
    with CategoryNode.prems have "set (categoryNodeIds (CategoryNode i nm c kids)) \<subseteq> T" by auto
    then show ?thesis using ticked_in_subset by blast
  next
    case False
    with CategoryNode show ?thesis by auto
  qed
qed

lemma compact_walk_subset: "set (compact_walk ticked n) \<subseteq> set ticked \<inter> set (categoryNodeIds n)"
proof (induction n)
  case (CategoryNode i nm c kids)
  then show ?case by auto
qed

text \<open>Ticking what compaction kept ticks the same nodes again.\<close>

lemma expand_compact_walk:
  "set (compact_walk ticked n) \<subseteq> P \<Longrightarrow> branch_closed (set ticked) n \<Longrightarrow>
     set ticked \<inter> set (categoryNodeIds n) \<subseteq> ticked_in P False n"
proof (induction n)
  case (CategoryNode i nm c kids)
  let ?n = "CategoryNode i nm c kids"
  show ?case
  proof (cases "\<forall>j \<in> set (categoryNodeIds ?n). j \<in> set ticked")
    case True
    with CategoryNode.prems have "i \<in> P" by auto
    then show ?thesis by (simp add: ticked_in_True)
  next
    case False
    with CategoryNode.prems have i: "i \<notin> set ticked" by auto
    have "compact_walk ticked ?n = concat (map (compact_walk ticked) kids)"
      using False by (simp only: compact_walk.simps if_False)
    then have u: "(\<Union>k \<in> set kids. set (compact_walk ticked k)) \<subseteq> P"
      using CategoryNode.prems(1) by simp
    have "set ticked \<inter> set (categoryNodeIds k) \<subseteq> ticked_in P False k" if k: "k \<in> set kids" for k
    proof (rule CategoryNode.IH [OF k])
      show "set (compact_walk ticked k) \<subseteq> P" using u k by blast
      show "branch_closed (set ticked) k" using CategoryNode.prems(2) k by simp
    qed
    moreover have "set ticked \<inter> set (categoryNodeIds ?n) =
        (\<Union>k \<in> set kids. set ticked \<inter> set (categoryNodeIds k))"
      using i by auto
    moreover have "(\<Union>k \<in> set kids. ticked_in P False k) \<subseteq> ticked_in P False ?n"
      by (auto simp: ticked_in_True dest: subsetD [OF ticked_in_subset])
    ultimately show ?thesis by blast
  qed
qed

lemma expand_compact_closed:
  assumes "\<And>n. n \<in> set tree \<Longrightarrow> branch_closed (set ticked) n"
  shows "set (expandCategorySelection tree (compactCategorySelection tree ticked)) =
         set ticked \<inter> set (forest_ids tree)"
proof
  let ?P = "set (compactCategorySelection tree ticked)"
  have "?P \<subseteq> set ticked"
    using compact_walk_subset by (auto simp: compactCategorySelection_def)
  then have "ticked_in ?P False n \<subseteq> set ticked \<inter> set (categoryNodeIds n)" if "n \<in> set tree" for n
    using assms [OF that] ticked_in_closed [of "set ticked" n ?P] ticked_in_subset [of ?P False n]
    by blast
  then have "(\<Union>n \<in> set tree. ticked_in ?P False n) \<subseteq>
      (\<Union>n \<in> set tree. set ticked \<inter> set (categoryNodeIds n))"
    by (rule UN_mono [OF subset_refl])
  then show "set (expandCategorySelection tree (compactCategorySelection tree ticked)) \<subseteq>
      set ticked \<inter> set (forest_ids tree)"
    unfolding set_expandCategorySelection forest_ids_def by auto
  show "set ticked \<inter> set (forest_ids tree) \<subseteq>
      set (expandCategorySelection tree (compactCategorySelection tree ticked))"
  proof
    fix j assume "j \<in> set ticked \<inter> set (forest_ids tree)"
    then obtain n where n: "n \<in> set tree" "j \<in> set ticked \<inter> set (categoryNodeIds n)"
      by (auto simp: forest_ids_def)
    have "set (compact_walk ticked n) \<subseteq> ?P"
      using n by (auto simp: compactCategorySelection_def)
    with n assms show "j \<in> set (expandCategorySelection tree (compactCategorySelection tree ticked))"
      using expand_compact_walk [of ticked n ?P] by (auto simp: set_expandCategorySelection)
  qed
qed

text \<open>Ticked sets are branch-closed when no category occurs twice.\<close>

lemma ticked_in_outside: "set (categoryNodeIds n) \<inter> P = {} \<Longrightarrow> ticked_in P False n = {}"
  by (induction n) auto

lemma branch_closed_cong:
  "T \<inter> set (categoryNodeIds n) = T' \<inter> set (categoryNodeIds n) \<Longrightarrow> branch_closed T n = branch_closed T' n"
proof (induction n)
  case (CategoryNode i nm c kids)
  have "branch_closed T k = branch_closed T' k" if "k \<in> set kids" for k
    using that CategoryNode.prems by (intro CategoryNode.IH) auto
  moreover have "i \<in> T \<longleftrightarrow> i \<in> T'" using CategoryNode.prems by auto
  moreover have "set (categoryNodeIds (CategoryNode i nm c kids)) \<subseteq> T \<longleftrightarrow>
      set (categoryNodeIds (CategoryNode i nm c kids)) \<subseteq> T'"
    using CategoryNode.prems by blast
  ultimately show ?case by (simp only: branch_closed.simps) blast
qed

lemma branch_closed_all: "set (categoryNodeIds n) \<subseteq> T \<Longrightarrow> branch_closed T n"
proof (induction n)
  case (CategoryNode i nm c kids)
  then have "branch_closed T k" if "k \<in> set kids" for k
    using that by (intro CategoryNode.IH) auto
  with CategoryNode.prems show ?case by simp
qed

lemma distinct_concat_disjoint:
  "distinct (concat (map f xs)) \<Longrightarrow> x \<in> set xs \<Longrightarrow> y \<in> set xs \<Longrightarrow> x \<noteq> y \<Longrightarrow> set (f x) \<inter> set (f y) = {}"
  by (induction xs) auto

lemma distinct_concat_part:
  "distinct (concat (map f xs)) \<Longrightarrow> x \<in> set xs \<Longrightarrow> distinct (f x)"
  by (induction xs) auto

lemma branch_closed_ticked:
  "distinct (categoryNodeIds n) \<Longrightarrow> branch_closed (ticked_in P inh n) n"
proof (induction n arbitrary: inh)
  case (CategoryNode i nm c kids)
  let ?n = "CategoryNode i nm c kids"
  show ?case
  proof (cases "inh \<or> i \<in> P")
    case True
    then have "ticked_in P inh ?n = set (categoryNodeIds ?n)"
      by (simp add: ticked_in_True)
    then show ?thesis by (simp add: branch_closed_all del: branch_closed.simps)
  next
    case False
    then have t: "ticked_in P inh ?n = (\<Union>k \<in> set kids. ticked_in P False k)" by simp
    have d: "distinct (concat (map categoryNodeIds kids))" and
      i: "i \<notin> set (concat (map categoryNodeIds kids))"
      using CategoryNode.prems by simp_all
    have "branch_closed (ticked_in P inh ?n) k" if k: "k \<in> set kids" for k
    proof -
      have "ticked_in P inh ?n \<inter> set (categoryNodeIds k) =
          ticked_in P False k \<inter> set (categoryNodeIds k)"
      proof -
        have "ticked_in P False k' \<inter> set (categoryNodeIds k) \<subseteq> ticked_in P False k"
          if "k' \<in> set kids" for k'
          using distinct_concat_disjoint [OF d that k] ticked_in_subset [of P False k'] by blast
        with k show ?thesis unfolding t by blast
      qed
      moreover have "branch_closed (ticked_in P False k) k"
        using k distinct_concat_part [OF d k] by (rule CategoryNode.IH)
      ultimately show ?thesis using branch_closed_cong by blast
    qed
    moreover have "i \<notin> ticked_in P inh ?n"
      using i ticked_in_subset unfolding t by fastforce
    ultimately show ?thesis by simp
  qed
qed

lemma distinct_forest_part:
  "distinct (forest_ids tree) \<Longrightarrow> n \<in> set tree \<Longrightarrow> distinct (categoryNodeIds n)"
  unfolding forest_ids_def by (rule distinct_concat_part)

lemma branch_closed_expand:
  assumes d: "distinct (forest_ids tree)" and n: "n \<in> set tree"
  shows "branch_closed (set (expandCategorySelection tree picked)) n"
proof -
  let ?T = "\<lambda>m. ticked_in (set picked) False m"
  have "?T m \<inter> set (categoryNodeIds n) \<subseteq> ?T n" if "m \<in> set tree" for m
    using distinct_concat_disjoint [OF d [unfolded forest_ids_def] that n]
      ticked_in_subset [of "set picked" False m] by blast
  with n have "set (expandCategorySelection tree picked) \<inter> set (categoryNodeIds n) =
      ?T n \<inter> set (categoryNodeIds n)"
    unfolding set_expandCategorySelection by blast
  then show ?thesis
    using branch_closed_cong branch_closed_ticked [OF distinct_forest_part [OF d n]] by blast
qed

lemma expand_subset_forest: "set (expandCategorySelection tree picked) \<subseteq> set (forest_ids tree)"
  unfolding set_expandCategorySelection forest_ids_def
  using ticked_in_subset by fastforce

section \<open>The packages table\<close>

record package_group =
  g_product_id :: int
  g_product_key :: "jstr option"
  g_product_title :: jstr
  g_product_status :: jstr
  g_category_name :: jstr
  g_cover_id :: "jstr option"
  g_available :: int
  g_sold30d :: int
  g_error :: int
  g_packages :: "inventory_package list"

definition new_group :: "inventory_package \<Rightarrow> package_group" where
  "new_group pkg =
     \<lparr>g_product_id = product_id pkg, g_product_key = product_key pkg,
      g_product_title = product_title pkg, g_product_status = product_status pkg,
      g_category_name = category_name pkg, g_cover_id = cover_id pkg,
      g_available = 0, g_sold30d = 0, g_error = 0, g_packages = []\<rparr>"

definition group_push :: "inventory_package \<Rightarrow> package_group \<Rightarrow> package_group" where
  "group_push pkg g =
     g\<lparr>g_packages := g_packages g @ [pkg],
       g_available := (if is_active pkg then g_available g + available pkg else g_available g),
       g_sold30d := g_sold30d g + sold_30d pkg,
       g_error := g_error g + (error_count pkg + returned pkg)\<rparr>"

definition group_package :: "package_group list \<Rightarrow> inventory_package \<Rightarrow> package_group list" where
  "group_package groups pkg =
     map (\<lambda>g. if g_product_id g = product_id pkg then group_push pkg g else g)
       (if product_id pkg \<in> g_product_id ` set groups then groups else groups @ [new_group pkg])"

definition groupPackages :: "inventory_package list \<Rightarrow> package_group list" where
  "groupPackages items = foldl group_package [] items"

definition group_totals :: "package_group \<Rightarrow> bool" where
  "group_totals g \<longleftrightarrow>
     g_packages g \<noteq> [] \<and> (\<forall>p \<in> set (g_packages g). product_id p = g_product_id g) \<and>
     g_available g = sum_list (map available (filter is_active (g_packages g))) \<and>
     g_sold30d g = sum_list (map sold_30d (g_packages g)) \<and>
     g_error g = sum_list (map (\<lambda>p. error_count p + returned p) (g_packages g))"

lemma group_ids:
  "map g_product_id (group_package groups pkg) = set_add (map g_product_id groups) (product_id pkg)"
proof -
  have "map g_product_id (map (\<lambda>g. if g_product_id g = product_id pkg then group_push pkg g else g) gs) =
      map g_product_id gs" for gs
    by (induction gs) (auto simp: group_push_def)
  then show ?thesis
    by (auto simp: group_package_def set_add_def new_group_def simp del: map_map)
qed

lemma group_totals_push:
  "g_product_id g = product_id pkg \<Longrightarrow> group_totals g \<or> g = new_group pkg \<Longrightarrow>
     group_totals (group_push pkg g)"
  by (auto simp: group_totals_def group_push_def new_group_def)

lemma group_totals_package:
  assumes "\<forall>g \<in> set groups. group_totals g" and g: "g \<in> set (group_package groups pkg)"
  shows "group_totals g"
proof -
  let ?gs = "if product_id pkg \<in> g_product_id ` set groups then groups else groups @ [new_group pkg]"
  from g obtain h where h': "h \<in> set ?gs"
    and gh: "g = (if g_product_id h = product_id pkg then group_push pkg h else h)"
    unfolding group_package_def set_map by blast
  from h' have h: "h \<in> set groups \<or> h = new_group pkg"
    by (simp split: if_splits) blast
  have "g_product_id (new_group pkg) = product_id pkg"
    by (simp add: new_group_def)
  with h gh assms(1) show ?thesis
    by (auto intro: group_totals_push)
qed

text \<open>The packages of a product keep the order of the rows.\<close>

definition packages_of :: "int \<Rightarrow> package_group list \<Rightarrow> inventory_package list" where
  "packages_of i groups = concat (map g_packages (filter (\<lambda>g. g_product_id g = i) groups))"

lemma packages_of_map:
  "distinct (map g_product_id gs) \<Longrightarrow>
     packages_of i (map (\<lambda>g. if g_product_id g = product_id pkg then group_push pkg g else g) gs) =
     packages_of i gs @ (if i = product_id pkg \<and> i \<in> g_product_id ` set gs then [pkg] else [])"
proof (induction gs)
  case (Cons g gs)
  have pid: "g_product_id (group_push pkg h) = g_product_id h"
    and pk: "g_packages (group_push pkg h) = g_packages h @ [pkg]" for h
    by (simp_all add: group_push_def)
  have none: "packages_of (product_id pkg) gs = []" if "g_product_id g = product_id pkg"
  proof -
    have "filter (\<lambda>h. g_product_id h = product_id pkg) gs = []"
      using that Cons.prems unfolding filter_empty_conv by (metis distinct.simps(2) imageI list.simps(9) list.set_map)
    then show ?thesis by (simp add: packages_of_def)
  qed
  have cons: "packages_of i (h # hs) =
      (if g_product_id h = i then g_packages h @ packages_of i hs else packages_of i hs)" for h hs
    by (simp add: packages_of_def)
  show ?case
    using Cons none by (auto simp: cons pid pk)
qed (simp add: packages_of_def)

lemma packages_of_group_package:
  assumes "distinct (map g_product_id groups)"
  shows "packages_of i (group_package groups pkg) =
         packages_of i groups @ (if i = product_id pkg then [pkg] else [])"
proof -
  have new: "packages_of i (groups @ [new_group pkg]) = packages_of i groups"
    by (simp add: packages_of_def new_group_def)
  have nid: "g_product_id (new_group pkg) = product_id pkg" by (simp add: new_group_def)
  show ?thesis
  proof (cases "product_id pkg \<in> g_product_id ` set groups")
    case True
    then show ?thesis
      by (auto simp: group_package_def packages_of_map [OF assms])
  next
    case False
    then have "distinct (map g_product_id (groups @ [new_group pkg]))"
      using assms nid by auto
    from packages_of_map [OF this, of i pkg] False show ?thesis
      by (simp add: group_package_def new nid del: map_append)
  qed
qed

lemma foldl_group_package:
  "distinct (map g_product_id groups) \<Longrightarrow> \<forall>g \<in> set groups. group_totals g \<Longrightarrow>
     distinct (map g_product_id (foldl group_package groups items)) \<and>
     (\<forall>g \<in> set (foldl group_package groups items). group_totals g) \<and>
     packages_of i (foldl group_package groups items) =
       packages_of i groups @ filter (\<lambda>p. product_id p = i) items \<and>
     map g_product_id (foldl group_package groups items) =
       foldl set_add (map g_product_id groups) (map product_id items)"
proof (induction items arbitrary: groups)
  case (Cons p items)
  have d: "distinct (map g_product_id (group_package groups p))"
    by (simp add: group_ids Cons.prems)
  have t: "\<forall>g \<in> set (group_package groups p). group_totals g"
    using Cons.prems group_totals_package by blast
  show ?case
    using Cons.IH [OF d t] by (simp add: packages_of_group_package Cons.prems group_ids foldl_set_add)
qed simp

datatype stock_tone = ToneGood | ToneWarn | ToneBad | ToneNeutral

fun stockTone :: "inventory_stock_state \<Rightarrow> stock_tone" where
  "stockTone Out = ToneBad"
| "stockTone Low = ToneWarn"
| "stockTone Inactive = ToneNeutral"
| "stockTone _ = ToneGood"

definition stockBarPercent :: "int \<Rightarrow> int \<Rightarrow> int" where
  "stockBarPercent avail threshold =
     (if avail \<le> 0 then 0
      else let full = max (threshold * 5) 1
           in max 2 (min 100 (js_round ((of_int avail / of_int full) * 100))))"

lemma stockBarPercent_bounds:
  "0 \<le> stockBarPercent a t" "stockBarPercent a t \<le> 100"
  "0 < a \<Longrightarrow> 2 \<le> stockBarPercent a t"
  by (auto simp: stockBarPercent_def Let_def intro: max.coboundedI1)

lemma stockBarPercent_mono:
  assumes "a \<le> b" shows "stockBarPercent a t \<le> stockBarPercent b t"
proof (cases "a \<le> 0")
  case True
  then show ?thesis using stockBarPercent_bounds(1) by (simp add: stockBarPercent_def)
next
  case False
  let ?full = "max (t * 5) 1 :: int"
  have "(of_int a / of_int ?full) * 100 \<le> (of_int b / of_int ?full) * (100 :: rat)"
    using assms by (simp add: divide_right_mono)
  from js_round_mono [OF this] False assms show ?thesis
    by (simp add: stockBarPercent_def Let_def max.coboundedI2 min.coboundedI2)
qed

lemma stockBarPercent_full:
  assumes "0 < t" "5 * t \<le> a" shows "stockBarPercent a t = 100"
proof -
  have "of_int (max (t * 5) 1) = (of_int (5 * t) :: rat)" using assms by simp
  moreover have "(100 :: rat) \<le> (of_int a / of_int (5 * t)) * 100"
    using assms by (simp add: le_divide_eq)
  ultimately have "100 \<le> js_round ((of_int a / of_int (max (t * 5) 1)) * 100)"
    using js_round_ge [of 100] by simp
  with assms show ?thesis by (simp add: stockBarPercent_def Let_def)
qed

section \<open>Properties\<close>

text \<open>
  A selection of the category filter survives the URL.  In a tree
  where no category occurs twice, the ids that the picker shows as ticked are exactly the ids it
  ticks again after they were compacted to the shortest list of branches, and the compacted list
  only names categories that were ticked.
\<close>

theorem category_selection_roundtrip:
  assumes "distinct (forest_ids tree)"
  shows "set (expandCategorySelection tree
           (compactCategorySelection tree (expandCategorySelection tree picked))) =
         set (expandCategorySelection tree picked) \<and>
         set (compactCategorySelection tree (expandCategorySelection tree picked)) \<subseteq>
         set (expandCategorySelection tree picked)"
proof
  have "\<And>n. n \<in> set tree \<Longrightarrow> branch_closed (set (expandCategorySelection tree picked)) n"
    using branch_closed_expand [OF assms] .
  from expand_compact_closed [OF this] expand_subset_forest
  show "set (expandCategorySelection tree
      (compactCategorySelection tree (expandCategorySelection tree picked))) =
      set (expandCategorySelection tree picked)" by fastforce
  show "set (compactCategorySelection tree (expandCategorySelection tree picked)) \<subseteq>
      set (expandCategorySelection tree picked)"
    using compact_walk_subset by (fastforce simp: compactCategorySelection_def)
qed

lemma category_selection_roundtrip_witness:
  "set (expandCategorySelection
      [CategoryNode 1 [] 5 [CategoryNode 2 [] 3 [], CategoryNode 3 [] 2 []], CategoryNode 4 [] 1 []]
      (compactCategorySelection
        [CategoryNode 1 [] 5 [CategoryNode 2 [] 3 [], CategoryNode 3 [] 2 []], CategoryNode 4 [] 1 []]
        (expandCategorySelection
          [CategoryNode 1 [] 5 [CategoryNode 2 [] 3 [], CategoryNode 3 [] 2 []], CategoryNode 4 [] 1 []]
          [1]))) = {1, 2, 3} \<and>
   compactCategorySelection
     [CategoryNode 1 [] 5 [CategoryNode 2 [] 3 [], CategoryNode 3 [] 2 []], CategoryNode 4 [] 1 []]
     [1, 2, 3] = [1]"
proof -
  let ?t = "[CategoryNode 1 [] 5 [CategoryNode 2 [] 3 [], CategoryNode 3 [] 2 []], CategoryNode 4 [] 1 []]"
  have "distinct (forest_ids ?t)" by (simp add: forest_ids_def)
  from category_selection_roundtrip [OF this, of "[1]"]
  have "set (expandCategorySelection ?t (compactCategorySelection ?t (expandCategorySelection ?t [1]))) =
      set (expandCategorySelection ?t [1])" by (rule conjunct1)
  moreover have "set (expandCategorySelection ?t [1]) = {1, 2, 3}"
    by (simp add: expandCategorySelection_def Let_def set_add_def)
  moreover have "compactCategorySelection ?t [1, 2, 3] = [1]"
    by (simp add: compactCategorySelection_def)
  ultimately show ?thesis by simp
qed

text \<open>
  The category tree has one root per root id and loses no product: the
  counts of the roots add up to the counts of the facet rows, whichever of a parent and its
  children comes first.
\<close>

theorem category_tree_counts:
  "distinct (map cn_id (buildCategoryTree facet)) \<and>
   sum_list (map cn_count (buildCategoryTree facet)) = sum_list (map facet_count facet)"
  using foldl_add_facet [of "[]" facet] by (simp add: buildCategoryTree_def)

text \<open>
  The packages table shows one group per product, in the order in which
  the products first occur; each group holds exactly the rows of its product in their order, and
  its totals are those of its rows (the available stock of its active packages, the sales, and the
  errors together with the returned lines).
\<close>

theorem groupPackages_groups:
  "map g_product_id (groupPackages items) = uniq (map product_id items) \<and>
   (\<forall>i. packages_of i (groupPackages items) = filter (\<lambda>p. product_id p = i) items) \<and>
   list_all group_totals (groupPackages items)"
  using foldl_group_package [of "[]" items]
  by (simp add: groupPackages_def uniq_def packages_of_def list_all_iff)

end
