(* ===== verification/Export_Scope.thy ===== *)
theory Export_Scope
  imports Inventory_Tree
begin

text \<open>
  The export scope of the seller inventory (buildScopeTree and compactScope of
  features/seller-inventory/model.ts): the tree of categories, products and packages a seller
  ticks, and the short form of a selection that the export endpoint receives.
\<close>

section \<open>The export scope\<close>

record scope_product =
  sp_id :: int
  sp_title :: jstr
  sp_status :: jstr
  sp_cover :: "jstr option"
  sp_packages :: "inventory_package list"

datatype scope_category =
  ScopeCategory (sc_id: int) (sc_name: jstr) (sc_children: "scope_category list")
    (sc_products: "scope_product list")

text \<open>
  \<open>cats\<close> of the code maps every id seen to its mutable node; the nodes reachable from \<open>roots\<close> are
  the forest.  A category that names itself as its parent hangs only under itself, so it and what
  is hung under it are never reached: their ids are kept apart in \<open>b_orphans\<close>.
\<close>

record scope_build =
  b_roots :: "scope_category list"
  b_orphans :: "int list"

fun scope_ids :: "scope_category \<Rightarrow> int list" where
  "scope_ids (ScopeCategory i _ ch _) = i # concat (map scope_ids ch)"

definition scope_forest_ids :: "scope_category list \<Rightarrow> int list" where
  "scope_forest_ids roots = concat (map scope_ids roots)"

fun add_child :: "int \<Rightarrow> scope_category \<Rightarrow> scope_category \<Rightarrow> scope_category" where
  "add_child p c (ScopeCategory i nm ch pr) =
     (if i = p then ScopeCategory i nm (ch @ [c]) pr
      else ScopeCategory i nm (map (add_child p c) ch) pr)"

definition ensure_scope ::
    "int \<Rightarrow> jstr \<Rightarrow> int option \<Rightarrow> jstr option \<Rightarrow> scope_build \<Rightarrow> scope_build" where
  "ensure_scope i nm parent parent_name b =
     (if i \<in> set (scope_forest_ids (b_roots b)) \<or> i \<in> set (b_orphans b) then b
      else case parent of
        None \<Rightarrow> b\<lparr>b_roots := b_roots b @ [ScopeCategory i nm [] []]\<rparr>
      | Some p \<Rightarrow>
          if p = i \<or> p \<in> set (b_orphans b) then b\<lparr>b_orphans := b_orphans b @ [i]\<rparr>
          else
            let roots = (if p \<in> set (scope_forest_ids (b_roots b)) then b_roots b
                         else b_roots b @
                           [ScopeCategory p (case parent_name of None \<Rightarrow> [] | Some s \<Rightarrow> s) [] []])
            in b\<lparr>b_roots := map (add_child p (ScopeCategory i nm [] [])) roots\<rparr>)"

definition new_product :: "inventory_package \<Rightarrow> scope_product" where
  "new_product pkg =
     \<lparr>sp_id = product_id pkg, sp_title = product_title pkg, sp_status = product_status pkg,
      sp_cover = cover_id pkg, sp_packages = [pkg]\<rparr>"

fun push_product :: "inventory_package \<Rightarrow> scope_product list \<Rightarrow> scope_product list" where
  "push_product pkg [] = [new_product pkg]"
| "push_product pkg (p # ps) =
     (if sp_id p = product_id pkg then p\<lparr>sp_packages := sp_packages p @ [pkg]\<rparr> # ps
      else p # push_product pkg ps)"

fun add_package :: "inventory_package \<Rightarrow> scope_category \<Rightarrow> scope_category" where
  "add_package pkg (ScopeCategory i nm ch pr) =
     (if i = category_id pkg then ScopeCategory i nm ch (push_product pkg pr)
      else ScopeCategory i nm (map (add_package pkg) ch) pr)"

definition scope_step :: "scope_build \<Rightarrow> inventory_package \<Rightarrow> scope_build" where
  "scope_step b pkg =
     (let b' = ensure_scope (category_id pkg) (category_name pkg) (category_parent_id pkg)
                 (category_parent_name pkg) b
      in b'\<lparr>b_roots := map (add_package pkg) (b_roots b')\<rparr>)"

text \<open>\<open>localeCompare\<close> is the parameter \<open>cmp\<close>.\<close>

fun sort_cat :: "(jstr \<Rightarrow> jstr \<Rightarrow> int) \<Rightarrow> scope_category \<Rightarrow> scope_category" where
  "sort_cat cmp (ScopeCategory i nm ch pr) =
     ScopeCategory i nm
       (sort_by (\<lambda>a b. cmp (sc_name a) (sc_name b)) (map (sort_cat cmp) ch))
       (sort_by (\<lambda>a b. cmp (sp_title a) (sp_title b)) pr)"

definition buildScopeTree ::
    "(jstr \<Rightarrow> jstr \<Rightarrow> int) \<Rightarrow> inventory_package list \<Rightarrow> scope_category list" where
  "buildScopeTree cmp items =
     sort_by (\<lambda>a b. cmp (sc_name a) (sc_name b))
       (map (sort_cat cmp)
         (b_roots (foldl scope_step \<lparr>b_roots = [], b_orphans = []\<rparr> items)))"

fun scopeCategoryPackages :: "scope_category \<Rightarrow> inventory_package list" where
  "scopeCategoryPackages (ScopeCategory _ _ ch pr) =
     concat (map sp_packages pr) @ concat (map scopeCategoryPackages ch)"

fun scopeCategoryProducts :: "scope_category \<Rightarrow> scope_product list" where
  "scopeCategoryProducts (ScopeCategory _ _ ch pr) = pr @ concat (map scopeCategoryProducts ch)"

datatype check_state = CheckNone | CheckSome | CheckAll

definition checkState :: "int list \<Rightarrow> int list \<Rightarrow> check_state" where
  "checkState ids selected =
     (if ids = [] then CheckNone
      else let n = length (filter (\<lambda>i. i \<in> set selected) ids)
           in if n = 0 then CheckNone else if n = length ids then CheckAll else CheckSome)"

definition product_hit :: "int list \<Rightarrow> scope_product \<Rightarrow> bool" where
  "product_hit selected pr \<longleftrightarrow> (\<exists>p \<in> set (sp_packages pr). variant_id p \<in> set selected)"

fun summary_walk :: "int list \<Rightarrow> scope_category \<Rightarrow> nat \<times> nat" where
  "summary_walk selected (ScopeCategory i nm ch pr) =
     (let hits = length (filter (product_hit selected) pr);
          below = map (summary_walk selected) ch
      in ((if 0 < hits then 1 else 0) + sum_list (map fst below), hits + sum_list (map snd below)))"

definition scopeSummary :: "scope_category list \<Rightarrow> int list \<Rightarrow> nat \<times> nat \<times> nat" where
  "scopeSummary tree selected =
     (let ws = map (summary_walk selected) tree
      in (sum_list (map fst ws), sum_list (map snd ws), length selected))"

definition eligible :: "bool \<Rightarrow> inventory_package \<Rightarrow> bool" where
  "eligible includeInactive p \<longleftrightarrow> includeInactive \<or> is_active p"

record scope_ids_out =
  out_categories :: "int list"
  out_products :: "int list"
  out_variants :: "int list"

definition product_scope :: "(inventory_package \<Rightarrow> bool) \<Rightarrow> int list \<Rightarrow> scope_product \<Rightarrow> scope_ids_out \<Rightarrow> scope_ids_out" where
  "product_scope ok selected pr out =
     (let pkgs = filter ok (sp_packages pr)
      in if pkgs \<noteq> [] \<and> (\<forall>p \<in> set pkgs. variant_id p \<in> set selected)
         then out\<lparr>out_products := out_products out @ [sp_id pr]\<rparr>
         else out\<lparr>out_variants := out_variants out @
                filter (\<lambda>v. v \<in> set selected) (map variant_id pkgs)\<rparr>)"

fun scope_walk :: "(inventory_package \<Rightarrow> bool) \<Rightarrow> int list \<Rightarrow> scope_category \<Rightarrow> scope_ids_out \<Rightarrow> scope_ids_out" where
  "scope_walk ok selected (ScopeCategory i nm ch pr) out =
     (let catPkgs = filter ok (scopeCategoryPackages (ScopeCategory i nm ch pr))
      in if catPkgs \<noteq> [] \<and> (\<forall>p \<in> set catPkgs. variant_id p \<in> set selected)
         then out\<lparr>out_categories := out_categories out @ [i]\<rparr>
         else fold (scope_walk ok selected) ch (fold (product_scope ok selected) pr out))"

record compact_scope =
  cs_variantIds :: "int list option"
  cs_productIds :: "int list option"
  cs_categoryIds :: "int list option"
  cs_includeInactive :: "bool option"

definition non_empty :: "'a list \<Rightarrow> 'a list option" where
  "non_empty xs = (if xs = [] then None else Some xs)"

definition compactScope :: "scope_category list \<Rightarrow> int list \<Rightarrow> bool \<Rightarrow> compact_scope" where
  "compactScope tree selected includeInactive =
     (let out = fold (scope_walk (eligible includeInactive) selected) tree
                  \<lparr>out_categories = [], out_products = [], out_variants = []\<rparr>
      in \<lparr>cs_variantIds = non_empty (out_variants out),
          cs_productIds = non_empty (out_products out),
          cs_categoryIds = non_empty (out_categories out),
          cs_includeInactive = (if includeInactive then Some True else None)\<rparr>)"

subsection \<open>The tree holds every package once\<close>

definition forest_packages :: "scope_category list \<Rightarrow> inventory_package list" where
  "forest_packages roots = concat (map scopeCategoryPackages roots)"

lemma scope_ids_sort_cat: "mset (scope_ids (sort_cat cmp n)) = mset (scope_ids n)"
proof (induction n)
  case (ScopeCategory i nm ch pr)
  have "mset (concat (map scope_ids (sort_by c (map (sort_cat cmp) ch)))) = mset (concat (map scope_ids ch))" for c
    by (rule mset_concat_map_sort) (rule ScopeCategory.IH)
  then show ?case by (simp del: mset_concat)
qed

lemma scopeCategoryPackages_sort_cat:
  "mset (scopeCategoryPackages (sort_cat cmp n)) = mset (scopeCategoryPackages n)"
proof (induction n)
  case (ScopeCategory i nm ch pr)
  have "mset (concat (map sp_packages (sort_by c pr))) = mset (concat (map sp_packages pr))" for c
    unfolding mset_concat_map by simp
  moreover have "mset (concat (map scopeCategoryPackages (sort_by c (map (sort_cat cmp) ch)))) =
      mset (concat (map scopeCategoryPackages ch))" for c
    by (rule mset_concat_map_sort) (rule ScopeCategory.IH)
  ultimately show ?case by (simp del: mset_concat)
qed

lemma scopeCategoryProducts_sort_cat:
  "mset (scopeCategoryProducts (sort_cat cmp n)) = mset (scopeCategoryProducts n)"
proof (induction n)
  case (ScopeCategory i nm ch pr)
  have "mset (concat (map scopeCategoryProducts (sort_by c (map (sort_cat cmp) ch)))) = mset (concat (map scopeCategoryProducts ch))" for c
    by (rule mset_concat_map_sort) (rule ScopeCategory.IH)
  then show ?case by (simp del: mset_concat)
qed

lemma mset_push_product:
  "mset (concat (map sp_packages (push_product pkg pr))) =
     add_mset pkg (mset (concat (map sp_packages pr)))"
  by (induction pr) (auto simp: new_product_def)

lemma ids_push_product: "map sp_id (push_product pkg pr) = set_add (map sp_id pr) (product_id pkg)"
  by (induction pr) (auto simp: set_add_def new_product_def)

text \<open>An update of the node with a given id changes nothing where that id does not occur.\<close>

lemma map_id_outside: "(\<And>x. x \<in> set xs \<Longrightarrow> f x = x) \<Longrightarrow> map f xs = xs"
  by (induction xs) auto

lemma add_package_outside: "category_id pkg \<notin> set (scope_ids n) \<Longrightarrow> add_package pkg n = n"
proof (induction n)
  case (ScopeCategory i nm ch pr)
  then have "map (add_package pkg) ch = ch" by (intro map_id_outside) auto
  with ScopeCategory.prems show ?case by simp
qed

lemma add_child_outside: "p \<notin> set (scope_ids n) \<Longrightarrow> add_child p c n = n"
proof (induction n)
  case (ScopeCategory i nm ch pr)
  then have "map (add_child p c) ch = ch" by (intro map_id_outside) auto
  with ScopeCategory.prems show ?case by simp
qed

text \<open>
  One node carries the id: an update that adds to the contribution \<open>f\<close> of that node adds it once
  to the forest's.
\<close>

lemma forest_update_once:
  fixes f :: "scope_category \<Rightarrow> 'b list"
  assumes "distinct (scope_forest_ids ns)" "i \<in> set (scope_forest_ids ns)"
    and "\<And>n. i \<notin> set (scope_ids n) \<Longrightarrow> u n = n"
    and "\<And>n. n \<in> set ns \<Longrightarrow> distinct (scope_ids n) \<Longrightarrow> i \<in> set (scope_ids n) \<Longrightarrow>
           mset (f (u n)) = add_mset x (mset (f n))"
  shows "mset (concat (map f (map u ns))) = add_mset x (mset (concat (map f ns)))"
  using assms
proof (induction ns)
  case (Cons n ns)
  have split: "distinct (scope_ids n)" "distinct (scope_forest_ids ns)"
      "set (scope_ids n) \<inter> set (scope_forest_ids ns) = {}"
    using Cons.prems(1) by (auto simp: scope_forest_ids_def)
  show ?case
  proof (cases "i \<in> set (scope_ids n)")
    case True
    then have "i \<notin> set (scope_ids m)" if "m \<in> set ns" for m
      using split(3) that by (auto simp: scope_forest_ids_def)
    then have "map u ns = ns" using Cons.prems(3) by (intro map_id_outside) simp
    moreover have "mset (f (u n)) = add_mset x (mset (f n))"
      using Cons.prems(4) split(1) True by simp
    ultimately show ?thesis by simp
  next
    case False
    then have "i \<in> set (scope_forest_ids ns)" using Cons.prems(2) by (simp add: scope_forest_ids_def)
    moreover have "u n = n" using Cons.prems(3) False by simp
    ultimately show ?thesis using Cons.IH [OF split(2)] Cons.prems(3,4) by simp
  qed
qed (simp add: scope_forest_ids_def)

lemma scope_ids_add_package [simp]: "scope_ids (add_package pkg n) = scope_ids n"
proof (induction n)
  case (ScopeCategory i nm ch pr)
  then have "map scope_ids (map (add_package pkg) ch) = map scope_ids ch" by simp
  then show ?case by (simp del: map_map)
qed

lemma distinct_children:
  "distinct (scope_ids (ScopeCategory i nm ch pr)) \<Longrightarrow>
     distinct (scope_forest_ids ch) \<and> i \<notin> set (scope_forest_ids ch)"
  by (simp add: scope_forest_ids_def)

lemma mset_add_package:
  "distinct (scope_ids n) \<Longrightarrow> category_id pkg \<in> set (scope_ids n) \<Longrightarrow>
     mset (scopeCategoryPackages (add_package pkg n)) = add_mset pkg (mset (scopeCategoryPackages n))"
proof (induction n)
  case (ScopeCategory i nm ch pr)
  show ?case
  proof (cases "i = category_id pkg")
    case True
    then show ?thesis by (simp add: mset_push_product del: mset_concat)
  next
    case False
    have d: "distinct (scope_forest_ids ch)" and m: "category_id pkg \<in> set (scope_forest_ids ch)"
      using ScopeCategory.prems False distinct_children by (auto simp: scope_forest_ids_def)
    have "mset (concat (map scopeCategoryPackages (map (add_package pkg) ch))) =
        add_mset pkg (mset (concat (map scopeCategoryPackages ch)))"
      by (rule forest_update_once [OF d m]) (simp_all add: add_package_outside ScopeCategory.IH)
    then show ?thesis using False by (simp del: mset_concat map_map)
  qed
qed

lemma mset_add_child:
  "distinct (scope_ids n) \<Longrightarrow> p \<in> set (scope_ids n) \<Longrightarrow>
     mset (scope_ids (add_child p (ScopeCategory i nm [] []) n)) = add_mset i (mset (scope_ids n))"
proof (induction n)
  case (ScopeCategory j nm' ch pr)
  show ?case
  proof (cases "j = p")
    case False
    have d: "distinct (scope_forest_ids ch)" and m: "p \<in> set (scope_forest_ids ch)"
      using ScopeCategory.prems False distinct_children by (auto simp: scope_forest_ids_def)
    have "mset (concat (map scope_ids (map (add_child p (ScopeCategory i nm [] [])) ch))) =
        add_mset i (mset (concat (map scope_ids ch)))"
      by (rule forest_update_once [OF d m]) (simp_all add: add_child_outside ScopeCategory.IH)
    then show ?thesis using False by (simp del: mset_concat map_map)
  qed simp
qed

lemma packages_add_child [simp]:
  "scopeCategoryPackages (add_child p (ScopeCategory i nm [] []) n) = scopeCategoryPackages n"
proof (induction n)
  case (ScopeCategory j nm' ch pr)
  then have "map scopeCategoryPackages (map (add_child p (ScopeCategory i nm [] [])) ch) =
      map scopeCategoryPackages ch" by simp
  then show ?case by (simp del: map_map)
qed

definition scope_wf :: "scope_build \<Rightarrow> bool" where
  "scope_wf b \<longleftrightarrow> distinct (scope_forest_ids (b_roots b) @ b_orphans b)"

lemma mset_forest_add_child:
  assumes "distinct (scope_forest_ids ns)" "p \<in> set (scope_forest_ids ns)"
  shows "mset (scope_forest_ids (map (add_child p (ScopeCategory i nm [] [])) ns)) =
         add_mset i (mset (scope_forest_ids ns))"
  unfolding scope_forest_ids_def
  by (rule forest_update_once [OF assms]) (simp_all add: add_child_outside mset_add_child)

lemma mset_forest_add_package:
  assumes "distinct (scope_forest_ids ns)" "category_id pkg \<in> set (scope_forest_ids ns)"
  shows "mset (forest_packages (map (add_package pkg) ns)) = add_mset pkg (mset (forest_packages ns))"
  unfolding forest_packages_def
  by (rule forest_update_once [OF assms]) (simp_all add: add_package_outside mset_add_package)

lemma forest_packages_add_child [simp]:
  "forest_packages (map (add_child p (ScopeCategory i nm [] [])) ns) = forest_packages ns"
  by (simp add: forest_packages_def comp_def)

lemma forest_ids_add_package [simp]:
  "scope_forest_ids (map (add_package pkg) ns) = scope_forest_ids ns"
  by (simp add: scope_forest_ids_def comp_def)

lemma scope_forest_ids_append [simp]:
  "scope_forest_ids (ns @ ms) = scope_forest_ids ns @ scope_forest_ids ms"
  by (simp add: scope_forest_ids_def)

lemma scope_forest_ids_leaf [simp]: "scope_forest_ids [ScopeCategory i nm [] pr] = [i]"
  by (simp add: scope_forest_ids_def)

lemma forest_packages_append [simp]:
  "forest_packages (ns @ [ScopeCategory i nm [] []]) = forest_packages ns"
  by (simp add: forest_packages_def)

lemma distinct_mset_eq: "mset xs = mset ys \<Longrightarrow> distinct xs = distinct ys"
  by (metis mset_eq_imp_distinct_iff)

lemma ensure_scope_child:
  assumes wf: "scope_wf b"
    and i: "i \<notin> set (scope_forest_ids (b_roots b))" "i \<notin> set (b_orphans b)"
    and p: "p \<noteq> i" "p \<notin> set (b_orphans b)"
  shows "scope_wf (ensure_scope i nm (Some p) pn b)"
    and "i \<in> set (scope_forest_ids (b_roots (ensure_scope i nm (Some p) pn b)))"
proof -
  let ?roots = "if p \<in> set (scope_forest_ids (b_roots b)) then b_roots b
     else b_roots b @ [ScopeCategory p (case pn of None \<Rightarrow> [] | Some s \<Rightarrow> s) [] []]"
  let ?c = "ScopeCategory i nm [] []"
  have d: "distinct (scope_forest_ids ?roots)" and pin: "p \<in> set (scope_forest_ids ?roots)"
    and inn: "i \<notin> set (scope_forest_ids ?roots)"
    and orph: "set (scope_forest_ids ?roots) \<inter> set (b_orphans b) = {}"
    and do: "distinct (b_orphans b)"
    using wf i p by (auto simp: scope_wf_def)
  have m: "mset (scope_forest_ids (map (add_child p ?c) ?roots)) =
      mset (i # scope_forest_ids ?roots)"
    using mset_forest_add_child [OF d pin] by simp
  have s: "set (scope_forest_ids (map (add_child p ?c) ?roots)) = insert i (set (scope_forest_ids ?roots))"
    using mset_eq_setD [OF m] by simp
  have dd: "distinct (scope_forest_ids (map (add_child p ?c) ?roots))"
    using distinct_mset_eq [OF m] d inn by simp
  have e: "ensure_scope i nm (Some p) pn b = b\<lparr>b_roots := map (add_child p ?c) ?roots\<rparr>"
    using i p by (simp add: ensure_scope_def Let_def)
  show "scope_wf (ensure_scope i nm (Some p) pn b)"
    unfolding e scope_wf_def using dd s orph do i(2) by simp
  show "i \<in> set (scope_forest_ids (b_roots (ensure_scope i nm (Some p) pn b)))"
    unfolding e using s by simp
qed

lemma scope_wf_ensure:
  assumes "scope_wf b" shows "scope_wf (ensure_scope i nm parent pn b)"
proof (cases "i \<in> set (scope_forest_ids (b_roots b)) \<or> i \<in> set (b_orphans b)")
  case True
  with assms show ?thesis by (simp add: ensure_scope_def)
next
  case new: False
  show ?thesis
  proof (cases parent)
    case None
    with new assms show ?thesis by (auto simp: ensure_scope_def scope_wf_def)
  next
    case (Some p)
    show ?thesis
    proof (cases "p = i \<or> p \<in> set (b_orphans b)")
      case True
      with new assms Some show ?thesis by (auto simp: ensure_scope_def scope_wf_def)
    next
      case False
      with new assms Some show ?thesis by (simp add: ensure_scope_child)
    qed
  qed
qed

lemma ensure_scope_present:
  assumes "scope_wf b" "b_orphans b = []" "parent \<noteq> Some i"
  shows "i \<in> set (scope_forest_ids (b_roots (ensure_scope i nm parent pn b)))"
    and "b_orphans (ensure_scope i nm parent pn b) = []"
proof -
  show "b_orphans (ensure_scope i nm parent pn b) = []"
    using assms by (simp add: ensure_scope_def Let_def split: option.splits)
  show "i \<in> set (scope_forest_ids (b_roots (ensure_scope i nm parent pn b)))"
  proof (cases "i \<in> set (scope_forest_ids (b_roots b))")
    case True
    then show ?thesis by (simp add: ensure_scope_def)
  next
    case False
    with assms show ?thesis
      by (cases parent) (auto simp: ensure_scope_child(2), simp add: ensure_scope_def)
  qed
qed

lemma forest_packages_ensure [simp]:
  "forest_packages (b_roots (ensure_scope i nm parent pn b)) = forest_packages (b_roots b)"
  by (simp add: ensure_scope_def Let_def split: option.splits)

lemma scope_wf_step [wf_intro]: "scope_wf b \<Longrightarrow> scope_wf (scope_step b pkg)"
  using scope_wf_ensure by (simp add: scope_step_def Let_def) (simp add: scope_wf_def)

lemma mset_scope_step:
  assumes "scope_wf b" "b_orphans b = []" "category_parent_id pkg \<noteq> Some (category_id pkg)"
  shows "mset (forest_packages (b_roots (scope_step b pkg))) =
         add_mset pkg (mset (forest_packages (b_roots b)))"
    and "b_orphans (scope_step b pkg) = []"
proof -
  let ?b = "ensure_scope (category_id pkg) (category_name pkg) (category_parent_id pkg)
      (category_parent_name pkg) b"
  have "distinct (scope_forest_ids (b_roots ?b))"
    using scope_wf_ensure [OF assms(1)] by (simp add: scope_wf_def)
  from mset_forest_add_package [OF this ensure_scope_present(1) [OF assms]]
  show "mset (forest_packages (b_roots (scope_step b pkg))) =
      add_mset pkg (mset (forest_packages (b_roots b)))"
    by (simp add: scope_step_def Let_def)
  show "b_orphans (scope_step b pkg) = []"
    using ensure_scope_present(2) [OF assms] by (simp add: scope_step_def Let_def)
qed

lemma foldl_scope_step:
  "scope_wf b \<Longrightarrow> b_orphans b = [] \<Longrightarrow>
     \<forall>p \<in> set items. category_parent_id p \<noteq> Some (category_id p) \<Longrightarrow>
     scope_wf (foldl scope_step b items) \<and> b_orphans (foldl scope_step b items) = [] \<and>
     mset (forest_packages (b_roots (foldl scope_step b items))) =
       mset (forest_packages (b_roots b)) + mset items"
  by (induction items arbitrary: b) (simp_all add: scope_wf_step mset_scope_step)

lemma mset_buildScopeTree:
  assumes "\<forall>p \<in> set items. category_parent_id p \<noteq> Some (category_id p)"
  shows "mset (forest_packages (buildScopeTree cmp items)) = mset items"
proof -
  let ?b = "foldl scope_step \<lparr>b_roots = [], b_orphans = []\<rparr> items"
  have "mset (forest_packages (b_roots ?b)) = mset items"
    using foldl_scope_step [of "\<lparr>b_roots = [], b_orphans = []\<rparr>", OF _ _ assms]
    by (simp add: scope_wf_def scope_forest_ids_def forest_packages_def)
  moreover have "mset (forest_packages (buildScopeTree cmp items)) = mset (forest_packages (b_roots ?b))"
    unfolding buildScopeTree_def forest_packages_def
    by (rule mset_concat_map_sort) (rule scopeCategoryPackages_sort_cat)
  ultimately show ?thesis by simp
qed

subsection \<open>Every product under its own category\<close>

definition products_ok :: "int \<Rightarrow> scope_product list \<Rightarrow> bool" where
  "products_ok i pr \<longleftrightarrow>
     distinct (map sp_id pr) \<and>
     (\<forall>q \<in> set pr. sp_packages q \<noteq> [] \<and>
        (\<forall>p \<in> set (sp_packages q). product_id p = sp_id q \<and> category_id p = i))"

fun scope_ok :: "scope_category \<Rightarrow> bool" where
  "scope_ok (ScopeCategory i nm ch pr) \<longleftrightarrow> products_ok i pr \<and> (\<forall>k \<in> set ch. scope_ok k)"

lemma products_ok_Nil [simp]: "products_ok i []"
  by (simp add: products_ok_def)

lemma products_ok_push:
  assumes "products_ok (category_id pkg) pr"
  shows "products_ok (category_id pkg) (push_product pkg pr)"
proof -
  have "\<forall>q \<in> set pr. sp_packages q \<noteq> [] \<and>
      (\<forall>p \<in> set (sp_packages q). product_id p = sp_id q \<and> category_id p = category_id pkg) \<Longrightarrow>
    \<forall>q \<in> set (push_product pkg pr). sp_packages q \<noteq> [] \<and>
      (\<forall>p \<in> set (sp_packages q). product_id p = sp_id q \<and> category_id p = category_id pkg)"
    by (induction pr) (auto simp: new_product_def)
  then show ?thesis
    using assms unfolding products_ok_def ids_push_product distinct_set_add by blast
qed

lemma products_ok_package:
  "products_ok i pr \<Longrightarrow> q \<in> set pr \<Longrightarrow>
     \<exists>p \<in> set (sp_packages q). product_id p = sp_id q \<and> category_id p = i"
  unfolding products_ok_def by (metis hd_in_set)

lemma scope_ok_add_package [wf_intro]: "scope_ok n \<Longrightarrow> scope_ok (add_package pkg n)"
proof (induction n)
  case (ScopeCategory i nm ch pr)
  then show ?case by (auto simp: products_ok_push)
qed

lemma scope_ok_add_child [wf_intro]:
  "scope_ok n \<Longrightarrow> scope_ok (add_child p (ScopeCategory i nm [] []) n)"
proof (induction n)
  case (ScopeCategory j nm' ch pr)
  then have "\<forall>k \<in> set (map (add_child p (ScopeCategory i nm [] [])) ch). scope_ok k" by simp
  with ScopeCategory.prems show ?case by auto
qed

lemma scope_ok_sort_cat: "scope_ok n \<Longrightarrow> scope_ok (sort_cat cmp n)"
proof (induction n)
  case (ScopeCategory i nm ch pr)
  have "mset (map sp_id (sort_by c pr)) = mset (map sp_id pr)" for c
    by (simp add: mset_map)
  then have "distinct (map sp_id (sort_by c pr)) = distinct (map sp_id pr)" for c
    using distinct_mset_eq by blast
  then have "products_ok i pr \<Longrightarrow> products_ok i (sort_by c pr)" for c
    unfolding products_ok_def set_sort_by by blast
  with ScopeCategory show ?case by simp
qed

lemma scope_ok_step:
  assumes "\<forall>n \<in> set (b_roots b). scope_ok n"
  shows "\<forall>n \<in> set (b_roots (scope_step b pkg)). scope_ok n"
proof -
  have "\<forall>n \<in> set (b_roots (ensure_scope i nm parent pn b)). scope_ok n" for i nm parent pn
    using assms by (auto simp: ensure_scope_def Let_def scope_ok_add_child split: option.splits)
  then show ?thesis by (auto simp: scope_step_def Let_def scope_ok_add_package)
qed

lemma scope_ok_build: "n \<in> set (buildScopeTree cmp items) \<Longrightarrow> scope_ok n"
proof -
  have all: "\<forall>n \<in> set (b_roots b). scope_ok n \<Longrightarrow>
      \<forall>n \<in> set (b_roots (foldl scope_step b items)). scope_ok n" for b
  proof (induction items arbitrary: b)
    case (Cons p items)
    then show ?case using Cons.IH [OF scope_ok_step [OF Cons.prems]] by simp
  qed simp
  show "n \<in> set (buildScopeTree cmp items) \<Longrightarrow> scope_ok n"
    using all [of "\<lparr>b_roots = [], b_orphans = []\<rparr>"]
    by (auto simp: buildScopeTree_def intro: scope_ok_sort_cat)
qed

lemma scope_wf_foldl: "scope_wf b \<Longrightarrow> scope_wf (foldl scope_step b items)"
  by (induction items arbitrary: b) (simp_all add: scope_wf_step)

lemma distinct_buildScopeTree: "distinct (scope_forest_ids (buildScopeTree cmp items))"
proof -
  let ?b = "foldl scope_step \<lparr>b_roots = [], b_orphans = []\<rparr> items"
  have "scope_wf ?b"
    by (rule scope_wf_foldl) (simp add: scope_wf_def scope_forest_ids_def)
  then have "distinct (scope_forest_ids (b_roots ?b))" by (simp add: scope_wf_def)
  moreover have "mset (scope_forest_ids (buildScopeTree cmp items)) = mset (scope_forest_ids (b_roots ?b))"
    unfolding buildScopeTree_def scope_forest_ids_def
    by (rule mset_concat_map_sort) (rule scope_ids_sort_cat)
  ultimately show ?thesis using distinct_mset_eq by blast
qed

definition forest_products :: "scope_category list \<Rightarrow> scope_product list" where
  "forest_products ns = concat (map scopeCategoryProducts ns)"

text \<open>A product's package shows where it hangs.\<close>

lemma product_package:
  "scope_ok n \<Longrightarrow> q \<in> set (scopeCategoryProducts n) \<Longrightarrow>
     \<exists>p \<in> set (scopeCategoryPackages n). product_id p = sp_id q \<and> category_id p \<in> set (scope_ids n)"
proof (induction n)
  case (ScopeCategory i nm ch pr)
  show ?case
  proof (cases "q \<in> set pr")
    case True
    with ScopeCategory.prems(1) obtain p where "p \<in> set (sp_packages q)" "product_id p = sp_id q"
        "category_id p = i"
      using products_ok_package by (metis scope_ok.simps)
    with True show ?thesis by auto
  next
    case False
    with ScopeCategory.prems obtain k where k: "k \<in> set ch" "q \<in> set (scopeCategoryProducts k)"
      by auto
    with ScopeCategory.prems(1) ScopeCategory.IH [OF k(1)] k(2) show ?thesis by fastforce
  qed
qed

definition one_category :: "inventory_package list \<Rightarrow> bool" where
  "one_category ps \<longleftrightarrow>
     (\<forall>p \<in> set ps. \<forall>q \<in> set ps. product_id p = product_id q \<longrightarrow> category_id p = category_id q)"

lemma one_category_subset: "one_category ps \<Longrightarrow> set qs \<subseteq> set ps \<Longrightarrow> one_category qs"
  by (auto simp: one_category_def)

lemma forest_products_distinct:
  assumes "distinct (scope_forest_ids ns)" "one_category (forest_packages ns)"
    "\<forall>n \<in> set ns. scope_ok n"
    "\<And>n. n \<in> set ns \<Longrightarrow> distinct (scope_ids n) \<Longrightarrow> one_category (scopeCategoryPackages n) \<Longrightarrow>
       distinct (map sp_id (scopeCategoryProducts n))"
  shows "distinct (map sp_id (forest_products ns))"
  using assms
proof (induction ns)
  case (Cons n ns)
  have "distinct (map sp_id (scopeCategoryProducts n))"
    using Cons.prems by (simp add: scope_forest_ids_def forest_packages_def one_category_subset)
  moreover have "distinct (map sp_id (forest_products ns))"
  proof (rule Cons.IH)
    show "distinct (scope_forest_ids ns)" using Cons.prems(1) by (simp add: scope_forest_ids_def)
    show "one_category (forest_packages ns)"
      using Cons.prems(2) by (rule one_category_subset) (simp add: forest_packages_def)
  qed (use Cons.prems(3,4) in auto)
  moreover have "sp_id q \<noteq> sp_id r"
    if q: "q \<in> set (scopeCategoryProducts n)" and r: "r \<in> set (forest_products ns)" for q r
  proof
    assume same: "sp_id q = sp_id r"
    from r obtain m where m: "m \<in> set ns" "r \<in> set (scopeCategoryProducts m)"
      by (auto simp: forest_products_def)
    obtain a where a: "a \<in> set (scopeCategoryPackages n)" "product_id a = sp_id q"
        "category_id a \<in> set (scope_ids n)"
      using product_package [of n q] q Cons.prems(3) by auto
    obtain b where b: "b \<in> set (scopeCategoryPackages m)" "product_id b = sp_id r"
        "category_id b \<in> set (scope_ids m)"
      using product_package [of m r] m Cons.prems(3) by auto
    have "a \<in> set (forest_packages (n # ns))" "b \<in> set (forest_packages (n # ns))"
      using a(1) b(1) m(1) by (auto simp: forest_packages_def)
    with Cons.prems(2) a(2) b(2) same have "category_id a = category_id b"
      unfolding one_category_def by metis
    moreover have "set (scope_ids n) \<inter> set (scope_ids m) = {}"
      using Cons.prems(1) m(1) by (auto simp: scope_forest_ids_def)
    ultimately show False using a(3) b(3) by auto
  qed
  ultimately show ?case by (fastforce simp: forest_products_def)
qed (simp add: forest_products_def)

lemma category_products_distinct:
  "distinct (scope_ids n) \<Longrightarrow> one_category (scopeCategoryPackages n) \<Longrightarrow> scope_ok n \<Longrightarrow>
     distinct (map sp_id (scopeCategoryProducts n))"
proof (induction n)
  case (ScopeCategory i nm ch pr)
  have below: "distinct (map sp_id (forest_products ch))"
  proof (rule forest_products_distinct)
    show "distinct (scope_forest_ids ch)" using distinct_children [OF ScopeCategory.prems(1)] by simp
    show "one_category (forest_packages ch)"
      using ScopeCategory.prems(2) by (rule one_category_subset) (simp add: forest_packages_def)
  qed (use ScopeCategory.prems(3) ScopeCategory.IH in auto)
  have "sp_id q \<noteq> sp_id r" if q: "q \<in> set pr" and r: "r \<in> set (forest_products ch)" for q r
  proof
    assume same: "sp_id q = sp_id r"
    from r obtain m where m: "m \<in> set ch" "r \<in> set (scopeCategoryProducts m)"
      by (auto simp: forest_products_def)
    have okm: "scope_ok m" using ScopeCategory.prems(3) m(1) by simp
    obtain b where b: "b \<in> set (scopeCategoryPackages m)" "product_id b = sp_id r"
        "category_id b \<in> set (scope_ids m)"
      using product_package [OF okm m(2)] by auto
    obtain a where a: "a \<in> set (sp_packages q)" "product_id a = sp_id q" "category_id a = i"
      using ScopeCategory.prems(3) q products_ok_package by (metis scope_ok.simps)
    have "a \<in> set (scopeCategoryPackages (ScopeCategory i nm ch pr))"
      "b \<in> set (scopeCategoryPackages (ScopeCategory i nm ch pr))"
      using a(1) q b(1) m(1) by auto
    with ScopeCategory.prems(2) a b(2) same have "category_id b = i"
      by (metis one_category_def)
    with b(3) m(1) ScopeCategory.prems(1) show False by auto
  qed
  then have "sp_id ` set pr \<inter> sp_id ` set (forest_products ch) = {}" by blast
  moreover have "scopeCategoryProducts (ScopeCategory i nm ch pr) = pr @ forest_products ch"
    by (simp add: forest_products_def)
  ultimately show ?case using below ScopeCategory.prems(3) by (simp add: products_ok_def)
qed

subsection \<open>The short form selects the same packages\<close>

text \<open>
  What the ids of a compact scope stand for: a category id its whole branch, a product id its
  packages, a variant id itself, among the packages that are eligible.
\<close>

fun scope_covered ::
    "(inventory_package \<Rightarrow> bool) \<Rightarrow> int set \<Rightarrow> int set \<Rightarrow> int set \<Rightarrow> bool \<Rightarrow> scope_category \<Rightarrow>
     inventory_package list" where
  "scope_covered ok C P V inh (ScopeCategory i nm ch pr) =
     (let on = (inh \<or> i \<in> C)
      in concat (map (\<lambda>q. filter (\<lambda>p. ok p \<and> (on \<or> sp_id q \<in> P \<or> variant_id p \<in> V)) (sp_packages q)) pr) @
         concat (map (scope_covered ok C P V on) ch))"

definition ids_of :: "'a list option \<Rightarrow> 'a set" where
  "ids_of x = (case x of None \<Rightarrow> {} | Some xs \<Rightarrow> set xs)"

lemma ids_of_non_empty [simp]: "ids_of (non_empty xs) = set xs"
  by (simp add: ids_of_def non_empty_def)

definition expand_scope :: "scope_category list \<Rightarrow> compact_scope \<Rightarrow> inventory_package list" where
  "expand_scope tree cs =
     concat (map (scope_covered (eligible (cs_includeInactive cs = Some True))
       (ids_of (cs_categoryIds cs)) (ids_of (cs_productIds cs)) (ids_of (cs_variantIds cs)) False) tree)"

text \<open>What one product and one category contribute to the three lists.\<close>

definition all_ticked :: "(inventory_package \<Rightarrow> bool) \<Rightarrow> int list \<Rightarrow> inventory_package list \<Rightarrow> bool" where
  "all_ticked ok sel ps \<longleftrightarrow>
     filter ok ps \<noteq> [] \<and> (\<forall>p \<in> set (filter ok ps). variant_id p \<in> set sel)"

definition product_ids_part :: "(inventory_package \<Rightarrow> bool) \<Rightarrow> int list \<Rightarrow> scope_product \<Rightarrow> int list" where
  "product_ids_part ok sel q = (if all_ticked ok sel (sp_packages q) then [sp_id q] else [])"

definition variant_ids_part :: "(inventory_package \<Rightarrow> bool) \<Rightarrow> int list \<Rightarrow> scope_product \<Rightarrow> int list" where
  "variant_ids_part ok sel q =
     (if all_ticked ok sel (sp_packages q) then []
      else filter (\<lambda>v. v \<in> set sel) (map variant_id (filter ok (sp_packages q))))"

fun cat_part :: "(inventory_package \<Rightarrow> bool) \<Rightarrow> int list \<Rightarrow> scope_category \<Rightarrow> int list" where
  "cat_part ok sel (ScopeCategory i nm ch pr) =
     (if all_ticked ok sel (scopeCategoryPackages (ScopeCategory i nm ch pr)) then [i]
      else concat (map (cat_part ok sel) ch))"

fun prod_part :: "(inventory_package \<Rightarrow> bool) \<Rightarrow> int list \<Rightarrow> scope_category \<Rightarrow> int list" where
  "prod_part ok sel (ScopeCategory i nm ch pr) =
     (if all_ticked ok sel (scopeCategoryPackages (ScopeCategory i nm ch pr)) then []
      else concat (map (product_ids_part ok sel) pr) @ concat (map (prod_part ok sel) ch))"

fun var_part :: "(inventory_package \<Rightarrow> bool) \<Rightarrow> int list \<Rightarrow> scope_category \<Rightarrow> int list" where
  "var_part ok sel (ScopeCategory i nm ch pr) =
     (if all_ticked ok sel (scopeCategoryPackages (ScopeCategory i nm ch pr)) then []
      else concat (map (variant_ids_part ok sel) pr) @ concat (map (var_part ok sel) ch))"

definition out_append :: "scope_ids_out \<Rightarrow> int list \<Rightarrow> int list \<Rightarrow> int list \<Rightarrow> scope_ids_out" where
  "out_append out cs ps vs =
     \<lparr>out_categories = out_categories out @ cs, out_products = out_products out @ ps,
      out_variants = out_variants out @ vs\<rparr>"

lemma out_append_append [simp]:
  "out_append (out_append out cs ps vs) cs' ps' vs' = out_append out (cs @ cs') (ps @ ps') (vs @ vs')"
  "out_append out [] [] [] = out"
  by (simp_all add: out_append_def)

lemma product_scope_append:
  "product_scope ok sel q out = out_append out [] (product_ids_part ok sel q) (variant_ids_part ok sel q)"
  by (simp add: product_scope_def out_append_def product_ids_part_def variant_ids_part_def
      all_ticked_def Let_def)

lemma fold_out_append:
  assumes "\<And>x out. x \<in> set xs \<Longrightarrow> f x out = out_append out (a x) (b x) (c x)"
  shows "fold f xs out = out_append out (concat (map a xs)) (concat (map b xs)) (concat (map c xs))"
  using assms
proof (induction xs arbitrary: out)
  case (Cons x xs)
  have "fold f (x # xs) out = fold f xs (out_append out (a x) (b x) (c x))"
    using Cons.prems [of x] by simp
  also have "\<dots> = out_append (out_append out (a x) (b x) (c x))
      (concat (map a xs)) (concat (map b xs)) (concat (map c xs))"
    by (rule Cons.IH) (rule Cons.prems, simp)
  finally show ?case by simp
qed simp

lemma scope_walk_append:
  "scope_walk ok sel n out = out_append out (cat_part ok sel n) (prod_part ok sel n) (var_part ok sel n)"
proof (induction n arbitrary: out)
  case (ScopeCategory i nm ch pr)
  let ?n = "ScopeCategory i nm ch pr"
  show ?case
  proof (cases "all_ticked ok sel (scopeCategoryPackages ?n)")
    case True
    then have "scope_walk ok sel ?n out = out\<lparr>out_categories := out_categories out @ [i]\<rparr>"
      unfolding scope_walk.simps all_ticked_def Let_def by (rule if_P)
    with True show ?thesis by (simp add: out_append_def)
  next
    case False
    then have "scope_walk ok sel ?n out =
        fold (scope_walk ok sel) ch (fold (product_scope ok sel) pr out)"
      unfolding scope_walk.simps all_ticked_def Let_def by (rule if_not_P)
    also have "fold (product_scope ok sel) pr out =
        out_append out [] (concat (map (product_ids_part ok sel) pr)) (concat (map (variant_ids_part ok sel) pr))"
    proof -
      have "concat (map (\<lambda>_. []) pr) = ([] :: int list)" by (induction pr) auto
      with fold_out_append [of pr "product_scope ok sel" "\<lambda>_. []", OF product_scope_append]
      show ?thesis by simp
    qed
    also have "fold (scope_walk ok sel) ch \<dots> = out_append \<dots> (concat (map (cat_part ok sel) ch))
        (concat (map (prod_part ok sel) ch)) (concat (map (var_part ok sel) ch))"
      by (rule fold_out_append) (rule ScopeCategory.IH)
    finally show ?thesis using False by simp
  qed
qed

lemma compactScope_parts:
  "compactScope tree sel inc =
     \<lparr>cs_variantIds = non_empty (concat (map (var_part (eligible inc) sel) tree)),
      cs_productIds = non_empty (concat (map (prod_part (eligible inc) sel) tree)),
      cs_categoryIds = non_empty (concat (map (cat_part (eligible inc) sel) tree)),
      cs_includeInactive = (if inc then Some True else None)\<rparr>"
  unfolding compactScope_def Let_def
  by (subst (1 2 3) fold_out_append [OF scope_walk_append]) (simp add: out_append_def)

lemma cat_part_subset: "set (cat_part ok sel n) \<subseteq> set (scope_ids n)"
proof (induction n)
  case (ScopeCategory i nm ch pr)
  then show ?case by auto
qed

lemma prod_part_subset: "set (prod_part ok sel n) \<subseteq> sp_id ` set (scopeCategoryProducts n)"
proof (induction n)
  case (ScopeCategory i nm ch pr)
  have "set (concat (map (product_ids_part ok sel) pr)) \<subseteq> sp_id ` set pr"
    by (auto simp: product_ids_part_def split: if_splits)
  with ScopeCategory show ?case by (simp del: set_concat add: image_Un) fastforce
qed

lemma var_part_subset: "set (var_part ok sel n) \<subseteq> set sel"
proof (induction n)
  case (ScopeCategory i nm ch pr)
  have "set (concat (map (variant_ids_part ok sel) pr)) \<subseteq> set sel"
    by (auto simp: variant_ids_part_def split: if_splits)
  with ScopeCategory show ?case by auto
qed

lemma part_restrict:
  assumes d: "distinct (concat (map g xs))" and k: "k \<in> set xs"
    and sub: "\<And>m. m \<in> set xs \<Longrightarrow> F m \<subseteq> set (g m)"
  shows "(\<Union>m \<in> set xs. F m) \<inter> set (g k) = F k"
proof -
  have "F m \<inter> set (g k) \<subseteq> F k" if m: "m \<in> set xs" for m
  proof (cases "m = k")
    case False
    with distinct_concat_disjoint [OF d m k] sub [OF m] show ?thesis by blast
  qed blast
  with k sub [OF k] show ?thesis by blast
qed

lemma scope_covered_True: "scope_covered ok C P V True n = filter ok (scopeCategoryPackages n)"
proof (induction n)
  case (ScopeCategory i nm ch pr)
  have "concat (map (\<lambda>q. filter ok (sp_packages q)) pr) = filter ok (concat (map sp_packages pr))"
    by (simp add: filter_concat comp_def)
  moreover have "concat (map (scope_covered ok C P V True) ch) =
      filter ok (concat (map scopeCategoryPackages ch))"
    using ScopeCategory by (simp add: filter_concat comp_def cong: map_cong)
  ultimately show ?case by simp
qed

lemma scope_covered_all:
  assumes "all_ticked ok sel (scopeCategoryPackages (ScopeCategory i nm ch pr))" "i \<in> C"
  shows "scope_covered ok C P V False (ScopeCategory i nm ch pr) =
         filter (\<lambda>p. ok p \<and> variant_id p \<in> set sel) (scopeCategoryPackages (ScopeCategory i nm ch pr))"
proof -
  have "scope_covered ok C P V False (ScopeCategory i nm ch pr) =
      scope_covered ok C P V True (ScopeCategory i nm ch pr)"
    using assms(2) by (simp only: scope_covered.simps Let_def simp_thms)
  also have "\<dots> = filter ok (scopeCategoryPackages (ScopeCategory i nm ch pr))"
    by (rule scope_covered_True)
  also have "\<dots> = filter (\<lambda>p. ok p \<and> variant_id p \<in> set sel)
      (scopeCategoryPackages (ScopeCategory i nm ch pr))"
    using assms(1) unfolding all_ticked_def by (intro filter_cong) auto
  finally show ?thesis .
qed

lemma product_covered:
  assumes "sp_id q \<in> P \<longleftrightarrow> all_ticked ok sel (sp_packages q)"
    "set (variant_ids_part ok sel q) \<subseteq> V" "V \<subseteq> set sel"
  shows "filter (\<lambda>p. ok p \<and> (sp_id q \<in> P \<or> variant_id p \<in> V)) (sp_packages q) =
         filter (\<lambda>p. ok p \<and> variant_id p \<in> set sel) (sp_packages q)"
proof (rule filter_cong)
  fix p assume p: "p \<in> set (sp_packages q)"
  show "(ok p \<and> (sp_id q \<in> P \<or> variant_id p \<in> V)) = (ok p \<and> variant_id p \<in> set sel)"
  proof (cases "all_ticked ok sel (sp_packages q)")
    case True
    with p assms(1) show ?thesis by (auto simp: all_ticked_def)
  next
    case False
    with p have "ok p \<Longrightarrow> variant_id p \<in> set sel \<Longrightarrow> variant_id p \<in> set (variant_ids_part ok sel q)"
      by (simp add: variant_ids_part_def)
    with False assms show ?thesis by blast
  qed
qed simp

lemma prod_part_own:
  assumes d: "distinct (map sp_id (scopeCategoryProducts (ScopeCategory i nm ch pr)))" and q: "q \<in> set pr"
  shows "sp_id q \<in> (\<Union>r \<in> set pr. set (product_ids_part ok sel r)) \<union> (\<Union>k \<in> set ch. set (prod_part ok sel k))
         \<longleftrightarrow> all_ticked ok sel (sp_packages q)"
proof -
  have dp: "distinct (map sp_id pr)"
    and disj: "sp_id ` set pr \<inter> sp_id ` set (concat (map scopeCategoryProducts ch)) = {}"
    using d by simp_all
  have "(\<Union>k \<in> set ch. set (prod_part ok sel k)) \<subseteq> sp_id ` set (concat (map scopeCategoryProducts ch))"
    using prod_part_subset by fastforce
  with disj q have "sp_id q \<notin> (\<Union>k \<in> set ch. set (prod_part ok sel k))" by blast
  moreover have "sp_id q \<in> (\<Union>r \<in> set pr. set (product_ids_part ok sel r)) \<longleftrightarrow>
      all_ticked ok sel (sp_packages q)"
  proof
    assume "sp_id q \<in> (\<Union>r \<in> set pr. set (product_ids_part ok sel r))"
    then obtain r where "r \<in> set pr" "all_ticked ok sel (sp_packages r)" "sp_id q = sp_id r"
      by (auto simp: product_ids_part_def split: if_splits)
    with q dp show "all_ticked ok sel (sp_packages q)" by (metis distinct_map inj_onD)
  next
    assume "all_ticked ok sel (sp_packages q)"
    then have "sp_id q \<in> set (product_ids_part ok sel q)" by (simp add: product_ids_part_def)
    with q show "sp_id q \<in> (\<Union>r \<in> set pr. set (product_ids_part ok sel r))" by blast
  qed
  ultimately show ?thesis by blast
qed

lemma prod_part_child:
  assumes d: "distinct (map sp_id (scopeCategoryProducts (ScopeCategory i nm ch pr)))" and k: "k \<in> set ch"
  shows "((\<Union>r \<in> set pr. set (product_ids_part ok sel r)) \<union> (\<Union>m \<in> set ch. set (prod_part ok sel m))) \<inter>
         sp_id ` set (scopeCategoryProducts k) = set (prod_part ok sel k)"
proof -
  let ?ids = "\<lambda>k. map sp_id (scopeCategoryProducts k)"
  have disj: "sp_id ` set pr \<inter> sp_id ` set (concat (map scopeCategoryProducts ch)) = {}"
    and dk0: "distinct (map sp_id (concat (map scopeCategoryProducts ch)))"
    using d by simp_all
  from dk0 have dk: "distinct (concat (map ?ids ch))" by (simp add: map_concat comp_def)
  have "(\<Union>m \<in> set ch. set (prod_part ok sel m)) \<inter> set (?ids k) = set (prod_part ok sel k)"
    by (rule part_restrict [OF dk k]) (use prod_part_subset in simp)
  moreover have "(\<Union>r \<in> set pr. set (product_ids_part ok sel r)) \<subseteq> sp_id ` set pr"
    by (auto simp: product_ids_part_def split: if_splits)
  moreover have "set (?ids k) \<subseteq> sp_id ` set (concat (map scopeCategoryProducts ch))"
    using k by auto
  ultimately show ?thesis using disj unfolding set_map by blast
qed

text \<open>The three id sets agree with what the walk of a branch put out, within that branch.\<close>

definition parts_agree ::
    "(inventory_package \<Rightarrow> bool) \<Rightarrow> int list \<Rightarrow> int set \<Rightarrow> int set \<Rightarrow> int set \<Rightarrow> scope_category \<Rightarrow> bool" where
  "parts_agree ok sel C P V n \<longleftrightarrow>
     distinct (scope_ids n) \<and> distinct (map sp_id (scopeCategoryProducts n)) \<and>
     C \<inter> set (scope_ids n) = set (cat_part ok sel n) \<and>
     P \<inter> sp_id ` set (scopeCategoryProducts n) = set (prod_part ok sel n) \<and>
     set (var_part ok sel n) \<subseteq> V \<and> V \<subseteq> set sel"

lemma parts_agree_child:
  assumes agree: "parts_agree ok sel C P V (ScopeCategory i nm ch pr)" and k: "k \<in> set ch"
    and no: "\<not> all_ticked ok sel (scopeCategoryPackages (ScopeCategory i nm ch pr))"
  shows "parts_agree ok sel C P V k"
proof -
  let ?n = "ScopeCategory i nm ch pr"
  have dc: "distinct (concat (map scope_ids ch))"
    and dn: "distinct (map sp_id (scopeCategoryProducts ?n))"
    using agree by (simp_all add: parts_agree_def)
  have "C \<inter> set (scope_ids k) = set (cat_part ok sel ?n) \<inter> set (scope_ids k)"
  proof -
    have "set (scope_ids k) \<subseteq> set (scope_ids ?n)" using k by auto
    with agree show ?thesis unfolding parts_agree_def by blast
  qed
  also have "\<dots> = (\<Union>m \<in> set ch. set (cat_part ok sel m)) \<inter> set (scope_ids k)"
    using no by simp
  also have "\<dots> = set (cat_part ok sel k)" by (rule part_restrict [OF dc k cat_part_subset])
  finally have C: "C \<inter> set (scope_ids k) = set (cat_part ok sel k)" .
  have "P \<inter> sp_id ` set (scopeCategoryProducts k) =
      set (prod_part ok sel ?n) \<inter> sp_id ` set (scopeCategoryProducts k)"
  proof -
    have "sp_id ` set (scopeCategoryProducts k) \<subseteq> sp_id ` set (scopeCategoryProducts ?n)"
      using k by auto
    with agree show ?thesis unfolding parts_agree_def by blast
  qed
  also have "set (prod_part ok sel ?n) =
      (\<Union>r \<in> set pr. set (product_ids_part ok sel r)) \<union> (\<Union>m \<in> set ch. set (prod_part ok sel m))"
    using no by simp
  finally have P: "P \<inter> sp_id ` set (scopeCategoryProducts k) = set (prod_part ok sel k)"
    unfolding prod_part_child [OF dn k] .
  have "set (var_part ok sel k) \<subseteq> set (var_part ok sel ?n)" using no k by auto
  moreover have "distinct (map sp_id (scopeCategoryProducts k))"
    using distinct_concat_part [of "\<lambda>k. map sp_id (scopeCategoryProducts k)" ch] dn k
    by (simp add: map_concat comp_def)
  ultimately show ?thesis
    using agree C P distinct_concat_part [OF dc k] unfolding parts_agree_def by blast
qed

lemma scope_covered_exact:
  "parts_agree ok sel C P V n \<Longrightarrow>
     scope_covered ok C P V False n =
     filter (\<lambda>p. ok p \<and> variant_id p \<in> set sel) (scopeCategoryPackages n)"
proof (induction n)
  case (ScopeCategory i nm ch pr)
  let ?n = "ScopeCategory i nm ch pr"
  let ?sel = "\<lambda>p. ok p \<and> variant_id p \<in> set sel"
  have C: "C \<inter> set (scope_ids ?n) = set (cat_part ok sel ?n)"
    and P: "P \<inter> sp_id ` set (scopeCategoryProducts ?n) = set (prod_part ok sel ?n)"
    and V: "set (var_part ok sel ?n) \<subseteq> V" "V \<subseteq> set sel"
    and d: "i \<notin> set (concat (map scope_ids ch))" "distinct (map sp_id (scopeCategoryProducts ?n))"
    using ScopeCategory.prems unfolding parts_agree_def by simp_all
  show ?case
  proof (cases "all_ticked ok sel (scopeCategoryPackages ?n)")
    case True
    with C have "i \<in> C" by auto
    with True show ?thesis by (rule scope_covered_all)
  next
    case False
    have iC: "i \<notin> C"
    proof
      assume "i \<in> C"
      with C False have "i \<in> (\<Union>k \<in> set ch. set (cat_part ok sel k))" by auto
      with d(1) show False using cat_part_subset by fastforce
    qed
    have "filter (\<lambda>p. ok p \<and> (sp_id q \<in> P \<or> variant_id p \<in> V)) (sp_packages q) =
        filter ?sel (sp_packages q)" if q: "q \<in> set pr" for q
    proof (rule product_covered [OF _ _ V(2)])
      have "sp_id q \<in> sp_id ` set (scopeCategoryProducts ?n)" using q by simp
      with P have "sp_id q \<in> P \<longleftrightarrow> sp_id q \<in> set (prod_part ok sel ?n)" by blast
      with prod_part_own [OF d(2) q] False
      show "sp_id q \<in> P \<longleftrightarrow> all_ticked ok sel (sp_packages q)" by simp
      show "set (variant_ids_part ok sel q) \<subseteq> V" using V(1) False q by auto
    qed
    moreover have "scope_covered ok C P V False k = filter ?sel (scopeCategoryPackages k)"
      if k: "k \<in> set ch" for k
      by (rule ScopeCategory.IH [OF k parts_agree_child [OF ScopeCategory.prems k False]])
    moreover have "scope_covered ok C P V False ?n =
        concat (map (\<lambda>q. filter (\<lambda>p. ok p \<and> (sp_id q \<in> P \<or> variant_id p \<in> V)) (sp_packages q)) pr) @
        concat (map (scope_covered ok C P V False) ch)"
      using iC by (simp only: scope_covered.simps Let_def simp_thms)
    ultimately show ?thesis by (simp add: filter_concat comp_def cong: map_cong)
  qed
qed

lemma expand_compactScope:
  assumes d: "distinct (scope_forest_ids tree)" and dp: "distinct (map sp_id (forest_products tree))"
  shows "expand_scope tree (compactScope tree sel inc) =
         filter (\<lambda>p. eligible inc p \<and> variant_id p \<in> set sel) (forest_packages tree)"
proof -
  let ?ok = "eligible inc"
  let ?C = "\<Union>n \<in> set tree. set (cat_part ?ok sel n)" and ?P = "\<Union>n \<in> set tree. set (prod_part ?ok sel n)"
    and ?V = "\<Union>n \<in> set tree. set (var_part ?ok sel n)"
  let ?ids = "\<lambda>k. map sp_id (scopeCategoryProducts k)"
  have dp': "distinct (concat (map ?ids tree))"
    using dp by (simp add: forest_products_def map_concat comp_def)
  have d': "distinct (concat (map scope_ids tree))" using d by (simp add: scope_forest_ids_def)
  have "scope_covered ?ok ?C ?P ?V False n =
      filter (\<lambda>p. ?ok p \<and> variant_id p \<in> set sel) (scopeCategoryPackages n)" if n: "n \<in> set tree" for n
  proof (rule scope_covered_exact)
    have "?P \<inter> set (?ids n) = set (prod_part ?ok sel n)"
      by (rule part_restrict [OF dp' n]) (use prod_part_subset in simp)
    moreover have "?C \<inter> set (scope_ids n) = set (cat_part ?ok sel n)"
      by (rule part_restrict [OF d' n cat_part_subset])
    moreover have "set (var_part ?ok sel n) \<subseteq> ?V" using n by blast
    moreover have "?V \<subseteq> set sel" using var_part_subset by fast
    ultimately show "parts_agree ?ok sel ?C ?P ?V n"
      unfolding parts_agree_def
      using distinct_concat_part [OF d' n] distinct_concat_part [OF dp' n] by simp
  qed
  then have "concat (map (scope_covered ?ok ?C ?P ?V False) tree) =
      filter (\<lambda>p. ?ok p \<and> variant_id p \<in> set sel) (forest_packages tree)"
    by (simp add: forest_packages_def filter_concat comp_def cong: map_cong)
  moreover have "eligible ((if inc then Some True else None) = Some True) = ?ok" by simp
  ultimately show ?thesis
    unfolding expand_scope_def compactScope_parts by simp
qed

section \<open>Properties\<close>

text \<open>
  The scope tree holds every package exactly once, under the node of
  its own category and product, with no category twice, provided no category names itself as its
  parent.
\<close>

theorem buildScopeTree_packages:
  assumes "\<forall>p \<in> set items. category_parent_id p \<noteq> Some (category_id p)"
  shows "mset (forest_packages (buildScopeTree cmp items)) = mset items \<and>
         distinct (scope_forest_ids (buildScopeTree cmp items)) \<and>
         list_all scope_ok (buildScopeTree cmp items)"
  using mset_buildScopeTree [OF assms] distinct_buildScopeTree scope_ok_build
  by (auto simp: list_all_iff)

definition sample_package :: "int \<Rightarrow> int \<Rightarrow> int \<Rightarrow> int option \<Rightarrow> bool \<Rightarrow> inventory_package" where
  "sample_package v p c parent active =
     \<lparr>product_id = p, product_key = None, product_title = [], product_status = [], cover_id = None,
      service_type = None, category_id = c, category_name = [], category_parent_id = parent,
      category_parent_name = None, variant_id = v, variant_key = None, variant_name = [], price = 1,
      delivery_mode = None, is_active = active, available = 3, assigned = 0, error_count = 0,
      returned = 0, expired = 0, archived = 0, sold_30d = 0, last_restock_at = None,
      stock_state = InStock, manual_stock = None\<rparr>"

definition sample_packages :: "inventory_package list" where
  "sample_packages =
     [sample_package 1 10 100 (Some 200) True, sample_package 2 10 100 (Some 200) False,
      sample_package 3 11 100 (Some 200) True, sample_package 4 12 200 None True]"

lemma buildScopeTree_packages_witness:
  "mset (forest_packages (buildScopeTree (\<lambda>_ _. 0) sample_packages)) = mset sample_packages"
  by (rule buildScopeTree_packages [THEN conjunct1])
    (simp add: sample_packages_def sample_package_def)



end
