(* ===== verification/Inventory_Report.thy ===== *)
theory Inventory_Report
  imports Inventory_Tree Js_Number
begin

text \<open>
  The text helpers, the report and its client-side CSV of the seller inventory
  (features/seller-inventory/model.ts): masking of stock lines, report columns and groupings,
  sub-totals, drag-and-drop order of columns, and CSV writing with a reader that inverts it.
\<close>

section \<open>Masked and clipped text\<close>

definition bullets :: jstr where
  "bullets = replicate 6 0x2022"

definition maskResourceData :: "jstr \<Rightarrow> jstr \<Rightarrow> jstr" where
  "maskResourceData d token =
     (let parts = split_on 124 d
      in if 3 \<le> length parts
         then join [124] ([hd parts] @ map (\<lambda>_. token) (butlast (tl parts)) @ [last parts])
         else if length parts = 2 then hd parts @ [124] @ token
         else if 10 < length d then take 4 d @ token @ slice_last 4 d
         else if 2 < length d then take 2 d @ token else token)"

definition CELL_TEXT_MAX :: nat where "CELL_TEXT_MAX = 240"

definition clipForCell :: "jstr \<Rightarrow> nat \<Rightarrow> jstr" where
  "clipForCell v m = (if m < length v then take m v @ [0x2026] else v)"

definition fieldCount :: "jstr \<Rightarrow> nat" where
  "fieldCount line = length (split_on 124 line)"

datatype export_mask = MaskNone | MaskMiddle | MaskEdges | MaskIdOnly

definition maskSample :: "jstr \<Rightarrow> export_mask \<Rightarrow> jstr \<Rightarrow> jstr" where
  "maskSample sample how maskChar =
     (let token = concat (replicate 6 maskChar)
      in case how of
           MaskNone \<Rightarrow> sample
         | MaskIdOnly \<Rightarrow> []
         | MaskMiddle \<Rightarrow> maskResourceData sample token
         | MaskEdges \<Rightarrow>
             if 10 < length sample then take 4 sample @ token @ slice_last 4 sample
             else if 2 < length sample then take 2 sample @ token else token)"

lemma clipForCell_length: "length (clipForCell v m) \<le> Suc m \<or> length v \<le> m"
  by (simp add: clipForCell_def)

lemma split_on_hd_last: "hd (split_on c d) \<in> set (split_on c d)" "last (split_on c d) \<in> set (split_on c d)"
  by simp_all

lemma split_on_masked:
  assumes "124 \<notin> set token" "3 \<le> length (split_on 124 d)"
  shows "split_on 124 (maskResourceData d token) =
         [hd (split_on 124 d)] @ replicate (length (split_on 124 d) - 2) token @ [last (split_on 124 d)]"
proof -
  let ?p = "split_on 124 d"
  have "maskResourceData d token =
      join [124] ([hd ?p] @ map (\<lambda>_. token) (butlast (tl ?p)) @ [last ?p])"
    using assms(2) by (simp add: maskResourceData_def Let_def)
  moreover have "split_on 124 (join [124] ([hd ?p] @ map (\<lambda>_. token) (butlast (tl ?p)) @ [last ?p])) =
      [hd ?p] @ map (\<lambda>_. token) (butlast (tl ?p)) @ [last ?p]"
  proof (rule split_on_join)
    fix x assume "x \<in> set ([hd ?p] @ map (\<lambda>_. token) (butlast (tl ?p)) @ [last ?p])"
    then have "x \<in> set ?p \<or> x = token" by (auto intro: split_on_hd_last)
    then show "124 \<notin> set x" using assms(1) by (auto dest: split_on_parts_free)
  qed simp
  moreover have "map (\<lambda>_. token) (butlast (tl ?p)) = replicate (length ?p - 2) token"
    by (simp add: map_replicate_const numeral_2_eq_2)
  ultimately show ?thesis by simp
qed

section \<open>Report columns and groupings\<close>

datatype report_group = ByCategory | ByProduct | ByVariant | ByDay | ByWeek

datatype report_metric =
  MAdded | MSold | MError | MExpired | MArchived | MStock | MRevenue

datatype report_column = CIndex | CLabel | CProduct | CCategory | CMetric report_metric

datatype report_grouping = GNone | GProduct | GCategory

definition REPORT_METRICS :: "report_metric list" where
  "REPORT_METRICS = [MAdded, MSold, MError, MExpired, MArchived, MStock, MRevenue]"

definition DEFAULT_REPORT_METRICS :: "report_metric list" where
  "DEFAULT_REPORT_METRICS = [MAdded, MSold, MError, MExpired, MStock]"

definition report_context :: "report_group \<Rightarrow> report_column list" where
  "report_context groupBy =
     (case groupBy of ByVariant \<Rightarrow> [CProduct, CCategory] | ByProduct \<Rightarrow> [CCategory] | _ \<Rightarrow> [])"

definition reportColumnsFor :: "report_group \<Rightarrow> report_column list" where
  "reportColumnsFor groupBy = [CIndex, CLabel] @ report_context groupBy @ map CMetric REPORT_METRICS"

definition defaultReportColumns :: "report_group \<Rightarrow> report_column list" where
  "defaultReportColumns groupBy =
     [CIndex, CLabel] @ report_context groupBy @ map CMetric DEFAULT_REPORT_METRICS"

definition reportGroupingsFor :: "report_group \<Rightarrow> report_grouping list" where
  "reportGroupingsFor groupBy =
     (case groupBy of ByVariant \<Rightarrow> [GNone, GProduct, GCategory] | ByProduct \<Rightarrow> [GNone, GCategory]
      | _ \<Rightarrow> [GNone])"

fun isMetricColumn :: "report_column \<Rightarrow> bool" where
  "isMetricColumn (CMetric m) = (m \<in> set REPORT_METRICS)"
| "isMetricColumn _ = False"

lemma REPORT_METRICS_all: "set REPORT_METRICS = UNIV"
proof -
  have "m \<in> set REPORT_METRICS" for m by (cases m) (simp_all add: REPORT_METRICS_def)
  then show ?thesis by blast
qed

lemma defaultReportColumns_subset: "set (defaultReportColumns g) \<subseteq> set (reportColumnsFor g)"
  by (auto simp: defaultReportColumns_def reportColumnsFor_def REPORT_METRICS_all)

lemma distinct_reportColumnsFor: "distinct (reportColumnsFor g)"
  by (cases g) (simp_all add: reportColumnsFor_def report_context_def REPORT_METRICS_def)

section \<open>Report rows and blocks\<close>

record report_row =
  r_key :: jstr
  r_label :: "jstr option"
  r_sublabel :: "jstr option"
  r_product_id :: "int option"
  r_product_title :: "jstr option"
  r_category_id :: "int option"
  r_category_name :: "jstr option"
  r_category_parent_name :: "jstr option"
  r_added :: rat
  r_sold :: rat
  r_error :: rat
  r_expired :: rat
  r_archived :: rat
  r_stock :: rat
  r_revenue :: rat

fun metric_value :: "report_row \<Rightarrow> report_metric \<Rightarrow> rat" where
  "metric_value r MAdded = r_added r"
| "metric_value r MSold = r_sold r"
| "metric_value r MError = r_error r"
| "metric_value r MExpired = r_expired r"
| "metric_value r MArchived = r_archived r"
| "metric_value r MStock = r_stock r"
| "metric_value r MRevenue = r_revenue r"

text \<open>\<open>Record<InventoryReportMetric, number>\<close>: a total for every metric.\<close>

type_synonym metrics = "report_metric \<Rightarrow> rat"

definition add_row :: "metrics \<Rightarrow> report_row \<Rightarrow> metrics" where
  "add_row out r = foldl (\<lambda>o' m. o'(m := o' m + metric_value r m)) out REPORT_METRICS"

definition sumMetrics :: "report_row list \<Rightarrow> metrics" where
  "sumMetrics rows = foldl add_row (\<lambda>_. 0) rows"

definition categoryPath :: "jstr option \<Rightarrow> jstr option \<Rightarrow> jstr" where
  "categoryPath name parent =
     (let nm = (case name of None \<Rightarrow> [] | Some s \<Rightarrow> s)
      in case parent of
           None \<Rightarrow> nm
         | Some p \<Rightarrow> if p = [] then nm else p @ [32, 0x203A, 32] @ nm)"

definition block_key :: "report_grouping \<Rightarrow> report_row \<Rightarrow> jstr" where
  "block_key grouping r =
     (case grouping of
        GProduct \<Rightarrow> [112] @ (case r_product_id r of None \<Rightarrow> r_key r | Some i \<Rightarrow> show_int i)
      | _ \<Rightarrow> [99] @ (case r_category_id r of None \<Rightarrow> r_key r | Some i \<Rightarrow> show_int i))"

definition block_label :: "report_grouping \<Rightarrow> report_row \<Rightarrow> jstr" where
  "block_label grouping r =
     (let l = (case grouping of
                 GProduct \<Rightarrow> r_product_title r
               | _ \<Rightarrow> (let c = categoryPath (r_category_name r) (r_category_parent_name r)
                      in if c = [] then None else Some c))
      in case l of None \<Rightarrow> [0x2014] | Some s \<Rightarrow> s)"

record report_block =
  rb_key :: jstr
  rb_label :: jstr
  rb_rows :: "report_row list"
  rb_totals :: metrics

definition push_row :: "report_grouping \<Rightarrow> (jstr \<times> report_block) list \<Rightarrow> report_row \<Rightarrow> (jstr \<times> report_block) list" where
  "push_row grouping blocks r =
     (let k = block_key grouping r;
          block = (case map_of blocks k of
                     Some b \<Rightarrow> b
                   | None \<Rightarrow> \<lparr>rb_key = k, rb_label = block_label grouping r, rb_rows = [],
                             rb_totals = sumMetrics []\<rparr>)
      in AList.update k (block\<lparr>rb_rows := rb_rows block @ [r]\<rparr>) blocks)"

text \<open>\<open>b.totals.sold - a.totals.sold || a.label.localeCompare(b.label)\<close>.\<close>

definition block_cmp :: "(jstr \<Rightarrow> jstr \<Rightarrow> int) \<Rightarrow> report_block \<Rightarrow> report_block \<Rightarrow> int" where
  "block_cmp cmp a b =
     (let d = rb_totals b MSold - rb_totals a MSold
      in if d < 0 then -1 else if 0 < d then 1 else cmp (rb_label a) (rb_label b))"

definition groupReportRows ::
    "(jstr \<Rightarrow> jstr \<Rightarrow> int) \<Rightarrow> report_row list \<Rightarrow> report_grouping \<Rightarrow> report_block list" where
  "groupReportRows cmp rows grouping =
     (if grouping = GNone
      then [\<lparr>rb_key = js ''all'', rb_label = [], rb_rows = rows, rb_totals = sumMetrics rows\<rparr>]
      else
        let blocks = foldl (push_row grouping) [] rows;
            totalled = map (\<lambda>(_, b). b\<lparr>rb_totals := sumMetrics (rb_rows b)\<rparr>) blocks
        in sort_by (block_cmp cmp) totalled)"

lemma foldl_upd_other:
  "m \<notin> set ms \<Longrightarrow> foldl (\<lambda>o' m. o'(m := o' m + f m)) out ms m = out m"
  by (induction ms arbitrary: out) auto

lemma foldl_upd_distinct:
  "distinct ms \<Longrightarrow> m \<in> set ms \<Longrightarrow> foldl (\<lambda>o' m. o'(m := o' m + f m)) out ms m = out m + (f m :: rat)"
  by (induction ms arbitrary: out) (auto simp: foldl_upd_other)

lemma add_row_apply: "add_row out r m = out m + metric_value r m"
proof -
  have "distinct REPORT_METRICS" by (simp add: REPORT_METRICS_def)
  then show ?thesis unfolding add_row_def by (rule foldl_upd_distinct) (simp add: REPORT_METRICS_all)
qed

lemma sumMetrics_apply: "sumMetrics rows m = sum_list (map (\<lambda>r. metric_value r m) rows)"
proof -
  have "foldl add_row out rows m = out m + sum_list (map (\<lambda>r. metric_value r m) rows)" for out
    by (induction rows arbitrary: out) (simp_all add: add_row_apply)
  then show ?thesis by (simp add: sumMetrics_def)
qed

text \<open>The blocks under construction: one per key, holding its rows in order.\<close>

definition blocks_ok :: "report_grouping \<Rightarrow> report_row list \<Rightarrow> (jstr \<times> report_block) list \<Rightarrow> bool" where
  "blocks_ok grouping rows blocks \<longleftrightarrow>
     map fst blocks = uniq (map (block_key grouping) rows) \<and>
     (\<forall>e \<in> set blocks. rb_key (snd e) = fst e \<and>
        rb_rows (snd e) = filter (\<lambda>r. block_key grouping r = fst e) rows)"

lemma wf_blocks_ok: "blocks_ok grouping rows blocks \<Longrightarrow> wf_map blocks"
  by (simp add: blocks_ok_def wf_map_def)

lemma update_keys_set_add: "map fst (AList.update k v m) = set_add (map fst m) k"
  by (induction m) (auto simp: set_add_def)

lemma set_update_cases:
  assumes "wf_map m" "(a, b) \<in> set (AList.update k v m)"
  shows "(a = k \<and> b = v) \<or> (a \<noteq> k \<and> (a, b) \<in> set m)"
proof -
  have "map_of (AList.update k v m) a = Some b"
    using assms by (simp add: wf_map_def distinct_update)
  then have "(a = k \<and> b = v) \<or> (a \<noteq> k \<and> map_of m a = Some b)"
    by (simp add: update_conv' split: if_splits)
  then show ?thesis using map_of_SomeD by fastforce
qed

lemma blocks_ok_entry:
  assumes "blocks_ok grouping rows blocks" "(k, b) \<in> set blocks"
  shows "rb_key b = k" "rb_rows b = filter (\<lambda>r. block_key grouping r = k) rows"
  using assms unfolding blocks_ok_def by fastforce+

lemma blocks_ok_absent:
  assumes "blocks_ok grouping rows blocks" "map_of blocks k = None"
  shows "filter (\<lambda>r. block_key grouping r = k) rows = []"
proof -
  have "k \<notin> set (map fst blocks)" using assms(2) by (simp add: map_of_eq_None_iff)
  then have "k \<notin> set (map (block_key grouping) rows)"
    using assms(1) unfolding blocks_ok_def by (metis set_uniq)
  then show ?thesis by (auto simp: filter_empty_conv)
qed

lemma blocks_ok_push:
  assumes ok: "blocks_ok grouping rows blocks"
  shows "blocks_ok grouping (rows @ [r]) (push_row grouping blocks r)"
proof -
  define k where "k = block_key grouping r"
  define block where "block = (case map_of blocks k of Some b \<Rightarrow> b
      | None \<Rightarrow> \<lparr>rb_key = k, rb_label = block_label grouping r, rb_rows = [], rb_totals = sumMetrics []\<rparr>)"
  have push: "push_row grouping blocks r = AList.update k (block\<lparr>rb_rows := rb_rows block @ [r]\<rparr>) blocks"
    unfolding push_row_def Let_def block_def k_def ..
  have block: "rb_key block = k \<and> rb_rows block = filter (\<lambda>r. block_key grouping r = k) rows"
  proof (cases "map_of blocks k")
    case None
    then show ?thesis using blocks_ok_absent [OF ok None] by (simp add: block_def)
  next
    case (Some b)
    then show ?thesis using blocks_ok_entry [OF ok map_of_SomeD [OF Some]] by (simp add: block_def)
  qed
  have "map fst (push_row grouping blocks r) = uniq (map (block_key grouping) (rows @ [r]))"
    using ok by (simp add: push update_keys_set_add blocks_ok_def uniq_def k_def)
  moreover have "rb_key b = i \<and> rb_rows b = filter (\<lambda>r. block_key grouping r = i) (rows @ [r])"
    if e: "(i, b) \<in> set (push_row grouping blocks r)" for i b
    using set_update_cases [OF wf_blocks_ok [OF ok] e [unfolded push]]
  proof
    assume "i = k \<and> b = block\<lparr>rb_rows := rb_rows block @ [r]\<rparr>"
    then show ?thesis using block by (simp add: k_def)
  next
    assume i: "i \<noteq> k \<and> (i, b) \<in> set blocks"
    then show ?thesis using blocks_ok_entry [OF ok, of i b] by (auto simp: k_def)
  qed
  ultimately show ?thesis unfolding blocks_ok_def by (metis prod.collapse)
qed

lemma blocks_ok_foldl: "blocks_ok grouping rows (foldl (push_row grouping) [] rows)"
proof (induction rows rule: rev_induct)
  case Nil
  then show ?case by (simp add: blocks_ok_def)
next
  case (snoc r rows)
  from blocks_ok_push [OF this] show ?case by simp
qed

section \<open>Moving a column\<close>

definition moveItem :: "'a list \<Rightarrow> int \<Rightarrow> int \<Rightarrow> 'a list" where
  "moveItem xs i j =
     (if i = j \<or> i < 0 \<or> j < 0 \<or> int (length xs) \<le> i \<or> int (length xs) \<le> j then xs
      else let a = nat i; b = nat j; item = xs ! a; rest = take a xs @ drop (Suc a) xs
           in take b rest @ [item] @ drop b rest)"

lemma mset_take_drop_nth: "a < length xs \<Longrightarrow> mset (take a xs @ drop (Suc a) xs) + {#xs ! a#} = mset xs"
proof -
  assume a: "a < length xs"
  have "mset xs = mset (take a xs @ xs ! a # drop (Suc a) xs)"
    using id_take_nth_drop [OF a] by simp
  then show ?thesis by simp
qed

lemma mset_moveItem: "mset (moveItem xs i j) = mset xs"
proof (cases "i = j \<or> i < 0 \<or> j < 0 \<or> int (length xs) \<le> i \<or> int (length xs) \<le> j")
  case False
  define rest where "rest = take (nat i) xs @ drop (Suc (nat i)) xs"
  have "moveItem xs i j = take (nat j) rest @ xs ! nat i # drop (nat j) rest"
    using False by (simp add: moveItem_def Let_def rest_def)
  then have "mset (moveItem xs i j) = mset (take (nat j) rest) + mset (drop (nat j) rest) + {#xs ! nat i#}"
    by simp
  also have "\<dots> = mset rest + {#xs ! nat i#}"
    by (simp only: mset_append [symmetric] append_take_drop_id)
  also have "\<dots> = mset xs" unfolding rest_def using False by (intro mset_take_drop_nth) (simp add: nat_less_iff)
  finally show ?thesis .
qed (simp add: moveItem_def)

lemma moveItem_nth:
  assumes "0 \<le> i" "i < int (length xs)" "0 \<le> j" "j < int (length xs)"
  shows "moveItem xs i j ! nat j = xs ! nat i"
proof (cases "i = j")
  case False
  define rest where "rest = take (nat i) xs @ drop (Suc (nat i)) xs"
  have "length rest = length xs - 1" using assms unfolding rest_def by simp
  then have l: "length (take (nat j) rest) = nat j" using assms by simp
  have "moveItem xs i j = take (nat j) rest @ xs ! nat i # drop (nat j) rest"
    using assms False by (simp add: moveItem_def Let_def rest_def)
  with l show ?thesis by (metis nth_append_length)
qed (simp add: moveItem_def)

section \<open>CSV\<close>

datatype csv_value = CsvNull | CsvText jstr | CsvInt int

definition cell_text :: "csv_value \<Rightarrow> jstr" where
  "cell_text v = (case v of CsvNull \<Rightarrow> [] | CsvText t \<Rightarrow> t | CsvInt n \<Rightarrow> show_int n)"

definition csv_special :: "code_unit \<Rightarrow> bool" where
  "csv_special c \<longleftrightarrow> c = 34 \<or> c = 44 \<or> c = 10 \<or> c = 13"

definition double_quotes :: "jstr \<Rightarrow> jstr" where
  "double_quotes t = concat (map (\<lambda>c. if c = 34 then [34, 34] else [c]) t)"

definition csvCell :: "csv_value \<Rightarrow> jstr" where
  "csvCell v =
     (let text = cell_text v
      in if \<exists>c \<in> set text. csv_special c then [34] @ double_quotes text @ [34] else text)"

definition buildCsv :: "csv_value list list \<Rightarrow> jstr" where
  "buildCsv rows = join [13, 10] (map (\<lambda>r. join [44] (map csvCell r)) rows)"

text \<open>A reader of such files: quoted cells, commas, and CR LF between rows.\<close>

fun read_quoted :: "jstr \<Rightarrow> (jstr \<times> jstr) option" where
  "read_quoted [] = None"
| "read_quoted (c # s) =
     (if c = 34
      then case s of
             d # s' \<Rightarrow>
               if d = 34 then map_option (\<lambda>(t, rest). (34 # t, rest)) (read_quoted s')
               else Some ([], s)
           | [] \<Rightarrow> Some ([], s)
      else map_option (\<lambda>(t, rest). (c # t, rest)) (read_quoted s))"

definition read_cell :: "jstr \<Rightarrow> (jstr \<times> jstr) option" where
  "read_cell s =
     (case s of
        c # s' \<Rightarrow>
          if c = 34 then read_quoted s'
          else Some (takeWhile (\<lambda>c. \<not> csv_special c) s, dropWhile (\<lambda>c. \<not> csv_special c) s)
      | [] \<Rightarrow> Some ([], []))"

lemma read_quoted_length: "read_quoted s = Some (t, rest) \<Longrightarrow> length rest < length s"
proof (induction s arbitrary: t rule: read_quoted.induct)
  case (2 c s)
  show ?case
  proof (cases "c = 34")
    case True
    with 2 show ?thesis by (fastforce split: list.splits if_splits)
  next
    case False
    with 2 show ?thesis by fastforce
  qed
qed simp

lemma read_cell_length: "read_cell s = Some (t, rest) \<Longrightarrow> length rest \<le> length s"
  by (auto simp: read_cell_def length_dropWhile_le le_SucI split: list.splits if_splits
      dest!: read_quoted_length)

function read_csv :: "jstr \<Rightarrow> jstr list list option" where
  "read_csv s =
     (case read_cell s of
        None \<Rightarrow> None
      | Some (c, rest) \<Rightarrow>
          (case rest of
             [] \<Rightarrow> Some [[c]]
           | d # rest' \<Rightarrow>
               if d = 44 then
                 (case read_csv rest' of
                    Some (row # rows) \<Rightarrow> Some ((c # row) # rows)
                  | _ \<Rightarrow> None)
               else if d = 13 \<and> rest' \<noteq> [] \<and> hd rest' = 10 then
                 map_option (\<lambda>rows. [c] # rows) (read_csv (tl rest'))
               else None))"
  by pat_completeness auto

termination
proof (relation "measure length")
  fix s x2 c rest d rest'
  assume "read_cell s = Some x2" "(c, rest) = x2" "rest = d # rest'"
  then have l: "length rest' < length s" using read_cell_length by fastforce
  then show "(rest', s) \<in> measure length" by simp
  show "(tl rest', s) \<in> measure length" using l by simp
qed simp_all

declare read_csv.simps [simp del]

lemma read_quoted_double:
  assumes "rest = [] \<or> hd rest \<noteq> 34"
  shows "read_quoted (double_quotes t @ 34 # rest) = Some (t, rest)"
proof (induction t)
  case Nil
  with assms show ?case by (cases rest) (simp_all add: double_quotes_def)
next
  case (Cons c t)
  then show ?case by (simp add: double_quotes_def)
qed

text \<open>A cell ends at the end of the text, at a comma, or at a line break.\<close>

definition ends_cell :: "jstr \<Rightarrow> bool" where
  "ends_cell rest \<longleftrightarrow> rest = [] \<or> hd rest = 44 \<or> hd rest = 13"

lemma read_cell_csvCell:
  assumes "ends_cell rest"
  shows "read_cell (csvCell v @ rest) = Some (cell_text v, rest)"
proof (cases "\<exists>c \<in> set (cell_text v). csv_special c")
  case True
  have "rest = [] \<or> hd rest \<noteq> 34" using assms by (auto simp: ends_cell_def)
  with True show ?thesis by (simp add: csvCell_def Let_def read_cell_def read_quoted_double)
next
  case False
  let ?P = "\<lambda>c. \<not> csv_special c"
  have rest: "takeWhile ?P rest = []" "dropWhile ?P rest = rest"
    using assms by (cases rest; auto simp: ends_cell_def csv_special_def)+
  have all: "\<forall>c \<in> set (cell_text v). ?P c" using False by blast
  show ?thesis
  proof (cases "cell_text v @ rest")
    case Nil
    with False show ?thesis by (simp add: csvCell_def read_cell_def)
  next
    case (Cons c s)
    have "c \<noteq> 34"
    proof (cases "cell_text v")
      case Nil
      with Cons assms show ?thesis by (auto simp: ends_cell_def)
    next
      case (Cons d t)
      with all \<open>cell_text v @ rest = c # s\<close> show ?thesis by (auto simp: csv_special_def)
    qed
    with Cons have "read_cell (cell_text v @ rest) =
        Some (takeWhile ?P (cell_text v @ rest), dropWhile ?P (cell_text v @ rest))"
      by (simp add: read_cell_def)
    also have "\<dots> = Some (cell_text v, rest)"
      using all rest by (simp add: takeWhile_append2 dropWhile_append2)
    finally show ?thesis using False by (auto simp: csvCell_def Let_def)
  qed
qed

lemma read_csv_row:
  assumes "r \<noteq> []" "tail = [] \<or> (\<exists>t. tail = 13 # 10 # t)"
  shows "read_csv (join [44] (map csvCell r) @ tail) =
         (case tail of
            [] \<Rightarrow> Some [map cell_text r]
          | _ \<Rightarrow> map_option (\<lambda>rows. map cell_text r # rows) (read_csv (drop 2 tail)))"
  using assms(1)
proof (induction r)
  case (Cons v vs)
  show ?case
  proof (cases vs)
    case Nil
    have "ends_cell tail" using assms(2) by (auto simp: ends_cell_def)
    with Nil assms(2) show ?thesis
      by (subst read_csv.simps) (auto simp: read_cell_csvCell)
  next
    case (Cons w ws)
    let ?rest = "join [44] (map csvCell vs) @ tail"
    have "join [44] (map csvCell (v # vs)) @ tail = csvCell v @ 44 # ?rest"
      using Cons by simp
    moreover have "ends_cell (44 # ?rest)" by (simp add: ends_cell_def)
    ultimately have "read_csv (join [44] (map csvCell (v # vs)) @ tail) =
        (case read_csv ?rest of Some (row # rows) \<Rightarrow> Some ((cell_text v # row) # rows) | _ \<Rightarrow> None)"
      by (subst read_csv.simps) (simp add: read_cell_csvCell)
    moreover have "read_csv ?rest = (case tail of [] \<Rightarrow> Some [map cell_text vs]
        | _ \<Rightarrow> map_option (\<lambda>rows. map cell_text vs # rows) (read_csv (drop 2 tail)))"
      using Cons.IH Cons by simp
    ultimately show ?thesis
      by (cases tail; cases "read_csv (drop 2 tail)") simp_all
  qed
qed simp

lemma read_csv_buildCsv:
  "rows \<noteq> [] \<Longrightarrow> \<forall>r \<in> set rows. r \<noteq> [] \<Longrightarrow>
     read_csv (buildCsv rows) = Some (map (map cell_text) rows)"
proof (induction rows)
  case (Cons r rows)
  show ?case
  proof (cases rows)
    case Nil
    with read_csv_row [of r "[]"] Cons.prems show ?thesis by (simp add: buildCsv_def)
  next
    case (Cons q qs)
    then have "buildCsv (r # rows) = join [44] (map csvCell r) @ 13 # 10 # buildCsv rows"
      by (simp add: buildCsv_def)
    with read_csv_row [of r "13 # 10 # buildCsv rows"] Cons.IH Cons.prems Cons show ?thesis
      by simp
  qed
qed simp

section \<open>Properties\<close>

lemma sum_list_single:
  "distinct ks \<Longrightarrow> a \<in> set ks \<Longrightarrow> sum_list (map (\<lambda>k. if a = k then x else 0) ks) = (x :: 'b :: comm_monoid_add)"
proof (induction ks)
  case (Cons k ks)
  have "sum_list (map (\<lambda>k. if a = k then x else 0) ks) = 0" if "a \<notin> set ks"
    using that by (induction ks) auto
  with Cons show ?case by auto
qed simp

lemma sum_list_by_key:
  fixes v :: "'a \<Rightarrow> 'b :: comm_monoid_add"
  assumes "distinct ks"
  shows "f ` set xs \<subseteq> set ks \<Longrightarrow>
     sum_list (map (\<lambda>k. sum_list (map v (filter (\<lambda>x. f x = k) xs))) ks) = sum_list (map v xs)"
proof (induction xs)
  case (Cons x xs)
  have "sum_list (map (\<lambda>k. sum_list (map v (filter (\<lambda>y. f y = k) (x # xs)))) ks) =
      sum_list (map (\<lambda>k. (if f x = k then v x else 0) + sum_list (map v (filter (\<lambda>y. f y = k) xs))) ks)"
    by (rule arg_cong [where f = sum_list]) simp
  also have "\<dots> = v x + sum_list (map v xs)"
    using Cons by (simp add: sum_list_addf sum_list_single assms)
  finally show ?case by simp
qed simp

lemma sum_list_sort_by: "sum_list (map f (sort_by c xs)) = (sum_list (map f xs) :: 'b :: comm_monoid_add)"
  by (metis mset_map mset_sort_by sum_mset_sum_list)

lemma groupReportRows_totals_sum:
  "sum_list (map (\<lambda>b. rb_totals b m) (groupReportRows cmp rows grouping)) = sumMetrics rows m"
proof (cases "grouping = GNone")
  case False
  let ?blocks = "foldl (push_row grouping) [] rows"
  have ok: "blocks_ok grouping rows ?blocks" by (rule blocks_ok_foldl)
  have "map (\<lambda>e. sumMetrics (rb_rows (snd e)) m) ?blocks =
      map (\<lambda>k. sum_list (map (\<lambda>r. metric_value r m) (filter (\<lambda>r. block_key grouping r = k) rows)))
        (map fst ?blocks)"
    unfolding list.map_comp by (rule map_cong) (use ok in \<open>auto simp: blocks_ok_def sumMetrics_apply\<close>)
  also have "map fst ?blocks = uniq (map (block_key grouping) rows)"
    using ok by (simp add: blocks_ok_def)
  finally have "sum_list (map (\<lambda>e. sumMetrics (rb_rows (snd e)) m) ?blocks) = sumMetrics rows m"
    by (simp add: sum_list_by_key sumMetrics_apply)
  with False show ?thesis
    by (simp add: groupReportRows_def Let_def sum_list_sort_by comp_def case_prod_unfold)
qed (simp add: groupReportRows_def)

lemma groupReportRows_block:
  assumes "b \<in> set (groupReportRows cmp rows grouping)"
  shows "rb_totals b = sumMetrics (rb_rows b)"
    "grouping = GNone \<or> rb_rows b = filter (\<lambda>r. block_key grouping r = rb_key b) rows"
proof -
  show "rb_totals b = sumMetrics (rb_rows b)"
    using assms by (auto simp: groupReportRows_def Let_def split: if_splits)
  show "grouping = GNone \<or> rb_rows b = filter (\<lambda>r. block_key grouping r = rb_key b) rows"
  proof (cases "grouping = GNone")
    case False
    with assms obtain k b0 where e: "(k, b0) \<in> set (foldl (push_row grouping) [] rows)"
      and b: "b = b0\<lparr>rb_totals := sumMetrics (rb_rows b0)\<rparr>"
      by (auto simp: groupReportRows_def Let_def)
    with blocks_ok_entry [OF blocks_ok_foldl e] show ?thesis by simp
  qed simp
qed

text \<open>
  Grouping a report loses and invents no number.  Whatever the grouping, each
  block holds exactly the rows of its key in the order of the response, its sub-totals are the
  sums of its rows, and for every metric the sub-totals add up to the total of all rows.
\<close>

theorem report_blocks:
  "list_all (\<lambda>b. rb_totals b = sumMetrics (rb_rows b) \<and>
      (grouping = GNone \<or> rb_rows b = filter (\<lambda>r. block_key grouping r = rb_key b) rows))
     (groupReportRows cmp rows grouping) \<and>
   sum_list (map (\<lambda>b. rb_totals b m) (groupReportRows cmp rows grouping)) =
     sum_list (map (\<lambda>r. metric_value r m) rows)"
  using groupReportRows_block groupReportRows_totals_sum
  by (simp add: list_all_iff flip: sumMetrics_apply)

text \<open>
  The CSV of the report reads back.  For every non-empty table without an empty
  row, a reader of quoted cells, commas and CR LF line ends recovers every cell's text, also when
  the text holds quotes, commas or line breaks.
\<close>

theorem csv_roundtrip:
  assumes "rows \<noteq> []" "\<forall>r \<in> set rows. r \<noteq> []"
  shows "read_csv (buildCsv rows) = Some (map (map cell_text) rows)"
  using assms by (rule read_csv_buildCsv)

lemma csv_roundtrip_witness:
  "read_csv (buildCsv [[CsvText [34, 44, 65], CsvNull], [CsvText [13, 10], CsvInt 0]]) =
     Some [[[34, 44, 65], []], [[13, 10], show_int 0]]"
  using csv_roundtrip [of "[[CsvText [34, 44, 65], CsvNull], [CsvText [13, 10], CsvInt 0]]"]
  by (simp add: cell_text_def)

text \<open>
  Dragging a column never loses or doubles one, and a move within the list puts the
  dragged item at the target position.
\<close>

theorem moveItem_permutes:
  "mset (moveItem xs i j) = mset xs \<and>
   (0 \<le> i \<and> i < int (length xs) \<and> 0 \<le> j \<and> j < int (length xs) \<longrightarrow> moveItem xs i j ! nat j = xs ! nat i)"
  using mset_moveItem moveItem_nth by blast

lemma moveItem_permutes_witness:
  "mset (moveItem [10, 20, 30 :: nat] 0 2) = {#10, 20, 30#} \<and> moveItem [10, 20, 30 :: nat] 0 2 ! 2 = 10"
  using moveItem_permutes [of "[10, 20, 30 :: nat]" 0 2] by simp

text \<open>
  Masking a line of three or more fields keeps its first and last field and its
  number of fields, and replaces every field between them by the mask, so nothing of them is left.
\<close>

theorem mask_hides_middle:
  assumes "124 \<notin> set token" "3 \<le> length (split_on 124 d)"
  shows "split_on 124 (maskResourceData d token) =
         [hd (split_on 124 d)] @ replicate (length (split_on 124 d) - 2) token @ [last (split_on 124 d)]"
  using assms by (rule split_on_masked)

lemma mask_hides_middle_witness:
  "split_on 124 (maskResourceData [117, 124, 112, 124, 113, 124, 109] bullets) =
     [[117], bullets, bullets, [109]]"
proof -
  have s: "split_on 124 [117, 124, 112, 124, 113, 124, 109 :: code_unit] = [[117], [112], [113], [109]]"
    by code_simp
  have "(124 :: code_unit) \<notin> set bullets" by (simp add: bullets_def)
  from mask_hides_middle [OF this, of "[117, 124, 112, 124, 113, 124, 109]"] s show ?thesis
    by (simp add: numeral_2_eq_2)
qed

end
