(* ===== verification/Restock_Lines.thy ===== *)
theory Restock_Lines
  imports Prelude
begin

text \<open>
  Stock lines of an upload (features/seller-inventory/logic.ts): splitting text and CSV files into
  lines, measuring lines as the server will (bytes of JSON, code points, fields), recognising a
  column header, and splitting an upload into its format line, login notes and accounts.

  The regular expressions with the \<open>u\<close> flag read Unicode's character tables; these are the
  parameters \<open>letter\<close> (the classes \<open>L\<close> and \<open>M\<close> of a code point) and \<open>casefold\<close> (case folding of a
  string).
\<close>

section \<open>Lines of a text\<close>

text \<open>\<open>raw.split(/\r?\n/)\<close>.\<close>

definition drop_cr :: "jstr \<Rightarrow> jstr" where
  "drop_cr p = (if p \<noteq> [] \<and> last p = 13 then butlast p else p)"

definition split_lines :: "jstr \<Rightarrow> jstr list" where
  "split_lines s = (let ps = split_on 10 s in map drop_cr (butlast ps) @ [last ps])"

definition parseResourceItems :: "jstr \<Rightarrow> bool \<Rightarrow> jstr list" where
  "parseResourceItems raw deduplicate =
     (let items = filter (\<lambda>l. l \<noteq> []) (map js_trim (split_lines raw))
      in if deduplicate then uniq items else items)"

definition RESTOCK_CSV_HEADERS :: "jstr list" where
  "RESTOCK_CSV_HEADERS = [js ''data'', js ''item'', js ''resource'', js ''content'', js ''key'']"

fun undouble_quotes :: "jstr \<Rightarrow> jstr" where
  "undouble_quotes (c # d # s) =
     (if c = 34 \<and> d = 34 then 34 # undouble_quotes s else c # undouble_quotes (d # s))"
| "undouble_quotes s = s"

definition csv_row :: "jstr \<Rightarrow> jstr" where
  "csv_row row =
     (if starts_with row [34] \<and> ends_with row [34] then undouble_quotes (butlast (tl row)) else row)"

definition is_csv_header :: "jstr \<Rightarrow> bool" where
  "is_csv_header first \<longleftrightarrow>
     (let l = to_lower first
      in l \<in> set RESTOCK_CSV_HEADERS \<or> starts_with l ([34] @ js ''data'' @ [34]) \<or>
         starts_with l ([34] @ js ''item'' @ [34]))"

definition parseRestockFileContent :: "jstr \<Rightarrow> jstr \<Rightarrow> jstr" where
  "parseRestockFileContent fileName raw =
     (if \<not> ends_with (to_lower fileName) (js ''.csv'') then raw
      else
        let lines = filter (\<lambda>l. l \<noteq> []) (map js_trim (split_lines raw))
        in case lines of
             [] \<Rightarrow> []
           | first # rest \<Rightarrow>
               join [10] (map csv_row (if is_csv_header first then rest else lines)))"

lemma split_lines_no_newline:
  assumes "p \<in> set (split_lines s)" shows "10 \<notin> set p"
proof -
  have "p = last (split_on 10 s) \<or> (\<exists>q \<in> set (butlast (split_on 10 s)). p = drop_cr q)"
    using assms by (auto simp: split_lines_def Let_def)
  then obtain q where q: "q \<in> set (split_on 10 s)" "p = drop_cr q \<or> p = q"
    using last_in_set [OF split_on_not_Nil [of 10 s]] in_set_butlastD by metis
  then have "set p \<subseteq> set q" by (auto simp: drop_cr_def dest: in_set_butlastD split: if_splits)
  with split_on_parts_free [OF q(1)] show ?thesis by blast
qed

lemma parseResourceItems_clean:
  assumes "l \<in> set (parseResourceItems raw dedup)"
  shows "l \<noteq> [] \<and> trimmed l \<and> 10 \<notin> set l"
proof -
  obtain p where p: "p \<in> set (split_lines raw)" "l = js_trim p" "l \<noteq> []"
    using assms by (auto simp: parseResourceItems_def Let_def split: if_splits)
  with split_lines_no_newline [OF p(1)] set_js_trim_subset [of p] show ?thesis by auto
qed

lemma distinct_parseResourceItems: "distinct (parseResourceItems raw True)"
  by (simp add: parseResourceItems_def Let_def)

text \<open>Clean lines joined by line feeds parse back to themselves.\<close>

definition clean_line :: "jstr \<Rightarrow> bool" where
  "clean_line l \<longleftrightarrow> l \<noteq> [] \<and> trimmed l \<and> 10 \<notin> set l"

lemma drop_cr_trimmed: "clean_line l \<Longrightarrow> drop_cr l = l"
  by (auto simp: clean_line_def trimmed_def drop_cr_def js_space_def)

lemma split_lines_join:
  assumes "ls \<noteq> []" "\<forall>l \<in> set ls. clean_line l"
  shows "split_lines (join [10] ls) = ls"
proof -
  have "split_on 10 (join [10] ls) = ls"
    by (rule split_on_join) (use assms in \<open>auto simp: clean_line_def\<close>)
  moreover have "map drop_cr (butlast ls) = butlast ls"
    using assms by (intro map_idI) (auto simp: drop_cr_trimmed dest: in_set_butlastD)
  ultimately show ?thesis using assms(1) by (simp add: split_lines_def Let_def)
qed

lemma parseResourceItems_join:
  assumes "ls \<noteq> []" "\<forall>l \<in> set ls. clean_line l"
  shows "parseResourceItems (join [10] ls) False = ls"
proof -
  have "map js_trim ls = ls"
    using assms by (intro map_idI) (auto simp: clean_line_def trimmed_js_trim_id)
  moreover have "filter (\<lambda>l. l \<noteq> []) ls = ls"
    using assms by (auto simp: filter_id_conv clean_line_def)
  ultimately show ?thesis
    by (simp add: parseResourceItems_def Let_def split_lines_join [OF assms])
qed

section \<open>Sizes\<close>

fun json_bytes :: "jstr \<Rightarrow> nat" where
  "json_bytes [] = 0"
| "json_bytes (c # s) =
     (if c = 0x22 \<or> c = 0x5C then 2 + json_bytes s
      else if c < 0x20 then
        (if c = 8 \<or> c = 9 \<or> c = 10 \<or> c = 12 \<or> c = 13 then 2 else 6) + json_bytes s
      else if c < 0x80 then 1 + json_bytes s
      else if c < 0x800 then 2 + json_bytes s
      else if high_surrogate c then
        (case s of
           [] \<Rightarrow> 6
         | d # s' \<Rightarrow> if low_surrogate d then 4 + json_bytes s' else 6 + json_bytes s)
      else if low_surrogate c then 6 + json_bytes s
      else 3 + json_bytes s)"

definition jsonByteLength :: "jstr \<Rightarrow> nat" where
  "jsonByteLength v = 2 + json_bytes v"

text \<open>\<open>[...value].length\<close>, counted by \<open>for (const _ of value)\<close>.\<close>

definition codePointLength :: "jstr \<Rightarrow> nat" where
  "codePointLength v = length (code_points v)"

definition RESOURCE_LINE_MAX_LENGTH :: nat where "RESOURCE_LINE_MAX_LENGTH = 200000"

definition tooLongRestockLines :: "jstr list \<Rightarrow> nat \<Rightarrow> nat list" where
  "tooLongRestockLines items m =
     map (\<lambda>(i, item). i + 1)
       (filter (\<lambda>(i, item). m < length item \<and> m < codePointLength item)
         (zip [0..<length items] items))"

text \<open>\<open>JSON.stringify\<close> of a string, and the size of its UTF-8 encoding.\<close>

definition hex_unit :: "nat \<Rightarrow> code_unit" where
  "hex_unit n = (if n < 10 then word_of_nat (48 + n) else word_of_nat (87 + n))"

definition unicode_escape :: "code_unit \<Rightarrow> jstr" where
  "unicode_escape c =
     [0x5C, 117, hex_unit (unat c div 4096), hex_unit (unat c div 256 mod 16),
      hex_unit (unat c div 16 mod 16), hex_unit (unat c mod 16)]"

definition short_escape :: "code_unit \<Rightarrow> code_unit option" where
  "short_escape c =
     (if c = 0x22 \<or> c = 0x5C then Some c
      else if c = 8 then Some 98 else if c = 9 then Some 116 else if c = 10 then Some 110
      else if c = 12 then Some 102 else if c = 13 then Some 114 else None)"

fun json_escape :: "jstr \<Rightarrow> jstr" where
  "json_escape [] = []"
| "json_escape (c # s) =
     (case short_escape c of
        Some e \<Rightarrow> [0x5C, e] @ json_escape s
      | None \<Rightarrow>
          if c < 0x20 then unicode_escape c @ json_escape s
          else if high_surrogate c then
            (case s of
               d # s' \<Rightarrow> if low_surrogate d then [c, d] @ json_escape s'
                         else unicode_escape c @ json_escape s
             | [] \<Rightarrow> unicode_escape c)
          else if low_surrogate c then unicode_escape c @ json_escape s
          else c # json_escape s)"

definition json_stringify :: "jstr \<Rightarrow> jstr" where
  "json_stringify v = [0x22] @ json_escape v @ [0x22]"

definition utf8_size :: "nat \<Rightarrow> nat" where
  "utf8_size cp = (if cp < 0x80 then 1 else if cp < 0x800 then 2 else if cp < 0x10000 then 3 else 4)"

definition utf8_length :: "jstr \<Rightarrow> nat" where
  "utf8_length s = sum_list (map utf8_size (code_points s))"

lemma code_points_plain:
  "\<not> high_surrogate c \<Longrightarrow> code_points (c # s) = unat c # code_points s"
  by (cases s) simp_all

lemma utf8_length_plain:
  "\<not> high_surrogate c \<Longrightarrow> utf8_length (c # s) = utf8_size (unat c) + utf8_length s"
  by (simp add: utf8_length_def code_points_plain del: code_points.simps)

definition ascii :: "code_unit \<Rightarrow> bool" where
  "ascii c \<longleftrightarrow> c < 0x80"

lemma utf8_length_ascii: "\<forall>c \<in> set xs. ascii c \<Longrightarrow> utf8_length (xs @ s) = length xs + utf8_length s"
proof (induction xs)
  case (Cons c xs)
  then have "c < 0x80" by (simp add: ascii_def)
  then have "\<not> high_surrogate c" and "utf8_size (unat c) = 1"
    by (auto simp: high_surrogate_def utf8_size_def word_less_nat_alt word_le_nat_alt)
  with Cons show ?case by (simp add: utf8_length_plain)
qed simp

lemma ascii_hex: "n < 16 \<Longrightarrow> ascii (hex_unit n)"
  by (simp add: hex_unit_def ascii_def word_less_nat_alt unat_of_nat del: of_nat_add)

lemma ascii_unicode_escape: "\<forall>d \<in> set (unicode_escape c). ascii d"
proof -
  have "unat c < 2 ^ LENGTH(16)" by (rule unsigned_less)
  then have "unat c < 65536" by simp
  then have "unat c div 4096 < 16" by linarith
  then show ?thesis
    by (simp add: unicode_escape_def ascii_hex) (simp add: ascii_def)
qed

lemma utf8_length_unicode_escape: "utf8_length (unicode_escape c @ s) = 6 + utf8_length s"
  using utf8_length_ascii [OF ascii_unicode_escape, of c s] by (simp add: unicode_escape_def)

lemma utf8_length_short_escape:
  "short_escape c = Some e \<Longrightarrow> utf8_length ([0x5C, e] @ s) = 2 + utf8_length s"
  by (subst utf8_length_ascii) (auto simp: short_escape_def ascii_def split: if_splits)

lemma utf8_length_pair:
  assumes "high_surrogate c" "low_surrogate d"
  shows "utf8_length ([c, d] @ s) = 4 + utf8_length s"
  using assms by (simp add: utf8_length_def utf8_size_def)

lemma utf8_size_unit:
  "c < 0x80 \<Longrightarrow> utf8_size (unat c) = 1"
  "\<not> c < 0x80 \<Longrightarrow> c < 0x800 \<Longrightarrow> utf8_size (unat c) = 2"
  "\<not> c < 0x800 \<Longrightarrow> utf8_size (unat (c :: code_unit)) = 3"
proof -
  have "unat c < 2 ^ LENGTH(16)" by (rule unsigned_less)
  then have "unat c < 65536" by simp
  then show "\<not> c < 0x800 \<Longrightarrow> utf8_size (unat c) = 3"
    by (auto simp: utf8_size_def word_less_nat_alt)
qed (auto simp: utf8_size_def word_less_nat_alt)

lemma surrogate_large:
  "high_surrogate c \<Longrightarrow> \<not> c < 0x800" "low_surrogate c \<Longrightarrow> \<not> c < 0x800"
  "high_surrogate c \<Longrightarrow> \<not> low_surrogate c" "low_surrogate c \<Longrightarrow> \<not> high_surrogate c"
  by (auto simp: high_surrogate_def low_surrogate_def word_less_nat_alt word_le_nat_alt)

lemma large_unit:
  "\<not> c < 0x800 \<Longrightarrow> short_escape c = None \<and> \<not> c < 0x20 \<and> \<not> c < 0x80 \<and> c \<noteq> 0x22 \<and> c \<noteq> 0x5C"
  by (auto simp: short_escape_def word_less_nat_alt)

lemma json_bytes_escape:
  "short_escape c = Some e \<Longrightarrow> json_bytes (c # s) = 2 + json_bytes s"
  "short_escape c = None \<Longrightarrow> c < 0x20 \<Longrightarrow> json_bytes (c # s) = 6 + json_bytes s"
  by (auto simp: short_escape_def split: if_splits)

lemma json_bytes_plain:
  assumes "short_escape c = None" "\<not> c < 0x20" "\<not> high_surrogate c" "\<not> low_surrogate c"
  shows "json_bytes (c # s) = utf8_size (unat c) + json_bytes s"
proof -
  have "c \<noteq> 0x22" "c \<noteq> 0x5C" using assms(1) by (auto simp: short_escape_def)
  with assms show ?thesis by (simp add: utf8_size_unit)
qed

lemma json_bytes_surrogate:
  "high_surrogate c \<Longrightarrow> json_bytes [c] = 6"
  "high_surrogate c \<Longrightarrow> low_surrogate d \<Longrightarrow> json_bytes (c # d # s) = 4 + json_bytes s"
  "high_surrogate c \<Longrightarrow> \<not> low_surrogate d \<Longrightarrow> json_bytes (c # d # s) = 6 + json_bytes (d # s)"
  "low_surrogate c \<Longrightarrow> json_bytes (c # s) = 6 + json_bytes s"
  using surrogate_large [of c] large_unit [of c] by simp_all

lemma json_escape_eqs:
  "short_escape c = Some e \<Longrightarrow> json_escape (c # s) = [0x5C, e] @ json_escape s"
  "short_escape c = None \<Longrightarrow> c < 0x20 \<Longrightarrow> json_escape (c # s) = unicode_escape c @ json_escape s"
  "high_surrogate c \<Longrightarrow> json_escape [c] = unicode_escape c"
  "high_surrogate c \<Longrightarrow> low_surrogate d \<Longrightarrow> json_escape (c # d # s) = [c, d] @ json_escape s"
  "high_surrogate c \<Longrightarrow> \<not> low_surrogate d \<Longrightarrow>
     json_escape (c # d # s) = unicode_escape c @ json_escape (d # s)"
  "low_surrogate c \<Longrightarrow> json_escape (c # s) = unicode_escape c @ json_escape s"
  using surrogate_large [of c] large_unit [of c] by simp_all

lemma json_escape_plain:
  "short_escape c = None \<Longrightarrow> \<not> c < 0x20 \<Longrightarrow> \<not> high_surrogate c \<Longrightarrow> \<not> low_surrogate c \<Longrightarrow>
     json_escape (c # s) = c # json_escape s"
  by simp

declare json_bytes.simps(2) [simp del] json_escape.simps(2) [simp del]

lemmas json_simps = json_bytes_escape json_bytes_plain json_bytes_surrogate
  json_escape_eqs json_escape_plain

lemma json_escape_bytes: "utf8_length (json_escape v @ [0x22]) = json_bytes v + 1"
proof (induction v rule: length_induct)
  case (1 v)
  have q: "utf8_length [0x22] = 1" by (simp add: utf8_length_def utf8_size_def)
  show ?case
  proof (cases v)
    case Nil
    then show ?thesis using q by simp
  next
    case (Cons c s)
    have IH: "utf8_length (json_escape s @ [0x22]) = json_bytes s + 1" using 1 Cons by simp
    consider (short) e where "short_escape c = Some e" | (ctl) "short_escape c = None" "c < 0x20"
      | (high) "high_surrogate c" | (low) "low_surrogate c"
      | (plain) "short_escape c = None" "\<not> c < 0x20" "\<not> high_surrogate c" "\<not> low_surrogate c"
      by (cases "short_escape c") blast+
    then show ?thesis
    proof cases
      case short
      then show ?thesis
        using IH utf8_length_short_escape [OF short, of "json_escape s @ [0x22]"]
        unfolding Cons json_simps(1) [OF short] json_escape_eqs(1) [OF short] by simp
    next
      case ctl
      then show ?thesis using IH unfolding Cons json_bytes_escape(2) [OF ctl] json_escape_eqs(2) [OF ctl]
        by (simp add: utf8_length_unicode_escape)
    next
      case plain
      then show ?thesis using IH unfolding Cons json_bytes_plain [OF plain] json_escape_plain [OF plain]
        by (simp add: utf8_length_plain)
    next
      case low
      then show ?thesis using IH unfolding Cons json_bytes_surrogate(4) [OF low] json_escape_eqs(6) [OF low]
        by (simp add: utf8_length_unicode_escape)
    next
      case high
      show ?thesis
      proof (cases s)
        case Nil
        then show ?thesis
          using q utf8_length_unicode_escape [of c "[0x22]"] high
          by (simp add: Cons json_bytes_surrogate json_escape_eqs)
      next
        case s: (Cons d t)
        have IH2: "utf8_length (json_escape t @ [0x22]) = json_bytes t + 1" using 1 Cons s by simp
        show ?thesis
        proof (cases "low_surrogate d")
          case True
          then show ?thesis using IH2 utf8_length_pair [OF high True, of "json_escape t @ [0x22]"]
            unfolding Cons s json_bytes_surrogate(2) [OF high True] json_escape_eqs(4) [OF high True]
            by simp
        next
          case False
          then show ?thesis using IH
            unfolding Cons s json_bytes_surrogate(3) [OF high False] json_escape_eqs(5) [OF high False]
            by (simp add: utf8_length_unicode_escape)
        qed
      qed
    qed
  qed
qed

lemma jsonByteLength_exact: "jsonByteLength v = utf8_length (json_stringify v)"
proof -
  have "\<not> high_surrogate 0x22" "utf8_size (unat (0x22 :: code_unit)) = 1"
    by (simp_all add: high_surrogate_def utf8_size_def)
  then show ?thesis
    by (simp add: json_stringify_def jsonByteLength_def utf8_length_plain json_escape_bytes)
qed

section \<open>Fields and headers\<close>

definition restockFieldCount :: "jstr \<Rightarrow> nat" where
  "restockFieldCount item = Suc (count_list item 124)"

lemma restockFieldCount_fields: "restockFieldCount item = length (split_on 124 item)"
  by (simp add: restockFieldCount_def length_split_on)

text \<open>\<open>line.replace(/(\|\s*)+$/, "")\<close>: from the first bar of the trailing run of bars and blanks.\<close>

definition strip_trailing_bars :: "jstr \<Rightarrow> jstr" where
  "strip_trailing_bars line =
     (let run = rev (takeWhile (\<lambda>c. c = 124 \<or> js_space c) (rev line));
          body = rev (dropWhile (\<lambda>c. c = 124 \<or> js_space c) (rev line))
      in body @ takeWhile (\<lambda>c. c \<noteq> 124) run)"

definition fieldsWithoutTrailingEmpty :: "jstr \<Rightarrow> nat" where
  "fieldsWithoutTrailingEmpty line = length (split_on 124 (strip_trailing_bars line))"

text \<open>The alternatives of \<open>HEADER_KEYWORD\<close>, as code units.\<close>

definition HEADER_KEYWORD :: "jstr list" where
  "HEADER_KEYWORD =
     map js [''user'', ''name'', ''login'', ''acc'', ''pass'', ''mail'', ''cookie'', ''token'', ''2fa'',
       ''uid'', ''id'', ''phone'', ''sdt''] @
     [[115, 0x111, 116]] @
     map js [''recovery'', ''backup''] @
     [[107, 104, 0xF4, 105, 32, 112, 104, 0x1EE5, 99], [109, 0x1EAD, 116, 32, 107, 104, 0x1EA9, 117],
      [116, 0xE0, 105, 32, 107, 104, 111, 0x1EA3, 110]] @
     map js [''proxy'', ''key'', ''code'', ''note''] @
     [[103, 104, 105, 32, 99, 104, 0xFA]] @
     map js [''profile'', ''link'', ''secret'', ''birth''] @
     [[110, 103, 0xE0, 121, 32, 115, 105, 110, 104]]"

definition header_keyword :: "(jstr \<Rightarrow> jstr) \<Rightarrow> jstr \<Rightarrow> bool" where
  "header_keyword casefold field \<longleftrightarrow> (\<exists>k \<in> set HEADER_KEYWORD. str_includes (casefold field) k)"

text \<open>\<open>field.replace(/2fa/giu, "twofa")\<close>; only ASCII letters fold to \<open>f\<close> and \<open>a\<close>.\<close>

fun spell_2fa :: "jstr \<Rightarrow> jstr" where
  "spell_2fa (c # d # e # s) =
     (if c = 50 \<and> lower_unit d = 102 \<and> lower_unit e = 97
      then [116, 119, 111, 102, 97] @ spell_2fa s
      else c # spell_2fa (d # e # s))"
| "spell_2fa s = s"

definition label_point :: "(nat \<Rightarrow> bool) \<Rightarrow> nat \<Rightarrow> bool" where
  "label_point letter cp \<longleftrightarrow>
     letter cp \<or> cp = 32 \<or> cp = 95 \<or> cp = 46 \<or> cp = 47 \<or> cp = 40 \<or> cp = 41 \<or> cp = 45"

definition label_text :: "(nat \<Rightarrow> bool) \<Rightarrow> jstr \<Rightarrow> bool" where
  "label_text letter s \<longleftrightarrow> s \<noteq> [] \<and> (\<forall>cp \<in> set (code_points s). label_point letter cp)"

definition isRestockHeaderLine ::
    "(nat \<Rightarrow> bool) \<Rightarrow> (jstr \<Rightarrow> jstr) \<Rightarrow> jstr \<Rightarrow> jstr option \<Rightarrow> bool" where
  "isRestockHeaderLine letter casefold line nextLine =
     (let fields = map js_trim (split_on 124 (strip_trailing_bars line))
      in if length fields < 2 then False
         else if (case nextLine of
                    None \<Rightarrow> False
                  | Some l \<Rightarrow>
                      let counts = [length (split_on 124 line), length fields];
                          nexts = [restockFieldCount l, fieldsWithoutTrailingEmpty l]
                      in \<not> (\<exists>c \<in> set counts. c \<in> set nexts))
         then False
         else if \<exists>f \<in> set fields. f = [] \<or> 32 < length f \<or> \<not> label_text letter (spell_2fa f)
         then False
         else length fields \<le> length (filter (header_keyword casefold) fields) * 2)"

record restock_source_lines =
  header :: "jstr option"
  items :: "jstr list"

definition nth_opt :: "'a list \<Rightarrow> nat \<Rightarrow> 'a option" where
  "nth_opt xs i = (if i < length xs then Some (xs ! i) else None)"

definition splitRestockSource ::
    "(nat \<Rightarrow> bool) \<Rightarrow> (jstr \<Rightarrow> jstr) \<Rightarrow> jstr \<Rightarrow> restock_source_lines" where
  "splitRestockSource letter casefold raw =
     (let lines = parseResourceItems raw False
      in if lines \<noteq> [] \<and> isRestockHeaderLine letter casefold (hd lines) (nth_opt lines 1)
         then \<lparr>header = Some (hd lines), items = tl lines\<rparr>
         else \<lparr>header = None, items = lines\<rparr>)"

section \<open>Stock formats\<close>

record stock_format_split =
  sf_format :: "jstr option"
  sf_note :: "jstr option"
  sf_items :: "jstr list"
  sf_needsFormat :: bool
  sf_unformatted :: bool
  sf_headerHint :: bool

definition STOCK_FORMAT_MAX_LENGTH :: nat where "STOCK_FORMAT_MAX_LENGTH = 500"

text \<open>\<open>/@|:\/\/|\d{6,}/.test(line)\<close>.\<close>

fun digit_run :: "nat \<Rightarrow> jstr \<Rightarrow> bool" where
  "digit_run n [] = (n = 0)"
| "digit_run n (c # s) =
     (n = 0 \<or> (n \<le> length (takeWhile is_digit (c # s))) \<or> digit_run n s)"

definition data_like :: "jstr \<Rightarrow> bool" where
  "data_like line \<longleftrightarrow> 64 \<in> set line \<or> str_includes line (js ''://'') \<or> digit_run 6 line"

definition isFormatLine :: "jstr \<Rightarrow> bool" where
  "isFormatLine line \<longleftrightarrow> length line \<le> STOCK_FORMAT_MAX_LENGTH \<and> \<not> data_like line"

text \<open>\<open>text.replace(/\s+/g, " ")\<close>.\<close>

fun squeeze_spaces :: "jstr \<Rightarrow> jstr" where
  "squeeze_spaces [] = []"
| "squeeze_spaces (c # s) =
     (if js_space c
      then (case s of d # _ \<Rightarrow> if js_space d then squeeze_spaces s else 32 # squeeze_spaces s | [] \<Rightarrow> [32])
      else c # squeeze_spaces s)"

definition text_or_null :: "jstr \<Rightarrow> jstr option" where
  "text_or_null t = (if t = [] then None else Some t)"

definition cleanLoginNote :: "jstr \<Rightarrow> jstr option" where
  "cleanLoginNote v =
     text_or_null (js_trim (squeeze_spaces (dropWhile (\<lambda>c. c = 35) (js_trim v))))"

definition splitStockFormat :: "jstr list \<Rightarrow> jstr option \<Rightarrow> stock_format_split" where
  "splitStockFormat lines typedFormat =
     (case lines of
        [] \<Rightarrow> \<lparr>sf_format = None, sf_note = None, sf_items = [], sf_needsFormat = False,
              sf_unformatted = False, sf_headerHint = False\<rparr>
      | first # rest \<Rightarrow>
          if typedFormat \<noteq> None \<or> \<not> isFormatLine first
          then \<lparr>sf_format = Option.bind typedFormat (\<lambda>t. text_or_null (js_trim t)), sf_note = None,
                sf_items = lines, sf_needsFormat = True, sf_unformatted = False, sf_headerHint = False\<rparr>
          else
            let hasNote = (rest \<noteq> [] \<and> starts_with (hd rest) [35])
            in \<lparr>sf_format = Some first,
                sf_note = (if hasNote then cleanLoginNote (hd rest) else None),
                sf_items = drop (if hasNote then 2 else 1) lines,
                sf_needsFormat = False, sf_unformatted = False, sf_headerHint = False\<rparr>)"

definition unformattedStock ::
    "(nat \<Rightarrow> bool) \<Rightarrow> (jstr \<Rightarrow> jstr) \<Rightarrow> jstr list \<Rightarrow> stock_format_split" where
  "unformattedStock letter casefold lines =
     \<lparr>sf_format = None, sf_note = None, sf_items = lines, sf_needsFormat = False,
      sf_unformatted = True,
      sf_headerHint = (1 < length lines \<and> isRestockHeaderLine letter casefold (lines ! 0) (Some (lines ! 1)))\<rparr>"

definition stripBatchHeader :: "jstr list \<Rightarrow> jstr \<Rightarrow> jstr list" where
  "stripBatchHeader lines format =
     (case lines of
        [] \<Rightarrow> []
      | first # rest \<Rightarrow>
          if js_trim first = js_trim format
          then (if rest \<noteq> [] \<and> starts_with (hd rest) [35] then tl rest else rest)
          else lines)"

definition mismatchedLines :: "jstr list \<Rightarrow> nat \<Rightarrow> nat \<Rightarrow> nat \<times> nat list" where
  "mismatchedLines its fieldCount cap =
     fold (\<lambda>(i, item) (total, lines).
         if restockFieldCount item = fieldCount then (total, lines)
         else (total + 1, if length lines < cap then lines @ [i + 1] else lines))
       (zip [0..<length its] its) (0, [])"

definition formatColumns :: "jstr \<Rightarrow> jstr list" where
  "formatColumns format = map js_trim (split_on 124 format)"

record stock_group_check =
  gc_fieldCount :: nat
  gc_mismatch :: "nat \<times> nat list"
  gc_empty :: bool
  gc_looksLikeData :: bool
  gc_missingFormat :: bool

definition checkStockGroup :: "stock_format_split \<Rightarrow> stock_group_check option" where
  "checkStockGroup g =
     (case sf_format g of
        Some f \<Rightarrow>
          if f = [] then
            (if sf_needsFormat g
             then Some \<lparr>gc_fieldCount = restockFieldCount (case sf_items g of [] \<Rightarrow> [] | x # _ \<Rightarrow> x),
                        gc_mismatch = (0, []), gc_empty = (sf_items g = []),
                        gc_looksLikeData = False, gc_missingFormat = True\<rparr>
             else None)
          else Some \<lparr>gc_fieldCount = restockFieldCount f,
                     gc_mismatch = mismatchedLines (sf_items g) (restockFieldCount f) 50,
                     gc_empty = (sf_items g = []), gc_looksLikeData = (\<not> isFormatLine f),
                     gc_missingFormat = False\<rparr>
      | None \<Rightarrow>
          if sf_needsFormat g
          then Some \<lparr>gc_fieldCount = restockFieldCount (case sf_items g of [] \<Rightarrow> [] | x # _ \<Rightarrow> x),
                     gc_mismatch = (0, []), gc_empty = (sf_items g = []),
                     gc_looksLikeData = False, gc_missingFormat = True\<rparr>
          else None)"

definition isStockGroupBlocked :: "stock_format_split \<Rightarrow> bool" where
  "isStockGroupBlocked g =
     (case checkStockGroup g of
        None \<Rightarrow> False
      | Some c \<Rightarrow> gc_empty c \<or> gc_missingFormat c \<or> gc_looksLikeData c)"

text \<open>The two line indexes; \<open>None\<close> is the code's \<open>-1\<close>.\<close>

fun note_line_from :: "nat \<Rightarrow> jstr list \<Rightarrow> nat option" where
  "note_line_from i [] = None"
| "note_line_from i (l # ls) =
     (if js_trim l = [] then note_line_from (Suc i) ls
      else if starts_with (js_trim l) [35] then Some i else None)"

fun format_lines_from :: "nat \<Rightarrow> jstr list \<Rightarrow> nat option \<times> nat option" where
  "format_lines_from i [] = (None, None)"
| "format_lines_from i (l # ls) =
     (if js_trim l = [] then format_lines_from (Suc i) ls
      else (Some i, note_line_from (Suc i) ls))"

definition formatLineIndexes :: "jstr \<Rightarrow> nat option \<times> nat option" where
  "formatLineIndexes v = format_lines_from 0 (split_on 10 v)"

section \<open>Rows in runs of one batch\<close>

record 'r batch_run =
  br_batchId :: "int option"
  br_rows :: "('r \<times> nat) list"

definition push_run :: "('r \<Rightarrow> int option) \<Rightarrow> 'r batch_run list \<Rightarrow> 'r \<times> nat \<Rightarrow> 'r batch_run list" where
  "push_run batch_id groups rowi =
     (if groups \<noteq> [] \<and> br_batchId (last groups) = batch_id (fst rowi)
      then butlast groups @ [(last groups)\<lparr>br_rows := br_rows (last groups) @ [rowi]\<rparr>]
      else groups @ [\<lparr>br_batchId = batch_id (fst rowi), br_rows = [rowi]\<rparr>])"

definition groupRowsByBatch :: "('r \<Rightarrow> int option) \<Rightarrow> 'r list \<Rightarrow> 'r batch_run list" where
  "groupRowsByBatch batch_id rows = foldl (push_run batch_id) [] (zip rows [0..<length rows])"

definition runs_ok :: "('r \<Rightarrow> int option) \<Rightarrow> ('r \<times> nat) list \<Rightarrow> 'r batch_run list \<Rightarrow> bool" where
  "runs_ok batch_id rows groups \<longleftrightarrow>
     concat (map br_rows groups) = rows \<and>
     (\<forall>g \<in> set groups. br_rows g \<noteq> [] \<and> (\<forall>r \<in> set (br_rows g). batch_id (fst r) = br_batchId g)) \<and>
     successively (\<noteq>) (map br_batchId groups)"

lemma runs_ok_push:
  assumes ok: "runs_ok batch_id rows groups"
  shows "runs_ok batch_id (rows @ [r]) (push_run batch_id groups r)"
proof (cases "groups = []")
  case True
  with ok show ?thesis by (simp add: runs_ok_def push_run_def)
next
  case False
  then obtain gs g where g: "groups = gs @ [g]" by (metis append_butlast_last_id)
  show ?thesis
  proof (cases "br_batchId g = batch_id (fst r)")
    case True
    have "push_run batch_id groups r = gs @ [g\<lparr>br_rows := br_rows g @ [r]\<rparr>]"
      using g True by (simp add: push_run_def)
    with ok g True show ?thesis
      by (auto simp: runs_ok_def)
  next
    case False
    have "push_run batch_id groups r = gs @ [g, \<lparr>br_batchId = batch_id (fst r), br_rows = [r]\<rparr>]"
      using g False by (simp add: push_run_def)
    with ok g False show ?thesis
      by (auto simp: runs_ok_def successively_append_iff)
  qed
qed

lemma groupRowsByBatch_runs: "runs_ok batch_id (zip rows [0..<length rows]) (groupRowsByBatch batch_id rows)"
proof -
  have "runs_ok batch_id xs (foldl (push_run batch_id) [] xs)" for xs
  proof (induction xs rule: rev_induct)
    case Nil
    then show ?case by (simp add: runs_ok_def)
  next
    case (snoc x xs)
    from runs_ok_push [OF this] show ?case by simp
  qed
  then show ?thesis by (simp add: groupRowsByBatch_def)
qed

section \<open>Properties\<close>

text \<open>
  The size of a stock line that the batches are cut by is exact.  For every
  string, lone surrogates and control characters included, \<open>jsonByteLength\<close> is the number of bytes
  of the UTF-8 encoding of its \<open>JSON.stringify\<close>.
\<close>

theorem json_byte_length: "jsonByteLength v = utf8_length (json_stringify v)"
  by (rule jsonByteLength_exact)

text \<open>
  A downloaded batch uploads again as it is.  A text that starts with a
  format line and a line of login notes and goes on with the accounts is read back as that format,
  the cleaned notes and exactly those accounts; and added to the batch of that format, its header
  is dropped and every account kept.
\<close>

theorem batch_upload_roundtrip:
  assumes "isFormatLine fmt" "clean_line fmt" "clean_line note" "starts_with note [35]"
    "\<forall>l \<in> set accounts. clean_line l"
  shows "splitStockFormat (parseResourceItems (join [10] (fmt # note # accounts)) False) None =
           \<lparr>sf_format = Some fmt, sf_note = cleanLoginNote note, sf_items = accounts,
            sf_needsFormat = False, sf_unformatted = False, sf_headerHint = False\<rparr> \<and>
         stripBatchHeader (parseResourceItems (join [10] (fmt # note # accounts)) False) fmt = accounts"
proof -
  have "parseResourceItems (join [10] (fmt # note # accounts)) False = fmt # note # accounts"
    by (rule parseResourceItems_join) (use assms in simp_all)
  with assms(1,4) show ?thesis by (simp add: splitStockFormat_def stripBatchHeader_def Let_def)
qed

lemma batch_upload_roundtrip_witness:
  "stripBatchHeader (parseResourceItems
     (join [10] [[85, 73, 68, 124, 80], [35, 32, 104, 105], [117, 49, 124, 112]]) False)
     [85, 73, 68, 124, 80] = [[117, 49, 124, 112]]"
proof -
  have "isFormatLine [85, 73, 68, 124, 80]" by code_simp
  moreover have "clean_line [85, 73, 68, 124, 80]" "clean_line [35, 32, 104, 105]"
    "clean_line [117, 49, 124, 112]" "starts_with [35, 32, 104, 105] [35]"
    by (simp_all add: clean_line_def trimmed_def js_space_def starts_with_def)
  ultimately show ?thesis
    using batch_upload_roundtrip [of "[85, 73, 68, 124, 80]" "[35, 32, 104, 105]" "[[117, 49, 124, 112]]"]
    by simp
qed

text \<open>
  A stock group that may be sent never carries an account as its format.
  When a group is not blocked and has a format, the format has no e-mail, URL or long number, is
  short enough, and has accounts under it; and a group whose format the seller still owes is
  blocked.
\<close>

theorem no_account_as_format:
  assumes "\<not> isStockGroupBlocked g"
  shows "(sf_format g = Some f \<and> f \<noteq> [] \<longrightarrow> isFormatLine f \<and> sf_items g \<noteq> []) \<and>
         (sf_needsFormat g \<longrightarrow> (\<exists>f. sf_format g = Some f \<and> f \<noteq> []))"
  using assms
  by (auto simp: isStockGroupBlocked_def checkStockGroup_def split: option.splits if_splits)

lemma no_account_as_format_witness:
  "isFormatLine [85, 124, 80]"
proof -
  let ?g = "\<lparr>sf_format = Some [85, 124, 80], sf_note = None, sf_items = [[117, 124, 112]],
    sf_needsFormat = False, sf_unformatted = False, sf_headerHint = False\<rparr>"
  have "\<not> isStockGroupBlocked ?g" by code_simp
  from no_account_as_format [OF this, of "[85, 124, 80]"] show ?thesis by simp
qed

lemma mismatched_fold:
  "length ls \<le> cap \<Longrightarrow>
     fold (\<lambda>(i, item) (total, lines).
         if restockFieldCount item = n then (total, lines)
         else (total + 1, if length lines < cap then lines @ [i + 1] else lines)) xs (t, ls) =
     (t + length (filter (\<lambda>(i, item). restockFieldCount item \<noteq> n) xs),
      ls @ take (cap - length ls) (map (\<lambda>(i, _). i + 1) (filter (\<lambda>(i, item). restockFieldCount item \<noteq> n) xs)))"
proof (induction xs arbitrary: t ls)
  case (Cons x xs)
  obtain i item where x: "x = (i, item)" by (cases x)
  show ?case
  proof (cases "restockFieldCount item = n")
    case False
    show ?thesis
    proof (cases "length ls < cap")
      case True
      then obtain k where "cap - length ls = Suc k" by (metis Suc_diff_Suc)
      moreover have "cap - length (ls @ [i + 1]) = k" using \<open>cap - length ls = Suc k\<close> by simp
      ultimately show ?thesis using Cons.IH [of "ls @ [i + 1]"] x False True by simp
    next
      case full: False
      with Cons.IH [of ls] Cons.prems x False show ?thesis by simp
    qed
  qed (use Cons x in simp)
qed simp

text \<open>
  The warning about lines of another field count is exact: the total counts every
  such line, and the list names the first of them by their 1-based position, at most as many as
  the cap.
\<close>

theorem mismatched_lines_exact:
  "mismatchedLines its n cap =
     (length (filter (\<lambda>(i, item). restockFieldCount item \<noteq> n) (zip [0..<length its] its)),
      take cap (map (\<lambda>(i, _). i + 1)
        (filter (\<lambda>(i, item). restockFieldCount item \<noteq> n) (zip [0..<length its] its))))"
  unfolding mismatchedLines_def
  using mismatched_fold [of "[]" cap n "zip [0..<length its] its" 0] by simp

text \<open>
  The stock table's runs are the rows.  Concatenated they give back every row with
  its index, each run is non-empty and holds rows of one batch, and neighbouring runs are of
  different batches, so no run is cut in two.
\<close>

theorem batch_runs:
  "runs_ok batch_id (zip rows [0..<length rows]) (groupRowsByBatch batch_id rows)"
  by (rule groupRowsByBatch_runs)

end
