(* ===== verification/Batches.thy ===== *)
theory Batches
  imports Prelude
begin

text \<open>
  Cutting a list into consecutive batches.  The loops of the code differ only in where a batch
  ends; the interface \<open>batcher\<close> states what such a rule must promise, and the laws of the batches
  follow once for the stock uploads and for the dispute claims.
\<close>

text \<open>\<open>xs.slice(i, j)\<close> for indices that are not negative.\<close>

definition segment :: "'a list \<Rightarrow> nat \<Rightarrow> nat \<Rightarrow> 'a list" where
  "segment xs i j = take (j - i) (drop i xs)"

text \<open>
  \<open>for (let start = s; start < xs.length;) { end = ...; push(xs.slice(start, end)); start = end; }\<close>.
  A rule that makes no progress loops forever, which is \<open>None\<close>.
\<close>

partial_function (option) chunk_from ::
    "(nat \<Rightarrow> nat) \<Rightarrow> 'a list \<Rightarrow> nat \<Rightarrow> 'a list list option" where
  "chunk_from batch_end xs s =
     (if s < length xs
      then Option.bind (chunk_from batch_end xs (batch_end s))
             (\<lambda>bs. Some (segment xs s (batch_end s) # bs))
      else Some [])"

lemma segment_drop: "i \<le> j \<Longrightarrow> segment xs i j @ drop j xs = drop i xs"
  unfolding segment_def by (metis add_diff_cancel_left' append_take_drop_id drop_drop le_Suc_ex add.commute)

lemma segment_nonempty: "i < length xs \<Longrightarrow> i < j \<Longrightarrow> segment xs i j \<noteq> []"
  by (simp add: segment_def)

lemma length_segment: "length (segment xs i j) = min (j - i) (length xs - i)"
  by (simp add: segment_def min.commute)

lemma segment_map: "segment (map f xs) i j = map f (segment xs i j)"
  by (simp add: segment_def take_map drop_map)

locale batcher =
  fixes batch_end :: "'a list \<Rightarrow> nat \<Rightarrow> nat" and fits :: "'a list \<Rightarrow> bool"
  assumes progress: "s < length xs \<Longrightarrow> s < batch_end xs s"
    and fitting: "s < length xs \<Longrightarrow> fits (segment xs s (batch_end xs s))"
begin

lemma chunks_from:
  "\<exists>bs. chunk_from (batch_end xs) xs s = Some bs \<and> concat bs = drop s xs \<and>
     (\<forall>b \<in> set bs. b \<noteq> [] \<and> fits b) \<and> length bs \<le> length xs - s"
proof (induction "length xs - s" arbitrary: s rule: less_induct)
  case less
  show ?case
  proof (cases "s < length xs")
    case True
    let ?e = "batch_end xs s"
    have e: "s < ?e" using True by (rule progress)
    then have "length xs - ?e < length xs - s" using True by simp
    from less [OF this] obtain bs where bs: "chunk_from (batch_end xs) xs ?e = Some bs"
        "concat bs = drop ?e xs" "\<forall>b \<in> set bs. b \<noteq> [] \<and> fits b" "length bs \<le> length xs - ?e"
      by blast
    have "chunk_from (batch_end xs) xs s = Some (segment xs s ?e # bs)"
      using True bs(1) by (subst chunk_from.simps) simp
    moreover have "concat (segment xs s ?e # bs) = drop s xs"
      using e bs(2) segment_drop [of s ?e xs] by simp
    moreover have "\<forall>b \<in> set (segment xs s ?e # bs). b \<noteq> [] \<and> fits b"
      using True e bs(3) fitting segment_nonempty by simp
    moreover have "length (segment xs s ?e # bs) \<le> length xs - s"
      using bs(4) e True by simp
    ultimately show ?thesis by blast
  next
    case False
    then show ?thesis by (subst chunk_from.simps) simp
  qed
qed

lemma chunks:
  obtains bs where "chunk_from (batch_end xs) xs 0 = Some bs" "concat bs = xs"
    "\<forall>b \<in> set bs. b \<noteq> [] \<and> fits b" "length bs \<le> length xs"
  using chunks_from [of xs 0] by auto

end

end
