(* ===== verification/Restock_Batches.thy ===== *)
theory Restock_Batches
  imports Restock_Lines Batches
begin

text \<open>
  Sending an upload in request-sized batches (features/seller-inventory/logic.ts).  The server is
  the parameter \<open>send\<close>: it reads and changes a state, which is everything outside the loop (the
  server and what the caller's closure remembers), so it may answer differently at every call.  An
  abort signal is the predicate \<open>aborted\<close> on that state, asked before each call.
\<close>

section \<open>Batches\<close>

definition RESTOCK_BATCH_BYTES :: nat where "RESTOCK_BATCH_BYTES = 900000"
definition RESTOCK_BATCH_MAX_ITEMS :: nat where "RESTOCK_BATCH_MAX_ITEMS = 5000"

function batch_end_loop ::
    "jstr list \<Rightarrow> nat \<Rightarrow> nat \<Rightarrow> nat \<Rightarrow> nat \<Rightarrow> nat \<Rightarrow> nat" where
  "batch_end_loop its start maxBytes maxItems bytes e =
     (if e < length its \<and> e - start < maxItems
      then let size = jsonByteLength (its ! e) + 1
           in if start < e \<and> maxBytes < bytes + size then e
              else batch_end_loop its start maxBytes maxItems (bytes + size) (Suc e)
      else e)"
  by pat_completeness auto
termination by (relation "measure (\<lambda>(its, _, _, _, _, e). length its - e)") auto

declare batch_end_loop.simps [simp del]

definition restockBatchEnd :: "jstr list \<Rightarrow> nat \<Rightarrow> nat \<Rightarrow> nat \<Rightarrow> nat" where
  "restockBatchEnd its start maxBytes maxItems = batch_end_loop its start maxBytes maxItems 0 start"

definition chunkRestockItems :: "jstr list \<Rightarrow> nat \<Rightarrow> nat \<Rightarrow> jstr list list option" where
  "chunkRestockItems its maxBytes maxItems =
     chunk_from (\<lambda>s. restockBatchEnd its s maxBytes maxItems) its 0"

definition batch_bytes :: "jstr list \<Rightarrow> nat" where
  "batch_bytes b = sum_list (map (\<lambda>l. jsonByteLength l + 1) b)"

lemma segment_snoc:
  assumes "s \<le> e" "e < length xs" shows "segment xs s (Suc e) = segment xs s e @ [xs ! e]"
proof -
  have "Suc e - s = Suc (e - s)" using assms(1) by simp
  moreover have "e - s < length (drop s xs)" "drop s xs ! (e - s) = xs ! e" using assms by simp_all
  ultimately show ?thesis unfolding segment_def by (metis take_Suc_conv_app_nth)
qed

lemma batch_bytes_snoc: "batch_bytes (b @ [l]) = batch_bytes b + (jsonByteLength l + 1)"
  by (simp add: batch_bytes_def)

lemma batch_end_loop_ge: "e \<le> batch_end_loop its start mb mi bytes e"
proof (induction its start mb mi bytes e rule: batch_end_loop.induct)
  case (1 its start mb mi bytes e)
  then show ?case
    by (subst batch_end_loop.simps) (auto simp: Let_def intro: Suc_leD)
qed

lemma batch_end_loop_fits:
  assumes "start \<le> e" "e \<le> length its" "e - start \<le> mi" "bytes = batch_bytes (segment its start e)"
    "Suc start < e \<longrightarrow> bytes \<le> mb"
  defines "j \<equiv> batch_end_loop its start mb mi bytes e"
  shows "j \<le> length its \<and> j - start \<le> mi \<and> (Suc start < j \<longrightarrow> batch_bytes (segment its start j) \<le> mb)"
  using assms(1-5) unfolding j_def
proof (induction its start mb mi bytes e rule: batch_end_loop.induct)
  case (1 its start mb mi bytes e)
  let ?size = "jsonByteLength (its ! e) + 1"
  show ?case
  proof (cases "e < length its \<and> e - start < mi \<and> \<not> (start < e \<and> mb < bytes + ?size)")
    case True
    have "bytes + ?size = batch_bytes (segment its start (Suc e))"
      using "1.prems" True by (simp add: segment_snoc batch_bytes_snoc)
    moreover have "batch_end_loop its start mb mi bytes e =
        batch_end_loop its start mb mi (bytes + ?size) (Suc e)"
      using True by (subst batch_end_loop.simps) (auto simp: Let_def)
    moreover have "Suc start < Suc e \<longrightarrow> bytes + ?size \<le> mb" using True by auto
    moreover have "Suc e - start \<le> mi" using True "1.prems"(1) by linarith
    ultimately show ?thesis
      using "1.IH" [of ?size] True "1.prems" by (simp add: Let_def)
  next
    case False
    then have "batch_end_loop its start mb mi bytes e = e"
      by (subst batch_end_loop.simps) (auto simp: Let_def)
    with "1.prems" show ?thesis by simp
  qed
qed

lemma restockBatchEnd_progress:
  assumes "s < length its" "0 < mi" shows "s < restockBatchEnd its s mb mi"
proof -
  have "restockBatchEnd its s mb mi = batch_end_loop its s mb mi (jsonByteLength (its ! s) + 1) (Suc s)"
    unfolding restockBatchEnd_def using assms by (subst batch_end_loop.simps) (simp add: Let_def)
  then show ?thesis using batch_end_loop_ge [of "Suc s"] by (metis Suc_le_eq)
qed

text \<open>A batch fits when it has few enough lines and, unless it is a single line, few enough bytes.\<close>

definition restock_fits :: "nat \<Rightarrow> nat \<Rightarrow> jstr list \<Rightarrow> bool" where
  "restock_fits mb mi b \<longleftrightarrow> length b \<le> mi \<and> (1 < length b \<longrightarrow> batch_bytes b \<le> mb)"

lemma restockBatchEnd_fits:
  assumes "s < length its"
  shows "restock_fits mb mi (segment its s (restockBatchEnd its s mb mi))"
    and "restockBatchEnd its s mb mi \<le> length its"
proof -
  have z: "batch_bytes (segment its s s) = 0" by (simp add: batch_bytes_def segment_def)
  from batch_end_loop_fits [of s s its mi 0 mb, unfolded z] assms
  have "restockBatchEnd its s mb mi \<le> length its \<and> restockBatchEnd its s mb mi - s \<le> mi \<and>
      (Suc s < restockBatchEnd its s mb mi \<longrightarrow>
        batch_bytes (segment its s (restockBatchEnd its s mb mi)) \<le> mb)"
    unfolding restockBatchEnd_def by simp
  then show "restock_fits mb mi (segment its s (restockBatchEnd its s mb mi))"
    "restockBatchEnd its s mb mi \<le> length its"
    unfolding restock_fits_def length_segment by auto
qed

interpretation restock: batcher
    "\<lambda>its s. restockBatchEnd its s mb (Suc mi)" "restock_fits mb (Suc mi)" for mb mi
  by unfold_locales (auto simp: restockBatchEnd_progress restockBatchEnd_fits)

text \<open>A batch of two lines or more needs room, so a budget that is refused can be halved.\<close>

lemma batch_bytes_pos: "b \<noteq> [] \<Longrightarrow> 0 < batch_bytes b"
  by (cases b) (simp_all add: batch_bytes_def jsonByteLength_def)

lemma restock_multi_budget:
  assumes "s < length its" "length (segment its s (restockBatchEnd its s mb mi)) \<noteq> 1" "0 < mi"
  shows "0 < mb"
proof -
  let ?b = "segment its s (restockBatchEnd its s mb mi)"
  have ne: "?b \<noteq> []" using segment_nonempty assms(1) restockBatchEnd_progress [OF assms(1,3)] by blast
  with assms(2) have "1 < length ?b" by (cases ?b) (auto simp: Suc_lessI)
  with restockBatchEnd_fits(1) [OF assms(1), of mb mi] have "batch_bytes ?b \<le> mb"
    by (simp add: restock_fits_def)
  with batch_bytes_pos [OF ne] show ?thesis by simp
qed

section \<open>Sending\<close>

text \<open>
  What a rejected call carries.  \<open>requestTooLargeCap\<close> reads it: the reported cap, \<open>0\<close> for an
  unknown cap, or nothing for any other error.
\<close>

record send_error =
  errorCode :: "jstr option"
  max_bytes :: "int option"

datatype 'r reply = Reply 'r | Fails send_error

datatype run_end = Finished | Rethrown send_error | Aborted

definition requestTooLargeCap :: "send_error \<Rightarrow> int option" where
  "requestTooLargeCap e =
     (if errorCode e \<noteq> Some (js ''REQUEST_TOO_LARGE'') \<and>
         errorCode e \<noteq> Some (js ''GATEWAY_REQUEST_TOO_LARGE'')
      then None
      else Some (case max_bytes e of None \<Rightarrow> 0 | Some n \<Rightarrow> n))"

definition shrink_budget :: "nat \<Rightarrow> int \<Rightarrow> nat" where
  "shrink_budget budget cap =
     (if 0 < cap then min (budget div 2) (nat ((cap * 9) div 10)) else budget div 2)"

lemma shrink_budget_half: "shrink_budget budget cap \<le> budget div 2"
  by (simp add: shrink_budget_def)

function run_from ::
    "('s \<Rightarrow> jstr list \<Rightarrow> 'r reply \<times> 's) \<Rightarrow> ('s \<Rightarrow> bool) \<Rightarrow> jstr list \<Rightarrow> nat \<Rightarrow> nat \<Rightarrow> nat \<Rightarrow>
     (jstr list \<times> 'r) list \<Rightarrow> 's \<Rightarrow> (jstr list \<times> 'r) list \<times> run_end \<times> nat \<times> 's" where
  "run_from send aborted its call start budget results st =
     (if start < length its then
        if aborted st then (results, Aborted, call, st)
        else
          let e = restockBatchEnd its start budget RESTOCK_BATCH_MAX_ITEMS;
              batch = segment its start e
          in case send st batch of
               (Reply r, st') \<Rightarrow>
                 run_from send aborted its (Suc call) e budget (results @ [(batch, r)]) st'
             | (Fails err, st') \<Rightarrow>
                 (case requestTooLargeCap err of
                    None \<Rightarrow> (results, Rethrown err, Suc call, st')
                  | Some cap \<Rightarrow>
                      if length batch = 1 then (results, Rethrown err, Suc call, st')
                      else run_from send aborted its (Suc call) start (shrink_budget budget cap) results st')
      else (results, Finished, call, st))"
  by pat_completeness auto

termination
proof (relation "measures [\<lambda>(send, aborted, its, call, start, budget, results, st). length its - start,
    \<lambda>(send, aborted, its, call, start, budget, results, st). budget]", goal_cases)
  case (2 send aborted its call start budget results st e batch)
  have "0 < RESTOCK_BATCH_MAX_ITEMS" by (simp add: RESTOCK_BATCH_MAX_ITEMS_def)
  with 2 restockBatchEnd_progress [of start its RESTOCK_BATCH_MAX_ITEMS budget]
  show ?case by simp
next
  case (3 send aborted its call start budget results st e batch)
  have "0 < RESTOCK_BATCH_MAX_ITEMS" by (simp add: RESTOCK_BATCH_MAX_ITEMS_def)
  with 3 restock_multi_budget [of start its budget RESTOCK_BATCH_MAX_ITEMS] have "0 < budget" by simp
  then have "shrink_budget budget cap < budget" for cap
    using shrink_budget_half [of budget cap] by simp
  then show ?case by simp
qed simp

declare run_from.simps [simp del]

definition runInRestockBatches ::
    "('s \<Rightarrow> jstr list \<Rightarrow> 'r reply \<times> 's) \<Rightarrow> ('s \<Rightarrow> bool) \<Rightarrow> jstr list \<Rightarrow> 's \<Rightarrow>
     (jstr list \<times> 'r) list \<times> run_end \<times> nat \<times> 's" where
  "runInRestockBatches send aborted its st = run_from send aborted its 0 0 RESTOCK_BATCH_BYTES [] st"

subsection \<open>What was accepted\<close>

lemma restock_fits_mono: "restock_fits mb mi b \<Longrightarrow> mb \<le> mb' \<Longrightarrow> restock_fits mb' mi b"
  by (auto simp: restock_fits_def)

lemma take_segment:
  assumes "s \<le> e" shows "take s xs @ segment xs s e = take e xs"
  using assms unfolding segment_def by (metis le_add_diff_inverse take_add)

text \<open>
  A state of the loop: the accepted batches are the lines before \<open>start\<close>, each was accepted by some
  call, and each fits the first budget.
\<close>

definition run_inv ::
    "('s \<Rightarrow> jstr list \<Rightarrow> 'r reply \<times> 's) \<Rightarrow> jstr list \<Rightarrow> nat \<Rightarrow> (jstr list \<times> 'r) list \<Rightarrow> bool" where
  "run_inv send its start results \<longleftrightarrow>
     start \<le> length its \<and> concat (map fst results) = take start its \<and>
     (\<forall>p \<in> set results. (\<exists>s. fst (send s (fst p)) = Reply (snd p)) \<and> fst p \<noteq> [] \<and>
        restock_fits RESTOCK_BATCH_BYTES RESTOCK_BATCH_MAX_ITEMS (fst p))"

lemma max_items_pos: "0 < RESTOCK_BATCH_MAX_ITEMS"
  by (simp add: RESTOCK_BATCH_MAX_ITEMS_def)

lemma run_inv_accept:
  assumes inv: "run_inv send its start results" and s: "start < length its"
    and b: "budget \<le> RESTOCK_BATCH_BYTES"
    and e: "e = restockBatchEnd its start budget RESTOCK_BATCH_MAX_ITEMS"
    and ok: "send st (segment its start e) = (Reply r, st')"
  shows "run_inv send its e (results @ [(segment its start e, r)])"
proof -
  have "start < e" unfolding e by (rule restockBatchEnd_progress [OF s max_items_pos])
  moreover have "e \<le> length its" unfolding e by (rule restockBatchEnd_fits(2) [OF s])
  moreover have "restock_fits RESTOCK_BATCH_BYTES RESTOCK_BATCH_MAX_ITEMS (segment its start e)"
    unfolding e using restockBatchEnd_fits(1) [OF s] b by (rule restock_fits_mono)
  moreover have "segment its start e \<noteq> []" using s \<open>start < e\<close> by (rule segment_nonempty)
  ultimately show ?thesis
    using inv take_segment [of start e its] fst_conv [of "Reply r" st', folded ok]
    unfolding run_inv_def by auto
qed

text \<open>The steps of the loop as equations.\<close>

definition next_batch :: "jstr list \<Rightarrow> nat \<Rightarrow> nat \<Rightarrow> jstr list" where
  "next_batch its start budget =
     segment its start (restockBatchEnd its start budget RESTOCK_BATCH_MAX_ITEMS)"

lemma run_from_stop:
  "\<not> start < length its \<Longrightarrow>
     run_from send aborted its call start budget results st = (results, Finished, call, st)"
  "start < length its \<Longrightarrow> aborted st \<Longrightarrow>
     run_from send aborted its call start budget results st = (results, Aborted, call, st)"
  by (simp_all add: run_from.simps)

lemma run_from_accept:
  assumes "start < length its" "\<not> aborted st" "send st (next_batch its start budget) = (Reply r, st')"
  shows "run_from send aborted its call start budget results st =
      run_from send aborted its (Suc call) (restockBatchEnd its start budget RESTOCK_BATCH_MAX_ITEMS)
        budget (results @ [(next_batch its start budget, r)]) st'"
  using assms unfolding next_batch_def
  by (subst run_from.simps) (simp only: Let_def if_True if_False simp_thms prod.case reply.case)

lemma run_from_fail:
  assumes "start < length its" "\<not> aborted st" "send st (next_batch its start budget) = (Fails err, st')"
  shows "run_from send aborted its call start budget results st =
      (case requestTooLargeCap err of
         None \<Rightarrow> (results, Rethrown err, Suc call, st')
       | Some cap \<Rightarrow>
           if length (next_batch its start budget) = 1 then (results, Rethrown err, Suc call, st')
           else run_from send aborted its (Suc call) start (shrink_budget budget cap) results st')"
  using assms unfolding next_batch_def
  by (subst run_from.simps) (simp only: Let_def if_True if_False simp_thms prod.case reply.case)

text \<open>One case analysis for every invariant of the loop.\<close>

lemma run_from_induct [case_names stop abort accept throw shrink]:
  assumes stop: "\<And>call start budget results st. \<not> start < length its \<Longrightarrow>
      P call start budget results (results, Finished, call, st)"
    and abort: "\<And>call start budget results st. start < length its \<Longrightarrow>
      P call start budget results (results, Aborted, call, st)"
    and accept: "\<And>call start budget results st r st' out.
      start < length its \<Longrightarrow> send st (next_batch its start budget) = (Reply r, st') \<Longrightarrow>
      P (Suc call) (restockBatchEnd its start budget RESTOCK_BATCH_MAX_ITEMS) budget
        (results @ [(next_batch its start budget, r)]) out \<Longrightarrow>
      P call start budget results out"
    and throw: "\<And>call start budget results err st. start < length its \<Longrightarrow>
      P call start budget results (results, Rethrown err, Suc call, st)"
    and shrink: "\<And>call start budget results cap out. start < length its \<Longrightarrow>
      length (next_batch its start budget) \<noteq> 1 \<Longrightarrow>
      P (Suc call) start (shrink_budget budget cap) results out \<Longrightarrow>
      P call start budget results out"
  shows "P call start budget results (run_from send aborted its call start budget results st)"
proof (induction s \<equiv> send a \<equiv> aborted l \<equiv> its call start budget results st rule: run_from.induct)
  case (1 call start budget results st)
  let ?e = "restockBatchEnd its start budget RESTOCK_BATCH_MAX_ITEMS"
  show ?case
  proof (cases "start < length its \<and> \<not> aborted st")
    case False
    then show ?thesis by (cases "start < length its") (simp_all add: run_from_stop stop abort)
  next
    case True
    then have s: "start < length its" and na: "\<not> aborted st" by simp_all
    obtain x st' where x: "send st (next_batch its start budget) = (x, st')" by fastforce
    show ?thesis
    proof (cases x)
      case (Reply r)
      from "1"(1) [OF s na refl refl] x Reply
      have "P (Suc call) ?e budget (results @ [(next_batch its start budget, r)])
          (run_from send aborted its (Suc call) ?e budget (results @ [(next_batch its start budget, r)]) st')"
        by (simp add: next_batch_def)
      from accept [OF s x [unfolded Reply] this]
      show ?thesis using run_from_accept [where send = send and aborted = aborted and st = st and its = its and budget = budget and
            start = start, OF s na x [unfolded Reply]] by simp
    next
      case (Fails err)
      show ?thesis
      proof (cases "requestTooLargeCap err = None \<or> length (next_batch its start budget) = 1")
        case True
        then show ?thesis
          using run_from_fail [where send = send and aborted = aborted and st = st and its = its and budget = budget and
              start = start, OF s na x [unfolded Fails]] throw [OF s] by (auto split: option.splits)
      next
        case False
        then obtain cap where cap: "requestTooLargeCap err = Some cap"
          and l: "length (next_batch its start budget) \<noteq> 1" by auto
        from "1"(2) [OF s na refl refl] x Fails cap l
        have "P (Suc call) start (shrink_budget budget cap) results
            (run_from send aborted its (Suc call) start (shrink_budget budget cap) results st')"
          by (simp add: next_batch_def)
        from shrink [OF s l this] show ?thesis
          using run_from_fail [where send = send and aborted = aborted and st = st and its = its and budget = budget and
              start = start, OF s na x [unfolded Fails]] cap l by simp
      qed
    qed
  qed
qed

lemma run_from_inv:
  assumes "run_inv send its start results" "budget \<le> RESTOCK_BATCH_BYTES"
  shows "case run_from send aborted its call start budget results st of (res, fin, rest) \<Rightarrow>
           \<exists>k. run_inv send its k res \<and> (fin = Finished \<longrightarrow> k = length its)"
proof -
  let ?P = "\<lambda>call start budget results out. run_inv send its start results \<longrightarrow>
      budget \<le> RESTOCK_BATCH_BYTES \<longrightarrow>
      (case out of (res, fin, rest) \<Rightarrow>
        \<exists>k. run_inv send its k res \<and> (fin = Finished \<longrightarrow> k = length its))"
  have "?P call start budget results (run_from send aborted its call start budget results st)"
  proof (rule run_from_induct [where P = ?P], goal_cases)
    case (1 call start budget results st)
    then show ?case by (auto simp: run_inv_def)
  next
    case (3 call start budget results st r st' out)
    have "run_inv send its (restockBatchEnd its start budget RESTOCK_BATCH_MAX_ITEMS)
        (results @ [(next_batch its start budget, r)])"
      if "run_inv send its start results" "budget \<le> RESTOCK_BATCH_BYTES"
      unfolding next_batch_def
      by (rule run_inv_accept [OF that(1) 3(1) that(2) refl])
        (use 3(2) in \<open>simp add: next_batch_def\<close>)
    with 3(3) show ?case by blast
  next
    case (5 call start budget results cap out)
    have "budget \<le> RESTOCK_BATCH_BYTES \<Longrightarrow> shrink_budget budget cap \<le> RESTOCK_BATCH_BYTES"
      using shrink_budget_half [of budget cap] by simp
    with 5 show ?case by blast
  qed auto
  with assms show ?thesis by simp
qed

subsection \<open>How many calls\<close>

fun halvings :: "nat \<Rightarrow> nat" where
  "halvings b = (if b = 0 then 0 else Suc (halvings (b div 2)))"

declare halvings.simps [simp del]

lemma halvings_mono: "a \<le> b \<Longrightarrow> halvings a \<le> halvings b"
proof (induction b arbitrary: a rule: halvings.induct)
  case (1 b)
  show ?case
  proof (cases "a = 0")
    case True
    then show ?thesis by (simp add: halvings.simps)
  next
    case False
    with 1 have "halvings (a div 2) \<le> halvings (b div 2)" by (simp add: div_le_mono)
    with False 1 show ?thesis by (simp add: halvings.simps [of a] halvings.simps [of b])
  qed
qed

lemma halvings_shrink: "0 < b \<Longrightarrow> Suc (halvings (shrink_budget b cap)) \<le> halvings b"
  using halvings_mono [OF shrink_budget_half, of b cap] by (simp add: halvings.simps [of b])

lemma run_from_calls:
  assumes "start \<le> length its"
  shows "fst (snd (snd (run_from send aborted its call start budget results st)))
           \<le> call + (length its - start) + halvings budget"
proof -
  let ?P = "\<lambda>call start budget results out. start \<le> length its \<longrightarrow>
      fst (snd (snd out)) \<le> call + (length its - start) + halvings budget"
  have "?P call start budget results (run_from send aborted its call start budget results st)"
  proof (rule run_from_induct [where P = ?P], goal_cases)
    case (3 call start budget results st r st' out)
    have "fst (snd (snd out)) \<le> Suc call +
        (length its - restockBatchEnd its start budget RESTOCK_BATCH_MAX_ITEMS) + halvings budget"
      using 3(3) restockBatchEnd_fits(2) [OF 3(1)] by blast
    with restockBatchEnd_progress [OF 3(1) max_items_pos, of budget] 3(1) show ?case by linarith
  next
    case (5 call start budget results cap out)
    with halvings_shrink [OF restock_multi_budget [OF 5(1) 5(2) [unfolded next_batch_def]
          max_items_pos], of cap]
    show ?case by linarith
  qed auto
  with assms show ?thesis by blast
qed

lemma halvings_first_budget: "halvings RESTOCK_BATCH_BYTES = 20"
  by (simp add: RESTOCK_BATCH_BYTES_def halvings.simps)

section \<open>An upload with its progress\<close>

record restock_counters =
  rc_count :: int
  rc_skipped_duplicate :: int
  rc_skipped_existing :: int
  rc_skipped_market :: int

record restock_progress =
  pr_done :: nat
  pr_total :: nat
  pr_added :: int

definition add_counters :: "restock_counters \<Rightarrow> restock_counters \<Rightarrow> restock_counters" where
  "add_counters t r =
     \<lparr>rc_count = rc_count t + rc_count r,
      rc_skipped_duplicate = rc_skipped_duplicate t + rc_skipped_duplicate r,
      rc_skipped_existing = rc_skipped_existing t + rc_skipped_existing r,
      rc_skipped_market = rc_skipped_market t + rc_skipped_market r\<rparr>"

definition on_batch ::
    "nat \<Rightarrow> restock_counters \<times> nat \<times> restock_progress list \<Rightarrow> jstr list \<times> restock_counters \<Rightarrow>
     restock_counters \<times> nat \<times> restock_progress list" where
  "on_batch tot st br =
     (let (totals, don, reports) = st; (batch, result) = br;
          totals' = add_counters totals result; don' = don + length batch
      in (totals', don', reports @ [\<lparr>pr_done = don', pr_total = tot, pr_added = rc_count totals'\<rparr>]))"

text \<open>The totals (or how the run ended early) and every progress report, in order.\<close>

definition runRestockBatches ::
    "('s \<Rightarrow> jstr list \<Rightarrow> restock_counters reply \<times> 's) \<Rightarrow> ('s \<Rightarrow> bool) \<Rightarrow> jstr list \<Rightarrow> 's \<Rightarrow>
     (run_end + restock_counters) \<times> restock_progress list \<times> 's" where
  "runRestockBatches send aborted its st =
     (let unique = uniq its;
          totals = \<lparr>rc_count = 0, rc_skipped_duplicate = int (length its) - int (length unique),
                    rc_skipped_existing = 0, rc_skipped_market = 0\<rparr>;
          (results, fin, calls, st') = runInRestockBatches send aborted unique st;
          (totals', don, reports) =
            foldl (on_batch (length unique))
              (totals, 0, [\<lparr>pr_done = 0, pr_total = length unique, pr_added = 0\<rparr>]) results
      in (if fin = Finished then Inr totals' else Inl fin, reports, st'))"

record restock_preview_batch =
  pb_existing_in_stock :: int
  pb_expected_field_count :: "nat option"

record restock_preview_summary =
  ps_total_lines :: nat
  ps_duplicate_in_file :: int
  ps_existing_in_stock :: int
  ps_to_add :: int
  ps_expected_field_count :: "nat option"
  ps_malformed :: "(nat \<times> nat) list"
  ps_malformed_total :: nat

definition malformed_lines :: "nat \<Rightarrow> jstr list \<Rightarrow> (nat \<times> nat) list \<times> nat" where
  "malformed_lines expected its =
     fold (\<lambda>(i, item) (malformed, tot).
         let fields = restockFieldCount item
         in if fields = expected then (malformed, tot)
            else (if length malformed < 50 then malformed @ [(i + 1, fields)] else malformed, tot + 1))
       (zip [0..<length its] its) ([], 0)"

definition summarizeRestockPreview :: "jstr list \<Rightarrow> restock_preview_batch list \<Rightarrow> restock_preview_summary" where
  "summarizeRestockPreview its batches =
     (let unique = length (uniq its);
          existing = sum_list (map pb_existing_in_stock batches);
          expected = (case batches of [] \<Rightarrow> None | b # _ \<Rightarrow> pb_expected_field_count b);
          (malformed, malformedTotal) =
            (case expected of
               Some n \<Rightarrow> if 1 < n then malformed_lines n its else ([], 0)
             | None \<Rightarrow> ([], 0))
      in \<lparr>ps_total_lines = length its,
          ps_duplicate_in_file = int (length its) - int unique,
          ps_existing_in_stock = existing, ps_to_add = int unique - existing,
          ps_expected_field_count = expected, ps_malformed = malformed,
          ps_malformed_total = malformedTotal\<rparr>)"

lemma foldl_on_batch:
  "foldl (on_batch n) (t, d, reps) rs =
     (foldl add_counters t (map snd rs), d + length (concat (map fst rs)),
      reps @ snd (snd (foldl (on_batch n) (t, d, []) rs)))"
proof (induction rs arbitrary: t d reps)
  case (Cons r rs)
  obtain b c where r: "r = (b, c)" by (cases r)
  let ?t = "add_counters t c" and ?rep = "\<lparr>pr_done = d + length b, pr_total = n, pr_added = rc_count (add_counters t c)\<rparr>"
  have step: "on_batch n (t, d, x) (b, c) = (?t, d + length b, x @ [?rep])" for x
    by (simp add: on_batch_def Let_def r)
  show ?case
    using Cons.IH [of ?t "d + length b" "reps @ [?rep]"] Cons.IH [of ?t "d + length b" "[?rep]"]
    by (simp add: step r)
qed simp

text \<open>Every report names the lines sent so far, never more than there are.\<close>

lemma reports_bounds:
  "d + length (concat (map fst rs)) \<le> n \<Longrightarrow>
     p \<in> set (snd (snd (foldl (on_batch n) (t, d, []) rs))) \<Longrightarrow>
     pr_total p = n \<and> d \<le> pr_done p \<and> pr_done p \<le> n"
proof (induction rs arbitrary: t d)
  case (Cons r rs)
  obtain b c where r: "r = (b, c)" by (cases r)
  let ?t = "add_counters t c" and ?rep = "\<lparr>pr_done = d + length b, pr_total = n, pr_added = rc_count (add_counters t c)\<rparr>"
  have "foldl (on_batch n) (t, d, []) (r # rs) = foldl (on_batch n) (?t, d + length b, [?rep]) rs"
    by (simp add: on_batch_def Let_def r)
  then have "p = ?rep \<or> p \<in> set (snd (snd (foldl (on_batch n) (?t, d + length b, []) rs)))"
    using Cons.prems(2) foldl_on_batch [of n ?t "d + length b" "[?rep]" rs] by auto
  then show ?case
  proof
    assume "p = ?rep"
    with Cons.prems(1) show ?thesis by (simp add: r)
  next
    assume "p \<in> set (snd (snd (foldl (on_batch n) (?t, d + length b, []) rs)))"
    with Cons.IH [of "d + length b" ?t] Cons.prems(1) show ?thesis by (simp add: r)
  qed
qed simp

section \<open>Properties\<close>

text \<open>
  An upload is cut into batches that lose and reorder nothing.  Cutting always
  ends; the batches in order are the lines, none is empty, none has more lines than allowed, and
  a batch larger than the byte budget is a single line.
\<close>

theorem restock_chunks:
  "\<exists>bs. chunkRestockItems its maxBytes (Suc maxItems) = Some bs \<and> concat bs = its \<and>
     list_all (\<lambda>b. b \<noteq> [] \<and> restock_fits maxBytes (Suc maxItems) b) bs"
proof -
  obtain bs where "chunk_from (\<lambda>s. restockBatchEnd its s maxBytes (Suc maxItems)) its 0 = Some bs"
      "concat bs = its" "\<forall>b \<in> set bs. b \<noteq> [] \<and> restock_fits maxBytes (Suc maxItems) b"
    by (rule restock.chunks)
  then show ?thesis by (simp add: chunkRestockItems_def list_all_iff)
qed

text \<open>
  C13: whatever the server answers and whenever the upload is aborted, the lines of the
  accepted batches are, in order, the first lines of the upload; every batch was accepted by some
  call, is not empty and fits the budget; and a run that finishes has sent every line, exactly
  once.
\<close>

theorem restock_run_sound:
  "case runInRestockBatches send aborted its st of (results, fin, calls, st') \<Rightarrow>
     \<exists>k. run_inv send its k results \<and> (fin = Finished \<longrightarrow> concat (map fst results) = its)"
proof -
  have "run_inv send its 0 []" by (simp add: run_inv_def)
  from run_from_inv [OF this order_refl, of aborted 0 st]
  show ?thesis by (fastforce simp: runInRestockBatches_def run_inv_def)
qed

text \<open>A server that refuses the first call as too large and takes every later one.\<close>

definition sample_error :: send_error where
  "sample_error = \<lparr>errorCode = Some (js ''REQUEST_TOO_LARGE''), max_bytes = Some 6\<rparr>"

definition sample_send :: "nat \<Rightarrow> jstr list \<Rightarrow> restock_counters reply \<times> nat" where
  "sample_send call batch =
     (if call = 0 then Fails sample_error
      else Reply \<lparr>rc_count = int (length batch), rc_skipped_duplicate = 0, rc_skipped_existing = 0,
                  rc_skipped_market = 0\<rparr>, Suc call)"

lemma sample_cap: "requestTooLargeCap sample_error = Some 6"
  by (simp only: requestTooLargeCap_def sample_error_def send_error.simps option.simps js_eq_iff if_False
      simp_thms)

lemmas sample_run_simps = runInRestockBatches_def run_from.simps [of sample_send] restockBatchEnd_def
  batch_end_loop.simps jsonByteLength_def json_bytes.simps segment_def sample_send_def sample_cap
  shrink_budget_def RESTOCK_BATCH_BYTES_def RESTOCK_BATCH_MAX_ITEMS_def

lemma restock_run_sound_witness:
  "concat (map fst (fst (runInRestockBatches sample_send (\<lambda>_. False) [[97], [98], [99]] 0))) =
     [[97], [98], [99]]"
proof -
  have "fst (snd (runInRestockBatches sample_send (\<lambda>_. False) [[97], [98], [99]] 0)) = Finished"
    by (simp add: sample_run_simps)
  with restock_run_sound [where send = sample_send and aborted = "\<lambda>_. False" and its = "[[97], [98], [99]]" and st = 0]
  show ?thesis by (cases "runInRestockBatches sample_send (\<lambda>_. False) [[97], [98], [99]] 0") auto
qed

text \<open>
  The run always ends, and soon: it makes at most one call per line and
  twenty more, because a refused batch at least halves the byte budget and a single line that is
  refused is not sent again.
\<close>

theorem restock_run_calls:
  "fst (snd (snd (runInRestockBatches send aborted its st))) \<le> length its + 20"
  using run_from_calls [of 0 its send aborted 0 RESTOCK_BATCH_BYTES "[]" st]
  by (simp add: runInRestockBatches_def halvings_first_budget)

text \<open>
  The totals of a finished upload count every line once: lines repeated in the
  upload are skipped duplicates, and each batch's counters are added.  Every progress report is
  between zero and the number of distinct lines.
\<close>

theorem restock_totals:
  assumes "runInRestockBatches send aborted (uniq its) st = (results, Finished, calls, st')"
  shows "fst (runRestockBatches send aborted its st) =
           Inr (foldl add_counters
             \<lparr>rc_count = 0, rc_skipped_duplicate = int (length its) - int (card (set its)),
              rc_skipped_existing = 0, rc_skipped_market = 0\<rparr> (map snd results)) \<and>
         length (concat (map fst results)) = card (set its) \<and>
         list_all (\<lambda>p. pr_total p = card (set its) \<and> pr_done p \<le> card (set its))
           (fst (snd (runRestockBatches send aborted its st)))"
proof -
  let ?t = "\<lparr>rc_count = 0, rc_skipped_duplicate = int (length its) - int (card (set its)),
      rc_skipped_existing = 0, rc_skipped_market = 0\<rparr>"
  let ?p0 = "\<lparr>pr_done = 0, pr_total = card (set its), pr_added = 0\<rparr>"
  have all: "concat (map fst results) = uniq its"
    using restock_run_sound [where send = send and aborted = aborted and its = "uniq its" and st = st] assms by auto
  have run: "runRestockBatches send aborted its st =
      (Inr (foldl add_counters ?t (map snd results)),
       snd (snd (foldl (on_batch (card (set its))) (?t, 0, [?p0]) results)), st')"
    using assms foldl_on_batch [of "card (set its)" ?t 0 "[?p0]" results]
    by (simp add: runRestockBatches_def Let_def length_uniq_card case_prod_unfold)
  have "pr_total p = card (set its) \<and> pr_done p \<le> card (set its)"
    if "p \<in> set (snd (snd (foldl (on_batch (card (set its))) (?t, 0, []) results)))" for p
    using reports_bounds [of 0 results "card (set its)" p ?t] that all by (simp add: length_uniq_card)
  with run foldl_on_batch [of "card (set its)" ?t 0 "[?p0]" results] all show ?thesis
    by (auto simp: list_all_iff length_uniq_card)
qed

lemma restock_totals_witness:
  "fst (runRestockBatches sample_send (\<lambda>_. False) [[97], [98], [97]] 0) =
     Inr \<lparr>rc_count = 2, rc_skipped_duplicate = 1, rc_skipped_existing = 0, rc_skipped_market = 0\<rparr>"
proof -
  let ?c = "\<lparr>rc_count = 1, rc_skipped_duplicate = 0, rc_skipped_existing = 0, rc_skipped_market = 0\<rparr>"
  have "runInRestockBatches sample_send (\<lambda>_. False) (uniq [[97], [98], [97]]) 0 =
      ([([[97]], ?c), ([[98]], ?c)], Finished, 3, 3)"
    by (simp add: sample_run_simps uniq_def set_add_def)
  from restock_totals [OF this] show ?thesis by (simp add: add_counters_def)
qed

end
