(* ===== verification/Inventory_Stock.thy ===== *)
theory Inventory_Stock
  imports Restock_Batches Js_Number
begin

text \<open>
  What a seller may do with products and stock lines (features/seller-inventory/logic.ts), the gate
  that lets only the latest load win, the sources of an upload form (stock-sources.ts), and the
  upload of several groups that each become one stock batch (useInventory.ts).
\<close>

section \<open>Products and stock lines\<close>

datatype stock_label = LInStock | LLow | LOut | LManual | LNotManaged
datatype product_stock_state = SNotManaged | SUnlimited | SManual | SOut | SLow | SInStock

record product_like =
  pl_pricing_strategy :: "jstr option"
  pl_total_stock :: int
  pl_stock_unlimited :: bool
  pl_stock_state :: "stock_label option"
  pl_manual_variant_count :: "int option"

definition isInventoryManagedProduct :: "product_like \<Rightarrow> bool" where
  "isInventoryManagedProduct p \<longleftrightarrow>
     (case pl_pricing_strategy p of None \<Rightarrow> True | Some s \<Rightarrow> s = [] \<or> s = js ''fixed'')"

fun label_state :: "stock_label \<Rightarrow> product_stock_state" where
  "label_state LInStock = SInStock"
| "label_state LLow = SLow"
| "label_state LOut = SOut"
| "label_state LManual = SManual"
| "label_state LNotManaged = SNotManaged"

definition inventoryStockState :: "product_like \<Rightarrow> int \<Rightarrow> product_stock_state" where
  "inventoryStockState p lowStockThreshold =
     (if \<not> isInventoryManagedProduct p then SNotManaged
      else if pl_stock_unlimited p then SUnlimited
      else case pl_stock_state p of
        Some l \<Rightarrow> label_state l
      | None \<Rightarrow>
          if pl_total_stock p = 0
          then (if 0 < (case pl_manual_variant_count p of None \<Rightarrow> 0 | Some n \<Rightarrow> n) then SManual else SOut)
          else if pl_total_stock p \<le> lowStockThreshold then SLow else SInStock)"

definition isInstantDelivery :: "jstr option \<Rightarrow> bool" where
  "isInstantDelivery deliveryMode \<longleftrightarrow> deliveryMode = Some (js ''instant'')"

definition restockableVariants :: "('v \<Rightarrow> jstr option) \<Rightarrow> 'v list \<Rightarrow> 'v list" where
  "restockableVariants delivery_mode variants =
     filter (\<lambda>v. isInstantDelivery (delivery_mode v)) variants"

text \<open>A missing order id is \<open>None\<close>; the code also reads \<open>0\<close> as missing.\<close>

definition has_order :: "int option \<Rightarrow> bool" where
  "has_order orderId \<longleftrightarrow> (case orderId of None \<Rightarrow> False | Some n \<Rightarrow> n \<noteq> 0)"

definition canEditInventoryResource :: "jstr \<Rightarrow> int option \<Rightarrow> bool" where
  "canEditInventoryResource status orderId \<longleftrightarrow>
     \<not> has_order orderId \<and> (status = js ''available'' \<or> status = js ''error'')"

definition canRestockInventoryResource :: "jstr \<Rightarrow> int option \<Rightarrow> bool" where
  "canRestockInventoryResource status orderId \<longleftrightarrow> status = js ''error'' \<and> \<not> has_order orderId"

definition canArchiveInventoryResource :: "jstr \<Rightarrow> bool" where
  "canArchiveInventoryResource status \<longleftrightarrow> status = js ''error'' \<or> status = js ''available''"

definition isDefectiveReturnResource :: "jstr \<Rightarrow> int option \<Rightarrow> bool" where
  "isDefectiveReturnResource status orderId \<longleftrightarrow>
     status = js ''error'' \<and> (case orderId of None \<Rightarrow> False | Some n \<Rightarrow> 0 < n)"

definition nextSellerProductStatus :: "jstr \<Rightarrow> jstr option" where
  "nextSellerProductStatus status =
     (if status = js ''active'' then Some (js ''paused'')
      else if status = js ''paused'' \<or> status = js ''draft'' then Some (js ''active'')
      else None)"

section \<open>The latest load wins\<close>

record request_gate = sequence :: nat

definition gate_begin :: "request_gate \<Rightarrow> nat \<times> request_gate" where
  "gate_begin g = (let n = sequence g + 1 in (n, g\<lparr>sequence := n\<rparr>))"

definition isCurrent :: "request_gate \<Rightarrow> nat \<Rightarrow> bool" where
  "isCurrent g request \<longleftrightarrow> request = sequence g"

definition gate_invalidate :: "request_gate \<Rightarrow> request_gate" where
  "gate_invalidate g = g\<lparr>sequence := sequence g + 1\<rparr>"

text \<open>
  A page that uses the gate: loads begin, are invalidated, and answer in any order; an answer is
  shown only when its request is current.  The third component of the state lists the requests
  begun and the last one the page still waits for.
\<close>

datatype gate_event = Begin | Invalidate | Answer nat

record gate_page =
  gp_gate :: request_gate
  gp_awaited :: "nat option"
  gp_shown :: "nat list"

inductive gate_step :: "gate_page \<Rightarrow> gate_event \<Rightarrow> gate_page \<Rightarrow> bool" where
  step_begin: "gate_begin (gp_gate p) = (n, g) \<Longrightarrow>
     gate_step p Begin (p\<lparr>gp_gate := g, gp_awaited := Some n\<rparr>)"
| step_invalidate:
     "gate_step p Invalidate (p\<lparr>gp_gate := gate_invalidate (gp_gate p), gp_awaited := None\<rparr>)"
| step_show: "0 < n \<Longrightarrow> isCurrent (gp_gate p) n \<Longrightarrow>
     gate_step p (Answer n) (p\<lparr>gp_shown := gp_shown p @ [n]\<rparr>)"
| step_drop: "\<not> isCurrent (gp_gate p) n \<Longrightarrow> gate_step p (Answer n) p"

inductive_cases gate_beginE: "gate_step p Begin q"
inductive_cases gate_invalidateE: "gate_step p Invalidate q"
inductive_cases gate_answerE: "gate_step p (Answer n) q"

inductive gate_reachable :: "gate_page \<Rightarrow> bool" where
  gate_init: "gate_reachable \<lparr>gp_gate = \<lparr>sequence = 0\<rparr>, gp_awaited = None, gp_shown = []\<rparr>"
| gate_next: "gate_reachable p \<Longrightarrow> gate_step p e q \<Longrightarrow> gate_reachable q"

definition gate_inv :: "gate_page \<Rightarrow> bool" where
  "gate_inv p \<longleftrightarrow>
     (\<forall>n. gp_awaited p = Some n \<longrightarrow> n = sequence (gp_gate p) \<and> 0 < n) \<and>
     sorted (gp_shown p) \<and> (\<forall>n \<in> set (gp_shown p). 0 < n \<and> n \<le> sequence (gp_gate p))"

lemma gate_inv_step: "gate_step p e q \<Longrightarrow> gate_inv p \<Longrightarrow> gate_inv q"
  by (induction rule: gate_step.induct)
    (auto simp: gate_inv_def gate_begin_def gate_invalidate_def isCurrent_def Let_def sorted_append)

lemma gate_inv_reachable: "gate_reachable p \<Longrightarrow> gate_inv p"
proof (induction rule: gate_reachable.induct)
  case gate_init
  then show ?case by (simp add: gate_inv_def)
next
  case (gate_next p e q)
  then show ?case by (blast intro: gate_inv_step)
qed

section \<open>The sources of an upload form\<close>

datatype source_kind = SourceFile | SourcePaste

record stock_source =
  src_id :: int
  src_kind :: source_kind
  src_name :: jstr
  src_size :: int
  src_header :: "jstr option"
  src_keepHeader :: bool
  src_items :: "jstr list"
  src_format :: "jstr option"

definition stockSourceFromText ::
    "(nat \<Rightarrow> bool) \<Rightarrow> (jstr \<Rightarrow> jstr) \<Rightarrow> int \<Rightarrow> source_kind \<Rightarrow> jstr \<Rightarrow> int \<Rightarrow> jstr \<Rightarrow> stock_source" where
  "stockSourceFromText letter casefold i kind name byteSize content =
     (let s = splitRestockSource letter casefold
                (if kind = SourceFile then parseRestockFileContent name content else content)
      in \<lparr>src_id = i, src_kind = kind, src_name = name, src_size = byteSize, src_header = header s,
          src_keepHeader = False, src_items = items s, src_format = None\<rparr>)"

text \<open>\<open>source.header && ...\<close>: a header that is missing or empty does not count.\<close>

definition header_lines :: "stock_source \<Rightarrow> jstr list" where
  "header_lines s = (case src_header s of None \<Rightarrow> [] | Some h \<Rightarrow> if h = [] then [] else [h])"

definition stockSourceLines :: "stock_source list \<Rightarrow> jstr list" where
  "stockSourceLines sources =
     foldl (\<lambda>lines s. lines @ (if src_keepHeader s then header_lines s else []) @ src_items s) [] sources"

definition stockSourceLineCount :: "stock_source \<Rightarrow> nat" where
  "stockSourceLineCount s =
     length (src_items s) + (if header_lines s \<noteq> [] \<and> src_keepHeader s then 1 else 0)"

definition removeStockSource :: "stock_source list \<Rightarrow> int \<Rightarrow> stock_source list" where
  "removeStockSource sources i = filter (\<lambda>s. src_id s \<noteq> i) sources"

definition setStockSourceFormat :: "stock_source list \<Rightarrow> int \<Rightarrow> jstr \<Rightarrow> stock_source list" where
  "setStockSourceFormat sources i format =
     map (\<lambda>s. if src_id s = i then s\<lparr>src_format := Some format\<rparr> else s) sources"

definition toggleStockSourceHeader :: "stock_source list \<Rightarrow> int \<Rightarrow> stock_source list" where
  "toggleStockSourceHeader sources i =
     map (\<lambda>s. if src_id s = i then s\<lparr>src_keepHeader := \<not> src_keepHeader s\<rparr> else s) sources"

fun dedupe_items :: "jstr list \<Rightarrow> jstr set \<Rightarrow> jstr list \<times> jstr set" where
  "dedupe_items [] seen = ([], seen)"
| "dedupe_items (x # xs) seen =
     (if x \<in> seen then dedupe_items xs seen
      else let (ys, seen') = dedupe_items xs (insert x seen) in (x # ys, seen'))"

fun dedupeStockSources :: "stock_source list \<Rightarrow> jstr set \<Rightarrow> stock_source list" where
  "dedupeStockSources [] seen = []"
| "dedupeStockSources (s # ss) seen =
     (let (its, seen') = dedupe_items (src_items s) seen
      in (if length its = length (src_items s) then s else s\<lparr>src_items := its\<rparr>) #
         dedupeStockSources ss seen')"

definition stockUploadLines :: "stock_source list \<Rightarrow> jstr \<Rightarrow> jstr list" where
  "stockUploadLines sources text = uniq (stockSourceLines sources @ parseResourceItems text False)"

definition allSourceLines :: "stock_source \<Rightarrow> jstr list" where
  "allSourceLines s = header_lines s @ src_items s"

record stock_format_group =
  fg_key :: jstr
  fg_name :: jstr
  fg_sourceId :: "int option"
  fg_split :: stock_format_split

definition group_split ::
    "(nat \<Rightarrow> bool) \<Rightarrow> (jstr \<Rightarrow> jstr) \<Rightarrow> bool \<Rightarrow> jstr list \<Rightarrow> jstr option \<Rightarrow> stock_format_split" where
  "group_split letter casefold hasFormat lines typedFormat =
     (if hasFormat then splitStockFormat lines typedFormat else unformattedStock letter casefold lines)"

definition stockFormatGroups ::
    "(nat \<Rightarrow> bool) \<Rightarrow> (jstr \<Rightarrow> jstr) \<Rightarrow> stock_source list \<Rightarrow> jstr \<Rightarrow> jstr \<Rightarrow> bool \<Rightarrow>
     stock_format_group list" where
  "stockFormatGroups letter casefold sources text typedName hasFormat =
     map (\<lambda>s. \<lparr>fg_key = js ''source-'' @ show_int (src_id s), fg_name = src_name s,
               fg_sourceId = Some (src_id s),
               fg_split = group_split letter casefold hasFormat (allSourceLines s) (src_format s)\<rparr>)
       (filter (\<lambda>s. allSourceLines s \<noteq> []) sources) @
     (let typed = parseResourceItems text False
      in if typed = [] then []
         else [\<lparr>fg_key = js ''typed'', fg_name = typedName, fg_sourceId = None,
                fg_split = group_split letter casefold hasFormat typed None\<rparr>])"

definition stockAppendLines :: "stock_source list \<Rightarrow> jstr \<Rightarrow> jstr \<Rightarrow> jstr list" where
  "stockAppendLines sources text format =
     concat (map (\<lambda>s. stripBatchHeader (allSourceLines s) format) sources) @
     stripBatchHeader (parseResourceItems text False) format"

definition stockUploadBatches ::
    "(nat \<Rightarrow> bool) \<Rightarrow> (jstr \<Rightarrow> jstr) \<Rightarrow> stock_source list \<Rightarrow> jstr \<Rightarrow> jstr \<Rightarrow> bool \<Rightarrow>
     stock_format_group list" where
  "stockUploadBatches letter casefold sources text typedName hasFormat =
     map (\<lambda>g. g\<lparr>fg_split := (fg_split g)\<lparr>sf_items := uniq (sf_items (fg_split g))\<rparr>\<rparr>)
       (stockFormatGroups letter casefold sources text typedName hasFormat)"

lemma dedupe_items_spec:
  "dedupe_items xs seen = (ys, seen') \<Longrightarrow>
     seen' = seen \<union> set xs \<and> set ys = set xs - seen \<and> distinct ys"
proof (induction xs arbitrary: seen ys)
  case (Cons x xs)
  show ?case
  proof (cases "x \<in> seen")
    case True
    with Cons.prems have "dedupe_items xs seen = (ys, seen')" by simp
    from Cons.IH [OF this] True show ?thesis by auto
  next
    case False
    obtain zs where z: "dedupe_items xs (insert x seen) = (zs, seen')" and "ys = x # zs"
      using Cons.prems False by (auto split: prod.splits)
    with Cons.IH [OF z] False show ?thesis by auto
  qed
qed auto

lemma dedupe_items_length:
  "dedupe_items xs seen = (ys, seen') \<Longrightarrow> length ys \<le> length xs \<and> (length ys = length xs \<longrightarrow> ys = xs)"
proof (induction xs arbitrary: seen ys)
  case (Cons x xs)
  show ?case
  proof (cases "x \<in> seen")
    case True
    with Cons.prems have "dedupe_items xs seen = (ys, seen')" by simp
    from Cons.IH [OF this] show ?thesis by auto
  next
    case False
    obtain zs where z: "dedupe_items xs (insert x seen) = (zs, seen')" and "ys = x # zs"
      using Cons.prems False by (auto split: prod.splits)
    with Cons.IH [OF z] show ?thesis by auto
  qed
qed auto

lemma dedupe_sources_spec:
  "distinct (concat (map src_items (dedupeStockSources ss seen))) \<and>
   set (concat (map src_items (dedupeStockSources ss seen))) =
     set (concat (map src_items ss)) - seen"
proof (induction ss arbitrary: seen)
  case (Cons s ss)
  obtain its seen' where d: "dedupe_items (src_items s) seen = (its, seen')" by fastforce
  have "map src_items (dedupeStockSources (s # ss) seen) = its # map src_items (dedupeStockSources ss seen')"
    using d dedupe_items_length [OF d] by auto
  with Cons.IH [of seen'] dedupe_items_spec [OF d] show ?case by auto
qed simp

section \<open>Uploading groups as stock batches\<close>

datatype upload_target = NewBatch "jstr option" "jstr option" | ToBatch int

record upload_group =
  ug_items :: "jstr list"
  ug_target :: upload_target

record add_result =
  ar_counters :: restock_counters
  ar_batch_id :: "int option"

text \<open>
  The state around one group: the outside world, the batch id the closure remembers, and the
  requests sent so far with the batch id of their answer (the last is only there for the proofs).
\<close>

record 'w group_state =
  gs_world :: 'w
  gs_batchId :: "int option"
  gs_sent :: "(upload_target \<times> int option) list"

definition request_target :: "upload_target \<Rightarrow> int option \<Rightarrow> upload_target" where
  "request_target target batchId = (case batchId of Some b \<Rightarrow> ToBatch b | None \<Rightarrow> target)"

definition send_group ::
    "('w \<Rightarrow> jstr list \<Rightarrow> upload_target \<Rightarrow> add_result reply \<times> 'w) \<Rightarrow> upload_target \<Rightarrow>
     'w group_state \<Rightarrow> jstr list \<Rightarrow> restock_counters reply \<times> 'w group_state" where
  "send_group add target st batch =
     (let t = request_target target (gs_batchId st)
      in case add (gs_world st) batch t of
           (Reply r, w) \<Rightarrow>
             let b = (case ar_batch_id r of Some i \<Rightarrow> if i = 0 then None else Some i | None \<Rightarrow> None)
             in (Reply (ar_counters r),
                 \<lparr>gs_world = w, gs_batchId = (if b \<noteq> None then b else gs_batchId st),
                  gs_sent = gs_sent st @ [(t, b)]\<rparr>)
         | (Fails e, w) \<Rightarrow> (Fails e, st\<lparr>gs_world := w, gs_sent := gs_sent st @ [(t, None)]\<rparr>))"

definition group_start :: "upload_target \<Rightarrow> 'w \<Rightarrow> 'w group_state" where
  "group_start target w =
     \<lparr>gs_world = w, gs_batchId = (case target of ToBatch b \<Rightarrow> Some b | NewBatch _ _ \<Rightarrow> None), gs_sent = []\<rparr>"

datatype upload_error = LineTooLong nat | RunFailed run_end

fun upload_groups ::
    "('w \<Rightarrow> jstr list \<Rightarrow> upload_target \<Rightarrow> add_result reply \<times> 'w) \<Rightarrow> ('w \<Rightarrow> bool) \<Rightarrow> nat \<Rightarrow>
     upload_group list \<Rightarrow> 'w \<Rightarrow> restock_counters \<Rightarrow> nat \<Rightarrow> restock_progress list \<Rightarrow>
     (upload_error + restock_counters) \<times> restock_progress list" where
  "upload_groups add aborted tot [] w totals doneBefore reports = (Inr totals, reports)"
| "upload_groups add aborted tot (g # gs) w totals doneBefore reports =
     (let (result, progress, st) =
            runRestockBatches (send_group add (ug_target g)) (\<lambda>s. aborted (gs_world s)) (ug_items g)
              (group_start (ug_target g) w);
          reports' = reports @ map (\<lambda>p. \<lparr>pr_done = doneBefore + pr_done p, pr_total = tot,
                                         pr_added = rc_count totals + pr_added p\<rparr>) progress
      in case result of
           Inl e \<Rightarrow> (Inl (RunFailed e), reports')
         | Inr r \<Rightarrow> upload_groups add aborted tot gs (gs_world st) (add_counters totals r)
                     (doneBefore + length (uniq (ug_items g))) reports')"

definition addResourcesInBatches ::
    "('w \<Rightarrow> jstr list \<Rightarrow> upload_target \<Rightarrow> add_result reply \<times> 'w) \<Rightarrow> ('w \<Rightarrow> bool) \<Rightarrow>
     upload_group list \<Rightarrow> 'w \<Rightarrow> (upload_error + restock_counters) \<times> restock_progress list" where
  "addResourcesInBatches add aborted groups w =
     (let tooLong = tooLongRestockLines (concat (map ug_items groups)) RESOURCE_LINE_MAX_LENGTH
      in case tooLong of
           l # _ \<Rightarrow> (Inl (LineTooLong l), [])
         | [] \<Rightarrow>
             let tot = sum_list (map (\<lambda>g. length (uniq (ug_items g))) groups)
             in upload_groups add aborted tot groups w
                  \<lparr>rc_count = 0, rc_skipped_duplicate = 0, rc_skipped_existing = 0, rc_skipped_market = 0\<rparr>
                  0 [\<lparr>pr_done = 0, pr_total = tot, pr_added = 0\<rparr>])"

text \<open>A run keeps every invariant of its state that a call keeps.\<close>

lemma run_from_state:
  assumes "\<And>s b. I s \<Longrightarrow> I (snd (send s b))" "I st"
  shows "I (snd (snd (snd (run_from send aborted its call start budget results st))))"
  using assms(2)
proof (induction s \<equiv> send a \<equiv> aborted l \<equiv> its call start budget results st rule: run_from.induct)
  case (1 call start budget results st)
  show ?case
  proof (cases "start < length its \<and> \<not> aborted st")
    case False
    with "1.prems" show ?thesis by (cases "start < length its") (simp_all add: run_from_stop)
  next
    case True
    then have s: "start < length its" and na: "\<not> aborted st" by simp_all
    obtain x st' where x: "send st (next_batch its start budget) = (x, st')" by fastforce
    have I': "I st'" using assms(1) [OF "1.prems", of "next_batch its start budget"] x by simp
    show ?thesis
    proof (cases x)
      case (Reply r)
      with "1.hyps"(1) [OF s na refl refl] x I' show ?thesis
        by (simp add: next_batch_def run_from_accept [where send = send and aborted = aborted and
              st = st and its = its and budget = budget and start = start, OF s na x [unfolded Reply]])
    next
      case (Fails err)
      with "1.hyps"(2) [OF s na refl refl] x I' show ?thesis
        by (auto simp: next_batch_def split: option.splits
            simp: run_from_fail [where send = send and aborted = aborted and
              st = st and its = its and budget = budget and start = start, OF s na x [unfolded Fails]])
    qed
  qed
qed

lemma runRestockBatches_state:
  assumes "\<And>s b. I s \<Longrightarrow> I (snd (send s b))" "I st"
  shows "I (snd (snd (runRestockBatches send aborted its st)))"
  using run_from_state [where I = I and send = send and aborted = aborted and its = "uniq its" and
      call = 0 and start = 0 and budget = RESTOCK_BATCH_BYTES and results = "[]", OF assms]
  by (simp add: runRestockBatches_def runInRestockBatches_def Let_def case_prod_unfold)

text \<open>The requests of a group follow the batch id that the answers named last.\<close>

fun follows :: "upload_target \<Rightarrow> int option \<Rightarrow> (upload_target \<times> int option) list \<Rightarrow> bool" where
  "follows target cur [] = True"
| "follows target cur ((t, b) # rest) \<longleftrightarrow>
     t = request_target target cur \<and> follows target (if b \<noteq> None then b else cur) rest"

definition last_named :: "int option \<Rightarrow> (upload_target \<times> int option) list \<Rightarrow> int option" where
  "last_named cur sent = foldl (\<lambda>c (t, b). if b \<noteq> None then b else c) cur sent"

definition group_inv :: "upload_target \<Rightarrow> int option \<Rightarrow> 'w group_state \<Rightarrow> bool" where
  "group_inv target cur st \<longleftrightarrow>
     follows target cur (gs_sent st) \<and> gs_batchId st = last_named cur (gs_sent st)"

lemma last_named_snoc: "last_named cur (xs @ [(t, b)]) = (if b \<noteq> None then b else last_named cur xs)"
  by (simp add: last_named_def)

lemma last_named_Cons: "last_named cur ((t, b) # xs) = last_named (if b \<noteq> None then b else cur) xs"
  by (simp add: last_named_def)

lemma follows_append:
  "follows target cur (xs @ [(t, b)]) \<longleftrightarrow>
     follows target cur xs \<and> t = request_target target (last_named cur xs)"
proof (induction xs arbitrary: cur)
  case Nil
  then show ?case by (simp add: last_named_def)
next
  case (Cons x xs)
  obtain u c where x: "x = (u, c)" by (cases x)
  show ?case
    unfolding x append_Cons follows.simps last_named_Cons Cons.IH by blast
qed

lemma group_inv_send:
  assumes "group_inv target cur st"
  shows "group_inv target cur (snd (send_group add target st batch))"
proof -
  define t where "t = request_target target (gs_batchId st)"
  obtain x w where x: "add (gs_world st) batch t = (x, w)" by fastforce
  have fol: "follows target cur (gs_sent st @ [(t, b)])" for b
    using assms by (simp add: group_inv_def follows_append t_def)
  have last: "gs_batchId st = last_named cur (gs_sent st)" using assms by (simp add: group_inv_def)
  show ?thesis
  proof (cases x)
    case (Reply r)
    define b where "b = (case ar_batch_id r of Some i \<Rightarrow> if i = 0 then None else Some i | None \<Rightarrow> None)"
    have "snd (send_group add target st batch) =
        \<lparr>gs_world = w, gs_batchId = (if b \<noteq> None then b else gs_batchId st), gs_sent = gs_sent st @ [(t, b)]\<rparr>"
      using x Reply by (simp add: send_group_def Let_def flip: t_def b_def)
    then show ?thesis using fol [of b] last by (simp add: group_inv_def last_named_snoc)
  next
    case (Fails e)
    have "snd (send_group add target st batch) = st\<lparr>gs_world := w, gs_sent := gs_sent st @ [(t, None)]\<rparr>"
      using x Fails by (simp add: send_group_def Let_def flip: t_def)
    then show ?thesis using fol [of None] last by (simp add: group_inv_def last_named_snoc)
  qed
qed

definition creations :: "(upload_target \<times> int option) list \<Rightarrow> (upload_target \<times> int option) list" where
  "creations sent = filter (\<lambda>(t, b). (case t of NewBatch _ _ \<Rightarrow> True | ToBatch _ \<Rightarrow> False) \<and> b \<noteq> None) sent"

lemma follows_named_no_creation: "follows target (Some i) sent \<Longrightarrow> creations sent = []"
  by (induction sent arbitrary: i) (auto simp: creations_def request_target_def split: if_splits)

lemma follows_one_creation: "follows target cur sent \<Longrightarrow> length (creations sent) \<le> 1"
proof (induction sent arbitrary: cur)
  case (Cons x sent)
  obtain t b where x: "x = (t, b)" by (cases x)
  show ?case
  proof (cases b)
    case None
    with Cons x show ?thesis by (auto simp: creations_def)
  next
    case (Some i)
    with Cons.prems x have "follows target (Some i) sent" by simp
    from follows_named_no_creation [OF this] x show ?thesis by (simp add: creations_def)
  qed
qed (simp add: creations_def)

section \<open>Properties\<close>

text \<open>
  Whatever the order of loads, invalidations and answers, the page shows answers in the
  order in which their loads began, and a page that awaits a load awaits the newest one: an answer
  of an older load is never shown after a newer one's.
\<close>

theorem latest_load_wins:
  assumes "gate_reachable p"
  shows "sorted (gp_shown p) \<and> (case gp_awaited p of None \<Rightarrow> True | Some n \<Rightarrow> isCurrent (gp_gate p) n)"
  using gate_inv_reachable [OF assms] by (auto simp: gate_inv_def isCurrent_def split: option.splits)

lemma latest_load_wins_witness:
  "isCurrent (snd (gate_begin (snd (gate_begin \<lparr>sequence = 0\<rparr>)))) 2"
proof -
  let ?p0 = "\<lparr>gp_gate = \<lparr>sequence = 0\<rparr>, gp_awaited = None, gp_shown = []\<rparr>"
  let ?p1 = "?p0\<lparr>gp_gate := \<lparr>sequence = 1\<rparr>, gp_awaited := Some 1\<rparr>"
  let ?p2 = "?p1\<lparr>gp_gate := \<lparr>sequence = 2\<rparr>, gp_awaited := Some 2\<rparr>"
  have "gate_step ?p0 Begin ?p1" "gate_step ?p1 Begin ?p2"
    using step_begin [of ?p0 1 "\<lparr>sequence = 1\<rparr>"] step_begin [of ?p1 2 "\<lparr>sequence = 2\<rparr>"]
    by (simp_all add: gate_begin_def)
  then have "gate_reachable ?p2" using gate_init gate_next by blast
  from latest_load_wins [OF this] show ?thesis by (simp add: gate_begin_def isCurrent_def)
qed

text \<open>
  An upload creates at most one stock batch per group.  Whatever the server
  answers, in whatever sizes the group's requests are cut and however they fail, at most one
  request that asked for a new batch was answered with one; every request after it names the batch
  of the latest answer.
\<close>

theorem one_batch_per_group:
  "follows target (gs_batchId (group_start target w))
     (gs_sent (snd (snd (runRestockBatches (send_group add target) aborted its (group_start target w))))) \<and>
   length (creations
     (gs_sent (snd (snd (runRestockBatches (send_group add target) aborted its (group_start target w)))))) \<le> 1"
proof -
  let ?cur = "gs_batchId (group_start target w)"
  have "group_inv target ?cur (group_start target w)"
    by (simp add: group_inv_def group_start_def last_named_def)
  from runRestockBatches_state [where I = "group_inv target ?cur" and send = "send_group add target",
      OF group_inv_send this]
  have "follows target ?cur (gs_sent (snd (snd (runRestockBatches (send_group add target) aborted its
      (group_start target w)))))"
    by (simp add: group_inv_def)
  with follows_one_creation show ?thesis by blast
qed

text \<open>
  Dropping duplicates across the sources of an upload keeps every line once: no line
  is left twice in any source or in two sources, and exactly the lines not seen before remain.
\<close>

theorem dedupe_sources:
  "distinct (concat (map src_items (dedupeStockSources ss seen))) \<and>
   set (concat (map src_items (dedupeStockSources ss seen))) =
     set (concat (map src_items ss)) - seen"
  by (rule dedupe_sources_spec)

end
