(* ===== verification/Bff_Guards.thy ===== *)
theory Bff_Guards
  imports Prelude
begin

text \<open>
  State the frontend server keeps between requests: the throttle and the result cache of the public
  lookup tools (lib/lookup-guard.ts).  Times are milliseconds; \<open>now\<close> is an argument of every operation.
\<close>

section \<open>The lookup throttle\<close>

record throttle_options =
  perClientLimit :: nat
  globalLimit :: nat
  windowMs :: int

text \<open>\<open>windowStart\<close> is \<open>-Infinity\<close> before the first call, here \<^const>\<open>None\<close>.\<close>

record throttle =
  windowStart :: "int option"
  started :: nat
  perClient :: "(jstr \<times> nat) list"

definition createLookupThrottle :: throttle where
  "createLookupThrottle = \<lparr>windowStart = None, started = 0, perClient = []\<rparr>"

definition roll_window :: "throttle_options \<Rightarrow> int \<Rightarrow> throttle \<Rightarrow> throttle" where
  "roll_window opts now t =
     (case windowStart t of
        Some w \<Rightarrow> if windowMs opts \<le> now - w
                  then \<lparr>windowStart = Some now, started = 0, perClient = []\<rparr> else t
      | None \<Rightarrow> \<lparr>windowStart = Some now, started = 0, perClient = []\<rparr>)"

definition client_of :: "jstr option \<Rightarrow> jstr option" where
  "client_of clientKey = (case clientKey of None \<Rightarrow> None | Some k \<Rightarrow> if k = [] then None else Some k)"

definition count_of :: "(jstr \<times> nat) list \<Rightarrow> jstr \<Rightarrow> nat" where
  "count_of m k = (case map_of m k of None \<Rightarrow> 0 | Some n \<Rightarrow> n)"

definition allow :: "throttle_options \<Rightarrow> int \<Rightarrow> jstr option \<Rightarrow> throttle \<Rightarrow> bool \<times> throttle" where
  "allow opts now clientKey t0 =
     (let t = roll_window opts now t0
      in if globalLimit opts \<le> started t then (False, t)
         else case client_of clientKey of
           None \<Rightarrow> (True, t\<lparr>started := started t + 1\<rparr>)
         | Some k \<Rightarrow>
             if perClientLimit opts \<le> count_of (perClient t) k then (False, t)
             else (True, t\<lparr>perClient := AList.update k (count_of (perClient t) k + 1) (perClient t),
                           started := started t + 1\<rparr>))"

text \<open>A run of calls: for every allowed call, the start of its window and its client.\<close>

fun throttle_run ::
    "throttle_options \<Rightarrow> throttle \<Rightarrow> (int \<times> jstr option) list \<Rightarrow> (int option \<times> jstr option) list" where
  "throttle_run opts t [] = []"
| "throttle_run opts t ((now, client) # calls) =
     (let (ok, t') = allow opts now client t
      in (if ok then [(windowStart t', client_of client)] else []) @ throttle_run opts t' calls)"

definition throttle_wf :: "throttle_options \<Rightarrow> throttle \<Rightarrow> bool" where
  "throttle_wf opts t \<longleftrightarrow>
     wf_map (perClient t) \<and> started t \<le> globalLimit opts \<and>
     sum_list (map snd (perClient t)) \<le> started t \<and>
     (\<forall>p \<in> set (perClient t). 0 < snd p \<and> snd p \<le> perClientLimit opts)"

lemma sum_update:
  "wf_map m \<Longrightarrow> sum_list (map snd (AList.update k (count_of m k + 1) m)) = sum_list (map snd m) + 1"
proof (induction m)
  case (Cons p m)
  have "wf_map m" using Cons.prems by (rule wf_map_tl)
  with Cons show ?case
    by (cases p) (auto simp: count_of_def)
qed (simp add: count_of_def)

lemma throttle_wf_roll: "throttle_wf opts t \<Longrightarrow> throttle_wf opts (roll_window opts now t)"
  by (auto simp: throttle_wf_def roll_window_def split: option.splits)

lemma throttle_wf_allow [wf_intro]:
  assumes "throttle_wf opts t0" shows "throttle_wf opts (snd (allow opts now client t0))"
proof -
  define t where "t = roll_window opts now t0"
  have wf: "throttle_wf opts t" unfolding t_def by (rule throttle_wf_roll [OF assms])
  show ?thesis
  proof (cases "globalLimit opts \<le> started t")
    case True
    with wf show ?thesis by (simp add: allow_def Let_def flip: t_def)
  next
    case ng: False
    show ?thesis
    proof (cases "client_of client")
      case None
      with wf ng show ?thesis by (auto simp: allow_def Let_def throttle_wf_def simp flip: t_def)
    next
      case (Some k)
      show ?thesis
      proof (cases "perClientLimit opts \<le> count_of (perClient t) k")
        case True
        with wf ng Some show ?thesis by (simp add: allow_def Let_def flip: t_def)
      next
        case False
        have "snd (allow opts now client t0) =
            t\<lparr>perClient := AList.update k (count_of (perClient t) k + 1) (perClient t), started := started t + 1\<rparr>"
          using ng Some False by (simp add: allow_def Let_def flip: t_def)
        then show ?thesis
          using wf ng False sum_update [of "perClient t" k]
          by (auto simp: throttle_wf_def dest: set_update_subset)
      qed
    qed
  qed
qed

lemma throttle_wf_create: "throttle_wf opts createLookupThrottle"
  by (simp add: throttle_wf_def createLookupThrottle_def)

text \<open>Memory stays bounded: no more clients than lookups.\<close>

lemma length_le_sum: "\<forall>p \<in> set m. 0 < snd p \<Longrightarrow> length m \<le> sum_list (map snd m)" for m :: "('a \<times> nat) list"
  by (induction m) auto

lemma throttle_memory: "throttle_wf opts t \<Longrightarrow> length (perClient t) \<le> globalLimit opts"
  using length_le_sum [of "perClient t"] unfolding throttle_wf_def by force

text \<open>
  What the rest of a run can still add to the current window: the calls left over, in total and for
  one client.  Later windows start later, so they have other names.
\<close>

fun calls_from :: "int \<Rightarrow> (int \<times> jstr option) list \<Rightarrow> bool" where
  "calls_from since [] = True"
| "calls_from since ((now, _) # calls) \<longleftrightarrow> since \<le> now \<and> calls_from now calls"

definition in_window :: "int option \<Rightarrow> (int option \<times> jstr option) list \<Rightarrow> nat" where
  "in_window w xs = length (filter (\<lambda>p. fst p = w) xs)"

definition in_window_by :: "int option \<Rightarrow> jstr \<Rightarrow> (int option \<times> jstr option) list \<Rightarrow> nat" where
  "in_window_by w k xs = length (filter (\<lambda>p. p = (w, Some k)) xs)"

definition used :: "throttle \<Rightarrow> int option \<Rightarrow> nat" where
  "used t w = (if windowStart t = w then started t else 0)"

definition used_by :: "throttle \<Rightarrow> int option \<Rightarrow> jstr \<Rightarrow> nat" where
  "used_by t w k = (if windowStart t = w then count_of (perClient t) k else 0)"

lemma allow_window: "windowStart (snd (allow opts now client t)) = windowStart (roll_window opts now t)"
  by (auto simp: allow_def Let_def split: option.splits)

lemma allow_counts:
  assumes "allow opts now client t = (ok, t')"
  shows "started t' = started (roll_window opts now t) + (if ok then 1 else 0)"
    and "count_of (perClient t') k = count_of (perClient (roll_window opts now t)) k +
          (if ok \<and> client_of client = Some k then 1 else 0)"
    and "ok \<Longrightarrow> started t' \<le> globalLimit opts"
    and "ok \<Longrightarrow> client_of client = Some k \<Longrightarrow> count_of (perClient t') k \<le> perClientLimit opts"
  using assms
  by (auto simp: allow_def Let_def count_of_def update_conv' split: option.splits if_splits)

lemma roll_cases:
  obtains (same) "roll_window opts now t = t" "windowStart t \<noteq> None"
  | (fresh) "roll_window opts now t = \<lparr>windowStart = Some now, started = 0, perClient = []\<rparr>"
      "\<And>w. windowStart t = Some w \<Longrightarrow> windowMs opts \<le> now - w"
proof (cases "windowStart t")
  case None
  then show ?thesis using fresh by (simp add: roll_window_def)
next
  case (Some w)
  then show ?thesis
    using fresh same by (cases "windowMs opts \<le> now - w") (auto simp: roll_window_def)
qed

definition started_by :: "throttle \<Rightarrow> int \<Rightarrow> bool" where
  "started_by t since \<longleftrightarrow> (\<forall>s. windowStart t = Some s \<longrightarrow> s \<le> since)"

lemma started_by_allow:
  "started_by t since \<Longrightarrow> since \<le> now \<Longrightarrow> allow opts now client t = (ok, t') \<Longrightarrow> started_by t' now"
proof -
  assume *: "started_by t since" "since \<le> now" "allow opts now client t = (ok, t')"
  have "windowStart t' = windowStart (roll_window opts now t)"
    using allow_window [of opts now client t] *(3) by simp
  with *(1,2) show ?thesis
    by (cases rule: roll_cases [of opts now t]) (auto simp: started_by_def)
qed

lemma past_window:
  "calls_from since calls \<Longrightarrow> v < since \<Longrightarrow> windowStart t \<noteq> Some v \<Longrightarrow>
     p \<in> set (throttle_run opts t calls) \<Longrightarrow> fst p \<noteq> Some v"
proof (induction opts t calls arbitrary: since rule: throttle_run.induct)
  case (2 opts t now client calls)
  obtain ok t' where a: "allow opts now client t = (ok, t')" by fastforce
  have w: "windowStart t' = windowStart (roll_window opts now t)"
    using allow_window [of opts now client t] a by simp
  have t': "windowStart t' \<noteq> Some v"
    using 2(2-4) w by (cases rule: roll_cases [of opts now t]) auto
  have "p = (windowStart t', client_of client) \<or> p \<in> set (throttle_run opts t' calls)"
    using 2(5) a by (auto split: if_splits)
  with t' "2.IH" [OF a [symmetric] refl, of now] 2(2,3) show ?case by auto
qed simp

text \<open>The counts of a run, with what its first window already used.\<close>

lemma throttle_run_bounds:
  assumes "0 < windowMs opts" "throttle_wf opts t" "calls_from since calls" "started_by t since"
  shows "in_window (Some v) (throttle_run opts t calls) + used t (Some v) \<le> globalLimit opts \<and>
         in_window_by (Some v) k (throttle_run opts t calls) + used_by t (Some v) k \<le> perClientLimit opts"
  using assms
proof (induction opts t calls arbitrary: since rule: throttle_run.induct)
  case (1 opts t)
  have "count_of (perClient t) k \<le> perClientLimit opts"
    using 1(2) by (auto simp: count_of_def throttle_wf_def split: option.splits dest!: map_of_SomeD)
  with 1 show ?case
    by (simp add: in_window_def in_window_by_def used_def used_by_def throttle_wf_def)
next
  case (2 opts t now client calls)
  obtain ok t' where a: "allow opts now client t = (ok, t')" by fastforce
  let ?run = "throttle_run opts t' calls"
  have frm: "since \<le> now" "calls_from now calls" using 2(4) by simp_all
  have wf: "throttle_wf opts t" by (rule 2(3))
  have wf': "throttle_wf opts t'" using throttle_wf_allow [OF wf, of now client] a by simp
  have sb: "started_by t' now" by (rule started_by_allow [OF 2(5) frm(1) a])
  have IH: "in_window (Some v) ?run + used t' (Some v) \<le> globalLimit opts \<and>
      in_window_by (Some v) k ?run + used_by t' (Some v) k \<le> perClientLimit opts"
    by (rule "2.IH" [OF a [symmetric] refl 2(2) wf' frm(2) sb])
  have ws: "windowStart t' = windowStart (roll_window opts now t)"
    using allow_window [of opts now client t] a by simp
  have run: "in_window (Some v) (throttle_run opts t ((now, client) # calls)) =
      (if ok \<and> windowStart t' = Some v then 1 else 0) + in_window (Some v) ?run"
    "in_window_by (Some v) k (throttle_run opts t ((now, client) # calls)) =
      (if ok \<and> windowStart t' = Some v \<and> client_of client = Some k then 1 else 0) +
      in_window_by (Some v) k ?run"
    using a by (simp_all add: in_window_def in_window_by_def)
  note counts = allow_counts(1) [OF a] allow_counts(2) [OF a, of k] allow_counts(3) [OF a] allow_counts(4) [OF a, of k]
  show ?case
  proof (cases rule: roll_cases [of opts now t])
    case same
    with IH counts ws run show ?thesis by (auto simp: used_def used_by_def split: if_splits)
  next
    case fresh
    show ?thesis
    proof (cases "windowStart t = Some v")
      case True
      then have v: "v < now" using fresh(2) 2(2) by fastforce
      then have t': "windowStart t' \<noteq> Some v" using ws fresh(1) by simp
      have none: "\<forall>p \<in> set ?run. fst p \<noteq> Some v" using past_window [OF frm(2) v t'] by blast
      have "filter (\<lambda>p. fst p = Some v) ?run = []" "filter (\<lambda>p. p = (Some v, Some k)) ?run = []"
        using none by (auto simp: filter_empty_conv)
      then have "in_window (Some v) ?run = 0" "in_window_by (Some v) k ?run = 0"
        by (simp_all add: in_window_def in_window_by_def)
      moreover have "count_of (perClient t) k \<le> perClientLimit opts" "started t \<le> globalLimit opts"
        using wf by (auto simp: count_of_def throttle_wf_def split: option.splits dest!: map_of_SomeD)
      ultimately show ?thesis using run t' by (simp add: used_def used_by_def)
    next
      case False
      have "started t' = (if ok then 1 else 0)" "count_of (perClient t') k =
          (if ok \<and> client_of client = Some k then 1 else 0)"
        using counts(1,2) fresh(1) by (simp_all add: count_of_def)
      with IH ws run False fresh(1) show ?thesis
        by (auto simp: used_def used_by_def split: if_splits)
    qed
  qed
qed

section \<open>The lookup result cache\<close>

record 'v ttl_entry =
  te_value :: 'v
  te_expiresAt :: int

record ttl_options =
  ttlMs :: int
  maxEntries :: nat

type_synonym 'v ttl_cache = "(jstr \<times> 'v ttl_entry) list"

definition ttl_get :: "int \<Rightarrow> jstr \<Rightarrow> 'v ttl_cache \<Rightarrow> 'v option \<times> 'v ttl_cache" where
  "ttl_get now key m =
     (case map_of m key of
        None \<Rightarrow> (None, m)
      | Some e \<Rightarrow>
          if te_expiresAt e \<le> now then (None, AList.delete key m) else (Some (te_value e), m))"

text \<open>\<open>while (entries.size >= maxEntries) { ... delete the oldest ... }\<close>, stopping when empty.\<close>

fun evict_oldest :: "nat \<Rightarrow> 'a list \<Rightarrow> 'a list" where
  "evict_oldest n [] = []"
| "evict_oldest n (x # xs) = (if n \<le> length (x # xs) then evict_oldest n xs else x # xs)"

definition ttl_set :: "ttl_options \<Rightarrow> int \<Rightarrow> jstr \<Rightarrow> 'v \<Rightarrow> 'v ttl_cache \<Rightarrow> 'v ttl_cache" where
  "ttl_set opts now key v m =
     AList.update key \<lparr>te_value = v, te_expiresAt = now + ttlMs opts\<rparr>
       (evict_oldest (maxEntries opts) (AList.delete key m))"

definition ttl_wf :: "ttl_options \<Rightarrow> 'v ttl_cache \<Rightarrow> bool" where
  "ttl_wf opts m \<longleftrightarrow> wf_map m \<and> length m \<le> max 1 (maxEntries opts)"

lemma evict_oldest_drop: "evict_oldest n xs = drop (length xs - (n - 1)) xs"
  by (induction xs) (auto simp: drop_Cons' Suc_diff_le)

lemma length_evict_oldest: "length (evict_oldest n xs) \<le> n - 1"
  by (simp add: evict_oldest_drop)

lemma ttl_wf_set [wf_intro]: "wf_map m \<Longrightarrow> ttl_wf opts (ttl_set opts now key v m)"
proof -
  assume wf: "wf_map m"
  let ?e = "evict_oldest (maxEntries opts) (AList.delete key m)"
  have "wf_map ?e" unfolding evict_oldest_drop by (intro wf_map_drop wf_map_delete wf)
  moreover have "length (AList.update key x ?e) \<le> max 1 (maxEntries opts)" for x
    using length_update_le [of key x ?e] length_evict_oldest [of "maxEntries opts" "AList.delete key m"]
    by linarith
  ultimately show ?thesis by (simp add: ttl_wf_def ttl_set_def)
qed

lemma ttl_wf_get [wf_intro]: "ttl_wf opts m \<Longrightarrow> ttl_wf opts (snd (ttl_get now key m))"
  using length_delete_le [of key m]
  by (auto simp: ttl_wf_def ttl_get_def split: option.splits)

lemma ttl_get_fresh:
  "map_of m key = Some e \<Longrightarrow> fst (ttl_get now key m) = (if te_expiresAt e \<le> now then None else Some (te_value e))"
  by (simp add: ttl_get_def)

lemma ttl_get_set_same:
  "fst (ttl_get later key (ttl_set opts now key v m)) =
     (if now + ttlMs opts \<le> later then None else Some v)"
  by (simp add: ttl_get_def ttl_set_def update_conv')

text \<open>A stored value that is read back was stored under that key and is not expired.\<close>

lemma ttl_get_set_other:
  assumes "key \<noteq> key'" "wf_map m" "fst (ttl_get later key' (ttl_set opts now key v m)) = Some x"
  shows "fst (ttl_get later key' m) = Some x"
proof -
  let ?d = "AList.delete key m"
  let ?e = "evict_oldest (maxEntries opts) ?d"
  have "map_of (ttl_set opts now key v m) key' = map_of ?e key'"
    using assms(1) by (simp add: ttl_set_def update_conv')
  moreover have "map_of ?e key' = None \<or> map_of ?e key' = map_of m key'"
  proof (cases "map_of ?e key'")
    case (Some e)
    then have "(key', e) \<in> set ?d"
      unfolding evict_oldest_drop by (meson in_set_dropD map_of_SomeD)
    moreover have "wf_map ?d" using assms(2) by simp
    ultimately have "map_of ?d key' = Some e" by (simp add: wf_map_def)
    then show ?thesis using Some assms(1) by (simp add: delete_conv')
  qed simp
  ultimately show ?thesis
    using assms(3) by (cases "map_of m key'") (auto simp: ttl_get_def split: if_splits)
qed

section \<open>The configured limits\<close>

definition LOOKUP_WINDOW_MS :: int where "LOOKUP_WINDOW_MS = 60000"
definition LOOKUP_PER_CLIENT_PER_WINDOW :: nat where "LOOKUP_PER_CLIENT_PER_WINDOW = 10"
definition LOOKUP_GLOBAL_PER_WINDOW :: nat where "LOOKUP_GLOBAL_PER_WINDOW = 120"
definition LOOKUP_RESULT_TTL_MS :: int where "LOOKUP_RESULT_TTL_MS = 10 * 60000"
definition LOOKUP_RESULT_CACHE_ENTRIES :: nat where "LOOKUP_RESULT_CACHE_ENTRIES = 2000"

section \<open>Properties\<close>



text \<open>Cache operations in the order they happen, and the last value stored under a key.\<close>

datatype 'v ttl_op = TtlGet int jstr | TtlSet int jstr 'v

fun ttl_step :: "ttl_options \<Rightarrow> 'v ttl_op \<Rightarrow> 'v ttl_cache \<Rightarrow> 'v ttl_cache" where
  "ttl_step opts (TtlGet now key) m = snd (ttl_get now key m)"
| "ttl_step opts (TtlSet now key v) m = ttl_set opts now key v m"

definition ttl_run :: "ttl_options \<Rightarrow> 'v ttl_op list \<Rightarrow> 'v ttl_cache" where
  "ttl_run opts ops = List.fold (ttl_step opts) ops []"

fun last_set :: "jstr \<Rightarrow> 'v ttl_op list \<Rightarrow> (int \<times> 'v) option \<Rightarrow> (int \<times> 'v) option" where
  "last_set key [] r = r"
| "last_set key (TtlGet now k # ops) r = last_set key ops r"
| "last_set key (TtlSet now k v # ops) r = last_set key ops (if k = key then Some (now, v) else r)"

definition ttl_holds :: "ttl_options \<Rightarrow> (jstr \<Rightarrow> (int \<times> 'v) option) \<Rightarrow> 'v ttl_cache \<Rightarrow> bool" where
  "ttl_holds opts l m \<longleftrightarrow> ttl_wf opts m \<and>
     (\<forall>key e. (key, e) \<in> set m \<longrightarrow> l key = Some (te_expiresAt e - ttlMs opts, te_value e))"

lemma ttl_set_entry:
  assumes "(key', e) \<in> set (ttl_set opts now key v m)" "wf_map m"
  shows "key' = key \<and> e = \<lparr>te_value = v, te_expiresAt = now + ttlMs opts\<rparr> \<or> key' \<noteq> key \<and> (key', e) \<in> set m"
proof -
  let ?e = "evict_oldest (maxEntries opts) (AList.delete key m)"
  have sub: "set ?e \<subseteq> {p \<in> set m. fst p \<noteq> key}"
    unfolding evict_oldest_drop
    using set_drop_subset [of _ "AList.delete key m"] by (fastforce simp: AList.delete_eq)
  then have "key \<notin> fst ` set ?e" by auto
  then have "ttl_set opts now key v m = ?e @ [(key, \<lparr>te_value = v, te_expiresAt = now + ttlMs opts\<rparr>)]"
    unfolding ttl_set_def by (rule update_fresh)
  with assms(1) sub show ?thesis by auto
qed

lemma ttl_holds_step:
  assumes "ttl_holds opts l m"
  shows "ttl_holds opts (\<lambda>key. last_set key [op] (l key)) (ttl_step opts op m)"
proof (cases op)
  case (TtlGet now k)
  have "set (snd (ttl_get now k m)) \<subseteq> set m"
    by (auto simp: ttl_get_def AList.delete_eq split: option.splits)
  with assms TtlGet show ?thesis unfolding ttl_holds_def by (auto intro: ttl_wf_get)
next
  case (TtlSet now k v)
  have wf: "wf_map m" using assms by (simp add: ttl_holds_def ttl_wf_def)
  show ?thesis unfolding TtlSet ttl_holds_def
    using assms ttl_set_entry [OF _ wf] ttl_wf_set [OF wf]
    by (fastforce simp: ttl_holds_def)
qed

lemma last_set_append: "last_set key (ops @ ops') r = last_set key ops' (last_set key ops r)"
  by (induction key ops r rule: last_set.induct) simp_all

lemma ttl_holds_fold:
  "ttl_holds opts l m \<Longrightarrow> ttl_holds opts (\<lambda>key. last_set key ops (l key)) (List.fold (ttl_step opts) ops m)"
proof (induction ops arbitrary: l m)
  case (Cons op ops)
  from Cons.IH [OF ttl_holds_step [OF Cons.prems, of op]] show ?case
    using last_set_append [of _ "[op]" ops] by simp
qed simp

text \<open>
  C28: the result cache never serves a stale or a foreign answer.  After any operations, in any
  order of times, what a lookup returns is the last value stored under that very key and its time to
  live has not passed; the cache never holds more than \<open>maxEntries\<close> results (one, if that is zero).
\<close>

theorem ttl_cache_fresh:
  "length (ttl_run opts ops) \<le> max 1 (maxEntries opts) \<and>
   (case fst (ttl_get now key (ttl_run opts ops)) of
      None \<Rightarrow> True
    | Some v \<Rightarrow> (case last_set key ops None of None \<Rightarrow> False | Some (t, v') \<Rightarrow> v' = v \<and> now < t + ttlMs opts))"
proof -
  have "ttl_holds opts (\<lambda>_. None) []" by (simp add: ttl_holds_def ttl_wf_def)
  from ttl_holds_fold [OF this, of ops]
  have h: "ttl_holds opts (\<lambda>key. last_set key ops None) (ttl_run opts ops)" by (simp add: ttl_run_def)
  then have len: "length (ttl_run opts ops) \<le> max 1 (maxEntries opts)" by (simp add: ttl_holds_def ttl_wf_def)
  show ?thesis
  proof (cases "map_of (ttl_run opts ops) key")
    case None
    with len show ?thesis by (simp add: ttl_get_def)
  next
    case (Some e)
    then have "(key, e) \<in> set (ttl_run opts ops)" by (rule map_of_SomeD)
    then have "last_set key ops None = Some (te_expiresAt e - ttlMs opts, te_value e)"
      using h by (simp add: ttl_holds_def)
    with len Some show ?thesis by (simp add: ttl_get_def)
  qed
qed

end
