(* ===== verification/Web_Url.thy ===== *)
theory Web_Url
  imports Prelude
begin

text \<open>
  The parts of the web platform's URL functions that the code calls: \<open>decodeURIComponent\<close>,
  \<open>encodeURIComponent\<close> (ECMAScript) and the path, query and fragment of the WHATWG URL parser for
  the special schemes.  The parser's host handling (IDNA, IPv4 numbers) is left to a parameter of
  the definitions that need it.
\<close>

section \<open>UTF-8 and percent-encoding\<close>

definition utf8_bytes :: "nat \<Rightarrow> nat list" where
  "utf8_bytes cp =
     (if cp < 0x80 then [cp]
      else if cp < 0x800 then [0xC0 + cp div 0x40, 0x80 + cp mod 0x40]
      else if cp < 0x10000 then [0xE0 + cp div 0x1000, 0x80 + cp div 0x40 mod 0x40, 0x80 + cp mod 0x40]
      else [0xF0 + cp div 0x40000, 0x80 + cp div 0x1000 mod 0x40, 0x80 + cp div 0x40 mod 0x40, 0x80 + cp mod 0x40])"

definition upper_hex :: "nat \<Rightarrow> code_unit" where
  "upper_hex n = (if n < 10 then word_of_nat (48 + n) else word_of_nat (55 + n))"

definition percent_byte :: "nat \<Rightarrow> jstr" where
  "percent_byte b = [37, upper_hex (b div 16), upper_hex (b mod 16)]"

definition lone_surrogate :: "nat \<Rightarrow> bool" where
  "lone_surrogate cp \<longleftrightarrow> 0xD800 \<le> cp \<and> cp \<le> 0xDFFF"

text \<open>One code point of a URL component: kept, or as the escapes of its UTF-8 bytes.\<close>

definition percent_encode_point :: "(nat \<Rightarrow> bool) \<Rightarrow> nat \<Rightarrow> jstr" where
  "percent_encode_point keep cp =
     (if keep cp then [word_of_nat cp]
      else concat (map percent_byte (utf8_bytes (if lone_surrogate cp then 0xFFFD else cp))))"

definition percent_encode :: "(nat \<Rightarrow> bool) \<Rightarrow> jstr \<Rightarrow> jstr" where
  "percent_encode keep s = concat (map (percent_encode_point keep) (code_points s))"

definition unreserved :: "nat \<Rightarrow> bool" where
  "unreserved cp \<longleftrightarrow> 48 \<le> cp \<and> cp \<le> 57 \<or> 65 \<le> cp \<and> cp \<le> 90 \<or> 97 \<le> cp \<and> cp \<le> 122 \<or>
     cp \<in> {0x21, 0x27, 0x28, 0x29, 0x2A, 0x2D, 0x2E, 0x5F, 0x7E}"

text \<open>\<^const>\<open>None\<close> is the URIError of a lone surrogate.\<close>

definition encodeURIComponent :: "jstr \<Rightarrow> jstr option" where
  "encodeURIComponent s =
     (if list_ex lone_surrogate (code_points s) then None else Some (percent_encode unreserved s))"

definition hex_value :: "code_unit \<Rightarrow> nat option" where
  "hex_value c =
     (if 48 \<le> c \<and> c \<le> 57 then Some (unat c - 48)
      else if 65 \<le> c \<and> c \<le> 70 then Some (unat c - 55)
      else if 97 \<le> c \<and> c \<le> 102 then Some (unat c - 87)
      else None)"

fun percent_escape :: "jstr \<Rightarrow> (nat \<times> jstr) option" where
  "percent_escape (p # h # l # s) =
     (if p \<noteq> 37 then None
      else case (hex_value h, hex_value l) of (Some a, Some b) \<Rightarrow> Some (16 * a + b, s) | _ \<Rightarrow> None)"
| "percent_escape _ = None"

fun escapes :: "nat \<Rightarrow> jstr \<Rightarrow> (nat list \<times> jstr) option" where
  "escapes 0 s = Some ([], s)"
| "escapes (Suc n) s =
     (case percent_escape s of
        None \<Rightarrow> None
      | Some (b, s') \<Rightarrow>
          if b < 0x80 \<or> 0xBF < b then None
          else map_option (\<lambda>(bs, s''). (b # bs, s'')) (escapes n s'))"

text \<open>How many continuation bytes a first byte announces, and the code point of a valid sequence.\<close>

definition utf8_more :: "nat \<Rightarrow> nat option" where
  "utf8_more b =
     (if b < 0xC0 then None else if b < 0xE0 then Some 1 else if b < 0xF0 then Some 2
      else if b < 0xF8 then Some 3 else None)"

definition utf8_value :: "nat \<Rightarrow> nat list \<Rightarrow> nat option" where
  "utf8_value b bs =
     (let cp = foldl (\<lambda>v x. v * 0x40 + (x - 0x80))
                 (if b < 0xE0 then b - 0xC0 else if b < 0xF0 then b - 0xE0 else b - 0xF0) bs
      in if 0x10FFFF < cp \<or> lone_surrogate cp \<or> length (utf8_bytes cp) \<noteq> Suc (length bs) then None else Some cp)"

definition utf16_units :: "nat \<Rightarrow> jstr" where
  "utf16_units cp =
     (if cp < 0x10000 then [word_of_nat cp]
      else [word_of_nat (0xD800 + (cp - 0x10000) div 0x400), word_of_nat (0xDC00 + (cp - 0x10000) mod 0x400)])"

lemma percent_escape_shorter: "percent_escape s = Some (b, s') \<Longrightarrow> length s' < length s"
  by (induction s rule: percent_escape.induct) (auto split: if_splits option.splits)

lemma escapes_shorter: "escapes n s = Some (bs, s') \<Longrightarrow> length s' \<le> length s"
proof (induction n arbitrary: s bs)
  case (Suc n)
  from Suc.prems obtain b s1 bs' where "percent_escape s = Some (b, s1)" "escapes n s1 = Some (bs', s')"
    by (auto split: option.splits prod.splits if_splits)
  with Suc.IH [of s1 bs'] percent_escape_shorter [of s b s1] show ?case by linarith
qed simp

text \<open>\<^const>\<open>None\<close> is the URIError of a malformed escape.\<close>

function decodeURIComponent :: "jstr \<Rightarrow> jstr option" where
  "decodeURIComponent [] = Some []"
| "decodeURIComponent (c # s) =
     (if c \<noteq> 37 then map_option ((#) c) (decodeURIComponent s)
      else case percent_escape (c # s) of
        None \<Rightarrow> None
      | Some (b, s1) \<Rightarrow>
          if b < 0x80 then map_option ((#) (word_of_nat b)) (decodeURIComponent s1)
          else case utf8_more b of
            None \<Rightarrow> None
          | Some n \<Rightarrow>
              case escapes n s1 of
                None \<Rightarrow> None
              | Some (bs, s2) \<Rightarrow>
                  case utf8_value b bs of
                    None \<Rightarrow> None
                  | Some cp \<Rightarrow> map_option ((@) (utf16_units cp)) (decodeURIComponent s2))"
  by pat_completeness auto

termination
  by (relation "measure length") (auto dest!: percent_escape_shorter escapes_shorter)

lemma decodeURIComponent_plain: "37 \<notin> set s \<Longrightarrow> decodeURIComponent s = Some s"
  by (induction s) auto

section \<open>The path of a URL\<close>

definition path_keeps :: "nat \<Rightarrow> bool" where
  "path_keeps cp \<longleftrightarrow> 0x20 < cp \<and> cp < 0x7F \<and> cp \<notin> {0x22, 0x23, 0x3C, 0x3E, 0x3F, 0x5E, 0x60, 0x7B, 0x7D}"

definition query_keeps :: "nat \<Rightarrow> bool" where
  "query_keeps cp \<longleftrightarrow> 0x20 < cp \<and> cp < 0x7F \<and> cp \<notin> {0x22, 0x23, 0x27, 0x3C, 0x3E}"

definition fragment_keeps :: "nat \<Rightarrow> bool" where
  "fragment_keeps cp \<longleftrightarrow> 0x20 < cp \<and> cp < 0x7F \<and> cp \<notin> {0x22, 0x3C, 0x3E, 0x60}"

definition single_dot :: "jstr \<Rightarrow> bool" where
  "single_dot s \<longleftrightarrow> to_lower s \<in> {js ''.'', js ''%2e''}"

definition double_dot :: "jstr \<Rightarrow> bool" where
  "double_dot s \<longleftrightarrow> to_lower s \<in> {js ''..'', js ''.%2e'', js ''%2e.'', js ''%2e%2e''}"

definition dot_segment :: "jstr \<Rightarrow> bool" where
  "dot_segment s \<longleftrightarrow> single_dot s \<or> double_dot s"

fun path_walk :: "jstr list \<Rightarrow> jstr list \<Rightarrow> jstr list" where
  "path_walk before [] = before"
| "path_walk before [s] =
     (if double_dot s then butlast before @ [[]]
      else if single_dot s then before @ [[]]
      else before @ [percent_encode path_keeps s])"
| "path_walk before (s # s' # ss) =
     path_walk
       (if double_dot s then butlast before else if single_dot s then before
        else before @ [percent_encode path_keeps s])
       (s' # ss)"

definition path_text :: "jstr list \<Rightarrow> jstr" where
  "path_text segments = concat (map ((#) 47) segments)"

text \<open>The serialized path of a path text; its leading slash, if any, is not a segment.\<close>

definition path_segments :: "jstr \<Rightarrow> jstr list" where
  "path_segments p = split_on 47 (if p \<noteq> [] \<and> hd p = 47 then tl p else p)"

definition url_path :: "jstr \<Rightarrow> jstr" where
  "url_path p = path_text (path_walk [] (path_segments p))"

lemma path_walk_plain:
  "\<forall>s \<in> set ss. \<not> dot_segment s \<Longrightarrow> path_walk before ss = before @ map (percent_encode path_keeps) ss"
  by (induction before ss rule: path_walk.induct) (auto simp: dot_segment_def)

lemma code_points_small: "\<forall>c \<in> set s. c < 0x80 \<Longrightarrow> code_points s = map unat s"
proof (induction s)
  case (Cons c s)
  then have "\<not> high_surrogate c" by (auto simp: high_surrogate_def word_less_nat_alt word_le_nat_alt)
  with Cons show ?case by (cases s) simp_all
qed simp

lemma percent_encode_kept:
  assumes "\<forall>c \<in> set s. c < 0x80 \<and> keep (unat c)"
  shows "percent_encode keep s = s"
proof -
  have "code_points s = map unat s" using assms by (intro code_points_small) blast
  moreover have "concat (map (percent_encode_point keep) (map unat s)) = s"
    using assms by (induction s) (auto simp: percent_encode_point_def)
  ultimately show ?thesis by (simp add: percent_encode_def)
qed

text \<open>What encoding produces: the characters it keeps, and escapes.\<close>

lemma utf8_bytes_byte: "cp < 0x110000 \<Longrightarrow> b \<in> set (utf8_bytes cp) \<Longrightarrow> b < 0x100"
  by (auto simp: utf8_bytes_def split: if_splits)

lemma upper_hex_text: "n < 16 \<Longrightarrow> upper_hex n \<in> {48..57} \<union> {65..70}"
proof -
  assume "n < 16"
  moreover have "unat (word_of_nat m :: code_unit) = m" if "m < 100" for m
    using that by (simp add: unat_of_nat)
  ultimately show ?thesis by (auto simp: upper_hex_def word_le_nat_alt simp del: of_nat_add)
qed

definition url_char :: "(nat \<Rightarrow> bool) \<Rightarrow> jstr \<Rightarrow> code_unit \<Rightarrow> bool" where
  "url_char keep s c \<longleftrightarrow>
     c = 37 \<or> 48 \<le> c \<and> c \<le> 57 \<or> 65 \<le> c \<and> c \<le> 70 \<or> keep (unat c) \<and> c \<in> set s"

lemma code_points_unit:
  "cp \<in> set (code_points s) \<Longrightarrow> cp < 0x10000 \<Longrightarrow> \<exists>c \<in> set s. unat c = cp"
proof (induction s rule: code_points.induct)
  case (2 c s)
  then show ?case by (cases s) (auto split: if_splits)
qed simp

lemma code_points_range: "cp \<in> set (code_points s) \<Longrightarrow> cp < 0x110000"
proof (induction s rule: code_points.induct)
  case (2 c s)
  have u: "unat x < 0x10000" for x :: code_unit using unsigned_less [of x, where 'a = nat] by simp
  show ?case
  proof (cases s)
    case Nil
    with 2 u [of c] show ?thesis by simp
  next
    case (Cons d s')
    have "0x10000 + (unat c - 0xD800) * 0x400 + (unat d - 0xDC00) < 0x110000"
      if "high_surrogate c" "low_surrogate d"
    proof -
      have "unat c - 0xD800 \<le> 0x3FF" "unat d - 0xDC00 \<le> 0x3FF"
        using that unfolding high_surrogate_def low_surrogate_def word_le_nat_alt by simp_all linarith+
      then show ?thesis by linarith
    qed
    with 2 Cons u [of c] show ?thesis by (auto split: if_splits)
  qed
qed simp

lemma percent_encode_chars:
  assumes "c \<in> set (percent_encode keep s)" "\<And>cp. keep cp \<Longrightarrow> cp < 0x10000"
  shows "url_char keep s c"
proof -
  obtain cp where cp: "cp \<in> set (code_points s)" "c \<in> set (percent_encode_point keep cp)"
    using assms(1) by (auto simp: percent_encode_def)
  show ?thesis
  proof (cases "keep cp")
    case True
    with assms(2) have "cp < 0x10000" by simp
    then obtain d where d: "d \<in> set s" "unat d = cp" using code_points_unit [OF cp(1)] by blast
    with True cp(2) have "c = d" by (auto simp: percent_encode_point_def)
    with True d show ?thesis by (simp add: url_char_def)
  next
    case False
    let ?cp = "if lone_surrogate cp then 0xFFFD else cp"
    have "?cp < 0x110000" using code_points_range [OF cp(1)] by simp
    moreover from False cp(2) obtain b where b: "b \<in> set (utf8_bytes ?cp)" "c \<in> set (percent_byte b)"
      by (auto simp: percent_encode_point_def)
    ultimately have "b < 0x100" using utf8_bytes_byte by blast
    then have "b div 16 < 16" "b mod 16 < 16" by simp_all
    then have "upper_hex (b div 16) \<in> {48..57} \<union> {65..70}" "upper_hex (b mod 16) \<in> {48..57} \<union> {65..70}"
      using upper_hex_text by blast+
    with b(2) show ?thesis by (auto simp: percent_byte_def url_char_def)
  qed
qed

end
