(* ===== verification/Bff_Policy.thy ===== *)
theory Bff_Policy
  imports Web_Url Js_Number
begin

text \<open>
  The pure decisions of the frontend server: which address a proxied call goes to
  (lib/bff-upstream.ts, lib/server-api.ts), who may use the admin API (lib/admin-access.ts), what
  may be cached (lib/bff-cache.ts), the text a request is signed over (lib/bff-request-signing.ts)
  and the templated path of its logs (lib/bff-log.ts).
\<close>

datatype http_method = GET | HEAD | POST | PUT | PATCH | DELETE

fun method_name :: "http_method \<Rightarrow> string" where
  "method_name GET = ''GET''" | "method_name HEAD = ''HEAD''" | "method_name POST = ''POST''"
| "method_name PUT = ''PUT''" | "method_name PATCH = ''PATCH''" | "method_name DELETE = ''DELETE''"

fun unsafe_method :: "http_method \<Rightarrow> bool" where
  "unsafe_method POST = True" | "unsafe_method PUT = True" | "unsafe_method PATCH = True"
| "unsafe_method DELETE = True" | "unsafe_method GET = False" | "unsafe_method HEAD = False"

type_synonym http_headers = "(jstr \<times> jstr) list"

definition hget :: "http_headers \<Rightarrow> string \<Rightarrow> jstr option" where
  "hget h name = map_of h (js name)"

definition hset :: "string \<Rightarrow> jstr \<Rightarrow> http_headers \<Rightarrow> http_headers" where
  "hset name v h = AList.update (js name) v h"

section \<open>The upstream address\<close>

text \<open>An address as far as the proxy looks at it; the base address ends with a slash.\<close>

record web_url =
  url_origin :: jstr
  pathname :: jstr
  url_search :: jstr

definition is_blank :: "jstr \<Rightarrow> bool" where
  "is_blank s \<longleftrightarrow> js_trim s = []"

definition strip_slashes :: "jstr \<Rightarrow> jstr" where
  "strip_slashes s = rev (dropWhile (\<lambda>c. c = 47) (rev s))"

definition LOCAL_API_BASE :: jstr where "LOCAL_API_BASE = js ''http://localhost:8001''"

definition resolveServerApiBase :: "jstr option \<Rightarrow> jstr option \<Rightarrow> jstr" where
  "resolveServerApiBase builtApiUrl runtimeApiUrl =
     (let configured = List.find (\<lambda>v. case v of None \<Rightarrow> False | Some s \<Rightarrow> \<not> is_blank s) [builtApiUrl, runtimeApiUrl]
      in strip_slashes (case configured of Some (Some s) \<Rightarrow> js_trim s | _ \<Rightarrow> LOCAL_API_BASE))"

definition bad_segment :: "jstr \<Rightarrow> bool" where
  "bad_segment d \<longleftrightarrow> d = js ''.'' \<or> d = js ''..'' \<or> 47 \<in> set d \<or> 0x5C \<in> set d \<or> 0 \<in> set d \<or> 37 \<in> set d"

fun normalized_segments :: "jstr list \<Rightarrow> jstr list option" where
  "normalized_segments [] = Some []"
| "normalized_segments (segment # segments) =
     (case decodeURIComponent segment of
        None \<Rightarrow> None
      | Some d \<Rightarrow> if bad_segment d then None else map_option ((#) d) (normalized_segments segments))"

fun encode_segments :: "jstr list \<Rightarrow> jstr list option" where
  "encode_segments [] = Some []"
| "encode_segments (d # ds) =
     (case (encodeURIComponent d, encode_segments ds) of (Some e, Some es) \<Rightarrow> Some (e # es) | _ \<Rightarrow> None)"

text \<open>
  \<open>new URL(relative, base)\<close> for the characters \<open>encodeURIComponent\<close> leaves and slashes.  A relative
  text that begins with two slashes names a host, whose origin is \<open>host_origin\<close>'s answer
  (\<^const>\<open>None\<close> when the parser rejects it).
\<close>

definition resolve_url :: "(jstr \<Rightarrow> jstr option) \<Rightarrow> web_url \<Rightarrow> jstr \<Rightarrow> web_url option" where
  "resolve_url host_origin base relative =
     (if starts_with relative (js ''//'')
      then (let host = takeWhile (\<lambda>c. c \<noteq> 47) (dropWhile (\<lambda>c. c = 47) relative);
                path = dropWhile (\<lambda>c. c \<noteq> 47) (dropWhile (\<lambda>c. c = 47) relative)
            in map_option (\<lambda>origin. \<lparr>url_origin = origin, pathname = url_path path, url_search = []\<rparr>)
                 (host_origin host))
      else if starts_with relative (js ''/'')
      then Some \<lparr>url_origin = url_origin base, pathname = url_path relative, url_search = []\<rparr>
      else Some \<lparr>url_origin = url_origin base, pathname = url_path (pathname base @ relative), url_search = []\<rparr>)"

text \<open>\<open>UpstreamThrows\<close> is an exception of \<open>encodeURIComponent\<close> or of the URL parser.\<close>

datatype upstream_target = UpstreamRejected | UpstreamThrows | UpstreamTarget jstr web_url

definition buildUpstreamTarget ::
    "(jstr \<Rightarrow> jstr option) \<Rightarrow> jstr list \<Rightarrow> web_url \<Rightarrow> upstream_target" where
  "buildUpstreamTarget host_origin segments base =
     (case normalized_segments segments of
        None \<Rightarrow> UpstreamRejected
      | Some ds \<Rightarrow>
          if ds \<noteq> [] \<and> hd ds = js ''internal'' then UpstreamRejected
          else case encode_segments ds of
            None \<Rightarrow> UpstreamThrows
          | Some es \<Rightarrow>
              (case resolve_url host_origin base (join [47] es) of
                 None \<Rightarrow> UpstreamThrows
               | Some target \<Rightarrow>
                   if url_origin target \<noteq> url_origin base \<or> \<not> starts_with (pathname target) (pathname base)
                   then UpstreamRejected
                   else UpstreamTarget (join [47] ds) target))"

section \<open>The admin network gate\<close>

record admin_config =
  ADMIN_ALLOWED_IPS :: "jstr option"
  ADMIN_CLIENT_IP_HEADER :: "jstr option"

text \<open>\<open>net.isIP\<close>: 4, 6 or 0.\<close>

definition all_digits :: "jstr \<Rightarrow> bool" where
  "all_digits s \<longleftrightarrow> s \<noteq> [] \<and> list_all is_digit s"

definition small_number :: "jstr \<Rightarrow> nat" where
  "small_number s = foldl (\<lambda>v c. 10 * v + (unat c - 48)) 0 s"

definition v4_octet :: "jstr \<Rightarrow> bool" where
  "v4_octet s \<longleftrightarrow> all_digits s \<and> length s \<le> 3 \<and> (length s = 1 \<or> hd s \<noteq> 48) \<and> small_number s \<le> 255"

definition is_v4 :: "jstr \<Rightarrow> bool" where
  "is_v4 s \<longleftrightarrow> (let parts = split_on 46 s in length parts = 4 \<and> list_all v4_octet parts)"

definition v6_group :: "jstr \<Rightarrow> bool" where
  "v6_group s \<longleftrightarrow> s \<noteq> [] \<and> length s \<le> 4 \<and> list_all (\<lambda>c. hex_value c \<noteq> None) s"

text \<open>The number of 16-bit groups of a colon list, whose last part may be an IPv4 address if allowed.\<close>

definition v6_groups :: "bool \<Rightarrow> jstr \<Rightarrow> nat option" where
  "v6_groups v4_tail s =
     (if s = [] then Some 0
      else let parts = split_on 58 s in
        if list_all v6_group parts then Some (length parts)
        else if v4_tail \<and> list_all v6_group (butlast parts) \<and> is_v4 (last parts) then Some (length parts + 1)
        else None)"

fun split_compressed :: "jstr \<Rightarrow> (jstr \<times> jstr) option" where
  "split_compressed (c # d # s) =
     (if c = 58 \<and> d = 58 then Some ([], s)
      else map_option (\<lambda>(a, b). (c # a, b)) (split_compressed (d # s)))"
| "split_compressed _ = None"

definition zone_char :: "code_unit \<Rightarrow> bool" where
  "zone_char c \<longleftrightarrow> is_digit c \<or> 65 \<le> c \<and> c \<le> 90 \<or> 97 \<le> c \<and> c \<le> 122 \<or> c = 45 \<or> c = 46 \<or> c = 58"

definition is_v6 :: "jstr \<Rightarrow> bool" where
  "is_v6 s =
     (let address = takeWhile (\<lambda>c. c \<noteq> 37) s; zone = dropWhile (\<lambda>c. c \<noteq> 37) s
      in (zone = [] \<or> (1 < length zone \<and> list_all zone_char (tl zone))) \<and>
         (case split_compressed address of
            None \<Rightarrow> v6_groups True address = Some 8
          | Some (a, b) \<Rightarrow>
              (case (v6_groups False a, v6_groups True b) of (Some m, Some n) \<Rightarrow> m + n \<le> 7 | _ \<Rightarrow> False)))"

definition isIP :: "jstr \<Rightarrow> nat" where
  "isIP s = (if is_v4 s then 4 else if is_v6 s then 6 else 0)"

text \<open>
  \<open>v6_host\<close> stands for the host the URL parser makes of a bracketed IPv6 address (\<^const>\<open>None\<close> when
  it throws).
\<close>

definition strip_quotes :: "jstr \<Rightarrow> jstr" where
  "strip_quotes s =
     (let t = (if s \<noteq> [] \<and> hd s = 34 then tl s else s)
      in if t \<noteq> [] \<and> last t = 34 then butlast t else t)"

definition v4_with_port :: "jstr \<Rightarrow> bool" where
  "v4_with_port s =
     (let parts = split_on 58 s; quads = split_on 46 (hd parts)
      in length parts = 2 \<and> all_digits (last parts) \<and>
         length quads = 4 \<and> list_all (\<lambda>q. all_digits q \<and> length q \<le> 3) quads)"

definition before_last :: "code_unit \<Rightarrow> jstr \<Rightarrow> jstr" where
  "before_last c s = rev (drop 1 (dropWhile (\<lambda>x. x \<noteq> c) (rev s)))"

definition normalizeIp :: "(jstr \<Rightarrow> jstr option) \<Rightarrow> jstr option \<Rightarrow> jstr option" where
  "normalizeIp v6_host raw =
     (let c0 = (case raw of None \<Rightarrow> [] | Some r \<Rightarrow> strip_quotes (js_trim r))
      in if c0 = [] then None
         else let c1 = (if starts_with c0 (js ''['')
                        then (if 93 \<in> set c0 then takeWhile (\<lambda>x. x \<noteq> 93) (tl c0) else c0)
                        else if v4_with_port c0 then before_last 58 c0 else c0);
                  c2 = (if starts_with (to_lower c1) (js ''::ffff:'') \<and> isIP (drop 7 c1) = 4
                        then drop 7 c1 else c1);
                  version = isIP c2
              in if version = 6 then map_option to_lower (v6_host c2)
                 else if version = 4 then Some c2 else None)"

fun admin_addresses :: "(jstr \<Rightarrow> jstr option) \<Rightarrow> jstr list \<Rightarrow> jstr list \<Rightarrow> jstr list option" where
  "admin_addresses v6_host [] addresses = Some addresses"
| "admin_addresses v6_host (entry # entries) addresses =
     (if is_blank entry then admin_addresses v6_host entries addresses
      else case normalizeIp v6_host (Some entry) of
        None \<Rightarrow> None
      | Some address \<Rightarrow> admin_addresses v6_host entries (set_add addresses address))"

definition configuredAdminIps :: "(jstr \<Rightarrow> jstr option) \<Rightarrow> admin_config \<Rightarrow> jstr list option" where
  "configuredAdminIps v6_host config =
     (let raw = (case ADMIN_ALLOWED_IPS config of None \<Rightarrow> [] | Some s \<Rightarrow> js_trim s)
      in if raw = [] then Some [] else admin_addresses v6_host (split_on 44 raw) [])"

definition header_name_char :: "code_unit \<Rightarrow> bool" where
  "header_name_char c \<longleftrightarrow> is_digit c \<or> 97 \<le> c \<and> c \<le> 122 \<or> c = 45"

definition client_ip_header :: "admin_config \<Rightarrow> jstr" where
  "client_ip_header config =
     to_lower (case ADMIN_CLIENT_IP_HEADER config of
                 None \<Rightarrow> js ''x-real-ip'' | Some s \<Rightarrow> if s = [] then js ''x-real-ip'' else s)"

definition clientIpFromHeaders :: "(jstr \<Rightarrow> jstr option) \<Rightarrow> admin_config \<Rightarrow> http_headers \<Rightarrow> jstr option" where
  "clientIpFromHeaders v6_host config headers =
     (let headerName = client_ip_header config
      in if headerName = [] \<or> \<not> list_all header_name_char headerName then None
         else case map_of headers headerName of
           None \<Rightarrow> None
         | Some raw \<Rightarrow>
             if raw = [] then None
             else if headerName = js ''x-forwarded-for''
             then (let hops = filter (\<lambda>p. p \<noteq> []) (map js_trim (split_on 44 raw))
                   in normalizeIp v6_host (if hops = [] then None else Some (last hops)))
             else normalizeIp v6_host (Some (hd (split_on 44 raw))))"

definition adminRequestAllowed :: "(jstr \<Rightarrow> jstr option) \<Rightarrow> admin_config \<Rightarrow> http_headers \<Rightarrow> bool" where
  "adminRequestAllowed v6_host config headers =
     (case configuredAdminIps v6_host config of
        None \<Rightarrow> False
      | Some allowed \<Rightarrow>
          if allowed = [] then True
          else case clientIpFromHeaders v6_host config headers of
            None \<Rightarrow> False
          | Some ip \<Rightarrow> ip \<in> set allowed)"

definition isAdminPagePath :: "jstr \<Rightarrow> jstr list \<Rightarrow> bool" where
  "isAdminPagePath path locales =
     (let parts = filter (\<lambda>p. p \<noteq> []) (split_on 47 path)
      in (parts \<noteq> [] \<and> hd parts = js ''admin'') \<or>
         (parts \<noteq> [] \<and> hd parts \<in> set locales \<and> 1 < length parts \<and> parts ! 1 = js ''admin''))"

definition isAdminApiPath :: "jstr \<Rightarrow> bool" where
  "isAdminApiPath path \<longleftrightarrow>
     path = js ''auth/admin/login'' \<or> path = js ''admin'' \<or> starts_with path (js ''admin/'')"

section \<open>Cache policy\<close>

text \<open>A regular expression over a path, segment by segment.\<close>

datatype segment_pattern = Exactly string | Segment | Digits | OneOf "string list"

fun segment_matches :: "segment_pattern \<Rightarrow> jstr \<Rightarrow> bool" where
  "segment_matches (Exactly lit) s \<longleftrightarrow> s = js lit"
| "segment_matches Segment s \<longleftrightarrow> s \<noteq> []"
| "segment_matches Digits s \<longleftrightarrow> all_digits s"
| "segment_matches (OneOf lits) s \<longleftrightarrow> s \<in> set (map js lits)"

text \<open>\<open>^...$\<close> and \<open>^...(\/|$)\<close>\<close>

definition path_matches :: "segment_pattern list \<Rightarrow> jstr \<Rightarrow> bool" where
  "path_matches pats path \<longleftrightarrow> list_all2 segment_matches pats (split_on 47 path)"

definition path_under :: "segment_pattern list \<Rightarrow> jstr \<Rightarrow> bool" where
  "path_under pats path \<longleftrightarrow> list_all2 segment_matches pats (take (length pats) (split_on 47 path))"

definition PUBLIC_CACHE_SECONDS :: int where "PUBLIC_CACHE_SECONDS = 60"
definition PUBLIC_STALE_SECONDS :: int where "PUBLIC_STALE_SECONDS = 300"

definition PUBLIC_GET_PATHS :: "segment_pattern list list" where
  "PUBLIC_GET_PATHS =
     [[Exactly ''categories''],
      [Exactly ''products''],
      [Exactly ''products'', Exactly ''catalog-summary''],
      [Exactly ''products'', Segment],
      [Exactly ''products'', Segment, Exactly ''reviews''],
      [Exactly ''products'', Segment, Exactly ''pricing-options''],
      [Exactly ''sellers'', Exactly ''top''],
      [Exactly ''sellers'', Digits],
      [Exactly ''search''],
      [Exactly ''search'', Exactly ''suggest''],
      [Exactly ''money'', Exactly ''config''],
      [Exactly ''public'', Exactly ''site-pages''],
      [Exactly ''public'', Exactly ''site-pages'', Segment]]"

definition CATALOG_WRITE_PREFIXES :: "segment_pattern list list" where
  "CATALOG_WRITE_PREFIXES =
     [[Exactly ''seller'', Exactly ''products''],
      [Exactly ''seller'', Exactly ''variants''],
      [Exactly ''admin'', Exactly ''products''],
      [Exactly ''admin'', Exactly ''categories''],
      [Exactly ''admin'', Exactly ''seller-config''],
      [Exactly ''admin'', Exactly ''site-pages''],
      [Exactly ''admin'', Exactly ''posts'']]"

definition CATALOG_WRITE_EXACT :: "segment_pattern list list" where
  "CATALOG_WRITE_EXACT =
     [[Exactly ''admin'', Exactly ''sources'', Segment, OneOf [''transfer'', ''settings'']],
      [Exactly ''admin'', Exactly ''reviews'', Segment, Exactly ''visibility'']]"

definition CATALOG_READ_ONLY_POSTS :: "segment_pattern list list" where
  "CATALOG_READ_ONLY_POSTS =
     [[Exactly ''seller'', Exactly ''variants'', Segment, Exactly ''resources'', Exactly ''preview'']]"

definition public_policy :: jstr where
  "public_policy = js ''public, max-age=0, s-maxage=60, stale-while-revalidate=300''"

definition publicCacheControl :: "http_method \<Rightarrow> jstr \<Rightarrow> nat \<Rightarrow> bool \<Rightarrow> jstr option" where
  "publicCacheControl how path status authenticated =
     (if how \<noteq> GET \<or> authenticated then None
      else if status < 200 \<or> 300 \<le> status then None
      else if \<not> list_ex (\<lambda>pats. path_matches pats path) PUBLIC_GET_PATHS then None
      else Some public_policy)"

definition word_char :: "code_unit \<Rightarrow> bool" where
  "word_char c \<longleftrightarrow> is_digit c \<or> 65 \<le> c \<and> c \<le> 90 \<or> 97 \<le> c \<and> c \<le> 122 \<or> c = 95"

text \<open>\<open>/\bword\b/i.test(s)\<close>; the letters of the two words have no other case variants without \<open>u\<close>.\<close>

fun whole_word :: "bool \<Rightarrow> jstr \<Rightarrow> jstr \<Rightarrow> bool" where
  "whole_word inside w [] = False"
| "whole_word inside w (c # s) =
     ((\<not> inside \<and> prefix w (to_lower (c # s)) \<and>
       (let rest = drop (length w) (c # s) in rest = [] \<or> \<not> word_char (hd rest)))
      \<or> whole_word (word_char c) w s)"

definition first_word :: "jstr \<Rightarrow> jstr \<Rightarrow> bool" where
  "first_word w s \<longleftrightarrow> prefix w (to_lower s) \<and>
     (let rest = drop (length w) s in rest = [] \<or> \<not> word_char (hd rest))"

definition privateImageCacheControl :: "nat \<Rightarrow> jstr \<Rightarrow> jstr option \<Rightarrow> jstr option" where
  "privateImageCacheControl status contentType upstreamCacheControl =
     (let revalidated = (status = 304)
      in if \<not> revalidated \<and> (status < 200 \<or> 300 \<le> status) then None
         else if \<not> revalidated \<and> \<not> starts_with (to_lower contentType) (js ''image/'') then None
         else let header = (case upstreamCacheControl of None \<Rightarrow> [] | Some h \<Rightarrow> js_trim h)
              in if first_word (js ''private'') header \<and> \<not> whole_word False (js ''public'') header
                 then Some header else None)"

definition catalogWritePath :: "http_method \<Rightarrow> jstr \<Rightarrow> nat \<Rightarrow> bool" where
  "catalogWritePath how path status =
     (if \<not> unsafe_method how then False
      else if status < 200 \<or> 300 \<le> status then False
      else if list_ex (\<lambda>pats. path_matches pats path) CATALOG_READ_ONLY_POSTS then False
      else list_ex (\<lambda>pats. path_under pats path) CATALOG_WRITE_PREFIXES \<or>
           list_ex (\<lambda>pats. path_matches pats path) CATALOG_WRITE_EXACT)"

section \<open>The text a request is signed over\<close>

definition canonicalRequest :: "http_method \<Rightarrow> web_url \<Rightarrow> jstr \<Rightarrow> jstr \<Rightarrow> jstr" where
  "canonicalRequest how target timestamp bodyHash =
     join [10] [js (method_name how), pathname target @ url_search target, timestamp, bodyHash]"

text \<open>
  \<open>sha256 body\<close> and \<open>hmac secret text\<close> stand for node's digests in hexadecimal; without a secret the
  code throws.
\<close>

record signing_config =
  signing_key_id :: "jstr option"
  signing_secret :: "jstr option"

definition signedHeaders ::
    "('b option \<Rightarrow> jstr) \<Rightarrow> (jstr \<Rightarrow> jstr \<Rightarrow> jstr) \<Rightarrow> signing_config \<Rightarrow>
     http_method \<Rightarrow> web_url \<Rightarrow> 'b option \<Rightarrow> nat \<Rightarrow> http_headers option" where
  "signedHeaders sha256 hmac config how target body now =
     (let keyId = (case signing_key_id config of None \<Rightarrow> js ''market-bff-v1'' | Some k \<Rightarrow> k)
      in case signing_secret config of
        None \<Rightarrow> None
      | Some secret \<Rightarrow>
          if secret = [] then None
          else let timestamp = show_nat (now div 1000)
               in Some [(js ''x-api-key'', keyId), (js ''x-timestamp'', timestamp),
                        (js ''x-signature'',
                         js ''v1='' @ hmac secret (canonicalRequest how target timestamp (sha256 body)))])"

section \<open>Log paths\<close>

definition hex_block :: "nat \<Rightarrow> jstr \<Rightarrow> bool" where
  "hex_block n s \<longleftrightarrow> length s = n \<and> list_all (\<lambda>c. hex_value c \<noteq> None) s"

definition is_uuid :: "jstr \<Rightarrow> bool" where
  "is_uuid s \<longleftrightarrow> list_all2 hex_block [8, 4, 4, 4, 12] (split_on 45 s)"

definition opaque_key :: "jstr \<Rightarrow> bool" where
  "opaque_key s \<longleftrightarrow> 24 \<le> length s \<and> list_all (\<lambda>c. word_char c \<or> c = 45 \<or> c = 46) s"

definition template_segment :: "jstr \<Rightarrow> jstr" where
  "template_segment s =
     (if all_digits s \<or> is_uuid s then js ''{id}''
      else if opaque_key s then js ''{key}''
      else take 64 s)"

definition pathTemplate :: "jstr \<Rightarrow> jstr" where
  "pathTemplate path = take 255 (join [47] (map template_segment (split_on 47 path)))"

section \<open>Where an upstream call can go\<close>

lemma encode_point_unit:
  "unreserved cp \<Longrightarrow> percent_encode_point unreserved cp = [word_of_nat cp]"
  by (simp add: percent_encode_point_def)

lemma unreserved_small: "unreserved cp \<Longrightarrow> 0x20 < cp \<and> cp < 0x7F"
  by (auto simp: unreserved_def)

text \<open>An escape begins with a byte that is not a dot.\<close>

lemma encode_point_escape:
  assumes "\<not> unreserved cp" "cp < 0x110000"
  shows "\<exists>b r. percent_encode_point unreserved cp = percent_byte b @ r \<and> b \<noteq> 0x2E \<and> b < 0x100"
proof -
  let ?cp = "if lone_surrogate cp then 0xFFFD else cp"
  have "?cp \<noteq> 0x2E" "?cp < 0x110000" using assms by (auto simp: unreserved_def)
  then have "\<exists>b bs. utf8_bytes ?cp = b # bs \<and> b \<noteq> 0x2E \<and> b < 0x100"
    unfolding utf8_bytes_def by auto
  then obtain b bs where "utf8_bytes ?cp = b # bs" "b \<noteq> 0x2E" "b < 0x100" by blast
  then have "percent_encode_point unreserved cp = percent_byte b @ concat (map percent_byte bs)"
    using assms(1) by (simp add: percent_encode_point_def)
  with \<open>b \<noteq> 0x2E\<close> \<open>b < 0x100\<close> show ?thesis by blast
qed

lemma dot_escape:
  assumes "b < 0x100" "percent_byte b @ r = [37, 50, e] @ q" "e \<in> {0x45, 0x65}"
  shows "b = 0x2E"
proof -
  have u: "unat (word_of_nat m :: code_unit) = m" if "m < 100" for m
    using that by (simp add: unat_of_nat)
  have d: "b div 16 < 16" "b mod 16 < 16" using assms(1) by simp_all
  have "upper_hex (b div 16) = 50" "upper_hex (b mod 16) \<in> {0x45, 0x65}"
    using assms(2,3) by (auto simp: percent_byte_def)
  then have "unat (upper_hex (b div 16)) = 50" "unat (upper_hex (b mod 16)) \<in> {0x45, 0x65}" by auto
  then have "b div 16 = 2" "b mod 16 = 14"
    using d u by (auto simp: upper_hex_def simp del: of_nat_add split: if_splits)
  then show ?thesis using div_mult_mod_eq [of b 16] by simp
qed

definition encoded :: "nat list \<Rightarrow> jstr" where
  "encoded cps = concat (map (percent_encode_point unreserved) cps)"

lemma encoded_not_dot_escape:
  assumes "\<forall>cp \<in> set cps. cp < 0x110000" "encoded cps = [37, 50, e] @ q" "e \<in> {0x45, 0x65}"
  shows False
proof (cases cps)
  case (Cons cp rest)
  show False
  proof (cases "unreserved cp")
    case True
    then have w: "word_of_nat cp = (37 :: code_unit)" "cp < 0x7F"
      using assms(2) Cons unreserved_small by (auto simp: encoded_def encode_point_unit)
    have "unat (word_of_nat cp :: code_unit) = cp" using w(2) by (simp add: unat_of_nat)
    then have "cp = 37" unfolding w(1) by simp
    with True show False by (simp add: unreserved_def)
  next
    case False
    then obtain b r where b: "percent_encode_point unreserved cp = percent_byte b @ r" "b \<noteq> 0x2E" "b < 0x100"
      using encode_point_escape [of cp] assms(1) Cons by auto
    then have "percent_byte b @ (r @ encoded rest) = [37, 50, e] @ q"
      using assms(2) Cons by (simp add: encoded_def)
    with dot_escape [OF b(3) _ assms(3)] b(2) show False by blast
  qed
qed (use assms in \<open>simp add: encoded_def\<close>)

lemma lower_unit_cases:
  assumes "lower_unit c = k"
  shows "c = k \<or> (65 \<le> c \<and> c \<le> 90 \<and> unat k = unat c + 32) \<or> k = 107"
proof -
  have "unat (c + 32) = unat c + 32" if "c \<le> 90"
    using that by (simp add: unat_word_ariths(1) word_le_nat_alt)
  with assms show ?thesis by (auto simp: lower_unit_def split: if_splits)
qed

lemma lower_unit_sign: "lower_unit c = k \<Longrightarrow> unat k < 97 \<Longrightarrow> c = k"
  using lower_unit_cases [of c k] by (auto simp: word_le_nat_alt)

lemma lower_unit_e: "lower_unit c = 0x65 \<Longrightarrow> c \<in> {0x45, 0x65}"
proof -
  assume "lower_unit c = 0x65"
  from lower_unit_cases [OF this] consider "c = 0x65" | "unat c = 0x45" by fastforce
  then show ?thesis
  proof cases
    case 2
    then have "c = 0x45" by (simp add: word_unat_eq_iff)
    then show ?thesis by simp
  qed simp
qed

lemma code_points_small_units: "\<forall>cp \<in> set (code_points s). cp < 0x80 \<Longrightarrow> \<forall>c \<in> set s. c < 0x80"
proof (induction s rule: code_points.induct)
  case (2 c s)
  then show ?case by (cases s) (auto simp: word_less_nat_alt split: if_splits)
qed simp

lemma encode_code_points:
  "encodeURIComponent d = Some e \<Longrightarrow> e = encoded (code_points d)"
  by (auto simp: encodeURIComponent_def percent_encode_def encoded_def split: if_splits)

text \<open>A component without escapes is its own encoding.\<close>

lemma encode_plain:
  assumes "encodeURIComponent d = Some e" "37 \<notin> set e"
  shows "e = d"
proof -
  have e: "e = encoded (code_points d)" by (rule encode_code_points [OF assms(1)])
  have un: "unreserved cp" if cp: "cp \<in> set (code_points d)" for cp
  proof (rule ccontr)
    assume "\<not> unreserved cp"
    then obtain b r where "percent_encode_point unreserved cp = percent_byte b @ r"
      using encode_point_escape [OF _ code_points_range [OF cp]] by blast
    then have "37 \<in> set (percent_encode_point unreserved cp)" by (simp add: percent_byte_def)
    with cp assms(2) e show False by (auto simp: encoded_def)
  qed
  then have "\<forall>cp \<in> set (code_points d). cp < 0x80" using unreserved_small by fastforce
  then have small: "\<forall>c \<in> set d. c < 0x80" by (rule code_points_small_units)
  then have "code_points d = map unat d" by (rule code_points_small)
  with un small have "\<forall>c \<in> set d. c < 0x80 \<and> unreserved (unat c)" by simp
  then have "percent_encode unreserved d = d" by (intro percent_encode_kept)
  with e show ?thesis by (simp add: encoded_def percent_encode_def)
qed

lemma encode_plain_js:
  "encodeURIComponent d = Some (js lit) \<Longrightarrow> CHR ''%'' \<notin> set lit \<Longrightarrow> d = js lit"
proof -
  assume a: "encodeURIComponent d = Some (js lit)" "CHR ''%'' \<notin> set lit"
  have "37 \<notin> set (js lit)"
  proof
    assume "37 \<in> set (js lit)"
    then obtain x where "x \<in> set lit" "of_char x = (37 :: code_unit)" by (auto simp: js_def)
    with of_char_unit_eq_iff [of x "CHR ''%''"] a(2) show False by simp
  qed
  with encode_plain [OF a(1)] show ?thesis by simp
qed

lemma lower_dot: "to_lower e = js ''.'' \<Longrightarrow> e = js ''.''" "to_lower e = js ''..'' \<Longrightarrow> e = js ''..''"
  by (auto simp: to_lower_def map_eq_Cons_conv dest!: lower_unit_sign)

lemma lower_escape:
  "to_lower e = 37 # 50 # 0x65 # q \<Longrightarrow> \<exists>c r. e = [37, 50, c] @ r \<and> c \<in> {0x45, 0x65}"
  by (auto simp: to_lower_def map_eq_Cons_conv dest!: lower_unit_sign lower_unit_e)

lemma lower_dot_escape:
  "to_lower e = [46, 37, 50, 0x65] \<Longrightarrow> \<exists>c. e = [46, 37, 50, c] \<and> c \<in> {0x45, 0x65}"
  by (auto simp: to_lower_def map_eq_Cons_conv dest!: lower_unit_sign lower_unit_e)

lemma encoded_not_dot:
  assumes "encodeURIComponent d = Some e" "\<not> bad_segment d"
  shows "\<not> dot_segment e"
proof
  assume dot: "dot_segment e"
  have e: "e = encoded (code_points d)" by (rule encode_code_points [OF assms(1)])
  have rng: "\<forall>cp \<in> set (code_points d). cp < 0x110000" using code_points_range by blast
  have noesc: "\<not> (\<exists>c r. e = [37, 50, c] @ r \<and> c \<in> {0x45, 0x65})"
    unfolding e using encoded_not_dot_escape [OF rng] by blast
  from dot consider "to_lower e = js ''.''" | "to_lower e = js ''..''" | q where "to_lower e = 37 # 50 # 0x65 # q"
    | "to_lower e = [46, 37, 50, 0x65]"
    by (auto simp: dot_segment_def single_dot_def double_dot_def)
  then show False
  proof cases
    case 1
    then have "e = js ''.''" by (rule lower_dot)
    with encode_plain_js assms show False by (fastforce simp: bad_segment_def)
  next
    case 2
    then have "e = js ''..''" by (rule lower_dot)
    with encode_plain_js assms show False by (fastforce simp: bad_segment_def)
  next
    case (3 q)
    with lower_escape noesc show False by blast
  next
    case 4
    then obtain c where c: "e = [46, 37, 50, c]" "c \<in> {0x45, 0x65}" using lower_dot_escape by blast
    then obtain cp rest where cps: "code_points d = cp # rest" using e by (cases "code_points d") (auto simp: encoded_def)
    have "unreserved cp"
    proof (rule ccontr)
      assume "\<not> unreserved cp"
      then obtain b r where "percent_encode_point unreserved cp = percent_byte b @ r"
        using encode_point_escape [of cp] rng cps by auto
      with e cps c(1) show False by (simp add: encoded_def percent_byte_def)
    qed
    with e cps c(1) have "encoded rest = [37, 50, c] @ []" by (simp add: encoded_def encode_point_unit)
    with encoded_not_dot_escape [of rest c "[]"] rng cps c(2) show False by simp
  qed
qed

lemma encoded_path_text:
  assumes "encodeURIComponent d = Some e" "c \<in> set e"
  shows "c < 0x80" "path_keeps (unat c)" "c \<noteq> 47"
proof -
  have "c \<in> set (percent_encode unreserved d)"
    using assms by (auto simp: encodeURIComponent_def split: if_splits)
  then have u: "url_char unreserved d c"
    by (rule percent_encode_chars) (use unreserved_small in fastforce)
  then have n: "unat c = 37 \<or> 48 \<le> unat c \<and> unat c \<le> 57 \<or> 65 \<le> unat c \<and> unat c \<le> 70 \<or> unreserved (unat c)"
    by (auto simp: url_char_def word_le_nat_alt)
  then show "c < 0x80" unfolding word_less_nat_alt using unreserved_small [of "unat c"] by auto
  show "path_keeps (unat c)" using n unfolding path_keeps_def unreserved_def by auto
  show "c \<noteq> 47" using n by (auto simp: unreserved_def)
qed

lemma normalized_segments_ok:
  "normalized_segments segs = Some ds \<Longrightarrow> length ds = length segs \<and> (\<forall>d \<in> set ds. \<not> bad_segment d)"
  by (induction segs arbitrary: ds) (auto split: option.splits if_splits)

lemma encode_segments_all:
  "encode_segments ds = Some es \<Longrightarrow> list_all2 (\<lambda>d e. encodeURIComponent d = Some e) ds es"
  by (induction ds arbitrary: es) (auto split: option.splits)

section \<open>Properties\<close>

text \<open>A path the URL parser leaves alone, ending in a slash.\<close>

definition plain_path :: "jstr \<Rightarrow> bool" where
  "plain_path p \<longleftrightarrow>
     p \<noteq> [] \<and> hd p = 47 \<and> last p = 47 \<and> (\<forall>c \<in> set p. c < 0x80 \<and> path_keeps (unat c)) \<and>
     (\<forall>s \<in> set (path_segments p). \<not> dot_segment s)"

lemma path_text_split: "path_text (split_on 47 q) = 47 # q"
proof (induction q)
  case (Cons c q)
  obtain z zs where eq: "split_on 47 q = z # zs" by (cases "split_on 47 q") auto
  with Cons show ?case by (auto simp: path_text_def)
qed (simp add: path_text_def)

lemma url_path_plain:
  assumes "\<forall>c \<in> set q. c < 0x80 \<and> path_keeps (unat c)" "\<forall>s \<in> set (split_on 47 q). \<not> dot_segment s"
  shows "url_path (47 # q) = 47 # q"
proof -
  have "percent_encode path_keeps s = s" if "s \<in> set (split_on 47 q)" for s
    using assms(1) split_on_subset [OF that] by (intro percent_encode_kept) blast
  then have "map (percent_encode path_keeps) (split_on 47 q) = split_on 47 q"
    by (intro map_idI)
  then show ?thesis
    using path_walk_plain [of "split_on 47 q" "[]"] assms(2)
    by (simp add: url_path_def path_segments_def path_text_split)
qed

lemma url_path_under:
  assumes "plain_path p" "es \<noteq> []" "hd es \<noteq> []"
    and "\<forall>e \<in> set es. \<not> dot_segment e \<and> (\<forall>c \<in> set e. c < 0x80 \<and> path_keeps (unat c) \<and> c \<noteq> 47)"
  shows "url_path (p @ join [47] es) = p @ join [47] es"
proof -
  obtain q where q: "p = 47 # q" using assms(1) by (cases p) (auto simp: plain_path_def)
  have E: "split_on 47 (join [47] es) = es"
    using assms(2,4) by (intro split_on_join) blast+
  have joined: "set (join [47] es) \<subseteq> insert 47 (\<Union> (set ` set es))"
    by (induction "[47] :: jstr" es rule: join.induct) auto
  have "path_keeps (unat (47 :: code_unit))" by (simp add: path_keeps_def)
  then have chars: "c < 0x80 \<and> path_keeps (unat c)" if "c \<in> set (q @ join [47] es)" for c
    using that assms(1,4) joined q by (auto simp: plain_path_def)
  have segs: "split_on 47 q = path_segments p" using q by (simp add: path_segments_def)
  have "\<not> dot_segment s" if s: "s \<in> set (split_on 47 (q @ join [47] es))" for s
  proof (cases "q = []")
    case True
    with s E assms(4) show ?thesis by simp
  next
    case False
    then obtain r where r: "q = r @ [47]"
      using assms(1) q by (cases q rule: rev_cases) (auto simp: plain_path_def)
    have "split_on 47 (q @ join [47] es) = split_on 47 r @ es"
      using E r split_on_sep [of 47 r "join [47] es"] by simp
    moreover have "set (split_on 47 r) \<subseteq> set (path_segments p)"
      using r segs [symmetric] split_on_sep [of 47 r "[]"] by auto
    ultimately show ?thesis using s assms(1,4) by (auto simp: plain_path_def)
  qed
  with url_path_plain [of "q @ join [47] es"] chars q show ?thesis by simp
qed

lemma list_all2_in2: "list_all2 P xs ys \<Longrightarrow> y \<in> set ys \<Longrightarrow> \<exists>x \<in> set xs. P x y"
  by (induction rule: list_all2_induct) auto

lemma join_not_slash:
  fixes xs :: "jstr list"
  shows "join [47] xs \<noteq> [] \<Longrightarrow> hd (join [47] xs) \<noteq> 47 \<Longrightarrow> xs \<noteq> [] \<and> hd xs \<noteq> []"
  by (cases xs; cases "tl xs") auto

lemma encode_kept:
  assumes "\<forall>c \<in> set d. c < 0x80 \<and> unreserved (unat c)"
  shows "encodeURIComponent d = Some d"
proof -
  have "code_points d = map unat d" using assms by (intro code_points_small) blast
  moreover have "\<not> lone_surrogate (unat c)" if "c \<in> set d" for c
    using that assms unreserved_small [of "unat c"] by (auto simp: lone_surrogate_def)
  ultimately have "\<not> list_ex lone_surrogate (code_points d)" by (auto simp: list_ex_iff)
  then show ?thesis using percent_encode_kept [OF assms] by (simp add: encodeURIComponent_def)
qed

lemma join_admin:
  assumes "xs \<noteq> []" "\<forall>x \<in> set xs. 47 \<notin> set x"
  shows "isAdminApiPath (join [47] xs) \<longleftrightarrow> hd xs = js ''admin'' \<or> xs = [js ''auth'', js ''admin'', js ''login'']"
proof -
  have split: "split_on 47 (join [47] xs) = xs" using assms by (intro split_on_join) blast+
  have "hd xs = js ''admin''" if "join [47] xs = js ''admin'' \<or> starts_with (join [47] xs) (js ''admin/'')"
  proof -
    from that consider "join [47] xs = js ''admin''" | r where "join [47] xs = js ''admin'' @ 47 # r"
      by (auto simp: starts_with_def prefix_def)
    then show ?thesis
    proof cases
      case 1
      then have "xs = [js ''admin'']" using split split_on_free [of 47 "js ''admin''"] by simp
      then show ?thesis by simp
    next
      case (2 r)
      then have "xs = js ''admin'' # split_on 47 r" using split split_on_append [of 47 "js ''admin''" r] by simp
      then show ?thesis by simp
    qed
  qed
  moreover have "xs = [js ''auth'', js ''admin'', js ''login'']" if "join [47] xs = js ''auth/admin/login''"
    using split that by simp
  moreover have "isAdminApiPath (join [47] xs)" if h: "hd xs = js ''admin''"
  proof (cases "tl xs = []")
    case True
    then have "xs = [js ''admin'']" using h assms(1) by (cases xs) auto
    then show ?thesis by (simp add: isAdminApiPath_def)
  next
    case False
    then have "join [47] xs = js ''admin/'' @ join [47] (tl xs)"
      using h assms(1) by (cases xs) (simp_all add: join_Cons)
    then show ?thesis by (simp add: isAdminApiPath_def starts_with_def)
  qed
  ultimately show ?thesis by (auto simp: isAdminApiPath_def)
qed

lemma admin_path_encoded:
  assumes "list_all2 (\<lambda>d e. encodeURIComponent d = Some e) ds es" "ds \<noteq> []"
    and "\<forall>d \<in> set ds. 47 \<notin> set d" "\<forall>e \<in> set es. 47 \<notin> set e"
    and "isAdminApiPath (join [47] es)"
  shows "isAdminApiPath (join [47] ds)"
proof -
  have es: "es \<noteq> []" using assms(1,2) by auto
  from assms(5) join_admin [OF es assms(4)]
  consider "hd es = js ''admin''" | "es = [js ''auth'', js ''admin'', js ''login'']" by blast
  then show ?thesis
  proof cases
    case 1
    then have "encodeURIComponent (hd ds) = Some (js ''admin'')"
      using assms(1) es by (cases ds; cases es) auto
    then have "hd ds = js ''admin''" by (rule encode_plain_js) simp
    with join_admin [OF assms(2,3)] show ?thesis by simp
  next
    case 2
    then have "ds = [js ''auth'', js ''admin'', js ''login'']"
      using assms(1) by (auto simp del: js_Cons simp: list_all2_Cons2 dest!: encode_plain_js)
    with join_admin [OF assms(2,3)] show ?thesis by simp
  qed
qed

text \<open>
  C9: a proxied call cannot leave the backend's public paths.  For a path whose first
  segment is not empty, the address is the base address followed by encoded segments; none of them
  is a dot segment or contains a slash, the first is not \<open>internal\<close>, and whenever the address lies
  in the admin API the path that the admin gate tests says so.
\<close>

theorem upstream_confined:
  assumes "buildUpstreamTarget host_origin segments base = UpstreamTarget path target"
    and "plain_path (pathname base)" "path \<noteq> []" "hd path \<noteq> 47"
  shows "\<exists>es. url_origin target = url_origin base \<and> pathname target = pathname base @ join [47] es \<and>
           es \<noteq> [] \<and> hd es \<noteq> js ''internal'' \<and> (\<forall>e \<in> set es. \<not> dot_segment e \<and> 47 \<notin> set e) \<and>
           (isAdminApiPath (join [47] es) \<longrightarrow> isAdminApiPath path)"
proof -
  obtain ds es where ds: "normalized_segments segments = Some ds" and int: "hd ds \<noteq> js ''internal''"
    and es: "encode_segments ds = Some es" and path: "path = join [47] ds"
    and res: "resolve_url host_origin base (join [47] es) = Some target"
    and org: "url_origin target = url_origin base"
    using assms(1,3)
    by (auto simp: buildUpstreamTarget_def split: option.splits if_splits)
  have ne: "ds \<noteq> []" "hd ds \<noteq> []" using join_not_slash assms(3,4) path by blast+
  have enc: "list_all2 (\<lambda>d e. encodeURIComponent d = Some e) ds es" by (rule encode_segments_all [OF es])
  have all: "\<not> dot_segment e \<and> (\<forall>c \<in> set e. c < 0x80 \<and> path_keeps (unat c) \<and> c \<noteq> 47)"
    if e: "e \<in> set es" for e
  proof -
    obtain d where d: "d \<in> set ds" "encodeURIComponent d = Some e"
      using list_all2_in2 [OF enc e] by blast
    then have "\<not> bad_segment d" using normalized_segments_ok [OF ds] by blast
    with d encoded_not_dot [OF d(2)] encoded_path_text [OF d(2)] show ?thesis by blast
  qed
  have es0: "es \<noteq> []" "encodeURIComponent (hd ds) = Some (hd es)"
    using enc ne by (cases ds; cases es; auto)+
  have h: "hd es \<noteq> []" "hd (hd es) \<noteq> 47"
  proof -
    show "hd es \<noteq> []" using encode_plain [OF es0(2)] ne(2) by auto
    then show "hd (hd es) \<noteq> 47" using all [of "hd es"] es0(1) by simp
  qed
  have "hd (join [47] es) = hd (hd es)" "join [47] es \<noteq> []"
    using es0(1) h(1) by (cases es; cases "tl es"; simp)+
  then have "\<not> starts_with (join [47] es) (js ''//'')" "\<not> starts_with (join [47] es) (js ''/'')"
    using h(2) by (cases "join [47] es"; auto simp: starts_with_def)+
  with res have t: "pathname target = url_path (pathname base @ join [47] es)"
    by (auto simp: resolve_url_def)
  have "url_path (pathname base @ join [47] es) = pathname base @ join [47] es"
    by (rule url_path_under [OF assms(2) es0(1) h(1)]) (use all in blast)
  moreover have "hd es \<noteq> js ''internal''"
    using encode_plain_js [of "hd ds" "''internal''"] es0(2) int by auto
  moreover have "isAdminApiPath path" if "isAdminApiPath (join [47] es)"
    using admin_path_encoded [OF enc ne(1) _ _ that] all normalized_segments_ok [OF ds] path
    unfolding bad_segment_def by blast
  ultimately show ?thesis using org t es0(1) all by (intro exI [of _ es]) auto
qed

lemma upstream_confined_witness:
  "let base = \<lparr>url_origin = js ''http://api:8001'', pathname = js ''/'', url_search = []\<rparr>;
       target = \<lparr>url_origin = js ''http://api:8001'', pathname = js ''/admin/orders'', url_search = []\<rparr>
   in buildUpstreamTarget (\<lambda>_. None) [js ''admin'', js ''%6Frders''] base = UpstreamTarget (js ''admin/orders'') target \<and>
      (\<exists>es. pathname target = pathname base @ join [47] es \<and> hd es \<noteq> js ''internal'')"
proof -
  let ?base = "\<lparr>url_origin = js ''http://api:8001'', pathname = js ''/'', url_search = []\<rparr>"
  let ?target = "\<lparr>url_origin = js ''http://api:8001'', pathname = js ''/admin/orders'', url_search = []\<rparr>"
  have n: "normalized_segments [js ''admin'', js ''%6Frders''] = Some [js ''admin'', js ''orders'']" by code_simp
  have "encodeURIComponent (js ''admin'') = Some (js ''admin'')" "encodeURIComponent (js ''orders'') = Some (js ''orders'')"
    by (rule encode_kept, simp add: unreserved_def)+
  then have e: "encode_segments [js ''admin'', js ''orders''] = Some [js ''admin'', js ''orders'']" by simp
  have u: "url_path (js ''/admin/orders'') = js ''/admin/orders''" by code_simp
  have b: "buildUpstreamTarget (\<lambda>_. None) [js ''admin'', js ''%6Frders''] ?base = UpstreamTarget (js ''admin/orders'') ?target"
    using u unfolding buildUpstreamTarget_def n option.case e
    by (simp add: resolve_url_def starts_with_def)
  have "plain_path (pathname ?base)" by code_simp
  moreover have "js ''admin/orders'' \<noteq> []" "hd (js ''admin/orders'') \<noteq> 47" by simp_all
  ultimately show ?thesis using upstream_confined [OF b] b unfolding Let_def by blast
qed

text \<open>
  An empty first segment escapes both guards when the base address has no path of its own: the
  segments are then joined to an absolute path.
\<close>

lemma upstream_empty_segment:
  "buildUpstreamTarget host_origin [[], js ''internal'', js ''x''] \<lparr>url_origin = origin, pathname = js ''/'', url_search = []\<rparr> =
     UpstreamTarget (js ''/internal/x'') \<lparr>url_origin = origin, pathname = js ''/internal/x'', url_search = []\<rparr>"
proof -
  have n: "normalized_segments [[], js ''internal'', js ''x''] = Some [[], js ''internal'', js ''x'']" by code_simp
  have "encodeURIComponent (js ''internal'') = Some (js ''internal'')" "encodeURIComponent (js ''x'') = Some (js ''x'')"
    "encodeURIComponent [] = Some []"
    by (rule encode_kept, simp add: unreserved_def)+
  then have e: "encode_segments [[], js ''internal'', js ''x''] = Some [[], js ''internal'', js ''x'']" by simp
  have u: "url_path (js ''/internal/x'') = js ''/internal/x''" by code_simp
  then show ?thesis unfolding buildUpstreamTarget_def n option.case e
    by (simp add: resolve_url_def starts_with_def)
qed

lemma split_on_last: "c \<notin> set y \<Longrightarrow> split_on c (x @ c # y) = split_on c x @ [y]"
  by (simp add: split_on_sep split_on_free)

lemma client_ip_last_hop:
  assumes "client_ip_header config = js ''x-forwarded-for''" "44 \<notin> set hop" "\<not> is_blank hop"
  shows "clientIpFromHeaders v6_host config (hset ''x-forwarded-for'' (forged @ 44 # hop) headers) =
         normalizeIp v6_host (Some (js_trim hop))"
proof -
  have "list_all header_name_char (js ''x-forwarded-for'')" by code_simp
  then show ?thesis
    using assms split_on_last [OF assms(2), of forged]
    by (simp add: clientIpFromHeaders_def hset_def Let_def is_blank_def update_conv' del: js_Cons)
qed

text \<open>
  A client cannot forge its way past the admin gate through \<open>X-Forwarded-For\<close>: with that
  header configured, only the last hop, which the edge itself appends, decides; whatever the client
  wrote before it makes no difference.  An allowlist with an entry that is no address admits nobody.
\<close>

theorem admin_gate_edge:
  assumes "client_ip_header config = js ''x-forwarded-for''" "44 \<notin> set hop" "\<not> is_blank hop"
  shows "adminRequestAllowed v6_host config (hset ''x-forwarded-for'' (forged @ 44 # hop) headers) =
         (case configuredAdminIps v6_host config of
            None \<Rightarrow> False
          | Some allowed \<Rightarrow> allowed = [] \<or>
              (case normalizeIp v6_host (Some (js_trim hop)) of None \<Rightarrow> False | Some ip \<Rightarrow> ip \<in> set allowed))"
  using client_ip_last_hop [OF assms] by (auto simp: adminRequestAllowed_def split: option.splits)

lemma admin_gate_edge_witness:
  "let config = \<lparr>ADMIN_ALLOWED_IPS = Some (js ''1.2.3.4''), ADMIN_CLIENT_IP_HEADER = Some (js ''X-Forwarded-For'')\<rparr>;
       request = \<lambda>hop. hset ''x-forwarded-for'' (js ''1.2.3.4'' @ 44 # js hop) []
   in \<not> adminRequestAllowed (\<lambda>_. None) config (request ''5.6.7.8'') \<and>
      adminRequestAllowed (\<lambda>_. None) config (request '' 1.2.3.4'')"
proof -
  let ?config = "\<lparr>ADMIN_ALLOWED_IPS = Some (js ''1.2.3.4''), ADMIN_CLIENT_IP_HEADER = Some (js ''X-Forwarded-For'')\<rparr>"
  have c: "client_ip_header ?config = js ''x-forwarded-for''" by code_simp
  have ips: "configuredAdminIps (\<lambda>_. None) ?config = Some [js ''1.2.3.4'']" by code_simp
  have norm: "normalizeIp (\<lambda>_. None) (Some (js_trim (js ''5.6.7.8''))) = Some (js ''5.6.7.8'')"
    "normalizeIp (\<lambda>_. None) (Some (js_trim (js '' 1.2.3.4''))) = Some (js ''1.2.3.4'')" by code_simp+
  have hops: "44 \<notin> set (js ''5.6.7.8'')" "\<not> is_blank (js ''5.6.7.8'')" "44 \<notin> set (js '' 1.2.3.4'')" "\<not> is_blank (js '' 1.2.3.4'')"
    by code_simp+
  show ?thesis
    unfolding Let_def admin_gate_edge [OF c hops(1,2)] admin_gate_edge [OF c hops(3,4)] ips norm
    by (simp add: js_eq_iff del: js_Cons)
qed

end
