(* ===== verification/Bff_Session.thy ===== *)
theory Bff_Session
  imports Bff_Policy
begin

text \<open>
  Session cookies and tokens (lib/bff-session.ts), the tag that says which account a request runs as
  (lib/bff-session-tag.ts), its browser half (lib/session-guard.ts) and what the browser forgets when
  the account changes (lib/session-identity.ts).
\<close>

section \<open>JSON values\<close>

datatype json = JNull | JBool bool | JNum rat | JStr jstr | JArr "json list" | JObj "(jstr \<times> json) list"

fun json_get :: "json \<Rightarrow> string \<Rightarrow> json option" where
  "json_get (JObj kvs) name = map_of kvs (js name)"
| "json_get _ name = None"

text \<open>
  A field the code types as an optional string, when it is there and not empty: the test
  \<open>if (payload.field)\<close> and the value used after it.
\<close>

definition str_field :: "json \<Rightarrow> string \<Rightarrow> jstr option" where
  "str_field j name = (case json_get j name of Some (JStr s) \<Rightarrow> if s = [] then None else Some s | _ \<Rightarrow> None)"

definition bool_field :: "json \<Rightarrow> string \<Rightarrow> bool" where
  "bool_field j name \<longleftrightarrow> json_get j name = Some (JBool True)"

section \<open>Cookies and tokens\<close>

definition ACCESS_COOKIE :: string where "ACCESS_COOKIE = ''dx_session''"
definition REFRESH_COOKIE :: string where "REFRESH_COOKIE = ''dx_refresh''"
definition SIGNUP_COOKIE :: string where "SIGNUP_COOKIE = ''dx_signup''"
definition ACCESS_MAX_AGE_SECONDS :: int where "ACCESS_MAX_AGE_SECONDS = 15 * 60"
definition REFRESH_MAX_AGE_SECONDS :: int where "REFRESH_MAX_AGE_SECONDS = 7 * 24 * 60 * 60"
definition SIGNUP_MAX_AGE_SECONDS :: int where "SIGNUP_MAX_AGE_SECONDS = 7 * 24 * 60 * 60"

datatype same_site = Strict | Lax

record cookie_options =
  httpOnly :: bool
  secure :: bool
  sameSite :: same_site
  cookie_path :: string
  maxAge :: int

definition authCookieOptions :: "int \<Rightarrow> bool \<Rightarrow> cookie_options" where
  "authCookieOptions age isProduction =
     \<lparr>httpOnly = True, secure = isProduction, sameSite = Strict, cookie_path = ''/'', maxAge = age\<rparr>"

definition signupCookieOptions :: "bool \<Rightarrow> cookie_options" where
  "signupCookieOptions isProduction =
     (authCookieOptions SIGNUP_MAX_AGE_SECONDS isProduction)\<lparr>cookie_path := ''/api/auth''\<rparr>"

record auth_tokens =
  accessToken :: jstr
  refreshToken :: jstr
  tokenType :: jstr

definition tokensFromLoginPayload :: "json \<Rightarrow> auth_tokens option" where
  "tokensFromLoginPayload payload =
     (case (str_field payload ''access_token'', str_field payload ''refresh_token'') of
        (Some a, Some r) \<Rightarrow>
          Some \<lparr>accessToken = a, refreshToken = r,
                tokenType = (case json_get payload ''token_type'' of Some (JStr t) \<Rightarrow> t | _ \<Rightarrow> js ''bearer'')\<rparr>
      | _ \<Rightarrow> None)"

datatype refresh_failure = Rejected | RateLimited | Unavailable

definition refreshFailureKind :: "nat option \<Rightarrow> refresh_failure" where
  "refreshFailureKind status =
     (if status \<in> {Some 401, Some 403, Some 422} then Rejected
      else if status = Some 429 then RateLimited
      else Unavailable)"

definition SIGNUP_HANDOFF_PATHS :: "jstr list" where
  "SIGNUP_HANDOFF_PATHS = [js ''auth/verify-email'', js ''auth/signup-handoff/claim'']"

text \<open>
  \<open>parse_body\<close> reads the request body as JSON (an empty body as an empty object, \<^const>\<open>None\<close> for a syntax
  error) and \<open>encode_body\<close> writes it.
\<close>

definition without_field :: "string \<Rightarrow> (jstr \<times> json) list \<Rightarrow> (jstr \<times> json) list" where
  "without_field name kvs = AList.delete (js name) kvs"

definition bodyWithSignupHandoff ::
    "('b option \<Rightarrow> json option) \<Rightarrow> (json \<Rightarrow> 'b) \<Rightarrow> 'b option \<Rightarrow> jstr option \<Rightarrow> 'b option" where
  "bodyWithSignupHandoff parse_body encode_body body handoff =
     (case parse_body body of
        Some (JObj kvs) \<Rightarrow>
          (let next = without_field ''handoff'' kvs
           in Some (encode_body (JObj
                (case handoff of None \<Rightarrow> next
                 | Some h \<Rightarrow> if h = [] then next else next @ [(js ''handoff'', JStr h)]))))
      | _ \<Rightarrow> None)"

section \<open>The session tag\<close>

definition ANONYMOUS_TAG :: jstr where "ANONYMOUS_TAG = js ''anon''"
definition SESSION_TAG_HEADER :: string where "SESSION_TAG_HEADER = ''x-session-tag''"
definition SESSION_EXPECT_HEADER :: string where "SESSION_EXPECT_HEADER = ''x-session-expect''"

text \<open>\<open>read_claims\<close> is the JSON of a base64url payload, or \<^const>\<open>None\<close> when decoding or parsing throws.\<close>

definition tokenSubject :: "(jstr \<Rightarrow> json option) \<Rightarrow> jstr \<Rightarrow> jstr option" where
  "tokenSubject read_claims token =
     (let parts = split_on 46 token; payload = (if length parts < 2 then [] else parts ! 1)
      in if payload = [] then None
         else case read_claims payload of None \<Rightarrow> None | Some claims \<Rightarrow> str_field claims ''sub'')"

definition sessionTag ::
    "(jstr \<Rightarrow> json option) \<Rightarrow> (jstr \<Rightarrow> jstr) \<Rightarrow> jstr option \<Rightarrow> bool \<Rightarrow> jstr option" where
  "sessionTag read_claims sha256 token hasRefreshCookie =
     (case token of
        None \<Rightarrow> if hasRefreshCookie then None else Some ANONYMOUS_TAG
      | Some t \<Rightarrow>
          if t = [] then (if hasRefreshCookie then None else Some ANONYMOUS_TAG)
          else case tokenSubject read_claims t of
            None \<Rightarrow> None
          | Some sub \<Rightarrow> Some (take 16 (sha256 (js ''gmmo-session:'' @ sub))))"

definition sessionMismatch :: "jstr option \<Rightarrow> jstr option \<Rightarrow> bool" where
  "sessionMismatch expected actual \<longleftrightarrow>
     (case expected of None \<Rightarrow> False | Some e \<Rightarrow> e \<noteq> [] \<and> actual \<noteq> None \<and> expected \<noteq> actual)"

section \<open>The browser half\<close>

definition route :: "jstr \<Rightarrow> jstr" where
  "route path =
     (let p = takeWhile (\<lambda>c. c \<noteq> 63) path
      in if starts_with p (js ''/api/'') then drop 4 p else p)"

definition learnsSessionTag :: "jstr \<Rightarrow> bool" where
  "learnsSessionTag path \<longleftrightarrow> route path = js ''/me'' \<or> starts_with (route path) (js ''/auth/'')"

definition sessionGuardHeaders :: "jstr option \<Rightarrow> jstr \<Rightarrow> http_headers" where
  "sessionGuardHeaders rendered path =
     (case rendered of
        None \<Rightarrow> []
      | Some tag \<Rightarrow> if tag = [] \<or> learnsSessionTag path then [] else [(js SESSION_EXPECT_HEADER, tag)])"

text \<open>The tab's new tag, and whether it announces that the session changed.\<close>

definition observeSessionResponse ::
    "jstr \<Rightarrow> nat \<Rightarrow> http_headers \<Rightarrow> json option \<Rightarrow> jstr option \<Rightarrow> jstr option \<times> bool" where
  "observeSessionResponse path status headers body rendered =
     ((if learnsSessionTag path then hget headers SESSION_TAG_HEADER else rendered),
      status = 409 \<and> (case body of None \<Rightarrow> False
                        | Some b \<Rightarrow> json_get b ''error_code'' = Some (JStr (js ''SESSION_CHANGED''))))"

text \<open>Who is signed in: not resolved yet, signed out, or an account.\<close>

datatype session_identity = Unresolved | Resolved "nat option"

definition identityChanged :: "session_identity \<Rightarrow> nat option \<Rightarrow> bool" where
  "identityChanged previous next \<longleftrightarrow> previous \<noteq> Unresolved \<and> previous \<noteq> Resolved next"

definition USER_SCOPED_STORAGE_KEYS :: "string list" where
  "USER_SCOPED_STORAGE_KEYS =
     [''gmmo.recent-searches'', ''gmmo.facebook-lookup.recent'', ''seller-inventory-recent-packages'']"

definition clearUserScopedStorage :: "(jstr \<times> jstr) list \<Rightarrow> (jstr \<times> jstr) list" where
  "clearUserScopedStorage storage = List.fold (\<lambda>key s. AList.delete (js key) s) USER_SCOPED_STORAGE_KEYS storage"

end
