(* ===== verification/Bff_Refresh.thy ===== *)
theory Bff_Refresh
  imports Prelude
begin

text \<open>
  The coalescing of refresh-token rotations (lib/bff-refresh-coalescer.ts) as a state machine.  A
  request either gets the outcome of a recent rotation of its token, joins the one in flight, or
  starts one; a rotation settles later, in any order.  Keys are the SHA-256 digests of the tokens,
  here any type; times are milliseconds of a clock that never goes back.
\<close>

section \<open>State and operations\<close>

definition REFRESH_REUSE_GRACE_MS :: int where "REFRESH_REUSE_GRACE_MS = 10000"
definition MAX_REMEMBERED_ROTATIONS :: nat where "MAX_REMEMBERED_ROTATIONS = 10000"

record coalescer_options =
  graceMs :: int
  maxRotations :: nat

record 'v remembered_entry =
  re_value :: 'v
  re_expiresAt :: int

text \<open>
  The two maps of the closure; \<open>co_next\<close> names rotations.  The last three fields are only there for
  the proofs: the latest time seen, the successes so far with the end of their grace, and whether a
  rotation still in its grace had to be forgotten because the map was full.
\<close>

record ('k, 'v) coalescer =
  inFlight :: "('k \<times> nat) list"
  remembered :: "('k \<times> 'v remembered_entry) list"
  co_next :: nat
  co_now :: int
  co_succeeded :: "('k \<times> 'v \<times> int) list"
  co_dropped :: bool

definition createRefreshCoalescer :: "('k, 'v) coalescer" where
  "createRefreshCoalescer =
     \<lparr>inFlight = [], remembered = [], co_next = 0, co_now = 0, co_succeeded = [], co_dropped = False\<rparr>"

fun forgetExpired :: "nat \<Rightarrow> int \<Rightarrow> ('k \<times> 'v remembered_entry) list \<Rightarrow> ('k \<times> 'v remembered_entry) list" where
  "forgetExpired n now [] = []"
| "forgetExpired n now ((k, e) # m) =
     (if now < re_expiresAt e \<and> length ((k, e) # m) < n then (k, e) # m else forgetExpired n now m)"

text \<open>Whether forgetting removed an entry that was still in its grace.\<close>

definition forgets_live :: "nat \<Rightarrow> int \<Rightarrow> ('k \<times> 'v remembered_entry) list \<Rightarrow> bool" where
  "forgets_live n now m \<longleftrightarrow>
     (\<exists>p \<in> set (take (length m - length (forgetExpired n now m)) m). now < re_expiresAt (snd p))"

datatype 'v answer = Replay 'v | Join nat | Start nat

definition ask ::
    "coalescer_options \<Rightarrow> int \<Rightarrow> 'k \<Rightarrow> ('k, 'v) coalescer \<Rightarrow> 'v answer \<times> ('k, 'v) coalescer" where
  "ask opts now k s =
     (let m = forgetExpired (maxRotations opts) now (remembered s);
          s1 = s\<lparr>remembered := m, co_now := now,
                 co_dropped := co_dropped s \<or> forgets_live (maxRotations opts) now (remembered s)\<rparr>;
          start = (Start (co_next s),
                   s1\<lparr>inFlight := AList.update k (co_next s) (inFlight s), co_next := co_next s + 1\<rparr>);
          join_or_start = (case map_of (inFlight s) k of Some r \<Rightarrow> (Join r, s1) | None \<Rightarrow> start)
      in case map_of m k of
           Some e \<Rightarrow> if now < re_expiresAt e then (Replay (re_value e), s1) else join_or_start
         | None \<Rightarrow> join_or_start)"

text \<open>A rotation settles: an outcome that \<open>succeeded\<close> judges, or an exception.\<close>

definition settle ::
    "coalescer_options \<Rightarrow> ('v \<Rightarrow> bool) \<Rightarrow> int \<Rightarrow> 'k \<Rightarrow> 'v option \<Rightarrow> ('k, 'v) coalescer \<Rightarrow> ('k, 'v) coalescer" where
  "settle opts succeeded now k outcome s =
     (let s1 = s\<lparr>inFlight := AList.delete k (inFlight s), co_now := now\<rparr>
      in case outcome of
           None \<Rightarrow> s1
         | Some v \<Rightarrow>
             if succeeded v
             then s1\<lparr>remembered := AList.update k \<lparr>re_value = v, re_expiresAt = now + graceMs opts\<rparr> (remembered s),
                     co_succeeded := co_succeeded s @ [(k, v, now + graceMs opts)]\<rparr>
             else s1)"

inductive co_step ::
    "coalescer_options \<Rightarrow> ('v \<Rightarrow> bool) \<Rightarrow> ('k, 'v) coalescer \<Rightarrow> ('k, 'v) coalescer \<Rightarrow> bool"
  for opts :: coalescer_options and succeeded :: "'v \<Rightarrow> bool" where
  co_ask: "co_now s \<le> now \<Longrightarrow> ask opts now k s = (ans, s') \<Longrightarrow> co_step opts succeeded s s'"
| co_settle: "co_now s \<le> now \<Longrightarrow> map_of (inFlight s) k = Some r \<Longrightarrow>
     co_step opts succeeded s (settle opts succeeded now k outcome s)"

inductive co_reachable ::
    "coalescer_options \<Rightarrow> ('v \<Rightarrow> bool) \<Rightarrow> ('k, 'v) coalescer \<Rightarrow> bool"
  for opts :: coalescer_options and succeeded :: "'v \<Rightarrow> bool" where
  co_init: "co_reachable opts succeeded createRefreshCoalescer"
| co_next_step: "co_reachable opts succeeded s \<Longrightarrow> co_step opts succeeded s s' \<Longrightarrow>
     co_reachable opts succeeded s'"

inductive_cases co_stepE: "co_step opts succeeded s s'"

section \<open>The invariant\<close>

definition expiries :: "('k \<times> 'v remembered_entry) list \<Rightarrow> int list" where
  "expiries m = map (re_expiresAt \<circ> snd) m"

definition co_inv :: "coalescer_options \<Rightarrow> ('v \<Rightarrow> bool) \<Rightarrow> ('k, 'v) coalescer \<Rightarrow> bool" where
  "co_inv opts succeeded s \<longleftrightarrow>
     wf_map (inFlight s) \<and> wf_map (remembered s) \<and> sorted (expiries (remembered s)) \<and>
     (\<forall>x \<in> set (expiries (remembered s)). x \<le> co_now s + graceMs opts) \<and>
     fst ` set (inFlight s) \<inter> fst ` set (remembered s) = {} \<and>
     (\<forall>p \<in> set (remembered s).
        succeeded (re_value (snd p)) \<and> (fst p, re_value (snd p), re_expiresAt (snd p)) \<in> set (co_succeeded s)) \<and>
     (\<not> co_dropped s \<longrightarrow>
        (\<forall>k v x. (k, v, x) \<in> set (co_succeeded s) \<longrightarrow> co_now s < x \<longrightarrow>
           map_of (remembered s) k = Some \<lparr>re_value = v, re_expiresAt = x\<rparr>))"

lemma co_invI:
  assumes "wf_map (inFlight s)" "wf_map (remembered s)" "sorted (expiries (remembered s))"
    and "\<forall>x \<in> set (expiries (remembered s)). x \<le> co_now s + graceMs opts"
    and "fst ` set (inFlight s) \<inter> fst ` set (remembered s) = {}"
    and "\<And>p. p \<in> set (remembered s) \<Longrightarrow>
      succeeded (re_value (snd p)) \<and> (fst p, re_value (snd p), re_expiresAt (snd p)) \<in> set (co_succeeded s)"
    and "\<And>k v x. \<not> co_dropped s \<Longrightarrow> (k, v, x) \<in> set (co_succeeded s) \<Longrightarrow> co_now s < x \<Longrightarrow>
      map_of (remembered s) k = Some \<lparr>re_value = v, re_expiresAt = x\<rparr>"
  shows "co_inv opts succeeded s"
  unfolding co_inv_def using assms by blast

lemma co_invD:
  assumes "co_inv opts succeeded s"
  shows "wf_map (inFlight s)" "wf_map (remembered s)" "sorted (expiries (remembered s))"
    and "\<forall>x \<in> set (expiries (remembered s)). x \<le> co_now s + graceMs opts"
    and "fst ` set (inFlight s) \<inter> fst ` set (remembered s) = {}"
    and "p \<in> set (remembered s) \<Longrightarrow>
      succeeded (re_value (snd p)) \<and> (fst p, re_value (snd p), re_expiresAt (snd p)) \<in> set (co_succeeded s)"
    and "\<not> co_dropped s \<Longrightarrow> (k, v, x) \<in> set (co_succeeded s) \<Longrightarrow> co_now s < x \<Longrightarrow>
      map_of (remembered s) k = Some \<lparr>re_value = v, re_expiresAt = x\<rparr>"
  using assms unfolding co_inv_def by blast+

lemma forgetExpired_drop: "\<exists>i. forgetExpired n now m = drop i m \<and> i \<le> length m"
proof (induction n now m rule: forgetExpired.induct)
  case (2 n now k e m)
  then show ?case
  proof (cases "now < re_expiresAt e \<and> length ((k, e) # m) < n")
    case True
    then have "forgetExpired n now ((k, e) # m) = drop 0 ((k, e) # m)" by simp
    then show ?thesis by blast
  next
    case False
    with 2 obtain i where "forgetExpired n now m = drop i m" "i \<le> length m" by blast
    then have "forgetExpired n now ((k, e) # m) = drop (Suc i) ((k, e) # m)" "Suc i \<le> length ((k, e) # m)"
      using False by auto
    then show ?thesis by blast
  qed
qed simp

lemma forgetExpired_live:
  "sorted (expiries m) \<Longrightarrow> p \<in> set (forgetExpired n now m) \<Longrightarrow> now < re_expiresAt (snd p)"
  by (induction n now m rule: forgetExpired.induct) (force simp: expiries_def split: if_splits)+

lemma forgetExpired_short: "0 < n \<Longrightarrow> length (forgetExpired n now m) < n"
  by (induction n now m rule: forgetExpired.induct) (auto split: if_splits)

lemma forgetExpired_subset: "set (forgetExpired n now m) \<subseteq> set m"
  using forgetExpired_drop [of n now m] by (metis set_drop_subset)

text \<open>What forgetting removed was expired, or the map was full.\<close>

lemma forgetExpired_keeps:
  assumes "p \<in> set m" "now < re_expiresAt (snd p)" "\<not> forgets_live n now m"
  shows "p \<in> set (forgetExpired n now m)"
proof -
  obtain i where i: "forgetExpired n now m = drop i m" "i \<le> length m"
    using forgetExpired_drop by blast
  then have "take (length m - length (forgetExpired n now m)) m = take i m" by simp
  with assms(2,3) have "p \<notin> set (take i m)" by (auto simp: forgets_live_def)
  with assms(1) i(1) show ?thesis by (metis append_take_drop_id Un_iff set_append)
qed

lemma map_of_drop: "wf_map m \<Longrightarrow> map_of (drop i m) k = Some e \<Longrightarrow> map_of m k = Some e"
  unfolding wf_map_def by (meson in_set_dropD map_of_SomeD map_of_is_SomeI)

lemma co_inv_forget:
  assumes inv: "co_inv opts succeeded s" and now: "co_now s \<le> now"
  defines "m \<equiv> forgetExpired (maxRotations opts) now (remembered s)"
  shows "co_inv opts succeeded (s\<lparr>remembered := m, co_now := now,
    co_dropped := co_dropped s \<or> forgets_live (maxRotations opts) now (remembered s)\<rparr>)"
proof -
  obtain i where i: "m = drop i (remembered s)" unfolding m_def using forgetExpired_drop by blast
  have sub: "set m \<subseteq> set (remembered s)" unfolding m_def by (rule forgetExpired_subset)
  have wf: "wf_map m" unfolding i using inv by (intro wf_map_drop) (simp add: co_inv_def)
  have srt: "sorted (expiries m)"
    unfolding i expiries_def drop_map [symmetric] using inv
    by (intro sorted_wrt_drop) (simp add: co_inv_def expiries_def)
  have bound: "\<forall>x \<in> set (expiries m). x \<le> now + graceMs opts"
  proof
    fix x assume "x \<in> set (expiries m)"
    then have "x \<in> set (expiries (remembered s))" using sub by (auto simp: expiries_def)
    then show "x \<le> now + graceMs opts" using inv now by (fastforce simp: co_inv_def)
  qed
  have keys: "fst ` set (inFlight s) \<inter> fst ` set m = {}"
    using inv sub unfolding co_inv_def by blast
  have kept: "map_of m k = Some \<lparr>re_value = v, re_expiresAt = x\<rparr>"
    if "\<not> co_dropped s" "\<not> forgets_live (maxRotations opts) now (remembered s)"
      "(k, v, x) \<in> set (co_succeeded s)" "now < x" for k v x
  proof -
    have "map_of (remembered s) k = Some \<lparr>re_value = v, re_expiresAt = x\<rparr>"
      using inv that now unfolding co_inv_def by force
    then have "(k, \<lparr>re_value = v, re_expiresAt = x\<rparr>) \<in> set (remembered s)" by (rule map_of_SomeD)
    then have "(k, \<lparr>re_value = v, re_expiresAt = x\<rparr>) \<in> set m"
      unfolding m_def using that by (intro forgetExpired_keeps) simp_all
    with wf show ?thesis by (simp add: wf_map_def)
  qed
  have "\<forall>p \<in> set (remembered s). succeeded (re_value (snd p)) \<and>
      (fst p, re_value (snd p), re_expiresAt (snd p)) \<in> set (co_succeeded s)"
    using inv by (simp add: co_inv_def)
  then have vals: "\<forall>p \<in> set m. succeeded (re_value (snd p)) \<and>
      (fst p, re_value (snd p), re_expiresAt (snd p)) \<in> set (co_succeeded s)"
    using sub by blast
  have wfI: "wf_map (inFlight s)" using inv by (simp add: co_inv_def)
  show ?thesis
  proof (rule co_invI, goal_cases)
    case 1 show ?case using wfI by simp
  next
    case 2 show ?case using wf by simp
  next
    case 3 show ?case using srt by simp
  next
    case 4 show ?case using bound by simp
  next
    case 5 show ?case using keys by simp
  next
    case (6 p) then show ?case using vals by simp
  next
    case (7 k v x) then show ?case using kept [of k v x] by simp
  qed
qed

lemma co_inv_start:
  assumes inv: "co_inv opts succeeded s" and fresh: "map_of (remembered s) k = None"
  shows "co_inv opts succeeded (s\<lparr>inFlight := AList.update k r (inFlight s), co_next := n\<rparr>)"
proof -
  have "k \<notin> fst ` set (remembered s)" using fresh by (simp add: map_of_eq_None_iff)
  moreover have "fst ` set (AList.update k r (inFlight s)) = insert k (fst ` set (inFlight s))"
    by (simp add: AList.dom_update)
  ultimately have keys: "fst ` set (AList.update k r (inFlight s)) \<inter> fst ` set (remembered s) = {}"
    using co_invD(5) [OF inv] by simp
  show ?thesis
  proof (rule co_invI, goal_cases)
    case 1 show ?case using co_invD(1) [OF inv] by simp
  next
    case 2 show ?case using co_invD(2) [OF inv] by simp
  next
    case 3 show ?case using co_invD(3) [OF inv] by simp
  next
    case 4 show ?case using co_invD(4) [OF inv] by simp
  next
    case 5 show ?case using keys by simp
  next
    case (6 p) then show ?case using co_invD(6) [OF inv, of p] by simp
  next
    case (7 k' v x) then show ?case using co_invD(7) [OF inv, of k' v x] by simp
  qed
qed

definition forgotten :: "coalescer_options \<Rightarrow> int \<Rightarrow> ('k, 'v) coalescer \<Rightarrow> ('k, 'v) coalescer" where
  "forgotten opts now s =
     s\<lparr>remembered := forgetExpired (maxRotations opts) now (remembered s), co_now := now,
       co_dropped := co_dropped s \<or> forgets_live (maxRotations opts) now (remembered s)\<rparr>"

lemmas co_inv_forgotten = co_inv_forget [folded forgotten_def]

lemma ask_cases:
  assumes inv: "co_inv opts succeeded s" and a: "ask opts now k s = (ans, s')"
  obtains (replay) e where "map_of (remembered s') k = Some e" "now < re_expiresAt e"
      "ans = Replay (re_value e)" "s' = forgotten opts now s"
    | (join) r where "map_of (inFlight s) k = Some r" "ans = Join r" "s' = forgotten opts now s"
    | (start) "map_of (inFlight s) k = None" "map_of (remembered (forgotten opts now s)) k = None"
        "ans = Start (co_next s)"
        "s' = (forgotten opts now s)\<lparr>inFlight := AList.update k (co_next s) (inFlight s),
          co_next := co_next s + 1\<rparr>"
proof -
  let ?m = "forgetExpired (maxRotations opts) now (remembered s)"
  have r: "remembered (forgotten opts now s) = ?m" by (simp add: forgotten_def)
  show ?thesis
  proof (cases "map_of ?m k")
    case (Some e)
    then have "(k, e) \<in> set ?m" by (rule map_of_SomeD)
    then have live: "now < re_expiresAt e"
      using forgetExpired_live [OF co_invD(3) [OF inv]] by fastforce
    with a Some have "ans = Replay (re_value e)" "s' = forgotten opts now s"
      by (auto simp: ask_def Let_def forgotten_def)
    with live Some r show ?thesis by (intro replay) simp_all
  next
    case None
    show ?thesis
    proof (cases "map_of (inFlight s) k")
      case (Some i)
      with a None have "ans = Join i" "s' = forgotten opts now s"
        by (auto simp: ask_def Let_def forgotten_def)
      with Some show ?thesis by (rule join)
    next
      case n: None
      with a None have "ans = Start (co_next s)"
        "s' = (forgotten opts now s)\<lparr>inFlight := AList.update k (co_next s) (inFlight s),
          co_next := co_next s + 1\<rparr>"
        by (auto simp: ask_def Let_def forgotten_def)
      with n None r show ?thesis by (intro start) simp_all
    qed
  qed
qed

lemma co_inv_ask:
  assumes inv: "co_inv opts succeeded s" and now: "co_now s \<le> now" and a: "ask opts now k s = (ans, s')"
  shows "co_inv opts succeeded s'"
proof -
  have f: "co_inv opts succeeded (forgotten opts now s)" by (rule co_inv_forgotten [OF inv now])
  show ?thesis
    using inv a
  proof (cases rule: ask_cases)
    case start
    have "inFlight (forgotten opts now s) = inFlight s" by (simp add: forgotten_def)
    with co_inv_start [OF f start(2), where r = "co_next s" and n = "co_next s + 1"] start(4) show ?thesis by simp
  qed (use f in simp_all)
qed

lemma co_inv_settle:
  assumes inv: "co_inv opts succeeded s" and now: "co_now s \<le> now" and grace: "0 \<le> graceMs opts"
    and k: "map_of (inFlight s) k = Some r"
  shows "co_inv opts succeeded (settle opts succeeded now k outcome s)"
proof -
  let ?d = "AList.delete k (inFlight s)"
  have wfd: "wf_map ?d" using co_invD(1) [OF inv] by simp
  have keys: "fst ` set ?d = fst ` set (inFlight s) - {k}"
    by (simp add: delete_keys flip: set_map) 
  have kin: "k \<in> fst ` set (inFlight s)" using map_of_SomeD [OF k] by force
  have fresh: "k \<notin> fst ` set (remembered s)" using co_invD(5) [OF inv] kin by blast
  have bound: "\<forall>x \<in> set (expiries (remembered s)). x \<le> now + graceMs opts"
    using co_invD(4) [OF inv] now by force
  have old: "co_inv opts succeeded (s\<lparr>inFlight := ?d, co_now := now\<rparr>)"
  proof (rule co_invI, goal_cases)
    case 1 show ?case using wfd by simp
  next
    case 2 show ?case using co_invD(2) [OF inv] by simp
  next
    case 3 show ?case using co_invD(3) [OF inv] by simp
  next
    case 4 show ?case using bound by simp
  next
    case 5 show ?case using co_invD(5) [OF inv] keys by auto
  next
    case (6 p) then show ?case using co_invD(6) [OF inv, of p] by simp
  next
    case (7 k' v x) then show ?case using co_invD(7) [OF inv, of k' v x] now by simp
  qed
  show ?thesis
  proof (cases "outcome = None \<or> \<not> succeeded (the outcome)")
    case True
    with old show ?thesis by (auto simp: settle_def Let_def split: option.splits)
  next
    case False
    then obtain v where v: "outcome = Some v" "succeeded v" by auto
    let ?x = "now + graceMs opts"
    let ?m = "remembered s @ [(k, \<lparr>re_value = v, re_expiresAt = ?x\<rparr>)]"
    have upd: "AList.update k \<lparr>re_value = v, re_expiresAt = ?x\<rparr> (remembered s) = ?m"
      by (rule update_fresh [OF fresh])
    have eq: "settle opts succeeded now k outcome s = s\<lparr>inFlight := ?d, co_now := now, remembered := ?m,
        co_succeeded := co_succeeded s @ [(k, v, ?x)]\<rparr>"
      using v by (simp add: settle_def Let_def upd)
    have wfm: "wf_map ?m" using co_invD(2) [OF inv] fresh by (auto simp: wf_map_def)
    have srt: "sorted (expiries ?m)"
      using co_invD(3) [OF inv] bound by (auto simp: expiries_def sorted_append)
    have bnd: "\<forall>x \<in> set (expiries ?m). x \<le> now + graceMs opts"
      using bound by (auto simp: expiries_def)
    have disj: "fst ` set ?d \<inter> fst ` set ?m = {}"
      using co_invD(5) [OF inv] keys by auto
    have kept: "map_of ?m k' = Some \<lparr>re_value = v', re_expiresAt = x'\<rparr>"
      if "\<not> co_dropped s" "(k', v', x') \<in> set (co_succeeded s @ [(k, v, ?x)])" "now < x'" for k' v' x'
    proof (cases "(k', v', x') \<in> set (co_succeeded s)")
      case True
      then have "map_of (remembered s) k' = Some \<lparr>re_value = v', re_expiresAt = x'\<rparr>"
        using co_invD(7) [OF inv that(1)] that now by simp
      then show ?thesis by (simp add: map_add_Some_iff)
    next
      case False
      with that have "k' = k" "v' = v" "x' = ?x" by auto
      moreover have "map_of (remembered s) k = None" using fresh by (simp add: map_of_eq_None_iff)
      ultimately show ?thesis by (simp add: map_add_def)
    qed
    show ?thesis unfolding eq
    proof (rule co_invI, goal_cases)
      case 1 show ?case using wfd by simp
    next
      case 2 show ?case using wfm by simp
    next
      case 3 show ?case using srt by simp
    next
      case 4 show ?case using bnd by simp
    next
      case 5 show ?case using disj by simp
    next
      case (6 p) then show ?case using co_invD(6) [OF inv, of p] v by auto
    next
      case (7 k' v' x') then show ?case using kept [of k' v' x'] by simp
    qed
  qed
qed

lemma co_inv_step:
  assumes "co_step opts succeeded s s'" "co_inv opts succeeded s" "0 \<le> graceMs opts"
  shows "co_inv opts succeeded s'"
  using assms(1)
proof (cases rule: co_step.cases)
  case (co_ask now k ans)
  then show ?thesis using co_inv_ask [OF assms(2)] by blast
next
  case (co_settle now k r outcome)
  then show ?thesis using co_inv_settle [OF assms(2) _ assms(3)] by blast
qed

lemma co_inv_reachable:
  assumes "co_reachable opts succeeded s" "0 \<le> graceMs opts"
  shows "co_inv opts succeeded s"
  using assms(1)
proof (induction rule: co_reachable.induct)
  case co_init
  then show ?case by (simp add: co_inv_def createRefreshCoalescer_def expiries_def)
next
  case (co_next_step s s')
  then show ?case using co_inv_step assms(2) by blast
qed

section \<open>An example run\<close>

text \<open>One token is rotated at time 0 and the rotation succeeds five milliseconds later.\<close>

definition default_options :: coalescer_options where
  "default_options = \<lparr>graceMs = REFRESH_REUSE_GRACE_MS, maxRotations = MAX_REMEMBERED_ROTATIONS\<rparr>"

definition rotated_once :: "(nat, bool) coalescer" where
  "rotated_once =
     settle default_options id 5 1 (Some True) (snd (ask default_options 0 1 createRefreshCoalescer))"

lemma rotated_once_state:
  "rotated_once = \<lparr>inFlight = [], remembered = [(1, \<lparr>re_value = True, re_expiresAt = 10005\<rparr>)],
     co_next = 1, co_now = 5, co_succeeded = [(1, True, 10005)], co_dropped = False\<rparr>"
  by (simp add: rotated_once_def default_options_def ask_def settle_def createRefreshCoalescer_def
    forgets_live_def REFRESH_REUSE_GRACE_MS_def MAX_REMEMBERED_ROTATIONS_def)

lemma rotated_once_reachable: "co_reachable default_options id rotated_once"
proof -
  let ?s = "snd (ask default_options 0 (1::nat) createRefreshCoalescer) :: (nat, bool) coalescer"
  have a: "ask default_options 0 (1::nat) (createRefreshCoalescer :: (nat, bool) coalescer) = (Start 0, ?s)"
    by (simp add: ask_def createRefreshCoalescer_def)
  have "co_step default_options id createRefreshCoalescer ?s"
    by (rule co_ask [OF _ a]) (simp add: createRefreshCoalescer_def)
  then have r: "co_reachable default_options id ?s" by (rule co_next_step [OF co_init])
  have "map_of (inFlight ?s) 1 = Some 0" "co_now ?s \<le> 5"
    by (simp_all add: ask_def createRefreshCoalescer_def)
  then have "co_step default_options id ?s rotated_once"
    unfolding rotated_once_def by (intro co_settle)
  with r show ?thesis by (rule co_next_step)
qed

section \<open>Properties\<close>



text \<open>
  C26: only successes are replayed, and only briefly.  A request that is answered from
  memory gets the outcome of a rotation of its own token that succeeded and whose grace has not
  ended; a failure is never replayed.
\<close>

theorem refresh_replay_sound:
  assumes "co_reachable opts succeeded s" "0 \<le> graceMs opts" "co_now s \<le> now"
    and "ask opts now k s = (Replay v, s')"
  shows "succeeded v \<and> (\<exists>x. (k, v, x) \<in> set (co_succeeded s) \<and> now < x)"
proof -
  have inv: "co_inv opts succeeded s" by (rule co_inv_reachable [OF assms(1,2)])
  have inv': "co_inv opts succeeded s'" by (rule co_inv_ask [OF inv assms(3,4)])
  show ?thesis
    using inv assms(4)
  proof (cases rule: ask_cases)
    case (replay e)
    have "(k, e) \<in> set (remembered s')" using replay(1) by (rule map_of_SomeD)
    moreover have "co_succeeded s' = co_succeeded s" using replay(4) by (simp add: forgotten_def)
    ultimately show ?thesis using co_invD(6) [OF inv', of "(k, e)"] replay by auto
  qed simp_all
qed

lemma refresh_replay_sound_witness:
  "\<exists>s'. ask default_options 9000 1 rotated_once = (Replay True, s') \<and>
     id True \<and> (\<exists>x. (1, True, x) \<in> set (co_succeeded rotated_once) \<and> 9000 < x)"
proof -
  obtain s' where a: "ask default_options 9000 1 rotated_once = (Replay True, s')"
    by (simp add: rotated_once_state ask_def Let_def default_options_def MAX_REMEMBERED_ROTATIONS_def)
  have "0 \<le> graceMs default_options" by (simp add: default_options_def REFRESH_REUSE_GRACE_MS_def)
  moreover have "co_now rotated_once \<le> 9000" by (simp add: rotated_once_state)
  ultimately show ?thesis using refresh_replay_sound [OF rotated_once_reachable _ _ a] a by blast
qed

end
