(* ===== verification/Bff_Proxy.thy ===== *)
theory Bff_Proxy
  imports Bff_Session Bff_Refresh
begin

text \<open>
  The catch-all route of the frontend server (app/api/[...path]/route.ts): it checks a browser's
  request, forwards it signed to the backend, turns issued tokens into cookies, rotates an expired
  session once and decides what the browser may keep.  \<open>fetch\<close> is the backend with its state; the
  world records every call that reached it.  Exceptions the code does not catch are \<^const>\<open>None\<close>.
\<close>

section \<open>The request, the backend and the response\<close>

record 'b bff_request =
  rq_method :: http_method
  rq_headers :: http_headers
  rq_cookies :: "(jstr \<times> jstr) list"
  rq_search :: jstr
  rq_origin :: jstr
  rq_protocol :: jstr
  rq_body :: 'b

record 'b upstream_call =
  uc_method :: http_method
  uc_target :: web_url
  uc_headers :: http_headers
  uc_body :: "'b option"

text \<open>A reply; \<open>up_json\<close> is what \<open>await upstream.json()\<close> gives, \<^const>\<open>None\<close> when it throws.\<close>

record 'b upstream_reply =
  up_status :: nat
  up_headers :: http_headers
  up_json :: "json option"
  up_body :: 'b

datatype 'b payload = EmptyBody | JsonBody json | RawBody 'b

datatype cookie_change = SetCookie jstr cookie_options | ClearCookie

record 'b bff_response =
  rs_status :: nat
  rs_headers :: http_headers
  rs_body :: "'b payload"
  rs_cookies :: "(string \<times> cookie_change) list"

datatype refresh_outcome = Rotated jstr jstr | RefreshFailed refresh_failure "jstr option"

fun outcome_ok :: "refresh_outcome \<Rightarrow> bool" where
  "outcome_ok (Rotated _ _) = True"
| "outcome_ok (RefreshFailed _ _) = False"

text \<open>
  The server's configuration and the platform functions it uses: node's digests, the URL parser's
  hosts, JSON text, and the clock at this request.  \<open>env_joined\<close> is the outcome of a rotation another
  request has in flight.
\<close>

record 'b bff_env =
  env_production :: bool
  env_base :: web_url
  env_host_origin :: "jstr \<Rightarrow> jstr option"
  env_origin_of :: "jstr \<Rightarrow> jstr option"
  env_admin :: admin_config
  env_v6_host :: "jstr \<Rightarrow> jstr option"
  env_signing :: signing_config
  env_sha256_body :: "'b option \<Rightarrow> jstr"
  env_sha256 :: "jstr \<Rightarrow> jstr"
  env_hmac :: "jstr \<Rightarrow> jstr \<Rightarrow> jstr"
  env_claims :: "jstr \<Rightarrow> json option"
  env_parse :: "'b option \<Rightarrow> json option"
  env_encode :: "json \<Rightarrow> 'b"
  env_now :: nat
  env_coalescer :: coalescer_options
  env_joined :: "nat \<Rightarrow> refresh_outcome option"

record ('b, 's) bff_world =
  net :: 's
  rotations :: "(jstr, refresh_outcome) coalescer"
  sent :: "'b upstream_call list"
  busted :: nat

type_synonym ('b, 's) backend = "'s \<Rightarrow> 'b upstream_call \<Rightarrow> 'b upstream_reply option \<times> 's"

definition up_ok :: "'b upstream_reply \<Rightarrow> bool" where
  "up_ok up \<longleftrightarrow> 200 \<le> up_status up \<and> up_status up < 300"

definition cookie_of :: "'b bff_request \<Rightarrow> string \<Rightarrow> jstr option" where
  "cookie_of request name = map_of (rq_cookies request) (js name)"

definition truthy :: "jstr option \<Rightarrow> bool" where
  "truthy v \<longleftrightarrow> (case v of None \<Rightarrow> False | Some s \<Rightarrow> s \<noteq> [])"

definition json_response :: "nat \<Rightarrow> http_headers \<Rightarrow> json \<Rightarrow> 'b bff_response" where
  "json_response status headers j =
     \<lparr>rs_status = status, rs_headers = hset ''content-type'' (js ''application/json'') headers,
      rs_body = JsonBody j, rs_cookies = []\<rparr>"

definition bffErrorBody :: "string \<Rightarrow> string \<Rightarrow> json" where
  "bffErrorBody errorCode detail =
     JObj [(js ''detail'', JStr (js detail)), (js ''error_code'', JStr (js errorCode)), (js ''params'', JObj [])]"

definition no_store :: http_headers where "no_store = [(js ''cache-control'', js ''no-store'')]"

definition set_header :: "string \<Rightarrow> jstr \<Rightarrow> 'b bff_response \<Rightarrow> 'b bff_response" where
  "set_header name v r = r\<lparr>rs_headers := hset name v (rs_headers r)\<rparr>"

definition set_cookie :: "string \<Rightarrow> cookie_change \<Rightarrow> 'b bff_response \<Rightarrow> 'b bff_response" where
  "set_cookie name c r = r\<lparr>rs_cookies := AList.update name c (rs_cookies r)\<rparr>"

definition applyAuthCookies :: "bool \<Rightarrow> jstr \<Rightarrow> jstr \<Rightarrow> 'b bff_response \<Rightarrow> 'b bff_response" where
  "applyAuthCookies production access refresh r =
     set_header ''cache-control'' (js ''no-store'')
       (set_cookie REFRESH_COOKIE (SetCookie refresh (authCookieOptions REFRESH_MAX_AGE_SECONDS production))
         (set_cookie ACCESS_COOKIE (SetCookie access (authCookieOptions ACCESS_MAX_AGE_SECONDS production)) r))"

definition clearAuthCookies :: "'b bff_response \<Rightarrow> 'b bff_response" where
  "clearAuthCookies r = set_cookie REFRESH_COOKIE ClearCookie (set_cookie ACCESS_COOKIE ClearCookie r)"

section \<open>Cross-site requests\<close>

definition firstForwardedValue :: "jstr option \<Rightarrow> jstr option" where
  "firstForwardedValue value =
     (case value of
        None \<Rightarrow> None
      | Some v \<Rightarrow> (let f = js_trim (hd (split_on 44 v)) in if f = [] then None else Some f))"

definition strip_colon :: "jstr \<Rightarrow> jstr" where
  "strip_colon s = (if s \<noteq> [] \<and> last s = 58 then butlast s else s)"

definition externalRequestOrigin :: "'b bff_env \<Rightarrow> 'b bff_request \<Rightarrow> jstr" where
  "externalRequestOrigin env request =
     (let host = (case firstForwardedValue (hget (rq_headers request) ''x-forwarded-host'') of
                    Some h \<Rightarrow> Some h | None \<Rightarrow> hget (rq_headers request) ''host'');
          protocol = (case firstForwardedValue (hget (rq_headers request) ''x-forwarded-proto'') of
                        Some p \<Rightarrow> p | None \<Rightarrow> strip_colon (rq_protocol request))
      in case host of
           None \<Rightarrow> rq_origin request
         | Some h \<Rightarrow>
             if h \<noteq> [] \<and> protocol \<in> {js ''http'', js ''https''}
             then (case env_origin_of env (protocol @ js ''://'' @ h) of
                     Some origin \<Rightarrow> origin | None \<Rightarrow> rq_origin request)
             else rq_origin request)"

definition csrfAllowed :: "'b bff_env \<Rightarrow> 'b bff_request \<Rightarrow> bool" where
  "csrfAllowed env request =
     (if \<not> unsafe_method (rq_method request) then True
      else let fetchSite = hget (rq_headers request) ''sec-fetch-site'' in
        if fetchSite = Some (js ''cross-site'') then False
        else if fetchSite = Some (js ''same-origin'') then True
        else (case hget (rq_headers request) ''origin'' of
                None \<Rightarrow> True | Some origin \<Rightarrow> origin = externalRequestOrigin env request))"

section \<open>Upstream calls\<close>

definition REQUEST_HEADER_ALLOWLIST :: "jstr list" where
  "REQUEST_HEADER_ALLOWLIST =
     [js ''accept'', js ''accept-language'', js ''content-type'', js ''user-agent'', js ''if-none-match'']"

definition with_client_ip :: "'b bff_env \<Rightarrow> 'b bff_request \<Rightarrow> http_headers \<Rightarrow> http_headers" where
  "with_client_ip env request headers =
     (case clientIpFromHeaders (env_v6_host env) (env_admin env) (rq_headers request) of
        None \<Rightarrow> headers | Some ip \<Rightarrow> hset ''x-client-ip'' ip headers)"

definition copyAllowlistedHeaders :: "'b bff_env \<Rightarrow> 'b bff_request \<Rightarrow> jstr \<Rightarrow> http_headers" where
  "copyAllowlistedHeaders env request requestId =
     with_client_ip env request
       (List.fold (\<lambda>(name, v) h. if to_lower name \<in> set REQUEST_HEADER_ALLOWLIST then AList.update (to_lower name) v h else h)
         (rq_headers request) (hset ''x-request-id'' requestId []))"

definition signedFetch ::
    "'b bff_env \<Rightarrow> ('b, 's) backend \<Rightarrow> http_method \<Rightarrow> web_url \<Rightarrow> http_headers \<Rightarrow> 'b option \<Rightarrow>
     ('b, 's) bff_world \<Rightarrow> 'b upstream_reply option \<times> ('b, 's) bff_world" where
  "signedFetch env fetch how target headers body w =
     (case signedHeaders (env_sha256_body env) (env_hmac env) (env_signing env) how target body (env_now env) of
        None \<Rightarrow> (None, w)
      | Some signature \<Rightarrow>
          (let call = \<lparr>uc_method = how, uc_target = target,
                       uc_headers = List.fold (\<lambda>(n, v) h. AList.update n v h) signature headers, uc_body = body\<rparr>;
               (reply, s) = fetch (net w) call
           in (reply, w\<lparr>net := s, sent := sent w @ [call]\<rparr>)))"

definition refreshFailed :: "nat option \<Rightarrow> jstr option \<Rightarrow> refresh_outcome" where
  "refreshFailed status retryAfter = RefreshFailed (refreshFailureKind status) retryAfter"

definition refresh_headers :: "'b bff_env \<Rightarrow> 'b bff_request \<Rightarrow> jstr \<Rightarrow> http_headers" where
  "refresh_headers env request requestId =
     (let copy = (\<lambda>name h. if truthy (hget (rq_headers request) name)
                           then hset name (the (hget (rq_headers request) name)) h else h)
      in with_client_ip env request
           (hset ''x-request-id'' requestId
             (hset ''content-type'' (js ''application/json'') (copy ''accept-language'' (copy ''accept'' [])))))"

definition rotateRefresh ::
    "'b bff_env \<Rightarrow> ('b, 's) backend \<Rightarrow> 'b bff_request \<Rightarrow> jstr \<Rightarrow> jstr \<Rightarrow> ('b, 's) bff_world \<Rightarrow>
     refresh_outcome option \<times> ('b, 's) bff_world" where
  "rotateRefresh env fetch request token requestId w =
     (case buildUpstreamTarget (env_host_origin env) [js ''auth'', js ''refresh''] (env_base env) of
        UpstreamThrows \<Rightarrow> (None, w)
      | UpstreamRejected \<Rightarrow> (Some (refreshFailed None None), w)
      | UpstreamTarget path target \<Rightarrow>
          (let body = env_encode env (JObj [(js ''refresh_token'', JStr token)]);
               (reply, w') = signedFetch env fetch POST target (refresh_headers env request requestId) (Some body) w
           in (Some (case reply of
                 None \<Rightarrow> refreshFailed None None
               | Some up \<Rightarrow>
                   if \<not> up_ok up then refreshFailed (Some (up_status up)) (hget (up_headers up) ''retry-after'')
                   else (case Option.bind (up_json up) tokensFromLoginPayload of
                           None \<Rightarrow> refreshFailed None None
                         | Some tokens \<Rightarrow> Rotated (accessToken tokens) (refreshToken tokens))), w')))"

definition rotateRefreshOnce ::
    "'b bff_env \<Rightarrow> ('b, 's) backend \<Rightarrow> 'b bff_request \<Rightarrow> jstr \<Rightarrow> jstr \<Rightarrow> ('b, 's) bff_world \<Rightarrow>
     refresh_outcome option \<times> ('b, 's) bff_world" where
  "rotateRefreshOnce env fetch request token requestId w =
     (let key = env_sha256 env token; now = int (env_now env);
          (answer, c) = ask (env_coalescer env) now key (rotations w);
          w1 = w\<lparr>rotations := c\<rparr>
      in case answer of
           Replay outcome \<Rightarrow> (Some outcome, w1)
         | Join r \<Rightarrow> (env_joined env r, w1)
         | Start r \<Rightarrow>
             (let (outcome, w2) = rotateRefresh env fetch request token requestId w1
              in (outcome, w2\<lparr>rotations := settle (env_coalescer env) outcome_ok now key outcome (rotations w2)\<rparr>)))"

section \<open>Responses\<close>

definition refreshUnavailableResponse :: "refresh_failure \<Rightarrow> jstr option \<Rightarrow> 'b bff_response" where
  "refreshUnavailableResponse failure retryAfter =
     (let r = (if failure = RateLimited
               then json_response 429 [] (bffErrorBody ''AUTH_RATE_LIMITED'' ''Too many attempts. Please try again later.'')
               else json_response 503 [] (bffErrorBody ''BACKEND_UNAVAILABLE'' ''The service is temporarily unavailable. Please try again.''));
          r' = (if truthy retryAfter then set_header ''retry-after'' (the retryAfter) r else r)
      in set_header ''cache-control'' (js ''no-store'') r')"

definition backendUnreachable :: "jstr \<Rightarrow> 'b bff_response" where
  "backendUnreachable requestId =
     json_response 502 ([(js ''x-request-id'', requestId)] @ no_store)
       (bffErrorBody ''BACKEND_UNAVAILABLE'' ''The service is temporarily unavailable. Please try again.'')"

definition hop_headers :: "string list" where
  "hop_headers = [''set-cookie'', ''content-length'', ''connection'', ''content-encoding'', ''transfer-encoding'', ''server'']"

definition passthroughUpstream ::
    "'b upstream_reply \<Rightarrow> ('b bff_response \<Rightarrow> 'b bff_response) \<Rightarrow> jstr option \<Rightarrow> 'b bff_response" where
  "passthroughUpstream up extra cacheControl =
     (let headers = List.fold (\<lambda>name h. AList.delete (js name) h) hop_headers (up_headers up);
          contentType = to_lower (case hget (up_headers up) ''content-type'' of None \<Rightarrow> [] | Some t \<Rightarrow> t)
      in if str_includes contentType (js ''text/event-stream'')
         then extra \<lparr>rs_status = up_status up,
                rs_headers = hset ''connection'' (js ''keep-alive'')
                  (hset ''x-accel-buffering'' (js ''no'')
                    (hset ''cache-control'' (js ''no-cache, no-transform'')
                      (hset ''content-type'' (js ''text/event-stream'') headers))),
                rs_body = RawBody (up_body up), rs_cookies = []\<rparr>
         else if \<not> up_ok up \<and> str_includes contentType (js ''application/json'')
         then (let fallback = bffErrorBody ''BACKEND_UNAVAILABLE'' ''The service is temporarily unavailable. Please try again.'';
                   j = (case up_json up of None \<Rightarrow> fallback | Some JNull \<Rightarrow> fallback | Some v \<Rightarrow> v);
                   requestId = hget (up_headers up) ''x-request-id''
               in extra (json_response (up_status up)
                    (if truthy requestId then no_store @ [(js ''x-request-id'', the requestId)] else no_store) j))
         else (let image = privateImageCacheControl (up_status up) contentType (hget (up_headers up) ''cache-control'');
                   policy = (case cacheControl of Some c \<Rightarrow> c | None \<Rightarrow> (case image of Some i \<Rightarrow> i | None \<Rightarrow> js ''no-store''))
               in extra \<lparr>rs_status = up_status up, rs_headers = hset ''cache-control'' policy headers,
                         rs_body = RawBody (up_body up), rs_cookies = []\<rparr>))"

definition proxyLogout ::
    "'b bff_env \<Rightarrow> ('b, 's) backend \<Rightarrow> 'b bff_request \<Rightarrow> ('b, 's) bff_world \<Rightarrow>
     'b bff_response option \<times> ('b, 's) bff_world" where
  "proxyLogout env fetch request w =
     (let done_response = clearAuthCookies \<lparr>rs_status = 204, rs_headers = [], rs_body = EmptyBody, rs_cookies = []\<rparr>;
          access = cookie_of request ACCESS_COOKIE
      in if truthy access
         then (case buildUpstreamTarget (env_host_origin env) [js ''auth'', js ''logout''] (env_base env) of
                 UpstreamThrows \<Rightarrow> (None, w)
               | UpstreamRejected \<Rightarrow> (Some done_response, w)
               | UpstreamTarget path target \<Rightarrow>
                   (let (reply, w') = signedFetch env fetch POST target
                          [(js ''authorization'', js ''Bearer '' @ the access)] None w
                    in (Some done_response, w')))
         else (Some done_response, w))"

section \<open>The route\<close>

definition LOGIN_PATHS :: "jstr list" where
  "LOGIN_PATHS = [js ''auth/login'', js ''auth/admin/login'', js ''auth/login/2fa'', js ''auth/register'']"

definition MAX_REQUEST_BODY_BYTES :: nat where "MAX_REQUEST_BODY_BYTES = 25 * 1024 * 1024"

definition request_tag :: "'b bff_env \<Rightarrow> 'b bff_request \<Rightarrow> jstr option" where
  "request_tag env request =
     sessionTag (env_claims env) (env_sha256 env) (cookie_of request ACCESS_COOKIE)
       (truthy (cookie_of request REFRESH_COOKIE))"

definition session_exempt :: "jstr \<Rightarrow> bool" where
  "session_exempt path \<longleftrightarrow> path = js ''me'' \<or> starts_with path (js ''auth/'')"

text \<open>The checks before anything is sent: an answer, an exception, or the path and its address.\<close>

datatype 'b admission = Answer "'b bff_response" | Throws | Admit jstr web_url

definition admit :: "'b bff_env \<Rightarrow> 'b bff_request \<Rightarrow> jstr \<Rightarrow> jstr list \<Rightarrow> 'b admission" where
  "admit env request requestId segments =
     (if \<not> csrfAllowed env request
      then Answer (json_response 403 [] (bffErrorBody ''CSRF_REJECTED'' ''This request was blocked. Refresh the page and try again.''))
      else case buildUpstreamTarget (env_host_origin env) segments (env_base env) of
        UpstreamThrows \<Rightarrow> Throws
      | UpstreamRejected \<Rightarrow> Answer (json_response 404 [] (bffErrorBody ''NOT_FOUND'' ''Not found''))
      | UpstreamTarget path target \<Rightarrow>
          if isAdminApiPath path \<and> \<not> adminRequestAllowed (env_v6_host env) (env_admin env) (rq_headers request)
          then Answer (json_response 404 [(js ''cache-control'', js ''private, no-store'')]
                         (bffErrorBody ''NOT_FOUND'' ''Not found''))
          else if \<not> session_exempt path \<and>
                  sessionMismatch (hget (rq_headers request) SESSION_EXPECT_HEADER) (request_tag env request)
          then Answer (json_response 409 (no_store @ [(js ''x-request-id'', requestId)])
                         (bffErrorBody ''SESSION_CHANGED''
                           ''You signed in or out in another tab. This page has been reloaded for the current account.''))
          else Admit path target)"

definition session_expired :: "'b bff_response" where
  "session_expired =
     json_response 401 [] (bffErrorBody ''SESSION_EXPIRED'' ''Your session has expired. Please sign in again.'')"

text \<open>\<open>POST auth/refresh\<close> and the other methods on that path.\<close>

definition proxyRefresh ::
    "'b bff_env \<Rightarrow> ('b, 's) backend \<Rightarrow> 'b bff_request \<Rightarrow> jstr \<Rightarrow> ('b, 's) bff_world \<Rightarrow>
     'b bff_response option \<times> ('b, 's) bff_world" where
  "proxyRefresh env fetch request requestId w =
     (if \<not> truthy (cookie_of request REFRESH_COOKIE) then (Some session_expired, w)
      else let (outcome, w') = rotateRefreshOnce env fetch request (the (cookie_of request REFRESH_COOKIE)) requestId w
           in (map_option (\<lambda>o'. case o' of
                   RefreshFailed failure retryAfter \<Rightarrow>
                     if failure \<noteq> Rejected then refreshUnavailableResponse failure retryAfter
                     else clearAuthCookies session_expired
                 | Rotated a r \<Rightarrow>
                     applyAuthCookies (env_production env) a r
                       (json_response 200 [] (JObj [(js ''token_type'', JStr (js ''bearer''))]))) outcome, w'))"

text \<open>The body to send: too large, nothing to claim, not an object, or the bytes.\<close>

datatype 'b body_choice = BodyAnswer "'b bff_response" | SendBody "'b option"

definition handoff_path :: "'b bff_request \<Rightarrow> jstr \<Rightarrow> bool" where
  "handoff_path request path \<longleftrightarrow> rq_method request = POST \<and> path \<in> set SIGNUP_HANDOFF_PATHS"

definition number_above :: "jsnum \<Rightarrow> nat \<Rightarrow> bool" where
  "number_above x n \<longleftrightarrow> (case x of Fin r \<Rightarrow> of_nat n < r | PosInf \<Rightarrow> True | NegInf \<Rightarrow> False | NaN \<Rightarrow> False)"

definition choose_body :: "'b bff_env \<Rightarrow> 'b bff_request \<Rightarrow> jstr \<Rightarrow> 'b body_choice" where
  "choose_body env request path =
     (if number_above (js_number_opt (hget (rq_headers request) ''content-length'')) MAX_REQUEST_BODY_BYTES
      then BodyAnswer (json_response 413 no_store
             (JObj [(js ''detail'', JStr (js ''The request is too large.'')),
                    (js ''error_code'', JStr (js ''REQUEST_TOO_LARGE'')),
                    (js ''params'', JObj [(js ''max_bytes'', JNum (of_nat MAX_REQUEST_BODY_BYTES)),
                                          (js ''max_mb'', JNum (of_nat MAX_REQUEST_BODY_BYTES / (1024 * 1024)))])]))
      else let body = (if rq_method request = GET \<or> rq_method request = HEAD then None else Some (rq_body request));
               handoff = cookie_of request SIGNUP_COOKIE in
        if handoff_path request path \<and> path = js ''auth/signup-handoff/claim'' \<and> \<not> truthy handoff
        then BodyAnswer (json_response 200 no_store
               (JObj [(js ''status'', JStr (js ''invalid'')), (js ''signed_in'', JBool False)]))
        else if handoff_path request path
        then (case bodyWithSignupHandoff (env_parse env) (env_encode env) body handoff of
                None \<Rightarrow> BodyAnswer (json_response 400 [] (bffErrorBody ''INVALID_REQUEST'' ''Invalid request body.''))
              | Some b \<Rightarrow> SendBody (Some b))
        else SendBody body)"

text \<open>A successful sign-in: cookies for the tokens, or a challenge; never the tokens themselves.\<close>

definition login_response :: "'b bff_env \<Rightarrow> jstr \<Rightarrow> 'b upstream_reply \<Rightarrow> 'b bff_response option" where
  "login_response env path up =
     (case up_json up of
        None \<Rightarrow> None
      | Some login \<Rightarrow>
          if login = JNull then None
          else if path = js ''auth/register'' \<and> bool_field login ''verification_required''
          then (let r = set_header ''cache-control'' (js ''no-store'')
                      (json_response (up_status up) [] (JObj [(js ''verification_required'', JBool True)]))
                in Some (case str_field login ''signup_handoff'' of
                     None \<Rightarrow> r
                   | Some h \<Rightarrow> set_cookie SIGNUP_COOKIE (SetCookie h (signupCookieOptions (env_production env))) r))
          else if bool_field login ''mfa_required'' \<and> str_field login ''mfa_token'' \<noteq> None
          then Some (set_header ''cache-control'' (js ''no-store'') (json_response 200 []
                 (JObj [(js ''mfa_required'', JBool True), (js ''mfa_token'', JStr (the (str_field login ''mfa_token'')))])))
          else case tokensFromLoginPayload login of
            None \<Rightarrow> Some (json_response 502 []
                      (bffErrorBody ''INVALID_LOGIN_RESPONSE'' ''Sign-in could not be completed. Please try again.''))
          | Some tokens \<Rightarrow> Some (applyAuthCookies (env_production env) (accessToken tokens) (refreshToken tokens)
                      (json_response 200 [] (JObj [(js ''token_type'', JStr (tokenType tokens))]))))"

text \<open>
  A sign-up handoff that succeeded: everything of the reply but its tokens.  A reply that is JSON but
  not an object counts as an empty one.
\<close>

fun json_fields :: "json \<Rightarrow> (jstr \<times> json) list" where
  "json_fields (JObj kvs) = kvs"
| "json_fields _ = []"

definition visible_fields :: "json \<Rightarrow> (jstr \<times> json) list" where
  "visible_fields j = without_field ''token_type'' (without_field ''refresh_token'' (without_field ''access_token'' (json_fields j)))"

definition handoff_response :: "'b bff_env \<Rightarrow> 'b upstream_reply \<Rightarrow> 'b bff_response option" where
  "handoff_response env up =
     (case up_json up of
        None \<Rightarrow> None
      | Some j \<Rightarrow>
          if j = JNull then None
          else (let tokens = tokensFromLoginPayload j;
               r = set_header ''cache-control'' (js ''no-store'') (json_response (up_status up) []
                     (JObj (AList.update (js ''signed_in'') (JBool (tokens \<noteq> None)) (visible_fields j))));
               r' = (case tokens of None \<Rightarrow> r
                     | Some t \<Rightarrow> applyAuthCookies (env_production env) (accessToken t) (refreshToken t) r)
           in Some (if tokens \<noteq> None \<or> json_get j ''status'' = Some (JStr (js ''invalid''))
                    then set_cookie SIGNUP_COOKIE
                           (SetCookie [] ((signupCookieOptions (env_production env))\<lparr>maxAge := 0\<rparr>)) r'
                    else r')))"

definition bearer :: "jstr \<Rightarrow> http_headers \<Rightarrow> http_headers" where
  "bearer token headers = hset ''authorization'' (js ''Bearer '' @ token) headers"

text \<open>The first reply was 401 and the browser has a refresh cookie: rotate it and try once more.\<close>

definition retry ::
    "'b bff_env \<Rightarrow> ('b, 's) backend \<Rightarrow> 'b bff_request \<Rightarrow> jstr \<Rightarrow> web_url \<Rightarrow> 'b option \<Rightarrow> 'b upstream_reply \<Rightarrow>
     ('b, 's) bff_world \<Rightarrow> 'b bff_response option \<times> ('b, 's) bff_world" where
  "retry env fetch request requestId target body up w =
     (let (outcome, w1) = rotateRefreshOnce env fetch request (the (cookie_of request REFRESH_COOKIE)) requestId w
      in case outcome of
           None \<Rightarrow> (None, w1)
         | Some (Rotated access refresh) \<Rightarrow>
             (let (retried, w2) = signedFetch env fetch (rq_method request) target
                    (bearer access (copyAllowlistedHeaders env request requestId)) body w1
              in (Some (case retried of
                    None \<Rightarrow> backendUnreachable requestId
                  | Some again \<Rightarrow> passthroughUpstream again (applyAuthCookies (env_production env) access refresh) None), w2))
         | Some (RefreshFailed failure retryAfter) \<Rightarrow>
             (Some (if failure \<noteq> Rejected then refreshUnavailableResponse failure retryAfter
                    else passthroughUpstream up clearAuthCookies None), w1))"

definition after_upstream ::
    "'b bff_env \<Rightarrow> ('b, 's) backend \<Rightarrow> 'b bff_request \<Rightarrow> jstr \<Rightarrow> jstr \<Rightarrow> web_url \<Rightarrow> 'b option \<Rightarrow> 'b upstream_reply \<Rightarrow>
     ('b, 's) bff_world \<Rightarrow> 'b bff_response option \<times> ('b, 's) bff_world" where
  "after_upstream env fetch request requestId path target body up w =
     (if path \<in> set LOGIN_PATHS \<and> up_ok up then (login_response env path up, w)
      else if handoff_path request path \<and> up_ok up then (handoff_response env up, w)
      else if up_status up = 401 \<and> truthy (cookie_of request REFRESH_COOKIE) \<and> path \<notin> set LOGIN_PATHS
      then retry env fetch request requestId target body up w
      else let w' = (if catalogWritePath (rq_method request) path (up_status up) then w\<lparr>busted := busted w + 1\<rparr> else w);
               cacheControl = publicCacheControl (rq_method request) path (up_status up)
                 (truthy (cookie_of request ACCESS_COOKIE) \<or> truthy (cookie_of request REFRESH_COOKIE));
               r = passthroughUpstream up id cacheControl
           in (Some (if up_status up = 401 then clearAuthCookies r else r), w'))"

definition forward ::
    "'b bff_env \<Rightarrow> ('b, 's) backend \<Rightarrow> 'b bff_request \<Rightarrow> jstr \<Rightarrow> jstr \<Rightarrow> web_url \<Rightarrow> ('b, 's) bff_world \<Rightarrow>
     'b bff_response option \<times> ('b, 's) bff_world" where
  "forward env fetch request requestId path target0 w =
     (let target = target0\<lparr>url_search := rq_search request\<rparr>;
          access = cookie_of request ACCESS_COOKIE;
          copied = copyAllowlistedHeaders env request requestId;
          headers = (if truthy access then bearer (the access) copied else copied)
      in case choose_body env request path of
           BodyAnswer r \<Rightarrow> (Some r, w)
         | SendBody body \<Rightarrow>
             (let (reply, w1) = signedFetch env fetch (rq_method request) target headers body w
              in case reply of
                   None \<Rightarrow> (Some (backendUnreachable requestId), w1)
                 | Some up \<Rightarrow> after_upstream env fetch request requestId path target body up w1))"

definition proxy ::
    "'b bff_env \<Rightarrow> ('b, 's) backend \<Rightarrow> 'b bff_request \<Rightarrow> jstr \<Rightarrow> jstr list \<Rightarrow> ('b, 's) bff_world \<Rightarrow>
     'b bff_response option \<times> ('b, 's) bff_world" where
  "proxy env fetch request requestId segments w =
     (case admit env request requestId segments of
        Answer r \<Rightarrow> (Some r, w)
      | Throws \<Rightarrow> (None, w)
      | Admit path target \<Rightarrow>
          if path = js ''auth/session'' \<and> unsafe_method (rq_method request) then proxyLogout env fetch request w
          else if path = js ''auth/refresh'' then proxyRefresh env fetch request requestId w
          else forward env fetch request requestId path target w)"

text \<open>The exported handler labels the response with the account it was served as.\<close>

definition handler ::
    "'b bff_env \<Rightarrow> ('b, 's) backend \<Rightarrow> 'b bff_request \<Rightarrow> jstr \<Rightarrow> jstr list \<Rightarrow> ('b, 's) bff_world \<Rightarrow>
     'b bff_response option \<times> ('b, 's) bff_world" where
  "handler env fetch request requestId segments w =
     (let (response, w') = proxy env fetch request requestId segments w
      in (map_option (\<lambda>r.
            let tag = (case map_of (rs_cookies r) ACCESS_COOKIE of
                         Some ClearCookie \<Rightarrow> Some ANONYMOUS_TAG
                       | Some (SetCookie v _) \<Rightarrow>
                           if v = [] then Some ANONYMOUS_TAG
                           else sessionTag (env_claims env) (env_sha256 env) (Some v) False
                       | None \<Rightarrow> request_tag env request)
            in case tag of None \<Rightarrow> r | Some t \<Rightarrow> if t = [] then r else set_header SESSION_TAG_HEADER t r) response, w'))"

end
