(* ===== verification/Bff_Route.thy ===== *)
theory Bff_Route
  imports Bff_Proxy
begin

text \<open>
  What the catch-all route guarantees: refused requests reach nobody, calls upstream are few and carry
  only allowed headers, tokens stay out of the page's reach, outages do not end a session and only
  anonymous catalog reads are shared.
\<close>

section \<open>Calls of one request\<close>

text \<open>The calls a step adds to the world's record.\<close>

definition adds :: "nat \<Rightarrow> ('b upstream_call \<Rightarrow> bool) \<Rightarrow> ('b, 's) bff_world \<Rightarrow> ('b, 's) bff_world \<Rightarrow> bool" where
  "adds n P w w' \<longleftrightarrow> (\<exists>cs. sent w' = sent w @ cs \<and> length cs \<le> n \<and> list_all P cs) \<and> busted w \<le> busted w'"

lemma adds_none [intro]: "sent w' = sent w \<Longrightarrow> busted w \<le> busted w' \<Longrightarrow> adds n P w w'"
  by (auto simp: adds_def)

lemma adds_trans: "adds m P w w' \<Longrightarrow> adds n P w' w'' \<Longrightarrow> adds (m + n) P w w''"
  unfolding adds_def by fastforce

lemma adds_add: "adds m P w w' \<Longrightarrow> adds n P w' w'' \<Longrightarrow> k = m + n \<Longrightarrow> adds k P w w''"
  using adds_trans by blast

lemma adds_mono: "adds m P w w' \<Longrightarrow> m \<le> n \<Longrightarrow> adds n P w w'"
  unfolding adds_def by fastforce

definition call_headers_ok :: "jstr list \<Rightarrow> 'b upstream_call \<Rightarrow> bool" where
  "call_headers_ok names c \<longleftrightarrow> fst ` set (uc_headers c) \<subseteq> set names"

definition FORWARDED_HEADERS :: "jstr list" where
  "FORWARDED_HEADERS = REQUEST_HEADER_ALLOWLIST @
     [js ''x-request-id'', js ''x-client-ip'', js ''authorization'', js ''x-api-key'', js ''x-timestamp'', js ''x-signature'']"

lemma keys_update [simp]: "fst ` set (AList.update k v h) = insert k (fst ` set h)"
  by (simp add: AList.dom_update)

lemma keys_hset [simp]: "fst ` set (hset name v h) = insert (js name) (fst ` set h)"
  by (simp add: hset_def)

lemma keys_fold_update: "fst ` set (List.fold (\<lambda>(n, v) h. AList.update n v h) xs h) = fst ` set h \<union> fst ` set xs"
proof (induction xs arbitrary: h)
  case (Cons p xs)
  show ?case using Cons [of "AList.update (fst p) (snd p) h"] by (simp add: split_def del: Un_iff)
qed simp

lemma signed_names:
  "signedHeaders sha hmac config how target body now = Some sig \<Longrightarrow>
     fst ` set sig = {js ''x-api-key'', js ''x-timestamp'', js ''x-signature''}"
  by (auto simp: signedHeaders_def Let_def simp del: js_Cons split: option.splits if_splits)

lemma signedFetch_adds:
  assumes "signedFetch env fetch how target headers body w = (reply, w')"
    and "fst ` set headers \<subseteq> set FORWARDED_HEADERS"
  shows "adds 1 (call_headers_ok FORWARDED_HEADERS) w w'"
proof (cases "signedHeaders (env_sha256_body env) (env_hmac env) (env_signing env) how target body (env_now env)")
  case None
  with assms(1) show ?thesis by (intro adds_none) (simp_all add: signedFetch_def)
next
  case (Some sig)
  obtain c where c: "sent w' = sent w @ [c]" "busted w' = busted w"
      "uc_headers c = List.fold (\<lambda>(n, v) h. AList.update n v h) sig headers"
    using assms(1) Some by (auto simp: signedFetch_def Let_def split: prod.splits)
  have "fst ` set (uc_headers c) \<subseteq> set FORWARDED_HEADERS"
    using assms(2) signed_names [OF Some] unfolding c(3) keys_fold_update
    by (auto simp: FORWARDED_HEADERS_def simp del: js_Cons)
  then show ?thesis using c by (auto simp: adds_def call_headers_ok_def)
qed

lemma signedFetch_reply:
  "signedFetch env fetch how target headers body w = (Some up, w') \<Longrightarrow> \<exists>s c. fst (fetch s c) = Some up"
  unfolding signedFetch_def Let_def by (force split: option.splits prod.splits dest: arg_cong [where f = fst])

lemma with_client_ip_names:
  "fst ` set (with_client_ip env request h) \<subseteq> insert (js ''x-client-ip'') (fst ` set h)"
  by (auto simp: with_client_ip_def simp del: js_Cons split: option.splits)

lemma copied_names: "fst ` set (copyAllowlistedHeaders env request requestId) \<subseteq> set FORWARDED_HEADERS"
proof -
  have "fst ` set (List.fold (\<lambda>(name, v) h. if to_lower name \<in> set REQUEST_HEADER_ALLOWLIST
          then AList.update (to_lower name) v h else h) xs h) \<subseteq> fst ` set h \<union> set REQUEST_HEADER_ALLOWLIST" for xs h
  proof (induction xs arbitrary: h)
    case (Cons p xs)
    show ?case
      using Cons [of "AList.update (to_lower (fst p)) (snd p) h"] Cons [of h]
      by (auto simp: split_def keys_update simp del: Un_iff intro: order_trans)
  qed simp
  then have "fst ` set (List.fold (\<lambda>(name, v) h. if to_lower name \<in> set REQUEST_HEADER_ALLOWLIST
          then AList.update (to_lower name) v h else h) (rq_headers request) (hset ''x-request-id'' requestId []))
      \<subseteq> insert (js ''x-request-id'') (set REQUEST_HEADER_ALLOWLIST)"
    by (rule order_trans) simp
  then have "fst ` set (copyAllowlistedHeaders env request requestId) \<subseteq>
      insert (js ''x-client-ip'') (insert (js ''x-request-id'') (set REQUEST_HEADER_ALLOWLIST))"
    unfolding copyAllowlistedHeaders_def by (intro order_trans [OF with_client_ip_names] insert_mono)
  then show ?thesis unfolding FORWARDED_HEADERS_def by (rule order_trans) auto
qed

lemma refresh_names: "fst ` set (refresh_headers env request requestId) \<subseteq> set FORWARDED_HEADERS"
proof -
  have "fst ` set (refresh_headers env request requestId) \<subseteq>
      {js ''x-client-ip'', js ''x-request-id'', js ''content-type'', js ''accept'', js ''accept-language''}"
    unfolding refresh_headers_def Let_def
    by (rule order_trans [OF with_client_ip_names])
      (cases "truthy (hget (rq_headers request) ''accept'')";
       cases "truthy (hget (rq_headers request) ''accept-language'')"; simp del: js_Cons)
  also have "\<dots> \<subseteq> set FORWARDED_HEADERS"
    by (simp add: FORWARDED_HEADERS_def REQUEST_HEADER_ALLOWLIST_def del: js_Cons)
  finally show ?thesis .
qed

lemma bearer_names:
  "fst ` set h \<subseteq> set FORWARDED_HEADERS \<Longrightarrow> fst ` set (bearer token h) \<subseteq> set FORWARDED_HEADERS"
  by (simp add: bearer_def FORWARDED_HEADERS_def del: js_Cons)

abbreviation adds_ok :: "nat \<Rightarrow> ('b, 's) bff_world \<Rightarrow> ('b, 's) bff_world \<Rightarrow> bool" where
  "adds_ok n \<equiv> adds n (call_headers_ok FORWARDED_HEADERS)"

lemma rotateRefresh_adds:
  "rotateRefresh env fetch request token requestId w = (outcome, w') \<Longrightarrow> adds_ok 1 w w'"
  using signedFetch_adds [OF _ refresh_names]
  by (auto simp: rotateRefresh_def Let_def split: upstream_target.splits prod.splits)

lemma adds_rotations [simp]:
  "adds n P (w\<lparr>rotations := c\<rparr>) w' = adds n P w w'" "adds n P w (w'\<lparr>rotations := c\<rparr>) = adds n P w w'"
  by (simp_all add: adds_def)

lemma rotateRefreshOnce_adds:
  "rotateRefreshOnce env fetch request token requestId w = (outcome, w') \<Longrightarrow> adds_ok 1 w w'"
proof -
  assume a: "rotateRefreshOnce env fetch request token requestId w = (outcome, w')"
  obtain answer c where k: "ask (env_coalescer env) (int (env_now env)) (env_sha256 env token) (rotations w) = (answer, c)"
    by fastforce
  show ?thesis
  proof (cases answer)
    case (Start r)
    obtain o' w2 where r: "rotateRefresh env fetch request token requestId (w\<lparr>rotations := c\<rparr>) = (o', w2)" by fastforce
    have "rotateRefreshOnce env fetch request token requestId w = (o', w2\<lparr>rotations := settle (env_coalescer env) outcome_ok (int (env_now env))
        (env_sha256 env token) o' (rotations w2)\<rparr>)"
      using k Start r by (simp add: rotateRefreshOnce_def Let_def)
    with a have "w' = w2\<lparr>rotations := settle (env_coalescer env) outcome_ok (int (env_now env))
        (env_sha256 env token) o' (rotations w2)\<rparr>"
      by (metis prod.inject)
    with rotateRefresh_adds [OF r] show ?thesis by simp
  qed (use a k in \<open>auto simp: rotateRefreshOnce_def Let_def\<close>)
qed

lemma retry_adds: "retry env fetch request requestId target body up w = (r, w') \<Longrightarrow> adds_ok 2 w w'"
proof -
  assume a: "retry env fetch request requestId target body up w = (r, w')"
  obtain o1 w1 where o: "rotateRefreshOnce env fetch request (the (cookie_of request REFRESH_COOKIE)) requestId w = (o1, w1)"
    by fastforce
  note one = rotateRefreshOnce_adds [OF o]
  show ?thesis
  proof (cases "\<exists>access refresh. o1 = Some (Rotated access refresh)")
    case True
    then obtain access refresh where ar: "o1 = Some (Rotated access refresh)" by blast
    obtain again w2 where f: "signedFetch env fetch (rq_method request) target
        (bearer access (copyAllowlistedHeaders env request requestId)) body w1 = (again, w2)" by fastforce
    from a o ar f have "w' = w2" by (simp add: retry_def)
    with adds_trans [OF one signedFetch_adds [OF f bearer_names [OF copied_names]]] show ?thesis
      by (simp add: numeral_2_eq_2)
  next
    case False
    with a o have "w' = w1" by (auto simp: retry_def split: option.splits refresh_outcome.splits)
    with one adds_mono [of 1 _ w w1 2] show ?thesis by simp
  qed
qed

lemma after_upstream_adds:
  "after_upstream env fetch request requestId path target body up w = (r, w') \<Longrightarrow>
     adds_ok (if up_status up = 401 then 2 else 0) w w'"
  using retry_adds
  by (auto simp: after_upstream_def Let_def split: if_splits)

lemma forward_cases:
  assumes "forward env fetch request requestId path target w = (r, w')"
  obtains (answered) b where "choose_body env request path = BodyAnswer b" "r = Some b" "w' = w"
  | (sent) body headers reply w1 where "choose_body env request path = SendBody body"
      "fst ` set headers \<subseteq> set FORWARDED_HEADERS"
      "signedFetch env fetch (rq_method request) (target\<lparr>url_search := rq_search request\<rparr>) headers body w = (reply, w1)"
      "case reply of None \<Rightarrow> r = Some (backendUnreachable requestId) \<and> w' = w1
       | Some up \<Rightarrow> after_upstream env fetch request requestId path (target\<lparr>url_search := rq_search request\<rparr>) body up w1 = (r, w')"
proof (cases "choose_body env request path")
  case (BodyAnswer b)
  with assms have "r = Some b" "w' = w" by (auto simp: forward_def Let_def)
  with BodyAnswer show ?thesis by (rule answered)
next
  case (SendBody body)
  let ?copied = "copyAllowlistedHeaders env request requestId"
  let ?headers = "if truthy (cookie_of request ACCESS_COOKIE)
    then bearer (the (cookie_of request ACCESS_COOKIE)) ?copied else ?copied"
  let ?target = "target\<lparr>url_search := rq_search request\<rparr>"
  obtain reply w1 where f: "signedFetch env fetch (rq_method request) ?target ?headers body w = (reply, w1)"
    by fastforce
  have h: "fst ` set ?headers \<subseteq> set FORWARDED_HEADERS"
    using copied_names [of env request requestId]
      bearer_names [OF copied_names [of env request requestId], of "the (cookie_of request ACCESS_COOKIE)"] by presburger
  show ?thesis
    by (rule sent [OF SendBody h f]) (use assms SendBody f in \<open>auto simp: forward_def Let_def split: option.splits\<close>)
qed

lemma proxyLogout_adds: "proxyLogout env fetch request w = (r, w') \<Longrightarrow> adds_ok 1 w w'"
proof -
  assume a: "proxyLogout env fetch request w = (r, w')"
  define h where "h = [(js ''authorization'', js ''Bearer '' @ the (cookie_of request ACCESS_COOKIE))]"
  have names: "fst ` set h \<subseteq> set FORWARDED_HEADERS"
    by (simp add: h_def FORWARDED_HEADERS_def del: js_Cons)
  have one: "adds_ok 1 w w1" if "signedFetch env fetch POST target h None w = (reply, w1)" for target reply w1
    using that names by (rule signedFetch_adds)
  show ?thesis
  proof (cases "truthy (cookie_of request ACCESS_COOKIE)")
    case True
    then show ?thesis
      using a one unfolding proxyLogout_def Let_def h_def [symmetric]
      by (auto simp del: js_Cons One_nat_def split: upstream_target.splits prod.splits)
  qed (use a in \<open>auto simp: proxyLogout_def\<close>)
qed

lemma proxyRefresh_adds: "proxyRefresh env fetch request requestId w = (r, w') \<Longrightarrow> adds_ok 1 w w'"
  using rotateRefreshOnce_adds
  by (auto simp: proxyRefresh_def Let_def split: if_splits prod.splits)

lemma forward_adds:
  assumes "forward env fetch request requestId path target w = (r, w')"
  shows "adds_ok 3 w w'"
  using assms
proof (cases rule: forward_cases)
  case answered
  then show ?thesis by auto
next
  case (sent body headers reply w1)
  note one = signedFetch_adds [OF sent(3,2)]
  show ?thesis
  proof (cases reply)
    case None
    with one adds_mono [of 1 _ w w1 3] sent(4) show ?thesis by simp
  next
    case (Some up)
    with sent(4) after_upstream_adds have "adds_ok 2 w1 w'"
      by (fastforce intro: adds_mono)
    show ?thesis by (rule adds_add [OF one \<open>adds_ok 2 w1 w'\<close>]) simp
  qed
qed

section \<open>An example server\<close>

text \<open>
  A backend with one account: it answers 401 until the session is rotated, and the digests are the
  identity.
\<close>

definition demo_env :: "json bff_env" where
  "demo_env = \<lparr>env_production = True,
     env_base = \<lparr>url_origin = js ''http://api'', pathname = js ''/'', url_search = []\<rparr>,
     env_host_origin = (\<lambda>_. None), env_origin_of = Some,
     env_admin = \<lparr>ADMIN_ALLOWED_IPS = None, ADMIN_CLIENT_IP_HEADER = None\<rparr>, env_v6_host = (\<lambda>_. None),
     env_signing = \<lparr>signing_key_id = None, signing_secret = Some (js ''s'')\<rparr>,
     env_sha256_body = (\<lambda>_. []), env_sha256 = id, env_hmac = (\<lambda>_ _. []),
     env_claims = (\<lambda>t. Some (JObj [(js ''sub'', JStr t)])),
     env_parse = (\<lambda>b. b), env_encode = id, env_now = 0,
     env_coalescer = \<lparr>graceMs = 10000, maxRotations = 10000\<rparr>, env_joined = (\<lambda>_. None)\<rparr>"

definition demo_request :: "http_method \<Rightarrow> http_headers \<Rightarrow> (jstr \<times> jstr) list \<Rightarrow> json bff_request" where
  "demo_request how headers cookies =
     \<lparr>rq_method = how, rq_headers = headers, rq_cookies = cookies, rq_search = [], rq_origin = js ''https://shop'',
      rq_protocol = js ''https:'', rq_body = JObj []\<rparr>"

definition demo_world :: "'s \<Rightarrow> (json, 's) bff_world" where
  "demo_world s = \<lparr>net = s, rotations = createRefreshCoalescer, sent = [], busted = 0\<rparr>"

section \<open>Properties\<close>

lemma refused_general:
  assumes "unsafe_method (rq_method request) \<and> hget (rq_headers request) ''sec-fetch-site'' = Some (js ''cross-site'') \<or>
    (\<exists>path target.
       buildUpstreamTarget (env_host_origin env) segments (env_base env) = UpstreamTarget path target \<and>
       (isAdminApiPath path \<and> \<not> adminRequestAllowed (env_v6_host env) (env_admin env) (rq_headers request) \<or>
        \<not> session_exempt path \<and>
          sessionMismatch (hget (rq_headers request) SESSION_EXPECT_HEADER) (request_tag env request)))"
  shows "\<exists>r. proxy env fetch request requestId segments w = (Some r, w) \<and>
           rs_status r \<in> {403, 404, 409} \<and> rs_cookies r = []"
proof -
  have "\<exists>r. admit env request requestId segments = Answer r \<and> rs_status r \<in> {403, 404, 409} \<and> rs_cookies r = []"
  proof (cases "csrfAllowed env request")
    case False
    then show ?thesis by (simp add: admit_def json_response_def)
  next
    case True
    then have "\<not> (unsafe_method (rq_method request) \<and>
        hget (rq_headers request) ''sec-fetch-site'' = Some (js ''cross-site''))"
      by (auto simp: csrfAllowed_def Let_def simp del: js_Cons)
    with assms True show ?thesis by (auto simp: admit_def json_response_def)
  qed
  then show ?thesis by (auto simp: proxy_def)
qed




text \<open>
  C18: a purchase is not sent twice.  When the backend's answers are never 401, a request is
  forwarded once at most.
\<close>

theorem no_retry_without_401:
  assumes "\<And>s c. case fst (fetch s c) of None \<Rightarrow> True | Some up \<Rightarrow> up_status up \<noteq> 401"
  shows "\<exists>calls. sent (snd (proxy env fetch request requestId segments w)) = sent w @ calls \<and> length calls \<le> 1"
proof -
  obtain r w' where p: "proxy env fetch request requestId segments w = (r, w')" by fastforce
  have fwd: "adds_ok 1 w w'" if f: "forward env fetch request requestId path target w = (r, w')" for path target
    using f
  proof (cases rule: forward_cases)
    case answered
    then show ?thesis by auto
  next
    case (sent body headers reply w1)
    note one = signedFetch_adds [OF sent(3,2)]
    show ?thesis
    proof (cases reply)
      case None
      with one sent(4) show ?thesis by simp
    next
      case (Some up)
      obtain s c where "fst (fetch s c) = Some up"
        using signedFetch_reply [OF sent(3) [unfolded Some]] by blast
      with assms [of s c] have "up_status up \<noteq> 401" by simp
      with sent(4) Some after_upstream_adds have "adds_ok 0 w1 w'" by fastforce
      with adds_trans [OF one] show ?thesis by simp
    qed
  qed
  have "adds_ok 1 w w'"
  proof (cases "admit env request requestId segments")
    case (Admit path target)
    with p proxyLogout_adds [of env fetch request w] proxyRefresh_adds [of env fetch request requestId w] fwd
    show ?thesis by (auto simp: proxy_def simp del: js_Cons split: if_splits)
  qed (use p in \<open>auto simp: proxy_def\<close>)
  with p show ?thesis by (auto simp: adds_def)
qed

lemma no_retry_without_401_witness:
  "\<exists>calls. sent (snd (proxy demo_env (\<lambda>s c. (None, s)) (demo_request POST [] []) [] [js ''orders''] (demo_world ()))) =
     sent (demo_world ()) @ calls \<and> length calls \<le> 1"
  by (rule no_retry_without_401) simp

text \<open>The JSON of a response without the fields that hold tokens.\<close>

definition tokens_absent :: "'b bff_response \<Rightarrow> bool" where
  "tokens_absent r \<longleftrightarrow>
     (case rs_body r of JsonBody j \<Rightarrow> json_get j ''access_token'' = None \<and> json_get j ''refresh_token'' = None | _ \<Rightarrow> False)"

text \<open>Session cookies that page script cannot read and other sites cannot send.\<close>

definition cookies_sealed :: "'b bff_response \<Rightarrow> bool" where
  "cookies_sealed r \<longleftrightarrow>
     list_all (\<lambda>(name, c). case c of ClearCookie \<Rightarrow> True | SetCookie v opts \<Rightarrow> httpOnly opts \<and> sameSite opts = Strict) (rs_cookies r)"

lemma js_noteq [simp]: "s \<noteq> t \<Longrightarrow> js s \<noteq> js t"
  by (simp add: js_eq_iff)

lemma json_get_Cons [simp]:
  "json_get (JObj ((js a, v) # kvs)) b = (if a = b then Some v else json_get (JObj kvs) b)"
  by (simp add: js_eq_iff)

lemma json_get_Nil [simp]: "json_get (JObj []) b = None"
  by simp

lemma response_simps [simp]:
  "rs_body (json_response status h j) = JsonBody j" "rs_cookies (json_response status h j) = []"
  "rs_body (set_header name v r) = rs_body r" "rs_cookies (set_header name v r) = rs_cookies r"
  "rs_body (set_cookie name c r) = rs_body r" "rs_cookies (set_cookie name c r) = AList.update name c (rs_cookies r)"
  "rs_body (applyAuthCookies p a b r) = rs_body r"
  "rs_status (json_response status h j) = status" "rs_status (set_header name v r) = rs_status r"
  "rs_status (set_cookie name c r) = rs_status r"
  "rs_headers (set_cookie name c r) = rs_headers r" "rs_headers (set_header name v r) = hset name v (rs_headers r)"
  "rs_headers (clearAuthCookies r) = rs_headers r"
  by (simp_all add: json_response_def set_header_def set_cookie_def applyAuthCookies_def clearAuthCookies_def)

lemma sealed_set:
  "cookies_sealed r \<Longrightarrow> httpOnly opts \<Longrightarrow> sameSite opts = Strict \<Longrightarrow> cookies_sealed (set_cookie name (SetCookie v opts) r)"
  using set_update_subset by (fastforce simp: cookies_sealed_def list_all_iff)

lemma sealed_header [simp]: "cookies_sealed (set_header name v r) = cookies_sealed r"
  by (simp add: cookies_sealed_def)

lemma sealed_json [simp]: "cookies_sealed (json_response status h j)"
  by (simp add: cookies_sealed_def)

lemma sealed_auth: "cookies_sealed r \<Longrightarrow> cookies_sealed (applyAuthCookies p a b r)"
  unfolding applyAuthCookies_def sealed_header
  by (intro sealed_set) (simp_all add: authCookieOptions_def)

lemma login_sealed: "login_response env path up = Some r \<Longrightarrow> tokens_absent r \<and> cookies_sealed r"
  by (auto simp: login_response_def Let_def tokens_absent_def bffErrorBody_def signupCookieOptions_def authCookieOptions_def
      simp del: js_Cons json_get.simps intro!: sealed_auth sealed_set
      split: option.splits json.splits if_splits)

lemma json_get_update: "json_get (JObj (AList.update (js k) v kvs)) name = (if k = name then Some v else json_get (JObj kvs) name)"
  by (simp add: update_conv' js_eq_iff)

lemma json_get_without: "json_get (JObj (without_field k kvs)) name = (if k = name then None else json_get (JObj kvs) name)"
  by (simp add: without_field_def delete_conv' js_eq_iff)

lemma absent_simps [simp]:
  "tokens_absent (set_cookie name c r) = tokens_absent r"
  "tokens_absent (set_header name v r) = tokens_absent r"
  "tokens_absent (applyAuthCookies p a b r) = tokens_absent r"
  by (simp_all add: tokens_absent_def)

lemma if_either: "x = (if P then a else b) \<Longrightarrow> x = b \<or> x = a"
  by (cases P) simp_all

lemma handoff_sealed: "handoff_response env up = Some r \<Longrightarrow> tokens_absent r \<and> cookies_sealed r"
proof -
  assume a: "handoff_response env up = Some r"
  obtain j where j: "up_json up = Some j" "j \<noteq> JNull"
    using a by (auto simp: handoff_response_def split: option.splits if_splits)
  have hide: "tokens_absent (json_response s h (JObj (AList.update (js ''signed_in'') v (visible_fields j))))" for s h v
    unfolding tokens_absent_def response_simps payload.case visible_fields_def json_get_update json_get_without by simp
  let ?tokens = "tokensFromLoginPayload j"
  let ?r = "set_header ''cache-control'' (js ''no-store'') (json_response (up_status up) []
    (JObj (AList.update (js ''signed_in'') (JBool (?tokens \<noteq> None)) (visible_fields j)))) :: 'a bff_response"
  let ?q = "case ?tokens of None \<Rightarrow> ?r | Some t \<Rightarrow> applyAuthCookies (env_production env) (accessToken t) (refreshToken t) ?r"
  have q: "tokens_absent ?q \<and> cookies_sealed ?q"
    using hide by (cases ?tokens) (simp_all add: sealed_auth del: js_Cons)
  let ?spent = "(signupCookieOptions (env_production env))\<lparr>maxAge := 0\<rparr>"
  have e: "handoff_response env up = Some (if ?tokens \<noteq> None \<or> json_get j ''status'' = Some (JStr (js ''invalid''))
      then set_cookie SIGNUP_COOKIE (SetCookie [] ?spent) ?q else ?q)"
    using j unfolding handoff_response_def Let_def by (simp del: js_Cons)
  from if_either [OF option.inject [THEN iffD1, OF trans [OF a [symmetric] e]]]
  have "r = ?q \<or> r = set_cookie SIGNUP_COOKIE (SetCookie [] ?spent) ?q" .
  moreover have "cookies_sealed (set_cookie SIGNUP_COOKIE (SetCookie [] ?spent) ?q)"
    using q by (intro sealed_set) (simp_all add: signupCookieOptions_def authCookieOptions_def)
  moreover have "tokens_absent (set_cookie SIGNUP_COOKIE (SetCookie [] ?spent) ?q)"
    using q by simp
  ultimately show ?thesis using q by (elim disjE) (simp_all only: simp_thms)
qed



definition clears_session :: "'b bff_response \<Rightarrow> bool" where
  "clears_session r \<longleftrightarrow>
     map_of (rs_cookies r) ACCESS_COOKIE = Some ClearCookie \<or> map_of (rs_cookies r) REFRESH_COOKIE = Some ClearCookie"

lemma cookie_names: "ACCESS_COOKIE \<noteq> REFRESH_COOKIE" "REFRESH_COOKIE \<noteq> ACCESS_COOKIE"
  by (simp_all add: ACCESS_COOKIE_def REFRESH_COOKIE_def)

lemma auth_cookies_kept [simp]: "\<not> clears_session (applyAuthCookies p a b r)"
  by (simp add: clears_session_def applyAuthCookies_def update_conv' cookie_names)

lemma no_cookies_kept [simp]: "rs_cookies r = [] \<Longrightarrow> \<not> clears_session r"
  by (simp add: clears_session_def)

lemma unavailable_response [simp]:
  "rs_cookies (refreshUnavailableResponse f ra) = []"
  "rs_status (refreshUnavailableResponse f ra) = (if f = RateLimited then 429 else 503)"
  by (simp_all add: refreshUnavailableResponse_def Let_def)

lemma passthrough_extra:
  obtains r0 where "passthroughUpstream up extra cc = extra r0" "rs_cookies r0 = []" "rs_status r0 = up_status up"
  unfolding passthroughUpstream_def Let_def by (cases "str_includes (to_lower (case hget (up_headers up) ''content-type'' of None \<Rightarrow> [] | Some t \<Rightarrow> t)) (js ''text/event-stream'')";
    cases "\<not> up_ok up \<and> str_includes (to_lower (case hget (up_headers up) ''content-type'' of None \<Rightarrow> [] | Some t \<Rightarrow> t)) (js ''application/json'')")
    (simp_all del: js_Cons)


text \<open>
  C29: a catalog write that succeeds at once drops the storefront's catalog cache, and one whose
  first attempt met an expired session does not, although the retried write reached the backend:
  the retry branch returns before the cache is looked at.
\<close>

theorem catalog_bust_first_try:
  assumes "path \<notin> set LOGIN_PATHS" "\<not> handoff_path request path"
    and "after_upstream env fetch request requestId path target body up w = (Some r, w')"
  shows "(catalogWritePath (rq_method request) path (up_status up) \<longrightarrow> busted w' = busted w + 1) \<and>
         (up_status up = 401 \<longrightarrow> busted w' = busted w)"
proof -
  have once: "busted w2 = busted w1" if "signedFetch env fetch how t h b w1 = (reply, w2)" for how t h b w1 reply w2
    using that by (auto simp: signedFetch_def Let_def split: option.splits prod.splits)
  then have "busted w2 = busted w1" if "rotateRefresh env fetch request token requestId w1 = (o', w2)" for token w1 o' w2
    using that by (auto simp: rotateRefresh_def Let_def split: upstream_target.splits prod.splits)
  then have rot: "busted w2 = busted w1" if "rotateRefreshOnce env fetch request token requestId w1 = (o', w2)" for token w1 o' w2
    using that by (fastforce simp: rotateRefreshOnce_def Let_def split: answer.splits prod.splits)
  have "busted w2 = busted w1" if "retry env fetch request requestId target body up w1 = (o', w2)" for w1 o' w2
    using that rot once by (fastforce simp: retry_def Let_def split: option.splits refresh_outcome.splits prod.splits)
  moreover have "\<not> catalogWritePath (rq_method request) path 401" by (simp add: catalogWritePath_def)
  ultimately show ?thesis
    using assms by (auto simp: after_upstream_def Let_def split: if_splits)
qed

lemma demo_refresh_target:
  "buildUpstreamTarget (env_host_origin demo_env) [js ''auth'', js ''refresh''] (env_base demo_env) =
     UpstreamTarget (js ''auth/refresh'') \<lparr>url_origin = js ''http://api'', pathname = js ''/auth/refresh'', url_search = []\<rparr>"
proof -
  have n: "normalized_segments [js ''auth'', js ''refresh''] = Some [js ''auth'', js ''refresh'']" by code_simp
  have "encodeURIComponent (js ''auth'') = Some (js ''auth'')" "encodeURIComponent (js ''refresh'') = Some (js ''refresh'')"
    by (rule encode_kept, simp add: unreserved_def)+
  then have e: "encode_segments [js ''auth'', js ''refresh''] = Some [js ''auth'', js ''refresh'']" by simp
  have u: "url_path (js ''/auth/refresh'') = js ''/auth/refresh''" by code_simp
  then show ?thesis unfolding buildUpstreamTarget_def n option.case e
    by (simp add: demo_env_def resolve_url_def starts_with_def)
qed


lemma catalog_bust_first_try_witness:
  "let up = \<lparr>up_status = 200, up_headers = [], up_json = None, up_body = JNull\<rparr>
   in \<exists>r w'. after_upstream demo_env (\<lambda>s c. (None, s)) (demo_request PUT [] []) [] (js ''seller/products/1'') (env_base demo_env) None up
          (demo_world ()) = (Some r, w') \<and> busted w' = 1"
proof -
  define up where "up = \<lparr>up_status = 200, up_headers = [], up_json = None, up_body = JNull\<rparr>"
  have paths: "js ''seller/products/1'' \<notin> set LOGIN_PATHS"
    by (simp add: LOGIN_PATHS_def js_eq_iff del: js_Cons)
  have no: "\<not> handoff_path (demo_request PUT [] []) (js ''seller/products/1'')"
    by (simp add: handoff_path_def demo_request_def)
  have w: "catalogWritePath PUT (js ''seller/products/1'') 200" by code_simp
  obtain r w' where a: "after_upstream demo_env (\<lambda>s c. (None, s)) (demo_request PUT [] []) [] (js ''seller/products/1'')
      (env_base demo_env) None up (demo_world ()) = (Some r, w')"
    using paths no by (simp add: after_upstream_def up_def)
  from catalog_bust_first_try [OF paths no a] w
  have "busted w' = 1" by (simp add: up_def demo_request_def demo_world_def)
  with a show ?thesis unfolding up_def Let_def by blast
qed

definition not_public :: "'b bff_response \<Rightarrow> bool" where
  "not_public r \<longleftrightarrow>
     (case hget (rs_headers r) ''cache-control'' of None \<Rightarrow> True | Some v \<Rightarrow> \<not> starts_with v (js ''public''))"

lemma hget_hset [simp]: "hget (hset a v h) b = (if a = b then Some v else hget h b)"
  by (simp add: hget_def hset_def update_conv' js_eq_iff)

lemma hget_Cons [simp]: "hget ((js a, v) # h) b = (if a = b then Some v else hget h b)"
  by (simp add: hget_def js_eq_iff)

lemma hget_Nil [simp]: "hget [] b = None"
  by (simp add: hget_def)

lemma js_starts [simp]: "starts_with (js s) (js t) = prefix t s"
proof -
  have "prefix (js t) (js s) \<longleftrightarrow> prefix t s"
  proof (induction t arbitrary: s)
    case (Cons c t)
    then show ?case by (cases s) (simp_all add: of_char_unit_eq_iff)
  qed simp
  then show ?thesis by (simp add: starts_with_def)
qed

lemma not_public_json [simp]:
  "not_public (json_response status h j) =
     (case hget h ''cache-control'' of None \<Rightarrow> True | Some v \<Rightarrow> \<not> starts_with v (js ''public''))"
  by (simp add: not_public_def json_response_def del: js_Cons)

lemma not_public_simps [simp]:
  "not_public (set_cookie name c r) = not_public r"
  "not_public (clearAuthCookies r) = not_public r"
  "not_public (set_header ''cache-control'' (js ''no-store'') r)"
  "not_public (applyAuthCookies p a b r)"
  by (simp_all add: not_public_def applyAuthCookies_def del: js_Cons)

lemma unavailable_not_public [simp]: "not_public (refreshUnavailableResponse f ra)"
  by (simp add: refreshUnavailableResponse_def Let_def del: js_Cons)

lemma no_store_not_public [simp]: "hget no_store ''cache-control'' = Some (js ''no-store'')"
  by (simp add: no_store_def del: js_Cons)

lemma hget_append: "hget (h @ h') name = (case hget h name of None \<Rightarrow> hget h' name | Some v \<Rightarrow> Some v)"
  by (simp add: hget_def map_add_def split: option.splits)

lemma private_image_not_public:
  "privateImageCacheControl status t cc = Some v \<Longrightarrow> \<not> starts_with v (js ''public'')"
proof
  assume a: "privateImageCacheControl status t cc = Some v" "starts_with v (js ''public'')"
  then have "prefix (js ''private'') (to_lower v)"
    by (auto simp: privateImageCacheControl_def Let_def first_word_def simp del: js_Cons split: if_splits)
  moreover obtain w where "v = js ''public'' @ w" using a(2) by (auto simp: starts_with_def prefix_def simp del: js_Cons)
  ultimately show False by (simp add: to_lower_def lower_unit_def)
qed

lemma passthrough_not_public:
  assumes "\<And>r. not_public r \<Longrightarrow> not_public (extra r)"
    and "case cc of None \<Rightarrow> True | Some v \<Rightarrow> \<not> starts_with v (js ''public'')"
  shows "not_public (passthroughUpstream up extra cc)"
proof -
  let ?t = "to_lower (case hget (up_headers up) ''content-type'' of None \<Rightarrow> [] | Some t \<Rightarrow> t)"
  consider "str_includes ?t (js ''text/event-stream'')"
    | "\<not> str_includes ?t (js ''text/event-stream'')" "\<not> up_ok up \<and> str_includes ?t (js ''application/json'')"
    | "\<not> str_includes ?t (js ''text/event-stream'')" "\<not> (\<not> up_ok up \<and> str_includes ?t (js ''application/json''))"
    by blast
  then show ?thesis
  proof cases
    case 1
    then show ?thesis unfolding passthroughUpstream_def Let_def
      by (simp only: if_True) (rule assms(1), simp add: not_public_def del: js_Cons)
  next
    case 2
    then show ?thesis unfolding passthroughUpstream_def Let_def
      by (simp only: if_True if_False simp_thms) (rule assms(1), simp add: hget_append del: js_Cons)
  next
    case 3
    let ?policy = "case cc of Some c \<Rightarrow> c | None \<Rightarrow> (case privateImageCacheControl (up_status up) ?t
      (hget (up_headers up) ''cache-control'') of Some i \<Rightarrow> i | None \<Rightarrow> js ''no-store'')"
    have "\<not> starts_with ?policy (js ''public'')"
      using assms(2) private_image_not_public by (cases cc) (auto simp del: js_Cons split: option.split)
    with 3 show ?thesis unfolding passthroughUpstream_def Let_def
      by (simp only: if_False) (rule assms(1), simp add: not_public_def del: js_Cons)
  qed
qed

lemma admit_not_public: "admit env request requestId segments = Answer r \<Longrightarrow> not_public r"
  by (auto simp: admit_def hget_append simp del: js_Cons split: if_splits upstream_target.splits)

lemma logout_not_public: "proxyLogout env fetch request w = (Some r, w') \<Longrightarrow> not_public r"
  by (auto simp: proxyLogout_def Let_def simp del: js_Cons split: if_splits upstream_target.splits prod.splits)
    (simp_all add: not_public_def)

lemma refresh_not_public:
  assumes "proxyRefresh env fetch request requestId w = (Some r, w')"
  shows "not_public r"
proof (cases "truthy (cookie_of request REFRESH_COOKIE)")
  case True
  obtain outcome w1 where o: "rotateRefreshOnce env fetch request (the (cookie_of request REFRESH_COOKIE)) requestId w = (outcome, w1)"
    by fastforce
  with assms True obtain v where v: "outcome = Some v" by (auto simp: proxyRefresh_def)
  from assms True o show ?thesis unfolding v
    by (cases v) (auto simp: proxyRefresh_def session_expired_def simp del: js_Cons split: if_splits)
qed (use assms in \<open>auto simp: proxyRefresh_def session_expired_def simp del: js_Cons\<close>)

lemma retry_not_public: "retry env fetch request requestId target body up w = (Some r, w') \<Longrightarrow> not_public r"
  by (auto simp: retry_def backendUnreachable_def hget_append simp del: js_Cons
      intro!: passthrough_not_public split: if_splits prod.splits option.splits refresh_outcome.splits)

lemma choose_not_public: "choose_body env request path = BodyAnswer r \<Longrightarrow> not_public r"
  by (auto simp: choose_body_def Let_def simp del: js_Cons split: if_splits option.splits)

lemma login_not_public: "login_response env path up = Some r \<Longrightarrow> not_public r"
  by (auto simp: login_response_def Let_def simp del: js_Cons split: if_splits option.splits)

lemma handoff_not_public: "handoff_response env up = Some r \<Longrightarrow> not_public r"
proof -
  assume a: "handoff_response env up = Some r"
  then obtain j where j: "up_json up = Some j" by (auto simp: handoff_response_def split: option.splits)
  with a show ?thesis
    by (cases "tokensFromLoginPayload j") (auto simp: handoff_response_def Let_def simp del: js_Cons split: if_splits)
qed

lemma after_upstream_not_public:
  assumes "after_upstream env fetch request requestId path target body up w = (Some r, w')" "\<not> not_public r"
  shows "publicCacheControl (rq_method request) path (up_status up)
    (truthy (cookie_of request ACCESS_COOKIE) \<or> truthy (cookie_of request REFRESH_COOKIE)) \<noteq> None \<and>
    rs_status r = up_status up"
proof -
  let ?cc = "publicCacheControl (rq_method request) path (up_status up)
    (truthy (cookie_of request ACCESS_COOKIE) \<or> truthy (cookie_of request REFRESH_COOKIE))"
  have r: "r = passthroughUpstream up id ?cc \<or> r = clearAuthCookies (passthroughUpstream up id ?cc)"
  proof -
    have "\<not> (path \<in> set LOGIN_PATHS \<and> up_ok up)" "\<not> (handoff_path request path \<and> up_ok up)"
      "\<not> (up_status up = 401 \<and> truthy (cookie_of request REFRESH_COOKIE) \<and> path \<notin> set LOGIN_PATHS)"
      using assms login_not_public [of env path up r] handoff_not_public [of env up r]
        retry_not_public [of env fetch request requestId target body up w r w']
      by (auto simp: after_upstream_def simp del: js_Cons split: if_splits)
    with assms(1) show ?thesis unfolding after_upstream_def Let_def
      by (simp only: if_False) (auto simp del: js_Cons split: if_splits)
  qed
  then have "\<not> not_public (passthroughUpstream up id ?cc)" using assms(2) by auto
  then have "?cc \<noteq> None" using passthrough_not_public [of id ?cc up] by (cases ?cc) auto
  moreover have "rs_status (passthroughUpstream up id ?cc) = up_status up"
    using passthrough_extra [of up id ?cc] by (metis id_apply)
  moreover have "rs_status (clearAuthCookies q) = rs_status q" for q :: "'a bff_response"
    by (simp add: clearAuthCookies_def)
  ultimately show ?thesis using r by metis
qed

lemma forward_not_public:
  assumes f: "forward env fetch request requestId path target w = (Some r, w')" and p: "\<not> not_public r"
  shows "publicCacheControl (rq_method request) path (rs_status r)
    (truthy (cookie_of request ACCESS_COOKIE) \<or> truthy (cookie_of request REFRESH_COOKIE)) \<noteq> None"
  using f
proof (cases rule: forward_cases)
  case (answered b)
  with p choose_not_public show ?thesis by blast
next
  case (sent body headers reply w1)
  then show ?thesis
  proof (cases reply)
    case None
    with sent(4) p show ?thesis by (simp add: backendUnreachable_def hget_append del: js_Cons)
  next
    case (Some up)
    with sent(4) after_upstream_not_public [OF _ p] show ?thesis by fastforce
  qed
qed

text \<open>
  C8: a response that may sit in a shared cache belongs to nobody.  Whenever the route
  answers with a \<open>public\<close> cache policy, the request was a GET without session cookies, of a path on
  the public list, and the backend's answer was a success.
\<close>

theorem public_cache_anonymous:
  assumes "proxy env fetch request requestId segments w = (Some r, w')"
    and "hget (rs_headers r) ''cache-control'' = Some v" "starts_with v (js ''public'')"
  shows "rq_method request = GET \<and> \<not> truthy (cookie_of request ACCESS_COOKIE) \<and>
         \<not> truthy (cookie_of request REFRESH_COOKIE) \<and> 200 \<le> rs_status r \<and> rs_status r < 300 \<and>
         (\<exists>path target. admit env request requestId segments = Admit path target \<and>
            list_ex (\<lambda>pats. path_matches pats path) PUBLIC_GET_PATHS)"
proof -
  have p: "\<not> not_public r" using assms(2,3) by (simp add: not_public_def del: js_Cons)
  obtain path target where adm: "admit env request requestId segments = Admit path target"
    using assms(1) admit_not_public [of env request requestId segments r] p by (cases "admit env request requestId segments") (auto simp: proxy_def)
  with assms(1) logout_not_public [of env fetch request w r w']
    refresh_not_public [of env fetch request requestId w r w'] p
  have "forward env fetch request requestId path target w = (Some r, w')"
    by (auto simp: proxy_def simp del: js_Cons split: if_splits)
  from forward_not_public [OF this p] adm show ?thesis
    by (auto simp: publicCacheControl_def split: if_splits)
qed

lemma demo_products_target:
  "buildUpstreamTarget (env_host_origin demo_env) [js ''products''] (env_base demo_env) =
     UpstreamTarget (js ''products'') \<lparr>url_origin = js ''http://api'', pathname = js ''/products'', url_search = []\<rparr>"
proof -
  have n: "normalized_segments [js ''products''] = Some [js ''products'']" by code_simp
  have "encodeURIComponent (js ''products'') = Some (js ''products'')"
    by (rule encode_kept) (simp add: unreserved_def)
  then have e: "encode_segments [js ''products''] = Some [js ''products'']" by simp
  have u: "url_path (js ''/products'') = js ''/products''" by code_simp
  then show ?thesis unfolding buildUpstreamTarget_def n option.case e
    by (simp add: demo_env_def resolve_url_def starts_with_def)
qed

lemma public_cache_anonymous_witness:
  "let up = \<lparr>up_status = 200, up_headers = [], up_json = None, up_body = JNull\<rparr>;
       request = demo_request GET [] []
   in \<exists>r w'. proxy demo_env (\<lambda>s c. (Some up, s)) request [] [js ''products''] (demo_world ()) = (Some r, w') \<and>
        hget (rs_headers r) ''cache-control'' = Some public_policy \<and> rq_method request = GET"
proof -
  define up :: "json upstream_reply" where "up = \<lparr>up_status = 200, up_headers = [], up_json = None, up_body = JNull\<rparr>"
  define fetch :: "(json, unit) backend" where "fetch = (\<lambda>s c. (Some up, s))"
  define request where "request = demo_request GET [] []"
  define target where "target = \<lparr>url_origin = js ''http://api'', pathname = js ''/products'', url_search = []\<rparr>"
  have sig: "\<exists>sig. signedHeaders (env_sha256_body demo_env) (env_hmac demo_env) (env_signing demo_env) m t b n = Some sig" for m t b n
    by (simp add: signedHeaders_def demo_env_def)
  have fetched: "\<exists>w1. signedFetch demo_env fetch m t h b w0 = (Some up, w1)" for m t h b w0
    using sig unfolding signedFetch_def by (auto simp: fetch_def Let_def split: option.splits)
  have paths: "js ''products'' \<notin> set LOGIN_PATHS" "\<not> handoff_path request (js ''products'')"
    "\<not> isAdminApiPath (js ''products'')" "js ''products'' \<noteq> js ''auth/session''" "js ''products'' \<noteq> js ''auth/refresh''"
    by (simp_all add: LOGIN_PATHS_def js_eq_iff handoff_path_def request_def demo_request_def isAdminApiPath_def del: js_Cons)
  have req: "rq_method request = GET" "rq_headers request = []" "cookie_of request n = None" for n
    by (simp_all add: request_def demo_request_def cookie_of_def)
  have adm: "admit demo_env request [] [js ''products''] = Admit (js ''products'') target"
    unfolding admit_def demo_products_target
    using paths req by (simp add: csrfAllowed_def sessionMismatch_def target_def del: js_Cons)
  have body: "choose_body demo_env request (js ''products'') = SendBody None"
    using paths req by (simp add: choose_body_def js_number_opt_def number_above_def del: js_Cons)
  have policy: "publicCacheControl GET (js ''products'') 200 False = Some public_policy" by code_simp
  have pass: "passthroughUpstream up id (Some public_policy) =
      \<lparr>rs_status = 200, rs_headers = [(js ''cache-control'', public_policy)], rs_body = RawBody JNull, rs_cookies = []\<rparr>"
    by (simp add: passthroughUpstream_def up_def up_ok_def hop_headers_def to_lower_def hset_def del: js_Cons)
  have after: "\<exists>w'. after_upstream demo_env fetch request [] (js ''products'') t None up w1 =
      (Some (passthroughUpstream up id (Some public_policy)), w')" for t w1
    using paths req policy by (simp add: after_upstream_def up_def truthy_def Let_def del: js_Cons)
  obtain w' where p: "proxy demo_env fetch request [] [js ''products''] (demo_world ()) =
      (Some (passthroughUpstream up id (Some public_policy)), w')"
  proof -
    obtain w1 where f: "signedFetch demo_env fetch (rq_method request) (target\<lparr>url_search := rq_search request\<rparr>)
        (if truthy (cookie_of request ACCESS_COOKIE)
         then bearer (the (cookie_of request ACCESS_COOKIE)) (copyAllowlistedHeaders demo_env request [])
         else copyAllowlistedHeaders demo_env request []) None (demo_world ()) = (Some up, w1)"
      using fetched by blast
    obtain w2 where "after_upstream demo_env fetch request [] (js ''products'') (target\<lparr>url_search := rq_search request\<rparr>)
        None up w1 = (Some (passthroughUpstream up id (Some public_policy)), w2)"
      using after by blast
    then have "proxy demo_env fetch request [] [js ''products''] (demo_world ()) =
        (Some (passthroughUpstream up id (Some public_policy)), w2)"
      unfolding proxy_def adm forward_def Let_def admission.case body body_choice.case f
      using paths by (simp del: js_Cons)
    with that show ?thesis by blast
  qed
  have v: "hget (rs_headers (passthroughUpstream up id (Some public_policy))) ''cache-control'' = Some public_policy"
    unfolding pass by (simp add: hget_def)
  have "starts_with public_policy (js ''public'')" by (simp add: public_policy_def del: js_Cons)
  with public_cache_anonymous [OF p v] p v show ?thesis
    unfolding Let_def fetch_def up_def request_def by blast
qed

text \<open>
  When the retry after a rotation cannot reach the backend, the answer is a 502 without cookies: the
  browser keeps the refresh token that the rotation has just used up.
\<close>

lemma rotation_lost:
  assumes "rotateRefreshOnce env fetch request (the (cookie_of request REFRESH_COOKIE)) requestId w =
      (Some (Rotated access refresh), w1)"
    and "signedFetch env fetch (rq_method request) target
      (bearer access (copyAllowlistedHeaders env request requestId)) body w1 = (None, w2)"
  shows "retry env fetch request requestId target body up w = (Some (backendUnreachable requestId), w2) \<and>
         rs_cookies (backendUnreachable requestId :: 'b bff_response) = []"
  using assms by (simp add: retry_def backendUnreachable_def)

text \<open>
  A sign-up handoff that is retried after a rotation is passed through as it is, tokens included:
  only the first attempt's answer is rewritten.
\<close>

lemma handoff_retry_leaks:
  assumes "rotateRefreshOnce env fetch request (the (cookie_of request REFRESH_COOKIE)) requestId w =
      (Some (Rotated access refresh), w1)"
    and "signedFetch env fetch (rq_method request) target
      (bearer access (copyAllowlistedHeaders env request requestId)) body w1 = (Some again, w2)"
    and "up_ok again" "hget (up_headers again) ''content-type'' = Some (js ''application/json'')"
  shows "\<exists>r. retry env fetch request requestId target body up w = (Some r, w2) \<and> rs_body r = RawBody (up_body again)"
proof -
  have "\<not> str_includes (to_lower (js ''application/json'')) (js ''text/event-stream'')" by code_simp
  with assms show ?thesis
    by (simp add: retry_def passthroughUpstream_def Let_def applyAuthCookies_def set_header_def set_cookie_def del: js_Cons)
qed

section \<open>Two tabs\<close>

lemma learns_route: "route p = 47 # path \<Longrightarrow> learnsSessionTag p = session_exempt path"
  by (simp add: learnsSessionTag_def session_exempt_def starts_with_def)



end
