(* ===== verification/Safe_Redirect.thy ===== *)
theory Safe_Redirect
  imports Web_Url
begin

text \<open>
  Where the browser goes after signing in (lib/safe-redirect.ts): the \<open>next\<close> address of the page if
  it stays on the site, otherwise the home of the account's role.  The host of an address is
  judged by a parameter: \<open>site authority\<close> says whether the URL parser gives \<open>https://authority\<close> the
  origin of the code's base address (\<^const>\<open>None\<close> when it rejects the host).
\<close>

section \<open>Definitions\<close>

datatype redirect = Refused | UrlError | Redirect jstr

text \<open>The class \<open>[\\\0\r\n]\<close>.\<close>

definition unsafe_char :: "code_unit \<Rightarrow> bool" where
  "unsafe_char c \<longleftrightarrow> c \<in> {0x5C, 0, 13, 10}"

definition path_like :: "jstr \<Rightarrow> bool" where
  "path_like v \<longleftrightarrow> starts_with v (js ''/'') \<and> \<not> starts_with v (js ''//'')"

text \<open>What the parser does first: trailing controls and spaces go, then tabs and line breaks.\<close>

definition url_input :: "jstr \<Rightarrow> jstr" where
  "url_input v = filter (\<lambda>c. c \<notin> {9, 10, 13}) (rev (dropWhile (\<lambda>c. c \<le> 0x20) (rev v)))"

definition before_fragment :: "jstr \<Rightarrow> jstr" where
  "before_fragment v = takeWhile (\<lambda>c. c \<noteq> 35) v"

definition fragment_part :: "jstr \<Rightarrow> jstr" where
  "fragment_part v = drop 1 (dropWhile (\<lambda>c. c \<noteq> 35) v)"

definition path_part :: "jstr \<Rightarrow> jstr" where
  "path_part v = takeWhile (\<lambda>c. c \<noteq> 63) (before_fragment v)"

definition query_part :: "jstr \<Rightarrow> jstr" where
  "query_part v = drop 1 (dropWhile (\<lambda>c. c \<noteq> 63) (before_fragment v))"

definition with_mark :: "code_unit \<Rightarrow> jstr \<Rightarrow> jstr" where
  "with_mark m s = (if s = [] then [] else m # s)"

text \<open>\<open>`${target.pathname}${target.search}${target.hash}`\<close>\<close>

definition url_tail :: "jstr \<Rightarrow> jstr" where
  "url_tail v = url_path (path_part v) @ with_mark 63 (percent_encode query_keeps (query_part v))
     @ with_mark 35 (percent_encode fragment_keeps (fragment_part v))"

text \<open>An input that begins with two slashes names an authority; the parser skips further slashes.\<close>

definition authority_part :: "jstr \<Rightarrow> jstr" where
  "authority_part v = takeWhile (\<lambda>c. c \<notin> {47, 63, 35}) (dropWhile (\<lambda>c. c = 47) v)"

definition after_authority :: "jstr \<Rightarrow> jstr" where
  "after_authority v = dropWhile (\<lambda>c. c \<notin> {47, 63, 35}) (dropWhile (\<lambda>c. c = 47) v)"

definition safeInternalRedirect :: "(jstr \<Rightarrow> bool option) \<Rightarrow> jstr option \<Rightarrow> redirect" where
  "safeInternalRedirect site value =
     (case value of None \<Rightarrow> Refused
      | Some v \<Rightarrow>
          if v = [] \<or> \<not> path_like v then Refused
          else if list_ex unsafe_char v then Refused
          else case decodeURIComponent v of
            None \<Rightarrow> Refused
          | Some decoded \<Rightarrow>
              if \<not> path_like decoded \<or> list_ex unsafe_char decoded then Refused
              else let u = url_input v in
                if starts_with u (js ''//'')
                then (case site (authority_part u) of
                        None \<Rightarrow> UrlError
                      | Some same \<Rightarrow> if same then Redirect (url_tail (after_authority u)) else Refused)
                else Redirect (url_tail u))"

text \<open>\<^const>\<open>None\<close> is the TypeError of the URL parser, which the code does not catch.\<close>

definition authenticatedLoginRedirect :: "(jstr \<Rightarrow> bool option) \<Rightarrow> jstr option \<Rightarrow> jstr list \<Rightarrow> jstr option" where
  "authenticatedLoginRedirect site requested roles =
     (case safeInternalRedirect site requested of
        UrlError \<Rightarrow> None
      | Redirect r \<Rightarrow>
          if r \<noteq> [] then Some r
          else if js ''admin'' \<in> set roles then Some (js ''/admin'')
          else if js ''seller'' \<in> set roles then Some (js ''/seller'')
          else Some (js ''/'')
      | Refused \<Rightarrow>
          if js ''admin'' \<in> set roles then Some (js ''/admin'')
          else if js ''seller'' \<in> set roles then Some (js ''/seller'')
          else Some (js ''/''))"

section \<open>What the browser reads in the result\<close>

text \<open>
  A relative address stays on the site when it begins with one slash that no second slash or
  backslash follows, and hides nothing in controls or spaces.
\<close>

definition on_site :: "jstr \<Rightarrow> bool" where
  "on_site r \<longleftrightarrow>
     (case r of [] \<Rightarrow> False
      | c # s \<Rightarrow> c = 47 \<and> (case s of [] \<Rightarrow> True | d # _ \<Rightarrow> d \<noteq> 47 \<and> d \<noteq> 0x5C)) \<and>
     list_all (\<lambda>c. 0x20 < c \<and> c < 0x7F) r"

lemma url_char_visible:
  assumes "url_char keep s c" "\<And>cp. keep cp \<Longrightarrow> 0x20 < cp \<and> cp < 0x7F"
  shows "0x20 < c \<and> c < 0x7F"
  using assms(1) assms(2) [of "unat c"] by (auto simp: url_char_def word_less_nat_alt word_le_nat_alt)

lemma encoded_visible:
  "c \<in> set (percent_encode path_keeps s) \<Longrightarrow> 0x20 < c \<and> c < 0x7F"
  "c \<in> set (percent_encode query_keeps s) \<Longrightarrow> 0x20 < c \<and> c < 0x7F"
  "c \<in> set (percent_encode fragment_keeps s) \<Longrightarrow> 0x20 < c \<and> c < 0x7F"
  by ((drule percent_encode_chars, simp add: path_keeps_def query_keeps_def fragment_keeps_def,
       erule url_char_visible, simp add: path_keeps_def query_keeps_def fragment_keeps_def)+)

lemma path_walk_visible:
  "(\<And>s c. s \<in> set before \<Longrightarrow> c \<in> set s \<Longrightarrow> 0x20 < c \<and> c < 0x7F) \<Longrightarrow>
   s \<in> set (path_walk before ss) \<Longrightarrow> c \<in> set s \<Longrightarrow> 0x20 < c \<and> c < 0x7F"
proof (induction before ss arbitrary: s c rule: path_walk.induct)
  case (1 before)
  then show ?case by simp
next
  case (2 before x)
  then show ?case
    using encoded_visible(1) by (auto split: if_splits dest: in_set_butlastD)
next
  case (3 before x y ss)
  let ?b = "if double_dot x then butlast before else if single_dot x then before
            else before @ [percent_encode path_keeps x]"
  have "0x20 < d \<and> d < 0x7F" if "t \<in> set ?b" "d \<in> set t" for t d
    using that 3(2) encoded_visible(1) by (auto split: if_splits dest: in_set_butlastD)
  from "3.IH" [OF this] 3(3,4) show ?case by simp
qed

lemma url_tail_visible: "c \<in> set (url_tail v) \<Longrightarrow> 0x20 < c \<and> c < 0x7F"
proof -
  assume c: "c \<in> set (url_tail v)"
  have path: "0x20 < c \<and> c < 0x7F" if "c \<in> set (url_path (path_part v))"
  proof -
    from that have "c = 47 \<or> (\<exists>s \<in> set (path_walk [] (path_segments (path_part v))). c \<in> set s)"
      by (auto simp: url_path_def path_text_def split: if_splits)
    then show ?thesis
      using path_walk_visible [of "[]" _ "path_segments (path_part v)" c] by auto
  qed
  have mark: "0x20 < c \<and> c < 0x7F" if "c \<in> set (with_mark m (percent_encode k s))" "m \<in> {63, 35}"
      "\<And>d. d \<in> set (percent_encode k s) \<Longrightarrow> 0x20 < d \<and> d < 0x7F" for m k s
    using that by (auto simp: with_mark_def split: if_splits)
  from c show ?thesis
    using path mark encoded_visible(2,3) unfolding url_tail_def by (auto simp del: insert_iff) blast+
qed

lemma path_walk_not_Nil: "ss \<noteq> [] \<Longrightarrow> path_walk before ss \<noteq> []"
  by (induction before ss rule: path_walk.induct) auto

lemma url_path_slash: "\<exists>r. url_path p = 47 # r"
proof -
  have "path_walk [] (path_segments p) \<noteq> []"
    by (rule path_walk_not_Nil) (simp add: path_segments_def)
  then show ?thesis by (cases "path_walk [] (path_segments p)") (auto simp: url_path_def path_text_def)
qed

lemma url_char_separator: "url_char keep s c \<Longrightarrow> c = 47 \<or> c = 0x5C \<Longrightarrow> c \<in> set s"
  by (auto simp: url_char_def)

text \<open>The first segment of a path decides whether the address is read as a host.\<close>

lemma path_encode_first:
  assumes "s \<noteq> []" "47 \<notin> set s" "0x5C \<notin> set s"
  shows "\<exists>c r. percent_encode path_keeps s = c # r \<and> c \<noteq> 47 \<and> c \<noteq> 0x5C"
proof -
  have "percent_encode_point path_keeps cp \<noteq> []" for cp
    by (simp add: percent_encode_point_def utf8_bytes_def percent_byte_def)
  moreover have "code_points s \<noteq> []" using assms(1) by (cases s) (auto split: list.splits)
  ultimately have ne: "percent_encode path_keeps s \<noteq> []"
    by (cases "code_points s") (auto simp: percent_encode_def)
  then obtain c r where e: "percent_encode path_keeps s = c # r" by (cases "percent_encode path_keeps s") auto
  then have "url_char path_keeps s c"
    by (intro percent_encode_chars) (auto simp: path_keeps_def)
  with e assms(2,3) url_char_separator show ?thesis by blast
qed

text \<open>The input the parser sees when the address has no tab: it still begins with one slash.\<close>

lemma url_input_clean:
  assumes "path_like v" "\<not> list_ex unsafe_char v" "9 \<notin> set v"
  obtains w where "url_input v = 47 # w" "w = [] \<or> hd w \<noteq> 47" "0x5C \<notin> set w"
proof -
  let ?t = "rev (dropWhile (\<lambda>c. c \<le> 0x20) (rev v))"
  obtain x where v: "v = 47 # x" "x = [] \<or> hd x \<noteq> 47"
    using assms(1) by (cases v; cases "tl v") (auto simp: path_like_def starts_with_def)
  have "set ?t \<subseteq> set v" using set_dropWhileD by fastforce
  moreover have "c \<notin> {9, 10, 13}" if "c \<in> set v" for c
    using that assms(2,3) by (auto simp: list_ex_iff unsafe_char_def)
  ultimately have u: "url_input v = ?t" unfolding url_input_def by (intro filter_True) blast
  have "\<exists>w. ?t = 47 # w \<and> prefix w x"
  proof (cases "\<forall>c \<in> set x. c \<le> 0x20")
    case True
    then have "dropWhile (\<lambda>c. c \<le> 0x20) (rev x @ [47]) = [47]"
      by (simp add: dropWhile_append)
    with v show ?thesis by simp
  next
    case False
    then have "dropWhile (\<lambda>c. c \<le> 0x20) (rev v) = dropWhile (\<lambda>c. c \<le> 0x20) (rev x) @ [47]"
      using v by (auto simp: dropWhile_append1)
    moreover have "suffix (dropWhile (\<lambda>c. c \<le> 0x20) (rev x)) (rev x)" by (rule suffix_dropWhile)
    ultimately show ?thesis by (auto simp: suffix_to_prefix)
  qed
  then obtain w where w: "?t = 47 # w" "prefix w x" by blast
  moreover have "w = [] \<or> hd w \<noteq> 47" using w(2) v(2) by (cases w) (auto simp: prefix_def)
  moreover have "0x5C \<notin> set w"
    using assms(2) v(1) set_mono_prefix [OF w(2)] by (auto simp: list_ex_iff unsafe_char_def)
  ultimately show ?thesis using u that by metis
qed

section \<open>Properties\<close>

text \<open>
  C19: the address a sign-in follows stays on the site.  When \<open>next\<close> has no tab and no dot
  segment, what the function returns begins with exactly one slash and has no characters a browser
  would strip, so it is not read as another host.
\<close>

theorem redirect_on_site:
  assumes "safeInternalRedirect site (Some v) = Redirect r" "9 \<notin> set v"
    and "list_all (\<lambda>s. \<not> dot_segment s) (path_segments (path_part (url_input v)))"
  shows "on_site r"
proof -
  from assms(1) have v: "path_like v" "\<not> list_ex unsafe_char v"
    by (auto simp: safeInternalRedirect_def split: if_splits option.splits)
  obtain w where w: "url_input v = 47 # w" "w = [] \<or> hd w \<noteq> 47" "0x5C \<notin> set w"
    using url_input_clean [OF v assms(2)] by blast
  then have "\<not> starts_with (url_input v) (js ''//'')" by (cases w) (auto simp: starts_with_def)
  with assms(1) have r: "r = url_tail (url_input v)"
    by (auto simp: safeInternalRedirect_def Let_def split: if_splits option.splits)
  have vis: "list_all (\<lambda>c. 0x20 < c \<and> c < 0x7F) r"
    unfolding r list_all_iff using url_tail_visible by blast
  let ?p = "takeWhile (\<lambda>c. c \<noteq> 63) (takeWhile (\<lambda>c. c \<noteq> 35) w)"
  have p: "path_part (url_input v) = 47 # ?p" using w(1) by (simp add: path_part_def before_fragment_def)
  obtain s ss where segs: "split_on 47 ?p = s # ss" by (cases "split_on 47 ?p") auto
  have "path_segments (path_part (url_input v)) = s # ss" using p segs by (simp add: path_segments_def)
  with assms(3) have path: "url_path (path_part (url_input v)) =
      path_text (map (percent_encode path_keeps) (s # ss))"
    unfolding url_path_def using path_walk_plain [of "s # ss" "[]"] by (auto simp: list_all_iff)
  have sub: "set ?p \<subseteq> set w" by (blast dest: set_takeWhileD)
  have "s = [] \<Longrightarrow> ?p = []"
  proof (rule ccontr)
    assume "s = []" "?p \<noteq> []"
    then obtain c q where cq: "?p = c # q" by (cases ?p) auto
    then have "c = 47" using segs \<open>s = []\<close> by (auto split: if_splits list.splits)
    moreover have "hd w = c" using cq by (cases w) (auto split: if_splits)
    ultimately show False using w(2) cq by (cases w) auto
  qed
  then consider "s = []" "ss = []" | "s \<noteq> []" using segs by fastforce
  then show ?thesis
  proof cases
    case 1
    then have "url_path (path_part (url_input v)) = [47]"
      using path by (simp add: path_text_def percent_encode_def)
    then show ?thesis using vis unfolding on_site_def r url_tail_def with_mark_def by auto
  next
    case 2
    have "47 \<notin> set s" using segs split_on_parts_free [of s 47 ?p] by simp
    moreover have "0x5C \<notin> set s"
      using w(3) sub split_on_subset [of s 47 ?p] segs by (auto simp: subset_iff)
    ultimately obtain c q where "percent_encode path_keeps s = c # q" "c \<noteq> 47" "c \<noteq> 0x5C"
      using path_encode_first 2 by blast
    then show ?thesis using vis path unfolding on_site_def r url_tail_def by (simp add: path_text_def)
  qed
qed

lemma redirect_on_site_witness:
  "safeInternalRedirect (\<lambda>_. None) (Some (js ''/orders?tab=1'')) = Redirect (js ''/orders?tab=1'') \<and>
   on_site (js ''/orders?tab=1'')"
proof -
  have "safeInternalRedirect (\<lambda>_. None) (Some (js ''/orders?tab=1'')) = Redirect (js ''/orders?tab=1'')"
    by code_simp
  moreover have "9 \<notin> set (js ''/orders?tab=1'')" by code_simp
  moreover have "list_all (\<lambda>s. \<not> dot_segment s) (path_segments (path_part (url_input (js ''/orders?tab=1''))))"
    by code_simp
  ultimately show ?thesis using redirect_on_site [of "\<lambda>_. None"] by blast
qed

definition host_char :: "code_unit \<Rightarrow> bool" where
  "host_char c \<longleftrightarrow> is_digit c \<or> 97 \<le> c \<and> c \<le> 122 \<or> c = 45 \<or> c = 46"

lemma host_char_plain:
  assumes "host_char c"
  shows "c \<notin> {0x5C, 0, 13, 10, 9, 37, 63, 35, 47}" "0x20 < c" "c < 0x80" "path_keeps (unat c)"
proof -
  have n: "48 \<le> unat c \<and> unat c \<le> 57 \<or> 97 \<le> unat c \<and> unat c \<le> 122 \<or> unat c = 45 \<or> unat c = 46"
    using assms by (auto simp: host_char_def is_digit_def word_le_nat_alt)
  then show "c \<notin> {0x5C, 0, 13, 10, 9, 37, 63, 35, 47}" by auto
  show "0x20 < c" using n unfolding word_less_nat_alt by auto
  show "c < 0x80" using n unfolding word_less_nat_alt by auto
  show "path_keeps (unat c)" using n unfolding path_keeps_def by auto
qed

lemma url_input_plain:
  assumes "\<forall>c \<in> set v. 0x20 < c"
  shows "url_input v = v"
proof -
  have big: "c \<notin> {9, 10, 13}" if "c \<in> set v" for c
    using assms that by (auto simp: word_less_nat_alt)
  have "dropWhile (\<lambda>c. c \<le> 0x20) (rev v) = rev v"
    using assms by (cases "rev v") (auto simp: not_le [symmetric] dest: arg_cong [where f = set])
  then show ?thesis unfolding url_input_def using big by (simp add: filter_id_conv)
qed

text \<open>
  C20: without the condition on dot segments the guard does not hold: the parser removes
  a leading \<open>/.\<close>, so \<open>/.//host\<close> passes every check and comes out as \<open>//host\<close>, which a browser reads as
  the address of another site.
\<close>

theorem redirect_dot_escape:
  assumes "list_all host_char host" "\<not> dot_segment host"
  shows "safeInternalRedirect site (Some (js ''/.//'' @ host)) = Redirect (js ''//'' @ host) \<and>
         (host \<noteq> [] \<longrightarrow> \<not> on_site (js ''//'' @ host))"
proof -
  let ?v = "js ''/.//'' @ host"
  have hc: "c \<notin> {0x5C, 0, 13, 10, 9, 37, 63, 35, 47}" "0x20 < c" "c < 0x80" "path_keeps (unat c)"
    if "c \<in> set host" for c
    using host_char_plain that assms(1) by (auto simp: list_all_iff)
  then have free: "37 \<notin> set host" "63 \<notin> set host" "35 \<notin> set host" "47 \<notin> set host" by auto
  have like: "path_like ?v" by (simp add: path_like_def starts_with_def)
  have safe: "\<not> list_ex unsafe_char ?v"
    using hc(1) by (auto simp: list_ex_iff unsafe_char_def)
  have dec: "decodeURIComponent ?v = Some ?v" using free by (intro decodeURIComponent_plain) simp
  have input: "url_input ?v = ?v" using hc(2) by (intro url_input_plain) auto
  have mark: "takeWhile (\<lambda>c. c \<noteq> m) host = host" "dropWhile (\<lambda>c. c \<noteq> m) host = []" if "m \<notin> set host" for m
    using that by (auto simp: takeWhile_eq_all_conv dropWhile_eq_Nil_conv)
  have path: "path_part ?v = ?v" "query_part ?v = []" "fragment_part ?v = []"
    by (simp_all add: path_part_def query_part_def fragment_part_def before_fragment_def
      mark [OF free(2)] mark [OF free(3)])
  have segs: "path_segments ?v = [[46], [], host]"
    using split_on_free [OF free(4)] by (simp add: path_segments_def)
  have enc: "percent_encode path_keeps host = host"
    using hc(3,4) by (intro percent_encode_kept) blast
  have "single_dot [46]" "\<not> double_dot [46]" "\<not> single_dot []" "\<not> double_dot []"
    by (simp_all add: single_dot_def double_dot_def to_lower_def lower_unit_def)
  moreover have "percent_encode path_keeps [] = []" by (simp add: percent_encode_def)
  ultimately have "url_path ?v = 47 # 47 # host"
    using assms(2) enc unfolding url_path_def segs by (simp add: path_text_def dot_segment_def)
  then have tail: "url_tail ?v = js ''//'' @ host"
    unfolding url_tail_def path by (simp add: with_mark_def percent_encode_def)
  have "\<not> starts_with (url_input ?v) (js ''//'')" unfolding input by (simp add: starts_with_def)
  moreover have "url_tail (url_input ?v) = js ''//'' @ host" unfolding input by (rule tail)
  moreover have "?v \<noteq> []" by simp
  ultimately have "safeInternalRedirect site (Some ?v) = Redirect (js ''//'' @ host)"
    unfolding safeInternalRedirect_def option.case dec using like safe by (simp only: Let_def if_False if_True simp_thms)
  then show ?thesis by (simp add: on_site_def)
qed

lemma redirect_dot_escape_witness:
  "safeInternalRedirect (\<lambda>_. None) (Some (js ''/.//evil.example'')) = Redirect (js ''//evil.example'') \<and>
   \<not> on_site (js ''//evil.example'')"
proof -
  have "list_all host_char (js ''evil.example'')" "\<not> dot_segment (js ''evil.example'')" by code_simp+
  from redirect_dot_escape [OF this, of "\<lambda>_. None"] show ?thesis by (simp add: js_def)
qed

end
