(* ===== verification/Stock_Levels.thy ===== *)
theory Stock_Levels
  imports Js_Number
begin

text \<open>
  What the storefront says about stock (lib/stock.ts) and how a product or an order is delivered
  (lib/fulfillment.ts): the state of a package, the roll-up of a product's packages, the quantities a
  buyer may order, and the kind of fulfilment.
\<close>

section \<open>Packages\<close>

datatype stock_state = InStock | LowStock | OutOfStock | MadeToOrder | SourcePaused

fun stock_state_name :: "stock_state \<Rightarrow> string" where
  "stock_state_name InStock = ''in_stock''" | "stock_state_name LowStock = ''low''"
| "stock_state_name OutOfStock = ''out''" | "stock_state_name MadeToOrder = ''manual''"
| "stock_state_name SourcePaused = ''paused''"

definition STOCK_STATES :: "stock_state list" where
  "STOCK_STATES = [InStock, LowStock, OutOfStock, MadeToOrder, SourcePaused]"

record stock_hint =
  delivery_mode :: "jstr option"
  stock_state :: "jstr option"
  max_quantity :: "int option"
  stock_count :: "int option"
  is_active :: "bool option"

definition MAX_ORDER_QUANTITY :: int where "MAX_ORDER_QUANTITY = 5000"

definition isStockState :: "jstr option \<Rightarrow> stock_state option" where
  "isStockState value = List.find (\<lambda>s. value = Some (js (stock_state_name s))) STOCK_STATES"

definition is_manual :: "stock_hint \<Rightarrow> bool" where
  "is_manual v \<longleftrightarrow> delivery_mode v = Some (js ''manual'')"

definition variantStockState :: "stock_hint \<Rightarrow> stock_state" where
  "variantStockState v =
     (case isStockState (stock_state v) of
        Some s \<Rightarrow> s
      | None \<Rightarrow>
          if is_manual v then MadeToOrder
          else let count = (case stock_count v of None \<Rightarrow> 0 | Some c \<Rightarrow> c)
               in if count \<le> 0 then OutOfStock else if count \<le> 10 then LowStock else InStock)"

definition variantPurchasable :: "stock_hint \<Rightarrow> bool" where
  "variantPurchasable v \<longleftrightarrow> variantStockState v \<in> {InStock, LowStock, MadeToOrder}"

definition variantOutOfStock :: "stock_hint \<Rightarrow> bool" where
  "variantOutOfStock v \<longleftrightarrow> variantStockState v = OutOfStock"

definition variantUnavailable :: "stock_hint \<Rightarrow> bool" where
  "variantUnavailable v \<longleftrightarrow> \<not> variantPurchasable v"

definition variantMaxQuantity :: "stock_hint option \<Rightarrow> int" where
  "variantMaxQuantity v =
     (case v of
        None \<Rightarrow> MAX_ORDER_QUANTITY
      | Some h \<Rightarrow>
          (case max_quantity h of
             Some q \<Rightarrow> max 1 (min MAX_ORDER_QUANTITY q)
           | None \<Rightarrow>
               (case stock_count h of
                  Some c \<Rightarrow> if delivery_mode h = Some (js ''instant'') then min MAX_ORDER_QUANTITY (max 1 c)
                            else MAX_ORDER_QUANTITY
                | None \<Rightarrow> MAX_ORDER_QUANTITY)))"

section \<open>Products\<close>

datatype product_availability = Known stock_state | Auto | Unknown

definition active_hints :: "stock_hint list option \<Rightarrow> stock_hint list" where
  "active_hints variants = filter (\<lambda>v. is_active v \<noteq> Some False) (case variants of None \<Rightarrow> [] | Some vs \<Rightarrow> vs)"

definition productStockState :: "stock_hint list option \<Rightarrow> stock_state option" where
  "productStockState variants =
     (let active = active_hints variants in
      if active = [] then None
      else let states = map variantStockState active
           in case List.find (\<lambda>s. s \<in> set states) [InStock, LowStock, MadeToOrder, SourcePaused] of
                Some s \<Rightarrow> Some s | None \<Rightarrow> Some OutOfStock)"

record availability_hint =
  availability :: "jstr option"
  pricing_strategy :: "jstr option"
  hint_variants :: "stock_hint list option"

definition productAvailability :: "availability_hint \<Rightarrow> product_availability" where
  "productAvailability p =
     (case isStockState (availability p) of
        Some s \<Rightarrow> Known s
      | None \<Rightarrow>
          if availability p = Some (js ''auto'') then Auto
          else if pricing_strategy p \<notin> {None, Some [], Some (js ''fixed'')} then Auto
          else case productStockState (hint_variants p) of None \<Rightarrow> Unknown | Some s \<Rightarrow> Known s)"

definition productPurchasable :: "product_availability \<Rightarrow> bool" where
  "productPurchasable a \<longleftrightarrow> a \<in> {Known InStock, Known LowStock, Known MadeToOrder, Auto}"

definition manualStockLeft :: "stock_hint \<Rightarrow> int option" where
  "manualStockLeft v =
     (if \<not> is_manual v then None
      else if variantStockState v = OutOfStock then Some 0
      else case stock_count v of
        Some c \<Rightarrow> if variantStockState v = MadeToOrder \<and> 0 < c then Some c else None
      | None \<Rightarrow> None)"

definition hint_units :: "stock_hint \<Rightarrow> int" where
  "hint_units v =
     (if variantStockState v \<in> {InStock, LowStock}
      then (case stock_count v of None \<Rightarrow> 0 | Some c \<Rightarrow> max 0 c)
      else (case manualStockLeft v of None \<Rightarrow> 0 | Some n \<Rightarrow> n))"

definition productStockCount :: "stock_hint list option \<Rightarrow> int" where
  "productStockCount variants = foldl (\<lambda>acc v. acc + hint_units v) 0 (active_hints variants)"

definition productManualLeft :: "stock_hint list option \<Rightarrow> int option" where
  "productManualLeft variants =
     (let limits = map manualStockLeft (filter (\<lambda>v. variantStockState v = MadeToOrder) (active_hints variants))
      in if limits = [] \<or> None \<in> set limits then None
         else Some (foldl (\<lambda>acc l. acc + (case l of None \<Rightarrow> 0 | Some n \<Rightarrow> n)) 0 limits))"

definition stockRank :: "stock_hint list option \<Rightarrow> nat" where
  "stockRank variants =
     (case productStockState variants of
        Some InStock \<Rightarrow> 3 | Some LowStock \<Rightarrow> 2 | Some MadeToOrder \<Rightarrow> 1 | _ \<Rightarrow> 0)"

definition MANUAL_STOCK_CEILING :: int where "MANUAL_STOCK_CEILING = 1000000"

definition parseManualStock :: "jstr \<Rightarrow> int option" where
  "parseManualStock raw =
     (if js_trim raw = [] then None
      else Some (case js_number raw of
             NaN \<Rightarrow> 0
           | PosInf \<Rightarrow> MANUAL_STOCK_CEILING
           | NegInf \<Rightarrow> 0
           | Fin r \<Rightarrow> min MANUAL_STOCK_CEILING (max 0 \<lfloor>r\<rfloor>)))"

section \<open>Fulfilment\<close>

datatype fulfillment_kind = Instant | Sla | Api | Task | Proxy

fun fulfillment_name :: "fulfillment_kind \<Rightarrow> string" where
  "fulfillment_name Instant = ''instant''" | "fulfillment_name Sla = ''sla''" | "fulfillment_name Api = ''api''"
| "fulfillment_name Task = ''task''" | "fulfillment_name Proxy = ''proxy''"

record fulfillment_info =
  fi_kind :: fulfillment_kind
  fi_hours :: "nat option"

record variant_hint = stock_hint +
  hint_sla_hours :: "nat option"

text \<open>\<open>slaHours || 24\<close>\<close>

definition hours_or_day :: "nat option \<Rightarrow> nat" where
  "hours_or_day h = (case h of None \<Rightarrow> 24 | Some n \<Rightarrow> if n = 0 then 24 else n)"

definition fulfillmentFromStrategy :: "jstr option \<Rightarrow> jstr option \<Rightarrow> nat option \<Rightarrow> fulfillment_info" where
  "fulfillmentFromStrategy strategy mode slaHours =
     (if strategy = Some (js ''credit'') then \<lparr>fi_kind = Api, fi_hours = None\<rparr>
      else if strategy = Some (js ''task'') then \<lparr>fi_kind = Task, fi_hours = None\<rparr>
      else if strategy = Some (js ''config'') then \<lparr>fi_kind = Proxy, fi_hours = None\<rparr>
      else if mode = Some (js ''manual'') then \<lparr>fi_kind = Sla, fi_hours = Some (hours_or_day slaHours)\<rparr>
      else \<lparr>fi_kind = Instant, fi_hours = None\<rparr>)"

definition base_hint :: "variant_hint \<Rightarrow> stock_hint" where
  "base_hint v = \<lparr>delivery_mode = delivery_mode v, stock_state = stock_state v, max_quantity = max_quantity v,
                  stock_count = stock_count v, is_active = is_active v\<rparr>"

definition fulfillmentFromProduct :: "jstr option \<Rightarrow> variant_hint list option \<Rightarrow> fulfillment_info" where
  "fulfillmentFromProduct strategy variants0 =
     (if strategy \<notin> {None, Some [], Some (js ''fixed'')} then fulfillmentFromStrategy strategy None None
      else let variants = filter (\<lambda>v. is_active v \<noteq> Some False) (case variants0 of None \<Rightarrow> [] | Some vs \<Rightarrow> vs);
               instant = filter (\<lambda>v. delivery_mode v \<noteq> Some (js ''manual'')) variants;
               manual = filter (\<lambda>v. delivery_mode v = Some (js ''manual'')) variants;
               instantAvailable = list_ex (\<lambda>v. variantPurchasable (base_hint v)) instant
           in if instant \<noteq> [] \<and> (instantAvailable \<or> manual = []) then \<lparr>fi_kind = Instant, fi_hours = None\<rparr>
              else if manual \<noteq> [] then \<lparr>fi_kind = Sla, fi_hours = Some (hours_or_day (hint_sla_hours (hd manual)))\<rparr>
              else \<lparr>fi_kind = Instant, fi_hours = None\<rparr>)"

record order_hint =
  oh_strategy :: "jstr option"
  oh_mode :: "jstr option"
  oh_sla_hours :: "nat option"
  oh_variant :: "nat option"
  oh_product :: "nat option"
  oh_tasks :: nat

definition fulfillmentFromOrder :: "order_hint \<Rightarrow> fulfillment_info" where
  "fulfillmentFromOrder o' =
     (if oh_strategy o' \<notin> {None, Some []} then fulfillmentFromStrategy (oh_strategy o') (oh_mode o') (oh_sla_hours o')
      else if 0 < oh_tasks o' then \<lparr>fi_kind = Task, fi_hours = None\<rparr>
      else if oh_variant o' \<noteq> None then fulfillmentFromStrategy (Some (js ''fixed'')) (oh_mode o') (oh_sla_hours o')
      else if oh_product o' \<noteq> None then \<lparr>fi_kind = Api, fi_hours = None\<rparr>
      else \<lparr>fi_kind = Instant, fi_hours = None\<rparr>)"

datatype fulfillment_tone = ToneGood | ToneIris | ToneWarn | ToneNeutral

definition fulfillmentTone :: "fulfillment_kind \<Rightarrow> fulfillment_tone" where
  "fulfillmentTone k =
     (if k = Instant then ToneGood else if k = Api then ToneIris
      else if k = Sla \<or> k = Task then ToneWarn else ToneNeutral)"

definition fulfillmentTagKey :: "fulfillment_info \<Rightarrow> bool \<Rightarrow> string" where
  "fulfillmentTagKey info pending =
     (if pending \<and> fi_kind info = Task then ''fulfillment.taskPending''
      else ''fulfillment.'' @ fulfillment_name (fi_kind info))"

definition fulfillmentTagValues :: "fulfillment_info \<Rightarrow> nat option" where
  "fulfillmentTagValues info = (if fi_kind info = Sla then Some (hours_or_day (fi_hours info)) else None)"

section \<open>Lemmas and properties\<close>

lemma foldl_sum: "foldl (\<lambda>acc v. acc + f v) a xs = a + (\<Sum>v\<leftarrow>xs. f v)" for a :: int
  by (induction xs arbitrary: a) simp_all

lemma find_first: "List.find P xs = Some x \<Longrightarrow> P x \<and> x \<in> set xs"
  by (induction xs) (auto split: if_splits)

lemma isStockState_name [simp]: "isStockState (Some (js (stock_state_name s))) = Some s"
  by (cases s) (simp_all add: isStockState_def STOCK_STATES_def js_eq_iff del: js_Cons)

lemma productStockState_None: "productStockState vs = None \<longleftrightarrow> active_hints vs = []"
  by (simp add: productStockState_def Let_def split: option.split)

lemma productStockState_mem:
  assumes "productStockState vs = Some s"
  shows "s \<in> variantStockState ` set (active_hints vs)"
proof -
  let ?states = "map variantStockState (active_hints vs)"
  let ?f = "List.find (\<lambda>s. s \<in> set ?states) [InStock, LowStock, MadeToOrder, SourcePaused]"
  have ne: "active_hints vs \<noteq> []" using assms productStockState_None [of vs] by auto
  show ?thesis
  proof (cases ?f)
    case (Some x)
    from assms ne have "s = x"
      unfolding productStockState_def Let_def Some by (simp only: if_False option.case option.inject)
    moreover have "x \<in> set ?states" using find_first [OF Some] by blast
    ultimately show ?thesis by simp
  next
    case None
    then have none: "InStock \<notin> set ?states" "LowStock \<notin> set ?states" "MadeToOrder \<notin> set ?states" "SourcePaused \<notin> set ?states"
      by (auto split: if_splits)
    obtain v where v: "v \<in> set (active_hints vs)" using ne by (cases "active_hints vs") auto
    then have "variantStockState v \<in> set ?states" by simp
    with none have "variantStockState v = OutOfStock" by (cases "variantStockState v") metis+
    moreover from assms ne have "s = OutOfStock"
      unfolding productStockState_def Let_def None by (simp only: if_False option.case option.inject)
    ultimately show ?thesis using v by force
  qed
qed

lemma productStockState_best:
  assumes "productStockState vs = Some s" "v \<in> set (active_hints vs)" "variantPurchasable v"
  shows "s \<in> {InStock, LowStock, MadeToOrder}"
proof -
  have "variantStockState v \<in> set (map variantStockState (active_hints vs))" using assms(2) by simp
  with assms(1,3) show ?thesis
    by (auto simp: productStockState_def Let_def variantPurchasable_def split: if_splits option.splits)
qed

text \<open>
  The product card agrees with its packages.  A product with stock fulfilment is shown as
  purchasable exactly when one of its active packages is, and whenever a positive number of units is
  shown the product can be bought.
\<close>

theorem stock_rollup:
  assumes "availability p = None" "pricing_strategy p \<in> {None, Some (js ''fixed'')}"
  shows "(productPurchasable (productAvailability p) \<longleftrightarrow>
            (\<exists>v \<in> set (active_hints (hint_variants p)). variantPurchasable v)) \<and>
         (0 < productStockCount (hint_variants p) \<longrightarrow> productPurchasable (productAvailability p))"
proof -
  have a: "productAvailability p = (case productStockState (hint_variants p) of None \<Rightarrow> Unknown | Some s \<Rightarrow> Known s)"
    using assms by (auto simp: productAvailability_def isStockState_def STOCK_STATES_def)
  have iff: "productPurchasable (productAvailability p) \<longleftrightarrow>
      (\<exists>v \<in> set (active_hints (hint_variants p)). variantPurchasable v)"
  proof (cases "productStockState (hint_variants p)")
    case None
    with a productStockState_None show ?thesis by (simp add: productPurchasable_def)
  next
    case (Some s)
    with a productStockState_mem [OF Some] productStockState_best [OF Some] show ?thesis
      by (auto simp: productPurchasable_def variantPurchasable_def)
  qed
  have units: "hint_units v \<le> 0" if "\<not> variantPurchasable v" for v
    using that by (auto simp: hint_units_def variantPurchasable_def manualStockLeft_def split: option.split)
  have "0 < productStockCount (hint_variants p) \<Longrightarrow> \<exists>v \<in> set (active_hints (hint_variants p)). 0 < hint_units v"
    unfolding productStockCount_def foldl_sum
    by (metis add_0 leD leI sum_list_nonpos imageE list.set_map)
  then show ?thesis using iff units by fastforce
qed

lemma stock_rollup_witness:
  "let p = \<lparr>availability = None, pricing_strategy = None,
            hint_variants = Some [\<lparr>delivery_mode = Some (js ''instant''), stock_state = None, max_quantity = None,
              stock_count = Some 3, is_active = None\<rparr>]\<rparr>
   in productPurchasable (productAvailability p) \<and> productStockCount (hint_variants p) = 3"
proof -
  let ?v = "\<lparr>delivery_mode = Some (js ''instant''), stock_state = None, max_quantity = None, stock_count = Some 3, is_active = None\<rparr>"
  let ?p = "\<lparr>availability = None, pricing_strategy = None, hint_variants = Some [?v]\<rparr>"
  have "variantStockState ?v = LowStock"
    by (simp add: variantStockState_def isStockState_def STOCK_STATES_def is_manual_def js_eq_iff del: js_Cons)
  then have c: "productStockCount (hint_variants ?p) = 3"
    by (simp add: productStockCount_def active_hints_def hint_units_def)
  moreover have a: "availability ?p = None" "pricing_strategy ?p \<in> {None, Some (js ''fixed'')}" by simp_all
  ultimately have "0 < productStockCount (hint_variants ?p)" by linarith
  with stock_rollup [OF a, THEN conjunct2] have "productPurchasable (productAvailability ?p)" by (rule mp)
  with c show ?thesis unfolding Let_def by blast
qed

text \<open>
  The order form never asks for an impossible quantity.  The largest quantity offered is
  between one and the order limit, and a typed limit of a made-to-order package is between zero and
  its ceiling, or no limit exactly when nothing is typed.
\<close>

theorem order_quantity_bounds:
  "1 \<le> variantMaxQuantity v \<and> variantMaxQuantity v \<le> MAX_ORDER_QUANTITY \<and>
   (case parseManualStock raw of None \<Rightarrow> js_trim raw = [] | Some n \<Rightarrow> js_trim raw \<noteq> [] \<and> 0 \<le> n \<and> n \<le> MANUAL_STOCK_CEILING)"
proof -
  have "1 \<le> variantMaxQuantity v \<and> variantMaxQuantity v \<le> MAX_ORDER_QUANTITY"
    by (auto simp: variantMaxQuantity_def MAX_ORDER_QUANTITY_def split: option.split)
  moreover have "case parseManualStock raw of None \<Rightarrow> js_trim raw = [] | Some n \<Rightarrow> js_trim raw \<noteq> [] \<and> 0 \<le> n \<and> n \<le> MANUAL_STOCK_CEILING"
    by (auto simp: parseManualStock_def MANUAL_STOCK_CEILING_def split: jsnum.split)
  ultimately show ?thesis by simp
qed

end
