(* ===== verification/Order_Lines.thy ===== *)
theory Order_Lines
  imports Restock_Lines Batches Js_Number
begin

text \<open>
  An order's reference and delivered lines: codes and line labels (lib/order-ref.ts), what a list
  shows of a line (lib/order-line-text.ts), fetching all lines page by page (lib/order-lines.ts) and
  cutting a dispute's claims into batches (lib/dispute-batches.ts).
\<close>

section \<open>Order references\<close>

text \<open>
  \<open>toUpperCase\<close> as far as its result can be an order code: the ASCII letters and the code units whose
  upper case is made of ASCII letters only.
\<close>

definition upper_text :: "code_unit \<Rightarrow> jstr" where
  "upper_text c =
     (if c = 0xDF then js ''SS'' else if c = 0x131 then js ''I'' else if c = 0x17F then js ''S''
      else if c = 0xFB00 then js ''FF'' else if c = 0xFB01 then js ''FI'' else if c = 0xFB02 then js ''FL''
      else if c = 0xFB03 then js ''FFI'' else if c = 0xFB04 then js ''FFL''
      else if c = 0xFB05 \<or> c = 0xFB06 then js ''ST''
      else [upper_unit c])"

definition js_upper :: "jstr \<Rightarrow> jstr" where
  "js_upper s = concat (map upper_text s)"

definition code_char :: "code_unit \<Rightarrow> bool" where
  "code_char c \<longleftrightarrow> is_digit c \<or> (65 \<le> c \<and> c \<le> 90)"

definition order_code_body :: "jstr \<Rightarrow> bool" where
  "order_code_body s \<longleftrightarrow> length s = 8 \<and> list_all code_char s"

definition drop_hash :: "jstr \<Rightarrow> jstr" where
  "drop_hash s = (if s \<noteq> [] \<and> hd s = 35 then tl s else s)"

definition normalizeOrderCode :: "jstr option \<Rightarrow> jstr option" where
  "normalizeOrderCode raw =
     (case raw of
        None \<Rightarrow> None
      | Some r \<Rightarrow>
          if r = [] then None
          else let b = js_upper (drop_hash (js_trim r));
                   body = (if starts_with b (js ''ORD-'') then drop 4 b else b)
               in if \<not> order_code_body body \<or> list_all is_digit body then None
                  else Some (js ''ORD-'' @ body))"

record order_ref =
  or_id :: nat
  or_code :: "jstr option"

definition matchesOrderRef :: "order_ref \<Rightarrow> jstr \<Rightarrow> bool" where
  "matchesOrderRef order ref =
     (let trimmed = drop_hash (js_trim ref)
      in if trimmed = [] then False
         else case normalizeOrderCode (Some trimmed) of
           Some code \<Rightarrow> or_code order = Some code
         | None \<Rightarrow> list_all is_digit trimmed \<and> js_number trimmed = Fin (of_nat (or_id order)))"

definition lineLabel :: "nat \<Rightarrow> jstr" where
  "lineLabel line = 35 # replicate (2 - length (show_nat line)) 48 @ show_nat line"

definition resourceLineMap :: "(nat \<times> nat option) list \<Rightarrow> (nat \<times> nat) list" where
  "resourceLineMap rows =
     foldl (\<lambda>lines (index, (id, line_no)). AList.update id (case line_no of None \<Rightarrow> index + 1 | Some l \<Rightarrow> l) lines)
       [] (zip [0..<length rows] rows)"

section \<open>Delivered lines\<close>

record line_row =
  lr_id :: nat
  lr_data :: "jstr option"
  lr_preview :: "jstr option"

definition lineDisplayText :: "line_row \<Rightarrow> jstr" where
  "lineDisplayText row = (case lr_data row of Some d \<Rightarrow> d | None \<Rightarrow> (case lr_preview row of Some p \<Rightarrow> p | None \<Rightarrow> []))"

definition isClippedLine :: "line_row \<Rightarrow> bool" where
  "isClippedLine row \<longleftrightarrow> lr_data row = None \<and> lr_preview row \<noteq> None"

text \<open>\<open>line.split(/[|:]/)\<close>\<close>

fun split_fields :: "jstr \<Rightarrow> jstr list" where
  "split_fields [] = [[]]"
| "split_fields (c # s) =
     (if c = 124 \<or> c = 58 then [] # split_fields s
      else (case split_fields s of [] \<Rightarrow> [[c]] | y # ys \<Rightarrow> (c # y) # ys))"

definition userPassLines :: "jstr \<Rightarrow> jstr" where
  "userPassLines text =
     join [10] (map (\<lambda>line. case split_fields line of
                        u # p # _ \<Rightarrow> if u \<noteq> [] \<and> p \<noteq> [] then u @ [124] @ p else line
                      | _ \<Rightarrow> line)
                  (filter (\<lambda>l. l \<noteq> []) (split_lines text)))"

section \<open>Fetching every line\<close>

text \<open>
  \<open>page cursor\<close> is the answer of \<open>GET /orders/{ref}/resources\<close> (\<^const>\<open>None\<close> when the request fails) and
  \<open>aborted n\<close> whether the caller aborted before request \<open>n\<close>.  A loop that never ends is \<^const>\<open>None\<close>.
\<close>

definition ORDER_LINES_PAGE :: nat where "ORDER_LINES_PAGE = 200"

datatype 'r fetch_result = Aborted | FetchFailed | Lines "'r list"

partial_function (option) fetch_pages ::
    "(nat \<Rightarrow> bool) \<Rightarrow> (nat option \<Rightarrow> ('r list \<times> nat option) option) \<Rightarrow> nat \<Rightarrow> nat option \<Rightarrow> 'r list \<Rightarrow>
     'r fetch_result option" where
  "fetch_pages aborted page n cursor rows =
     (if aborted n then Some Aborted
      else case page cursor of
        None \<Rightarrow> Some FetchFailed
      | Some (got, next_after) \<Rightarrow>
          (case next_after of
             None \<Rightarrow> Some (Lines (rows @ got))
           | Some c \<Rightarrow>
               if got = [] then Some (Lines rows)
               else fetch_pages aborted page (n + 1) (Some c) (rows @ got)))"

definition fetchAllOrderLines ::
    "(nat \<Rightarrow> bool) \<Rightarrow> (nat option \<Rightarrow> ('r list \<times> nat option) option) \<Rightarrow> nat option \<Rightarrow> 'r fetch_result option" where
  "fetchAllOrderLines aborted page after = fetch_pages aborted page 0 after []"

text \<open>The pages a backend serves of rows in the order of their ids: those after the cursor, at most a page.\<close>

definition rows_after :: "nat option \<Rightarrow> (nat \<times> 'r) list \<Rightarrow> (nat \<times> 'r) list" where
  "rows_after cursor rows = dropWhile (\<lambda>r. case cursor of None \<Rightarrow> False | Some c \<Rightarrow> fst r \<le> c) rows"

definition served_page :: "(nat \<times> 'r) list \<Rightarrow> nat option \<Rightarrow> ((nat \<times> 'r) list \<times> nat option) option" where
  "served_page rows cursor =
     (let rest = rows_after cursor rows; got = take ORDER_LINES_PAGE rest
      in Some (got, if ORDER_LINES_PAGE < length rest then Some (fst (last got)) else None))"

definition fetchOrderLinesByIds :: "(nat list \<Rightarrow> 'r list option) \<Rightarrow> int list \<Rightarrow> 'r list option" where
  "fetchOrderLinesByIds by_ids ids =
     (let unique = map nat (filter (\<lambda>i. 0 < i) (uniq ids))
      in case chunk_from (\<lambda>start. start + ORDER_LINES_PAGE) unique 0 of
           None \<Rightarrow> None
         | Some chunks \<Rightarrow>
             foldl (\<lambda>acc chunk. case acc of
                      None \<Rightarrow> None | Some rows \<Rightarrow> map_option (\<lambda>got. rows @ got) (by_ids chunk)) (Some []) chunks)"

text \<open>\<open>/me/proxies?q=\<close>: a fixed number of pages, each with the number of matches.\<close>

definition PROXY_LINES_PAGE :: nat where "PROXY_LINES_PAGE = 100"
definition PROXY_LINES_MAX_PAGES :: nat where "PROXY_LINES_MAX_PAGES = 5"

record proxy_line =
  pl_order_code :: jstr
  pl_line_no :: nat
  pl_status :: jstr

fun first_lines :: "nat list \<Rightarrow> jstr \<Rightarrow> proxy_line list \<Rightarrow> proxy_line list" where
  "first_lines seen orderCode [] = []"
| "first_lines seen orderCode (item # rest) =
     (if pl_order_code item \<noteq> orderCode \<or> pl_line_no item \<in> set seen then first_lines seen orderCode rest
      else item # first_lines (pl_line_no item # seen) orderCode rest)"

definition orderProxyLines :: "proxy_line list \<Rightarrow> jstr \<Rightarrow> proxy_line list" where
  "orderProxyLines got orderCode =
     sort_key pl_line_no (first_lines [] orderCode got)"

fun proxy_pages :: "(nat \<Rightarrow> (proxy_line list \<times> nat) option) \<Rightarrow> nat list \<Rightarrow> proxy_line list \<Rightarrow> proxy_line list option" where
  "proxy_pages list_page [] acc = Some acc"
| "proxy_pages list_page (page # pages) acc =
     (case list_page page of
        None \<Rightarrow> None
      | Some (got, total_matches) \<Rightarrow>
          if got = [] \<or> total_matches \<le> page * PROXY_LINES_PAGE then Some (acc @ got)
          else proxy_pages list_page pages (acc @ got))"

definition fetchOrderProxyLines :: "(nat \<Rightarrow> (proxy_line list \<times> nat) option) \<Rightarrow> jstr \<Rightarrow> proxy_line list option" where
  "fetchOrderProxyLines list_page orderCode =
     map_option (\<lambda>got. orderProxyLines got orderCode)
       (proxy_pages list_page [1..<PROXY_LINES_MAX_PAGES + 1] [])"

section \<open>Batches of a dispute\<close>

definition DISPUTE_RESOURCE_BATCH_SIZE :: nat where "DISPUTE_RESOURCE_BATCH_SIZE = 2000"

text \<open>\<^const>\<open>None\<close> is the RangeError; the size is any number.\<close>

definition batch_size :: "jsnum \<Rightarrow> nat option" where
  "batch_size n = (case as_integer n of None \<Rightarrow> None | Some i \<Rightarrow> if i < 1 then None else Some (nat i))"

definition slices :: "nat \<Rightarrow> 'a list \<Rightarrow> 'a list list option" where
  "slices n xs = chunk_from (\<lambda>index. index + n) xs 0"

definition chunkDisputeResourceIds :: "nat list \<Rightarrow> jsnum \<Rightarrow> nat list list option" where
  "chunkDisputeResourceIds resourceIds batchSize =
     (case batch_size batchSize of None \<Rightarrow> None | Some n \<Rightarrow> slices n (uniq resourceIds))"

text \<open>
  A batch of claims with its replacements, for a batch size that is a natural number.  With
  replacements the size is not tested, and the size 0 makes the loop run forever (\<^const>\<open>None\<close> too).
\<close>

definition chunkPairedDisputeResources ::
    "nat list \<Rightarrow> nat list option \<Rightarrow> nat \<Rightarrow> (nat list \<times> nat list option) list option" where
  "chunkPairedDisputeResources resourceIds replacements size' =
     (let claimed = uniq resourceIds
      in case replacements of
           None \<Rightarrow> map_option (map (\<lambda>ids. (ids, None))) (chunkDisputeResourceIds claimed (Fin (of_nat size')))
         | Some rs \<Rightarrow>
             if length rs \<noteq> length claimed then None
             else if length (uniq rs) \<noteq> length rs then None
             else (case (slices size' claimed, slices size' rs) of
                     (Some as, Some bs) \<Rightarrow> Some (map (\<lambda>(a, b). (a, Some b)) (zip as bs))
                   | _ \<Rightarrow> None))"


section \<open>The laws\<close>

text \<open>A fixed stride is a batch rule: the laws of \<open>batcher\<close> for the dispute claims.\<close>

interpretation stride: batcher "\<lambda>xs s. s + Suc n" "\<lambda>b. length b \<le> Suc n" for n
  by unfold_locales (simp_all add: length_segment)

lemma slices_laws:
  assumes "0 < n"
  obtains bs where "slices n xs = Some bs" "concat bs = xs" "\<forall>b \<in> set bs. b \<noteq> [] \<and> length b \<le> n"
    "length bs \<le> length xs"
proof -
  from assms obtain m where "n = Suc m" by (cases n) auto
  then show ?thesis using that stride.chunks [of m xs] by (auto simp: slices_def)
qed

lemma batch_size_nat [simp]: "0 < n \<Longrightarrow> batch_size (Fin (of_nat n)) = Some n"
  by (simp add: batch_size_def)

lemma batch_size_pos: "batch_size x = Some n \<Longrightarrow> 0 < n"
  by (auto simp: batch_size_def split: option.splits if_splits)

text \<open>
  Cutting a dispute's claims.  A batch size that is not a positive integer is
  refused; with any other size n the loop ends, the batches in order are the distinct claims in
  order, and every batch has between one and n of them.
\<close>

theorem dispute_batches:
  "case batch_size size' of
     None \<Rightarrow> chunkDisputeResourceIds resourceIds size' = None
   | Some n \<Rightarrow> (\<exists>bs. chunkDisputeResourceIds resourceIds size' = Some bs \<and> concat bs = uniq resourceIds \<and>
        (\<forall>b \<in> set bs. 1 \<le> length b \<and> length b \<le> n) \<and> distinct (concat bs))"
proof (cases "batch_size size'")
  case (Some n)
  obtain bs where "slices n (uniq resourceIds) = Some bs" "concat bs = uniq resourceIds"
      "\<forall>b \<in> set bs. b \<noteq> [] \<and> length b \<le> n"
    by (rule slices_laws [OF batch_size_pos [OF Some]])
  then show ?thesis using Some by (auto simp: chunkDisputeResourceIds_def Suc_le_eq)
qed (simp add: chunkDisputeResourceIds_def)

lemma dispute_batches_witness:
  "chunkDisputeResourceIds [7, 7, 9, 3] (Fin 0) = None \<and>
   (\<exists>bs. chunkDisputeResourceIds [7, 7, 9, 3] (Fin 2) = Some bs \<and> concat bs = [7, 9, 3] \<and>
      (\<forall>b \<in> set bs. 1 \<le> length b \<and> length b \<le> 2) \<and> distinct (concat bs))"
proof -
  have "batch_size (Fin 0) = None" "batch_size (Fin 2) = Some 2" "uniq [7, 7, 9, 3::nat] = [7, 9, 3]"
    by (simp_all add: batch_size_def as_integer_def uniq_def set_add_def)
  then show ?thesis
    using dispute_batches [of "[7, 7, 9, 3]" "Fin 0"] dispute_batches [of "[7, 7, 9, 3]" "Fin 2"] by simp
qed

text \<open>Two lists of one length are cut at the same places.\<close>

lemma slices_step:
  "chunk_from (\<lambda>i. i + n) xs s =
     (if s < length xs then map_option ((#) (segment xs s (s + n))) (chunk_from (\<lambda>i. i + n) xs (s + n)) else Some [])"
  by (subst chunk_from.simps) (simp add: map_conv_bind_option comp_def)

lemma slices_parallel:
  assumes "length xs = length ys" "0 < n"
    and "chunk_from (\<lambda>i. i + n) xs s = Some as" "chunk_from (\<lambda>i. i + n) ys s = Some bs"
  shows "map length as = map length bs"
  using assms(3,4)
proof (induction as arbitrary: bs s)
  case Nil
  then show ?case using assms(1) by (auto simp: slices_step [of n xs s] slices_step [of n ys s] split: if_splits)
next
  case (Cons a as)
  then show ?case using assms(1)
    by (auto simp: slices_step [of n xs s] slices_step [of n ys s] length_segment split: if_splits)
qed

text \<open>
  Cutting claims with their replacements.  The call is refused exactly when the
  replacements repeat a row or are not as many as the distinct claims; otherwise the batches hold
  every claim and every replacement once, in order, and the k-th claim of a batch stands beside its
  own replacement: reading the batches pair by pair gives the two lists pair by pair.
\<close>

theorem paired_batches:
  assumes "0 < n"
  shows "case chunkPairedDisputeResources resourceIds (Some replacements) n of
     None \<Rightarrow> length replacements \<noteq> length (uniq resourceIds) \<or> \<not> distinct replacements
   | Some bs \<Rightarrow> (\<forall>b \<in> set bs. 1 \<le> length (fst b) \<and> length (fst b) \<le> n) \<and>
       concat (map (\<lambda>(ids, rs). zip ids (the rs)) bs) = zip (uniq resourceIds) replacements \<and>
       concat (map fst bs) = uniq resourceIds \<and> concat (map (the \<circ> snd) bs) = replacements"
proof (cases "length replacements = length (uniq resourceIds) \<and> distinct replacements")
  case True
  obtain as where as: "slices n (uniq resourceIds) = Some as" "concat as = uniq resourceIds"
      "\<forall>b \<in> set as. b \<noteq> [] \<and> length b \<le> n"
    by (rule slices_laws [OF assms])
  obtain bs where bs: "slices n replacements = Some bs" "concat bs = replacements"
    by (rule slices_laws [OF assms])
  have lens: "map length as = map length bs"
    using True assms as(1) bs(1) unfolding slices_def by (intro slices_parallel) auto
  have len: "length as = length bs" using lens by (metis length_map)
  have zips: "concat (map (\<lambda>(a, b). zip a b) (zip as bs)) = zip (concat as) (concat bs)"
    using len lens by (induction as bs rule: list_induct2) auto
  have "length (uniq replacements) = length replacements" using True by (simp add: uniq_distinct)
  then have "chunkPairedDisputeResources resourceIds (Some replacements) n =
      Some (map (\<lambda>(a, b). (a, Some b)) (zip as bs))"
    using True as(1) bs(1) by (simp add: chunkPairedDisputeResources_def Let_def)
  moreover have "map (fst \<circ> (\<lambda>(a, b). (a, Some b))) (zip as bs) = as"
      "map (the \<circ> snd \<circ> (\<lambda>(a, b). (a, Some b))) (zip as bs) = bs"
    using len by (induction as bs rule: list_induct2) auto
  moreover have "\<forall>b \<in> set (zip as bs). 1 \<le> length (fst b) \<and> length (fst b) \<le> n"
    using as(3) by (auto simp: Suc_le_eq dest: set_zip_leftD)
  ultimately show ?thesis using as(2) bs(2) zips by (auto simp: comp_def case_prod_unfold)
next
  case False
  have "length (uniq replacements) \<noteq> length replacements" if "\<not> distinct replacements"
    using that by (metis card_distinct distinct_card distinct_uniq set_uniq)
  with False show ?thesis by (auto simp: chunkPairedDisputeResources_def Let_def)
qed

lemma paired_batches_witness:
  "chunkPairedDisputeResources [4, 4, 5] (Some [9]) 2 = None \<and>
   (case chunkPairedDisputeResources [4, 5, 6] (Some [9, 8, 7]) 2 of
      None \<Rightarrow> length [9, 8, 7::nat] \<noteq> length (uniq [4, 5, 6::nat]) \<or> \<not> distinct [9, 8, 7::nat]
    | Some bs \<Rightarrow> (\<forall>b \<in> set bs. 1 \<le> length (fst b) \<and> length (fst b) \<le> 2) \<and>
       concat (map (\<lambda>(ids, rs). zip ids (the rs)) bs) = zip (uniq [4, 5, 6]) [9, 8, 7] \<and>
       concat (map fst bs) = uniq [4, 5, 6] \<and> concat (map (the \<circ> snd) bs) = [9, 8, 7])"
  using paired_batches [where n=2 and resourceIds="[4, 5, 6]" and replacements="[9, 8, 7]"]
  by (simp add: chunkPairedDisputeResources_def uniq_def set_add_def)

section \<open>Fetching all lines ends with all of them\<close>

lemma dropWhile_after:
  assumes "sorted_wrt (<) (map fst rows)" "rows = xs @ ys" "xs \<noteq> []"
  shows "rows_after (Some (fst (last xs))) rows = ys"
proof -
  obtain zs z where z: "xs = zs @ [z]" using assms(3) by (metis rev_exhaust)
  have le: "fst r \<le> fst z" if "r \<in> set xs" for r
    using that assms(1,2) z by (auto simp: sorted_wrt_append order.strict_implies_order)
  have gt: "fst z < fst r" if "r \<in> set ys" for r
    using that assms(1,2) z by (auto simp: sorted_wrt_append)
  have "dropWhile (\<lambda>r. fst r \<le> fst z) (xs @ ys) = dropWhile (\<lambda>r. fst r \<le> fst z) ys"
    using le by (simp add: dropWhile_append)
  also have "\<dots> = ys" using gt by (cases ys) force+
  finally show ?thesis using z assms(2) by (simp add: rows_after_def)
qed

lemma rows_after_suffix: "suffix (rows_after c rows) rows"
  by (simp add: rows_after_def suffix_dropWhile)

lemma fetch_pages_all:
  assumes sorted: "sorted_wrt (<) (map fst rows)"
  shows "fetch_pages (\<lambda>_. False) (served_page rows) n cursor acc = Some (Lines (acc @ rows_after cursor rows))"
proof (induction "length (rows_after cursor rows)" arbitrary: cursor n acc rule: less_induct)
  case less
  let ?rest = "rows_after cursor rows"
  let ?got = "take ORDER_LINES_PAGE ?rest"
  show ?case
  proof (cases "ORDER_LINES_PAGE < length ?rest")
    case True
    then have ne: "?got \<noteq> []" by (auto simp: ORDER_LINES_PAGE_def)
    obtain pre where pre: "rows = pre @ ?rest" using rows_after_suffix [of cursor rows] by (auto simp: suffix_def)
    have rest: "rows_after (Some (fst (last ?got))) rows = drop ORDER_LINES_PAGE ?rest"
    proof -
      have "rows = (pre @ ?got) @ drop ORDER_LINES_PAGE ?rest" using pre by simp
      from dropWhile_after [OF sorted this] show ?thesis using ne by simp
    qed
    have "length (rows_after (Some (fst (last ?got))) rows) < length ?rest"
      using True unfolding rest by (simp add: ORDER_LINES_PAGE_def)
    from less [OF this] show ?thesis using True ne rest
      by (subst fetch_pages.simps) (simp add: served_page_def Let_def)
  next
    case False
    then show ?thesis by (subst fetch_pages.simps) (simp add: served_page_def Let_def)
  qed
qed

text \<open>
  C30: Copying an order's lines.  Against a backend that serves the lines in the order
  of their ids, at most a page after the cursor with a cursor when more follow, and while the caller
  does not abort, the loop ends and returns exactly the lines after the given id, each once and in
  order, however many there are.
\<close>

theorem fetch_all_lines:
  assumes "sorted_wrt (<) (map fst rows)"
  shows "fetchAllOrderLines (\<lambda>_. False) (served_page rows) after =
    Some (Lines (case after of None \<Rightarrow> rows | Some c \<Rightarrow> filter (\<lambda>r. c < fst r) rows))"
proof -
  have "rows_after after rows = (case after of None \<Rightarrow> rows | Some c \<Rightarrow> filter (\<lambda>r. c < fst r) rows)"
    using assms unfolding rows_after_def
  proof (induction rows)
    case (Cons r rows)
    then have "fst r < fst q" if "q \<in> set rows" for q using that by auto
    then have "filter (\<lambda>q. c < fst q) rows = rows" if "c < fst r" for c
      using that by (fastforce simp: filter_id_conv)
    with Cons show ?case by (auto split: option.splits)
  qed (simp split: option.splits)
  then show ?thesis
    using fetch_pages_all [OF assms, of 0 after "[]"] by (simp add: fetchAllOrderLines_def)
qed

lemma fetch_all_lines_witness:
  "fetchAllOrderLines (\<lambda>_. False) (served_page [(3, ''a''), (5, ''b''), (8, ''c'')]) (Some 3) =
     Some (Lines [(5, ''b''), (8, ''c'')])"
  using fetch_all_lines [where rows = "[(3, ''a''), (5, ''b''), (8, ''c'')]" and after = "Some 3"] by simp

text \<open>An answer without lines ends the loop whatever its cursor says, so the loop never repeats a page.\<close>

lemma fetch_pages_stops:
  "page cursor = Some ([], c) \<Longrightarrow> fetch_pages (\<lambda>_. False) page n cursor acc = Some (Lines acc)"
  by (subst fetch_pages.simps) (simp split: option.splits)

section \<open>Order codes\<close>

lemma upper_text_code: "code_char c \<Longrightarrow> upper_text c = [c]"
  by (auto simp: code_char_def is_digit_def upper_text_def upper_unit_def word_le_nat_alt)

lemma js_upper_code: "list_all code_char s \<Longrightarrow> js_upper s = s"
  by (induction s) (auto simp: js_upper_def upper_text_code)

lemma code_char_units: "code_char c \<Longrightarrow> \<not> js_space c \<and> c \<noteq> 35 \<and> c \<noteq> 45"
  by (auto simp: code_char_def is_digit_def js_space_def word_le_nat_alt)

lemma normalize_body:
  assumes "order_code_body body" "\<not> list_all is_digit body"
  shows "normalizeOrderCode (Some (js ''ORD-'' @ body)) = Some (js ''ORD-'' @ body)"
proof -
  have codes: "list_all code_char body" and len: "length body = 8"
    using assms(1) by (simp_all add: order_code_body_def)
  then have ne: "body \<noteq> []" by auto
  then have "code_char (last body)" using codes by (simp add: list_all_iff)
  then have "trimmed (js ''ORD-'' @ body)"
    using ne code_char_units [of "last body"] by (simp add: trimmed_def js_space_def)
  then have tr: "js_trim (js ''ORD-'' @ body) = js ''ORD-'' @ body" by (rule trimmed_js_trim_id)
  have up: "js_upper (js ''ORD-'' @ body) = js ''ORD-'' @ body"
    using js_upper_code [OF codes] by (simp add: js_upper_def upper_text_def upper_unit_def)
  have dh: "drop_hash (js ''ORD-'' @ body) = js ''ORD-'' @ body" by (simp add: drop_hash_def)
  have sw: "starts_with (js ''ORD-'' @ body) (js ''ORD-'')" by (simp add: starts_with_def del: js_Cons)
  have dr: "drop 4 (js ''ORD-'' @ body) = body" by simp
  show ?thesis
    using assms unfolding normalizeOrderCode_def Let_def option.case tr up dh
    by (simp only: sw dr if_True) (simp del: js_Cons)
qed

lemma upper_text_same: "js_space c \<or> c = 35 \<Longrightarrow> upper_text c = [c]"
  by (auto simp: js_space_def upper_text_def upper_unit_def word_le_nat_alt)

lemma normalize_again:
  assumes "normalizeOrderCode (Some s) = Some code"
  shows "normalizeOrderCode (Some (drop_hash (js_trim s))) = Some code"
proof -
  define t where "t = drop_hash (js_trim s)"
  define b where "b = js_upper t"
  have codes: "order_code_body (if starts_with b (js ''ORD-'') then drop 4 b else b)"
    using assms by (auto simp: normalizeOrderCode_def Let_def t_def b_def simp del: js_Cons split: if_splits)
  then have ne: "t \<noteq> []" by (auto simp: b_def js_upper_def order_code_body_def split: if_splits)
  then obtain c r where t: "t = c # r" by (cases t) auto
  have hd: "code_char (hd b)"
  proof (cases "starts_with b (js ''ORD-'')")
    case True
    then show ?thesis by (auto simp: starts_with_def prefix_def code_char_def)
  next
    case False
    with codes show ?thesis by (cases b) (auto simp: order_code_body_def)
  qed
  have c: "\<not> js_space c \<and> c \<noteq> 35"
  proof (rule ccontr)
    assume "\<not> (\<not> js_space c \<and> c \<noteq> 35)"
    then have "js_space c \<or> c = 35" by blast
    from upper_text_same [OF this] have "hd b = c" by (simp add: b_def js_upper_def t)
    with hd code_char_units \<open>js_space c \<or> c = 35\<close> show False by blast
  qed
  have "last t = last (js_trim s)"
    using ne by (cases "js_trim s") (auto simp: t_def drop_hash_def)
  moreover have "js_trim s \<noteq> []" using ne by (auto simp: t_def drop_hash_def)
  ultimately have "\<not> js_space (last t)" using trimmed_js_trim [of s] by (auto simp: trimmed_def)
  then have "js_trim t = t" using c t by (intro trimmed_js_trim_id) (simp add: trimmed_def)
  moreover have "drop_hash t = t" using c t by (simp add: drop_hash_def)
  moreover have "s \<noteq> []" using ne by (auto simp: t_def drop_hash_def)
  ultimately have "normalizeOrderCode (Some t) = normalizeOrderCode (Some s)"
    using ne by (simp only: normalizeOrderCode_def option.case flip: t_def)
  then show ?thesis using assms by (simp add: t_def)
qed

text \<open>
  Order codes.  Whatever spelling is recognised as a code (any case, with or
  without the number sign and the prefix), its normal form is a fixed point of the normalisation, and
  an order is found by the spelling exactly when the normal form is its code.
\<close>

theorem order_code_normal:
  assumes "normalizeOrderCode (Some s) = Some code"
  shows "normalizeOrderCode (Some code) = Some code \<and> matchesOrderRef order s = (or_code order = Some code)"
proof
  from assms obtain body where "order_code_body body" "\<not> list_all is_digit body"
      "code = js ''ORD-'' @ body"
    by (auto simp: normalizeOrderCode_def Let_def simp del: js_Cons split: if_splits)
  then show "normalizeOrderCode (Some code) = Some code" using normalize_body by blast
  have again: "normalizeOrderCode (Some (drop_hash (js_trim s))) = Some code"
    using assms by (rule normalize_again)
  then have "drop_hash (js_trim s) \<noteq> []" by (auto simp: normalizeOrderCode_def)
  then show "matchesOrderRef order s = (or_code order = Some code)"
    using again by (simp add: matchesOrderRef_def)
qed

lemma order_code_normal_witness:
  "normalizeOrderCode (Some (js ''ORD-3F9K2M7Q'')) = Some (js ''ORD-3F9K2M7Q'') \<and>
   matchesOrderRef \<lparr> or_id = 5, or_code = Some (js ''ORD-3F9K2M7Q'') \<rparr> (js '' #3f9k2m7q'')"
proof -
  have "normalizeOrderCode (Some (js '' #3f9k2m7q'')) = Some (js ''ORD-3F9K2M7Q'')"
    by code_simp
  from order_code_normal [OF this] show ?thesis by simp
qed

end
