(* ===== verification/Disputes.thy ===== *)
theory Disputes
  imports Order_Lines
begin

text \<open>
  A dispute as the buyer and the seller see it (lib/dispute-case.ts) and the form that opens one
  (lib/dispute-form.ts): which items are claimed, which were remedied, what a delivery row shows and
  whether it can be claimed.  Row ids and line numbers are natural numbers, 0 being JavaScript's falsy
  one; amounts are exact.  A \<open>Record<number, T>\<close> is an association list.
\<close>

section \<open>A case and its remedies\<close>

datatype remedy = Replace | Refund

record resource_action =
  ra_action :: remedy
  ra_original :: nat
  ra_replacement :: "nat option"
  ra_amount :: rat

record proxy_action =
  pa_line :: nat
  pa_amount :: rat

datatype message_code =
  FullRefund | BuyerAccepted | BuyerWithdrew | ResolutionAbandoned | ResolutionTimeout | SellerTimeoutRefund

record message_params =
  mp_actor :: "jstr option"
  mp_scope :: "jstr option"
  mp_amount :: "rat option"

record timeline_event =
  te_type :: jstr
  te_body :: "jstr option"
  te_resource_ids :: "nat list"
  te_replacement_ids :: "nat option list option"
  te_refund_amount :: "rat option"
  te_proxy_lines :: "nat list option"
  te_lines :: "nat list option"
  te_amount :: "rat option"
  te_code :: "message_code option"
  te_params :: "message_params option"

record dispute =
  di_status :: jstr
  di_seller_note :: "jstr option"
  di_refunded :: "rat option"
  di_case_refunded :: "rat option"
  di_claimed :: "nat list option"
  di_actions :: "resource_action list option"
  di_claimed_lines :: "nat list option"
  di_proxy_actions :: "proxy_action list option"
  di_timeline :: "timeline_event list option"

text \<open>\<open>xs ?? []\<close>, \<open>x || 0\<close> on a number, and the truthiness of an optional id.\<close>

definition or_empty :: "'a list option \<Rightarrow> 'a list" where
  "or_empty x = (case x of None \<Rightarrow> [] | Some xs \<Rightarrow> xs)"

definition or_zero :: "rat option \<Rightarrow> rat" where
  "or_zero x = (case x of None \<Rightarrow> 0 | Some r \<Rightarrow> r)"

definition truthy_id :: "nat option \<Rightarrow> nat list" where
  "truthy_id x = (case x of None \<Rightarrow> [] | Some i \<Rightarrow> if i = 0 then [] else [i])"

definition PREVIEW_MAX :: int where "PREVIEW_MAX = 24"

definition token_end :: "code_unit \<Rightarrow> bool" where
  "token_end c \<longleftrightarrow> c = 124 \<or> c = 58 \<or> js_space c"

definition resourcePreview :: "jstr option \<Rightarrow> int \<Rightarrow> jstr option" where
  "resourcePreview data max' =
     (case data of
        None \<Rightarrow> None
      | Some d \<Rightarrow>
          let trimmed = js_trim d; token = takeWhile (\<lambda>c. \<not> token_end c) trimmed
          in if d = [] \<or> trimmed = [] \<or> token = [] then None
             else if int (length token) \<le> max' then Some token
             else Some (take (nat (max 1 (max' - 1))) token @ [0x2026]))"

definition resourceLabelMap :: "line_row list \<Rightarrow> (nat \<times> jstr) list" where
  "resourceLabelMap rows =
     foldl (\<lambda>labels row.
              case resourcePreview (case lr_data row of None \<Rightarrow> lr_preview row | Some d \<Rightarrow> Some d) PREVIEW_MAX of
                None \<Rightarrow> labels
              | Some preview \<Rightarrow> AList.update (lr_id row) preview labels) [] rows"

record case_summary =
  cs_claimed :: nat
  cs_pending :: nat
  cs_refunded :: nat
  cs_replaced :: nat
  cs_refunded_amount :: rat

definition summarizeDisputeCase :: "dispute \<Rightarrow> case_summary" where
  "summarizeDisputeCase dispute =
     (let claimedIds = uniq (or_empty (di_claimed dispute));
          actions = or_empty (di_actions dispute);
          handled = set (map ra_original actions);
          refunded = filter (\<lambda>a. ra_action a = Refund) actions;
          replaced = filter (\<lambda>a. ra_action a = Replace) actions;
          claimedLines = uniq (or_empty (di_claimed_lines dispute));
          proxyActions = or_empty (di_proxy_actions dispute);
          handledLines = set (map pa_line proxyActions);
          fromActions = sum_list (map ra_amount refunded @ map pa_amount proxyActions)
      in \<lparr> cs_claimed = length claimedIds + length claimedLines,
           cs_pending = length (filter (\<lambda>i. i \<notin> handled) claimedIds) +
             length (filter (\<lambda>l. l \<notin> handledLines) claimedLines),
           cs_refunded = length refunded + length proxyActions,
           cs_replaced = length replaced,
           cs_refunded_amount =
             (case di_case_refunded dispute of
                Some r \<Rightarrow> r
              | None \<Rightarrow> (case di_refunded dispute of Some r \<Rightarrow> r | None \<Rightarrow> fromActions)) \<rparr>)"

definition hasDisputeItemRemedy :: "dispute \<Rightarrow> bool" where
  "hasDisputeItemRemedy dispute \<longleftrightarrow>
     0 < length (or_empty (di_actions dispute)) \<or> 0 < length (or_empty (di_proxy_actions dispute))"

definition isDisputeReadyToAccept :: "dispute \<Rightarrow> bool" where
  "isDisputeReadyToAccept dispute =
     (if di_status dispute \<noteq> js ''open'' then False
      else let summary = summarizeDisputeCase dispute
           in if 0 < cs_claimed summary
              then cs_pending summary = 0 \<and> 0 < cs_refunded summary + cs_replaced summary
              else di_seller_note dispute \<noteq> None \<and> di_seller_note dispute \<noteq> Some [])"

section \<open>The timeline\<close>

definition DISPUTE_TIMELINE_EVENT_KEYS :: "jstr list" where
  "DISPUTE_TIMELINE_EVENT_KEYS = map js
     [''case_opened'', ''claim_batch'', ''buyer_message'', ''seller_message'', ''resource_replace'',
      ''resource_refund'', ''proxy_refund'', ''case_escalated'', ''buyer_accepted'', ''buyer_withdrew'',
      ''resolution_timeout'', ''resolution_abandoned'', ''seller_timeout_refund'', ''seller_full_refund'',
      ''admin_refund'', ''admin_partial_refund'', ''admin_reject'', ''admin_replace'',
      ''admin_extend_warranty'', ''case_resolved'']"

definition isKnownDisputeTimelineEvent :: "jstr \<Rightarrow> bool" where
  "isKnownDisputeTimelineEvent eventType \<longleftrightarrow> eventType \<in> set DISPUTE_TIMELINE_EVENT_KEYS"

definition isPlaceholderResolutionNote :: "jstr option \<Rightarrow> bool" where
  "isPlaceholderResolutionNote note \<longleftrightarrow>
     js_trim (case note of None \<Rightarrow> [] | Some n \<Rightarrow> n) \<in> {[], [0x2014], [45], [0x2013], [0x2212]}"

definition SELLER_TIMELINE_COPY :: "jstr list" where
  "SELLER_TIMELINE_COPY = map js
     [''seller_timeout_refund'', ''admin_refund'', ''admin_partial_refund'', ''admin_reject'',
      ''admin_replace'', ''admin_extend_warranty'', ''seller_full_refund'']"

datatype viewer = BuyerView | SellerView | AdminView

definition disputeTimelineCopyKey :: "jstr \<Rightarrow> viewer \<Rightarrow> jstr" where
  "disputeTimelineCopyKey eventType viewerRole =
     (if viewerRole = SellerView \<and> eventType \<in> set SELLER_TIMELINE_COPY
      then js ''disputeEventsSeller.'' @ eventType else js ''disputeEvents.'' @ eventType)"

definition displayTimelineEvents :: "timeline_event list \<Rightarrow> timeline_event list" where
  "displayTimelineEvents events =
     (case events of
        first # second # rest \<Rightarrow>
          if te_type first = js ''case_opened'' \<and> te_type second = js ''claim_batch'' \<and>
             or_empty (te_body first) = or_empty (te_body second)
          then first \<lparr> te_resource_ids :=
                   (if te_resource_ids second \<noteq> [] then te_resource_ids second else te_resource_ids first),
                 te_proxy_lines :=
                   (if or_empty (te_proxy_lines second) \<noteq> [] then te_proxy_lines second else te_proxy_lines first) \<rparr>
               # rest
          else events
      | _ \<Rightarrow> events)"

definition timelineProxyLineNos :: "timeline_event \<Rightarrow> nat list" where
  "timelineProxyLineNos event = sort (uniq (or_empty (te_proxy_lines event) @ or_empty (te_lines event)))"

definition timelineRefundAmount :: "timeline_event \<Rightarrow> rat" where
  "timelineRefundAmount event =
     (if or_zero (te_refund_amount event) \<noteq> 0 then or_zero (te_refund_amount event) else or_zero (te_amount event))"

section \<open>Marks on the delivered rows\<close>

datatype proxy_mark = ProxyClaimed | ProxyRefunded rat

definition proxyLineMarks :: "dispute option \<Rightarrow> (nat \<times> proxy_mark) list" where
  "proxyLineMarks dispute =
     (case dispute of
        None \<Rightarrow> []
      | Some d \<Rightarrow>
          foldl (\<lambda>m a. AList.update (pa_line a) (ProxyRefunded (pa_amount a)) m)
            (foldl (\<lambda>m line. AList.update line ProxyClaimed m) [] (or_empty (di_claimed_lines d)))
            (or_empty (di_proxy_actions d)))"

definition disputeResourceIds :: "dispute option \<Rightarrow> nat list" where
  "disputeResourceIds dispute =
     (case dispute of
        None \<Rightarrow> []
      | Some d \<Rightarrow>
          uniq (or_empty (di_claimed d) @
            concat (map (\<lambda>a. ra_original a # truthy_id (ra_replacement a)) (or_empty (di_actions d))) @
            concat (map (\<lambda>e. te_resource_ids e @ concat (map truthy_id (or_empty (te_replacement_ids e))))
              (or_empty (di_timeline d)))))"

datatype delivery_mark =
  MarkRefunded rat | MarkReplaced "nat option" | MarkReplacement nat | MarkClaimed

definition mark_action :: "(nat \<times> delivery_mark) list \<Rightarrow> resource_action \<Rightarrow> (nat \<times> delivery_mark) list" where
  "mark_action marks a =
     (case ra_action a of
        Refund \<Rightarrow> AList.update (ra_original a) (MarkRefunded (ra_amount a)) marks
      | Replace \<Rightarrow>
          foldl (\<lambda>m r. AList.update r (MarkReplacement (ra_original a)) m)
            (AList.update (ra_original a) (MarkReplaced (ra_replacement a)) marks)
            (truthy_id (ra_replacement a)))"

definition deliveryResourceMarks :: "dispute option \<Rightarrow> (nat \<times> delivery_mark) list" where
  "deliveryResourceMarks dispute =
     (case dispute of
        None \<Rightarrow> []
      | Some d \<Rightarrow>
          foldl mark_action (foldl (\<lambda>m i. AList.update i MarkClaimed m) [] (or_empty (di_claimed d)))
            (or_empty (di_actions d)))"

definition MAX_WARRANTY_CLAIM_GENERATION :: nat where "MAX_WARRANTY_CLAIM_GENERATION = 1"

definition formatDisputeAccountChip ::
    "jstr option \<Rightarrow> nat option \<Rightarrow> jstr option \<Rightarrow> bool \<Rightarrow> jstr option \<Rightarrow> jstr" where
  "formatDisputeAccountChip resourceLabel replacementId replacementLabel warranty warrantyMark =
     (let shown = (\<lambda>label. if or_empty label = [] then [0x2022, 0x2022, 0x2022] else or_empty label);
          warranty_text = (if warranty \<and> or_empty warrantyMark \<noteq> [] then 32 # or_empty warrantyMark else [])
      in if truthy_id replacementId \<noteq> []
         then shown resourceLabel @ [32, 0x2192, 32] @ shown replacementLabel @ warranty_text
         else shown resourceLabel @ warranty_text)"

text \<open>The parent of each replacement; a later action overwrites an earlier one.\<close>

definition replacement_parents :: "resource_action list \<Rightarrow> (nat \<times> nat) list" where
  "replacement_parents actions =
     foldl (\<lambda>m a. foldl (\<lambda>m r. AList.update r (ra_original a) m) m (truthy_id (ra_replacement a))) [] actions"

function warranty_walk :: "(nat \<times> nat) list \<Rightarrow> nat list \<Rightarrow> nat \<Rightarrow> nat \<Rightarrow> nat" where
  "warranty_walk parent seen current generation =
     (case map_of parent current of
        None \<Rightarrow> generation
      | Some p \<Rightarrow>
          if current \<in> set seen then generation
          else warranty_walk parent (current # seen) p (generation + 1))"
  by pat_completeness auto
termination
proof (relation "measure (\<lambda>(parent, seen, current, generation). card (fst ` set parent - set seen))", goal_cases)
  case (2 parent seen current generation p)
  then have "current \<in> fst ` set parent - set seen"
    by (metis DiffI fst_conv image_eqI map_of_SomeD)
  then have "fst ` set parent - set (current # seen) \<subset> fst ` set parent - set seen" by auto
  then show ?case by (simp add: psubset_card_mono)
qed simp

declare warranty_walk.simps [simp del]

definition resourceWarrantyGeneration :: "nat \<Rightarrow> resource_action list option \<Rightarrow> nat" where
  "resourceWarrantyGeneration resourceId actions =
     warranty_walk (replacement_parents (or_empty actions)) [] resourceId 0"

definition isDeliveryRowClaimable :: "jstr option \<Rightarrow> delivery_mark option \<Rightarrow> nat \<Rightarrow> bool" where
  "isDeliveryRowClaimable resourceStatus mark generation =
     (if resourceStatus \<noteq> Some (js ''assigned'') then False
      else if MAX_WARRANTY_CLAIM_GENERATION < generation then False
      else case mark of
          Some (MarkRefunded _) \<Rightarrow> False | Some (MarkReplaced _) \<Rightarrow> False | Some MarkClaimed \<Rightarrow> False
        | _ \<Rightarrow> True)"

definition highlighted_step :: "nat list \<Rightarrow> jstr \<Rightarrow> nat list" where
  "highlighted_step ids part =
     (case as_integer (js_number (js_trim part)) of
        None \<Rightarrow> ids
      | Some i \<Rightarrow> if i \<le> 0 \<or> nat i \<in> set ids then ids else ids @ [nat i])"

definition parseHighlightedResourceIds :: "jstr option \<Rightarrow> nat list" where
  "parseHighlightedResourceIds raw =
     (case raw of None \<Rightarrow> [] | Some r \<Rightarrow> if r = [] then [] else foldl highlighted_step [] (split_on 44 r))"

definition TIMELINE_CHIP_LIMIT :: nat where "TIMELINE_CHIP_LIMIT = 8"

definition visibleResourceIds :: "nat list \<Rightarrow> nat list \<times> nat" where
  "visibleResourceIds ids =
     (if length ids \<le> TIMELINE_CHIP_LIMIT then (ids, 0)
      else (take (TIMELINE_CHIP_LIMIT - 1) ids, length ids - (TIMELINE_CHIP_LIMIT - 1)))"

record pending_item =
  pi_line :: nat
  pi_claimed :: bool
  pi_remedied :: bool
  pi_cap :: "rat option"

definition pendingProxyLineNos :: "pending_item list \<Rightarrow> nat list" where
  "pendingProxyLineNos its = sort (map pi_line (filter (\<lambda>i. pi_claimed i \<and> \<not> pi_remedied i) its))"

definition proxyRefundTotal :: "pending_item list \<Rightarrow> nat list \<Rightarrow> rat" where
  "proxyRefundTotal its lineNos =
     (let caps = foldl (\<lambda>m i. AList.update (pi_line i) (or_zero (pi_cap i)) m) [] its
      in foldl (\<lambda>s line. s + or_zero (map_of caps line)) 0 (uniq lineNos))"

definition message_code_name :: "message_code \<Rightarrow> string" where
  "message_code_name c =
     (case c of FullRefund \<Rightarrow> ''full_refund'' | BuyerAccepted \<Rightarrow> ''buyer_accepted'' | BuyerWithdrew \<Rightarrow> ''buyer_withdrew''
      | ResolutionAbandoned \<Rightarrow> ''resolution_abandoned'' | ResolutionTimeout \<Rightarrow> ''resolution_timeout''
      | SellerTimeoutRefund \<Rightarrow> ''seller_timeout_refund'')"

record system_message =
  sm_key :: jstr
  sm_actor :: jstr
  sm_scope :: jstr
  sm_viewer :: viewer
  sm_amount :: "jstr option"

definition disputeSystemMessage :: "timeline_event \<Rightarrow> viewer \<Rightarrow> (rat \<Rightarrow> jstr) \<Rightarrow> system_message option" where
  "disputeSystemMessage event viewer formatMoney =
     (case te_code event of
        None \<Rightarrow> None
      | Some code \<Rightarrow>
          let params = (case te_params event of
                          None \<Rightarrow> \<lparr> mp_actor = None, mp_scope = None, mp_amount = None \<rparr> | Some p \<Rightarrow> p);
              amount = (case mp_amount params of
                          None \<Rightarrow> None | Some a \<Rightarrow> if 0 < a \<and> formatMoney a \<noteq> [] then Some (formatMoney a) else None);
              refund = (code = FullRefund \<or> code = SellerTimeoutRefund)
          in Some \<lparr>
            sm_key = js (message_code_name code) @ (if refund \<and> amount = None then js ''_noAmount'' else []),
            sm_actor = (if mp_actor params \<in> {Some (js ''admin''), Some (js ''seller'')}
                        then or_empty (mp_actor params) else js ''system''),
            sm_scope = (if mp_scope params \<in> {Some (js ''proxy''), Some (js ''stock'')}
                        then or_empty (mp_scope params) else js ''order''),
            sm_viewer = viewer,
            sm_amount = amount \<rparr>)"

section \<open>The dispute form\<close>

datatype dispute_issue = WrongCredentials | CheckpointLocked | WrongDescription | ConnectionFailed | OtherIssue

definition issue_name :: "dispute_issue \<Rightarrow> string" where
  "issue_name i =
     (case i of WrongCredentials \<Rightarrow> ''wrong_credentials'' | CheckpointLocked \<Rightarrow> ''checkpoint_locked''
      | WrongDescription \<Rightarrow> ''wrong_description'' | ConnectionFailed \<Rightarrow> ''connection_failed'' | OtherIssue \<Rightarrow> ''other'')"

definition DISPUTE_ISSUE_IDS :: "dispute_issue list" where
  "DISPUTE_ISSUE_IDS = [WrongCredentials, CheckpointLocked, WrongDescription, ConnectionFailed, OtherIssue]"

definition isDisputeIssueId :: "jstr \<Rightarrow> bool" where
  "isDisputeIssueId value \<longleftrightarrow> value \<in> set (map (js \<circ> issue_name) DISPUTE_ISSUE_IDS)"

datatype dispute_form_mode = AccountsMode | ProxiesMode | ServiceMode

definition disputeFormMode :: "nat \<Rightarrow> bool \<Rightarrow> jstr option \<Rightarrow> nat option \<Rightarrow> dispute_form_mode" where
  "disputeFormMode claimableCount appendToExisting fulfillmentKind proxyLineCount =
     (if fulfillmentKind = Some (js ''proxy'')
      then let lines = (case proxyLineCount of None \<Rightarrow> 0 | Some n \<Rightarrow> n)
           in if 1 < lines \<or> (0 < lines \<and> appendToExisting) then ProxiesMode else ServiceMode
      else if or_empty fulfillmentKind \<in> {js ''task'', js ''sla'', js ''api''} then ServiceMode
      else if appendToExisting \<or> 0 < claimableCount then AccountsMode
      else ServiceMode)"

record claimable_resource =
  cr_id :: nat
  cr_status :: jstr

definition claimableResourceIds :: "claimable_resource list \<Rightarrow> nat list \<Rightarrow> nat list" where
  "claimableResourceIds resources claimedIds =
     map cr_id (filter (\<lambda>row. cr_status row = js ''assigned'' \<and> cr_id row \<notin> set claimedIds) resources)"

record dispute_proxy_line =
  dl_line_no :: nat
  dl_host :: jstr
  dl_port :: nat
  dl_status :: jstr

datatype claim_state = Claimable | AlreadyClaimed | AlreadyRefunded | InactiveLine

definition CLAIMABLE_PROXY_STATUSES :: "jstr list" where
  "CLAIMABLE_PROXY_STATUSES = [js ''allocated'', js ''offline'']"

definition proxyLineClaimState :: "dispute_proxy_line \<Rightarrow> nat list \<Rightarrow> nat list \<Rightarrow> claim_state" where
  "proxyLineClaimState line claimed refunded =
     (if dl_line_no line \<in> set refunded then AlreadyRefunded
      else if dl_line_no line \<in> set claimed then AlreadyClaimed
      else if dl_status line \<in> set CLAIMABLE_PROXY_STATUSES then Claimable else InactiveLine)"

definition claimableProxyLineNos :: "dispute_proxy_line list \<Rightarrow> nat list \<Rightarrow> proxy_action list \<Rightarrow> nat list" where
  "claimableProxyLineNos lines claimedLineNos proxyActions =
     map dl_line_no
       (filter (\<lambda>line. proxyLineClaimState line claimedLineNos (map pa_line proxyActions) = Claimable) lines)"

definition initialSelectedClaimIds :: "nat list \<Rightarrow> nat list \<Rightarrow> nat list" where
  "initialSelectedClaimIds preferredIds claimableIds =
     (let preferred = filter (\<lambda>i. i \<in> set claimableIds) (uniq preferredIds)
      in if preferred \<noteq> [] then preferred
         else if length claimableIds = 1 then claimableIds else [])"

definition disputeIssueIds :: "dispute_form_mode \<Rightarrow> jstr option \<Rightarrow> dispute_issue list" where
  "disputeIssueIds mode fulfillmentKind =
     (if mode = AccountsMode then [WrongCredentials, CheckpointLocked, WrongDescription, OtherIssue]
      else if mode = ProxiesMode \<or> fulfillmentKind = Some (js ''proxy'')
      then [ConnectionFailed, WrongDescription, OtherIssue]
      else if fulfillmentKind = Some (js ''task'') \<or> fulfillmentKind = Some (js ''sla'')
      then [WrongDescription, OtherIssue]
      else [WrongDescription, ConnectionFailed, OtherIssue])"

definition defaultDisputeIssue :: "dispute_form_mode \<Rightarrow> jstr option \<Rightarrow> dispute_issue" where
  "defaultDisputeIssue mode fulfillmentKind =
     (if mode = AccountsMode then WrongCredentials
      else if mode = ProxiesMode \<or> fulfillmentKind = Some (js ''proxy'') then ConnectionFailed
      else WrongDescription)"

datatype scope_notice =
  AccountsNeedSelect | ProxiesNeedSelect | ServiceNoticeProxy | ServiceNoticeTask | ServiceNoticeSla
  | ServiceNoticeApi | WholeOrderNotice

definition disputeScopeNoticeKey :: "dispute_form_mode \<Rightarrow> jstr option \<Rightarrow> scope_notice" where
  "disputeScopeNoticeKey mode fulfillmentKind =
     (if mode = AccountsMode then AccountsNeedSelect
      else if mode = ProxiesMode then ProxiesNeedSelect
      else if fulfillmentKind = Some (js ''proxy'') then ServiceNoticeProxy
      else if fulfillmentKind = Some (js ''task'') then ServiceNoticeTask
      else if fulfillmentKind = Some (js ''sla'') then ServiceNoticeSla
      else if fulfillmentKind = Some (js ''api'') then ServiceNoticeApi
      else WholeOrderNotice)"

definition disputeEvidenceType ::
    "dispute_form_mode \<Rightarrow> jstr option \<Rightarrow> dispute_issue \<Rightarrow> jstr option \<Rightarrow> jstr" where
  "disputeEvidenceType mode fulfillmentKind selectedIssue initialEvidenceType =
     (if or_empty initialEvidenceType \<noteq> [] then or_empty initialEvidenceType
      else if mode = AccountsMode then js ''account''
      else if mode = ProxiesMode \<or> fulfillmentKind = Some (js ''proxy'') \<or> selectedIssue = ConnectionFailed
      then js ''proxy'' else js ''other'')"

definition disputeSubmitResourceIds :: "dispute_form_mode \<Rightarrow> nat list \<Rightarrow> nat list option" where
  "disputeSubmitResourceIds mode selectedIds =
     (if mode = AccountsMode then Some selectedIds
      else if mode = ProxiesMode then None
      else if selectedIds \<noteq> [] then Some selectedIds else None)"

record dispute_form =
  fo_mode :: dispute_form_mode
  fo_selected :: "nat list"
  fo_selected_lines :: "nat list option"
  fo_described :: bool
  fo_submitting :: bool
  fo_loading :: bool
  fo_scope_error :: bool

definition canSubmitDisputeForm :: "dispute_form \<Rightarrow> bool" where
  "canSubmitDisputeForm form =
     (if fo_submitting form \<or> fo_loading form \<or> fo_scope_error form \<or> \<not> fo_described form then False
      else if fo_mode form = AccountsMode then 0 < length (fo_selected form)
      else if fo_mode form = ProxiesMode then 0 < length (or_empty (fo_selected_lines form))
      else True)"

section \<open>Association lists built by folds\<close>

lemma map_of_update [simp]: "map_of (AList.update k v m) = (map_of m)(k \<mapsto> v)"
  by (simp add: update_conv')

text \<open>The last value a fold gives to a key.\<close>

fun last_value :: "('a \<Rightarrow> nat option) \<Rightarrow> ('a \<Rightarrow> 'b) \<Rightarrow> 'a list \<Rightarrow> nat \<Rightarrow> 'b option" where
  "last_value key val [] k = None"
| "last_value key val (x # xs) k =
     (case last_value key val xs k of Some v \<Rightarrow> Some v | None \<Rightarrow> if key x = Some k then Some (val x) else None)"

lemma map_of_foldl_update:
  "map_of (foldl (\<lambda>m x. AList.update (key x) (val x) m) m xs) k =
     (case last_value (Some \<circ> key) val xs k of Some v \<Rightarrow> Some v | None \<Rightarrow> map_of m k)"
  by (induction xs arbitrary: m) (auto split: option.splits)

lemma last_value_None: "last_value key val xs k = None \<longleftrightarrow> (\<forall>x \<in> set xs. key x \<noteq> Some k)"
  by (induction xs) (auto split: option.splits)

lemma last_value_Some: "last_value key val xs k = Some v \<Longrightarrow> \<exists>x \<in> set xs. key x = Some k \<and> v = val x"
  by (induction xs) (auto split: option.splits if_splits)

section \<open>The laws\<close>

text \<open>
  The numbers a case shows.  Claimed items are the distinct claimed stock
  lines and proxy lines; the pending ones and those with a remedy make them up; and a case with
  claims is ready to accept exactly when it is open, has a remedy, and every claimed stock line and
  proxy line has one.
\<close>

theorem case_claims_balance:
  "let s = summarizeDisputeCase d;
       done_ids = set (or_empty (di_claimed d)) \<inter> ra_original ` set (or_empty (di_actions d));
       done_lines = set (or_empty (di_claimed_lines d)) \<inter> pa_line ` set (or_empty (di_proxy_actions d))
   in cs_claimed s = card (set (or_empty (di_claimed d))) + card (set (or_empty (di_claimed_lines d))) \<and>
      cs_claimed s = cs_pending s + card done_ids + card done_lines \<and>
      cs_refunded s + cs_replaced s = length (or_empty (di_actions d)) + length (or_empty (di_proxy_actions d)) \<and>
      (0 < cs_claimed s \<longrightarrow> isDisputeReadyToAccept d =
         (di_status d = js ''open'' \<and> hasDisputeItemRemedy d \<and>
          set (or_empty (di_claimed d)) \<subseteq> ra_original ` set (or_empty (di_actions d)) \<and>
          set (or_empty (di_claimed_lines d)) \<subseteq> pa_line ` set (or_empty (di_proxy_actions d))))"
proof -
  have split: "card (set xs) = length (filter (\<lambda>i. i \<notin> H) (uniq xs)) + card (set xs \<inter> H)" for xs :: "nat list" and H
  proof -
    have "length (uniq xs) = length (filter (\<lambda>i. i \<in> H) (uniq xs)) + length (filter (\<lambda>i. i \<notin> H) (uniq xs))"
      using sum_length_filter_compl [of "\<lambda>i. i \<in> H" "uniq xs"] by simp
    moreover have "length (filter (\<lambda>i. i \<in> H) (uniq xs)) = card (set xs \<inter> H)"
      by (subst distinct_card [symmetric]) (auto intro: arg_cong [where f = card])
    moreover have "length (uniq xs) = card (set xs)"
      using distinct_card [OF distinct_uniq, of xs] by simp
    ultimately show ?thesis by simp
  qed
  have kinds: "length (filter (\<lambda>a. ra_action a = Refund) as) + length (filter (\<lambda>a. ra_action a = Replace) as) = length as"
    for as :: "resource_action list"
    by (induction as) (auto, metis remedy.exhaust)
  have len: "length (uniq xs) = card (set xs)" for xs :: "nat list"
    using distinct_card [OF distinct_uniq, of xs] by simp
  let ?ids = "or_empty (di_claimed d)" and ?lines = "or_empty (di_claimed_lines d)"
  let ?acts = "or_empty (di_actions d)" and ?pacts = "or_empty (di_proxy_actions d)"
  have none: "filter (\<lambda>i. i \<notin> H) (uniq xs) = [] \<longleftrightarrow> set xs \<subseteq> H" for xs :: "nat list" and H
    by (auto simp: filter_empty_conv)
  show ?thesis
    using split [of ?ids "ra_original ` set ?acts"] split [of ?lines "pa_line ` set ?pacts"] kinds [of ?acts]
    by (auto simp: Let_def summarizeDisputeCase_def isDisputeReadyToAccept_def hasDisputeItemRemedy_def len none
        simp del: js_Cons)
qed

lemma case_claims_balance_witness:
  "\<exists>d. isDisputeReadyToAccept d \<and> cs_claimed (summarizeDisputeCase d) = 2 \<and>
       cs_claimed (summarizeDisputeCase d) = cs_pending (summarizeDisputeCase d) + 2"
proof -
  define d where "d = \<lparr> di_status = js ''open'', di_seller_note = None, di_refunded = None, di_case_refunded = None,
     di_claimed = Some [4, 4],
     di_actions = Some [\<lparr> ra_action = Refund, ra_original = 4, ra_replacement = None, ra_amount = 7 \<rparr>],
     di_claimed_lines = Some [1], di_proxy_actions = Some [\<lparr> pa_line = 1, pa_amount = 2 \<rparr>], di_timeline = None \<rparr>"
  have "isDisputeReadyToAccept d \<and> cs_claimed (summarizeDisputeCase d) = 2 \<and>
      cs_claimed (summarizeDisputeCase d) = cs_pending (summarizeDisputeCase d) + 2"
    using case_claims_balance [of d]
    by (simp add: d_def Let_def or_empty_def hasDisputeItemRemedy_def del: js_Cons)
  then show ?thesis by blast
qed

text \<open>What an action says of a row: its replacement is the later write of the two.\<close>

definition action_mark :: "resource_action \<Rightarrow> nat \<Rightarrow> delivery_mark option" where
  "action_mark a i =
     (case ra_action a of
        Refund \<Rightarrow> if i = ra_original a then Some (MarkRefunded (ra_amount a)) else None
      | Replace \<Rightarrow>
          if i \<in> set (truthy_id (ra_replacement a)) then Some (MarkReplacement (ra_original a))
          else if i = ra_original a then Some (MarkReplaced (ra_replacement a)) else None)"

fun latest_mark :: "resource_action list \<Rightarrow> nat \<Rightarrow> delivery_mark option" where
  "latest_mark [] i = None"
| "latest_mark (a # as) i = (case latest_mark as i of Some m \<Rightarrow> Some m | None \<Rightarrow> action_mark a i)"

lemma map_of_mark_action:
  "map_of (mark_action m a) i = (case action_mark a i of Some k \<Rightarrow> Some k | None \<Rightarrow> map_of m i)"
  by (cases "ra_replacement a") (auto simp: mark_action_def action_mark_def truthy_id_def split: remedy.splits)

lemma map_of_mark_actions:
  "map_of (foldl mark_action m as) i = (case latest_mark as i of Some k \<Rightarrow> Some k | None \<Rightarrow> map_of m i)"
  by (induction as arbitrary: m) (auto simp: map_of_mark_action split: option.splits)

lemma map_of_claims:
  "map_of (foldl (\<lambda>m i. AList.update i v m) m xs) k = (if k \<in> set xs then Some v else map_of m k)"
  by (induction xs arbitrary: m) auto

text \<open>
  The marks of the delivered rows.  A row shows what the last action that
  names it says (a replacement, when one action names it twice), the bare claim when no action names
  it, and nothing when it is neither claimed nor named.
\<close>

theorem delivery_marks_latest:
  "map_of (deliveryResourceMarks (Some d)) i =
     (case latest_mark (or_empty (di_actions d)) i of
        Some m \<Rightarrow> Some m
      | None \<Rightarrow> if i \<in> set (or_empty (di_claimed d)) then Some MarkClaimed else None)"
  by (simp add: deliveryResourceMarks_def map_of_mark_actions map_of_claims split: option.splits)

text \<open>
  A replacement that the buyer claims again still shows as a replacement, so
  its row is offered for a claim although the claim is pending.  Without an action naming it, a
  claimed row is never offered.
\<close>

theorem reclaimed_row_open:
  "isDeliveryRowClaimable (Some (js ''assigned'')) (map_of (deliveryResourceMarks (Some d)) i)
       (resourceWarrantyGeneration i (di_actions d)) =
     (resourceWarrantyGeneration i (di_actions d) \<le> 1 \<and>
      (case latest_mark (or_empty (di_actions d)) i of
         None \<Rightarrow> i \<notin> set (or_empty (di_claimed d))
       | Some m \<Rightarrow> \<exists>original. m = MarkReplacement original))"
  by (auto simp: isDeliveryRowClaimable_def MAX_WARRANTY_CLAIM_GENERATION_def deliveryResourceMarks_def
      map_of_mark_actions map_of_claims split: option.splits delivery_mark.splits)

definition reclaimed_case :: dispute where
  "reclaimed_case = \<lparr> di_status = js ''open'', di_seller_note = None, di_refunded = None, di_case_refunded = None,
     di_claimed = Some [1, 11],
     di_actions = Some [\<lparr> ra_action = Replace, ra_original = 1, ra_replacement = Some 11, ra_amount = 0 \<rparr>],
     di_claimed_lines = None, di_proxy_actions = None, di_timeline = None \<rparr>"

lemma reclaimed_row_offered:
  "11 \<in> set (or_empty (di_claimed reclaimed_case)) \<and> cs_pending (summarizeDisputeCase reclaimed_case) = 1 \<and>
   isDeliveryRowClaimable (Some (js ''assigned'')) (map_of (deliveryResourceMarks (Some reclaimed_case)) 11)
     (resourceWarrantyGeneration 11 (di_actions reclaimed_case))"
proof -
  have "resourceWarrantyGeneration 11 (di_actions reclaimed_case) = 1"
    by (simp add: resourceWarrantyGeneration_def replacement_parents_def reclaimed_case_def or_empty_def
        truthy_id_def warranty_walk.simps)
  moreover have "map_of (deliveryResourceMarks (Some reclaimed_case)) 11 = Some (MarkReplacement 1)"
    by (simp add: deliveryResourceMarks_def reclaimed_case_def or_empty_def mark_action_def truthy_id_def)
  moreover have "cs_pending (summarizeDisputeCase reclaimed_case) = 1"
    by (simp add: summarizeDisputeCase_def reclaimed_case_def or_empty_def uniq_def set_add_def)
  ultimately show ?thesis
    by (simp add: isDeliveryRowClaimable_def MAX_WARRANTY_CLAIM_GENERATION_def reclaimed_case_def or_empty_def)
qed

lemma map_of_proxy_marks:
  "map_of (proxyLineMarks (Some d)) l =
     (case last_value (Some \<circ> pa_line) (\<lambda>a. ProxyRefunded (pa_amount a)) (or_empty (di_proxy_actions d)) l of
        Some v \<Rightarrow> Some v
      | None \<Rightarrow> if l \<in> set (or_empty (di_claimed_lines d)) then Some ProxyClaimed else None)"
  by (simp add: proxyLineMarks_def map_of_claims 
      map_of_foldl_update [where key = pa_line and val = "\<lambda>a. ProxyRefunded (pa_amount a)"] split: option.splits)

text \<open>
  The order view and the dispute form agree on every proxy line: the form
  refuses a line as refunded exactly when the view marks it refunded, as claimed exactly when the
  view marks it claimed, and the lines the form offers are the unmarked live ones.
\<close>

theorem proxy_marks_agree:
  "let claimed = or_empty (di_claimed_lines d); acts = or_empty (di_proxy_actions d);
       state = (\<lambda>line. proxyLineClaimState line claimed (map pa_line acts));
       mark = (\<lambda>line. map_of (proxyLineMarks (Some d)) (dl_line_no line))
   in (\<forall>line. (state line = AlreadyRefunded) = (\<exists>a. mark line = Some (ProxyRefunded a)) \<and>
              (state line = AlreadyClaimed) = (mark line = Some ProxyClaimed)) \<and>
      claimableProxyLineNos lines claimed acts =
        map dl_line_no (filter (\<lambda>line. mark line = None \<and> dl_status line \<in> set CLAIMABLE_PROXY_STATUSES) lines)"
proof -
  let ?last = "last_value (Some \<circ> pa_line) (\<lambda>a. ProxyRefunded (pa_amount a)) (or_empty (di_proxy_actions d))"
  have none: "?last l = None \<longleftrightarrow> l \<notin> pa_line ` set (or_empty (di_proxy_actions d))" for l
    by (auto simp: last_value_None)
  have some: "\<exists>a. v = ProxyRefunded a" if "?last l = Some v" for l v
    using last_value_Some [OF that] by auto
  have marks: "(\<exists>a. map_of (proxyLineMarks (Some d)) l = Some (ProxyRefunded a)) \<longleftrightarrow>
        l \<in> pa_line ` set (or_empty (di_proxy_actions d))"
      "map_of (proxyLineMarks (Some d)) l = Some ProxyClaimed \<longleftrightarrow>
        l \<notin> pa_line ` set (or_empty (di_proxy_actions d)) \<and> l \<in> set (or_empty (di_claimed_lines d))"
      "map_of (proxyLineMarks (Some d)) l = None \<longleftrightarrow>
        l \<notin> pa_line ` set (or_empty (di_proxy_actions d)) \<and> l \<notin> set (or_empty (di_claimed_lines d))" for l
    using none [of l] some [of l] by (auto simp: map_of_proxy_marks split: option.splits)
  show ?thesis
    unfolding Let_def claimableProxyLineNos_def
    by (auto simp: marks proxyLineClaimState_def intro!: arg_cong [where f = "map dl_line_no"] filter_cong)
qed

text \<open>The chain of originals behind a row.\<close>

fun original_after :: "(nat \<times> nat) list \<Rightarrow> nat \<Rightarrow> nat \<Rightarrow> nat option" where
  "original_after parent 0 r = Some r"
| "original_after parent (Suc n) r = Option.bind (original_after parent n r) (map_of parent)"

lemma original_after_Suc:
  "original_after parent (Suc n) r = Option.bind (map_of parent r) (original_after parent n)"
  by (induction n) (auto simp: bind_assoc split: bind_splits)

lemma original_after_add:
  "original_after parent (m + n) r = Option.bind (original_after parent m r) (original_after parent n)"
  by (induction n) (auto split: bind_splits)

text \<open>A chain that comes back to a row never ends.\<close>

lemma original_after_cycle:
  assumes "original_after parent (Suc n) r = Some r"
  shows "original_after parent k r \<noteq> None"
proof (induction k rule: less_induct)
  case (less k)
  show ?case
  proof (cases "k < Suc n")
    case True
    then obtain d where "Suc n = k + d" by (metis less_imp_add_positive)
    with assms show ?thesis
      by (cases "original_after parent k r") (auto simp: original_after_add simp del: original_after.simps)
  next
    case False
    then obtain d where k: "k = Suc n + d" by (metis le_add_diff_inverse not_less)
    then have "d < k" by simp
    with less have "original_after parent d r \<noteq> None" by blast
    then show ?thesis using assms unfolding k original_after_add by simp
  qed
qed

lemma warranty_walk_chain:
  assumes "original_after parent g r \<noteq> None" "original_after parent (Suc g) r = None"
    and "\<And>x. x \<in> set seen \<Longrightarrow> \<exists>n. original_after parent (Suc n) x = Some r"
  shows "warranty_walk parent seen r a = a + g"
  using assms
proof (induction g arbitrary: seen r a)
  case 0
  then show ?case by (subst warranty_walk.simps) simp
next
  case (Suc g)
  then obtain p where p: "map_of parent r = Some p"
    by (auto simp: original_after_Suc simp del: original_after.simps split: bind_splits)
  have fresh: "r \<notin> set seen"
  proof
    assume "r \<in> set seen"
    then obtain n where "original_after parent (Suc n) r = Some r" using Suc.prems(3) by blast
    from original_after_cycle [OF this] show False using Suc.prems(2) by blast
  qed
  have "\<exists>n. original_after parent (Suc n) x = Some p" if x: "x \<in> set (r # seen)" for x
  proof (cases "x = r")
    case True
    then show ?thesis using p by (intro exI [of _ 0]) simp
  next
    case False
    with x Suc.prems(3) obtain n where "original_after parent (Suc n) x = Some r" by auto
    then show ?thesis using p by (intro exI [of _ "Suc n"]) simp
  qed
  moreover have "original_after parent g p \<noteq> None" "original_after parent (Suc g) p = None"
    using Suc.prems(1,2) p by (simp_all add: original_after_Suc del: original_after.simps)
  ultimately have "warranty_walk parent (r # seen) p (a + 1) = a + 1 + g"
    using Suc.IH by blast
  then show ?case using p fresh by (subst warranty_walk.simps) simp
qed

lemma warranty_walk_bound:
  "warranty_walk parent seen r a \<le> a + card (fst ` set parent - set seen)"
proof (induction parent seen r a rule: warranty_walk.induct)
  case (1 parent seen r a)
  show ?case
  proof (cases "map_of parent r")
    case (Some p)
    show ?thesis
    proof (cases "r \<in> set seen")
      case False
      have r: "r \<in> fst ` set parent - set seen"
        using Some False by (metis DiffI fst_conv image_eqI map_of_SomeD)
      then have "card (fst ` set parent - set (r # seen)) = card (fst ` set parent - set seen) - 1"
        by (simp add: card_Diff_insert)
      moreover have "0 < card (fst ` set parent - set seen)" using r by (auto simp: card_gt_0_iff)
      ultimately show ?thesis using 1 [OF Some False] Some False by (subst warranty_walk.simps) simp
    qed (use Some in \<open>simp add: warranty_walk.simps [of parent seen r a]\<close>)
  qed (simp add: warranty_walk.simps [of parent seen r a])
qed



section \<open>Amounts and the form\<close>

text \<open>What a case refunds for a choice of lines, and what the form sends.\<close>

lemma map_of_caps:
  "distinct (map pi_line its) \<Longrightarrow> it \<in> set its \<Longrightarrow>
   map_of (foldl (\<lambda>m i. AList.update (pi_line i) (or_zero (pi_cap i)) m) [] its) (pi_line it) = Some (or_zero (pi_cap it))"
proof -
  assume a: "distinct (map pi_line its)" "it \<in> set its"
  let ?l = "last_value (Some \<circ> pi_line) (\<lambda>i. or_zero (pi_cap i)) its (pi_line it)"
  have "?l \<noteq> None" using a(2) by (auto simp: last_value_None)
  then obtain v where v: "?l = Some v" by blast
  from last_value_Some [OF this] obtain x where "x \<in> set its" "pi_line x = pi_line it" "v = or_zero (pi_cap x)"
    by auto
  with a have "v = or_zero (pi_cap it)" by (metis distinct_map inj_on_eq_iff)
  with v show ?thesis by (simp add: map_of_foldl_update [where key = pi_line and val = "\<lambda>i. or_zero (pi_cap i)"])
qed

lemma map_of_caps_None:
  "l \<notin> pi_line ` set its \<Longrightarrow>
   map_of (foldl (\<lambda>m i. AList.update (pi_line i) (or_zero (pi_cap i)) m) [] its) l = None"
  by (auto simp: map_of_foldl_update [where key = pi_line and val = "\<lambda>i. or_zero (pi_cap i)"] last_value_None
      split: option.splits)

lemma foldl_plus_sum: "foldl (\<lambda>s x. s + (f x :: rat)) a xs = a + sum_list (map f xs)"
  by (induction xs arbitrary: a) simp_all

text \<open>
  What refunding proxy lines returns.  With one item per line, the total of a
  choice of lines is the sum of the refund caps of the chosen items, each once however often its line
  is listed and whatever the order, and lines the case does not hold add nothing.
\<close>

theorem proxy_refund_sum:
  assumes "distinct (map pi_line its)"
  shows "proxyRefundTotal its lineNos =
    (\<Sum>it \<leftarrow> filter (\<lambda>it. pi_line it \<in> set lineNos) its. or_zero (pi_cap it))"
proof -
  define caps where "caps = foldl (\<lambda>m i. AList.update (pi_line i) (or_zero (pi_cap i)) m) [] its"
  have inj: "inj_on pi_line (set its)" and dist: "distinct its"
    using assms by (simp_all add: distinct_map)
  have "proxyRefundTotal its lineNos = sum_list (map (\<lambda>l. or_zero (map_of caps l)) (uniq lineNos))"
    by (simp add: proxyRefundTotal_def Let_def foldl_plus_sum caps_def)
  also have "\<dots> = (\<Sum>l \<in> set lineNos. or_zero (map_of caps l))"
    by (subst sum_list_distinct_conv_sum_set) simp_all
  also have "\<dots> = (\<Sum>l \<in> pi_line ` {it \<in> set its. pi_line it \<in> set lineNos}. or_zero (map_of caps l))"
  proof (rule sum.mono_neutral_right)
    show "\<forall>l \<in> set lineNos - pi_line ` {it \<in> set its. pi_line it \<in> set lineNos}. or_zero (map_of caps l) = 0"
    proof
      fix l assume "l \<in> set lineNos - pi_line ` {it \<in> set its. pi_line it \<in> set lineNos}"
      then have "l \<notin> pi_line ` set its" by blast
      then show "or_zero (map_of caps l) = 0" by (simp add: caps_def map_of_caps_None or_zero_def [of None])
    qed
  qed auto
  also have "\<dots> = (\<Sum>it \<in> {it \<in> set its. pi_line it \<in> set lineNos}. or_zero (map_of caps (pi_line it)))"
    by (rule sum.reindex_cong [of pi_line]) (use inj in \<open>auto intro: inj_on_subset\<close>)
  also have "\<dots> = (\<Sum>it \<in> {it \<in> set its. pi_line it \<in> set lineNos}. or_zero (pi_cap it))"
    by (rule sum.cong) (auto simp: caps_def map_of_caps [OF assms] or_zero_def [of "Some _"])
  also have "\<dots> = (\<Sum>it \<leftarrow> filter (\<lambda>it. pi_line it \<in> set lineNos) its. or_zero (pi_cap it))"
    using dist by (subst sum_list_distinct_conv_sum_set) (auto intro: arg_cong2 [where f = sum])
  finally show ?thesis .
qed

lemma proxy_refund_sum_witness:
  "proxyRefundTotal [\<lparr> pi_line = 1, pi_claimed = True, pi_remedied = False, pi_cap = Some 3 \<rparr>,
      \<lparr> pi_line = 2, pi_claimed = True, pi_remedied = False, pi_cap = Some 4 \<rparr>] [2, 9, 2] = 4"
  using proxy_refund_sum [of "[\<lparr> pi_line = 1, pi_claimed = True, pi_remedied = False, pi_cap = Some 3 \<rparr>,
      \<lparr> pi_line = 2, pi_claimed = True, pi_remedied = False, pi_cap = Some 4 \<rparr>]" "[2, 9, 2]"]
  by (simp add: or_zero_def)

text \<open>The issue the form starts with is one it offers.\<close>

lemma default_issue_offered:
  "defaultDisputeIssue mode kind \<in> set (disputeIssueIds mode kind)"
  by (simp add: defaultDisputeIssue_def disputeIssueIds_def)

text \<open>
  The dispute form.  In the mode the form chooses for an order, a form that can be sent
  names at least one account when the case is about accounts, and at least one proxy line (and no
  account) when it is about proxies; an order of goods delivered as a service is never cut into items,
  and an order with claimable accounts that is not such a service is always in account mode.
\<close>

theorem form_scope:
  "let mode = disputeFormMode claimable append' kind lines;
       f = \<lparr> fo_mode = mode, fo_selected = ids, fo_selected_lines = ls, fo_described = described,
             fo_submitting = submitting, fo_loading = loading, fo_scope_error = scope_error \<rparr>;
       sent = disputeSubmitResourceIds mode ids
   in (\<not> canSubmitDisputeForm f \<or>
        (described \<and> \<not> submitting \<and> \<not> loading \<and> \<not> scope_error \<and>
         (case mode of AccountsMode \<Rightarrow> sent = Some ids \<and> ids \<noteq> []
          | ProxiesMode \<Rightarrow> sent = None \<and> or_empty ls \<noteq> []
          | ServiceMode \<Rightarrow> sent \<noteq> Some []))) \<and>
      (mode = ProxiesMode) = (kind = Some (js ''proxy'') \<and> (case lines of None \<Rightarrow> False | Some n \<Rightarrow> 1 < n \<or> 0 < n \<and> append')) \<and>
      (mode = AccountsMode) =
        (kind \<notin> {Some (js ''proxy''), Some (js ''task''), Some (js ''sla''), Some (js ''api'')} \<and> (append' \<or> 0 < claimable))"
proof -
  have "js ''task'' \<noteq> []" "js ''sla'' \<noteq> []" "js ''api'' \<noteq> []" "js ''proxy'' \<noteq> js ''task''"
      "js ''proxy'' \<noteq> js ''sla''" "js ''proxy'' \<noteq> js ''api''"
    by (simp_all add: js_eq_iff del: js_Cons)
  note neq = this this [symmetric]
  define mode where "mode = disputeFormMode claimable append' kind lines"
  have "(mode = ProxiesMode) =
      (kind = Some (js ''proxy'') \<and> (case lines of None \<Rightarrow> False | Some n \<Rightarrow> 1 < n \<or> 0 < n \<and> append'))"
    using neq unfolding mode_def disputeFormMode_def or_empty_def
    by (cases lines) (simp_all add: Let_def del: js_Cons)
  moreover have "(mode = AccountsMode) =
      (kind \<notin> {Some (js ''proxy''), Some (js ''task''), Some (js ''sla''), Some (js ''api'')} \<and> (append' \<or> 0 < claimable))"
    using neq unfolding mode_def disputeFormMode_def or_empty_def
    by (cases kind) (auto simp: Let_def simp del: js_Cons)
  ultimately show ?thesis
    unfolding Let_def mode_def [symmetric]
    by (cases mode) (auto simp: canSubmitDisputeForm_def disputeSubmitResourceIds_def)
qed

lemma form_scope_witness:
  "let mode = disputeFormMode 2 False None None in
     canSubmitDisputeForm \<lparr> fo_mode = mode, fo_selected = [5], fo_selected_lines = None,
      fo_described = True, fo_submitting = False, fo_loading = False, fo_scope_error = False \<rparr> \<and>
     mode = AccountsMode \<and> disputeSubmitResourceIds mode [5] = Some [5]"
proof -
  note law = form_scope [of 2 False None None "[5]" None True False False False]
  have m: "disputeFormMode 2 False None None = AccountsMode" using law by (simp add: Let_def)
  then have "canSubmitDisputeForm \<lparr> fo_mode = AccountsMode, fo_selected = [5], fo_selected_lines = None,
      fo_described = True, fo_submitting = False, fo_loading = False, fo_scope_error = False \<rparr>"
    by (simp add: canSubmitDisputeForm_def)
  then show ?thesis using law m by (simp add: Let_def)
qed

end
