(* ===== verification/Pricing_Grid.thy ===== *)
theory Pricing_Grid
  imports Order_Lines
begin

text \<open>
  The price table of a configurable product (features/pricing-grid/model.ts): two axes of codes and
  one of days, a price per cell, how the table is read from and written to a product's parameters,
  its edits and what the seller is told about it.

  Prices are integers of dong; costs and percentages are exact.  An object is the list of its entries
  in insertion order (codes that are array indices, which the language lists first, are outside).
\<close>

section \<open>Values of unknown type\<close>

datatype json = JNull | JBool bool | JNum jsnum | JStr jstr | JArr "json list" | JObj "(jstr \<times> json) list"

type_synonym params = "(jstr \<times> json) list"

text \<open>\<open>Number(x)\<close>: an array is the number of its one element's text, and objects and pairs are no number.\<close>

fun array_number :: "json list \<Rightarrow> jsnum" where
  "array_number [] = Fin 0"
| "array_number [JNull] = Fin 0"
| "array_number [JNum n] = n"
| "array_number [JStr s] = js_number s"
| "array_number [JArr xs] = array_number xs"
| "array_number _ = NaN"

fun json_number :: "json option \<Rightarrow> jsnum" where
  "json_number None = NaN"
| "json_number (Some JNull) = Fin 0"
| "json_number (Some (JBool b)) = Fin (if b then 1 else 0)"
| "json_number (Some (JNum n)) = n"
| "json_number (Some (JStr s)) = js_number s"
| "json_number (Some (JArr xs)) = array_number xs"
| "json_number (Some (JObj _)) = NaN"

text \<open>\<open>String(x)\<close> as far as it can be the text of a natural number.\<close>

definition nat_text :: "jsnum \<Rightarrow> jstr option" where
  "nat_text n = (case as_integer n of None \<Rightarrow> None | Some i \<Rightarrow> if i < 0 then None else Some (show_nat (nat i)))"

fun array_text :: "json list \<Rightarrow> jstr option" where
  "array_text [JNum n] = nat_text n"
| "array_text [JStr s] = Some s"
| "array_text [JArr xs] = array_text xs"
| "array_text _ = None"

fun json_text :: "json option \<Rightarrow> jstr option" where
  "json_text (Some (JNum n)) = nat_text n"
| "json_text (Some (JStr s)) = Some s"
| "json_text (Some (JArr xs)) = array_text xs"
| "json_text _ = None"

text \<open>\<open>record(x)\<close>, \<open>Array.isArray(x) ? x : []\<close> and \<open>stringRecord(x)\<close>.\<close>

fun json_record :: "json option \<Rightarrow> params" where
  "json_record (Some (JObj es)) = es"
| "json_record _ = []"

fun json_array :: "json option \<Rightarrow> json list" where
  "json_array (Some (JArr xs)) = xs"
| "json_array _ = []"

fun string_entry :: "jstr \<times> json \<Rightarrow> (jstr \<times> jstr) list" where
  "string_entry (k, JStr v) = (if js_trim v \<noteq> [] then [(k, v)] else [])"
| "string_entry _ = []"

definition stringRecord :: "json option \<Rightarrow> (jstr \<times> jstr) list" where
  "stringRecord value = concat (map string_entry (json_record value))"

section \<open>The table\<close>

datatype axis = TypeAxis | NetworkAxis

record axis_value =
  av_code :: jstr
  av_label :: jstr

record price_grid =
  g_type_label :: jstr
  g_network_label :: jstr
  g_types :: "axis_value list"
  g_networks :: "axis_value list"
  g_days :: "nat list"
  g_day_labels :: "(jstr \<times> jstr) list"
  g_prices :: "(jstr \<times> int) list"
  g_from_formula :: bool

record cell_cost =
  cc_cost :: "rat option"
  cc_supported :: bool

datatype cell_state = CellOff | CellEmpty | CellOk | CellBelowFloor | CellUnsupported

definition FORMULA_KEYS :: "jstr list" where
  "FORMULA_KEYS = map js [''base_price'', ''type_mult'', ''network_mult'', ''duration_options'']"

definition PROTOCOL_CODES :: "jstr list" where
  "PROTOCOL_CODES = map js [''HTTP'', ''HTTPS'', ''SOCKS5'', ''SOCKS4'']"

definition DEFAULT_NETWORK_LABEL :: jstr where
  "DEFAULT_NETWORK_LABEL = js ''Nh'' @ [0xE0] @ js '' m'' @ [0x1EA1] @ js ''ng''"

definition cellKey :: "jstr \<Rightarrow> jstr \<Rightarrow> nat \<Rightarrow> jstr" where
  "cellKey type' network days = type' @ [124] @ network @ [124] @ show_nat days"

definition parseKey :: "jstr \<Rightarrow> (jstr \<times> jstr \<times> nat) option" where
  "parseKey key =
     (case map js_trim (split_on 124 key) of
        [type', network, rawDays] \<Rightarrow>
          (case as_integer (js_number rawDays) of
             None \<Rightarrow> None
           | Some days \<Rightarrow>
               if type' = [] \<or> network = [] \<or> days \<le> 0 then None else Some (type', network, nat days))
      | _ \<Rightarrow> None)"

text \<open>The upper case of a word's first code unit is the parameter \<open>up\<close>.\<close>

definition humanize :: "(code_unit \<Rightarrow> jstr) \<Rightarrow> jstr \<Rightarrow> jstr" where
  "humanize up code =
     (let words = filter (\<lambda>w. w \<noteq> []) (split_on 32 (map (\<lambda>c. if c = 95 \<or> c = 45 then 32 else c) code))
      in if words = [] then code else join [32] (map (\<lambda>w. up (hd w) @ tl w) words))"

definition plan_entry :: "(jstr \<times> int) list \<Rightarrow> jstr \<times> json \<Rightarrow> (jstr \<times> int) list" where
  "plan_entry out e =
     (case (parseKey (fst e), snd e) of
        (Some (t, n, d), JNum v) \<Rightarrow>
          (case as_integer v of
             Some i \<Rightarrow> if i \<le> 0 then out else AList.update (cellKey t n d) i out
           | None \<Rightarrow> out)
      | _ \<Rightarrow> out)"

definition planPrices :: "params \<Rightarrow> (jstr \<times> int) list" where
  "planPrices params = foldl plan_entry [] (json_record (map_of params (js ''plan_prices'')))"

text \<open>
  A price of the old formula.  A factor that is no finite number gives no price (only a text such as
  \<open>Infinity\<close> makes an infinite one).
\<close>

definition formula_price :: "rat \<Rightarrow> jsnum \<Rightarrow> jsnum \<Rightarrow> jsnum \<Rightarrow> (nat \<times> int) option" where
  "formula_price base t n d =
     (case (t, n, d) of
        (Fin tm, Fin nm, Fin dm) \<Rightarrow>
          (case as_integer d of
             Some days \<Rightarrow>
               let price = js_round (base * tm * nm * dm / 30)
               in if 0 < days \<and> 0 < price then Some (nat days, price) else None
           | None \<Rightarrow> None)
      | _ \<Rightarrow> None)"

definition formula_cell :: "rat \<Rightarrow> jstr \<times> json \<Rightarrow> jstr \<times> json \<Rightarrow> (jstr \<times> int) list \<Rightarrow> json \<Rightarrow> (jstr \<times> int) list" where
  "formula_cell base t n out item =
     (case formula_price base (json_number (Some (snd t))) (json_number (Some (snd n)))
             (json_number (map_of (json_record (Some item)) (js ''days''))) of
        Some (days, price) \<Rightarrow> AList.update (cellKey (fst t) (fst n) days) price out
      | None \<Rightarrow> out)"

definition formulaPrices :: "params \<Rightarrow> (jstr \<times> int) list" where
  "formulaPrices params =
     (case map_of params (js ''base_price'') of
        Some (JNum (Fin base)) \<Rightarrow>
          foldl (\<lambda>out t. foldl (\<lambda>out n. foldl (formula_cell base t n) out
                     (json_array (map_of params (js ''duration_options''))))
                   out (json_record (map_of params (js ''network_mult''))))
            [] (json_record (map_of params (js ''type_mult'')))
      | _ \<Rightarrow> [])"

definition uniqueInOrder :: "jstr list list \<Rightarrow> jstr list" where
  "uniqueInOrder codes = uniq (filter (\<lambda>s. s \<noteq> []) (map js_trim (concat codes)))"

definition defaultTypeLabel :: "jstr list \<Rightarrow> jstr" where
  "defaultTypeLabel codes =
     (if codes \<noteq> [] \<and> list_all (\<lambda>code. js_upper code \<in> set PROTOCOL_CODES) codes
      then js ''Giao th'' @ [0x1EE9] @ js ''c'' else js ''Lo'' @ [0x1EA1] @ js ''i proxy'')"

definition defaultDayLabel :: "nat \<Rightarrow> jstr" where
  "defaultDayLabel days = show_nat days @ js '' ng'' @ [0xE0] @ js ''y''"

text \<open>\<open>{ ...a, ...b }\<close>\<close>

definition spread :: "('k \<times> 'v) list \<Rightarrow> ('k \<times> 'v) list \<Rightarrow> ('k \<times> 'v) list" where
  "spread a b = foldl (\<lambda>m (k, v). AList.update k v m) a b"

definition day_label_entries :: "nat list \<Rightarrow> (jstr \<times> jstr) list \<Rightarrow> (jstr \<times> jstr) list" where
  "day_label_entries days labels =
     concat (map (\<lambda>d. case map_of labels (show_nat d) of
                    None \<Rightarrow> []
                  | Some l \<Rightarrow> let label = js_trim l
                             in if label \<noteq> [] \<and> label \<noteq> defaultDayLabel d then [(show_nat d, label)] else []) days)"

definition layered :: "params \<Rightarrow> params list \<Rightarrow> jstr \<Rightarrow> (jstr \<times> jstr) list" where
  "layered p layers key =
     foldl (\<lambda>acc layer. spread acc (stringRecord (map_of layer key))) (stringRecord (map_of p key)) layers"

definition option_label :: "(jstr \<times> jstr) list \<Rightarrow> json \<Rightarrow> (jstr \<times> jstr) list" where
  "option_label labels item =
     (let r = json_record (Some item)
      in case (map_of r (js ''label''), json_text (map_of r (js ''days''))) of
           (Some (JStr l), Some key) \<Rightarrow> if js_trim l \<noteq> [] then AList.update key l labels else labels
         | _ \<Rightarrow> labels)"

definition positive_day :: "jsnum \<Rightarrow> nat list" where
  "positive_day x = (case as_integer x of None \<Rightarrow> [] | Some i \<Rightarrow> if 0 < i then [nat i] else [])"

definition gridFromParams :: "(code_unit \<Rightarrow> jstr) \<Rightarrow> params option \<Rightarrow> json option list \<Rightarrow> price_grid" where
  "gridFromParams up params overlays =
     (let p = (case params of None \<Rightarrow> [] | Some ps \<Rightarrow> ps);
          explicit = planPrices p;
          fromFormula = (explicit = []);
          prices = (if fromFormula then formulaPrices p else explicit);
          parsed = List.map_filter (parseKey \<circ> fst) prices;
          layers = (if fromFormula then map json_record overlays else []);
          typeDisplay = layered p layers (js ''type_display'');
          networkDisplay = layered p layers (js ''network_display'');
          typeCodes = uniqueInOrder [map fst (json_record (map_of p (js ''type_mult''))), map fst parsed, map fst typeDisplay];
          networkCodes = uniqueInOrder [map fst (json_record (map_of p (js ''network_mult''))),
                           map (fst \<circ> snd) parsed, map fst networkDisplay];
          durations = json_array (map_of p (js ''duration_options''));
          durationDays = concat (map (\<lambda>item. positive_day (json_number (map_of (json_record (Some item)) (js ''days'')))) durations);
          days = sort (uniq (durationDays @ map (snd \<circ> snd) parsed));
          labels = layered p layers (js ''field_labels'');
          allDayLabels = spread (foldl option_label [] durations) (layered p layers (js ''duration_labels''))
      in \<lparr> g_type_label = (case map_of labels (js ''type'') of Some l \<Rightarrow> l | None \<Rightarrow> defaultTypeLabel typeCodes),
           g_network_label = (case map_of labels (js ''network'') of Some l \<Rightarrow> l | None \<Rightarrow> DEFAULT_NETWORK_LABEL),
           g_types = map (\<lambda>code. \<lparr> av_code = code,
                       av_label = (case map_of typeDisplay code of Some l \<Rightarrow> l | None \<Rightarrow> humanize up code) \<rparr>) typeCodes,
           g_networks = map (\<lambda>code. \<lparr> av_code = code,
                          av_label = (case map_of networkDisplay code of Some l \<Rightarrow> l | None \<Rightarrow> code) \<rparr>) networkCodes,
           g_days = days,
           g_day_labels = day_label_entries days allDayLabels,
           g_prices = prices,
           g_from_formula = (fromFormula \<and> prices \<noteq> []) \<rparr>)"

text \<open>The cells in the order of the axes.\<close>

record cell =
  c_key :: jstr
  c_type :: axis_value
  c_network :: axis_value
  c_days :: nat

definition allCells :: "price_grid \<Rightarrow> cell list" where
  "allCells grid =
     concat (map (\<lambda>t. concat (map (\<lambda>n. map (\<lambda>d.
        \<lparr> c_key = cellKey (av_code t) (av_code n) d, c_type = t, c_network = n, c_days = d \<rparr>)
        (g_days grid)) (g_networks grid))) (g_types grid))"

definition or_default :: "jstr \<Rightarrow> jstr \<Rightarrow> jstr" where
  "or_default s d = (if s = [] then d else s)"

definition plan_cells :: "price_grid \<Rightarrow> (jstr \<times> int) list" where
  "plan_cells grid =
     foldl (\<lambda>plan c. case map_of (g_prices grid) (c_key c) of
                       Some price \<Rightarrow> if 0 < price then AList.update (c_key c) price plan else plan
                     | None \<Rightarrow> plan) [] (allCells grid)"

definition display_entries :: "axis_value list \<Rightarrow> (jstr \<times> json) list" where
  "display_entries vs = spread [] (map (\<lambda>v. (av_code v, JStr (or_default (js_trim (av_label v)) (av_code v)))) vs)"

definition paramsFromGrid :: "price_grid \<Rightarrow> params option \<Rightarrow> params" where
  "paramsFromGrid grid base0 =
     (let base = (case base0 of None \<Rightarrow> [] | Some ps \<Rightarrow> ps);
          p1 = foldl (\<lambda>m k. AList.delete k m) base FORMULA_KEYS;
          p2 = AList.update (js ''plan_prices'') (JObj (map (\<lambda>(k, v). (k, JNum (Fin (of_int v)))) (plan_cells grid))) p1;
          p3 = AList.update (js ''type_display'') (JObj (display_entries (g_types grid))) p2;
          p4 = AList.update (js ''network_display'') (JObj (display_entries (g_networks grid))) p3;
          dayLabels = day_label_entries (g_days grid) (g_day_labels grid);
          p5 = (if dayLabels \<noteq> [] then AList.update (js ''duration_labels'') (JObj (map (\<lambda>(k, v). (k, JStr v)) dayLabels)) p4
                else AList.delete (js ''duration_labels'') p4);
          fields' = spread (stringRecord (map_of base (js ''field_labels'')))
             [(js ''type'', or_default (js_trim (g_type_label grid)) (defaultTypeLabel (map av_code (g_types grid)))),
              (js ''network'', or_default (js_trim (g_network_label grid)) DEFAULT_NETWORK_LABEL)]
      in AList.update (js ''field_labels'') (JObj (map (\<lambda>(k, v). (k, JStr v)) fields')) p5)"

section \<open>Edits of the axes\<close>

definition axisList :: "price_grid \<Rightarrow> axis \<Rightarrow> axis_value list" where
  "axisList grid a = (case a of TypeAxis \<Rightarrow> g_types grid | NetworkAxis \<Rightarrow> g_networks grid)"

definition withAxis :: "price_grid \<Rightarrow> axis \<Rightarrow> axis_value list \<Rightarrow> price_grid" where
  "withAxis grid a vs = (case a of TypeAxis \<Rightarrow> grid \<lparr> g_types := vs \<rparr> | NetworkAxis \<Rightarrow> grid \<lparr> g_networks := vs \<rparr>)"

definition keepPrices :: "price_grid \<Rightarrow> (jstr \<times> jstr \<times> nat \<Rightarrow> bool) \<Rightarrow> (jstr \<times> int) list" where
  "keepPrices grid keep =
     filter (\<lambda>(key, price). case parseKey key of None \<Rightarrow> False | Some parsed \<Rightarrow> keep parsed) (g_prices grid)"

definition isValidCode :: "jstr \<Rightarrow> bool" where
  "isValidCode code \<longleftrightarrow> 0 < length (js_trim code) \<and> length (js_trim code) \<le> 40 \<and> 124 \<notin> set (js_trim code)"

definition addAxisValue :: "price_grid \<Rightarrow> axis \<Rightarrow> axis_value \<Rightarrow> price_grid" where
  "addAxisValue grid a v =
     (let code = js_trim (av_code v)
      in if \<not> isValidCode code \<or> code \<in> av_code ` set (axisList grid a) then grid
         else withAxis grid a (axisList grid a @ [\<lparr> av_code = code, av_label = or_default (js_trim (av_label v)) code \<rparr>]))"

definition renameAxisValue :: "price_grid \<Rightarrow> axis \<Rightarrow> jstr \<Rightarrow> jstr \<Rightarrow> price_grid" where
  "renameAxisValue grid a code l =
     withAxis grid a (map (\<lambda>v. if av_code v = code then v \<lparr> av_label := l \<rparr> else v) (axisList grid a))"

definition removeAxisValue :: "price_grid \<Rightarrow> axis \<Rightarrow> jstr \<Rightarrow> price_grid" where
  "removeAxisValue grid a code =
     withAxis grid a (filter (\<lambda>v. av_code v \<noteq> code) (axisList grid a))
       \<lparr> g_prices := keepPrices grid (\<lambda>(t, n, d). (case a of TypeAxis \<Rightarrow> t | NetworkAxis \<Rightarrow> n) \<noteq> code) \<rparr>"

definition addDays :: "price_grid \<Rightarrow> jsnum \<Rightarrow> price_grid" where
  "addDays grid days =
     (case as_integer days of
        None \<Rightarrow> grid
      | Some d \<Rightarrow> if d \<le> 0 \<or> 3650 < d \<or> nat d \<in> set (g_days grid) then grid
                  else grid \<lparr> g_days := sort (g_days grid @ [nat d]) \<rparr>)"

definition removeDays :: "price_grid \<Rightarrow> nat \<Rightarrow> price_grid" where
  "removeDays grid days =
     grid \<lparr> g_days := filter (\<lambda>d. d \<noteq> days) (g_days grid),
            g_day_labels := AList.delete (show_nat days) (g_day_labels grid),
            g_prices := keepPrices grid (\<lambda>(t, n, d). d \<noteq> days) \<rparr>"

definition dayLabel :: "price_grid \<Rightarrow> nat \<Rightarrow> jstr" where
  "dayLabel grid days =
     or_default (case map_of (g_day_labels grid) (show_nat days) of None \<Rightarrow> [] | Some l \<Rightarrow> l) (defaultDayLabel days)"

definition renameDays :: "price_grid \<Rightarrow> nat \<Rightarrow> jstr \<Rightarrow> price_grid" where
  "renameDays grid days l =
     (let clean = js_trim l
      in grid \<lparr> g_day_labels :=
           (if clean = [] \<or> clean = defaultDayLabel days then AList.delete (show_nat days) (g_day_labels grid)
            else AList.update (show_nat days) clean (g_day_labels grid)) \<rparr>)"

section \<open>Edits of the prices\<close>

definition setPrice :: "price_grid \<Rightarrow> jstr \<Rightarrow> rat option \<Rightarrow> price_grid" where
  "setPrice grid key price =
     grid \<lparr> g_prices := (case price of None \<Rightarrow> AList.delete key (g_prices grid)
                          | Some p \<Rightarrow> AList.update key (max 0 (js_round p)) (g_prices grid)) \<rparr>"

definition roundStep :: "rat \<Rightarrow> int" where
  "roundStep amount = (if amount < 20000 then 100 else 1000)"

definition roundUp :: "rat \<Rightarrow> int" where
  "roundUp amount = \<lceil>(of_int (js_round (amount * 100)) / 100 / of_int (roundStep amount) :: rat)\<rceil> * roundStep amount"

definition minimumPrice :: "rat option \<Rightarrow> rat \<Rightarrow> rat option" where
  "minimumPrice cost minMarginPct =
     (case cost of None \<Rightarrow> None | Some c \<Rightarrow> if 0 < c then Some (c * (1 + minMarginPct / 100)) else None)"

definition floorPrice :: "rat option \<Rightarrow> rat \<Rightarrow> int option" where
  "floorPrice cost minMarginPct = map_option roundUp (minimumPrice cost minMarginPct)"

definition marginPct :: "int \<Rightarrow> rat option \<Rightarrow> rat option" where
  "marginPct price cost =
     (case cost of
        None \<Rightarrow> None
      | Some c \<Rightarrow> if c \<le> 0 \<or> price \<le> 0 then None
                  else Some (of_int (js_round ((of_int price - c) / c * 1000)) / 10))"

definition copy_cell :: "price_grid \<Rightarrow> jstr \<Rightarrow> (jstr \<Rightarrow> bool) \<Rightarrow> (jstr \<times> int) list \<Rightarrow> cell \<Rightarrow> (jstr \<times> int) list" where
  "copy_cell grid fromType supported prices c =
     (case map_of (g_prices grid) (cellKey fromType (av_code (c_network c)) (c_days c)) of
        Some source \<Rightarrow> if 0 < source \<and> supported (c_key c) then AList.update (c_key c) source prices
                       else AList.delete (c_key c) prices
      | None \<Rightarrow> AList.delete (c_key c) prices)"

text \<open>The three loops visit \<open>allCells\<close> but for the cells of the type that is copied.\<close>

definition copyTypePrices :: "price_grid \<Rightarrow> jstr \<Rightarrow> (jstr \<Rightarrow> bool) \<Rightarrow> price_grid" where
  "copyTypePrices grid fromType supported =
     grid \<lparr> g_prices := foldl (copy_cell grid fromType supported) (g_prices grid)
              (filter (\<lambda>c. av_code (c_type c) \<noteq> fromType) (allCells grid)) \<rparr>"

definition adjustPrices :: "price_grid \<Rightarrow> jsnum \<Rightarrow> price_grid" where
  "adjustPrices grid pct =
     (case pct of
        Fin p \<Rightarrow> if p \<le> -100 then grid
                 else grid \<lparr> g_prices := map (\<lambda>(key, price).
                        (key, if 0 < price then roundUp (of_int price * (1 + p / 100)) else price)) (g_prices grid) \<rparr>
      | _ \<Rightarrow> grid)"

definition cost_of :: "(jstr \<times> cell_cost) list \<Rightarrow> jstr \<Rightarrow> rat option" where
  "cost_of costs key = Option.bind (map_of costs key) cc_cost"

definition priceToMargin :: "price_grid \<Rightarrow> jsnum \<Rightarrow> (jstr \<times> cell_cost) list \<Rightarrow> price_grid" where
  "priceToMargin grid pct costs =
     (case pct of
        Fin p \<Rightarrow> if p < 0 then grid
                 else grid \<lparr> g_prices := map (\<lambda>(key, price).
                        (key, case cost_of costs key of
                                Some cost \<Rightarrow> if 0 < cost then roundUp (cost * (1 + p / 100)) else price
                              | None \<Rightarrow> price)) (g_prices grid) \<rparr>
      | _ \<Rightarrow> grid)"

section \<open>Reading the table\<close>

definition cellState :: "price_grid \<Rightarrow> jstr \<Rightarrow> (jstr \<times> cell_cost) list \<Rightarrow> rat \<Rightarrow> cell_state" where
  "cellState grid key costs minMarginPct =
     (let info = map_of costs key; unsupported = (\<exists>i. info = Some i \<and> \<not> cc_supported i)
      in case map_of (g_prices grid) key of
           None \<Rightarrow> if unsupported then CellUnsupported else CellOff
         | Some price \<Rightarrow>
             if unsupported then CellUnsupported
             else if price \<le> 0 then CellEmpty
             else case minimumPrice (cost_of costs key) minMarginPct of
                 Some m \<Rightarrow> if of_int price < m then CellBelowFloor else CellOk
               | None \<Rightarrow> CellOk)"

record grid_summary =
  gs_empty :: nat
  gs_below_floor :: nat
  gs_unsupported :: nat
  gs_unpriced :: nat
  gs_sold :: "int list"
  gs_margins :: "rat list"

text \<open>One turn of the summary's loop; the shown extremes are those of the collected lists.\<close>

definition summary_step :: "price_grid \<Rightarrow> (jstr \<times> cell_cost) list \<Rightarrow> rat \<Rightarrow> grid_summary \<Rightarrow> cell \<Rightarrow> grid_summary" where
  "summary_step grid costs minMarginPct s c =
     (let key = c_key c; state = cellState grid key costs minMarginPct;
          price = (case map_of (g_prices grid) key of None \<Rightarrow> 0 | Some p \<Rightarrow> p)
      in if state = CellOff \<or> (state = CellUnsupported \<and> map_of (g_prices grid) key = None)
         then s \<lparr> gs_empty := gs_empty s + 1 \<rparr>
         else if state = CellUnsupported then s \<lparr> gs_unsupported := gs_unsupported s + 1 \<rparr>
         else if state = CellEmpty then s \<lparr> gs_unpriced := gs_unpriced s + 1 \<rparr>
         else s \<lparr> gs_below_floor := gs_below_floor s + (if state = CellBelowFloor then 1 else 0),
                  gs_sold := gs_sold s @ [price],
                  gs_margins := gs_margins s @ (case marginPct price (cost_of costs key) of None \<Rightarrow> [] | Some m \<Rightarrow> [m]) \<rparr>)"

definition summarize :: "price_grid \<Rightarrow> (jstr \<times> cell_cost) list \<Rightarrow> rat \<Rightarrow> grid_summary" where
  "summarize grid costs minMarginPct =
     foldl (summary_step grid costs minMarginPct)
       \<lparr> gs_empty = 0, gs_below_floor = 0, gs_unsupported = 0, gs_unpriced = 0, gs_sold = [], gs_margins = [] \<rparr>
       (allCells grid)"

definition extremes :: "'a::linorder list \<Rightarrow> ('a \<times> 'a) option" where
  "extremes xs = (if xs = [] then None else Some (Min (set xs), Max (set xs)))"

definition choice_label :: "price_grid \<Rightarrow> cell \<Rightarrow> jstr" where
  "choice_label grid c =
     or_default (av_label (c_type c)) (av_code (c_type c)) @ [32, 0xB7, 32] @
     or_default (av_label (c_network c)) (av_code (c_network c)) @ [32, 0xB7, 32] @ dayLabel grid (c_days c)"

definition buyerChoices :: "price_grid \<Rightarrow> (jstr \<times> jstr \<times> int) list" where
  "buyerChoices grid =
     concat (map (\<lambda>c. case map_of (g_prices grid) (c_key c) of
                        Some price \<Rightarrow> if 0 < price then [(c_key c, choice_label grid c, price)] else []
                      | None \<Rightarrow> []) (allCells grid))"

definition isGridParams :: "params option \<Rightarrow> bool" where
  "isGridParams params =
     (let p = (case params of None \<Rightarrow> [] | Some ps \<Rightarrow> ps); planOptions = json_array (map_of p (js ''plan_options'')) \<noteq> []
      in \<not> (planOptions \<and> map_of p (js ''type_mult'') = None))"

section \<open>Keys\<close>

definition code_ok :: "jstr \<Rightarrow> bool" where
  "code_ok c \<longleftrightarrow> trimmed c \<and> c \<noteq> [] \<and> 124 \<notin> set c"

definition day_ok :: "nat \<Rightarrow> bool" where
  "day_ok d \<longleftrightarrow> 0 < d \<and> of_nat d < overflow_bound"

lemma split_cellKey:
  assumes "124 \<notin> set t" "124 \<notin> set n"
  shows "split_on 124 (cellKey t n d) = [t, n, show_nat d]"
proof -
  have "124 \<notin> set (show_nat d)" using show_nat_digits digit_neq(10) by blast
  then show ?thesis using assms by (simp add: cellKey_def split_on_append split_on_free)
qed

lemma parseKey_cellKey [simp]:
  assumes "code_ok t" "code_ok n" "day_ok d"
  shows "parseKey (cellKey t n d) = Some (t, n, d)"
proof -
  have "js_trim (show_nat d) = show_nat d"
    by (intro trimmed_js_trim_id all_digits_trimmed show_nat_digits)
  then show ?thesis using assms
    by (simp add: parseKey_def code_ok_def day_ok_def split_cellKey trimmed_js_trim_id as_integer_show_nat)
qed

lemma cellKey_inj:
  assumes "124 \<notin> set t" "124 \<notin> set n" "124 \<notin> set t'" "124 \<notin> set n'"
  shows "cellKey t n d = cellKey t' n' d' \<longleftrightarrow> t = t' \<and> n = n' \<and> d = d'"
proof
  assume "cellKey t n d = cellKey t' n' d'"
  then have "[t, n, show_nat d] = [t', n', show_nat d']"
    using split_cellKey [OF assms(1,2)] split_cellKey [OF assms(3,4)] by metis
  then show "t = t' \<and> n = n' \<and> d = d'" by (simp add: show_nat_inj)
qed simp

lemma parseKey_ok: "parseKey key = Some (t, n, d) \<Longrightarrow> code_ok t \<and> code_ok n \<and> 0 < d"
proof -
  assume "parseKey key = Some (t, n, d)"
  then obtain r where parts: "map js_trim (split_on 124 key) = [t, n, r]" and ne: "t \<noteq> []" "n \<noteq> []" "0 < d"
    by (auto simp: parseKey_def split: list.splits option.splits if_splits)
  then obtain x y z where xyz: "split_on 124 key = [x, y, z]" "t = js_trim x" "n = js_trim y" by auto
  then have "124 \<notin> set x" "124 \<notin> set y" using split_on_parts_free [of _ 124 key] by auto
  then have "124 \<notin> set t" "124 \<notin> set n" using xyz set_js_trim_subset by blast+
  then show ?thesis using xyz ne by (simp add: code_ok_def)
qed

section \<open>The table stays well formed\<close>

text \<open>
  A table is well formed when its codes can stand in a key and do not repeat, its days are positive,
  ascending and do not repeat, and every price stands in a cell of the axes and is not negative.
\<close>

definition is_cell :: "price_grid \<Rightarrow> jstr \<Rightarrow> bool" where
  "is_cell grid key \<longleftrightarrow> key \<in> c_key ` set (allCells grid)"

definition axis_ok :: "axis_value list \<Rightarrow> bool" where
  "axis_ok vs \<longleftrightarrow> distinct (map av_code vs) \<and> list_all (\<lambda>v. code_ok (av_code v)) vs"

definition grid_ok :: "price_grid \<Rightarrow> bool" where
  "grid_ok grid \<longleftrightarrow> axis_ok (g_types grid) \<and> axis_ok (g_networks grid) \<and>
     sorted_wrt (<) (g_days grid) \<and> list_all day_ok (g_days grid) \<and>
     distinct (map fst (g_prices grid)) \<and> list_all (\<lambda>(k, p). is_cell grid k \<and> 0 \<le> p) (g_prices grid)"

lemma is_cell_iff:
  "is_cell grid key \<longleftrightarrow> (\<exists>t \<in> av_code ` set (g_types grid). \<exists>n \<in> av_code ` set (g_networks grid). \<exists>d \<in> set (g_days grid).
     key = cellKey t n d)"
  by (force simp: is_cell_def allCells_def image_iff)

lemma grid_okI [wf_intro]:
  assumes "axis_ok (g_types grid)" "axis_ok (g_networks grid)" "sorted_wrt (<) (g_days grid)"
    "list_all day_ok (g_days grid)" "distinct (map fst (g_prices grid))"
    "\<And>k p. (k, p) \<in> set (g_prices grid) \<Longrightarrow> is_cell grid k \<and> 0 \<le> p"
  shows "grid_ok grid"
  using assms by (auto simp: grid_ok_def list_all_iff)

lemma grid_okD:
  assumes "grid_ok grid"
  shows "axis_ok (g_types grid)" "axis_ok (g_networks grid)" "sorted_wrt (<) (g_days grid)"
    "list_all day_ok (g_days grid)" "distinct (map fst (g_prices grid))"
    "(k, p) \<in> set (g_prices grid) \<Longrightarrow> is_cell grid k \<and> 0 \<le> p"
  using assms by (auto simp: grid_ok_def list_all_iff)

lemma code_ok_of: "axis_ok vs \<Longrightarrow> c \<in> av_code ` set vs \<Longrightarrow> code_ok c"
  by (auto simp: axis_ok_def list_all_iff)

lemma is_cell_parse:
  assumes "grid_ok grid" "is_cell grid key"
  obtains t n d where "parseKey key = Some (t, n, d)" "key = cellKey t n d"
    "t \<in> av_code ` set (g_types grid)" "n \<in> av_code ` set (g_networks grid)" "d \<in> set (g_days grid)"
proof -
  from assms(2) obtain t n d where k: "key = cellKey t n d" "t \<in> av_code ` set (g_types grid)"
      "n \<in> av_code ` set (g_networks grid)" "d \<in> set (g_days grid)"
    by (auto simp: is_cell_iff)
  moreover have "code_ok t" "code_ok n" "day_ok d"
    using k grid_okD [OF assms(1)] code_ok_of by (auto simp: list_all_iff)
  ultimately show ?thesis using that by simp
qed

lemma strict_sort: "sorted_wrt (<) xs \<longleftrightarrow> sorted xs \<and> distinct xs" for xs :: "nat list"
  by (rule strict_sorted_iff)

lemma fst_keepPrices: "distinct (map fst (g_prices grid)) \<Longrightarrow> distinct (map fst (keepPrices grid keep))"
  by (auto simp: keepPrices_def intro: distinct_map_filter)

lemma keepPrices_mem:
  assumes "grid_ok grid" "(k, p) \<in> set (keepPrices grid keep)"
  shows "\<exists>t n d. k = cellKey t n d \<and> t \<in> av_code ` set (g_types grid) \<and> n \<in> av_code ` set (g_networks grid) \<and>
    d \<in> set (g_days grid) \<and> keep (t, n, d) \<and> 0 \<le> p"
proof -
  from assms(2) obtain x where m: "(k, p) \<in> set (g_prices grid)" "parseKey k = Some x" "keep x"
    by (auto simp: keepPrices_def split: option.splits)
  with grid_okD(6) [OF assms(1)] have "is_cell grid k" "0 \<le> p" by auto
  from is_cell_parse [OF assms(1) this(1)] m \<open>0 \<le> p\<close> show ?thesis by (metis option.inject)
qed

lemma axis_ok_filter: "axis_ok vs \<Longrightarrow> axis_ok (filter P vs)"
  by (auto simp: axis_ok_def list_all_iff distinct_map_filter)

lemma axis_ok_codes: "map av_code vs = map av_code ws \<Longrightarrow> axis_ok vs = axis_ok ws"
proof -
  have alt: "axis_ok vs \<longleftrightarrow> distinct (map av_code vs) \<and> (\<forall>c \<in> set (map av_code vs). code_ok c)" for vs
    by (auto simp: axis_ok_def list_all_iff)
  assume "map av_code vs = map av_code ws"
  then show ?thesis by (simp only: alt)
qed

lemma is_cell_mono:
  assumes "is_cell g k" "av_code ` set (g_types g) \<subseteq> av_code ` set (g_types g')"
    "av_code ` set (g_networks g) \<subseteq> av_code ` set (g_networks g')" "set (g_days g) \<subseteq> set (g_days g')"
  shows "is_cell g' k"
  using assms unfolding is_cell_iff by blast

lemma rename_codes:
  "map av_code (map (\<lambda>v. if av_code v = code then v \<lparr> av_label := l \<rparr> else v) vs) = map av_code vs"
  by (induction vs) auto

lemma grid_ok_grow:
  assumes "grid_ok g" "g_prices g' = g_prices g" "axis_ok (g_types g')" "axis_ok (g_networks g')"
    "sorted_wrt (<) (g_days g')" "list_all day_ok (g_days g')"
    "av_code ` set (g_types g) \<subseteq> av_code ` set (g_types g')"
    "av_code ` set (g_networks g) \<subseteq> av_code ` set (g_networks g')" "set (g_days g) \<subseteq> set (g_days g')"
  shows "grid_ok g'"
proof (rule grid_okI)
  fix k p assume "(k, p) \<in> set (g_prices g')"
  then have "is_cell g k" "0 \<le> p" using assms(2) grid_okD(6) [OF assms(1)] by auto
  with is_cell_mono [OF _ assms(7-9)] show "is_cell g' k \<and> 0 \<le> p" by blast
qed (use assms grid_okD(5) [OF assms(1)] in simp_all)

lemma addAxisValue_ok:
  assumes "grid_ok grid"
  shows "grid_ok (addAxisValue grid a v)"
proof (cases "isValidCode (js_trim (av_code v)) \<and> js_trim (av_code v) \<notin> av_code ` set (axisList grid a)")
  case True
  then have code: "code_ok (js_trim (av_code v))" by (auto simp: isValidCode_def code_ok_def)
  show ?thesis
  proof (rule grid_okI)
    fix k p assume "(k, p) \<in> set (g_prices (addAxisValue grid a v))"
    then have "is_cell grid k \<and> 0 \<le> p"
      using grid_okD(6) [OF assms] by (cases a) (auto simp: addAxisValue_def Let_def withAxis_def split: if_splits)
    then show "is_cell (addAxisValue grid a v) k \<and> 0 \<le> p"
      by (cases a) (auto simp: addAxisValue_def Let_def withAxis_def axisList_def elim!: is_cell_mono)
  qed (use True code grid_okD(1-5) [OF assms] in
      \<open>cases a; auto simp: addAxisValue_def Let_def withAxis_def axisList_def axis_ok_def\<close>)+
qed (use assms in \<open>auto simp: addAxisValue_def Let_def isValidCode_def\<close>)

lemma renameAxisValue_ok:
  assumes "grid_ok grid"
  shows "grid_ok (renameAxisValue grid a code l)"
proof (rule grid_okI)
  let ?r = "map (\<lambda>v. if av_code v = code then v \<lparr> av_label := l \<rparr> else v)"
  have ok: "axis_ok (?r vs) = axis_ok vs" for vs by (rule axis_ok_codes [OF rename_codes])
  have codes: "av_code ` set (?r vs) = av_code ` set vs" for vs
    using arg_cong [where f = set, OF rename_codes [of code l vs]] by (simp only: set_map)
  show "axis_ok (g_types (renameAxisValue grid a code l))" "axis_ok (g_networks (renameAxisValue grid a code l))"
    using grid_okD(1,2) [OF assms] ok
    by (cases a; simp add: renameAxisValue_def withAxis_def axisList_def)+
  fix k p assume "(k, p) \<in> set (g_prices (renameAxisValue grid a code l))"
  then have "is_cell grid k \<and> 0 \<le> p"
    using grid_okD(6) [OF assms] by (cases a) (simp_all add: renameAxisValue_def withAxis_def)
  then show "is_cell (renameAxisValue grid a code l) k \<and> 0 \<le> p"
    by (cases a) (auto simp: renameAxisValue_def withAxis_def axisList_def codes simp del: set_map elim!: is_cell_mono)
qed (use grid_okD(3-5) [OF assms] in \<open>cases a; simp add: renameAxisValue_def withAxis_def\<close>)+

lemma removeAxisValue_ok:
  assumes "grid_ok grid"
  shows "grid_ok (removeAxisValue grid a code)"
proof (rule grid_okI)
  fix k p assume "(k, p) \<in> set (g_prices (removeAxisValue grid a code))"
  then have "(k, p) \<in> set (keepPrices grid (\<lambda>(t, n, d). (case a of TypeAxis \<Rightarrow> t | NetworkAxis \<Rightarrow> n) \<noteq> code))"
    by (simp add: removeAxisValue_def)
  from keepPrices_mem [OF assms this] obtain t n d where m: "k = cellKey t n d"
      "t \<in> av_code ` set (g_types grid)" "n \<in> av_code ` set (g_networks grid)" "d \<in> set (g_days grid)"
      "(case a of TypeAxis \<Rightarrow> t | NetworkAxis \<Rightarrow> n) \<noteq> code" "0 \<le> p"
    by auto
  have "is_cell (removeAxisValue grid a code) k"
    unfolding is_cell_iff using m
    by (intro bexI [of _ t] bexI [of _ n] bexI [of _ d]; cases a)
      (auto simp: removeAxisValue_def withAxis_def axisList_def)
  then show "is_cell (removeAxisValue grid a code) k \<and> 0 \<le> p" using m(6) by blast
qed (use grid_okD(1-5) [OF assms] in \<open>cases a; simp add: removeAxisValue_def withAxis_def axisList_def axis_ok_filter fst_keepPrices\<close>)+

lemma addDays_ok:
  assumes "grid_ok grid"
  shows "grid_ok (addDays grid x)"
proof (cases "as_integer x")
  case (Some d)
  show ?thesis
  proof (cases "d \<le> 0 \<or> 3650 < d \<or> nat d \<in> set (g_days grid)")
    case False
    then have "nat d \<le> 3650" by (simp add: nat_le_iff)
    then have "(of_nat (nat d) :: rat) \<le> of_nat 3650" by (rule of_nat_mono)
    then have "day_ok (nat d)" using False by (simp add: day_ok_def overflow_bound_def)
    then show ?thesis using False Some grid_okD(1-4) [OF assms]
      by (intro grid_ok_grow [OF assms]) (auto simp: addDays_def strict_sort list_all_iff)
  qed (use assms Some in \<open>simp add: addDays_def\<close>)
qed (use assms in \<open>simp add: addDays_def\<close>)

lemma removeDays_ok:
  assumes "grid_ok grid"
  shows "grid_ok (removeDays grid x)"
proof (rule grid_okI)
  fix k p assume "(k, p) \<in> set (g_prices (removeDays grid x))"
  then have "(k, p) \<in> set (keepPrices grid (\<lambda>(t, n, d). d \<noteq> x))" by (simp add: removeDays_def)
  from keepPrices_mem [OF assms this] obtain t n d where m: "k = cellKey t n d"
      "t \<in> av_code ` set (g_types grid)" "n \<in> av_code ` set (g_networks grid)" "d \<in> set (g_days grid)" "d \<noteq> x" "0 \<le> p"
    by auto
  have "is_cell (removeDays grid x) k"
    unfolding is_cell_iff
    by (intro bexI [of _ t] bexI [of _ n] bexI [of _ d]) (use m in \<open>auto simp: removeDays_def\<close>)
  then show "is_cell (removeDays grid x) k \<and> 0 \<le> p" using m(6) by blast
qed (use grid_okD(1-5) [OF assms] in \<open>simp add: removeDays_def fst_keepPrices sorted_wrt_filter list_all_iff\<close>)+

lemma renameDays_ok:
  assumes "grid_ok grid"
  shows "grid_ok (renameDays grid d l)"
  using grid_okD(1-4) [OF assms] by (intro grid_ok_grow [OF assms]) (auto simp: renameDays_def Let_def)

text \<open>An edit that only changes prices keeps the table well formed when each price it stores is one of a cell.\<close>

lemma prices_ok:
  assumes "grid_ok grid" "distinct (map fst ps)" "\<And>k p. (k, p) \<in> set ps \<Longrightarrow> is_cell grid k \<and> 0 \<le> p"
  shows "grid_ok (grid \<lparr> g_prices := ps \<rparr>)"
  using assms grid_okD [OF assms(1)] by (intro grid_okI) (auto simp: is_cell_iff)

lemma distinct_update: "distinct (map fst m) \<Longrightarrow> distinct (map fst (AList.update k v m))"
  by (rule distinct_update)

lemma update_mem: "(k, p) \<in> set (AList.update a b m) \<Longrightarrow> (k = a \<and> p = b) \<or> (k, p) \<in> set m"
  by (induction m) (auto split: if_splits)

lemma delete_mem: "(k, p) \<in> set (AList.delete a m) \<Longrightarrow> (k, p) \<in> set m"
  by (induction m) (auto split: if_splits)

lemma roundUp_nonneg:
  assumes "0 \<le> x"
  shows "0 \<le> roundUp x"
proof -
  have "0 \<le> js_round (x * 100)" using assms by (intro js_round_ge) simp
  then have "(0::rat) \<le> of_int (js_round (x * 100)) / 100 / of_int (roundStep x)"
    by (simp add: roundStep_def)
  then have "0 \<le> \<lceil>of_int (js_round (x * 100)) / 100 / of_int (roundStep x) :: rat\<rceil>"
    by (metis ceiling_mono ceiling_zero)
  then show ?thesis by (simp add: roundUp_def roundStep_def)
qed

lemma setPrice_ok:
  assumes "grid_ok grid" "is_cell grid key"
  shows "grid_ok (setPrice grid key price)"
  unfolding setPrice_def using assms grid_okD(5,6) [OF assms(1)]
  by (intro prices_ok) (auto simp: distinct_update distinct_delete split: option.splits dest!: update_mem delete_mem)

lemma map_prices_ok:
  assumes "grid_ok grid" "\<And>k p. (k, p) \<in> set (g_prices grid) \<Longrightarrow> 0 \<le> f k p"
  shows "grid_ok (grid \<lparr> g_prices := map (\<lambda>(k, p). (k, f k p)) (g_prices grid) \<rparr>)"
proof (rule prices_ok [OF assms(1)])
  have "map fst (map (\<lambda>(k, p). (k, f k p)) ps) = map fst ps" for ps by (induction ps) auto
  then show "distinct (map fst (map (\<lambda>(k, p). (k, f k p)) (g_prices grid)))"
    using grid_okD(5) [OF assms(1)] by (simp only:)
qed (use assms grid_okD(6) [OF assms(1)] in auto)

lemma adjustPrices_ok:
  assumes "grid_ok grid"
  shows "grid_ok (adjustPrices grid pct)"
proof (cases pct)
  case (Fin p)
  show ?thesis
  proof (cases "p \<le> -100")
    case False
    then have "0 \<le> of_int price * (1 + p / 100)" if "0 < price" for price :: int
      using that by (intro mult_nonneg_nonneg) (auto simp: field_simps)
    with map_prices_ok [OF assms] grid_okD(6) [OF assms] False Fin show ?thesis
      by (simp add: adjustPrices_def roundUp_nonneg)
  qed (use assms Fin in \<open>simp add: adjustPrices_def\<close>)
qed (use assms in \<open>simp_all add: adjustPrices_def\<close>)

lemma priceToMargin_ok:
  assumes "grid_ok grid"
  shows "grid_ok (priceToMargin grid pct costs)"
proof (cases pct)
  case (Fin p)
  show ?thesis
  proof (cases "p < 0")
    case False
    have "0 \<le> (case cost_of costs k of Some cost \<Rightarrow> if 0 < cost then roundUp (cost * (1 + p / 100)) else q | None \<Rightarrow> q)"
      if "0 \<le> q" for k q
      using that False by (auto intro!: roundUp_nonneg mult_nonneg_nonneg split: option.split)
    with map_prices_ok [OF assms] grid_okD(6) [OF assms] False Fin show ?thesis
      by (simp add: priceToMargin_def)
  qed (use assms Fin in \<open>simp add: priceToMargin_def\<close>)
qed (use assms in \<open>simp_all add: priceToMargin_def\<close>)

lemma copyTypePrices_ok:
  assumes "grid_ok grid"
  shows "grid_ok (copyTypePrices grid from' supported)"
proof -
  have "distinct (map fst (foldl (copy_cell grid from' supported) ps cs)) \<and>
      (\<forall>(k, p) \<in> set (foldl (copy_cell grid from' supported) ps cs). is_cell grid k \<and> 0 \<le> p)"
    if "set cs \<subseteq> set (allCells grid)" "distinct (map fst ps)" "\<forall>(k, p) \<in> set ps. is_cell grid k \<and> 0 \<le> p" for cs ps
    using that
  proof (induction cs arbitrary: ps)
    case (Cons c cs)
    have "distinct (map fst (copy_cell grid from' supported ps c)) \<and>
        (\<forall>(k, p) \<in> set (copy_cell grid from' supported ps c). is_cell grid k \<and> 0 \<le> p)"
      using Cons.prems
      by (auto simp: copy_cell_def is_cell_def distinct_update distinct_delete split: option.splits if_splits
          dest!: update_mem delete_mem)
    note step = conjunct1 [OF this] conjunct2 [OF this]
    show ?case unfolding foldl.simps
      by (rule Cons.IH [OF _ step]) (use Cons.prems(1) in simp)
  qed simp
  from this [of "filter (\<lambda>c. av_code (c_type c) \<noteq> from') (allCells grid)" "g_prices grid"]
  show ?thesis unfolding copyTypePrices_def using assms grid_okD(5,6) [OF assms]
    by (intro prices_ok) auto
qed

text \<open>The edits of the editor and their effect, and what makes one possible.\<close>

datatype edit =
    AddValue axis axis_value | RenameValue axis jstr jstr | RemoveValue axis jstr
  | AddDay jsnum | RemoveDay nat | RenameDay nat jstr
  | SetPrice jstr "rat option" | CopyType jstr "jstr list" | Adjust jsnum
  | ToMargin jsnum "(jstr \<times> cell_cost) list"

fun apply_edit :: "price_grid \<Rightarrow> edit \<Rightarrow> price_grid" where
  "apply_edit g (AddValue a v) = addAxisValue g a v"
| "apply_edit g (RenameValue a c l) = renameAxisValue g a c l"
| "apply_edit g (RemoveValue a c) = removeAxisValue g a c"
| "apply_edit g (AddDay x) = addDays g x"
| "apply_edit g (RemoveDay d) = removeDays g d"
| "apply_edit g (RenameDay d l) = renameDays g d l"
| "apply_edit g (SetPrice k p) = (if is_cell g k then setPrice g k p else g)"
| "apply_edit g (CopyType t refused) = copyTypePrices g t (\<lambda>k. k \<notin> set refused)"
| "apply_edit g (Adjust x) = adjustPrices g x"
| "apply_edit g (ToMargin x costs) = priceToMargin g x costs"

lemma apply_edit_ok: "grid_ok g \<Longrightarrow> grid_ok (apply_edit g e)"
  by (cases e)
    (simp_all add: addAxisValue_ok renameAxisValue_ok removeAxisValue_ok addDays_ok removeDays_ok renameDays_ok
      setPrice_ok copyTypePrices_ok adjustPrices_ok priceToMargin_ok)

text \<open>
  C17: The price table stays well formed.  From a well-formed table, any sequence of edits
  (axis values and days added, renamed and removed, prices set in a cell, copied, adjusted or put at a
  margin) leaves a table whose codes and days do not repeat and whose prices all stand in a cell of the
  axes, none negative: removing an axis value or a day takes its prices along.
\<close>

theorem grid_edits_ok:
  assumes "grid_ok g"
  shows "grid_ok (foldl apply_edit g es) \<and>
    (\<forall>(k, p) \<in> set (g_prices (foldl apply_edit g es)). is_cell (foldl apply_edit g es) k \<and> 0 \<le> p)"
proof -
  have "grid_ok (foldl apply_edit g es)"
    using assms by (induction es arbitrary: g) (simp_all add: apply_edit_ok)
  then show ?thesis using grid_okD(6) by blast
qed

definition empty_grid :: price_grid where
  "empty_grid = \<lparr> g_type_label = [], g_network_label = [], g_types = [], g_networks = [], g_days = [],
     g_day_labels = [], g_prices = [], g_from_formula = False \<rparr>"

lemma grid_edits_ok_witness:
  "let es = [AddValue TypeAxis \<lparr> av_code = js ''HTTP'', av_label = [] \<rparr>,
             AddValue NetworkAxis \<lparr> av_code = js ''vnpt'', av_label = [] \<rparr>, AddDay (Fin 30),
             SetPrice (cellKey (js ''HTTP'') (js ''vnpt'') 30) (Some 500)]
   in grid_ok (foldl apply_edit empty_grid es)"
proof -
  have "grid_ok empty_grid" by (simp add: grid_ok_def empty_grid_def axis_ok_def)
  from grid_edits_ok [OF this] show ?thesis unfolding Let_def by blast
qed

section \<open>Floors and margins\<close>

lemma roundUp_ge:
  assumes "of_int (js_round (x * 100)) = x * 100"
  shows "x \<le> of_int (roundUp x)" "of_int (roundUp x) < x + of_int (roundStep x)"
proof -
  have pos: "(0::rat) < of_int (roundStep x)" by (simp add: roundStep_def)
  let ?c = "\<lceil>x / of_int (roundStep x)\<rceil>"
  have up: "roundUp x = ?c * roundStep x" using assms by (simp add: roundUp_def)
  have "x / of_int (roundStep x) \<le> of_int ?c" by (rule le_of_int_ceiling)
  then show "x \<le> of_int (roundUp x)" unfolding up of_int_mult pos_divide_le_eq [OF pos, symmetric] .
  have "of_int ?c < x / of_int (roundStep x) + 1" by linarith
  then have "of_int ?c * of_int (roundStep x) < (x / of_int (roundStep x) + 1) * of_int (roundStep x)"
    using pos by (rule mult_strict_right_mono)
  then show "of_int (roundUp x) < x + of_int (roundStep x)" unfolding up using pos by (simp add: distrib_right)
qed

text \<open>A whole cost with a whole percentage has no more than two decimals, so the rounding before the step is exact.\<close>

lemma margin_cents: "of_int (js_round (of_int c * (1 + of_int p / 100) * 100)) = (of_int c * (1 + of_int p / 100) * 100 :: rat)"
proof -
  have "of_int c * (1 + of_int p / 100) * 100 = (of_int (c * (100 + p)) :: rat)" by (simp add: field_simps)
  then show ?thesis by (simp only: js_round_of_int)
qed

lemma map_of_keyed: "map_of (map (\<lambda>(k, v). (k, f k v)) m) key = map_option (f key) (map_of m key)"
  by (induction m) auto

text \<open>
  Prices put at a margin are accepted.  With whole costs and percentages, after
  the editor prices every sold cell at a margin not below the source's minimum, no cell is below its
  floor, and each price is less than one rounding step above the exact one.
\<close>

theorem margin_prices_accepted:
  assumes "0 \<le> pct" "minMargin \<le> pct" "\<forall>key c. cost_of costs key = Some c \<longrightarrow> c \<in> \<int>"
  shows "cellState (priceToMargin grid (Fin (of_int pct)) costs) key costs (of_int minMargin) \<noteq> CellBelowFloor \<and>
    (case (map_of (g_prices (priceToMargin grid (Fin (of_int pct)) costs)) key, cost_of costs key) of
       (Some price, Some c) \<Rightarrow> 0 < c \<longrightarrow>
          c * (1 + of_int pct / 100) \<le> of_int price \<and>
          of_int price < c * (1 + of_int pct / 100) + of_int (roundStep (c * (1 + of_int pct / 100)))
     | _ \<Rightarrow> True)"
proof -
  let ?g = "priceToMargin grid (Fin (of_int pct)) costs"
  have get: "map_of (g_prices ?g) key = map_option (\<lambda>price.
      case cost_of costs key of
        Some cost \<Rightarrow> if 0 < cost then roundUp (cost * (1 + of_int pct / 100)) else price | None \<Rightarrow> price)
      (map_of (g_prices grid) key)"
    using assms(1) by (simp add: priceToMargin_def map_of_keyed)
  show ?thesis
  proof (cases "\<exists>price c. map_of (g_prices grid) key = Some price \<and> cost_of costs key = Some c \<and> 0 < c")
    case True
    then obtain price c where pc: "map_of (g_prices grid) key = Some price" "cost_of costs key = Some c" "0 < c" by blast
    then obtain i where i: "c = of_int i" using assms(3) Ints_cases by blast
    let ?x = "c * (1 + of_int pct / 100)"
    note up = roundUp_ge [OF margin_cents [of i pct]]
    have "c * (1 + of_int minMargin / 100) \<le> ?x" using pc(3) assms(2) by (simp add: divide_right_mono)
    then have "\<not> of_int (roundUp ?x) < c * (1 + of_int minMargin / 100)" using up(1) i by simp
    then show ?thesis using get pc up i by (simp add: cellState_def Let_def minimumPrice_def)
  next
    case False
    then show ?thesis using get
      by (auto simp: cellState_def Let_def minimumPrice_def split: option.splits)
  qed
qed

lemma margin_prices_accepted_witness:
  "let k = cellKey (js ''HTTP'') (js ''vnpt'') 30;
       g = empty_grid \<lparr> g_prices := [(k, 1)] \<rparr>; costs = [(k, \<lparr> cc_cost = Some 1000, cc_supported = True \<rparr>)]
   in cellState (priceToMargin g (Fin (of_int 20)) costs) k costs (of_int 15) \<noteq> CellBelowFloor"
proof -
  define k where "k = cellKey (js ''HTTP'') (js ''vnpt'') 30"
  have "\<forall>key c. cost_of [(k, \<lparr> cc_cost = Some 1000, cc_supported = True \<rparr>)] key = Some c \<longrightarrow> c \<in> \<int>"
    by (auto simp: cost_of_def)
  from margin_prices_accepted [OF _ _ this, of 20 15 "empty_grid \<lparr> g_prices := [(k, 1)] \<rparr>" k]
  show ?thesis unfolding Let_def k_def [symmetric] by simp
qed

section \<open>The summary\<close>

text \<open>How a summary grows over a number of cells, some of which a buyer can choose.\<close>

definition summary_rel :: "grid_summary \<Rightarrow> grid_summary \<Rightarrow> nat \<Rightarrow> nat \<Rightarrow> bool" where
  "summary_rel s s' cells chosen \<longleftrightarrow>
     length (gs_sold s') + gs_empty s' + gs_unsupported s' + gs_unpriced s' =
       length (gs_sold s) + gs_empty s + gs_unsupported s + gs_unpriced s + cells \<and>
     gs_below_floor s' + length (gs_sold s) \<le> length (gs_sold s') + gs_below_floor s \<and>
     length (gs_margins s') + length (gs_sold s) \<le> length (gs_sold s') + length (gs_margins s) \<and>
     (list_all (\<lambda>p. 0 < p) (gs_sold s) \<longrightarrow> list_all (\<lambda>p. 0 < p) (gs_sold s')) \<and>
     length (gs_sold s') \<le> length (gs_sold s) + chosen \<and>
     chosen + length (gs_sold s) + gs_unsupported s \<le> length (gs_sold s') + gs_unsupported s'"

definition cell_choice :: "price_grid \<Rightarrow> cell \<Rightarrow> (jstr \<times> jstr \<times> int) list" where
  "cell_choice grid c =
     (case map_of (g_prices grid) (c_key c) of
        Some price \<Rightarrow> if 0 < price then [(c_key c, choice_label grid c, price)] else []
      | None \<Rightarrow> [])"

lemma summary_rel_trans:
  "summary_rel a b m x \<Longrightarrow> summary_rel b c n y \<Longrightarrow> summary_rel a c (m + n) (x + y)"
  by (auto simp: summary_rel_def)

lemma summary_rel_step: "summary_rel s (summary_step grid costs m s c) 1 (length (cell_choice grid c))"
proof (cases "map_of (g_prices grid) (c_key c)")
  case None
  then have "cellState grid (c_key c) costs m \<in> {CellUnsupported, CellOff}"
    by (simp add: cellState_def Let_def)
  then show ?thesis using None by (auto simp: summary_rel_def summary_step_def Let_def cell_choice_def)
next
  case (Some price)
  have st: "cellState grid (c_key c) costs m \<noteq> CellOff"
      "cellState grid (c_key c) costs m = CellEmpty \<Longrightarrow> price \<le> 0"
      "cellState grid (c_key c) costs m \<in> {CellBelowFloor, CellOk} \<Longrightarrow> 0 < price"
    using Some by (auto simp: cellState_def Let_def split: if_splits option.splits)
  show ?thesis
  proof (cases "cellState grid (c_key c) costs m")
    case CellEmpty
    then show ?thesis using Some st(2) by (simp add: summary_rel_def summary_step_def Let_def cell_choice_def)
  qed (use Some st in \<open>simp_all add: summary_rel_def summary_step_def Let_def cell_choice_def split: option.split\<close>)
qed

lemma summary_fold:
  "summary_rel s (foldl (summary_step grid costs m) s cs) (length cs) (length (concat (map (cell_choice grid) cs)))"
proof (induction cs arbitrary: s)
  case (Cons c cs)
  from summary_rel_trans [OF summary_rel_step [of s grid costs m c] Cons.IH] show ?case by simp
qed (simp add: summary_rel_def)

text \<open>
  The summary counts every cell once: sold, closed, priced but not buyable, and
  open without a price make up the table; the cells below their floor and the known margins are among
  the sold ones; and what a buyer can choose is every sold cell, plus at most the priced cells the source
  cannot serve.
\<close>

theorem summary_partition:
  "let s = summarize grid costs minMarginPct in
     length (gs_sold s) + gs_empty s + gs_unsupported s + gs_unpriced s = length (allCells grid) \<and>
     gs_below_floor s \<le> length (gs_sold s) \<and> length (gs_margins s) \<le> length (gs_sold s) \<and>
     list_all (\<lambda>p. 0 < p) (gs_sold s) \<and>
     length (gs_sold s) \<le> length (buyerChoices grid) \<and>
     length (buyerChoices grid) \<le> length (gs_sold s) + gs_unsupported s"
proof -
  let ?start = "\<lparr> gs_empty = 0, gs_below_floor = 0, gs_unsupported = 0, gs_unpriced = 0, gs_sold = [], gs_margins = [] \<rparr>"
  have "summary_rel ?start (summarize grid costs minMarginPct) (length (allCells grid)) (length (buyerChoices grid))"
    unfolding summarize_def buyerChoices_def cell_choice_def [symmetric] by (rule summary_fold)
  then show ?thesis by (simp add: summary_rel_def Let_def)
qed

section \<open>Saving and loading\<close>

lemma spread_append:
  "distinct (map fst (m @ es)) \<Longrightarrow> spread m es = m @ es"
proof (induction es arbitrary: m)
  case (Cons e es)
  then have "fst e \<notin> fst ` set m" by auto
  then have "AList.update (fst e) (snd e) m = m @ [e]" by (simp add: update_fresh)
  then show ?case using Cons by (simp add: spread_def case_prod_unfold)
qed (simp add: spread_def)

lemma plan_fold:
  fixes prices :: "(jstr \<times> int) list"
  defines "step \<equiv> \<lambda>plan c. case map_of prices (c_key c) of
    Some price \<Rightarrow> if 0 < price then AList.update (c_key c) price plan else plan | None \<Rightarrow> plan"
  shows "(distinct (map fst plan) \<longrightarrow> distinct (map fst (foldl step plan cs))) \<and>
    map_of (foldl step plan cs) k =
      (if k \<in> c_key ` set cs \<and> (\<exists>p. map_of prices k = Some p \<and> 0 < p) then map_of prices k else map_of plan k)"
proof (induction cs arbitrary: plan)
  case (Cons c cs)
  from Cons [of "step plan c"] show ?case
    by (auto simp: step_def distinct_update update_conv' split: option.splits if_splits)
qed simp

lemma plan_cells:
  assumes "grid_ok grid"
  shows "distinct (map fst (plan_cells grid))"
    "map_of (plan_cells grid) k =
      (case map_of (g_prices grid) k of Some p \<Rightarrow> if 0 < p then Some p else None | None \<Rightarrow> None)"
proof -
  have "is_cell grid k" if "map_of (g_prices grid) k = Some p" for p
    using grid_okD(6) [OF assms map_of_SomeD [OF that]] by blast
  then show "distinct (map fst (plan_cells grid))"
    "map_of (plan_cells grid) k =
      (case map_of (g_prices grid) k of Some p \<Rightarrow> if 0 < p then Some p else None | None \<Rightarrow> None)"
    using plan_fold [of "[]" "g_prices grid" "allCells grid" k]
    by (auto simp: plan_cells_def is_cell_def split: option.splits)
qed

lemma plan_cells_mem:
  assumes "grid_ok grid" "(k, p) \<in> set (plan_cells grid)"
  shows "is_cell grid k \<and> 0 < p"
proof -
  have "map_of (plan_cells grid) k = Some p" using plan_cells(1) assms by (simp add: map_of_is_SomeI)
  then have "map_of (g_prices grid) k = Some p \<and> 0 < p"
    using plan_cells(2) [OF assms(1), of k] by (auto split: option.splits if_splits)
  then show ?thesis using grid_okD(6) [OF assms(1) map_of_SomeD] by blast
qed

lemma plan_entries:
  assumes "grid_ok grid" "set es \<subseteq> {(k, p). is_cell grid k \<and> 0 < p}"
  shows "foldl plan_entry out (map (\<lambda>(k, v). (k, JNum (Fin (of_int v)))) es) = spread out es"
  using assms(2)
proof (induction es arbitrary: out)
  case (Cons e es)
  obtain k p where e: "e = (k, p)" "is_cell grid k" "0 < p" using Cons.prems by (cases e) auto
  from is_cell_parse [OF assms(1) e(2)] obtain t n d where "parseKey k = Some (t, n, d)" "k = cellKey t n d"
    by blast
  then have "plan_entry out (k, JNum (Fin (of_int p))) = AList.update k p out"
    using e(3) by (simp add: plan_entry_def as_integer_def)
  then show ?case using Cons e by (simp add: spread_def)
qed (simp add: spread_def)

lemma saved_fields:
  "map_of (paramsFromGrid grid base) (js ''plan_prices'') =
     Some (JObj (map (\<lambda>(k, v). (k, JNum (Fin (of_int v)))) (plan_cells grid)))"
  "map_of (paramsFromGrid grid base) (js ''type_display'') = Some (JObj (display_entries (g_types grid)))"
  "map_of (paramsFromGrid grid base) (js ''network_display'') = Some (JObj (display_entries (g_networks grid)))"
  "key \<in> set FORMULA_KEYS \<Longrightarrow> map_of (paramsFromGrid grid base) key = None"
  by (auto simp: paramsFromGrid_def Let_def update_conv' delete_conv' js_eq_iff FORMULA_KEYS_def simp del: js_Cons)

lemma saved_plan:
  assumes "grid_ok grid"
  shows "planPrices (paramsFromGrid grid base) = plan_cells grid"
proof -
  have "set (plan_cells grid) \<subseteq> {(k, p). is_cell grid k \<and> 0 < p}"
    using plan_cells_mem [OF assms] by auto
  from plan_entries [OF assms this, of "[]"] show ?thesis
    using plan_cells(1) [OF assms] by (simp add: planPrices_def saved_fields spread_append del: js_Cons)
qed

definition saved_label :: "axis_value \<Rightarrow> jstr" where
  "saved_label v = or_default (js_trim (av_label v)) (av_code v)"

lemma saved_label_text: "code_ok (av_code v) \<Longrightarrow> js_trim (saved_label v) \<noteq> []"
  by (auto simp: saved_label_def or_default_def code_ok_def trimmed_js_trim_id)

lemma saved_display:
  assumes "axis_ok vs"
  shows "stringRecord (Some (JObj (display_entries vs))) = map (\<lambda>v. (av_code v, saved_label v)) vs"
proof -
  have "map fst (map (\<lambda>v. (av_code v, JStr (saved_label v))) vs) = map av_code vs" by (induction vs) auto
  then have "distinct (map fst ([] @ map (\<lambda>v. (av_code v, JStr (saved_label v))) vs))"
    using assms by (simp only: append_Nil axis_ok_def)
  from spread_append [OF this] have entries: "display_entries vs = map (\<lambda>v. (av_code v, JStr (saved_label v))) vs"
    by (simp add: display_entries_def saved_label_def)
  have "concat (map string_entry (map (\<lambda>v. (av_code v, JStr (saved_label v))) vs)) = map (\<lambda>v. (av_code v, saved_label v)) vs"
    using assms unfolding axis_ok_def by (induction vs) (auto simp: saved_label_text)
  then show ?thesis by (simp only: stringRecord_def json_record.simps entries)
qed

text \<open>Codes read back from keys and labels, and the axis made of them.\<close>

lemma loaded_axis:
  assumes "axis_ok vs" "set codes \<subseteq> av_code ` set vs"
    and codes: "codes' = uniqueInOrder [[], codes, map fst (map (\<lambda>v. (av_code v, saved_label v)) vs)]"
  shows "set (map (\<lambda>code. \<lparr> av_code = code,
      av_label = (case map_of (map (\<lambda>v. (av_code v, saved_label v)) vs) code of Some l \<Rightarrow> l | None \<Rightarrow> f code) \<rparr>) codes') =
    (\<lambda>v. v \<lparr> av_label := saved_label v \<rparr>) ` set vs"
proof -
  have ok: "code_ok c" if "c \<in> av_code ` set vs" for c using code_ok_of [OF assms(1) that] .
  then have trim: "js_trim c = c" "c \<noteq> []" if "c \<in> av_code ` set vs" for c
    using that by (auto simp: code_ok_def trimmed_js_trim_id)
  have "set codes' = {c. c \<in> js_trim ` (set codes \<union> av_code ` set vs) \<and> c \<noteq> []}"
    unfolding codes uniqueInOrder_def by (auto simp: image_iff)
  also have "\<dots> = {c \<in> js_trim ` av_code ` set vs. c \<noteq> []}"
    using assms(2) by (simp add: Un_absorb1)
  also have "js_trim ` av_code ` set vs = (\<lambda>c. c) ` av_code ` set vs"
    using trim(1) by (rule image_cong [OF refl])
  also have "{c \<in> (\<lambda>c. c) ` av_code ` set vs. c \<noteq> []} = av_code ` set vs" using trim(2) by blast
  finally have set: "set codes' = av_code ` set vs" .
  have get: "map_of (map (\<lambda>v. (av_code v, saved_label v)) vs) (av_code v) = Some (saved_label v)" if "v \<in> set vs" for v
  proof (rule map_of_is_SomeI)
    have "map fst (map (\<lambda>v. (av_code v, saved_label v)) vs) = map av_code vs" by (induction vs) auto
    then show "distinct (map fst (map (\<lambda>v. (av_code v, saved_label v)) vs))"
      using assms(1) by (simp only: axis_ok_def)
  qed (use that in auto)
  have rec: "\<lparr> av_code = av_code v, av_label = saved_label v \<rparr> = v \<lparr> av_label := saved_label v \<rparr>" for v :: axis_value
    by (cases v) simp
  show ?thesis unfolding set_map set image_image by (rule image_cong [OF refl]) (simp add: get rec)
qed

lemma saved_parsed:
  assumes "grid_ok g"
  shows "set (List.map_filter (parseKey \<circ> fst) (plan_cells g)) =
    {(t, n, d). t \<in> av_code ` set (g_types g) \<and> n \<in> av_code ` set (g_networks g) \<and> d \<in> set (g_days g) \<and>
       (\<exists>p. map_of (g_prices g) (cellKey t n d) = Some p \<and> 0 < p)}" (is "?L = ?R")
proof
  have price: "(k, p) \<in> set (plan_cells g) \<longleftrightarrow> map_of (g_prices g) k = Some p \<and> 0 < p" for k p
    using plan_cells(2) [OF assms, of k] map_of_eq_Some_iff [OF plan_cells(1) [OF assms], of k p]
    by (auto split: option.splits if_splits)
  have mf: "x \<in> set (List.map_filter f es) \<longleftrightarrow> (\<exists>e \<in> set es. f e = Some x)"
    for x and f :: "jstr \<times> int \<Rightarrow> (jstr \<times> jstr \<times> nat) option" and es
    unfolding List.map_filter_def set_map set_filter image_def comp_def by (cases x) (auto, metis option.sel)
  show "?L \<subseteq> ?R"
  proof
    fix x assume "x \<in> ?L"
    then obtain k p where kp: "(k, p) \<in> set (plan_cells g)" "parseKey k = Some x" by (auto simp: mf)
    then have "is_cell g k" using plan_cells_mem [OF assms] by blast
    from is_cell_parse [OF assms this] obtain t n d where c: "parseKey k = Some (t, n, d)" "k = cellKey t n d"
        "t \<in> av_code ` set (g_types g)" "n \<in> av_code ` set (g_networks g)" "d \<in> set (g_days g)"
      by blast
    have "map_of (g_prices g) (cellKey t n d) = Some p \<and> 0 < p" using price kp(1) c(2) by blast
    moreover have "x = (t, n, d)" using kp(2) c(1) by simp
    ultimately show "x \<in> ?R" using c(3-5) by blast
  qed
  show "?R \<subseteq> ?L"
  proof
    fix x assume "x \<in> ?R"
    then obtain t n d p where x: "x = (t, n, d)" "t \<in> av_code ` set (g_types g)" "n \<in> av_code ` set (g_networks g)"
        "d \<in> set (g_days g)" "map_of (g_prices g) (cellKey t n d) = Some p" "0 < p"
      by auto
    then have "parseKey (cellKey t n d) = Some (t, n, d)"
      using grid_okD(1,2,4) [OF assms] code_ok_of by (intro parseKey_cellKey) (auto simp: list_all_iff)
    moreover have "(cellKey t n d, p) \<in> set (plan_cells g)" using x price by blast
    ultimately show "x \<in> ?L" using x(1) by (force simp: mf)
  qed
qed

text \<open>
  C16: Saving a price table and loading it again.  A well-formed table with some price
  comes back from its parameters, whatever else they held and whatever labels are laid over them, with
  exactly its positive prices, with the same axis values under their trimmed labels (the code when the
  label is blank), and with the days that have a price; it is no formula table any more.
\<close>

theorem grid_save_roundtrip:
  assumes ok: "grid_ok g" and some: "\<exists>k p. map_of (g_prices g) k = Some p \<and> 0 < p"
  shows "let g' = gridFromParams up (Some (paramsFromGrid g base)) overlays in
    map_of (g_prices g') = (\<lambda>k. case map_of (g_prices g) k of Some p \<Rightarrow> if 0 < p then Some p else None | None \<Rightarrow> None) \<and>
    set (g_types g') = (\<lambda>v. v \<lparr> av_label := saved_label v \<rparr>) ` set (g_types g) \<and>
    set (g_networks g') = (\<lambda>v. v \<lparr> av_label := saved_label v \<rparr>) ` set (g_networks g) \<and>
    set (g_days g') = {d \<in> set (g_days g). \<exists>t \<in> set (g_types g). \<exists>n \<in> set (g_networks g). \<exists>p > 0.
        map_of (g_prices g) (cellKey (av_code t) (av_code n) d) = Some p} \<and>
    sorted (g_days g') \<and> \<not> g_from_formula g'"
proof -
  define p where "p = paramsFromGrid g base"
  have keys: "map_of p (js ''type_mult'') = None" "map_of p (js ''network_mult'') = None"
      "map_of p (js ''duration_options'') = None"
    unfolding p_def by (rule saved_fields(4); simp add: FORMULA_KEYS_def del: js_Cons)+
  note plan = saved_plan [OF ok, of base, folded p_def]
  have ne: "plan_cells g \<noteq> []"
  proof
    assume "plan_cells g = []"
    then have "map_of (plan_cells g) k = None" for k by simp
    with some plan_cells(2) [OF ok] show False by (metis (mono_tags, lifting) option.case(2) option.distinct(1))
  qed
  let ?parsed = "List.map_filter (parseKey \<circ> fst) (plan_cells g)"
  have disp: "layered p [] (js ''type_display'') = map (\<lambda>v. (av_code v, saved_label v)) (g_types g)"
      "layered p [] (js ''network_display'') = map (\<lambda>v. (av_code v, saved_label v)) (g_networks g)"
    using saved_display grid_okD(1,2) [OF ok] by (simp_all add: layered_def p_def saved_fields del: js_Cons)
  have codes: "set (map fst ?parsed) \<subseteq> av_code ` set (g_types g)" "set (map (fst \<circ> snd) ?parsed) \<subseteq> av_code ` set (g_networks g)"
    using saved_parsed [OF ok] by auto
  define g' where "g' = gridFromParams up (Some p) overlays"
  have fields: "g_prices g' = plan_cells g" "\<not> g_from_formula g'"
      "g_days g' = sort (uniq (map (snd \<circ> snd) ?parsed))"
    using ne plan keys by (simp_all add: g'_def gridFromParams_def Let_def del: js_Cons)
  have types: "set (g_types g') = (\<lambda>v. v \<lparr> av_label := saved_label v \<rparr>) ` set (g_types g)"
    using loaded_axis [OF grid_okD(1) [OF ok] codes(1) refl, where f = "humanize up"] ne plan keys disp
    by (simp only: g'_def gridFromParams_def Let_def option.case if_False if_True simp_thms list.map json_record.simps price_grid.simps)
  have nets: "set (g_networks g') = (\<lambda>v. v \<lparr> av_label := saved_label v \<rparr>) ` set (g_networks g)"
    using loaded_axis [OF grid_okD(2) [OF ok] codes(2) refl, where f = "\<lambda>c. c"] ne plan keys disp
    by (simp only: g'_def gridFromParams_def Let_def option.case if_False if_True simp_thms list.map json_record.simps price_grid.simps)
  have "set (g_days g') = (snd \<circ> snd) ` set ?parsed" by (simp add: fields image_comp)
  also have "\<dots> = {d \<in> set (g_days g). \<exists>t \<in> set (g_types g). \<exists>n \<in> set (g_networks g). \<exists>p > 0.
        map_of (g_prices g) (cellKey (av_code t) (av_code n) d) = Some p}"
    unfolding saved_parsed [OF ok] by force
  finally have days: "set (g_days g') = \<dots>" .
  show ?thesis
    unfolding Let_def p_def [symmetric] g'_def [symmetric]
    using types nets days fields plan_cells(2) [OF ok] by auto
qed

lemma distinct_singleton_set: "distinct xs \<Longrightarrow> set xs = {x} \<Longrightarrow> xs = [x]"
  by (metis distinct.simps(2) distinct_length_2_or_more empty_set insert_not_empty list.exhaust list.set_intros(1) list.set_intros(2) singletonD)

lemma grid_save_roundtrip_witness:
  "let k = cellKey (js ''HTTP'') (js ''vnpt'') 30;
       g = empty_grid \<lparr> g_types := [\<lparr> av_code = js ''HTTP'', av_label = [] \<rparr>],
             g_networks := [\<lparr> av_code = js ''vnpt'', av_label = js '' VNPT '' \<rparr>], g_days := [7, 30], g_prices := [(k, 500)] \<rparr>;
       g' = gridFromParams (\<lambda>c. [upper_unit c]) (Some (paramsFromGrid g None)) []
   in map_of (g_prices g') k = Some 500 \<and> set (g_days g') = {30} \<and>
      g_networks g' = [\<lparr> av_code = js ''vnpt'', av_label = js ''VNPT'' \<rparr>]"
proof -
  define k where "k = cellKey (js ''HTTP'') (js ''vnpt'') 30"
  define g where "g = empty_grid \<lparr> g_types := [\<lparr> av_code = js ''HTTP'', av_label = [] \<rparr>],
             g_networks := [\<lparr> av_code = js ''vnpt'', av_label = js '' VNPT '' \<rparr>], g_days := [7, 30], g_prices := [(k, 500)] \<rparr>"
  have codes: "code_ok (js ''HTTP'')" "code_ok (js ''vnpt'')"
    by (simp_all add: code_ok_def trimmed_def js_space_def)
  have days: "day_ok 7" "day_ok 30" by (simp_all add: day_ok_def overflow_bound_def)
  have ok: "grid_ok g"
    using codes days by (simp add: grid_ok_def g_def axis_ok_def empty_grid_def is_cell_iff k_def del: js_Cons)
  have priced: "\<exists>k p. map_of (g_prices g) k = Some p \<and> 0 < p" by (simp add: g_def)
  note law = grid_save_roundtrip [OF ok priced, of "\<lambda>c. [upper_unit c]" None "[]", unfolded Let_def]
  let ?g' = "gridFromParams (\<lambda>c. [upper_unit c]) (Some (paramsFromGrid g None)) []"
  have lab: "saved_label \<lparr> av_code = js ''vnpt'', av_label = js '' VNPT '' \<rparr> = js ''VNPT''"
    by code_simp
  have "map_of (g_prices ?g') k = Some 500" using law by (simp add: g_def)
  moreover have "set (g_days ?g') = {30}"
  proof -
    have "cellKey (js ''HTTP'') (js ''vnpt'') 7 \<noteq> k"
      using codes by (simp add: k_def cellKey_inj code_ok_def del: js_Cons)
    then show ?thesis using law by (auto simp: g_def k_def simp del: js_Cons)
  qed
  moreover have "g_networks ?g' = [\<lparr> av_code = js ''vnpt'', av_label = js ''VNPT'' \<rparr>]"
  proof -
    have "set (g_networks ?g') = {\<lparr> av_code = js ''vnpt'', av_label = js ''VNPT'' \<rparr>}"
      using law lab by (simp add: g_def del: js_Cons)
    moreover have "distinct (g_networks ?g')"
      by (auto simp: gridFromParams_def Let_def distinct_map uniqueInOrder_def intro!: inj_onI)
    ultimately show ?thesis by (metis distinct_singleton_set)
  qed
  ultimately show ?thesis unfolding Let_def k_def [symmetric] g_def [symmetric] by blast
qed

end
