(* ===== verification/Bulk_Runs.thy ===== *)
theory Bulk_Runs
  imports Prelude
begin

text \<open>
  The two schedulers of the buyer's proxy console (features/buyer-proxies/model.ts): \<open>runBulk\<close>, which
  sends a batch of requests with a bounded number in flight, and \<open>keyedSerial\<close>, which runs the tasks of
  one key one after another.  Requests answer in any order, so each is a step relation; the code
  between two awaits is one step.
\<close>

section \<open>Bounded concurrency\<close>

datatype skip_reason = Cooldown | Unsupported | ExpiredLine | FailedLine

datatype line_outcome = LineOk | Skip skip_reason

text \<open>
  \<open>b_busy\<close> are the items whose request is in flight, one per lane that still runs, and \<open>b_started\<close> the
  items a request was sent for.  A lane that finds no further item ends.
\<close>

record bulk =
  b_next :: nat
  b_outcomes :: "line_outcome option list"
  b_busy :: "nat list"
  b_started :: "nat list"
  b_done :: nat

definition b_record :: "nat \<Rightarrow> line_outcome \<Rightarrow> bulk \<Rightarrow> bulk" where
  "b_record index o' s = s \<lparr> b_outcomes := (b_outcomes s)[index := Some o'], b_done := b_done s + 1 \<rparr>"

text \<open>A lane's loop up to its next await: items the check skips need none.\<close>

function lane_turn :: "('i \<Rightarrow> skip_reason option) \<Rightarrow> 'i list \<Rightarrow> bulk \<Rightarrow> bulk" where
  "lane_turn precheck its s =
     (if b_next s < length its
      then let index = b_next s; s1 = s \<lparr> b_next := index + 1 \<rparr>
           in case precheck (its ! index) of
                Some reason \<Rightarrow> lane_turn precheck its (b_record index (Skip reason) s1)
              | None \<Rightarrow> s1 \<lparr> b_busy := b_busy s1 @ [index], b_started := b_started s1 @ [index] \<rparr>
      else s)"
  by pat_completeness auto
termination
  by (relation "measure (\<lambda>(precheck, its, s). length its - b_next s)") (auto simp: b_record_def)

declare lane_turn.simps [simp del]

text \<open>The answer to the request for an item; a worker that throws counts as failed.\<close>

definition b_settle :: "nat \<Rightarrow> line_outcome option \<Rightarrow> bulk \<Rightarrow> bulk" where
  "b_settle index answer s =
     b_record index (case answer of None \<Rightarrow> Skip FailedLine | Some o' \<Rightarrow> o') (s \<lparr> b_busy := remove1 index (b_busy s) \<rparr>)"

definition lane_count :: "int option \<Rightarrow> nat \<Rightarrow> nat" where
  "lane_count concurrency n = nat (max 1 (min (case concurrency of None \<Rightarrow> 4 | Some c \<Rightarrow> c) (int n)))"

definition b_start :: "'i list \<Rightarrow> bulk" where
  "b_start its = \<lparr> b_next = 0, b_outcomes = replicate (length its) None, b_busy = [], b_started = [], b_done = 0 \<rparr>"

inductive bulk_run :: "('i \<Rightarrow> skip_reason option) \<Rightarrow> 'i list \<Rightarrow> int option \<Rightarrow> bulk \<Rightarrow> bool"
  for precheck its concurrency where
  bulk_init: "bulk_run precheck its concurrency
     (((lane_turn precheck its) ^^ lane_count concurrency (length its)) (b_start its))"
| bulk_answer: "bulk_run precheck its concurrency s \<Longrightarrow> index \<in> set (b_busy s) \<Longrightarrow>
     bulk_run precheck its concurrency (lane_turn precheck its (b_settle index answer s))"

record bulk_result =
  br_ok :: "jstr list"
  br_skipped :: "(jstr \<times> skip_reason) list"

definition bulk_outcome :: "('i \<Rightarrow> jstr) \<Rightarrow> 'i list \<Rightarrow> line_outcome list \<Rightarrow> bulk_result" where
  "bulk_outcome id_of its outcomes =
     foldl (\<lambda>r (item, o'). case o' of
              LineOk \<Rightarrow> r \<lparr> br_ok := br_ok r @ [id_of item] \<rparr>
            | Skip reason \<Rightarrow> r \<lparr> br_skipped := br_skipped r @ [(id_of item, reason)] \<rparr>)
       \<lparr> br_ok = [], br_skipped = [] \<rparr> (zip its outcomes)"

record bulk_counts =
  bc_ok :: nat
  bc_skipped :: nat
  bc_cooldown :: nat
  bc_unsupported :: nat
  bc_expired :: nat
  bc_failed :: nat

definition count_reason :: "bulk_counts \<Rightarrow> jstr \<times> skip_reason \<Rightarrow> bulk_counts" where
  "count_reason c skipped =
     (case snd skipped of
        Cooldown \<Rightarrow> c \<lparr> bc_cooldown := bc_cooldown c + 1 \<rparr>
      | Unsupported \<Rightarrow> c \<lparr> bc_unsupported := bc_unsupported c + 1 \<rparr>
      | ExpiredLine \<Rightarrow> c \<lparr> bc_expired := bc_expired c + 1 \<rparr>
      | FailedLine \<Rightarrow> c \<lparr> bc_failed := bc_failed c + 1 \<rparr>)"

definition bulkCounts :: "bulk_result \<Rightarrow> bulk_counts" where
  "bulkCounts r =
     foldl count_reason
       \<lparr> bc_ok = length (br_ok r), bc_skipped = length (br_skipped r), bc_cooldown = 0, bc_unsupported = 0,
         bc_expired = 0, bc_failed = 0 \<rparr> (br_skipped r)"

section \<open>The invariant of a bulk run\<close>

text \<open>
  Between two steps: the items before \<open>b_next\<close> are taken, each either in flight or with its outcome;
  requests were sent for exactly the taken items the check lets through, in order.
\<close>

definition bulk_ok :: "('i \<Rightarrow> skip_reason option) \<Rightarrow> 'i list \<Rightarrow> bulk \<Rightarrow> bool" where
  "bulk_ok precheck its s \<longleftrightarrow>
     b_next s \<le> length its \<and> length (b_outcomes s) = length its \<and> distinct (b_busy s) \<and>
     b_started s = filter (\<lambda>i. precheck (its ! i) = None) [0..<b_next s] \<and>
     set (b_busy s) \<subseteq> set (b_started s) \<and>
     (\<forall>i < length its. (b_outcomes s ! i = None) = (b_next s \<le> i \<or> i \<in> set (b_busy s))) \<and>
     (\<forall>i < b_next s. \<forall>r. precheck (its ! i) = Some r \<longrightarrow> b_outcomes s ! i = Some (Skip r)) \<and>
     b_done s + length (b_busy s) = b_next s"

lemma bulk_okI:
  assumes "b_next s \<le> length its" "length (b_outcomes s) = length its" "distinct (b_busy s)"
    "b_started s = filter (\<lambda>i. precheck (its ! i) = None) [0..<b_next s]" "set (b_busy s) \<subseteq> set (b_started s)"
    "\<And>i. i < length its \<Longrightarrow> (b_outcomes s ! i = None) = (b_next s \<le> i \<or> i \<in> set (b_busy s))"
    "\<And>i r. i < b_next s \<Longrightarrow> precheck (its ! i) = Some r \<Longrightarrow> b_outcomes s ! i = Some (Skip r)"
    "b_done s + length (b_busy s) = b_next s"
  shows "bulk_ok precheck its s"
  using assms by (simp add: bulk_ok_def)

lemma bulk_okD:
  assumes "bulk_ok precheck its s"
  shows "b_next s \<le> length its" "length (b_outcomes s) = length its" "distinct (b_busy s)"
    "b_started s = filter (\<lambda>i. precheck (its ! i) = None) [0..<b_next s]" "set (b_busy s) \<subseteq> set (b_started s)"
    "i < length its \<Longrightarrow> (b_outcomes s ! i = None) = (b_next s \<le> i \<or> i \<in> set (b_busy s))"
    "i < b_next s \<Longrightarrow> precheck (its ! i) = Some r \<Longrightarrow> b_outcomes s ! i = Some (Skip r)"
    "b_done s + length (b_busy s) = b_next s"
  using assms unfolding bulk_ok_def by blast+

lemma busy_bound: "bulk_ok precheck its s \<Longrightarrow> i \<in> set (b_busy s) \<Longrightarrow> i < b_next s \<and> i < length its \<and> precheck (its ! i) = None"
  using bulk_okD(1,4,5) [of precheck its s] by (auto simp: subset_iff)

lemma bulk_ok_skip:
  assumes "bulk_ok precheck its s" "b_next s < length its" "precheck (its ! b_next s) = Some r"
  shows "bulk_ok precheck its (b_record (b_next s) (Skip r) (s \<lparr> b_next := b_next s + 1 \<rparr>))"
  using assms bulk_okD [OF assms(1)] busy_bound [OF assms(1)]
  by (intro bulk_okI) (auto simp: b_record_def nth_list_update less_Suc_eq)

lemma bulk_ok_send:
  assumes "bulk_ok precheck its s" "b_next s < length its" "precheck (its ! b_next s) = None"
  shows "bulk_ok precheck its (s \<lparr> b_next := b_next s + 1, b_busy := b_busy s @ [b_next s],
                                   b_started := b_started s @ [b_next s] \<rparr>)"
  using assms bulk_okD [OF assms(1)] busy_bound [OF assms(1)]
  by (intro bulk_okI) (auto simp: less_Suc_eq)

lemma lane_turn_ok: "bulk_ok precheck its s \<Longrightarrow> bulk_ok precheck its (lane_turn precheck its s)"
proof (induction precheck its s rule: lane_turn.induct)
  case (1 precheck its s)
  show ?case
  proof (cases "b_next s < length its")
    case True
    then show ?thesis
      using 1 bulk_ok_skip [OF 1(2)] bulk_ok_send [OF 1(2)]
      by (subst lane_turn.simps) (auto simp: Let_def split: option.splits)
  qed (use 1 in \<open>simp add: lane_turn.simps [of precheck its s]\<close>)
qed

lemma settle_ok:
  assumes "bulk_ok precheck its s" "index \<in> set (b_busy s)"
  shows "bulk_ok precheck its (b_settle index answer s)"
proof -
  note b = busy_bound [OF assms]
  have "length (remove1 index (b_busy s)) + 1 = length (b_busy s)"
    using length_pos_if_in_set [OF assms(2)] assms(2) by (simp add: length_remove1)
  then show ?thesis
    using b bulk_okD [OF assms(1)] assms(2)
    by (intro bulk_okI)
      (auto simp: b_settle_def b_record_def nth_list_update)
qed

lemma lane_turn_skip:
  "b_next s < length its \<Longrightarrow> precheck (its ! b_next s) = Some r \<Longrightarrow>
   lane_turn precheck its s = lane_turn precheck its (b_record (b_next s) (Skip r) (s \<lparr> b_next := b_next s + 1 \<rparr>))"
  by (subst lane_turn.simps) (simp add: Let_def)

lemma lane_turn_end: "length its \<le> b_next s \<Longrightarrow> lane_turn precheck its s = s"
  by (subst lane_turn.simps) simp

lemma start_ok: "bulk_ok precheck its (b_start its)"
  by (intro bulk_okI) (auto simp: b_start_def)

lemma bulk_run_ok: "bulk_run precheck its concurrency s \<Longrightarrow> bulk_ok precheck its s"
proof (induction rule: bulk_run.induct)
  case bulk_init
  have "bulk_ok precheck its ((lane_turn precheck its ^^ n) (b_start its))" for n
    by (induction n) (simp_all add: start_ok lane_turn_ok)
  then show ?case .
qed (simp add: lane_turn_ok settle_ok)

text \<open>A lane's turn puts at most one item in flight, and none only when no item is left.\<close>

lemma lane_turn_busy:
  "length (b_busy (lane_turn precheck its s)) \<le> length (b_busy s) + 1 \<and>
   (length (b_busy (lane_turn precheck its s)) = length (b_busy s) + 1 \<or> length its \<le> b_next (lane_turn precheck its s)) \<and>
   b_next s \<le> b_next (lane_turn precheck its s) \<and>
   2 * (length its - b_next (lane_turn precheck its s)) + length (b_busy (lane_turn precheck its s)) \<le>
     2 * (length its - b_next s) + length (b_busy s) \<and>
   length (b_busy s) \<le> length (b_busy (lane_turn precheck its s))"
proof (induction precheck its s rule: lane_turn.induct)
  case (1 precheck its s)
  show ?case
  proof (cases "b_next s < length its")
    case True
    show ?thesis
    proof (cases "precheck (its ! b_next s)")
      case None
      with True show ?thesis by (simp add: lane_turn.simps [of precheck its s] Let_def)
    next
      case (Some r)
      let ?s = "b_record (b_next s) (Skip r) (s \<lparr> b_next := b_next s + 1 \<rparr>)"
      have f: "b_busy ?s = b_busy s" "b_next ?s = b_next s + 1" by (simp_all add: b_record_def)
      have eq: "lane_turn precheck its s = lane_turn precheck its ?s"
        using True Some by (rule lane_turn_skip)
      show ?thesis using 1 [OF True refl refl Some] True unfolding eq f by linarith
    qed
  qed (simp add: lane_turn.simps [of precheck its s])
qed

lemma settle_measure:
  assumes "index \<in> set (b_busy s)"
  shows "length (b_busy (b_settle index answer s)) + 1 = length (b_busy s)" "b_next (b_settle index answer s) = b_next s"
  using assms length_pos_if_in_set [OF assms] by (simp_all add: b_settle_def b_record_def length_remove1)

text \<open>The lanes: never more requests in flight than lanes, and no lane idle while items are left.\<close>

lemma bulk_run_lanes:
  "bulk_run precheck its concurrency s \<Longrightarrow>
   length (b_busy s) \<le> lane_count concurrency (length its) \<and>
   (b_next s < length its \<longrightarrow> length (b_busy s) = lane_count concurrency (length its))"
proof (induction rule: bulk_run.induct)
  case bulk_init
  have "length (b_busy ((lane_turn precheck its ^^ n) (b_start its))) \<le> n \<and>
      (b_next ((lane_turn precheck its ^^ n) (b_start its)) < length its \<longrightarrow>
       length (b_busy ((lane_turn precheck its ^^ n) (b_start its))) = n)" for n
  proof (induction n)
    case (Suc n)
    then show ?case using lane_turn_busy [of precheck its "(lane_turn precheck its ^^ n) (b_start its)"] by auto
  qed (simp add: b_start_def)
  then show ?case .
next
  case (bulk_answer s index answer)
  then show ?case
    using lane_turn_busy [of precheck its "b_settle index answer s"] settle_measure [OF bulk_answer(2), of answer] by auto
qed

lemma bulk_step_decreases:
  assumes "index \<in> set (b_busy s)"
  shows "2 * (length its - b_next (lane_turn precheck its (b_settle index answer s))) +
      length (b_busy (lane_turn precheck its (b_settle index answer s))) < 2 * (length its - b_next s) + length (b_busy s)"
  using lane_turn_busy [of precheck its "b_settle index answer s"] settle_measure [OF assms, of answer] by linarith

text \<open>
  A bulk action in flight.  In whatever order the answers come, no more requests
  than lanes are in flight, as many as lanes while items are left, each answer brings the run nearer
  to its end, and every item is asked for at most once, in the order of the list, and only when the
  check lets it through.
\<close>

theorem bulk_run_bounded:
  assumes "bulk_run precheck its concurrency s"
  shows "length (b_busy s) \<le> lane_count concurrency (length its) \<and>
    (b_next s < length its \<longrightarrow> length (b_busy s) = lane_count concurrency (length its)) \<and>
    b_started s = filter (\<lambda>i. precheck (its ! i) = None) [0..<b_next s] \<and>
    (\<forall>index \<in> set (b_busy s). \<forall>answer.
       2 * (length its - b_next (lane_turn precheck its (b_settle index answer s))) +
         length (b_busy (lane_turn precheck its (b_settle index answer s))) <
       2 * (length its - b_next s) + length (b_busy s))"
  using bulk_run_lanes [OF assms] bulk_okD(4) [OF bulk_run_ok [OF assms]] bulk_step_decreases by blast

lemma fold_outcome:
  "foldl (\<lambda>r (item, o'). case o' of
              LineOk \<Rightarrow> r \<lparr> br_ok := br_ok r @ [id_of item] \<rparr>
            | Skip reason \<Rightarrow> r \<lparr> br_skipped := br_skipped r @ [(id_of item, reason)] \<rparr>) r xs =
   \<lparr> br_ok = br_ok r @ map (id_of \<circ> fst) (filter (\<lambda>(item, o'). o' = LineOk) xs),
     br_skipped = br_skipped r @
       concat (map (\<lambda>(item, o'). case o' of LineOk \<Rightarrow> [] | Skip reason \<Rightarrow> [(id_of item, reason)]) xs) \<rparr>"
proof (induction xs arbitrary: r)
  case (Cons x xs)
  obtain item o' where x: "x = (item, o')" by (cases x)
  show ?case by (cases o') (simp_all add: x Cons)
qed (cases r, simp)

text \<open>
  The result of a bulk action.  When no request is in flight any more, every item
  has its outcome: the items the check skips have its reason, progress counted each item once, and the
  result lists, in the order of the list, exactly the ids that went well and the others with their
  reasons.
\<close>

theorem bulk_run_complete:
  assumes "bulk_run precheck its concurrency s" "b_busy s = []"
  shows "None \<notin> set (b_outcomes s) \<and> b_done s = length its \<and>
    (\<forall>i < length its. case precheck (its ! i) of None \<Rightarrow> i \<in> set (b_started s) | Some r \<Rightarrow> b_outcomes s ! i = Some (Skip r)) \<and>
    (let r = bulk_outcome id_of its (map the (b_outcomes s)) in
       br_ok r = map (\<lambda>i. id_of (its ! i)) (filter (\<lambda>i. b_outcomes s ! i = Some LineOk) [0..<length its]) \<and>
       length (br_ok r) + length (br_skipped r) = length its)"
proof -
  note ok = bulk_okD [OF bulk_run_ok [OF assms(1)]]
  have pos: "0 < lane_count concurrency (length its)" by (simp add: lane_count_def)
  have all: "b_next s = length its"
    using bulk_run_lanes [OF assms(1)] pos ok(1) assms(2) by (cases "b_next s < length its") auto
  then have some: "b_outcomes s ! i \<noteq> None" if "i < length its" for i
    using ok(6) [OF that] assms(2) that by simp
  let ?xs = "zip its (map the (b_outcomes s))"
  have zip: "?xs = map (\<lambda>i. (its ! i, the (b_outcomes s ! i))) [0..<length its]"
    using ok(2) by (intro nth_equalityI) simp_all
  have result: "bulk_outcome id_of its (map the (b_outcomes s)) =
      \<lparr> br_ok = map (id_of \<circ> fst) (filter (\<lambda>(item, o'). o' = LineOk) ?xs),
        br_skipped = concat (map (\<lambda>(item, o'). case o' of LineOk \<Rightarrow> [] | Skip reason \<Rightarrow> [(id_of item, reason)]) ?xs) \<rparr>"
    by (simp add: bulk_outcome_def fold_outcome)
  have "filter (\<lambda>i. the (b_outcomes s ! i) = LineOk) [0..<length its] = filter (\<lambda>i. b_outcomes s ! i = Some LineOk) [0..<length its]"
    using some by (intro filter_cong refl) (metis atLeastLessThan_iff option.exhaust_sel option.sel set_upt)
  then have oks: "br_ok (bulk_outcome id_of its (map the (b_outcomes s))) =
      map (\<lambda>i. id_of (its ! i)) (filter (\<lambda>i. b_outcomes s ! i = Some LineOk) [0..<length its])"
    unfolding result by (simp add: zip filter_map comp_def)
  have "length (filter (\<lambda>(item, o'). o' = LineOk) xs) +
      length (concat (map (\<lambda>(item, o'). case o' of LineOk \<Rightarrow> [] | Skip reason \<Rightarrow> [(id_of item, reason)]) xs)) = length xs"
    for xs :: "('a \<times> line_outcome) list"
    by (induction xs) (auto split: line_outcome.splits)
  from this [of ?xs] have lens: "length (br_ok (bulk_outcome id_of its (map the (b_outcomes s)))) +
      length (br_skipped (bulk_outcome id_of its (map the (b_outcomes s)))) = length its"
    unfolding result using ok(2) by simp
  have "case precheck (its ! i) of None \<Rightarrow> i \<in> set (b_started s) | Some r \<Rightarrow> b_outcomes s ! i = Some (Skip r)"
    if "i < length its" for i
    using that ok(4,7) all by (auto split: option.splits)
  moreover have "None \<notin> set (b_outcomes s)" using some ok(2) by (auto simp: in_set_conv_nth)
  moreover have "b_done s = length its" using ok(8) all assms(2) by simp
  ultimately show ?thesis using oks lens by (simp only: Let_def) blast
qed

definition demo_check :: "nat \<Rightarrow> skip_reason option" where
  "demo_check i = (if i = 7 then Some Unsupported else None)"

definition demo_sent :: bulk where
  "demo_sent = \<lparr> b_next = 1, b_outcomes = [None, None], b_busy = [0], b_started = [0], b_done = 0 \<rparr>"

definition demo_end :: bulk where
  "demo_end = \<lparr> b_next = 2, b_outcomes = [Some LineOk, Some (Skip Unsupported)], b_busy = [], b_started = [0], b_done = 2 \<rparr>"

definition show_line :: "nat \<Rightarrow> jstr" where
  "show_line i = [of_nat i]"

lemma demo_runs: "bulk_run demo_check [5, 7] (Some 1) demo_sent" "bulk_run demo_check [5, 7] (Some 1) demo_end"
proof -
  have "lane_turn demo_check [5, 7] (b_start [5, 7 :: nat]) = demo_sent"
    by (subst lane_turn.simps) (simp add: b_start_def demo_sent_def demo_check_def)
  then show sent: "bulk_run demo_check [5, 7] (Some 1) demo_sent"
    using bulk_init [of demo_check "[5, 7]" "Some 1"] by (simp add: lane_count_def)
  have "lane_turn demo_check [5, 7] (b_settle 0 (Some LineOk) demo_sent) = demo_end"
    by (subst lane_turn_skip [where r = Unsupported])
      (simp_all add: lane_turn_end b_settle_def b_record_def demo_sent_def demo_end_def demo_check_def)
  then show "bulk_run demo_check [5, 7] (Some 1) demo_end"
    using bulk_answer [OF sent, of 0 "Some LineOk"] by (simp add: demo_sent_def)
qed

lemma bulk_run_bounded_witness:
  "length (b_busy demo_sent) \<le> lane_count (Some 1) (length [5, 7 :: nat]) \<and>
   b_started demo_sent = filter (\<lambda>i. demo_check ([5, 7] ! i) = None) [0..<b_next demo_sent]"
  using bulk_run_bounded [OF demo_runs(1)] by blast

lemma bulk_run_complete_witness:
  "let r = bulk_outcome show_line [5, 7 :: nat] (map the (b_outcomes demo_end)) in
     br_ok r = [show_line 5] \<and> Suc (length (br_skipped r)) = length [5, 7 :: nat]"
proof -
  have "b_busy demo_end = []" by (simp add: demo_end_def)
  from bulk_run_complete [OF demo_runs(2) this, of show_line] show ?thesis
    by (auto simp: Let_def demo_end_def upt_rec numeral_2_eq_2)
qed

text \<open>Every skipped line is counted under its reason.\<close>

lemma bulkCounts_sum:
  "bc_cooldown (bulkCounts r) + bc_unsupported (bulkCounts r) + bc_expired (bulkCounts r) + bc_failed (bulkCounts r) =
     bc_skipped (bulkCounts r)"
proof -
  have "bc_cooldown (foldl count_reason c xs) + bc_unsupported (foldl count_reason c xs) +
        bc_expired (foldl count_reason c xs) + bc_failed (foldl count_reason c xs) =
      bc_cooldown c + bc_unsupported c + bc_expired c + bc_failed c + length xs \<and>
      bc_skipped (foldl count_reason c xs) = bc_skipped c" for c xs
  proof (induction xs arbitrary: c)
    case (Cons x xs)
    show ?case using Cons [of "count_reason c x"] by (cases "snd x") (simp_all add: count_reason_def)
  qed simp
  then show ?thesis by (simp add: bulkCounts_def)
qed

section \<open>One task at a time per key\<close>

text \<open>
  A task runs after the promise that was its key's tail when it was handed in (none, when the key had no
  tail).  Promises settle, and settled tails are forgotten, in any order.  Tasks are numbered as they
  are handed in.
\<close>

datatype task_state = TaskWaiting | TaskRunning | TaskSettled

record 'k task =
  t_key :: 'k
  t_after :: "nat option"
  t_state :: task_state

record 'k serial =
  s_tasks :: "'k task list"
  s_tails :: "('k \<times> nat) list"

definition keyedSerial :: "'k serial" where
  "keyedSerial = \<lparr> s_tasks = [], s_tails = [] \<rparr>"

text \<open>Handing in a task: it is chained to the key's tail and becomes the tail.\<close>

definition submit :: "'k \<Rightarrow> 'k serial \<Rightarrow> 'k serial" where
  "submit key s =
     \<lparr> s_tasks = s_tasks s @ [\<lparr> t_key = key, t_after = map_of (s_tails s) key, t_state = TaskWaiting \<rparr>],
       s_tails = AList.update key (length (s_tasks s)) (s_tails s) \<rparr>"

definition task_ready :: "'k serial \<Rightarrow> nat \<Rightarrow> bool" where
  "task_ready s i \<longleftrightarrow> i < length (s_tasks s) \<and> t_state (s_tasks s ! i) = TaskWaiting \<and>
     (case t_after (s_tasks s ! i) of None \<Rightarrow> True | Some p \<Rightarrow> t_state (s_tasks s ! p) = TaskSettled)"

definition set_state :: "nat \<Rightarrow> task_state \<Rightarrow> 'k serial \<Rightarrow> 'k serial" where
  "set_state i st s = s \<lparr> s_tasks := (s_tasks s)[i := (s_tasks s ! i) \<lparr> t_state := st \<rparr>] \<rparr>"

text \<open>\<open>if (tails.get(key) === tail) tails.delete(key)\<close>, once the tail has settled.\<close>

definition forget_tail :: "nat \<Rightarrow> 'k serial \<Rightarrow> 'k serial" where
  "forget_tail i s =
     (let key = t_key (s_tasks s ! i)
      in if map_of (s_tails s) key = Some i then s \<lparr> s_tails := AList.delete key (s_tails s) \<rparr> else s)"

inductive serial_run :: "'k serial \<Rightarrow> bool" where
  serial_new: "serial_run keyedSerial"
| serial_submit: "serial_run s \<Longrightarrow> serial_run (submit key s)"
| serial_start: "serial_run s \<Longrightarrow> task_ready s i \<Longrightarrow> serial_run (set_state i TaskRunning s)"
| serial_settle: "serial_run s \<Longrightarrow> i < length (s_tasks s) \<Longrightarrow> t_state (s_tasks s ! i) = TaskRunning \<Longrightarrow>
     serial_run (set_state i TaskSettled s)"
| serial_forget: "serial_run s \<Longrightarrow> i < length (s_tasks s) \<Longrightarrow> t_state (s_tasks s ! i) = TaskSettled \<Longrightarrow>
     serial_run (forget_tail i s)"

text \<open>The earlier tasks of a task's key.\<close>

definition earlier :: "'k serial \<Rightarrow> nat \<Rightarrow> nat set" where
  "earlier s j = {i. i < j \<and> t_key (s_tasks s ! i) = t_key (s_tasks s ! j)}"

definition is_settled :: "'k serial \<Rightarrow> nat \<Rightarrow> bool" where
  "is_settled s i \<longleftrightarrow> t_state (s_tasks s ! i) = TaskSettled"

text \<open>
  A task waits for the latest earlier task of its key, or all earlier ones have settled; a task that has
  started has only settled ones before it; a tail is the latest task of its key, and a key without a
  tail has only settled tasks.
\<close>

definition serial_ok :: "'k serial \<Rightarrow> bool" where
  "serial_ok s \<longleftrightarrow>
     (\<forall>j < length (s_tasks s).
        (case t_after (s_tasks s ! j) of
           None \<Rightarrow> \<forall>i \<in> earlier s j. is_settled s i
         | Some p \<Rightarrow> p \<in> earlier s j \<and> (\<forall>i \<in> earlier s j. i \<le> p)) \<and>
        (t_state (s_tasks s ! j) \<noteq> TaskWaiting \<longrightarrow> (\<forall>i \<in> earlier s j. is_settled s i))) \<and>
     (\<forall>key. case map_of (s_tails s) key of
        None \<Rightarrow> \<forall>i < length (s_tasks s). t_key (s_tasks s ! i) = key \<longrightarrow> is_settled s i
      | Some t \<Rightarrow> t < length (s_tasks s) \<and> t_key (s_tasks s ! t) = key \<and>
          (\<forall>i < length (s_tasks s). t_key (s_tasks s ! i) = key \<longrightarrow> i \<le> t))"

lemma serial_okI:
  assumes "\<And>j. j < length (s_tasks s) \<Longrightarrow> t_after (s_tasks s ! j) = None \<Longrightarrow> \<forall>i \<in> earlier s j. is_settled s i"
    "\<And>j p. j < length (s_tasks s) \<Longrightarrow> t_after (s_tasks s ! j) = Some p \<Longrightarrow> p \<in> earlier s j \<and> (\<forall>i \<in> earlier s j. i \<le> p)"
    "\<And>j. j < length (s_tasks s) \<Longrightarrow> t_state (s_tasks s ! j) \<noteq> TaskWaiting \<Longrightarrow> \<forall>i \<in> earlier s j. is_settled s i"
    "\<And>key i. map_of (s_tails s) key = None \<Longrightarrow> i < length (s_tasks s) \<Longrightarrow> t_key (s_tasks s ! i) = key \<Longrightarrow> is_settled s i"
    "\<And>key t. map_of (s_tails s) key = Some t \<Longrightarrow> t < length (s_tasks s) \<and> t_key (s_tasks s ! t) = key \<and>
          (\<forall>i < length (s_tasks s). t_key (s_tasks s ! i) = key \<longrightarrow> i \<le> t)"
  shows "serial_ok s"
  using assms by (simp add: serial_ok_def split: option.split)

lemma serial_okD:
  assumes "serial_ok s"
  shows "j < length (s_tasks s) \<Longrightarrow> t_after (s_tasks s ! j) = None \<Longrightarrow> i \<in> earlier s j \<Longrightarrow> is_settled s i"
    "j < length (s_tasks s) \<Longrightarrow> t_after (s_tasks s ! j) = Some p \<Longrightarrow> p \<in> earlier s j \<and> (\<forall>i \<in> earlier s j. i \<le> p)"
    "j < length (s_tasks s) \<Longrightarrow> t_state (s_tasks s ! j) \<noteq> TaskWaiting \<Longrightarrow> i \<in> earlier s j \<Longrightarrow> is_settled s i"
    "map_of (s_tails s) key = None \<Longrightarrow> i < length (s_tasks s) \<Longrightarrow> t_key (s_tasks s ! i) = key \<Longrightarrow> is_settled s i"
    "map_of (s_tails s) key = Some t \<Longrightarrow> t < length (s_tasks s) \<and> t_key (s_tasks s ! t) = key \<and>
          (\<forall>i < length (s_tasks s). t_key (s_tasks s ! i) = key \<longrightarrow> i \<le> t)"
  using assms unfolding serial_ok_def by (fastforce split: option.splits)+

lemma set_state_simps [simp]:
  "length (s_tasks (set_state i st s)) = length (s_tasks s)"
  "s_tails (set_state i st s) = s_tails s"
  "k < length (s_tasks s) \<Longrightarrow> t_key (s_tasks (set_state i st s) ! k) = t_key (s_tasks s ! k)"
  "k < length (s_tasks s) \<Longrightarrow> t_after (s_tasks (set_state i st s) ! k) = t_after (s_tasks s ! k)"
  "k < length (s_tasks s) \<Longrightarrow> t_state (s_tasks (set_state i st s) ! k) = (if k = i then st else t_state (s_tasks s ! k))"
  by (cases "k = i"; simp add: set_state_def)+

lemma set_state_earlier [simp]: "j < length (s_tasks s) \<Longrightarrow> earlier (set_state i st s) j = earlier s j"
  by (auto simp: earlier_def)

lemma submit_simps:
  "length (s_tasks (submit key s)) = length (s_tasks s) + 1"
  "k < length (s_tasks s) \<Longrightarrow> s_tasks (submit key s) ! k = s_tasks s ! k"
  "s_tasks (submit key s) ! length (s_tasks s) = \<lparr> t_key = key, t_after = map_of (s_tails s) key, t_state = TaskWaiting \<rparr>"
  "map_of (s_tails (submit key s)) = (map_of (s_tails s))(key \<mapsto> length (s_tasks s))"
  by (simp_all add: submit_def nth_append update_conv')

lemma submit_ok:
  assumes "serial_ok s"
  shows "serial_ok (submit key s)"
proof (rule serial_okI)
  let ?n = "length (s_tasks s)"
  have old: "earlier (submit key s) j = earlier s j" if "j < ?n" for j
    using that by (auto simp: earlier_def submit_simps)
  have new: "earlier (submit key s) ?n = {i. i < ?n \<and> t_key (s_tasks s ! i) = key}"
    by (auto simp: earlier_def submit_simps)
  have settled: "is_settled (submit key s) i = is_settled s i" if "i < ?n" for i
    using that by (simp add: is_settled_def submit_simps)
  have below: "i < j" if "i \<in> earlier s j" for i j using that by (simp add: earlier_def)
  note facts = old new settled submit_simps less_Suc_eq
  show "\<forall>i \<in> earlier (submit key s) j. is_settled (submit key s) i"
    if "j < length (s_tasks (submit key s))" "t_after (s_tasks (submit key s) ! j) = None" for j
    using that below serial_okD(1,4) [OF assms] by (auto simp: facts) (metis less_trans settled)
  show "p \<in> earlier (submit key s) j \<and> (\<forall>i \<in> earlier (submit key s) j. i \<le> p)"
    if "j < length (s_tasks (submit key s))" "t_after (s_tasks (submit key s) ! j) = Some p" for j p
    using that serial_okD(2,5) [OF assms] by (auto simp: facts)
  show "\<forall>i \<in> earlier (submit key s) j. is_settled (submit key s) i"
    if "j < length (s_tasks (submit key s))" "t_state (s_tasks (submit key s) ! j) \<noteq> TaskWaiting" for j
    using that below serial_okD(3) [OF assms] by (auto simp: facts) (metis less_trans settled)
  show "is_settled (submit key s) i"
    if "map_of (s_tails (submit key s)) k = None" "i < length (s_tasks (submit key s))"
      "t_key (s_tasks (submit key s) ! i) = k" for k i
    using that serial_okD(4) [OF assms] by (auto simp: facts split: if_splits)
  show "t < length (s_tasks (submit key s)) \<and> t_key (s_tasks (submit key s) ! t) = k \<and>
      (\<forall>i < length (s_tasks (submit key s)). t_key (s_tasks (submit key s) ! i) = k \<longrightarrow> i \<le> t)"
    if "map_of (s_tails (submit key s)) k = Some t" for k t
    using that serial_okD(5) [OF assms, of k t] by (auto simp: facts split: if_splits)
qed

text \<open>When the task before it in its chain has settled, so have all earlier ones.\<close>

lemma ready_earlier:
  assumes "serial_ok s" "task_ready s j" "i \<in> earlier s j"
  shows "is_settled s i"
proof (cases "t_after (s_tasks s ! j)")
  case None
  then show ?thesis using assms serial_okD(1) by (auto simp: task_ready_def)
next
  case (Some p)
  have j: "j < length (s_tasks s)" using assms(2) by (simp add: task_ready_def)
  have p: "p \<in> earlier s j" "i \<le> p" using serial_okD(2) [OF assms(1) j Some] assms(3) by auto
  have sp: "is_settled s p" using assms(2) Some by (simp add: task_ready_def is_settled_def)
  show ?thesis
  proof (cases "i = p")
    case False
    then have "i \<in> earlier s p" using p assms(3) by (auto simp: earlier_def)
    moreover have "p < length (s_tasks s)" using p(1) j by (simp add: earlier_def)
    ultimately show ?thesis using serial_okD(3) [OF assms(1)] sp by (auto simp: is_settled_def)
  qed (use sp in simp)
qed

lemma set_state_ok:
  assumes ok: "serial_ok s" and i: "i < length (s_tasks s)"
    and grow: "\<And>k. k < length (s_tasks s) \<Longrightarrow> is_settled s k \<Longrightarrow> is_settled (set_state i st s) k"
    and started: "\<And>k. k \<in> earlier s i \<Longrightarrow> is_settled s k"
  shows "serial_ok (set_state i st s)"
proof (rule serial_okI)
  have below: "k < length (s_tasks s)" if "k \<in> earlier s j" "j < length (s_tasks s)" for k j
    using that by (simp add: earlier_def)
  show "\<forall>k \<in> earlier (set_state i st s) j. is_settled (set_state i st s) k"
    if "j < length (s_tasks (set_state i st s))" "t_after (s_tasks (set_state i st s) ! j) = None" for j
    using that below grow serial_okD(1) [OF ok] by auto
  show "p \<in> earlier (set_state i st s) j \<and> (\<forall>k \<in> earlier (set_state i st s) j. k \<le> p)"
    if "j < length (s_tasks (set_state i st s))" "t_after (s_tasks (set_state i st s) ! j) = Some p" for j p
    using that serial_okD(2) [OF ok] by auto
  show "\<forall>k \<in> earlier (set_state i st s) j. is_settled (set_state i st s) k"
    if "j < length (s_tasks (set_state i st s))" "t_state (s_tasks (set_state i st s) ! j) \<noteq> TaskWaiting" for j
    using that below grow started serial_okD(3) [OF ok] by (cases "j = i") auto
  show "is_settled (set_state i st s) k"
    if "map_of (s_tails (set_state i st s)) key = None" "k < length (s_tasks (set_state i st s))"
      "t_key (s_tasks (set_state i st s) ! k) = key" for key k
    using that grow serial_okD(4) [OF ok] by auto
  show "t < length (s_tasks (set_state i st s)) \<and> t_key (s_tasks (set_state i st s) ! t) = key \<and>
      (\<forall>k < length (s_tasks (set_state i st s)). t_key (s_tasks (set_state i st s) ! k) = key \<longrightarrow> k \<le> t)"
    if "map_of (s_tails (set_state i st s)) key = Some t" for key t
    using that serial_okD(5) [OF ok, of key t] by auto
qed

lemma forget_ok:
  assumes ok: "serial_ok s" and i: "i < length (s_tasks s)" "t_state (s_tasks s ! i) = TaskSettled"
  shows "serial_ok (forget_tail i s)"
proof (cases "map_of (s_tails s) (t_key (s_tasks s ! i)) = Some i")
  case True
  let ?k = "t_key (s_tasks s ! i)" and ?s = "forget_tail i s"
  have f: "s_tasks ?s = s_tasks s" "map_of (s_tails ?s) = (map_of (s_tails s))(?k := None)"
    using True by (simp_all add: forget_tail_def Let_def delete_conv')
  have e: "earlier ?s j = earlier s j" "is_settled ?s j = is_settled s j" for j
    by (simp_all add: earlier_def is_settled_def f)
  have all: "is_settled s k" if "k < length (s_tasks s)" "t_key (s_tasks s ! k) = ?k" for k
  proof (cases "k = i")
    case False
    then have "k \<in> earlier s i" using serial_okD(5) [OF ok True] that by (auto simp: earlier_def)
    then show ?thesis using serial_okD(3) [OF ok i(1)] i(2) by simp
  qed (use i in \<open>simp add: is_settled_def\<close>)
  show ?thesis
  proof (rule serial_okI)
    show "is_settled ?s k" if "map_of (s_tails ?s) key = None" "k < length (s_tasks ?s)" "t_key (s_tasks ?s ! k) = key" for key k
      using that all serial_okD(4) [OF ok] by (cases "key = ?k") (auto simp: f e)
    show "t < length (s_tasks ?s) \<and> t_key (s_tasks ?s ! t) = key \<and>
        (\<forall>k < length (s_tasks ?s). t_key (s_tasks ?s ! k) = key \<longrightarrow> k \<le> t)"
      if "map_of (s_tails ?s) key = Some t" for key t
      using that serial_okD(5) [OF ok, of key t] by (auto simp: f split: if_splits)
  qed (use serial_okD(1-3) [OF ok] in \<open>auto simp: f e\<close>)
qed (use ok in \<open>simp add: forget_tail_def Let_def\<close>)

lemma serial_run_ok: "serial_run s \<Longrightarrow> serial_ok s"
proof (induction rule: serial_run.induct)
  case serial_new
  then show ?case by (intro serial_okI) (auto simp: keyedSerial_def)
next
  case (serial_submit s key)
  show ?case by (rule submit_ok [OF serial_submit.IH])
next
  case (serial_start s i)
  then have i: "i < length (s_tasks s)" "t_state (s_tasks s ! i) = TaskWaiting" by (simp_all add: task_ready_def)
  show ?case
  proof (rule set_state_ok [OF serial_start.IH i(1)])
    show "is_settled (set_state i TaskRunning s) k" if "k < length (s_tasks s)" "is_settled s k" for k
      using that i by (auto simp: is_settled_def)
  qed (use ready_earlier [OF serial_start.IH] serial_start.hyps in blast)
next
  case (serial_settle s i)
  show ?case
  proof (rule set_state_ok [OF serial_settle.IH serial_settle.hyps(2)])
    show "is_settled (set_state i TaskSettled s) k" if "k < length (s_tasks s)" "is_settled s k" for k
      using that by (simp add: is_settled_def)
    show "is_settled s k" if "k \<in> earlier s i" for k
      using that serial_okD(3) [OF serial_settle.IH serial_settle.hyps(2)] serial_settle.hyps(3) by simp
  qed
next
  case (serial_forget s i)
  show ?case by (rule forget_ok [OF serial_forget.IH serial_forget.hyps(2,3)])
qed

text \<open>
  C35: Tasks of one key run in turn.  However hand-ins, starts, ends and forgotten
  tails interleave, a task that has started finds every earlier task of its key settled, so two tasks of
  a key never run at once and they run in the order they were handed in; and a waiting task whose
  earlier ones have settled can start: none is stuck.
\<close>

theorem keyed_tasks_in_turn:
  assumes "serial_run s" "j < length (s_tasks s)"
  shows "(t_state (s_tasks s ! j) \<noteq> TaskWaiting \<longrightarrow>
      (\<forall>i < j. t_key (s_tasks s ! i) = t_key (s_tasks s ! j) \<longrightarrow> t_state (s_tasks s ! i) = TaskSettled)) \<and>
    (t_state (s_tasks s ! j) = TaskWaiting \<longrightarrow>
      (\<forall>i < j. t_key (s_tasks s ! i) = t_key (s_tasks s ! j) \<longrightarrow> t_state (s_tasks s ! i) = TaskSettled) \<longrightarrow>
      task_ready s j)"
proof (intro conjI impI)
  note ok = serial_run_ok [OF assms(1)]
  show "\<forall>i < j. t_key (s_tasks s ! i) = t_key (s_tasks s ! j) \<longrightarrow> t_state (s_tasks s ! i) = TaskSettled"
    if "t_state (s_tasks s ! j) \<noteq> TaskWaiting"
    using serial_okD(3) [OF ok assms(2) that] by (auto simp: earlier_def is_settled_def)
  show "task_ready s j"
    if "t_state (s_tasks s ! j) = TaskWaiting"
      "\<forall>i < j. t_key (s_tasks s ! i) = t_key (s_tasks s ! j) \<longrightarrow> t_state (s_tasks s ! i) = TaskSettled"
    using that serial_okD(2) [OF ok assms(2)] assms(2) by (auto simp: task_ready_def earlier_def split: option.split)
qed

definition two_tasks :: "nat serial" where
  "two_tasks = set_state 0 TaskRunning (submit 4 (submit 4 keyedSerial))"

lemma keyed_tasks_in_turn_witness:
  "t_state (s_tasks two_tasks ! 0) = TaskRunning \<and> t_state (s_tasks two_tasks ! 1) = TaskWaiting"
proof -
  have "task_ready (submit 4 (submit 4 keyedSerial)) 0"
    by (simp add: task_ready_def submit_def keyedSerial_def)
  then have "serial_run two_tasks"
    unfolding two_tasks_def by (intro serial_start serial_submit serial_new)
  moreover have len: "1 < length (s_tasks two_tasks)" by (simp add: two_tasks_def submit_def keyedSerial_def)
  ultimately have law: "t_state (s_tasks two_tasks ! 1) \<noteq> TaskWaiting \<longrightarrow>
      (\<forall>i < 1. t_key (s_tasks two_tasks ! i) = t_key (s_tasks two_tasks ! 1) \<longrightarrow> t_state (s_tasks two_tasks ! i) = TaskSettled)"
    using keyed_tasks_in_turn by blast
  have "t_state (s_tasks two_tasks ! 0) = TaskRunning" "t_key (s_tasks two_tasks ! 0) = t_key (s_tasks two_tasks ! 1)"
    by (simp_all add: two_tasks_def submit_def keyedSerial_def set_state_def)
  with law show ?thesis by auto
qed

end
