(* ===== verification/Buyer_Proxies.thy ===== *)
theory Buyer_Proxies
  imports Inventory_Filters Order_Lines Bulk_Runs
begin

text \<open>
  The buyer's proxy console (features/buyer-proxies/model.ts): filters in the address, the state of a
  line, the dispute a selection opens, the checks before a bulk action, exports, and the import of tags.
  \<open>time_of\<close> is \<open>new Date(s).getTime()\<close> (\<^const>\<open>None\<close> for an invalid date), \<open>lower\<close> is \<open>toLowerCase\<close>.
\<close>

section \<open>Filters\<close>

datatype proxy_ip_type = Residential | MobileIp | Datacenter
datatype proxy_rotation = StaticIp | RotatingIp | RotatingKey
datatype proxy_tab = ProxyTabAll | ProxyTabRunning | ProxyTabSoon | ProxyTabProblem
datatype proxy_expiry = ExpiryAny | Expiry24h | Expiry3d | Expiry7d | ExpiryPast
datatype proxy_sort = ExpiryAsc | ExpiryDesc | NewestLines | ByLine

fun ip_type_name :: "proxy_ip_type \<Rightarrow> string" where
  "ip_type_name Residential = ''residential''" | "ip_type_name MobileIp = ''mobile''"
| "ip_type_name Datacenter = ''datacenter''"

fun rotation_name :: "proxy_rotation \<Rightarrow> string" where
  "rotation_name StaticIp = ''static''" | "rotation_name RotatingIp = ''rotating''"
| "rotation_name RotatingKey = ''rotating_key''"

fun proxy_tab_name :: "proxy_tab \<Rightarrow> string" where
  "proxy_tab_name ProxyTabAll = ''''" | "proxy_tab_name ProxyTabRunning = ''running''"
| "proxy_tab_name ProxyTabSoon = ''soon''" | "proxy_tab_name ProxyTabProblem = ''problem''"

fun proxy_expiry_name :: "proxy_expiry \<Rightarrow> string" where
  "proxy_expiry_name ExpiryAny = ''''" | "proxy_expiry_name Expiry24h = ''24h''"
| "proxy_expiry_name Expiry3d = ''3d''" | "proxy_expiry_name Expiry7d = ''7d''"
| "proxy_expiry_name ExpiryPast = ''expired''"

fun proxy_sort_name :: "proxy_sort \<Rightarrow> string" where
  "proxy_sort_name ExpiryAsc = ''expiry_asc''" | "proxy_sort_name ExpiryDesc = ''expiry_desc''"
| "proxy_sort_name NewestLines = ''newest''" | "proxy_sort_name ByLine = ''line''"

definition IP_TYPES :: "proxy_ip_type list" where "IP_TYPES = [Residential, MobileIp, Datacenter]"
definition ROTATIONS :: "proxy_rotation list" where "ROTATIONS = [StaticIp, RotatingIp, RotatingKey]"
definition STATUS_TABS' :: "proxy_tab list" where "STATUS_TABS' = [ProxyTabAll, ProxyTabRunning, ProxyTabSoon, ProxyTabProblem]"
definition EXPIRY_FILTERS :: "proxy_expiry list" where "EXPIRY_FILTERS = [ExpiryAny, Expiry24h, Expiry3d, Expiry7d, ExpiryPast]"
definition PROXY_SORTS :: "proxy_sort list" where "PROXY_SORTS = [ExpiryAsc, ExpiryDesc, NewestLines, ByLine]"
definition PAGE_SIZES :: "int list" where "PAGE_SIZES = [25, 50, 100]"
definition DEFAULT_PAGE_SIZE :: int where "DEFAULT_PAGE_SIZE = 50"
definition UNTAGGED :: jstr where "UNTAGGED = js ''__none__''"

record proxy_filters =
  pf_tab :: proxy_tab
  pf_search :: jstr
  pf_tags :: "jstr list"
  pf_ipTypes :: "proxy_ip_type list"
  pf_rotations :: "proxy_rotation list"
  pf_expiry :: proxy_expiry
  pf_sort :: proxy_sort
  pf_page :: int
  pf_perPage :: int

definition DEFAULT_FILTERS :: proxy_filters where
  "DEFAULT_FILTERS = \<lparr> pf_tab = ProxyTabAll, pf_search = [], pf_tags = [], pf_ipTypes = [], pf_rotations = [],
     pf_expiry = ExpiryAny, pf_sort = ExpiryAsc, pf_page = 1, pf_perPage = DEFAULT_PAGE_SIZE \<rparr>"

definition listParam :: "('e \<Rightarrow> string) \<Rightarrow> 'e list \<Rightarrow> jstr option \<Rightarrow> 'e list" where
  "listParam name allowed raw =
     foldl (\<lambda>out part. case List.find (\<lambda>e. js (name e) = js_trim part) allowed of
                         None \<Rightarrow> out | Some e \<Rightarrow> if e \<in> set out then out else out @ [e])
       [] (split_on 44 (or_empty raw))"

definition parseProxyFilters :: "url_params \<Rightarrow> proxy_filters" where
  "parseProxyFilters search = \<lparr>
     pf_tab = pick_enum proxy_tab_name STATUS_TABS' ProxyTabAll (qget search ''status''),
     pf_search = js_trim (or_empty (qget search ''q'')),
     pf_tags = uniq (trimmed_parts (or_empty (qget search ''tags''))),
     pf_ipTypes = listParam ip_type_name IP_TYPES (qget search ''ip_type''),
     pf_rotations = listParam rotation_name ROTATIONS (qget search ''rotation''),
     pf_expiry = pick_enum proxy_expiry_name EXPIRY_FILTERS ExpiryAny (qget search ''expires''),
     pf_sort = pick_enum proxy_sort_name PROXY_SORTS ExpiryAsc (qget search ''sort''),
     pf_page = pick_int 1 1 (qget search ''page''),
     pf_perPage = pick_size PAGE_SIZES DEFAULT_PAGE_SIZE (qget search ''per_page'') \<rparr>"

definition proxyFiltersToSearch :: "url_params option \<Rightarrow> proxy_filters \<Rightarrow> url_params" where
  "proxyFiltersToSearch keep f =
     (let line = (case keep of None \<Rightarrow> [] | Some q \<Rightarrow> or_empty (qget q ''line''))
      in qput ''per_page'' (pf_perPage f \<noteq> DEFAULT_PAGE_SIZE) (show_int (pf_perPage f))
         (qput ''page'' (1 < pf_page f) (show_int (pf_page f))
         (qput ''sort'' (pf_sort f \<noteq> ExpiryAsc) (js (proxy_sort_name (pf_sort f)))
         (qput ''expires'' (pf_expiry f \<noteq> ExpiryAny) (js (proxy_expiry_name (pf_expiry f)))
         (qput ''rotation'' (pf_rotations f \<noteq> []) (join [44] (map (js \<circ> rotation_name) (pf_rotations f)))
         (qput ''ip_type'' (pf_ipTypes f \<noteq> []) (join [44] (map (js \<circ> ip_type_name) (pf_ipTypes f)))
         (qput ''tags'' (pf_tags f \<noteq> []) (join [44] (pf_tags f))
         (qput ''q'' (js_trim (pf_search f) \<noteq> []) (js_trim (pf_search f))
         (qput ''status'' (pf_tab f \<noteq> ProxyTabAll) (js (proxy_tab_name (pf_tab f)))
         (qput ''line'' (line \<noteq> []) line []))))))))))"

record proxy_query =
  pq_sort :: proxy_sort
  pq_page :: int
  pq_per_page :: int
  pq_status :: "proxy_tab option"
  pq_q :: "jstr option"
  pq_tags :: "jstr list option"
  pq_ip_type :: "proxy_ip_type list option"
  pq_rotation :: "proxy_rotation list option"
  pq_expires :: "proxy_expiry option"

definition proxyFiltersToQuery :: "proxy_filters \<Rightarrow> proxy_query" where
  "proxyFiltersToQuery f = \<lparr> pq_sort = pf_sort f, pq_page = pf_page f, pq_per_page = pf_perPage f,
     pq_status = (if pf_tab f \<noteq> ProxyTabAll then Some (pf_tab f) else None),
     pq_q = (if js_trim (pf_search f) \<noteq> [] then Some (js_trim (pf_search f)) else None),
     pq_tags = (if pf_tags f \<noteq> [] then Some (pf_tags f) else None),
     pq_ip_type = (if pf_ipTypes f \<noteq> [] then Some (pf_ipTypes f) else None),
     pq_rotation = (if pf_rotations f \<noteq> [] then Some (pf_rotations f) else None),
     pq_expires = (if pf_expiry f \<noteq> ExpiryAny then Some (pf_expiry f) else None) \<rparr>"

definition hasActiveProxyFilters :: "proxy_filters \<Rightarrow> bool" where
  "hasActiveProxyFilters f \<longleftrightarrow> pf_tab f \<noteq> ProxyTabAll \<or> js_trim (pf_search f) \<noteq> [] \<or> pf_tags f \<noteq> [] \<or>
     pf_ipTypes f \<noteq> [] \<or> pf_rotations f \<noteq> [] \<or> pf_expiry f \<noteq> ExpiryAny"

text \<open>\<open>/^(ORD-[0-9A-Z]+)#\d+$/\<close>: the code is what stands before the one number sign.\<close>

definition lineOrderCode :: "jstr option \<Rightarrow> jstr option" where
  "lineOrderCode lineId =
     (case split_on 35 (js_trim (or_empty lineId)) of
        [code, line] \<Rightarrow>
          if starts_with code (js ''ORD-'') \<and> drop 4 code \<noteq> [] \<and> list_all code_char (drop 4 code) \<and>
             line \<noteq> [] \<and> list_all is_digit line
          then Some code else None
      | _ \<Rightarrow> None)"

section \<open>Lines\<close>

datatype proxy_status = StAllocated | StOffline | StExpiredLine | StReleased | StErrorLine

record line =
  ln_id :: jstr
  ln_order_code :: jstr
  ln_no :: nat
  ln_ip_type :: proxy_ip_type
  ln_rotation :: proxy_rotation
  ln_protocol :: jstr
  ln_network :: jstr
  ln_country :: "jstr option"
  ln_host :: jstr
  ln_port :: nat
  ln_username :: "jstr option"
  ln_password :: "jstr option"
  ln_status :: proxy_status
  ln_expires_at :: jstr
  ln_rotation_available :: bool
  ln_cooldown :: "nat option"
  ln_last_rotated :: "jstr option"
  ln_whitelist :: bool
  ln_socks5_port :: "nat option"
  ln_tag_ids :: "jstr list"
  ln_note :: jstr

datatype proxy_kind = KindResidentialStatic | KindResidentialRotating | KindMobile | KindDatacenter | KindRotatingKey

definition proxyKindLabel :: "line \<Rightarrow> proxy_kind" where
  "proxyKindLabel l =
     (if ln_rotation l = RotatingKey then KindRotatingKey
      else if ln_ip_type l = MobileIp then KindMobile
      else if ln_ip_type l = Datacenter then KindDatacenter
      else if ln_rotation l = RotatingIp then KindResidentialRotating else KindResidentialStatic)"

definition lineNoLabel :: "line \<Rightarrow> jstr" where
  "lineNoLabel l = lineLabel (ln_no l)"

definition orderGroupEdges :: "line list \<Rightarrow> (bool \<times> bool) list" where
  "orderGroupEdges ls =
     map (\<lambda>i. (0 < i \<and> ln_order_code (ls ! (i - 1)) = ln_order_code (ls ! i),
               i < length ls - 1 \<and> ln_order_code (ls ! (i + 1)) = ln_order_code (ls ! i))) [0..<length ls]"

text \<open>The places of the first parts that differ but for case.\<close>

definition locationLabel :: "(jstr \<Rightarrow> jstr) \<Rightarrow> line \<Rightarrow> jstr" where
  "locationLabel lower l =
     (let parts = filter (\<lambda>p. p \<noteq> []) [js_trim (ln_network l), js_trim (or_empty (ln_country l))];
          unique = map ((!) parts) (filter (\<lambda>i. \<forall>j < i. lower (parts ! j) \<noteq> lower (parts ! i)) [0..<length parts])
      in join [32, 0xB7, 32] unique)"

definition DAY :: rat where "DAY = 86400000"

definition daysLeft :: "(jstr \<Rightarrow> int option) \<Rightarrow> line \<Rightarrow> int \<Rightarrow> rat option" where
  "daysLeft time_of l now = map_option (\<lambda>t. of_int (t - now) / DAY) (time_of (ln_expires_at l))"

text \<open>A comparison with the time of an invalid date is false.\<close>

definition isExpired :: "(jstr \<Rightarrow> int option) \<Rightarrow> line \<Rightarrow> int \<Rightarrow> bool" where
  "isExpired time_of l now \<longleftrightarrow> ln_status l = StExpiredLine \<or> ln_status l = StReleased \<or>
     (case time_of (ln_expires_at l) of None \<Rightarrow> False | Some t \<Rightarrow> t \<le> now)"

datatype line_state = LineRunning | LineSoon | LineOffline | LineExpired | LineError

definition lineState :: "(jstr \<Rightarrow> int option) \<Rightarrow> line \<Rightarrow> int \<Rightarrow> line_state" where
  "lineState time_of l now =
     (if ln_status l = StErrorLine then LineError
      else if isExpired time_of l now then LineExpired
      else if ln_status l = StOffline then LineOffline
      else case daysLeft time_of l now of Some d \<Rightarrow> if d \<le> 3 then LineSoon else LineRunning | None \<Rightarrow> LineRunning)"

text \<open>\<^const>\<open>None\<close> is the not-a-number of an invalid date.\<close>

definition cooldownRemaining :: "(jstr \<Rightarrow> int option) \<Rightarrow> line \<Rightarrow> int \<Rightarrow> int option" where
  "cooldownRemaining time_of l now =
     (case (ln_cooldown l, ln_last_rotated l) of
        (Some c, Some rotated) \<Rightarrow>
          if c = 0 \<or> rotated = [] then Some 0
          else map_option (\<lambda>t. max 0 \<lceil>of_nat c - (of_int (now - t) / 1000 :: rat)\<rceil>) (time_of rotated)
      | _ \<Rightarrow> Some 0)"

definition canRotate :: "(jstr \<Rightarrow> int option) \<Rightarrow> line \<Rightarrow> int \<Rightarrow> bool" where
  "canRotate time_of l now \<longleftrightarrow> ln_rotation_available l \<and> lineState time_of l now \<noteq> LineExpired \<and>
     lineState time_of l now \<noteq> LineError"

definition isReportable :: "(jstr \<Rightarrow> int option) \<Rightarrow> line \<Rightarrow> int \<Rightarrow> bool" where
  "isReportable time_of l now \<longleftrightarrow> (ln_status l = StAllocated \<or> ln_status l = StOffline) \<and> \<not> isExpired time_of l now"

record report_target =
  rt_order_code :: jstr
  rt_line_nos :: "nat list"

definition reportTarget :: "(jstr \<Rightarrow> int option) \<Rightarrow> line list \<Rightarrow> int \<Rightarrow> report_target option" where
  "reportTarget time_of ls now =
     (if length (uniq (map ln_order_code ls)) \<noteq> 1 then None
      else let lineNos = sort (uniq (map ln_no (filter (\<lambda>l. isReportable time_of l now) ls)))
           in if lineNos \<noteq> [] then Some \<lparr> rt_order_code = ln_order_code (hd ls), rt_line_nos = lineNos \<rparr> else None)"

definition hasAddress :: "line \<Rightarrow> bool" where
  "hasAddress l \<longleftrightarrow> ln_host l \<noteq> [] \<and> 0 < ln_port l"

definition address :: "line \<Rightarrow> jstr" where
  "address l = ln_host l @ [58] @ show_nat (ln_port l)"

definition connectionString :: "line \<Rightarrow> jstr" where
  "connectionString l =
     (if or_empty (ln_username l) \<noteq> [] \<and> or_empty (ln_password l) \<noteq> []
      then address l @ [58] @ or_empty (ln_username l) @ [58] @ or_empty (ln_password l) else address l)"

record proxy_summary =
  ps_all :: nat
  ps_running :: nat
  ps_soon :: nat
  ps_problem :: nat

definition runningShare :: "proxy_summary \<Rightarrow> int" where
  "runningShare s = (if ps_all s \<noteq> 0 then js_round (of_nat (ps_running s) / of_nat (ps_all s) * 100) else 0)"

section \<open>Checks before a bulk action\<close>

definition rotateSkipReason :: "(jstr \<Rightarrow> int option) \<Rightarrow> line \<Rightarrow> int \<Rightarrow> skip_reason option" where
  "rotateSkipReason time_of l now =
     (if \<not> ln_rotation_available l then Some Unsupported
      else if lineState time_of l now = LineExpired then Some ExpiredLine
      else if lineState time_of l now = LineError then Some FailedLine
      else case cooldownRemaining time_of l now of
        Some c \<Rightarrow> if 0 < c then Some Cooldown else None
      | None \<Rightarrow> None)"

definition whitelistSkipReason :: "line \<Rightarrow> skip_reason option" where
  "whitelistSkipReason l = (if ln_whitelist l then None else Some Unsupported)"

text \<open>The status of a rejected request, when it has one.\<close>

definition rotateErrorOutcome :: "nat option \<Rightarrow> skip_reason" where
  "rotateErrorOutcome status = (if status = Some 429 then Cooldown else FailedLine)"

section \<open>Export\<close>

datatype export_format = HostPortUserPass | UserPassAtHost | HostPort | CsvFormat | JsonFormat

record export_row =
  er_line :: line
  er_tags :: "jstr list"
  er_note :: "jstr option"

text \<open>The text of an export; for JSON the rows whose \<open>JSON.stringify\<close> it is.\<close>

datatype export_text = ExportText jstr | ExportJson "export_row list"

definition csv_esc :: "jstr option \<Rightarrow> jstr" where
  "csv_esc v =
     (let s = or_empty v
      in if 34 \<in> set s \<or> 44 \<in> set s \<or> 10 \<in> set s
         then 34 # concat (map (\<lambda>c. if c = 34 then [34, 34] else [c]) s) @ [34] else s)"

definition csv_columns :: "jstr list" where
  "csv_columns = map js [''line'', ''host'', ''port'', ''socks5_port'', ''username'', ''password'', ''protocol'',
     ''ip_type'', ''rotation'', ''network'', ''country'', ''expires_at'', ''tags'', ''note'']"

definition csv_row :: "(jstr \<Rightarrow> jstr) \<Rightarrow> line \<Rightarrow> jstr" where
  "csv_row tagName l =
     join [44] (map csv_esc
       [Some (ln_id l), Some (ln_host l), Some (show_nat (ln_port l)), map_option show_nat (ln_socks5_port l),
        ln_username l, ln_password l, Some (ln_protocol l), Some (js (ip_type_name (ln_ip_type l))),
        Some (js (rotation_name (ln_rotation l))), Some (ln_network l), ln_country l, Some (ln_expires_at l),
        Some (join [124] (map tagName (ln_tag_ids l))), Some (ln_note l)])"

definition user_at_host :: "line \<Rightarrow> jstr" where
  "user_at_host l =
     (if or_empty (ln_username l) \<noteq> []
      then or_empty (ln_username l) @ [58] @ (case ln_password l of None \<Rightarrow> js ''null'' | Some p \<Rightarrow> p) @ [64] @ address l
      else address l)"

definition renderExport :: "line list \<Rightarrow> export_format \<Rightarrow> (jstr \<Rightarrow> jstr) \<Rightarrow> export_text" where
  "renderExport ls format tagName =
     (case format of
        JsonFormat \<Rightarrow> ExportJson (map (\<lambda>l. \<lparr> er_line = l, er_tags = map tagName (ln_tag_ids l),
                        er_note = (if ln_note l = [] then None else Some (ln_note l)) \<rparr>) ls)
      | CsvFormat \<Rightarrow> ExportText (join [10] (join [44] csv_columns # map (csv_row tagName) ls))
      | HostPort \<Rightarrow> ExportText (join [10] (map address ls))
      | UserPassAtHost \<Rightarrow> ExportText (join [10] (map user_at_host ls))
      | HostPortUserPass \<Rightarrow> ExportText (join [10] (map connectionString ls)))"

section \<open>Tags\<close>

definition MAX_TAG_NAME :: nat where "MAX_TAG_NAME = 32"
definition MAX_NOTE :: nat where "MAX_NOTE = 200"

definition normalizeTagName :: "jstr \<Rightarrow> jstr" where
  "normalizeTagName raw = take MAX_TAG_NAME (squeeze_spaces (js_trim raw))"

record proxy_tag =
  tag_id :: jstr
  tag_name :: jstr

definition findTagByName :: "(jstr \<Rightarrow> jstr) \<Rightarrow> proxy_tag list \<Rightarrow> jstr \<Rightarrow> proxy_tag option" where
  "findTagByName lower tags name =
     (let key = lower (normalizeTagName name)
      in if key \<noteq> [] then List.find (\<lambda>t. lower (tag_name t) = key) tags else None)"

record tag_import_row =
  ti_key :: jstr
  ti_user :: "jstr option"
  ti_tags :: "jstr list"

text \<open>The third part of \<open>host:port:user:pass\<close>; an empty user names nobody.\<close>

definition import_line :: "jstr \<Rightarrow> tag_import_row list" where
  "import_line raw =
     (let line = js_trim raw
      in if line = [] \<or> starts_with line [35] then []
         else let parts = split_on 44 line; proxy = split_on 58 (js_trim (hd parts)) in
              if length proxy < 2 \<or> proxy ! 0 = [] \<or> proxy ! 1 = [] then []
              else [\<lparr> ti_key = proxy ! 0 @ [58] @ proxy ! 1,
                      ti_user = (if 2 < length proxy \<and> proxy ! 2 \<noteq> [] then Some (proxy ! 2) else None),
                      ti_tags = filter (\<lambda>t. t \<noteq> []) (map normalizeTagName (split_on 124 (join [44] (tl parts)))) \<rparr>])"

definition parseTagImport :: "jstr \<Rightarrow> tag_import_row list" where
  "parseTagImport text = concat (map import_line (split_lines text))"

definition by_address :: "line list \<Rightarrow> jstr \<Rightarrow> line list" where
  "by_address ls key = filter (\<lambda>l. address l = key) ls"

text \<open>The map keeps the last line of an address and user.\<close>

definition by_user :: "line list \<Rightarrow> jstr \<Rightarrow> line option" where
  "by_user ls key =
     List.find (\<lambda>l. or_empty (ln_username l) \<noteq> [] \<and> address l @ [58] @ or_empty (ln_username l) = key) (rev ls)"

definition import_matches :: "line list \<Rightarrow> tag_import_row \<Rightarrow> line list" where
  "import_matches ls row =
     (case Option.bind (ti_user row) (\<lambda>u. by_user ls (ti_key row @ [58] @ u)) of
        Some l \<Rightarrow> [l] | None \<Rightarrow> by_address ls (ti_key row))"

definition match_row :: "line list \<Rightarrow> (jstr \<times> jstr list) list \<times> nat \<Rightarrow> tag_import_row \<Rightarrow> (jstr \<times> jstr list) list \<times> nat" where
  "match_row ls acc row =
     (let matched = import_matches ls row
      in if matched = [] then (fst acc, snd acc + 1)
         else (foldl (\<lambda>m l. AList.update (ln_id l) (ti_tags row) m) (fst acc) matched, snd acc))"

definition matchTagImport :: "tag_import_row list \<Rightarrow> line list \<Rightarrow> (jstr \<times> jstr list) list \<times> nat" where
  "matchTagImport rows ls = foldl (match_row ls) ([], 0) rows"

record tag_group =
  tg_name :: jstr
  tg_line_ids :: "jstr list"

definition group_name :: "(jstr \<Rightarrow> jstr) \<Rightarrow> jstr \<Rightarrow> (jstr \<times> tag_group) list \<Rightarrow> jstr \<Rightarrow> (jstr \<times> tag_group) list" where
  "group_name lower lineId groups raw =
     (let name = normalizeTagName raw; key = lower name
      in if name = [] then groups
         else let g = (case map_of groups key of None \<Rightarrow> \<lparr> tg_name = name, tg_line_ids = [] \<rparr> | Some g \<Rightarrow> g)
              in AList.update key (if lineId \<in> set (tg_line_ids g) then g
                                   else g \<lparr> tg_line_ids := tg_line_ids g @ [lineId] \<rparr>) groups)"

definition groupImportByTag :: "(jstr \<Rightarrow> jstr) \<Rightarrow> (jstr \<times> jstr list) list \<Rightarrow> tag_group list" where
  "groupImportByTag lower perLine =
     map snd (foldl (\<lambda>groups (lineId, names). foldl (group_name lower lineId) groups names) [] perLine)"

section \<open>The address keeps the filters\<close>

lemma pick_proxy_tab [codec_simps]:
  "pick_enum proxy_tab_name STATUS_TABS' ProxyTabAll (Some (js (proxy_tab_name t))) = t"
  by (cases t) (simp_all add: pick_enum_def STATUS_TABS'_def js_eq_iff del: js_Cons)

lemma pick_proxy_expiry [codec_simps]:
  "pick_enum proxy_expiry_name EXPIRY_FILTERS ExpiryAny (Some (js (proxy_expiry_name e))) = e"
  by (cases e) (simp_all add: pick_enum_def EXPIRY_FILTERS_def js_eq_iff del: js_Cons)

lemma pick_proxy_sort [codec_simps]:
  "pick_enum proxy_sort_name PROXY_SORTS ExpiryAsc (Some (js (proxy_sort_name e))) = e"
  by (cases e) (simp_all add: pick_enum_def PROXY_SORTS_def js_eq_iff del: js_Cons)

lemma listParam_Nil:
  assumes "\<forall>e \<in> set allowed. name e \<noteq> []"
  shows "listParam name allowed None = []"
proof -
  have "List.find (\<lambda>e. js (name e) = []) allowed = None" using assms by (simp add: find_None_iff)
  then show ?thesis by (simp add: listParam_def)
qed

lemma listParam_join:
  assumes "inj_on name (set allowed)" "set xs \<subseteq> set allowed" "distinct xs" "xs \<noteq> []"
    and spelled: "\<forall>e \<in> set allowed. trimmed (js (name e)) \<and> 44 \<notin> set (js (name e))"
  shows "listParam name allowed (Some (join [44] (map (js \<circ> name) xs))) = xs"
proof -
  have "split_on 44 (join [44] (map (js \<circ> name) xs)) = map (js \<circ> name) xs"
    using assms by (intro split_join_comma) auto
  moreover have find: "List.find (\<lambda>d. js (name d) = js (name e)) allowed = Some e" if "e \<in> set allowed" for e
    using that assms(1)
  proof (induction allowed)
    case (Cons a as)
    then show ?case by (cases "a = e") (auto simp: js_eq_iff inj_on_def)
  qed simp
  have "foldl (\<lambda>out part. case List.find (\<lambda>e. js (name e) = js_trim part) allowed of
      None \<Rightarrow> out | Some e \<Rightarrow> if e \<in> set out then out else out @ [e]) ys (map (js \<circ> name) zs) = ys @ zs"
    if "distinct (ys @ zs)" "set zs \<subseteq> set allowed" for ys zs
    using that
  proof (induction zs arbitrary: ys)
    case (Cons z zs)
    then show ?case using find [of z] spelled by (simp add: trimmed_js_trim_id)
  qed simp
  from this [of "[]" xs] calculation show ?thesis using assms(2,3) by (simp add: listParam_def)
qed

definition proxy_canon :: "proxy_filters \<Rightarrow> proxy_filters" where
  "proxy_canon f = f \<lparr> pf_search := js_trim (pf_search f) \<rparr>"

definition proxy_valid :: "proxy_filters \<Rightarrow> bool" where
  "proxy_valid f \<longleftrightarrow> distinct (pf_tags f) \<and> list_all ref_valid (pf_tags f) \<and> distinct (pf_ipTypes f) \<and>
     distinct (pf_rotations f) \<and> 1 \<le> pf_page f \<and> printable_int (pf_page f) \<and> pf_perPage f \<in> set PAGE_SIZES"

lemma ip_types_roundtrip [codec_simps]:
  "distinct xs \<Longrightarrow> xs \<noteq> [] \<Longrightarrow> listParam ip_type_name IP_TYPES (Some (join [44] (map (js \<circ> ip_type_name) xs))) = xs"
  by (rule listParam_join)
    (auto simp: IP_TYPES_def inj_on_def trimmed_def js_space_def intro: proxy_ip_type.exhaust)

lemma rotations_roundtrip [codec_simps]:
  "distinct xs \<Longrightarrow> xs \<noteq> [] \<Longrightarrow> listParam rotation_name ROTATIONS (Some (join [44] (map (js \<circ> rotation_name) xs))) = xs"
  by (rule listParam_join)
    (auto simp: ROTATIONS_def inj_on_def trimmed_def js_space_def intro: proxy_rotation.exhaust)

lemma list_params_Nil [codec_simps]:
  "listParam ip_type_name IP_TYPES None = []" "listParam rotation_name ROTATIONS None = []"
  by (rule listParam_Nil; simp add: IP_TYPES_def ROTATIONS_def)+

lemma pick_proxy_size [codec_simps]:
  "n \<in> set PAGE_SIZES \<Longrightarrow> pick_size PAGE_SIZES fb (Some (show_int n)) = n"
  "pick_size PAGE_SIZES fb None = fb"
  by (auto simp: PAGE_SIZES_def printable_int_def overflow_bound_def)

interpretation proxies_url: url_codec parseProxyFilters "proxyFiltersToSearch keep" proxy_canon proxy_valid for keep
proof
  fix f :: proxy_filters
  assume v: "proxy_valid f"
  show "parseProxyFilters (proxyFiltersToSearch keep f) = proxy_canon f"
    using v
    by (intro proxy_filters.equality)
      (auto simp: parseProxyFilters_def proxyFiltersToSearch_def proxy_canon_def Let_def
        proxy_valid_def codec_simps uniq_distinct trimmed_parts_join)
  show "proxy_valid (proxy_canon f)" using v by (simp add: proxy_valid_def proxy_canon_def)
qed (auto simp: proxy_canon_def proxyFiltersToSearch_def)

lemma parse_proxy_range:
  "1 \<le> pf_page (parseProxyFilters q)" "pf_perPage (parseProxyFilters q) \<in> set PAGE_SIZES" "distinct (pf_tags (parseProxyFilters q))"
  using pick_size_range [of DEFAULT_PAGE_SIZE PAGE_SIZES]
  by (auto simp: parseProxyFilters_def pick_int_def DEFAULT_PAGE_SIZE_def PAGE_SIZES_def split: option.splits)

text \<open>
  The proxy console keeps its filters in the address.  Reading the address
  written for any filters the page can hold gives them back with the search text trimmed, whatever
  line is kept open, and the request they make is the same; from any address the page is positive, the
  page size is an offered one and no tag is repeated.
\<close>

theorem proxy_filters_roundtrip:
  assumes "proxy_valid f"
  shows "parseProxyFilters (proxyFiltersToSearch keep f) = proxy_canon f \<and>
    proxyFiltersToQuery (parseProxyFilters (proxyFiltersToSearch keep f)) = proxyFiltersToQuery f \<and>
    hasActiveProxyFilters (parseProxyFilters (proxyFiltersToSearch keep f)) = hasActiveProxyFilters f \<and>
    1 \<le> pf_page (parseProxyFilters q) \<and> pf_perPage (parseProxyFilters q) \<in> set PAGE_SIZES \<and>
    distinct (pf_tags (parseProxyFilters q))"
  using proxies_url.parse_print [OF assms] parse_proxy_range
  by (simp add: proxyFiltersToQuery_def hasActiveProxyFilters_def proxy_canon_def)

lemma proxy_filters_roundtrip_witness:
  "pf_ipTypes (parseProxyFilters (proxyFiltersToSearch None
     (DEFAULT_FILTERS \<lparr> pf_ipTypes := [MobileIp, Residential], pf_page := 3 \<rparr>))) = [MobileIp, Residential]"
proof -
  have "proxy_valid (DEFAULT_FILTERS \<lparr> pf_ipTypes := [MobileIp, Residential], pf_page := 3 \<rparr>)"
    by (simp add: proxy_valid_def DEFAULT_FILTERS_def DEFAULT_PAGE_SIZE_def PAGE_SIZES_def printable_int_def overflow_bound_def)
  from proxy_filters_roundtrip [OF this, of None] show ?thesis by (simp add: proxy_canon_def)
qed

section \<open>What can be done with a line\<close>

text \<open>
  What a line's state allows.  A line can be reported faulty exactly when its state
  is running, expiring soon or offline; a bulk rotation leaves a line out with a reason exactly when
  the line cannot be rotated or is known to cool down, and only for the reason that holds.
\<close>

theorem line_actions_agree:
  "isReportable time_of l now = (lineState time_of l now \<in> {LineRunning, LineSoon, LineOffline}) \<and>
   (rotateSkipReason time_of l now = None) =
     (canRotate time_of l now \<and> (case cooldownRemaining time_of l now of None \<Rightarrow> True | Some c \<Rightarrow> c = 0)) \<and>
   (rotateSkipReason time_of l now = Some Cooldown) =
     (canRotate time_of l now \<and> (case cooldownRemaining time_of l now of None \<Rightarrow> False | Some c \<Rightarrow> 0 < c))"
proof -
  have nonneg: "0 \<le> c" if "cooldownRemaining time_of l now = Some c" for c
    using that by (auto simp: cooldownRemaining_def split: option.splits if_splits)
  have "isReportable time_of l now = (lineState time_of l now \<in> {LineRunning, LineSoon, LineOffline})"
    by (cases "ln_status l") (auto simp: isReportable_def lineState_def isExpired_def split: option.split)
  moreover have "(rotateSkipReason time_of l now = None) =
      (canRotate time_of l now \<and> (case cooldownRemaining time_of l now of None \<Rightarrow> True | Some c \<Rightarrow> c = 0))"
    using nonneg by (cases "cooldownRemaining time_of l now") (force simp: rotateSkipReason_def canRotate_def)+
  moreover have "(rotateSkipReason time_of l now = Some Cooldown) =
      (canRotate time_of l now \<and> (case cooldownRemaining time_of l now of None \<Rightarrow> False | Some c \<Rightarrow> 0 < c))"
    by (cases "cooldownRemaining time_of l now") (auto simp: rotateSkipReason_def canRotate_def)
  ultimately show ?thesis by blast
qed

lemma uniq_one: "length (uniq xs) = 1 \<longleftrightarrow> xs \<noteq> [] \<and> (\<forall>x \<in> set xs. x = hd xs)"
proof
  assume "length (uniq xs) = 1"
  then obtain y where "uniq xs = [y]" by (auto simp: length_Suc_conv)
  then have "set xs = {y}" by (metis list.set(1) list.simps(15) set_uniq)
  then show "xs \<noteq> [] \<and> (\<forall>x \<in> set xs. x = hd xs)" using list.set_sel(1) by (cases xs) auto
next
  assume a: "xs \<noteq> [] \<and> (\<forall>x \<in> set xs. x = hd xs)"
  then have "set xs = {hd xs}" using list.set_sel(1) by auto
  then have "card (set (uniq xs)) = 1" by simp
  then show "length (uniq xs) = 1" using distinct_card [OF distinct_uniq, of xs] by simp
qed

text \<open>
  A selection opens one dispute.  There is a target exactly when the selected
  lines belong to one order and some can be reported; it names that order and exactly the numbers of
  the lines that can be reported, each once and ascending.
\<close>

theorem report_target_exact:
  "case reportTarget time_of ls now of
     Some t \<Rightarrow> ls \<noteq> [] \<and> list_all (\<lambda>l. ln_order_code l = rt_order_code t) ls \<and>
       sorted_wrt (<) (rt_line_nos t) \<and> rt_line_nos t \<noteq> [] \<and>
       set (rt_line_nos t) = ln_no ` {l \<in> set ls. isReportable time_of l now}
   | None \<Rightarrow> list_all (\<lambda>l. \<not> isReportable time_of l now) ls \<or> (\<exists>a \<in> set ls. \<exists>b \<in> set ls. ln_order_code a \<noteq> ln_order_code b)"
proof (cases "length (uniq (map ln_order_code ls)) = 1")
  case True
  then have u: "map ln_order_code ls \<noteq> []" "\<forall>x \<in> set (map ln_order_code ls). x = hd (map ln_order_code ls)"
    unfolding uniq_one by blast+
  have ne: "ls \<noteq> []" using u(1) by blast
  then have hd: "hd (map ln_order_code ls) = ln_order_code (hd ls)" by (rule hd_map)
  have "ln_order_code l = ln_order_code (hd ls)" if "l \<in> set ls" for l
    using bspec [OF u(2), of "ln_order_code l"] that unfolding hd by (metis imageI set_map)
  then have one: "ls \<noteq> []" "list_all (\<lambda>l. ln_order_code l = ln_order_code (hd ls)) ls"
    using ne by (auto simp: list_all_iff simp del: hd_in_set)
  let ?nos = "sort (uniq (map ln_no (filter (\<lambda>l. isReportable time_of l now) ls)))"
  have nos: "set ?nos = ln_no ` {l \<in> set ls. isReportable time_of l now}" "sorted_wrt (<) ?nos" by (simp_all add: strict_sorted_iff)
  show ?thesis
  proof (cases "?nos = []")
    case True
    then have "list_all (\<lambda>l. \<not> isReportable time_of l now) ls" using nos(1) by (auto simp: list_all_iff)
    then show ?thesis using True \<open>length (uniq _) = 1\<close> by (simp add: reportTarget_def Let_def)
  qed (use \<open>length (uniq _) = 1\<close> one nos in \<open>simp add: reportTarget_def Let_def\<close>)
next
  case False
  then have "map ln_order_code ls = [] \<or> (\<exists>x \<in> set (map ln_order_code ls). x \<noteq> hd (map ln_order_code ls))"
    unfolding uniq_one by blast
  then have "ls = [] \<or> (\<exists>b \<in> set ls. ln_order_code b \<noteq> ln_order_code (hd ls))"
    by (cases ls) auto
  then show ?thesis using False by (cases ls) (auto simp: reportTarget_def)
qed

section \<open>Tags of an import\<close>

text \<open>A name cut to its length may end in a space, so normalising it again may change it.\<close>

lemma tag_name_not_normal:
  "normalizeTagName (replicate 31 97 @ [32, 98]) = replicate 31 97 @ [32] \<and>
   normalizeTagName (replicate 31 97 @ [32]) = replicate 31 97"
  by code_simp

text \<open>The keys of a line's tags, and one group per key.\<close>

definition tag_keys :: "(jstr \<Rightarrow> jstr) \<Rightarrow> jstr list \<Rightarrow> jstr set" where
  "tag_keys lower names = (\<lambda>n. lower (normalizeTagName n)) ` {n \<in> set names. normalizeTagName n \<noteq> []}"

definition groups_ok :: "(jstr \<Rightarrow> jstr) \<Rightarrow> (jstr \<times> tag_group) list \<Rightarrow> (jstr \<Rightarrow> jstr set) \<Rightarrow> bool" where
  "groups_ok lower groups lines_of \<longleftrightarrow> distinct (map fst groups) \<and>
     (\<forall>key. case map_of groups key of
        None \<Rightarrow> lines_of key = {}
      | Some g \<Rightarrow> set (tg_line_ids g) = lines_of key \<and> distinct (tg_line_ids g) \<and> lines_of key \<noteq> {} \<and> lower (tg_name g) = key)"

lemma group_name_ok:
  assumes "groups_ok lower groups lines_of"
  shows "groups_ok lower (group_name lower lineId groups raw)
    (\<lambda>key. if key \<in> tag_keys lower [raw] then insert lineId (lines_of key) else lines_of key)"
proof (cases "normalizeTagName raw = []")
  case False
  let ?k = "lower (normalizeTagName raw)"
  have k: "case map_of groups ?k of
        None \<Rightarrow> lines_of ?k = {}
      | Some g \<Rightarrow> set (tg_line_ids g) = lines_of ?k \<and> distinct (tg_line_ids g) \<and> lines_of ?k \<noteq> {} \<and> lower (tg_name g) = ?k"
    using assms by (simp add: groups_ok_def)
  have "distinct (map fst (group_name lower lineId groups raw))"
    using assms False by (simp add: groups_ok_def group_name_def Let_def distinct_update)
  moreover have "case map_of (group_name lower lineId groups raw) key of
        None \<Rightarrow> (if key = ?k then insert lineId (lines_of key) else lines_of key) = {}
      | Some g \<Rightarrow> set (tg_line_ids g) = (if key = ?k then insert lineId (lines_of key) else lines_of key) \<and>
          distinct (tg_line_ids g) \<and> (if key = ?k then insert lineId (lines_of key) else lines_of key) \<noteq> {} \<and>
          lower (tg_name g) = key" for key
  proof (cases "key = ?k")
    case True
    then show ?thesis using k False
      by (cases "map_of groups ?k") (auto simp: group_name_def Let_def update_conv')
  next
    case diff: False
    then show ?thesis using assms False by (simp add: groups_ok_def group_name_def Let_def update_conv')
  qed
  moreover have "tag_keys lower [raw] = {?k}" using False by (auto simp: tag_keys_def)
  ultimately show ?thesis by (simp only: groups_ok_def singleton_iff) blast
next
  case True
  then have "tag_keys lower [raw] = {}" by (auto simp: tag_keys_def)
  then show ?thesis using assms True by (simp add: group_name_def Let_def)
qed

lemma group_names_ok:
  assumes "groups_ok lower groups lines_of"
  shows "groups_ok lower (foldl (group_name lower lineId) groups names)
    (\<lambda>key. if key \<in> tag_keys lower names then insert lineId (lines_of key) else lines_of key)"
  using assms
proof (induction names arbitrary: groups lines_of)
  case Nil
  then show ?case by (simp add: tag_keys_def)
next
  case (Cons n names)
  have "(\<lambda>key. if key \<in> tag_keys lower names
          then insert lineId (if key \<in> tag_keys lower [n] then insert lineId (lines_of key) else lines_of key)
          else if key \<in> tag_keys lower [n] then insert lineId (lines_of key) else lines_of key) =
      (\<lambda>key. if key \<in> tag_keys lower (n # names) then insert lineId (lines_of key) else lines_of key)"
    by (rule ext) (auto simp: tag_keys_def)
  with Cons.IH [OF group_name_ok [OF Cons.prems, of lineId n]] show ?case by simp
qed

text \<open>
  One request per tag.  Grouping an import gives one group per tag, told apart
  without regard to case, and a line is in a group, once, exactly when one of its names is that tag; no
  group is empty.
\<close>

theorem tag_import_groups:
  "\<exists>keys. length keys = length (groupImportByTag lower perLine) \<and> distinct keys \<and>
     set keys = (\<Union>(lineId, names) \<in> set perLine. tag_keys lower names) \<and>
     list_all2 (\<lambda>key g. lower (tg_name g) = key \<and> distinct (tg_line_ids g) \<and> tg_line_ids g \<noteq> [] \<and>
         set (tg_line_ids g) = {lineId. \<exists>names. (lineId, names) \<in> set perLine \<and> key \<in> tag_keys lower names})
       keys (groupImportByTag lower perLine)"
proof -
  let ?step = "\<lambda>groups (lineId, names). foldl (group_name lower lineId) groups names"
  have "groups_ok lower (foldl ?step groups ps)
      (\<lambda>key. lines_of key \<union> {lineId. \<exists>names. (lineId, names) \<in> set ps \<and> key \<in> tag_keys lower names})"
    if "groups_ok lower groups lines_of" for ps groups lines_of
    using that
  proof (induction ps arbitrary: groups lines_of)
    case (Cons p ps)
    obtain i names where p: "p = (i, names)" by (cases p)
    have "(\<lambda>key. (if key \<in> tag_keys lower names then insert i (lines_of key) else lines_of key) \<union>
          {lineId. \<exists>names. (lineId, names) \<in> set ps \<and> key \<in> tag_keys lower names}) =
        (\<lambda>key. lines_of key \<union> {lineId. \<exists>names. (lineId, names) \<in> set (p # ps) \<and> key \<in> tag_keys lower names})"
      by (rule ext) (auto simp: p)
    with Cons.IH [OF group_names_ok [OF Cons.prems, of i names]] show ?case by (simp add: p)
  qed simp
  from this [of "[]" "\<lambda>_. {}" perLine]
  have ok: "groups_ok lower (foldl ?step [] perLine)
      (\<lambda>key. {lineId. \<exists>names. (lineId, names) \<in> set perLine \<and> key \<in> tag_keys lower names})"
    by (simp add: groups_ok_def)
  define groups where "groups = foldl ?step [] perLine"
  have law: "case map_of groups key of
        None \<Rightarrow> {lineId. \<exists>names. (lineId, names) \<in> set perLine \<and> key \<in> tag_keys lower names} = {}
      | Some g \<Rightarrow> set (tg_line_ids g) = {lineId. \<exists>names. (lineId, names) \<in> set perLine \<and> key \<in> tag_keys lower names} \<and>
          distinct (tg_line_ids g) \<and> {lineId. \<exists>names. (lineId, names) \<in> set perLine \<and> key \<in> tag_keys lower names} \<noteq> {} \<and>
          lower (tg_name g) = key" for key
    using ok by (simp add: groups_ok_def groups_def)
  have dist: "distinct (map fst groups)" using ok by (simp add: groups_ok_def groups_def)
  have keys: "set (map fst groups) = (\<Union>(lineId, names) \<in> set perLine. tag_keys lower names)"
  proof (intro set_eqI iffI)
    fix key assume "key \<in> set (map fst groups)"
    then obtain g where "map_of groups key = Some g" by (metis map_of_eq_None_iff not_None_eq set_map)
    then show "key \<in> (\<Union>(lineId, names) \<in> set perLine. tag_keys lower names)" using law [of key] by auto
  next
    fix key assume "key \<in> (\<Union>(lineId, names) \<in> set perLine. tag_keys lower names)"
    then have "map_of groups key \<noteq> None" using law [of key] by (auto split: option.splits)
    then show "key \<in> set (map fst groups)" by (metis map_of_eq_None_iff set_map)
  qed
  have each: "lower (tg_name g) = key \<and> distinct (tg_line_ids g) \<and> tg_line_ids g \<noteq> [] \<and>
      set (tg_line_ids g) = {lineId. \<exists>names. (lineId, names) \<in> set perLine \<and> key \<in> tag_keys lower names}"
    if "(key, g) \<in> set groups" for key g
    using law [of key] map_of_is_SomeI [OF dist that] by auto
  have "list_all2 (\<lambda>key g. lower (tg_name g) = key \<and> distinct (tg_line_ids g) \<and> tg_line_ids g \<noteq> [] \<and>
         set (tg_line_ids g) = {lineId. \<exists>names. (lineId, names) \<in> set perLine \<and> key \<in> tag_keys lower names})
       (map fst groups) (map snd groups)"
    unfolding list_all2_map1 list_all2_map2 list_all2_same by (intro ballI each) simp
  then show ?thesis using dist keys
    by (intro exI [of _ "map fst groups"]) (simp add: groupImportByTag_def groups_def)
qed

end
