(* ===== verification/Takedown.thy ===== *)
theory Takedown
  imports Url_Params
begin

text \<open>
  Link takedown requests as the buyer and the admin see them (features/takedown/model.ts): the five
  steps over the backend's eleven states, lists, pages and the admin filters.  Parameters: \<open>hostname\<close> and
  \<open>href\<close> of a parsed address, \<open>time_of\<close> a date, \<open>lower\<close> \<open>toLowerCase\<close> and \<open>cmp\<close> \<open>localeCompare\<close>.
\<close>

section \<open>Requests\<close>

datatype takedown_status =
  Review | Quoted | Started | Processing | Warranty | WarrantyClaim | Done | Failed | Declined | RejectedRequest | Cancelled

definition TERMINAL :: "takedown_status list" where
  "TERMINAL = [Done, Failed, Declined, RejectedRequest, Cancelled]"

definition isTerminal :: "takedown_status \<Rightarrow> bool" where
  "isTerminal status \<longleftrightarrow> status \<in> set TERMINAL"

record request =
  td_code :: jstr
  td_url :: jstr
  td_note :: "jstr option"
  td_status :: takedown_status
  td_warranty_until :: "jstr option"
  td_created_at :: jstr
  td_quoted_at :: "jstr option"
  td_accepted_at :: "jstr option"
  td_processing_at :: "jstr option"
  td_completed_at :: "jstr option"
  td_finished_at :: "jstr option"
  td_buyer_email :: "jstr option"

datatype service = ArticleCopyright | ProfileImpersonation | ProfileCopyright | GroupCopyright

definition SERVICES :: "service list" where
  "SERVICES = [ArticleCopyright, ProfileImpersonation, ProfileCopyright, GroupCopyright]"

definition WARRANTY_HOURS :: "int list" where "WARRANTY_HOURS = [24, 72]"

datatype platform = Tiktok | Facebook | Instagram | Youtube

definition HOSTS :: "(jstr list \<times> platform) list" where
  "HOSTS = [([js ''tiktok.com''], Tiktok), ([js ''facebook.com'', js ''fb.com'', js ''fb.watch''], Facebook),
     ([js ''instagram.com''], Instagram), ([js ''youtube.com'', js ''youtu.be''], Youtube)]"

definition host_in :: "jstr \<Rightarrow> jstr list \<Rightarrow> bool" where
  "host_in host domains \<longleftrightarrow> list_ex (\<lambda>d. host = d \<or> ends_with host (46 # d)) domains"

definition has_scheme :: "jstr \<Rightarrow> bool" where
  "has_scheme s \<longleftrightarrow> starts_with (to_lower s) (js ''http://'') \<or> starts_with (to_lower s) (js ''https://'')"

definition with_scheme :: "jstr \<Rightarrow> jstr" where
  "with_scheme s = (if has_scheme s then s else js ''https://'' @ s)"

definition platformOf :: "(jstr \<Rightarrow> jstr option) \<Rightarrow> jstr \<Rightarrow> platform option" where
  "platformOf hostname raw =
     (case hostname (with_scheme (js_trim raw)) of
        None \<Rightarrow> None
      | Some host \<Rightarrow> map_option snd (List.find (\<lambda>(domains, p). host_in (to_lower host) domains) HOSTS))"

definition openableUrl :: "(jstr \<Rightarrow> jstr option) \<Rightarrow> (jstr \<Rightarrow> jstr) \<Rightarrow> jstr option \<Rightarrow> jstr option" where
  "openableUrl hostname href raw =
     (let s = js_trim (or_empty raw)
      in if s = [] \<or> list_ex js_space s then None
         else case hostname (with_scheme s) of
           None \<Rightarrow> None
         | Some host \<Rightarrow> if 46 \<in> set host then Some (href (with_scheme s)) else None)"

definition drop_prefix :: "jstr \<Rightarrow> jstr \<Rightarrow> jstr" where
  "drop_prefix p s = (if starts_with (to_lower s) p then drop (length p) s else s)"

definition shortLink :: "jstr \<Rightarrow> jstr" where
  "shortLink raw =
     (let s = js_trim raw;
          s' = (if starts_with (to_lower s) (js ''https://'') then drop 8 s else drop_prefix (js ''http://'') s)
      in drop_prefix (js ''www.'') s')"

section \<open>Steps\<close>

datatype step = QuoteStep | PaymentStep | ProcessingStep | WarrantyStep | FinishedStep

definition STEPS :: "step list" where
  "STEPS = [QuoteStep, PaymentStep, ProcessingStep, WarrantyStep, FinishedStep]"

datatype step_state = StepDone | StepCurrent | StepWaitingYou | StepFailed | StepTodo | StepClosed

definition fill :: "nat \<Rightarrow> step_state \<Rightarrow> step_state \<Rightarrow> step_state list" where
  "fill pos here after = map (\<lambda>i. if i < pos then StepDone else if i = pos then here else after) [0..<length STEPS]"

definition present :: "jstr option \<Rightarrow> bool" where
  "present x \<longleftrightarrow> or_empty x \<noteq> []"

definition stepStates :: "request \<Rightarrow> step_state list" where
  "stepStates r =
     (case td_status r of
        Review \<Rightarrow> fill 0 StepCurrent StepTodo
      | Quoted \<Rightarrow> fill 0 StepWaitingYou StepTodo
      | Started \<Rightarrow> fill 1 StepCurrent StepTodo
      | Processing \<Rightarrow> fill 2 StepCurrent StepTodo
      | Warranty \<Rightarrow> fill 3 StepCurrent StepTodo
      | WarrantyClaim \<Rightarrow> fill 3 StepCurrent StepTodo
      | Done \<Rightarrow> fill 5 StepDone StepTodo
      | Failed \<Rightarrow> fill (if present (td_completed_at r) then 4 else 2) StepFailed StepClosed
      | Declined \<Rightarrow> fill 0 StepFailed StepClosed
      | RejectedRequest \<Rightarrow> fill 0 StepFailed StepClosed
      | Cancelled \<Rightarrow> fill (if present (td_accepted_at r) then 1 else 0) StepFailed StepClosed)"

datatype bucket = BucketReview | BucketQuoted | BucketProcessing | BucketWarranty | BucketFinished

definition BUCKETS :: "bucket list" where
  "BUCKETS = [BucketReview, BucketQuoted, BucketProcessing, BucketWarranty, BucketFinished]"

definition bucketOf :: "takedown_status \<Rightarrow> bucket" where
  "bucketOf status =
     (case status of
        Review \<Rightarrow> BucketReview | Quoted \<Rightarrow> BucketQuoted
      | Started \<Rightarrow> BucketProcessing | Processing \<Rightarrow> BucketProcessing
      | Warranty \<Rightarrow> BucketWarranty | WarrantyClaim \<Rightarrow> BucketWarranty
      | _ \<Rightarrow> BucketFinished)"

datatype tone = ToneGood | ToneWarn | ToneBad | ToneIris | ToneNeutral

definition statusView :: "takedown_status \<Rightarrow> string \<times> tone" where
  "statusView status =
     (case status of
        Review \<Rightarrow> (''review'', ToneIris) | Quoted \<Rightarrow> (''quoted'', ToneWarn) | Started \<Rightarrow> (''started'', ToneIris)
      | Processing \<Rightarrow> (''processing'', ToneIris) | Warranty \<Rightarrow> (''warranty'', ToneGood)
      | WarrantyClaim \<Rightarrow> (''warrantyClaim'', ToneWarn) | Done \<Rightarrow> (''done'', ToneGood) | Failed \<Rightarrow> (''failed'', ToneBad)
      | Declined \<Rightarrow> (''declined'', ToneNeutral) | RejectedRequest \<Rightarrow> (''rejected'', ToneNeutral)
      | Cancelled \<Rightarrow> (''cancelled'', ToneNeutral))"

definition needsBuyer :: "request \<Rightarrow> bool" where
  "needsBuyer r \<longleftrightarrow> td_status r = Quoted"

definition canCancel :: "request \<Rightarrow> bool" where
  "canCancel r \<longleftrightarrow> td_status r = Review \<or> td_status r = Quoted \<or> td_status r = Started"

definition countByBucket :: "request list \<Rightarrow> (bucket \<times> nat) list" where
  "countByBucket requests =
     foldl (\<lambda>counts r. map (\<lambda>(b, n). (b, if b = bucketOf (td_status r) then n + 1 else n)) counts)
       (map (\<lambda>b. (b, 0)) BUCKETS) requests"

text \<open>\<open>a ?? b\<close>\<close>

definition or_else :: "'a option \<Rightarrow> 'a \<Rightarrow> 'a" where
  "or_else x d = (case x of None \<Rightarrow> d | Some v \<Rightarrow> v)"

definition stateSince :: "request \<Rightarrow> jstr" where
  "stateSince r =
     (case td_status r of
        Review \<Rightarrow> td_created_at r
      | Quoted \<Rightarrow> or_else (td_quoted_at r) (td_created_at r)
      | Started \<Rightarrow> or_else (td_accepted_at r) (td_created_at r)
      | Processing \<Rightarrow> or_else (td_processing_at r) (or_else (td_accepted_at r) (td_created_at r))
      | Warranty \<Rightarrow> or_else (td_completed_at r) (td_created_at r)
      | WarrantyClaim \<Rightarrow> or_else (td_completed_at r) (td_created_at r)
      | _ \<Rightarrow> or_else (td_finished_at r) (td_created_at r))"

text \<open>Hours, minutes and seconds left; an invalid date makes all three not-a-number (the inner \<^const>\<open>None\<close>).\<close>

definition warrantyLeft :: "(jstr \<Rightarrow> int option) \<Rightarrow> request \<Rightarrow> int \<Rightarrow> (nat \<times> nat \<times> nat) option option" where
  "warrantyLeft time_of r now =
     (if (td_status r \<noteq> Warranty \<and> td_status r \<noteq> WarrantyClaim) \<or> \<not> present (td_warranty_until r) then None
      else Some (map_option (\<lambda>t. let secs = nat (max 0 (t - now) div 1000)
                                 in (secs div 3600, secs mod 3600 div 60, secs mod 60))
                   (time_of (or_empty (td_warranty_until r)))))"

section \<open>Pages and lists\<close>

definition PAGE_SIZES :: "int list" where "PAGE_SIZES = [10, 20, 50]"

definition parsePage :: "jstr option \<Rightarrow> int" where
  "parsePage value = pick_int 0 1 value"

definition parsePerPage :: "int \<Rightarrow> jstr option \<Rightarrow> int" where
  "parsePerPage fallback value = pick_size PAGE_SIZES fallback value"

record 'a page_of =
  pg_rows :: "'a list"
  pg_page :: int
  pg_totalPages :: int
  pg_total :: nat

text \<open>The page size is a positive number.\<close>

definition paginate :: "'a list \<Rightarrow> int \<Rightarrow> nat \<Rightarrow> 'a page_of" where
  "paginate its page perPage =
     (let totalPages = max 1 \<lceil>of_nat (length its) / (of_nat perPage :: rat)\<rceil>;
          current = min (max 1 page) totalPages;
          start = nat ((current - 1) * int perPage)
      in \<lparr> pg_rows = take perPage (drop start its), pg_page = current, pg_totalPages = totalPages, pg_total = length its \<rparr>)"

datatype list_tab = TabAllRequests | TabBucket bucket

fun list_tab_name :: "list_tab \<Rightarrow> string" where
  "list_tab_name TabAllRequests = ''all''" | "list_tab_name (TabBucket BucketReview) = ''review''"
| "list_tab_name (TabBucket BucketQuoted) = ''quoted''" | "list_tab_name (TabBucket BucketProcessing) = ''processing''"
| "list_tab_name (TabBucket BucketWarranty) = ''warranty''" | "list_tab_name (TabBucket BucketFinished) = ''finished''"

definition LIST_TABS :: "list_tab list" where
  "LIST_TABS = TabAllRequests # map TabBucket BUCKETS"

definition parseListTab :: "jstr option \<Rightarrow> list_tab" where
  "parseListTab value = pick_enum list_tab_name LIST_TABS TabAllRequests value"

definition matches :: "(jstr \<Rightarrow> jstr) \<Rightarrow> request \<Rightarrow> jstr \<Rightarrow> bool" where
  "matches lower r term \<longleftrightarrow> term = [] \<or> str_includes (lower (td_code r)) term \<or> str_includes (lower (td_url r)) term \<or>
     str_includes (lower (or_empty (td_note r))) term \<or> str_includes (lower (or_empty (td_buyer_email r))) term"

definition in_tab :: "list_tab \<Rightarrow> request \<Rightarrow> bool" where
  "in_tab tab r \<longleftrightarrow> tab = TabAllRequests \<or> tab = TabBucket (bucketOf (td_status r))"

definition filterRequests :: "(jstr \<Rightarrow> jstr) \<Rightarrow> request list \<Rightarrow> list_tab \<Rightarrow> jstr \<Rightarrow> request list" where
  "filterRequests lower requests tab search =
     filter (\<lambda>r. in_tab tab r \<and> matches lower r (lower (js_trim search))) requests"

definition urgent_first :: "(jstr \<Rightarrow> jstr \<Rightarrow> int) \<Rightarrow> request \<Rightarrow> request \<Rightarrow> int" where
  "urgent_first cmp a b =
     (let urgent = (if needsBuyer b then 1 else 0) - (if needsBuyer a then 1 else 0)
      in if urgent \<noteq> 0 then urgent else cmp (td_created_at b) (td_created_at a))"

definition sortRequests :: "(jstr \<Rightarrow> jstr \<Rightarrow> int) \<Rightarrow> request list \<Rightarrow> request list" where
  "sortRequests cmp requests = sort_by (urgent_first cmp) requests"

section \<open>The admin table\<close>

datatype admin_sort = SortWaiting | SortNewest | SortOldest

fun admin_sort_name :: "admin_sort \<Rightarrow> string" where
  "admin_sort_name SortWaiting = ''waiting''" | "admin_sort_name SortNewest = ''newest''" | "admin_sort_name SortOldest = ''oldest''"

definition ADMIN_SORTS :: "admin_sort list" where "ADMIN_SORTS = [SortWaiting, SortNewest, SortOldest]"

datatype platform_filter = AnyPlatform | PlatformIs platform | OtherPlatform

fun platform_filter_name :: "platform_filter \<Rightarrow> string" where
  "platform_filter_name AnyPlatform = ''all''" | "platform_filter_name (PlatformIs Tiktok) = ''tiktok''"
| "platform_filter_name (PlatformIs Facebook) = ''facebook''" | "platform_filter_name (PlatformIs Instagram) = ''instagram''"
| "platform_filter_name (PlatformIs Youtube) = ''youtube''" | "platform_filter_name OtherPlatform = ''other''"

definition PLATFORM_FILTERS :: "platform_filter list" where
  "PLATFORM_FILTERS = [PlatformIs Tiktok, PlatformIs Facebook, PlatformIs Instagram, PlatformIs Youtube, OtherPlatform]"

record admin_filters =
  af_tab :: list_tab
  af_platform :: platform_filter
  af_q :: jstr
  af_sort :: admin_sort
  af_page :: int
  af_perPage :: int

definition DEFAULT_ADMIN_FILTERS :: admin_filters where
  "DEFAULT_ADMIN_FILTERS = \<lparr> af_tab = TabBucket BucketReview, af_platform = AnyPlatform, af_q = [], af_sort = SortWaiting,
     af_page = 1, af_perPage = 20 \<rparr>"

definition parseAdminFilters :: "url_params \<Rightarrow> admin_filters" where
  "parseAdminFilters params = \<lparr>
     af_tab = (case qget params ''status'' of None \<Rightarrow> TabBucket BucketReview | Some t \<Rightarrow> parseListTab (Some t)),
     af_platform = pick_enum platform_filter_name PLATFORM_FILTERS AnyPlatform (qget params ''platform''),
     af_q = or_empty (qget params ''q''),
     af_sort = pick_enum admin_sort_name ADMIN_SORTS SortWaiting (qget params ''sort''),
     af_page = parsePage (qget params ''page''),
     af_perPage = parsePerPage 20 (qget params ''per'') \<rparr>"

definition adminFiltersToSearch :: "admin_filters \<Rightarrow> url_params" where
  "adminFiltersToSearch f =
     qput ''per'' (af_perPage f \<noteq> 20) (show_int (af_perPage f))
     (qput ''page'' (1 < af_page f) (show_int (af_page f))
     (qput ''sort'' (af_sort f \<noteq> SortWaiting) (js (admin_sort_name (af_sort f)))
     (qput ''q'' (js_trim (af_q f) \<noteq> []) (js_trim (af_q f))
     (qput ''platform'' (af_platform f \<noteq> AnyPlatform) (js (platform_filter_name (af_platform f)))
     (qput ''status'' (af_tab f \<noteq> TabBucket BucketReview) (js (list_tab_name (af_tab f))) [])))))"

definition admin_match :: "(jstr \<Rightarrow> jstr option) \<Rightarrow> (jstr \<Rightarrow> jstr) \<Rightarrow> admin_filters \<Rightarrow> request \<Rightarrow> bool" where
  "admin_match hostname lower f r \<longleftrightarrow> in_tab (af_tab f) r \<and>
     (case af_platform f of
        AnyPlatform \<Rightarrow> True
      | OtherPlatform \<Rightarrow> platformOf hostname (td_url r) = None
      | PlatformIs p \<Rightarrow> platformOf hostname (td_url r) = Some p) \<and>
     matches lower r (lower (js_trim (af_q f)))"

definition admin_order :: "(jstr \<Rightarrow> jstr \<Rightarrow> int) \<Rightarrow> admin_sort \<Rightarrow> request \<Rightarrow> request \<Rightarrow> int" where
  "admin_order cmp how a b =
     (case how of
        SortNewest \<Rightarrow> cmp (td_created_at b) (td_created_at a)
      | SortOldest \<Rightarrow> cmp (td_created_at a) (td_created_at b)
      | SortWaiting \<Rightarrow> cmp (stateSince a) (stateSince b))"

definition applyAdminFilters ::
    "(jstr \<Rightarrow> jstr option) \<Rightarrow> (jstr \<Rightarrow> jstr) \<Rightarrow> (jstr \<Rightarrow> jstr \<Rightarrow> int) \<Rightarrow> request list \<Rightarrow> admin_filters \<Rightarrow> request list" where
  "applyAdminFilters hostname lower cmp requests f =
     sort_by (admin_order cmp (af_sort f)) (filter (admin_match hostname lower f) requests)"

definition maskEmail :: "jstr option \<Rightarrow> jstr" where
  "maskEmail email =
     (if or_empty email = [] then [0x2014]
      else case split_on 64 (or_empty email) of
        user # domain # _ \<Rightarrow> if domain = [] then or_empty email else take 2 user @ js ''***@'' @ domain
      | _ \<Rightarrow> or_empty email)"

section \<open>Steps and states\<close>

definition active_step :: "step_state \<Rightarrow> bool" where
  "active_step s \<longleftrightarrow> s = StepCurrent \<or> s = StepWaitingYou \<or> s = StepFailed"

lemma fill_simps [simp]:
  "fill 0 h a = [h, a, a, a, a]" "fill (Suc 0) h a = [StepDone, h, a, a, a]" "fill 2 h a = [StepDone, StepDone, h, a, a]"
  "fill 3 h a = [StepDone, StepDone, StepDone, h, a]" "fill 4 h a = [StepDone, StepDone, StepDone, StepDone, h]"
  "fill 5 h a = replicate 5 StepDone"
  by (simp_all add: fill_def STEPS_def upt_rec numeral_eq_Suc)

definition steps_shape :: "step_state list \<Rightarrow> bool" where
  "steps_shape xs \<longleftrightarrow> (\<exists>n here after. here = (if n = 5 then [] else [xs ! n]) \<and>
     xs = replicate n StepDone @ here @ replicate (4 - n) after \<and>
     list_all active_step here \<and> (after = StepTodo \<or> after = StepClosed))"

lemma steps_shape_fill:
  assumes "active_step h" "a = StepTodo \<or> a = StepClosed"
  shows "steps_shape [h, a, a, a, a]" "steps_shape [StepDone, h, a, a, a]" "steps_shape [StepDone, StepDone, h, a, a]"
    "steps_shape [StepDone, StepDone, StepDone, h, a]" "steps_shape [StepDone, StepDone, StepDone, StepDone, h]"
    "steps_shape (replicate 5 StepDone)"
proof -
  have "steps_shape (replicate n StepDone @ [h] @ replicate (4 - n) a)" if "n < 5" for n
    unfolding steps_shape_def using assms that
    by (intro exI [of _ n] exI [of _ "[h]"] exI [of _ a]) (auto simp: nth_append)
  from this [of 0] this [of 1] this [of 2] this [of 3] this [of 4]
  show "steps_shape [h, a, a, a, a]" "steps_shape [StepDone, h, a, a, a]" "steps_shape [StepDone, StepDone, h, a, a]"
    "steps_shape [StepDone, StepDone, StepDone, h, a]" "steps_shape [StepDone, StepDone, StepDone, StepDone, h]"
    by (simp_all add: numeral_eq_Suc)
  show "steps_shape (replicate 5 StepDone)"
    unfolding steps_shape_def by (intro exI [of _ 5] exI [of _ "[]"] exI [of _ StepTodo]) simp
qed

lemma steps_shape_end:
  "active_step h \<Longrightarrow> steps_shape [StepDone, StepDone, StepDone, StepDone, h]" "steps_shape (replicate 5 StepDone)"
  using steps_shape_fill(5) [of h StepTodo] steps_shape_fill(6) [of StepCurrent StepTodo] by (simp_all add: active_step_def)

lemma stepStates_shape: "steps_shape (stepStates r)"
  by (cases "td_status r") (simp_all add: stepStates_def active_step_def steps_shape_fill steps_shape_end)

text \<open>
  The five steps of a takedown request.  Whatever its state and its dates, the steps
  shown are a run of done steps, then at most one step that is under way, waiting for the buyer or
  failed, then steps that are all to do or all closed.  A step waits for the buyer exactly when the
  request is quoted, the request is over exactly when no step is under way or waiting, all five are
  done exactly when the request is, and a request that can be cancelled has not reached the third.
\<close>

theorem takedown_steps:
  "length (stepStates r) = length STEPS \<and>
   (\<exists>n here after. here = (if n = 5 then [] else [stepStates r ! n]) \<and>
      stepStates r = replicate n StepDone @ here @ replicate (4 - n) after \<and>
      list_all active_step here \<and> (after = StepTodo \<or> after = StepClosed)) \<and>
   (StepWaitingYou \<in> set (stepStates r)) = needsBuyer r \<and>
   isTerminal (td_status r) = (StepCurrent \<notin> set (stepStates r) \<and> StepWaitingYou \<notin> set (stepStates r)) \<and>
   (td_status r = Done) = (stepStates r = replicate 5 StepDone) \<and>
   (\<not> canCancel r \<or> stepStates r ! 2 = StepTodo)"
proof (intro conjI)
  show "\<exists>n here after. here = (if n = 5 then [] else [stepStates r ! n]) \<and>
      stepStates r = replicate n StepDone @ here @ replicate (4 - n) after \<and>
      list_all active_step here \<and> (after = StepTodo \<or> after = StepClosed)"
    using stepStates_shape [of r] unfolding steps_shape_def .
  have five: "replicate 5 StepDone = [StepDone, StepDone, StepDone, StepDone, StepDone]"
    by (simp add: numeral_eq_Suc)
  show "length (stepStates r) = length STEPS"
    by (cases "td_status r") (simp_all add: stepStates_def STEPS_def)
  show "(StepWaitingYou \<in> set (stepStates r)) = needsBuyer r"
    by (cases "td_status r") (simp_all add: stepStates_def needsBuyer_def)
  show "isTerminal (td_status r) = (StepCurrent \<notin> set (stepStates r) \<and> StepWaitingYou \<notin> set (stepStates r))"
    by (cases "td_status r") (simp_all add: stepStates_def isTerminal_def TERMINAL_def)
  show "(td_status r = Done) = (stepStates r = replicate 5 StepDone)"
    by (cases "td_status r") (simp_all add: stepStates_def five)
  show "\<not> canCancel r \<or> stepStates r ! 2 = StepTodo"
    by (cases "td_status r") (simp_all add: stepStates_def canCancel_def numeral_2_eq_2)
qed

section \<open>Pages\<close>

lemma ceil_div_bounds:
  fixes d n :: nat
  assumes "0 < d"
  shows "n \<le> (n + d - 1) div d * d" "(n + d - 1) div d * d < n + d"
proof -
  have "(n + d - 1) div d * d + (n + d - 1) mod d = n + d - 1" by (rule div_mult_mod_eq)
  moreover have "(n + d - 1) mod d \<le> d - 1" using mod_less_divisor [OF assms, of "n + d - 1"] by linarith
  ultimately show "n \<le> (n + d - 1) div d * d" "(n + d - 1) div d * d < n + d" using assms by linarith+
qed

lemma total_pages:
  assumes "0 < perPage"
  shows "\<lceil>of_nat n / (of_nat perPage :: rat)\<rceil> = int ((n + perPage - 1) div perPage)"
proof (rule ceiling_unique)
  define q where "q = (n + perPage - 1) div perPage"
  have le: "n \<le> perPage * q" and gt: "perPage * q < n + perPage"
    using ceil_div_bounds [OF assms, of n] unfolding q_def by (simp_all add: mult.commute)
  have p: "0 < (of_nat perPage :: rat)" using assms by simp
  have "(of_nat n :: rat) \<le> of_nat (perPage * q)" using le by (simp only: of_nat_le_iff)
  then show "of_nat n / (of_nat perPage :: rat) \<le> of_int (int ((n + perPage - 1) div perPage))"
    using p unfolding q_def by (simp add: field_simps)
  have "(of_nat (perPage * q) :: rat) < of_nat (n + perPage)" using gt by (simp only: of_nat_less_iff)
  then show "of_int (int ((n + perPage - 1) div perPage)) - 1 < of_nat n / (of_nat perPage :: rat)"
    using p unfolding q_def by (simp add: field_simps)
qed

definition page_count :: "nat \<Rightarrow> nat \<Rightarrow> nat" where
  "page_count n perPage = max 1 ((n + perPage - 1) div perPage)"

lemma paginate_unfold:
  "0 < perPage \<Longrightarrow> paginate xs page perPage =
     (let current = min (max 1 page) (int (page_count (length xs) perPage))
      in \<lparr> pg_rows = take perPage (drop (nat (current - 1) * perPage) xs), pg_page = current,
           pg_totalPages = int (page_count (length xs) perPage), pg_total = length xs \<rparr>)"
  by (simp add: paginate_def total_pages page_count_def Let_def nat_mult_distrib max_def)

lemma concat_pages: "concat (map (\<lambda>k. take d (drop (k * d) xs)) [0..<m]) = take (m * d) xs"
proof (induction m)
  case (Suc m)
  have "take (Suc m * d) xs = take (m * d + d) xs" by (simp add: add.commute)
  also have "\<dots> = take (m * d) xs @ take d (drop (m * d) xs)" by (rule take_add)
  finally show ?case using Suc by simp
qed simp

lemma page_count_covers: "0 < d \<Longrightarrow> n \<le> page_count n d * d"
  by (rule order_trans [OF ceil_div_bounds(1) mult_le_mono1]) (simp_all add: page_count_def)

lemma page_nonempty: "0 < d \<Longrightarrow> 0 < n \<Longrightarrow> (page_count n d - 1) * d < n"
  using ceil_div_bounds(2) [of d n] by (auto simp: page_count_def max_def diff_mult_distrib)

text \<open>
  The pages of the takedown tables.  For a positive page size every page asked for is
  moved into the range of the pages there are; a page never exceeds its size, the page shown of a
  list with entries is never empty, and the pages one after the other are the whole list.
\<close>

theorem takedown_pages:
  assumes "0 < perPage"
  shows "1 \<le> pg_page (paginate xs page perPage) \<and>
    pg_page (paginate xs page perPage) \<le> pg_totalPages (paginate xs page perPage) \<and>
    (if 1 \<le> page \<and> page \<le> pg_totalPages (paginate xs page perPage) then pg_page (paginate xs page perPage) = page else True) \<and>
    pg_total (paginate xs page perPage) = length xs \<and>
    length (pg_rows (paginate xs page perPage)) \<le> perPage \<and>
    (pg_rows (paginate xs page perPage) = []) = (xs = []) \<and>
    concat (map (\<lambda>k. pg_rows (paginate xs (int k + 1) perPage)) [0..<nat (pg_totalPages (paginate xs page perPage))]) = xs"
proof -
  let ?m = "page_count (length xs) perPage"
  define cur where "cur = min (max 1 page) (int ?m)"
  have m: "1 \<le> ?m" by (simp add: page_count_def)
  then have c: "1 \<le> cur" "cur \<le> int ?m" by (auto simp: cur_def)
  have p: "paginate xs page perPage = \<lparr> pg_rows = take perPage (drop (nat (cur - 1) * perPage) xs), pg_page = cur,
      pg_totalPages = int ?m, pg_total = length xs \<rparr>"
    using assms by (simp add: paginate_unfold cur_def Let_def)
  have "nat (cur - 1) \<le> ?m - 1" using c by linarith
  then have "nat (cur - 1) * perPage \<le> (?m - 1) * perPage" by (rule mult_le_mono1)
  then have ne: "nat (cur - 1) * perPage < length xs" if "xs \<noteq> []"
    using page_nonempty [OF assms, of "length xs"] that by (metis le_less_trans length_greater_0_conv)
  have rows: "pg_rows (paginate xs (int k + 1) perPage) = take perPage (drop (k * perPage) xs)" if "k < ?m" for k
    using assms that by (simp add: paginate_unfold Let_def min_def)
  have "map (\<lambda>k. pg_rows (paginate xs (int k + 1) perPage)) [0..<?m] =
      map (\<lambda>k. take perPage (drop (k * perPage) xs)) [0..<?m]"
    using rows by (intro map_cong) auto
  then have all: "concat (map (\<lambda>k. pg_rows (paginate xs (int k + 1) perPage)) [0..<?m]) = xs"
    unfolding \<open>map _ _ = _\<close> concat_pages using page_count_covers [OF assms] by (simp only: take_all)
  have empty: "(take perPage (drop (nat (cur - 1) * perPage) xs) = []) = (xs = [])"
    using ne assms by (cases "xs = []") (simp_all add: not_le)
  show ?thesis
    unfolding p using c assms all empty by (simp add: cur_def)
qed

lemma takedown_pages_witness:
  "concat (map (\<lambda>k. pg_rows (paginate [1, 2, 3 :: nat] (int k + 1) 2)) [0..<nat (pg_totalPages (paginate [1, 2, 3 :: nat] 7 2))]) = [1, 2, 3]"
  using takedown_pages [of 2 "[1, 2, 3 :: nat]" 7] by simp

section \<open>Counters and the admin table\<close>

lemma countByBucket_foldl:
  "map (\<lambda>b. (b, c b + count_list (map (bucketOf \<circ> td_status) rs) b)) bs =
     foldl (\<lambda>counts r. map (\<lambda>(b, n). (b, if b = bucketOf (td_status r) then n + 1 else n)) counts)
       (map (\<lambda>b. (b, c b)) bs) rs"
proof (induction rs arbitrary: c)
  case (Cons r rs)
  have "map (\<lambda>(b, n). (b, if b = bucketOf (td_status r) then n + 1 else n)) (map (\<lambda>b. (b, c b)) bs) =
      map (\<lambda>b. (b, if b = bucketOf (td_status r) then c b + 1 else c b)) bs"
    by simp
  then show ?case
    using Cons [of "\<lambda>b. if b = bucketOf (td_status r) then c b + 1 else c b", symmetric]
    by (auto simp: comp_def)
qed simp

lemma countByBucket_eq:
  "countByBucket rs = map (\<lambda>b. (b, length (filter (\<lambda>r. bucketOf (td_status r) = b) rs))) BUCKETS"
proof -
  have "count_list (map (bucketOf \<circ> td_status) rs) b = length (filter (\<lambda>r. bucketOf (td_status r) = b) rs)" for b
    by (induction rs) auto
  then show ?thesis
    unfolding countByBucket_def using countByBucket_foldl [of "\<lambda>_. 0" rs BUCKETS, symmetric] by simp
qed

lemma matches_Nil [simp]: "matches lower r []"
  by (simp add: matches_def)

lemma total_cmp_flip: "total_cmp cmp \<Longrightarrow> total_cmp (\<lambda>a b. cmp (f b) (f a))"
  unfolding total_cmp_def by blast

lemma total_cmp_key: "total_cmp cmp \<Longrightarrow> total_cmp (\<lambda>a b. cmp (f a) (f b))"
  unfolding total_cmp_def by blast

lemma total_admin_order: "total_cmp cmp \<Longrightarrow> total_cmp (admin_order cmp how)"
  by (cases how) (simp_all add: admin_order_def [abs_def] total_cmp_flip total_cmp_key)

definition same_place :: "(jstr \<Rightarrow> jstr \<Rightarrow> int) \<Rightarrow> admin_sort \<Rightarrow> request \<Rightarrow> request \<Rightarrow> bool" where
  "same_place cmp how a b \<longleftrightarrow> admin_order cmp how a b \<le> 0 \<and> admin_order cmp how b a \<le> 0"

lemma same_place_stable:
  assumes "total_cmp cmp"
  shows "filter (same_place cmp how a) (sort_by (admin_order cmp how) rs) = filter (same_place cmp how a) rs"
proof (rule sort_by_stable [OF total_admin_order [OF assms]])
  fix x y
  assume "same_place cmp how a x" "same_place cmp how a y"
  then have "admin_order cmp how x a \<le> 0" "admin_order cmp how a y \<le> 0" by (simp_all add: same_place_def)
  then show "admin_order cmp how x y \<le> 0"
    using total_admin_order [OF assms, of how] unfolding total_cmp_def by blast
qed

lemma count_sum: "sum_list (map snd (countByBucket rs)) = length rs"
proof (induction rs)
  case (Cons r rs)
  then show ?case by (cases "bucketOf (td_status r)") (simp_all add: countByBucket_eq BUCKETS_def)
qed (simp add: countByBucket_eq BUCKETS_def)

text \<open>
  The admin's takedown table.  It holds exactly the requests that match the tab,
  the platform and the search, each as often as it was given, in the chosen order, and requests that
  the order does not tell apart keep their places; with no platform and no search chosen, the rows of
  a tab are as many as its counter says and the counters add up to all requests.
\<close>

theorem takedown_admin_table:
  assumes "total_cmp cmp" and "lower [] = []"
  shows "mset (applyAdminFilters hostname lower cmp rs f) = filter_mset (admin_match hostname lower f) (mset rs) \<and>
    sorted_wrt (\<lambda>a b. admin_order cmp (af_sort f) a b \<le> 0) (applyAdminFilters hostname lower cmp rs f) \<and>
    filter (same_place cmp (af_sort f) a) (applyAdminFilters hostname lower cmp rs f) =
      filter (same_place cmp (af_sort f) a) (filter (admin_match hostname lower f) rs) \<and>
    map_of (countByBucket rs) b =
      Some (length (applyAdminFilters hostname lower cmp rs (f \<lparr> af_tab := TabBucket b, af_platform := AnyPlatform, af_q := [] \<rparr>))) \<and>
    sum_list (map snd (countByBucket rs)) = length rs"
proof -
  have sel: "filter (admin_match hostname lower (f \<lparr> af_tab := TabBucket b, af_platform := AnyPlatform, af_q := [] \<rparr>)) rs
      = filter (\<lambda>r. bucketOf (td_status r) = b) rs"
    using assms(2) by (intro filter_cong) (auto simp: admin_match_def in_tab_def)
  have b: "b \<in> set BUCKETS" by (cases b) (simp_all add: BUCKETS_def)
  have count: "map_of (countByBucket rs) b = Some (length (filter (\<lambda>r. bucketOf (td_status r) = b) rs))"
    unfolding countByBucket_eq using b by (simp add: map_of_map_restrict)
  show ?thesis
    unfolding applyAdminFilters_def sel count using total_admin_order [OF assms(1)]
    by (simp add: sorted_sort_by same_place_stable [OF assms(1)] count_sum)
qed

definition sample_request :: request where
  "sample_request = \<lparr> td_code = js ''T1'', td_url = js ''https://youtu.be/x'', td_note = None, td_status = Review,
     td_warranty_until = None, td_created_at = js ''2026-07-01'', td_quoted_at = None, td_accepted_at = None,
     td_processing_at = None, td_completed_at = None, td_finished_at = None, td_buyer_email = None \<rparr>"

lemma takedown_admin_table_witness:
  "applyAdminFilters (\<lambda>_. None) to_lower (\<lambda>_ _. 0) [sample_request \<lparr> td_status := Done \<rparr>, sample_request] DEFAULT_ADMIN_FILTERS
     = [sample_request] \<and>
   mset (applyAdminFilters (\<lambda>_. None) to_lower (\<lambda>_ _. 0) [sample_request \<lparr> td_status := Done \<rparr>, sample_request] DEFAULT_ADMIN_FILTERS)
     = filter_mset (admin_match (\<lambda>_. None) to_lower DEFAULT_ADMIN_FILTERS)
         (mset [sample_request \<lparr> td_status := Done \<rparr>, sample_request])"
proof
  show "applyAdminFilters (\<lambda>_. None) to_lower (\<lambda>_ _. 0) [sample_request \<lparr> td_status := Done \<rparr>, sample_request] DEFAULT_ADMIN_FILTERS
     = [sample_request]"
    by (simp add: applyAdminFilters_def admin_match_def in_tab_def DEFAULT_ADMIN_FILTERS_def sample_request_def bucketOf_def to_lower_def)
qed (rule takedown_admin_table [THEN conjunct1]; simp add: total_cmp_def to_lower_def)

section \<open>The address of the admin table\<close>

definition admin_canon :: "admin_filters \<Rightarrow> admin_filters" where
  "admin_canon f = f \<lparr> af_q := js_trim (af_q f) \<rparr>"

definition admin_valid :: "admin_filters \<Rightarrow> bool" where
  "admin_valid f \<longleftrightarrow> 1 \<le> af_page f \<and> printable_int (af_page f) \<and> af_perPage f \<in> set PAGE_SIZES"

lemma takedown_enum_roundtrip [codec_simps]:
  "parseListTab (Some (js (list_tab_name t))) = t"
  "pick_enum platform_filter_name PLATFORM_FILTERS AnyPlatform None = AnyPlatform"
  "p \<noteq> AnyPlatform \<Longrightarrow> pick_enum platform_filter_name PLATFORM_FILTERS AnyPlatform (Some (js (platform_filter_name p))) = p"
  "pick_enum admin_sort_name ADMIN_SORTS SortWaiting None = SortWaiting"
  "pick_enum admin_sort_name ADMIN_SORTS SortWaiting (Some (js (admin_sort_name s))) = s"
  by (induct t rule: list_tab_name.induct; simp add: parseListTab_def pick_enum_def LIST_TABS_def BUCKETS_def js_eq_iff del: js_Cons)
    (induct p rule: platform_filter_name.induct; cases s;
      simp add: pick_enum_def PLATFORM_FILTERS_def ADMIN_SORTS_def js_eq_iff del: js_Cons)+

lemma takedown_numbers_roundtrip [codec_simps]:
  "parsePage None = 1" "printable_int n \<Longrightarrow> parsePage (Some (show_int n)) = (if 0 < n then n else 1)"
  "parsePerPage d None = d" "n \<in> set PAGE_SIZES \<Longrightarrow> parsePerPage d (Some (show_int n)) = n"
  by (auto simp: parsePage_def parsePerPage_def PAGE_SIZES_def printable_int_def overflow_bound_def)

interpretation takedown_url: url_codec parseAdminFilters adminFiltersToSearch admin_canon admin_valid
proof
  fix f :: admin_filters
  assume v: "admin_valid f"
  show "parseAdminFilters (adminFiltersToSearch f) = admin_canon f"
    using v
    by (intro admin_filters.equality)
      (auto simp: parseAdminFilters_def adminFiltersToSearch_def admin_canon_def admin_valid_def codec_simps)
  show "admin_valid (admin_canon f)" using v by (simp add: admin_valid_def admin_canon_def)
qed (auto simp: admin_canon_def adminFiltersToSearch_def)

text \<open>
  The admin's takedown table keeps its filters in the address.  Reading the address
  written for any filters with an offered page size gives them back with the search text trimmed, and
  the table made of them is the same.
\<close>

theorem takedown_address:
  assumes "admin_valid f"
  shows "parseAdminFilters (adminFiltersToSearch f) = admin_canon f \<and>
    applyAdminFilters hostname lower cmp rs (parseAdminFilters (adminFiltersToSearch f)) = applyAdminFilters hostname lower cmp rs f"
proof -
  have "admin_match hostname lower (admin_canon f) = admin_match hostname lower f"
    by (rule ext) (simp add: admin_match_def admin_canon_def)
  then show ?thesis
    using takedown_url.parse_print [OF assms] by (simp add: applyAdminFilters_def) (simp add: admin_canon_def)
qed

lemma takedown_address_witness:
  "parseAdminFilters (adminFiltersToSearch (DEFAULT_ADMIN_FILTERS \<lparr> af_page := 3 \<rparr>)) = DEFAULT_ADMIN_FILTERS \<lparr> af_page := 3 \<rparr>"
proof -
  have "admin_valid (DEFAULT_ADMIN_FILTERS \<lparr> af_page := 3 \<rparr>)"
    by (simp add: admin_valid_def DEFAULT_ADMIN_FILTERS_def PAGE_SIZES_def printable_int_def overflow_bound_def)
  from takedown_address [OF this, of undefined undefined undefined "[]"] show ?thesis
    by (simp add: admin_canon_def DEFAULT_ADMIN_FILTERS_def)
qed

end
