(* ===== verification/Money.thy ===== *)
theory Money
  imports Js_Number
begin

text \<open>
  Money (lib/money/format.ts, lib/money/constants.ts, lib/hold.ts).  The ledger is integer VND; the
  display currency only changes how an amount is written and how a typed amount is read.  \<open>intl\<close> is
  \<open>Intl.NumberFormat(locale, options).format\<close>; \<open>show_big\<close> is \<open>String\<close> of a number of \<open>10\<^sup>2\<^sup>1\<close> and more, which
  the language writes with an exponent.  Numbers are exact: the rounding of binary floating point in
  \<open>amount / rate\<close> and \<open>value * rate\<close> is not modelled.
\<close>

section \<open>Formatting\<close>

datatype currency = VND | USD

definition LEGACY_ORDER_DISPLAY_FX_RATE :: rat where "LEGACY_ORDER_DISPLAY_FX_RATE = 26000"

record number_options =
  no_currency :: currency
  no_narrow :: bool
  no_min :: "nat option"
  no_max :: nat

type_synonym number_format = "jstr \<Rightarrow> number_options \<Rightarrow> rat \<Rightarrow> jstr"

definition intlLocale :: "jstr \<Rightarrow> jstr" where
  "intlLocale locale =
     (if starts_with locale (js ''vi'') then js ''vi-VN'' else if starts_with locale (js ''en'') then js ''en-US''
      else if locale \<noteq> [] then locale else js ''en-US'')"

text \<open>The rate when it is a finite positive number.\<close>

definition valid_rate :: "jsnum option \<Rightarrow> rat option" where
  "valid_rate rate = (case rate of Some (Fin r) \<Rightarrow> if 0 < r then Some r else None | _ \<Rightarrow> None)"

definition isValidFxRate :: "jsnum option \<Rightarrow> bool" where
  "isValidFxRate rate \<longleftrightarrow> valid_rate rate \<noteq> None"

definition formatLedgerMoney :: "number_format \<Rightarrow> jsnum \<Rightarrow> jstr \<Rightarrow> jstr" where
  "formatLedgerMoney intl amountVnd locale =
     intl (intlLocale locale) \<lparr> no_currency = VND, no_narrow = False, no_min = None, no_max = 0 \<rparr>
       (case amountVnd of Fin a \<Rightarrow> a | _ \<Rightarrow> 0)"

text \<open>\<open>amount / rate\<close> for a finite positive rate.\<close>

definition div_rate :: "jsnum \<Rightarrow> rat \<Rightarrow> jsnum" where
  "div_rate x r = (case x of Fin a \<Rightarrow> num_of_rat (a / r) | _ \<Rightarrow> x)"

definition formatUsd :: "number_format \<Rightarrow> jsnum \<Rightarrow> jstr \<Rightarrow> rat \<Rightarrow> jstr" where
  "formatUsd intl amountVnd locale fxRate =
     (case div_rate amountVnd fxRate of
        Fin usd \<Rightarrow> intl (intlLocale locale)
          \<lparr> no_currency = USD, no_narrow = True, no_min = Some 2, no_max = (if 0 < usd \<and> usd < 1 / 100 then 6 else 2) \<rparr> usd
      | _ \<Rightarrow> formatLedgerMoney intl amountVnd locale)"

record display_context =
  dc_locale :: "jstr option"
  dc_currency :: currency
  dc_fxRate :: "jsnum option"

definition the_locale :: "jstr option \<Rightarrow> jstr" where
  "the_locale l = (case l of None \<Rightarrow> js ''en'' | Some s \<Rightarrow> s)"

definition formatByCurrency :: "number_format \<Rightarrow> jsnum \<Rightarrow> display_context \<Rightarrow> jstr" where
  "formatByCurrency intl amountVnd ctx =
     (case (dc_currency ctx, valid_rate (dc_fxRate ctx)) of
        (USD, Some rate) \<Rightarrow> formatUsd intl amountVnd (the_locale (dc_locale ctx)) rate
      | _ \<Rightarrow> formatLedgerMoney intl amountVnd (the_locale (dc_locale ctx)))"

definition formatBrowseMoney :: "number_format \<Rightarrow> jsnum \<Rightarrow> display_context \<Rightarrow> jstr" where
  "formatBrowseMoney intl amountVnd ctx = formatByCurrency intl amountVnd ctx"

definition formatUnitMoney :: "number_format \<Rightarrow> jsnum \<Rightarrow> display_context \<Rightarrow> jstr" where
  "formatUnitMoney intl amountVnd ctx =
     (let locale = the_locale (dc_locale ctx)
      in case valid_rate (dc_fxRate ctx) of
           Some rate \<Rightarrow>
             if dc_currency ctx \<noteq> USD then formatLedgerMoney intl amountVnd locale
             else (case div_rate amountVnd rate of
                     Fin usd \<Rightarrow> intl (intlLocale locale)
                       \<lparr> no_currency = USD, no_narrow = True, no_min = Some 2,
                         no_max = (if 0 < usd \<and> usd < 1 / 100 then 6 else 2) \<rparr> usd
                   | _ \<Rightarrow> formatLedgerMoney intl amountVnd locale)
         | None \<Rightarrow> formatLedgerMoney intl amountVnd locale)"

definition formatCheckoutMoney :: "number_format \<Rightarrow> jsnum \<Rightarrow> display_context \<Rightarrow> jstr" where
  "formatCheckoutMoney intl amountVnd ctx = formatByCurrency intl amountVnd ctx"

definition formatDisplayMoney :: "number_format \<Rightarrow> jsnum \<Rightarrow> display_context \<Rightarrow> jstr" where
  "formatDisplayMoney intl amountVnd ctx = formatByCurrency intl amountVnd ctx"

record historical_money =
  hm_text :: jstr
  hm_usedLegacyRate :: bool
  hm_rateUsed :: "rat option"

definition formatOrderHistoryMoney ::
    "number_format \<Rightarrow> jsnum \<Rightarrow> jsnum option \<Rightarrow> jstr option \<Rightarrow> currency \<Rightarrow> historical_money" where
  "formatOrderHistoryMoney intl amountVnd snapshotRate locale currency =
     (if currency \<noteq> USD
      then \<lparr> hm_text = formatLedgerMoney intl amountVnd (the_locale locale), hm_usedLegacyRate = False, hm_rateUsed = None \<rparr>
      else case valid_rate snapshotRate of
             Some rate \<Rightarrow> \<lparr> hm_text = formatUsd intl amountVnd (the_locale locale) rate, hm_usedLegacyRate = False,
                            hm_rateUsed = Some rate \<rparr>
           | None \<Rightarrow> \<lparr> hm_text = formatUsd intl amountVnd (the_locale locale) LEGACY_ORDER_DISPLAY_FX_RATE,
                       hm_usedLegacyRate = True, hm_rateUsed = Some LEGACY_ORDER_DISPLAY_FX_RATE \<rparr>)"

section \<open>Typed amounts\<close>

definition effectiveMoneyInputCurrency :: "currency \<Rightarrow> jsnum option \<Rightarrow> currency" where
  "effectiveMoneyInputCurrency currency fxRate = (if currency = USD \<and> isValidFxRate fxRate then USD else VND)"

text \<open>\<open>Math.round\<close>.\<close>

definition round_num :: "jsnum \<Rightarrow> jsnum" where
  "round_num x = (case x of Fin r \<Rightarrow> Fin (of_int (js_round r)) | _ \<Rightarrow> x)"

definition moneyInputToVnd :: "jstr \<Rightarrow> currency \<Rightarrow> jsnum option \<Rightarrow> jsnum" where
  "moneyInputToVnd raw currency fxRate =
     (case js_number raw of
        Fin v \<Rightarrow>
          if v \<le> 0 then Fin 0
          else (case (effectiveMoneyInputCurrency currency fxRate, valid_rate fxRate) of
                  (USD, Some rate) \<Rightarrow> round_num (num_of_rat (v * rate))
                | _ \<Rightarrow> Fin (of_int (js_round v)))
      | _ \<Rightarrow> Fin 0)"

definition pad_left :: "nat \<Rightarrow> code_unit \<Rightarrow> jstr \<Rightarrow> jstr" where
  "pad_left n c s = replicate (n - length s) c @ s"

text \<open>\<open>x.toFixed(6)\<close> and \<open>String\<close> of a non-negative integer.\<close>

definition toFixed6 :: "(rat \<Rightarrow> jstr) \<Rightarrow> rat \<Rightarrow> jstr" where
  "toFixed6 show_big x =
     (if 10 ^ 21 \<le> x then show_big x
      else let n = nat (js_round (x * 10 ^ 6))
           in show_nat (n div 10 ^ 6) @ 46 # pad_left 6 48 (show_nat (n mod 10 ^ 6)))"

definition show_number :: "(rat \<Rightarrow> jstr) \<Rightarrow> int \<Rightarrow> jstr" where
  "show_number show_big n = (if 10 ^ 21 \<le> n then show_big (of_int n) else show_int n)"

text \<open>\<open>s.replace(/\.?0+$/, "")\<close>\<close>

definition strip_zeros :: "jstr \<Rightarrow> jstr" where
  "strip_zeros s =
     (let z = dropWhile (\<lambda>c. c = 48) (rev s)
      in if z = rev s then s else rev (case z of c # z' \<Rightarrow> if c = 46 then z' else z | [] \<Rightarrow> z))"

definition vndToMoneyInput :: "(rat \<Rightarrow> jstr) \<Rightarrow> jsnum \<Rightarrow> currency \<Rightarrow> jsnum option \<Rightarrow> jstr" where
  "vndToMoneyInput show_big amountVnd currency fxRate =
     (case amountVnd of
        Fin a \<Rightarrow>
          if a \<le> 0 then []
          else (case (effectiveMoneyInputCurrency currency fxRate, valid_rate fxRate) of
                  (USD, Some rate) \<Rightarrow>
                    (case num_of_rat (a / rate) of Fin usd \<Rightarrow> strip_zeros (toFixed6 show_big usd) | _ \<Rightarrow> js ''Infinity'')
                | _ \<Rightarrow> show_number show_big (js_round a))
      | _ \<Rightarrow> [])"

definition vndToUsd :: "jsnum \<Rightarrow> jsnum option \<Rightarrow> jsnum option" where
  "vndToUsd amountVnd fxRate =
     (case valid_rate fxRate of
        None \<Rightarrow> None
      | Some rate \<Rightarrow> (case div_rate amountVnd rate of Fin usd \<Rightarrow> Some (Fin usd) | _ \<Rightarrow> None))"

definition parseDisplayCurrency :: "jstr option \<Rightarrow> currency option" where
  "parseDisplayCurrency v =
     (if v = Some (js ''VND'') then Some VND else if v = Some (js ''USD'') then Some USD else None)"

text \<open>Escrow holds in hours, read as days where they are whole days.\<close>

datatype hold_unit = Days | Hours

definition holdParts :: "rat \<Rightarrow> hold_unit \<times> int" where
  "holdParts hours =
     (let v = max 0 (js_round hours) in if 0 < v \<and> v mod 24 = 0 then (Days, v div 24) else (Hours, v))"

section \<open>Reading back a written amount\<close>

lemma digits_value_zeros: "digits_value 10 n (replicate k 48) = Some (n * 10 ^ k)"
  by (induction k arbitrary: n) (simp_all add: digit_value_def word_le_nat_alt)

lemma digits_value_mult:
  "digits_value 10 a s = Some n \<Longrightarrow> digits_value 10 (a + b) s = Some (n + b * 10 ^ length s)"
proof (induction "10 :: nat" a s arbitrary: b rule: digits_value.induct)
  case (2 acc c cs)
  then obtain d where d: "digit_value c = Some d" "d < 10" by (auto split: option.splits if_splits)
  with 2(2) have "digits_value 10 (acc * 10 + d) cs = Some n" by simp
  from 2(1) [OF d this, of "b * 10"] d show ?case by (simp add: algebra_simps)
qed simp

lemma digits_value_concat:
  assumes "digits_value 10 0 s = Some m" "digits_value 10 0 t = Some n"
  shows "digits_value 10 0 (s @ t) = Some (m * 10 ^ length t + n)"
  using assms digits_value_mult [of 0 t n m] by (simp add: digits_value_append add.commute)

lemma strip_zeros_cases:
  obtains k where "s = strip_zeros s @ replicate k 48"
  | k where "s = strip_zeros s @ 46 # replicate (Suc k) 48"
proof -
  define z where "z = dropWhile (\<lambda>c. c = 48) (rev s)"
  define k where "k = length (takeWhile (\<lambda>c. c = 48) (rev s))"
  have "takeWhile (\<lambda>c. c = 48) (rev s) = replicate k 48"
    unfolding k_def by (rule replicate_length_same [symmetric]) (auto dest: set_takeWhileD)
  then have "rev s = replicate k 48 @ z"
    using takeWhile_dropWhile_id [of "\<lambda>c. c = 48" "rev s"] unfolding z_def by simp
  then have "rev (rev s) = rev (replicate k 48 @ z)" by (rule arg_cong)
  then have s: "s = rev z @ replicate k 48" by simp
  show thesis
  proof (cases "z = rev s")
    case True
    then have "strip_zeros s = s" unfolding strip_zeros_def z_def by simp
    then show thesis using that(1) [of 0] by simp
  next
    case False
    then have st: "strip_zeros s = rev (case z of c # z' \<Rightarrow> if c = 46 then z' else z | [] \<Rightarrow> z)"
      unfolding strip_zeros_def z_def Let_def by simp
    from False s obtain k' where k': "k = Suc k'" by (cases k) auto
    show thesis
    proof (cases "\<exists>z'. z = 46 # z'")
      case True
      then obtain z' where "z = 46 # z'" by blast
      with st s k' show thesis using that(2) [of k'] by simp
    next
      case False
      with st have "strip_zeros s = rev z" by (auto split: list.splits)
      with s show thesis using that(1) [of k] by simp
    qed
  qed
qed

lemma digits_free_point: "list_all is_digit s \<Longrightarrow> 46 \<notin> set s"
  using digit_neq by (fastforce simp: list_all_iff)

lemma split_at_point:
  assumes "x @ 46 # y = x' @ 46 # y'" "46 \<notin> set x" "46 \<notin> set x'"
  shows "x = x' \<and> y = (y' :: jstr)"
proof -
  from assms(1) have "split_on 46 (x @ 46 # y) = split_on 46 (x' @ 46 # y')" by simp
  then have "x = x'" using assms(2,3) by (simp add: split_on_append)
  with assms(1) show ?thesis by simp
qed

text \<open>A number with six decimals reads back whatever zeros are cut off its end.\<close>

definition fixed6 :: "nat \<Rightarrow> jstr" where
  "fixed6 n = show_nat (n div 10 ^ 6) @ 46 # pad_left 6 48 (show_nat (n mod 10 ^ 6))"

lemma fixed6_parts:
  defines "w n \<equiv> show_nat (n div 10 ^ 6)" and "f n \<equiv> pad_left 6 48 (show_nat (n mod 10 ^ 6))"
  shows "length (f n) = 6" "digits_value 10 0 (f n) = Some (n mod 10 ^ 6)" "digits_value 10 0 (w n @ f n) = Some n"
    "list_all is_digit (w n)" "list_all is_digit (f n)"
proof -
  have le: "length (show_nat (n mod 10 ^ 6)) \<le> 6" by (rule length_show_nat) simp_all
  then show len: "length (f n) = 6" by (simp add: f_def pad_left_def)
  show dv: "digits_value 10 0 (f n) = Some (n mod 10 ^ 6)" by (simp add: f_def pad_left_def)
  show "digits_value 10 0 (w n @ f n) = Some n"
    using digits_value_concat [OF digits_value_show_nat dv, of "n div 10 ^ 6"] len by (simp add: w_def)
  show "list_all is_digit (w n)" "list_all is_digit (f n)"
    by (auto simp: w_def f_def pad_left_def list_all_iff is_digit_def word_le_nat_alt dest: show_nat_digits)
qed

lemma js_number_decimal:
  assumes "list_all is_digit w" "list_all is_digit f" "w \<noteq> []" "digits_value 10 0 (w @ f) = Some m"
  shows "js_number (w @ 46 # f) = num_of_rat (of_nat m / 10 ^ length f)"
proof -
  have "46 \<notin> set w" "46 \<notin> set f" using assms digits_free_point by blast+
  then have "parse_mantissa (w @ 46 # f) 0 = Some (of_nat m / 10 ^ length f)"
    using assms(3,4) by (cases "f = []") (simp_all add: parse_mantissa_def split_on_append split_on_free scale10_def)
  moreover have "is_digit (hd (w @ 46 # f))" using assms(1,3) by (cases w) auto
  ultimately show ?thesis
    using assms by (subst js_number_plain) (auto simp: list_all_iff)
qed

lemma js_number_whole:
  assumes "list_all is_digit w" "w \<noteq> []" "digits_value 10 0 w = Some m"
  shows "js_number w = num_of_rat (of_nat m)"
proof -
  have "46 \<notin> set w" using assms digits_free_point by blast
  then have "parse_mantissa w 0 = Some (of_nat m)"
    using assms(2,3) by (simp add: parse_mantissa_def split_on_free scale10_def)
  then show ?thesis using assms by (subst js_number_plain) (auto simp: list_all_iff)
qed

lemma read_fixed6: "js_number (strip_zeros (fixed6 n)) = num_of_rat (of_nat n / 10 ^ 6)"
proof -
  define w where "w = show_nat (n div 10 ^ 6)"
  define f where "f = pad_left 6 48 (show_nat (n mod 10 ^ 6))"
  note parts = fixed6_parts [of n, folded w_def f_def]
  have free: "46 \<notin> set w" "46 \<notin> set f" using parts digits_free_point by blast+
  have s: "fixed6 n = w @ 46 # f" by (simp add: fixed6_def w_def f_def)
  have ne: "w \<noteq> []" by (simp add: w_def)
  show ?thesis
  proof (cases rule: strip_zeros_cases [of "fixed6 n"])
    case (1 k)
    define t where "t = strip_zeros (fixed6 n)"
    have "46 \<in> set (t @ replicate k 48)" using 1 s unfolding t_def by (metis in_set_conv_decomp)
    then have "46 \<in> set t" by auto
    then obtain x y where t: "t = x @ 46 # y" "46 \<notin> set x" by (metis split_list_first)
    have "w @ 46 # f = x @ 46 # (y @ replicate k 48)" using 1 s t unfolding t_def by simp
    from split_at_point [OF this free(1) t(2)] have wx: "w = x" and f: "f = y @ replicate k 48" by auto
    have dy: "list_all is_digit y" using parts(5) f by simp
    have len: "length y + k = 6" using parts(1) f by simp
    have whole: "digits_value 10 0 ((w @ y) @ replicate k 48) = Some n" using parts(3) f by simp
    then obtain m where m: "digits_value 10 0 (w @ y) = Some m"
      unfolding digits_value_append [of _ _ "w @ y"] by (auto simp: bind_eq_Some_conv)
    have "Some n = digits_value 10 0 ((w @ y) @ replicate k 48)" using whole by simp
    also have "\<dots> = Some (m * 10 ^ k)" using m by (simp only: digits_value_append [of _ _ "w @ y"]) (simp add: digits_value_zeros)
    finally have n: "n = m * 10 ^ k" by simp
    have "js_number t = num_of_rat (of_nat m / 10 ^ length y)"
      using js_number_decimal [OF parts(4) dy ne m] t wx by simp
    moreover have "(of_nat n :: rat) / 10 ^ 6 = of_nat m / 10 ^ length y"
      using len by (simp add: n flip: len) (simp add: power_add)
    ultimately show ?thesis by (simp add: t_def)
  next
    case (2 k)
    define t where "t = strip_zeros (fixed6 n)"
    have "t @ 46 # replicate (Suc k) 48 = w @ 46 # f" using 2 s by (simp add: t_def)
    moreover have "46 \<notin> set t"
    proof
      assume "46 \<in> set t"
      then obtain x y where t: "t = x @ 46 # y" "46 \<notin> set x" by (metis split_list_first)
      then have "w @ 46 # f = x @ 46 # (y @ 46 # replicate (Suc k) 48)" using 2 s t_def by simp
      from split_at_point [OF this free(1) t(2)] free(2) show False by auto
    qed
    ultimately have tw: "t = w" and f: "f = replicate (Suc k) 48"
      using split_at_point free(1) by blast+
    have "digits_value 10 0 f = Some 0" unfolding f by (simp only: digits_value_zeros mult_0)
    with parts(2) have "n mod 10 ^ 6 = 0" by simp
    then have "n = n div 10 ^ 6 * 10 ^ 6" using div_mult_mod_eq [of n "10 ^ 6"] by simp
    then have "(of_nat n :: rat) = of_nat (n div 10 ^ 6) * 10 ^ 6"
      by (metis of_nat_mult of_nat_numeral of_nat_power)
    then have "(of_nat n :: rat) / 10 ^ 6 = of_nat (n div 10 ^ 6)" by simp
    moreover have "js_number t = num_of_rat (of_nat (n div 10 ^ 6))"
      using js_number_whole [OF parts(4) ne] tw by (simp add: w_def)
    ultimately show ?thesis by (simp add: t_def)
  qed
qed

lemma toFixed6_fixed6: "0 \<le> x \<Longrightarrow> x < 10 ^ 21 \<Longrightarrow> toFixed6 show_big x = fixed6 (nat (js_round (x * 10 ^ 6)))"
  by (simp add: toFixed6_def fixed6_def Let_def)

lemma num_of_rat_small: "0 \<le> x \<Longrightarrow> x \<le> 10 ^ 30 \<Longrightarrow> num_of_rat x = Fin x"
  by (simp add: num_of_rat_def overflow_bound_def)

text \<open>The written amount is off by at most half a millionth of a dollar, worth less than half a dong.\<close>

lemma read_usd_amount:
  fixes a r :: rat
  assumes "1 \<le> a" "a < 10 ^ 21" "0 < r" "r < 10 ^ 6" "a / r < 10 ^ 21" "js_round a = k" "a = of_int k"
  shows "\<exists>v. js_number (strip_zeros (toFixed6 show_big (a / r))) = Fin v \<and> 0 < v \<and> num_of_rat (v * r) = Fin (v * r) \<and>
    js_round (v * r) = k"
proof -
  define n where "n = nat (js_round (a / r * 10 ^ 6))"
  define v :: rat where "v = of_nat n / 10 ^ 6"
  have pos: "0 < a / r" using assms by simp
  have nn: "0 \<le> js_round (a / r * 10 ^ 6)" using assms by (intro js_round_ge) simp
  then have n: "(of_nat n :: rat) = of_int (js_round (a / r * 10 ^ 6))" by (simp add: n_def)
  have near: "\<bar>of_nat n - a / r * 10 ^ 6\<bar> \<le> 1 / 2" using js_round_near n by metis
  have "1 < a / r * 10 ^ 6" using assms by (simp add: field_simps)
  with near have n1: "1 / 2 < (of_nat n :: rat)" by linarith
  have "a / r * 10 ^ 6 \<le> 10 ^ 27" using mult_right_mono [OF less_imp_le [OF assms(5)], of "10 ^ 6"] by simp
  with near have up: "(of_nat n :: rat) \<le> 10 ^ 27 + 1" by linarith
  have vpos: "0 < v" and vup: "v \<le> 10 ^ 22" using n1 up by (simp_all add: v_def)
  have err: "\<bar>v - a / r\<bar> \<le> 1 / (2 * 10 ^ 6)"
    using near by (simp add: v_def abs_le_iff field_simps)
  have "\<bar>v * r - a\<bar> = \<bar>v - a / r\<bar> * r" using assms(3) by (simp add: abs_mult field_simps flip: abs_mult_pos)
  also have "\<dots> \<le> 1 / (2 * 10 ^ 6) * r" using err assms(3) by (intro mult_right_mono) auto
  also have "\<dots> < 1 / 2" using assms(4) by simp
  finally have close: "\<bar>v * r - a\<bar> < 1 / 2" .
  then have "js_round (v * r) = k"
    unfolding js_round_def assms(7) by (intro floor_unique; linarith)
  moreover have "js_number (strip_zeros (toFixed6 show_big (a / r))) = Fin v"
    using toFixed6_fixed6 [of "a / r" show_big] read_fixed6 [of n] num_of_rat_small [of v] pos assms(5) vpos vup
    unfolding n_def [symmetric] v_def [symmetric] by simp
  moreover have "num_of_rat (v * r) = Fin (v * r)"
  proof (rule num_of_rat_small)
    show "0 \<le> v * r" using vpos assms(3) by simp
    have "v * r < a + 1" using close by linarith
    then show "v * r \<le> 10 ^ 30" using assms(2) by simp
  qed
  ultimately show ?thesis using vpos by blast
qed

text \<open>
  A price field in the display currency keeps the ledger amount.  For every
  positive whole amount of VND, in VND, or in USD at a rate below a million VND, the amount written into
  the field and read back is the same amount: the six decimals written are enough, whatever zeros are cut.
\<close>

theorem money_input_roundtrip:
  assumes "0 < a" and "a < 10 ^ 21"
    and "currency = USD \<Longrightarrow> valid_rate fxRate \<noteq> None \<Longrightarrow> valid_rate fxRate = Some r \<and> r < 10 ^ 6 \<and> of_int a / r < 10 ^ 21"
  shows "moneyInputToVnd (vndToMoneyInput show_big (Fin (of_int a)) currency fxRate) currency fxRate = Fin (of_int a)"
proof (cases "effectiveMoneyInputCurrency currency fxRate")
  case VND
  have "js_number (show_int a) = Fin (of_int a)"
    using assms(1,2) js_number_show_nat [of "nat a"]
    by (simp add: show_int_def overflow_bound_def)
  with VND assms(1,2) show ?thesis
    by (simp add: vndToMoneyInput_def moneyInputToVnd_def show_number_def)
next
  case USD
  then have c: "currency = USD" "valid_rate fxRate \<noteq> None"
    by (auto simp: effectiveMoneyInputCurrency_def isValidFxRate_def split: if_splits)
  then have r: "valid_rate fxRate = Some r" "r < 10 ^ 6" "of_int a / r < 10 ^ 21" using assms(3) by auto
  then have r0: "0 < r" by (auto simp: valid_rate_def split: option.splits jsnum.splits if_splits)
  have "num_of_rat (of_int a / r) = Fin (of_int a / r)" using r r0 assms(1) by (intro num_of_rat_small) simp_all
  moreover obtain v where "js_number (strip_zeros (toFixed6 show_big (of_int a / r))) = Fin v" "0 < v"
      "num_of_rat (v * r) = Fin (v * r)" "js_round (v * r) = a"
    using read_usd_amount [of "of_int a" r a show_big] assms(1,2) r r0 by auto
  ultimately show ?thesis
    using USD r assms(1) by (simp add: vndToMoneyInput_def moneyInputToVnd_def round_num_def)
qed

lemma money_input_roundtrip_witness:
  "moneyInputToVnd (vndToMoneyInput (\<lambda>_. []) (Fin (of_int 12345)) USD (Some (Fin 26000))) USD (Some (Fin 26000)) = Fin (of_int 12345)"
  by (rule money_input_roundtrip [where r = 26000]) (simp_all add: valid_rate_def)

text \<open>From two million VND to the dollar on the smallest amounts are written as 0 and lost.\<close>

lemma money_input_high_rate:
  "moneyInputToVnd (vndToMoneyInput (\<lambda>_. []) (Fin 1) USD (Some (Fin 4000000))) USD (Some (Fin 4000000)) = Fin 0"
proof -
  have "vndToMoneyInput (\<lambda>_. []) (Fin 1) USD (Some (Fin 4000000)) = strip_zeros (fixed6 0)"
    by (simp add: vndToMoneyInput_def effectiveMoneyInputCurrency_def isValidFxRate_def valid_rate_def
        num_of_rat_small toFixed6_fixed6 js_round_def)
  then show ?thesis using read_fixed6 [of 0] by (simp add: moneyInputToVnd_def num_of_rat_def overflow_bound_def)
qed

end
