(* ===== verification/Wallet_Ledger.thy ===== *)
theory Wallet_Ledger
  imports Inventory_Filters
begin

text \<open>
  The wallet ledger (lib/tx-kind.ts, lib/withdraw-status.ts, features/wallet-ledger/model.ts): which side
  of a deal a row belongs to, the state of its money, and the view kept in the address.  Ledger types and
  statuses are the server's strings.  Parameters: \<open>lower\<close> is \<open>toLowerCase\<close>, \<open>fold_text\<close> the accent folding of
  lib/text-fold.ts, \<open>encode\<close> \<open>encodeURIComponent\<close>, and \<open>local_midnight y m d\<close> is \<open>new Date(y, m, d)\<close>, which
  carries months and days over the end of a year or month.
\<close>

section \<open>Kinds of rows\<close>

datatype tx_kind = Topup | Purchase | Sale | RefundTx | Affiliate | Cashback | Withdraw | Adjustment

fun tx_kind_name :: "tx_kind \<Rightarrow> string" where
  "tx_kind_name Topup = ''topup''" | "tx_kind_name Purchase = ''purchase''" | "tx_kind_name Sale = ''sale''"
| "tx_kind_name RefundTx = ''refund''" | "tx_kind_name Affiliate = ''affiliate''" | "tx_kind_name Cashback = ''cashback''"
| "tx_kind_name Withdraw = ''withdraw''" | "tx_kind_name Adjustment = ''adjustment''"

definition TX_KINDS :: "tx_kind list" where
  "TX_KINDS = [Topup, Purchase, Sale, RefundTx, Affiliate, Cashback, Withdraw, Adjustment]"

definition KIND_OF :: "(jstr \<times> tx_kind) list" where
  "KIND_OF = [(js ''topup'', Topup), (js ''deposit'', Topup), (js ''purchase_hold'', Purchase),
     (js ''purchase_release'', Sale), (js ''platform_fee'', Sale), (js ''promo_subsidy'', Sale), (js ''refund'', RefundTx),
     (js ''affiliate_commission'', Affiliate), (js ''affiliate_clawback'', Affiliate),
     (js ''cashback'', Cashback), (js ''cashback_clawback'', Cashback),
     (js ''withdraw'', Withdraw), (js ''withdraw_lock'', Withdraw), (js ''withdraw_unlock'', Withdraw), (js ''withdraw_fee'', Withdraw),
     (js ''adjustment_credit'', Adjustment), (js ''adjustment_debit'', Adjustment)]"

definition TX_TYPES :: "jstr list" where "TX_TYPES = map fst KIND_OF"

definition txKind :: "jstr \<Rightarrow> tx_kind" where
  "txKind type = (case map_of KIND_OF type of None \<Rightarrow> Adjustment | Some k \<Rightarrow> k)"

datatype direction = DirIn | DirOut | DirNeutral

record tx =
  tx_type :: jstr
  tx_direction :: direction
  tx_description :: "jstr option"
  tx_reference_id :: "jstr option"
  tx_order_status :: "jstr option"
  tx_order_code :: "jstr option"
  tx_withdraw_status :: "jstr option"

definition txOrderHref :: "(jstr \<Rightarrow> jstr) \<Rightarrow> tx \<Rightarrow> jstr option" where
  "txOrderHref encode t =
     (if or_empty (tx_order_code t) = [] then None
      else let code = encode (or_empty (tx_order_code t))
           in case txKind (tx_type t) of
                Sale \<Rightarrow> Some (js ''/seller/orders/'' @ code)
              | Purchase \<Rightarrow> Some (js ''/orders?order='' @ code)
              | RefundTx \<Rightarrow> Some (js ''/orders?order='' @ code)
              | Cashback \<Rightarrow> Some (js ''/orders?order='' @ code)
              | _ \<Rightarrow> None)"

datatype tx_status = Hold jstr | PendingReview | Recorded

definition txStatus :: "tx \<Rightarrow> tx_status" where
  "txStatus t =
     (if tx_type t = js ''purchase_hold'' \<and> or_empty (tx_order_status t) \<noteq> [] then Hold (or_empty (tx_order_status t))
      else if tx_type t = js ''withdraw_lock'' then PendingReview else Recorded)"

section \<open>Groups, channels and states\<close>

datatype tx_group = GroupBuy | GroupSell | GroupFunds | GroupOther

fun tx_group_name :: "tx_group \<Rightarrow> string" where
  "tx_group_name GroupBuy = ''buy''" | "tx_group_name GroupSell = ''sell''"
| "tx_group_name GroupFunds = ''funds''" | "tx_group_name GroupOther = ''other''"

definition TX_GROUPS :: "tx_group list" where "TX_GROUPS = [GroupBuy, GroupSell, GroupFunds, GroupOther]"

fun group_of_kind :: "tx_kind \<Rightarrow> tx_group" where
  "group_of_kind Purchase = GroupBuy" | "group_of_kind RefundTx = GroupBuy" | "group_of_kind Sale = GroupSell"
| "group_of_kind Topup = GroupFunds" | "group_of_kind Withdraw = GroupFunds" | "group_of_kind Affiliate = GroupOther"
| "group_of_kind Cashback = GroupOther" | "group_of_kind Adjustment = GroupOther"

definition txGroup :: "jstr \<Rightarrow> tx_group" where
  "txGroup type = group_of_kind (txKind type)"

definition kindsOfGroup :: "tx_group option \<Rightarrow> tx_kind list" where
  "kindsOfGroup g' = (case g' of None \<Rightarrow> TX_KINDS | Some g \<Rightarrow> filter (\<lambda>k. group_of_kind k = g) TX_KINDS)"

datatype channel = Bank | Usdt

fun channel_name :: "channel \<Rightarrow> string" where
  "channel_name Bank = ''bank''" | "channel_name Usdt = ''usdt''"

definition TX_CHANNELS :: "channel list" where "TX_CHANNELS = [Bank, Usdt]"

definition txChannel :: "(jstr \<Rightarrow> jstr) \<Rightarrow> tx \<Rightarrow> channel option" where
  "txChannel lower t =
     (if txKind (tx_type t) = Withdraw then Some Bank
      else if tx_type t \<noteq> js ''deposit'' then None
      else let s = lower (or_empty (tx_description t) @ js '' '' @ or_empty (tx_reference_id t))
           in Some (if str_includes s (js ''usdt'') \<or> str_includes s (js ''nowpayments'') then Usdt else Bank))"

definition LABELLED :: "jstr list" where
  "LABELLED = [js ''topup'', js ''purchase_hold'', js ''refund'', js ''purchase_release'', js ''promo_subsidy'', js ''platform_fee'',
     js ''affiliate_commission'', js ''affiliate_clawback'', js ''cashback'', js ''cashback_clawback'', js ''withdraw_lock'',
     js ''withdraw_unlock'', js ''withdraw'', js ''withdraw_fee'', js ''adjustment_credit'', js ''adjustment_debit'']"

definition txLabelKey :: "(jstr \<Rightarrow> jstr) \<Rightarrow> tx \<Rightarrow> jstr" where
  "txLabelKey lower t =
     (if tx_type t = js ''deposit'' then (if txChannel lower t = Some Usdt then js ''deposit_usdt'' else js ''deposit_bank'')
      else if tx_type t \<in> set LABELLED then tx_type t else js ''unknown'')"

datatype status_tone = StGood | StWarn | StBad | StIris | StNeutral

record tx_state =
  st_key :: string
  st_tone :: status_tone
  st_open :: bool

abbreviation mk_state :: "string \<Rightarrow> status_tone \<Rightarrow> bool \<Rightarrow> tx_state" where
  "mk_state k t p \<equiv> \<lparr> st_key = k, st_tone = t, st_open = p \<rparr>"

datatype withdraw_status = WdPending | WdApproved | WdPaid | WdRejected

fun withdraw_status_name :: "withdraw_status \<Rightarrow> string" where
  "withdraw_status_name WdPending = ''pending''" | "withdraw_status_name WdApproved = ''approved''"
| "withdraw_status_name WdPaid = ''paid''" | "withdraw_status_name WdRejected = ''rejected''"

definition WITHDRAW_STATUSES :: "withdraw_status list" where
  "WITHDRAW_STATUSES = [WdPending, WdApproved, WdPaid, WdRejected]"

fun WITHDRAW_TONE :: "withdraw_status \<Rightarrow> status_tone" where
  "WITHDRAW_TONE WdPending = StWarn" | "WITHDRAW_TONE WdApproved = StIris"
| "WITHDRAW_TONE WdPaid = StGood" | "WITHDRAW_TONE WdRejected = StBad"

fun WITHDRAW_STEP :: "withdraw_status \<Rightarrow> nat" where
  "WITHDRAW_STEP WdPending = 0" | "WITHDRAW_STEP WdApproved = 1" | "WITHDRAW_STEP WdPaid = 2" | "WITHDRAW_STEP WdRejected = 1"

definition isWithdrawStatus :: "jstr \<Rightarrow> withdraw_status option" where
  "isWithdrawStatus s = List.find (\<lambda>w. js (withdraw_status_name w) = s) WITHDRAW_STATUSES"

definition withdrawTone :: "jstr \<Rightarrow> status_tone" where
  "withdrawTone s = (case isWithdrawStatus s of None \<Rightarrow> StNeutral | Some w \<Rightarrow> WITHDRAW_TONE w)"

definition withdrawStep :: "jstr \<Rightarrow> nat" where
  "withdrawStep s = (case isWithdrawStatus s of None \<Rightarrow> 0 | Some w \<Rightarrow> WITHDRAW_STEP w)"

definition PURCHASE_STATE :: "(jstr \<times> tx_state) list" where
  "PURCHASE_STATE =
    [(js ''pending'', mk_state ''buy_processing'' StWarn True), (js ''processing'', mk_state ''buy_processing'' StWarn True),
     (js ''delivered'', mk_state ''buy_awaiting_confirm'' StWarn True), (js ''disputed'', mk_state ''buy_disputed'' StBad True),
     (js ''completed'', mk_state ''buy_paid_to_shop'' StGood False), (js ''refunded'', mk_state ''buy_refunded'' StNeutral False),
     (js ''cancelled'', mk_state ''buy_refunded'' StNeutral False)]"

definition paid_state :: tx_state where "paid_state = mk_state ''withdraw_paid'' (WITHDRAW_TONE WdPaid) False"

definition WITHDRAW_STATE :: "(jstr \<times> tx_state) list" where
  "WITHDRAW_STATE =
    [(js ''pending'', mk_state ''withdraw_pending'' (WITHDRAW_TONE WdPending) True),
     (js ''approved'', mk_state ''withdraw_approved'' (WITHDRAW_TONE WdApproved) True),
     (js ''paid'', paid_state),
     (js ''rejected'', mk_state ''withdraw_rejected'' (WITHDRAW_TONE WdRejected) False)]"

definition txState :: "tx \<Rightarrow> tx_state" where
  "txState t =
     (case (if tx_type t = js ''purchase_hold'' then map_of PURCHASE_STATE (or_empty (tx_order_status t))
            else if tx_type t = js ''withdraw_lock'' then map_of WITHDRAW_STATE (or_empty (tx_withdraw_status t)) else None) of
        Some s \<Rightarrow> s
      | None \<Rightarrow>
          if tx_type t = js ''withdraw'' then paid_state
          else case tx_direction t of
                 DirIn \<Rightarrow> mk_state ''credited'' StGood False
               | DirOut \<Rightarrow> mk_state ''debited'' StNeutral False
               | DirNeutral \<Rightarrow> mk_state ''settled'' StNeutral False)"

definition txReversed :: "tx \<Rightarrow> bool" where
  "txReversed t \<longleftrightarrow>
     (if tx_type t = js ''purchase_hold'' then tx_order_status t = Some (js ''refunded'') \<or> tx_order_status t = Some (js ''cancelled'')
      else if tx_type t = js ''withdraw_lock'' then tx_withdraw_status t = Some (js ''rejected'') else False)"

section \<open>The view in the address\<close>

datatype period = PeriodAll | Period7d | Period30d | PeriodThisMonth | PeriodLastMonth | PeriodCustom

fun period_name :: "period \<Rightarrow> string" where
  "period_name PeriodAll = ''all''" | "period_name Period7d = ''7d''" | "period_name Period30d = ''30d''"
| "period_name PeriodThisMonth = ''this_month''" | "period_name PeriodLastMonth = ''last_month''" | "period_name PeriodCustom = ''custom''"

definition TX_PERIODS :: "period list" where
  "TX_PERIODS = [PeriodAll, Period7d, Period30d, PeriodThisMonth, PeriodLastMonth, PeriodCustom]"

text \<open>\<^const>\<open>None\<close> stands for \<open>"all"\<close> of a group, a kind, a direction or a channel.\<close>

record tx_view =
  tv_group :: "tx_group option"
  tv_kind :: "tx_kind option"
  tv_dir :: "direction option"
  tv_open :: bool
  tv_channel :: "channel option"
  tv_period :: period
  tv_from :: jstr
  tv_to :: jstr
  tv_q :: jstr
  tv_page :: int

definition DEFAULT_TX_VIEW :: tx_view where
  "DEFAULT_TX_VIEW = \<lparr> tv_group = None, tv_kind = None, tv_dir = None, tv_open = False, tv_channel = None,
     tv_period = PeriodAll, tv_from = [], tv_to = [], tv_q = [], tv_page = 1 \<rparr>"

definition pick_opt :: "('e \<Rightarrow> string) \<Rightarrow> 'e list \<Rightarrow> jstr option \<Rightarrow> 'e option" where
  "pick_opt name allowed v = (case v of None \<Rightarrow> None | Some s \<Rightarrow> List.find (\<lambda>e. js (name e) = s) allowed)"

fun direction_name :: "direction \<Rightarrow> string" where
  "direction_name DirIn = ''in''" | "direction_name DirOut = ''out''" | "direction_name DirNeutral = ''neutral''"

text \<open>The two days of a custom period: each counts on its own, and they are put in order.\<close>

definition period_range :: "period \<Rightarrow> url_params \<Rightarrow> jstr \<times> jstr" where
  "period_range p q = custom_range (\<lambda>_. True) (if p = PeriodCustom then DateCustom else DateAll) q"

definition parseTxView :: "url_params \<Rightarrow> tx_view" where
  "parseTxView q =
     (let rawDir = qget q ''dir'';
          kind = pick_opt tx_kind_name TX_KINDS (qget q ''kind'');
          grp = (case pick_opt tx_group_name TX_GROUPS (qget q ''group'') of
                   Some g \<Rightarrow> Some g | None \<Rightarrow> map_option group_of_kind kind);
          period = pick_enum period_name TX_PERIODS PeriodAll (qget q ''period'');
          range = period_range period q
      in \<lparr> tv_group = grp,
           tv_kind = (case (kind, grp) of (Some k, Some g) \<Rightarrow> if group_of_kind k \<noteq> g then None else Some k | _ \<Rightarrow> kind),
           tv_dir = pick_opt direction_name [DirIn, DirOut] rawDir,
           tv_open = (qget q ''open'' = Some (js ''1'') \<or> rawDir = Some (js ''pending'')),
           tv_channel = pick_opt channel_name TX_CHANNELS
             (case qget q ''channel'' of Some c \<Rightarrow> Some c | None \<Rightarrow> qget q ''via''),
           tv_period = period, tv_from = fst range, tv_to = snd range,
           tv_q = take 80 (or_empty (qget q ''q'')),
           tv_page = pick_int 1 1 (qget q ''page'') \<rparr>)"

definition name_of :: "('e \<Rightarrow> string) \<Rightarrow> 'e option \<Rightarrow> jstr" where
  "name_of name x = (case x of None \<Rightarrow> js ''all'' | Some e \<Rightarrow> js (name e))"

definition txViewToSearch :: "tx_view \<Rightarrow> url_params" where
  "txViewToSearch v =
     qput ''page'' (1 < tv_page v) (show_int (tv_page v))
     (qput ''to'' (tv_period v = PeriodCustom \<and> tv_to v \<noteq> []) (tv_to v)
     (qput ''from'' (tv_period v = PeriodCustom \<and> tv_from v \<noteq> []) (tv_from v)
     (qput ''period'' (tv_period v \<noteq> PeriodAll) (js (period_name (tv_period v)))
     (qput ''channel'' (tv_channel v \<noteq> None) (name_of channel_name (tv_channel v))
     (qput ''open'' (tv_open v) (js ''1'')
     (qput ''dir'' (tv_dir v \<noteq> None) (name_of direction_name (tv_dir v))
     (qput ''kind'' (tv_kind v \<noteq> None) (name_of tx_kind_name (tv_kind v))
     (qput ''group'' (tv_group v \<noteq> None) (name_of tx_group_name (tv_group v))
     (qput ''q'' (js_trim (tv_q v) \<noteq> []) (js_trim (tv_q v)) [])))))))))"

definition hasTxFilters :: "tx_view \<Rightarrow> bool" where
  "hasTxFilters v \<longleftrightarrow> tv_group v \<noteq> None \<or> tv_kind v \<noteq> None \<or> tv_dir v \<noteq> None \<or> tv_open v \<or> tv_channel v \<noteq> None \<or>
     tv_period v \<noteq> PeriodAll \<or> js_trim (tv_q v) \<noteq> []"

text \<open>A local date is \<open>(year, month, day)\<close> with months from 0; the bounds are times, the end excluded.\<close>

definition day_part :: "jstr \<Rightarrow> nat \<Rightarrow> int" where
  "day_part day i = (case as_integer (js_number (split_on 45 day ! i)) of Some n \<Rightarrow> n | None \<Rightarrow> 0)"

definition localDay :: "(int \<Rightarrow> int \<Rightarrow> int \<Rightarrow> int) \<Rightarrow> jstr \<Rightarrow> int \<Rightarrow> int" where
  "localDay local_midnight day plusDays = local_midnight (day_part day 0) (day_part day 1 - 1) (day_part day 2 + plusDays)"

definition periodBounds ::
    "(int \<Rightarrow> int \<Rightarrow> int \<Rightarrow> int) \<Rightarrow> tx_view \<Rightarrow> int \<times> int \<times> int \<Rightarrow> int option \<times> int option" where
  "periodBounds local_midnight v today =
     (case today of (y, m, d) \<Rightarrow>
       (case tv_period v of
          Period7d \<Rightarrow> (Some (local_midnight y m (d - 6)), None)
        | Period30d \<Rightarrow> (Some (local_midnight y m (d - 29)), None)
        | PeriodThisMonth \<Rightarrow> (Some (local_midnight y m 1), None)
        | PeriodLastMonth \<Rightarrow> (Some (local_midnight y (m - 1) 1), Some (local_midnight y m 1))
        | PeriodCustom \<Rightarrow> (if tv_from v = [] then None else Some (localDay local_midnight (tv_from v) 0),
                          if tv_to v = [] then None else Some (localDay local_midnight (tv_to v) 1))
        | PeriodAll \<Rightarrow> (None, None)))"

definition word_char :: "code_unit \<Rightarrow> bool" where
  "word_char c \<longleftrightarrow> (97 \<le> c \<and> c \<le> 122) \<or> is_digit c"

text \<open>\<open>s.split(/[^a-z0-9]+/).filter(Boolean)\<close>\<close>

function text_words :: "jstr \<Rightarrow> jstr list" where
  "text_words [] = []"
| "text_words (c # s) =
     (if word_char c then (c # takeWhile word_char s) # text_words (dropWhile word_char s) else text_words s)"
  by pat_completeness auto
termination
  by (relation "measure length") (auto simp: le_imp_less_Suc length_dropWhile_le)

definition matchesWordStarts :: "(jstr \<Rightarrow> jstr) \<Rightarrow> jstr \<Rightarrow> jstr \<Rightarrow> bool" where
  "matchesWordStarts fold_text text' query =
     (let qs = text_words (fold_text query); folded = fold_text text'; textWords = text_words folded
      in qs = [] \<or> list_all (\<lambda>w. (list_ex is_digit w \<and> str_includes folded w) \<or> list_ex (\<lambda>t. starts_with t w) textWords) qs)"

section \<open>The state of a row's money\<close>

lemma purchase_state_key:
  "map_of PURCHASE_STATE s = Some st \<Longrightarrow>
     (st_key st = ''buy_refunded'') = (s = js ''refunded'' \<or> s = js ''cancelled'') \<and> st_key st \<noteq> ''withdraw_rejected'' \<and>
     (st_key st = ''buy_refunded'' \<longrightarrow> \<not> st_open st)"
  by (auto simp: PURCHASE_STATE_def js_eq_iff simp del: js_Cons split: if_splits)

lemma purchase_state_refunded:
  "map_of PURCHASE_STATE (js ''refunded'') = Some (mk_state ''buy_refunded'' StNeutral False)"
  "map_of PURCHASE_STATE (js ''cancelled'') = Some (mk_state ''buy_refunded'' StNeutral False)"
  by (simp_all add: PURCHASE_STATE_def js_eq_iff del: js_Cons)

lemma withdraw_state_key:
  "map_of WITHDRAW_STATE s = Some st \<Longrightarrow>
     (st_key st = ''withdraw_rejected'') = (s = js ''rejected'') \<and> st_key st \<noteq> ''buy_refunded'' \<and>
     (st_key st = ''withdraw_rejected'' \<longrightarrow> \<not> st_open st)"
  by (auto simp: WITHDRAW_STATE_def paid_state_def js_eq_iff simp del: js_Cons split: if_splits)

lemma withdraw_state_named:
  "map_of WITHDRAW_STATE (js ''rejected'') = Some (mk_state ''withdraw_rejected'' StBad False)"
  "map_of WITHDRAW_STATE (js ''paid'') = Some paid_state"
  by (simp_all add: WITHDRAW_STATE_def js_eq_iff del: js_Cons)

lemma or_empty_eq: "s \<noteq> [] \<Longrightarrow> (or_empty x = s) = (x = Some s)"
  by (cases x) auto

lemma reversed_state:
  "txReversed t = (st_key (txState t) = ''buy_refunded'' \<or> st_key (txState t) = ''withdraw_rejected'') \<and>
   (txReversed t \<longrightarrow> \<not> st_open (txState t))"
proof -
  consider "tx_type t = js ''purchase_hold''" | "tx_type t = js ''withdraw_lock''"
    | "tx_type t \<noteq> js ''purchase_hold''" "tx_type t \<noteq> js ''withdraw_lock''" by blast
  then show ?thesis
  proof cases
    case 1
    then show ?thesis
      using purchase_state_key [of "or_empty (tx_order_status t)"] purchase_state_refunded
        or_empty_eq [of "js ''refunded''" "tx_order_status t"] or_empty_eq [of "js ''cancelled''" "tx_order_status t"]
      by (cases "map_of PURCHASE_STATE (or_empty (tx_order_status t))")
        (auto simp: txState_def txReversed_def js_eq_iff simp del: js_Cons split: direction.splits)
  next
    case 2
    then show ?thesis
      using withdraw_state_key [of "or_empty (tx_withdraw_status t)"] withdraw_state_named
        or_empty_eq [of "js ''rejected''" "tx_withdraw_status t"]
      by (cases "map_of WITHDRAW_STATE (or_empty (tx_withdraw_status t))")
        (auto simp: txState_def txReversed_def js_eq_iff simp del: js_Cons split: direction.splits)
  next
    case 3
    then show ?thesis
      by (simp add: txState_def txReversed_def paid_state_def split: direction.splits del: js_Cons)
  qed
qed

text \<open>
  Every row of the ledger has one state.  Only the hold of a purchase and the lock of
  a withdrawal can be open; a debit shown as reversed is one of these two, closed, its state the one of a
  refunded order or a rejected withdrawal; the row of the transfer itself reads as the request it paid;
  every row is of a kind that the group it is listed under offers.
\<close>

theorem ledger_row_states:
  "(st_open (txState t) = False \<or> tx_type t = js ''purchase_hold'' \<or> tx_type t = js ''withdraw_lock'') \<and>
   txReversed t = (st_key (txState t) = ''buy_refunded'' \<or> st_key (txState t) = ''withdraw_rejected'') \<and>
   (txReversed t = False \<or> \<not> st_open (txState t)) \<and>
   (tx_type t \<noteq> js ''withdraw'' \<or> txState t = the (map_of WITHDRAW_STATE (js ''paid''))) \<and>
   txKind (tx_type t) \<in> set (kindsOfGroup (Some (txGroup (tx_type t)))) \<and>
   (txChannel lower t \<noteq> None) = (txKind (tx_type t) = Withdraw \<or> tx_type t = js ''deposit'')"
proof (intro conjI)
  show "st_open (txState t) = False \<or> tx_type t = js ''purchase_hold'' \<or> tx_type t = js ''withdraw_lock''"
    by (simp add: txState_def paid_state_def split: direction.splits del: js_Cons)
  show "txReversed t = (st_key (txState t) = ''buy_refunded'' \<or> st_key (txState t) = ''withdraw_rejected'')"
    "txReversed t = False \<or> \<not> st_open (txState t)"
    using reversed_state [of t] by blast+
  show "tx_type t \<noteq> js ''withdraw'' \<or> txState t = the (map_of WITHDRAW_STATE (js ''paid''))"
    by (simp add: txState_def withdraw_state_named js_eq_iff del: js_Cons)
  show "txKind (tx_type t) \<in> set (kindsOfGroup (Some (txGroup (tx_type t))))"
    by (cases "txKind (tx_type t)") (simp_all add: kindsOfGroup_def txGroup_def TX_KINDS_def)
  show "(txChannel lower t \<noteq> None) = (txKind (tx_type t) = Withdraw \<or> tx_type t = js ''deposit'')"
    by (simp add: txChannel_def Let_def del: js_Cons)
qed

lemma ledger_row_states_witness:
  "txReversed \<lparr> tx_type = js ''purchase_hold'', tx_direction = DirOut, tx_description = None, tx_reference_id = None,
     tx_order_status = Some (js ''refunded''), tx_order_code = None, tx_withdraw_status = None \<rparr> =
   (st_key (txState \<lparr> tx_type = js ''purchase_hold'', tx_direction = DirOut, tx_description = None, tx_reference_id = None,
     tx_order_status = Some (js ''refunded''), tx_order_code = None, tx_withdraw_status = None \<rparr>) = ''buy_refunded'' \<or>
    st_key (txState \<lparr> tx_type = js ''purchase_hold'', tx_direction = DirOut, tx_description = None, tx_reference_id = None,
     tx_order_status = Some (js ''refunded''), tx_order_code = None, tx_withdraw_status = None \<rparr>) = ''withdraw_rejected'')"
  using ledger_row_states by blast

section \<open>The address of a view\<close>

definition tx_view_ok :: "tx_view \<Rightarrow> bool" where
  "tx_view_ok v \<longleftrightarrow>
     (case tv_kind v of None \<Rightarrow> True | Some k \<Rightarrow> tv_group v = Some (group_of_kind k)) \<and> tv_dir v \<noteq> Some DirNeutral \<and>
     range_valid (\<lambda>_. True) (if tv_period v = PeriodCustom then DateCustom else DateAll) (tv_from v) (tv_to v) \<and>
     length (tv_q v) \<le> 80 \<and> 1 \<le> tv_page v"

lemma pick_opt_None [simp]: "pick_opt name allowed None = None"
  by (simp add: pick_opt_def)

lemma pick_opt_name:
  "e \<in> set allowed \<Longrightarrow> inj name \<Longrightarrow> pick_opt name allowed (Some (js (name e))) = Some e"
  unfolding pick_opt_def by (induction allowed) (auto simp: js_eq_iff inj_eq)

lemma pick_opt_range: "pick_opt name allowed v = Some e \<Longrightarrow> e \<in> set allowed"
  by (auto simp: pick_opt_def find_Some_iff split: option.splits)

lemma tx_kind_pick [codec_simps]: "pick_opt tx_kind_name TX_KINDS (Some (js (tx_kind_name e))) = Some e"
  by (cases e) (simp_all add: pick_opt_def TX_KINDS_def js_eq_iff del: js_Cons)

lemma tx_group_pick [codec_simps]: "pick_opt tx_group_name TX_GROUPS (Some (js (tx_group_name e))) = Some e"
  by (cases e) (simp_all add: pick_opt_def TX_GROUPS_def js_eq_iff del: js_Cons)

lemma channel_pick [codec_simps]: "pick_opt channel_name TX_CHANNELS (Some (js (channel_name e))) = Some e"
  by (cases e) (simp_all add: pick_opt_def TX_CHANNELS_def js_eq_iff del: js_Cons)

lemma direction_pick [codec_simps]:
  "e \<noteq> DirNeutral \<Longrightarrow> pick_opt direction_name [DirIn, DirOut] (Some (js (direction_name e))) = Some e"
  "js (direction_name e) \<noteq> js ''pending''"
  by (cases e; simp add: pick_opt_def js_eq_iff del: js_Cons)+

lemma period_pick [codec_simps]: "pick_enum period_name TX_PERIODS fb (Some (js (period_name e))) = e"
  by (cases e) (simp_all add: pick_enum_def TX_PERIODS_def js_eq_iff del: js_Cons)

lemma tx_view_ok_parse: "tx_view_ok (parseTxView q)"
proof -
  have "range_valid (\<lambda>_. True) (if p = PeriodCustom then DateCustom else DateAll) (fst (period_range p q)) (snd (period_range p q))" for p
    by (rule custom_range_valid) (simp add: period_range_def)
  moreover have "pick_opt direction_name [DirIn, DirOut] d \<noteq> Some DirNeutral" for d
    using pick_opt_range by fastforce
  moreover have "1 \<le> pick_int 1 1 p" for p
    by (auto simp: pick_int_def split: option.splits)
  ultimately show ?thesis
    by (auto simp: tx_view_ok_def parseTxView_def Let_def split: option.splits)
qed

text \<open>
  C36: Whatever the address says, the view read from it is well formed: a kind belongs to
  the group shown, the direction is in or out, dates are there only for a custom period, have the form of a
  date and are in order, the search has at most 80 characters and the page is positive.
\<close>

theorem tx_view_wellformed: "tx_view_ok (parseTxView q)"
  by (rule tx_view_ok_parse)

definition tx_canon :: "tx_view \<Rightarrow> tx_view" where
  "tx_canon v = v \<lparr> tv_q := js_trim (tv_q v) \<rparr>"

lemma period_range_print:
  assumes "range_valid (\<lambda>_. True) (if tv_period v = PeriodCustom then DateCustom else DateAll) (tv_from v) (tv_to v)"
  shows "period_range (tv_period v) (txViewToSearch v) = (tv_from v, tv_to v)"
  unfolding period_range_def
  by (rule custom_range_print [OF assms]) (use assms in \<open>auto simp: txViewToSearch_def range_valid_def\<close>)

interpretation ledger_url: url_codec parseTxView txViewToSearch tx_canon "\<lambda>v. tx_view_ok v \<and> printable_int (tv_page v)"
proof
  fix v :: tx_view
  assume v: "tx_view_ok v \<and> printable_int (tv_page v)"
  then have range: "period_range (tv_period v) (txViewToSearch v) = (tv_from v, tv_to v)"
    by (intro period_range_print) (simp add: tx_view_ok_def)
  have len: "length (js_trim (tv_q v)) \<le> 80"
    using v length_js_trim_le [of "tv_q v"] by (simp add: tx_view_ok_def)
  show "tx_view_ok (tx_canon v) \<and> printable_int (tv_page (tx_canon v))"
    using v len by (simp add: tx_view_ok_def tx_canon_def split: option.splits)
  show "parseTxView (txViewToSearch v) = tx_canon v"
  proof (rule tx_view.equality)
    show "tv_group (parseTxView (txViewToSearch v)) = tv_group (tx_canon v)"
      using v by (cases "tv_group v"; cases "tv_kind v")
        (simp_all add: parseTxView_def txViewToSearch_def tx_canon_def tx_view_ok_def name_of_def codec_simps Let_def)
    show "tv_kind (parseTxView (txViewToSearch v)) = tv_kind (tx_canon v)"
      using v by (cases "tv_group v"; cases "tv_kind v")
        (simp_all add: parseTxView_def txViewToSearch_def tx_canon_def tx_view_ok_def name_of_def codec_simps Let_def)
    show "tv_dir (parseTxView (txViewToSearch v)) = tv_dir (tx_canon v)"
      using v by (cases "tv_dir v")
        (simp_all add: parseTxView_def txViewToSearch_def tx_canon_def tx_view_ok_def name_of_def codec_simps Let_def)
    show "tv_open (parseTxView (txViewToSearch v)) = tv_open (tx_canon v)"
      by (cases "tv_dir v") (simp_all add: parseTxView_def txViewToSearch_def tx_canon_def name_of_def codec_simps Let_def del: js_Cons)
    show "tv_channel (parseTxView (txViewToSearch v)) = tv_channel (tx_canon v)"
      by (cases "tv_channel v") (simp_all add: parseTxView_def txViewToSearch_def tx_canon_def name_of_def codec_simps Let_def)
    have period: "pick_enum period_name TX_PERIODS PeriodAll (qget (txViewToSearch v) ''period'') = tv_period v"
      by (simp add: txViewToSearch_def codec_simps)
    then show "tv_period (parseTxView (txViewToSearch v)) = tv_period (tx_canon v)"
      by (simp add: parseTxView_def tx_canon_def Let_def)
    show "tv_from (parseTxView (txViewToSearch v)) = tv_from (tx_canon v)"
      "tv_to (parseTxView (txViewToSearch v)) = tv_to (tx_canon v)"
      using range period by (simp_all add: parseTxView_def tx_canon_def Let_def)
    show "tv_q (parseTxView (txViewToSearch v)) = tv_q (tx_canon v)"
      using len by (simp add: parseTxView_def txViewToSearch_def tx_canon_def Let_def)
    show "tv_page (parseTxView (txViewToSearch v)) = tv_page (tx_canon v)"
      using v by (simp add: parseTxView_def txViewToSearch_def tx_canon_def tx_view_ok_def Let_def)
  qed simp
qed (auto simp: tx_canon_def txViewToSearch_def)

text \<open>
  The wallet ledger keeps its view in the address.  Every view read from an
  address is one that can be written: reading it back gives the same view with the search trimmed and the same
  filters active; an older link with \<open>dir=pending\<close> or \<open>via=\<close> reads as the open rows or that channel.
\<close>

theorem wallet_view_roundtrip:
  assumes "printable_int (tv_page (parseTxView q))"
  shows "parseTxView (txViewToSearch (parseTxView q)) = tx_canon (parseTxView q) \<and>
    txViewToSearch (parseTxView (txViewToSearch (parseTxView q))) = txViewToSearch (parseTxView q) \<and>
    hasTxFilters (parseTxView (txViewToSearch (parseTxView q))) = hasTxFilters (parseTxView q) \<and>
    (qget q ''dir'' \<noteq> Some (js ''pending'') \<or> tv_open (parseTxView q) \<and> tv_dir (parseTxView q) = None) \<and>
    (qget q ''channel'' \<noteq> None \<or> qget q ''via'' \<noteq> Some (js (channel_name c)) \<or> tv_channel (parseTxView q) = Some c)"
proof (intro conjI)
  have ok: "tx_view_ok (parseTxView q) \<and> printable_int (tv_page (parseTxView q))"
    using tx_view_ok_parse assms by simp
  show rt: "parseTxView (txViewToSearch (parseTxView q)) = tx_canon (parseTxView q)"
    by (rule ledger_url.parse_print [OF ok])
  show "txViewToSearch (parseTxView (txViewToSearch (parseTxView q))) = txViewToSearch (parseTxView q)"
    by (rule ledger_url.print_stable [OF ok])
  show "hasTxFilters (parseTxView (txViewToSearch (parseTxView q))) = hasTxFilters (parseTxView q)"
    unfolding rt by (simp add: hasTxFilters_def tx_canon_def)
  show "qget q ''dir'' \<noteq> Some (js ''pending'') \<or> tv_open (parseTxView q) \<and> tv_dir (parseTxView q) = None"
    by (simp add: parseTxView_def pick_opt_def js_eq_iff Let_def del: js_Cons)
  show "qget q ''channel'' \<noteq> None \<or> qget q ''via'' \<noteq> Some (js (channel_name c)) \<or> tv_channel (parseTxView q) = Some c"
    by (cases "qget q ''channel''") (auto simp: parseTxView_def codec_simps Let_def)
qed

lemma wallet_view_roundtrip_witness:
  "parseTxView (txViewToSearch (parseTxView [(js ''kind'', js ''sale''), (js ''page'', js ''3'')])) =
     DEFAULT_TX_VIEW \<lparr> tv_group := Some GroupSell, tv_kind := Some Sale, tv_page := 3 \<rparr>"
proof -
  have three: "js ''3'' = show_int 3" by (simp add: show_int_def show_nat.simps digit_unit_def)
  have view: "parseTxView [(js ''kind'', js ''sale''), (js ''page'', js ''3'')] =
      DEFAULT_TX_VIEW \<lparr> tv_group := Some GroupSell, tv_kind := Some Sale, tv_page := 3 \<rparr>"
    unfolding three
    by (simp add: parseTxView_def DEFAULT_TX_VIEW_def qget_def js_eq_iff pick_opt_def TX_KINDS_def period_range_def
        custom_range_def order_pair_def printable_int_def overflow_bound_def Let_def del: js_Cons)
  then have "printable_int (tv_page (parseTxView [(js ''kind'', js ''sale''), (js ''page'', js ''3'')]))"
    by (simp add: printable_int_def overflow_bound_def)
  from wallet_view_roundtrip [OF this, of Bank] view show ?thesis
    by (simp add: tx_canon_def DEFAULT_TX_VIEW_def)
qed

end
