(* ===== verification/Search.thy ===== *)
theory Search
  imports Order_Lines Url_Params
begin

text \<open>
  The search domain (features/search/model.ts): what a typed command means, the matcher of quick actions,
  the address of the results page, and the list of recent searches.  Parameters: \<open>nfkd\<close> is
  \<open>normalize("NFKD")\<close>, \<open>lower\<close> \<open>toLowerCase\<close>, and \<open>parse_url\<close> gives the origin, path and query of a parsed
  absolute address; \<open>origin\<close> is the page's own, unknown while rendering on the server.
\<close>

section \<open>Commands\<close>

datatype search_scope = ScopeAll | ScopeCategories | ScopeSellers | ScopeActions

datatype direct_ref = OrderRef jstr jstr | PathRef jstr

record parsed_command =
  pc_scope :: search_scope
  pc_term :: jstr
  pc_direct :: "direct_ref option"

definition MAX_QUERY_LENGTH :: nat where "MAX_QUERY_LENGTH = 80"

definition normalizeTerm :: "jstr \<Rightarrow> jstr" where
  "normalizeTerm raw = take MAX_QUERY_LENGTH (js_trim (squeeze_spaces raw))"

definition foldText :: "(jstr \<Rightarrow> jstr) \<Rightarrow> (jstr \<Rightarrow> jstr) \<Rightarrow> jstr \<Rightarrow> jstr" where
  "foldText nfkd lower v =
     lower (filter (\<lambda>c. \<not> (0x300 \<le> c \<and> c \<le> 0x36F))
       (nfkd (map (\<lambda>c. if c = 0x111 then 100 else if c = 0x110 then 68 else c) v)))"

definition stripLocalePrefix :: "jstr \<Rightarrow> jstr" where
  "stripLocalePrefix path =
     (let rest = (if (starts_with path (js ''/en'') \<or> starts_with path (js ''/vi'')) \<and> (drop 3 path = [] \<or> path ! 3 = 47)
                  then drop 3 path else path)
      in if rest = [] then js ''/'' else rest)"

type_synonym url_parser = "jstr \<Rightarrow> (jstr \<times> jstr \<times> jstr) option"

definition parseSameOriginUrl :: "url_parser \<Rightarrow> jstr option \<Rightarrow> jstr \<Rightarrow> jstr option" where
  "parseSameOriginUrl parse_url origin term =
     (if \<not> (starts_with (to_lower term) (js ''http://'') \<or> starts_with (to_lower term) (js ''https://'')) then None
      else case parse_url term of
        None \<Rightarrow> None
      | Some (o', pathname, search) \<Rightarrow>
          if (case origin of None \<Rightarrow> False | Some here \<Rightarrow> o' \<noteq> here) then None else Some (pathname @ search))"

definition directRef :: "url_parser \<Rightarrow> jstr option \<Rightarrow> jstr \<Rightarrow> direct_ref option" where
  "directRef parse_url origin term =
     (if term = [] then None
      else case (if starts_with (to_lower term) (js ''ord-'') \<or> list_ex is_digit term
                 then normalizeOrderCode (Some term) else None) of
        Some code \<Rightarrow> Some (OrderRef code (js ''/orders/'' @ code))
      | None \<Rightarrow>
          if starts_with term (js ''/'') \<and> \<not> starts_with term (js ''//'') \<and> \<not> list_ex js_space term
          then Some (PathRef (stripLocalePrefix term))
          else map_option (\<lambda>u. PathRef (stripLocalePrefix u)) (parseSameOriginUrl parse_url origin term))"

definition parseCommand :: "url_parser \<Rightarrow> jstr option \<Rightarrow> jstr \<Rightarrow> parsed_command" where
  "parseCommand parse_url origin raw =
     (let input = trim_start raw;
          first = take 1 input;
          scope = (if first = js ''#'' then ScopeCategories else if first = js ''@'' then ScopeSellers
                   else if first = js ''>'' then ScopeActions else ScopeAll);
          term = normalizeTerm (if scope = ScopeAll then input else drop 1 input)
      in \<lparr> pc_scope = scope, pc_term = term,
           pc_direct = (if scope = ScopeAll then directRef parse_url origin term else None) \<rparr>)"

text \<open>The walk over the characters of a label; a character outside the basic plane equals no code unit.\<close>

fun in_order :: "jstr \<Rightarrow> nat list \<Rightarrow> bool" where
  "in_order [] _ = True"
| "in_order (_ # _) [] = False"
| "in_order (c # cs) (p # ps) = (if p = unat c then in_order cs ps else in_order (c # cs) ps)"

definition matchesLabel :: "(jstr \<Rightarrow> jstr) \<Rightarrow> jstr \<Rightarrow> jstr \<Rightarrow> jstr list \<Rightarrow> bool" where
  "matchesLabel fold_text needle label keywords =
     (let q = fold_text (normalizeTerm needle)
      in if q = [] then True
         else if list_ex (\<lambda>h. str_includes h q) (map fold_text (label # keywords)) then True
         else let compact = filter (\<lambda>c. \<not> js_space c) q
              in if length compact < 2 then False else in_order compact (code_points (fold_text label)))"

section \<open>The results page\<close>

datatype search_sort = Relevance | NewestFirst | Bestseller | Rating | PriceAsc | PriceDesc

fun search_sort_name :: "search_sort \<Rightarrow> string" where
  "search_sort_name Relevance = ''relevance''" | "search_sort_name NewestFirst = ''newest''"
| "search_sort_name Bestseller = ''bestseller''" | "search_sort_name Rating = ''rating''"
| "search_sort_name PriceAsc = ''price_asc''" | "search_sort_name PriceDesc = ''price_desc''"

definition SEARCH_SORTS :: "search_sort list" where
  "SEARCH_SORTS = [Relevance, NewestFirst, Bestseller, Rating, PriceAsc, PriceDesc]"

record search_filters =
  sf_q :: jstr
  sf_sort :: search_sort
  sf_inStock :: bool
  sf_instant :: bool
  sf_categoryId :: "int option"
  sf_page :: int

definition DEFAULT_SEARCH_FILTERS :: search_filters where
  "DEFAULT_SEARCH_FILTERS = \<lparr> sf_q = [], sf_sort = Relevance, sf_inStock = False, sf_instant = False,
     sf_categoryId = None, sf_page = 1 \<rparr>"

definition SEARCH_PAGE_SIZE :: int where "SEARCH_PAGE_SIZE = 24"

text \<open>The page's query comes as \<open>URLSearchParams\<close> or as a record whose values may be lists.\<close>

datatype raw_value = OneText jstr | ManyTexts "jstr list"

datatype raw_query = FromParams url_params | FromRecord "(jstr \<times> raw_value) list"

definition first_value :: "raw_value \<Rightarrow> jstr option" where
  "first_value v = (case v of OneText s \<Rightarrow> Some s | ManyTexts (s # _) \<Rightarrow> Some s | ManyTexts [] \<Rightarrow> None)"

definition read_param :: "raw_query \<Rightarrow> string \<Rightarrow> jstr option" where
  "read_param raw key =
     (case raw of FromParams q \<Rightarrow> qget q key | FromRecord r \<Rightarrow> Option.bind (map_of r (js key)) first_value)"

definition parseSearchFilters :: "raw_query \<Rightarrow> search_filters" where
  "parseSearchFilters raw = \<lparr>
     sf_q = normalizeTerm (or_empty (read_param raw ''q'')),
     sf_sort = pick_enum search_sort_name SEARCH_SORTS Relevance (read_param raw ''sort''),
     sf_inStock = (read_param raw ''stock'' = Some (js ''1'')),
     sf_instant = (read_param raw ''instant'' = Some (js ''1'')),
     sf_categoryId = (case read_param raw ''cat'' of None \<Rightarrow> None
        | Some c \<Rightarrow> (case as_integer (js_number c) of Some n \<Rightarrow> if 0 < n then Some n else None | None \<Rightarrow> None)),
     sf_page = (case read_param raw ''page'' of None \<Rightarrow> 1 | Some p \<Rightarrow> pick_int 0 1 (Some p)) \<rparr>"

definition category_text :: "search_filters \<Rightarrow> jstr" where
  "category_text f = (case sf_categoryId f of None \<Rightarrow> [] | Some c \<Rightarrow> show_int c)"

definition searchFiltersToQuery :: "search_filters \<Rightarrow> url_params" where
  "searchFiltersToQuery f =
     qput ''page'' (1 < sf_page f) (show_int (sf_page f))
     (qput ''cat'' (sf_categoryId f \<noteq> None \<and> sf_categoryId f \<noteq> Some 0) (category_text f)
     (qput ''instant'' (sf_instant f) (js ''1'')
     (qput ''stock'' (sf_inStock f) (js ''1'')
     (qput ''sort'' (sf_sort f \<noteq> Relevance) (js (search_sort_name (sf_sort f)))
     (qput ''q'' (sf_q f \<noteq> []) (sf_q f) [])))))"

definition searchFiltersToApiQuery :: "search_filters \<Rightarrow> url_params" where
  "searchFiltersToApiQuery f =
     qput ''category_id'' (sf_categoryId f \<noteq> None \<and> sf_categoryId f \<noteq> Some 0) (category_text f)
     (qput ''fulfillment'' (sf_instant f) (js ''instant'')
     (qput ''in_stock'' (sf_inStock f) (js ''true'')
     (qput ''sort'' (sf_sort f \<noteq> Relevance) (js (search_sort_name (sf_sort f)))
     [(js ''q'', sf_q f), (js ''page'', show_int (sf_page f)), (js ''per_page'', show_int SEARCH_PAGE_SIZE)])))"

section \<open>Recent searches\<close>

definition RECENT_SEARCHES_LIMIT :: nat where "RECENT_SEARCHES_LIMIT = 6"

definition pushRecentSearch :: "(jstr \<Rightarrow> jstr) \<Rightarrow> jstr list \<Rightarrow> jstr \<Rightarrow> nat \<Rightarrow> jstr list" where
  "pushRecentSearch fold_text its term limit =
     (let v = normalizeTerm term
      in if v = [] then its else take limit (v # filter (\<lambda>i. fold_text i \<noteq> fold_text v) its))"

definition removeRecentSearch :: "(jstr \<Rightarrow> jstr) \<Rightarrow> jstr list \<Rightarrow> jstr \<Rightarrow> jstr list" where
  "removeRecentSearch fold_text its term = filter (\<lambda>i. fold_text i \<noteq> fold_text (normalizeTerm term)) its"

text \<open>The stored value is any JSON; only texts of an array count.  The loop stops once the list is full.\<close>

datatype stored_item = StoredText jstr | StoredOther

fun keep_recent :: "(jstr \<Rightarrow> jstr) \<Rightarrow> jstr list \<Rightarrow> stored_item list \<Rightarrow> jstr list" where
  "keep_recent fold_text out [] = out"
| "keep_recent fold_text out (StoredOther # its) = keep_recent fold_text out its"
| "keep_recent fold_text out (StoredText item # its) =
     (let term = normalizeTerm item;
          out' = (if term \<noteq> [] \<and> \<not> list_ex (\<lambda>e. fold_text e = fold_text term) out then out @ [term] else out)
      in if RECENT_SEARCHES_LIMIT \<le> length out' then out' else keep_recent fold_text out' its)"

definition sanitizeRecentSearches :: "(jstr \<Rightarrow> jstr) \<Rightarrow> stored_item list option \<Rightarrow> jstr list" where
  "sanitizeRecentSearches fold_text v = (case v of None \<Rightarrow> [] | Some its \<Rightarrow> keep_recent fold_text [] its)"

section \<open>The matcher\<close>

lemma in_order_subseq: "in_order cs ps = subseq (map unat cs) ps"
proof (induction cs ps rule: in_order.induct)
  case (3 c cs p ps)
  then show ?case by (auto simp: subseq_Cons2_iff)
qed simp_all

text \<open>
  The matcher of quick actions.  The walk over the label finds exactly the queries whose
  characters, white space left out, occur in the label in order: an action matches when the folded query is
  empty, part of its folded label or a keyword, or such a subsequence of at least two characters.
\<close>

theorem label_matcher:
  "matchesLabel fold_text needle label keywords =
     (let q = fold_text (normalizeTerm needle); compact = filter (\<lambda>c. \<not> js_space c) q
      in q = [] \<or> (\<exists>h. h \<in> set (label # keywords) \<and> str_includes (fold_text h) q) \<or>
         2 \<le> length compact \<and> subseq (map unat compact) (code_points (fold_text label)))"
  unfolding matchesLabel_def Let_def in_order_subseq by (auto simp: list_ex_iff not_less)

section \<open>References opened directly\<close>

lemma strip_locale_double_slash:
  assumes "starts_with path (js ''/'')" "\<not> starts_with path (js ''//'')"
  shows "starts_with (stripLocalePrefix path) (js ''//'') \<longleftrightarrow> starts_with path (js ''/en//'') \<or> starts_with path (js ''/vi//'')"
proof -
  obtain p where p: "path = 47 # p" using assms(1) by (cases path) (auto simp: starts_with_def)
  show ?thesis
  proof (cases "\<exists>a b r. p = a # b # r")
    case True
    then obtain a b r where "p = a # b # r" by blast
    with p assms(2) show ?thesis
      by (cases r) (auto simp: stripLocalePrefix_def starts_with_def)
  next
    case False
    then have "length p \<le> 1" by (cases p; cases "tl p") auto
    then have "\<not> prefix (js ''/en'') path" "\<not> prefix (js ''/vi'') path"
      "\<not> prefix (js ''/en//'') path" "\<not> prefix (js ''/vi//'') path"
      using p by (auto dest!: prefix_length_le simp del: js_Cons)
    with p assms(2) show ?thesis by (simp add: stripLocalePrefix_def starts_with_def del: js_Cons)
  qed
qed

lemma strip_locale_slash:
  "starts_with path (js ''/'') \<Longrightarrow> starts_with (stripLocalePrefix path) (js ''/'')"
  by (cases "drop 3 path") (auto simp: stripLocalePrefix_def starts_with_def Let_def nth_via_drop)

lemma digit_or_ord_first:
  assumes "starts_with term (js ''/'')"
  shows "normalizeOrderCode (Some term) = None"
proof -
  obtain p where p: "term = 47 # p" using assms by (cases "term") (auto simp: starts_with_def)
  have "\<not> js_space 47" by (simp add: js_space_def)
  then have trim: "js_trim term = trim_end term" "trim_end term \<noteq> []"
    using p by (simp_all add: js_trim_def trim_start_def trim_end_def dropWhile_append)
  then obtain q where q: "js_trim term = 47 # q"
    using hd_trim_end [of "term"] p by (cases "js_trim term") auto
  have "upper_text 47 = [47]" by (simp add: upper_text_def upper_unit_def)
  then have up: "js_upper (drop_hash (js_trim term)) = 47 # js_upper q"
    using q by (simp add: drop_hash_def js_upper_def)
  have "\<not> code_char 47" by (simp add: code_char_def is_digit_def)
  then show ?thesis
    using p up by (simp add: normalizeOrderCode_def Let_def order_code_body_def starts_with_def)
qed



section \<open>The address of the results page\<close>

definition search_valid :: "search_filters \<Rightarrow> bool" where
  "search_valid f \<longleftrightarrow> normalizeTerm (sf_q f) = sf_q f \<and>
     (case sf_categoryId f of None \<Rightarrow> True | Some c \<Rightarrow> 0 < c \<and> printable_int c) \<and> 1 \<le> sf_page f \<and> printable_int (sf_page f)"

lemma search_sort_pick [codec_simps]: "pick_enum search_sort_name SEARCH_SORTS fb (Some (js (search_sort_name e))) = e"
  by (cases e) (simp_all add: pick_enum_def SEARCH_SORTS_def js_eq_iff del: js_Cons)

lemma normalizeTerm_Nil [simp]: "normalizeTerm [] = []"
  by (simp add: normalizeTerm_def)

interpretation results_url: url_codec "\<lambda>q. parseSearchFilters (FromParams q)" searchFiltersToQuery "\<lambda>f. f" search_valid
proof
  fix f :: search_filters
  assume v: "search_valid f"
  show "parseSearchFilters (FromParams (searchFiltersToQuery f)) = f"
  proof (rule search_filters.equality)
    show "sf_categoryId (parseSearchFilters (FromParams (searchFiltersToQuery f))) = sf_categoryId f"
      using v by (cases "sf_categoryId f")
        (simp_all add: parseSearchFilters_def searchFiltersToQuery_def read_param_def category_text_def search_valid_def as_integer_show_int)
  qed (use v in \<open>simp_all add: parseSearchFilters_def searchFiltersToQuery_def read_param_def search_valid_def codec_simps
      del: js_Cons\<close>)
qed simp_all

text \<open>
  The results page keeps its filters in the address.  Reading the address written for
  any filters with a normalised search text gives the same filters, and the server, which reads the query as
  a record of values, and the browser, which reads it as parameters, see the same filters in any address.
\<close>

theorem search_address:
  assumes "search_valid f"
  shows "parseSearchFilters (FromParams (searchFiltersToQuery f)) = f \<and>
    parseSearchFilters (FromRecord (map (\<lambda>(k, v). (k, OneText v)) q)) = parseSearchFilters (FromParams q)"
proof
  show "parseSearchFilters (FromParams (searchFiltersToQuery f)) = f" by (rule results_url.parse_print [OF assms])
  have "read_param (FromRecord (map (\<lambda>(k, v). (k, OneText v)) q)) key = read_param (FromParams q) key" for key
    by (cases "map_of q (js key)") (simp_all add: read_param_def qget_def map_of_map first_value_def comp_def)
  then show "parseSearchFilters (FromRecord (map (\<lambda>(k, v). (k, OneText v)) q)) = parseSearchFilters (FromParams q)"
    by (simp add: parseSearchFilters_def)
qed

lemma search_address_witness:
  "parseSearchFilters (FromParams (searchFiltersToQuery (DEFAULT_SEARCH_FILTERS \<lparr> sf_categoryId := Some 7, sf_page := 2 \<rparr>))) =
     DEFAULT_SEARCH_FILTERS \<lparr> sf_categoryId := Some 7, sf_page := 2 \<rparr>"
  by (rule search_address [THEN conjunct1])
    (simp add: search_valid_def DEFAULT_SEARCH_FILTERS_def printable_int_def overflow_bound_def)

text \<open>A search text cut at its limit may end in a space, and normalising it once more changes it.\<close>

lemma search_term_trailing_space:
  "normalizeTerm (normalizeTerm (replicate 79 97 @ [32, 98])) \<noteq> normalizeTerm (replicate 79 97 @ [32, 98])"
  by code_simp

section \<open>The list of recent searches\<close>

definition recent_ok :: "(jstr \<Rightarrow> jstr) \<Rightarrow> jstr list \<Rightarrow> bool" where
  "recent_ok fold_text its \<longleftrightarrow> distinct (map fold_text its) \<and> [] \<notin> set its \<and> length its \<le> RECENT_SEARCHES_LIMIT"

lemma distinct_map_filter': "distinct (map f xs) \<Longrightarrow> distinct (map f (filter P xs))"
  by (rule distinct_map_filter)

lemma distinct_map_take: "distinct (map f xs) \<Longrightarrow> distinct (map f (take n xs))"
  by (metis distinct_take take_map)

lemma recent_append:
  "recent_ok fold_text out \<Longrightarrow> length out < RECENT_SEARCHES_LIMIT \<Longrightarrow> text1 \<noteq> [] \<Longrightarrow>
     \<not> list_ex (\<lambda>e. fold_text e = fold_text text1) out \<Longrightarrow> recent_ok fold_text (out @ [text1])"
  by (auto simp: recent_ok_def list_ex_iff)

lemma keep_recent_ok:
  "recent_ok fold_text out \<Longrightarrow> length out < RECENT_SEARCHES_LIMIT \<Longrightarrow> recent_ok fold_text (keep_recent fold_text out its)"
proof (induction fold_text out its rule: keep_recent.induct)
  case (3 fold_text out item its)
  let ?text1 = "normalizeTerm item"
  let ?out = "if ?text1 \<noteq> [] \<and> \<not> list_ex (\<lambda>e. fold_text e = fold_text ?text1) out then out @ [?text1] else out"
  have "recent_ok fold_text ?out" using 3(2,3) recent_append [of fold_text out ?text1] by auto
  with 3(1) [OF refl refl] show ?case by (auto simp: Let_def)
qed simp_all

lemma recent_filter: "recent_ok fold_text its \<Longrightarrow> recent_ok fold_text (filter P its)"
  by (auto simp: recent_ok_def distinct_map_filter intro: order_trans [OF length_filter_le])

lemma pushRecentSearch_ok:
  assumes "recent_ok fold_text its"
  shows "recent_ok fold_text (pushRecentSearch fold_text its text1 RECENT_SEARCHES_LIMIT)"
proof (cases "normalizeTerm text1 = []")
  case False
  let ?v = "normalizeTerm text1"
  have "distinct (map fold_text (?v # filter (\<lambda>i. fold_text i \<noteq> fold_text ?v) its))"
    using assms distinct_map_filter by (auto simp: recent_ok_def)
  then have "distinct (map fold_text (take RECENT_SEARCHES_LIMIT (?v # filter (\<lambda>i. fold_text i \<noteq> fold_text ?v) its)))"
    by (metis distinct_take take_map)
  moreover have "[] \<notin> set (take RECENT_SEARCHES_LIMIT (?v # filter (\<lambda>i. fold_text i \<noteq> fold_text ?v) its))"
    using assms False by (auto simp: recent_ok_def dest: in_set_takeD)
  ultimately show ?thesis
    using False by (simp add: pushRecentSearch_def recent_ok_def Let_def)
qed (use assms in \<open>simp add: pushRecentSearch_def\<close>)

text \<open>
  The list of recent searches.  Whatever was stored, the list read from it has at
  most six entries, none empty and none a respelling of another, and adding or removing a search keeps
  that; a search just added stands first and is found once, and removing it takes it out again.
\<close>

theorem recent_searches_ok:
  assumes "recent_ok fold_text its"
  shows "recent_ok fold_text (sanitizeRecentSearches fold_text stored) \<and>
    recent_ok fold_text (pushRecentSearch fold_text its text1 RECENT_SEARCHES_LIMIT) \<and>
    recent_ok fold_text (removeRecentSearch fold_text its text1) \<and>
    (normalizeTerm text1 = [] \<or> hd (pushRecentSearch fold_text its text1 RECENT_SEARCHES_LIMIT) = normalizeTerm text1) \<and>
    fold_text (normalizeTerm text1) \<notin> fold_text ` set (removeRecentSearch fold_text its text1)"
proof (intro conjI)
  show "recent_ok fold_text (sanitizeRecentSearches fold_text stored)"
    using keep_recent_ok [of fold_text "[]"]
    by (cases stored) (simp_all add: sanitizeRecentSearches_def recent_ok_def RECENT_SEARCHES_LIMIT_def)
  show "recent_ok fold_text (pushRecentSearch fold_text its text1 RECENT_SEARCHES_LIMIT)"
    by (rule pushRecentSearch_ok [OF assms])
  show "recent_ok fold_text (removeRecentSearch fold_text its text1)"
    unfolding removeRecentSearch_def by (rule recent_filter [OF assms])
qed (auto simp: pushRecentSearch_def removeRecentSearch_def Let_def RECENT_SEARCHES_LIMIT_def numeral_eq_Suc)

lemma recent_searches_ok_witness:
  "recent_ok to_lower (pushRecentSearch to_lower [js ''proxy''] (js '' Proxy '') RECENT_SEARCHES_LIMIT)"
proof -
  have "recent_ok to_lower [js ''proxy'']" by (simp add: recent_ok_def RECENT_SEARCHES_LIMIT_def)
  from recent_searches_ok [OF this] show ?thesis by blast
qed

end
