(* ===== verification/Buyer_Orders.thy ===== *)
theory Buyer_Orders
  imports Inventory_Filters Order_Lines
begin

text \<open>
  The buyer's order console (features/buyer-orders/model.ts, features/buyer-orders/useOrdersUrl.ts,
  lib/stock-format.ts): filters and the open order in the address, date presets, an order's deadline and
  timeline, masked deliveries.  \<open>time_of\<close> is \<open>new Date(s).getTime()\<close> (\<^const>\<open>None\<close> for an invalid date)
  and \<open>lower_vi\<close> is \<open>toLocaleLowerCase("vi")\<close>.  Statuses are the server's strings.
\<close>

section \<open>Filters\<close>

definition PAGE_SIZES :: "int list" where "PAGE_SIZES = [10, 20, 50]"
definition DEFAULT_PAGE_SIZE :: int where "DEFAULT_PAGE_SIZE = 20"

datatype order_tab = TabAllOrders | TabActive | TabAwaitingSeller | TabAwaitingConfirm | TabDisputed | TabDeleted

fun order_tab_name :: "order_tab \<Rightarrow> string" where
  "order_tab_name TabAllOrders = ''''" | "order_tab_name TabActive = ''active''"
| "order_tab_name TabAwaitingSeller = ''awaiting_seller''" | "order_tab_name TabAwaitingConfirm = ''awaiting_confirm''"
| "order_tab_name TabDisputed = ''disputed''" | "order_tab_name TabDeleted = ''deleted''"

definition ORDER_TABS :: "order_tab list" where
  "ORDER_TABS = [TabAllOrders, TabActive, TabAwaitingSeller, TabAwaitingConfirm, TabDisputed, TabDeleted]"

datatype order_sort = OrderNewest | OrderOldest | AmountDesc | AmountAsc

fun order_sort_name :: "order_sort \<Rightarrow> string" where
  "order_sort_name OrderNewest = ''newest''" | "order_sort_name OrderOldest = ''oldest''"
| "order_sort_name AmountDesc = ''amount_desc''" | "order_sort_name AmountAsc = ''amount_asc''"

definition ORDER_SORTS :: "order_sort list" where "ORDER_SORTS = [OrderNewest, OrderOldest, AmountDesc, AmountAsc]"

record order_filters =
  bo_tab :: order_tab
  bo_search :: jstr
  bo_dateFrom :: jstr
  bo_dateTo :: jstr
  bo_sort :: order_sort
  bo_page :: int
  bo_perPage :: int

definition DEFAULT_FILTERS :: order_filters where
  "DEFAULT_FILTERS = \<lparr> bo_tab = TabAllOrders, bo_search = [], bo_dateFrom = [], bo_dateTo = [], bo_sort = OrderNewest,
     bo_page = 1, bo_perPage = DEFAULT_PAGE_SIZE \<rparr>"

definition STATUS_ALIASES :: "(jstr \<times> order_tab) list" where
  "STATUS_ALIASES = [(js ''delivered'', TabAwaitingConfirm), (js ''pending'', TabAwaitingSeller), (js ''processing'', TabAwaitingSeller)]"

definition tabFromParam :: "jstr \<Rightarrow> order_tab" where
  "tabFromParam raw =
     (case List.find (\<lambda>t. js (order_tab_name t) = raw) ORDER_TABS of
        Some t \<Rightarrow> t
      | None \<Rightarrow> (case map_of STATUS_ALIASES raw of Some t \<Rightarrow> t | None \<Rightarrow> TabAllOrders))"

definition deepLinkedOrderRef :: "url_params \<Rightarrow> jstr option" where
  "deepLinkedOrderRef q =
     (let direct = js_trim (if or_empty (qget q ''order'') \<noteq> [] then or_empty (qget q ''order'') else or_empty (qget q ''order_id''));
          raw = js_trim (or_empty (qget q ''search''))
      in if direct \<noteq> [] then Some direct
         else if starts_with raw (js ''#'') \<and> (qget q ''resources'' \<noteq> None \<or> qget q ''lines'' \<noteq> None)
         then (let ref = js_trim (drop 1 raw) in if ref \<noteq> [] then Some ref else None)
         else None)"

definition iso_or_empty :: "jstr \<Rightarrow> jstr" where
  "iso_or_empty s = (if s \<noteq> [] \<and> iso_shape s then s else [])"

definition parseOrdersFilters :: "url_params \<Rightarrow> order_filters" where
  "parseOrdersFilters q = \<lparr>
     bo_tab = tabFromParam (or_empty (qget q ''status'')),
     bo_search = (if deepLinkedOrderRef q \<noteq> None then [] else or_empty (qget q ''search'')),
     bo_dateFrom = iso_or_empty (or_empty (qget q ''date_from'')),
     bo_dateTo = iso_or_empty (or_empty (qget q ''date_to'')),
     bo_sort = pick_enum order_sort_name ORDER_SORTS OrderNewest (qget q ''sort''),
     bo_page = pick_int 1 1 (qget q ''page''),
     bo_perPage = pick_size PAGE_SIZES DEFAULT_PAGE_SIZE (qget q ''per_page'') \<rparr>"

definition keep_param :: "url_params option \<Rightarrow> string \<Rightarrow> url_params \<Rightarrow> url_params" where
  "keep_param keep k q =
     (let v = (case keep of None \<Rightarrow> [] | Some p \<Rightarrow> or_empty (qget p k)) in qput k (v \<noteq> []) v q)"

definition ordersFiltersToSearch :: "url_params option \<Rightarrow> order_filters \<Rightarrow> url_params" where
  "ordersFiltersToSearch keep f =
     qput ''per_page'' (bo_perPage f \<noteq> DEFAULT_PAGE_SIZE) (show_int (bo_perPage f))
     (qput ''page'' (1 < bo_page f) (show_int (bo_page f))
     (qput ''sort'' (bo_sort f \<noteq> OrderNewest) (js (order_sort_name (bo_sort f)))
     (qput ''date_to'' (bo_dateTo f \<noteq> []) (bo_dateTo f)
     (qput ''date_from'' (bo_dateFrom f \<noteq> []) (bo_dateFrom f)
     (qput ''search'' (js_trim (bo_search f) \<noteq> []) (js_trim (bo_search f))
     (qput ''status'' (bo_tab f \<noteq> TabAllOrders) (js (order_tab_name (bo_tab f)))
     (keep_param keep ''review'' (keep_param keep ''resources'' (keep_param keep ''lines'' (keep_param keep ''order'' []))))))))))"

record order_query =
  bq_status :: "jstr option"
  bq_search :: "jstr option"
  bq_date_from :: "jstr option"
  bq_date_to :: "jstr option"
  bq_sort :: order_sort
  bq_page :: int
  bq_per_page :: int

definition non_empty_text :: "jstr \<Rightarrow> jstr option" where
  "non_empty_text s = (if s = [] then None else Some s)"

definition ordersFiltersToQuery :: "order_filters \<Rightarrow> order_query" where
  "ordersFiltersToQuery f = \<lparr>
     bq_status = non_empty_text (js (order_tab_name (bo_tab f))), bq_search = non_empty_text (js_trim (bo_search f)),
     bq_date_from = non_empty_text (bo_dateFrom f), bq_date_to = non_empty_text (bo_dateTo f),
     bq_sort = bo_sort f, bq_page = bo_page f, bq_per_page = bo_perPage f \<rparr>"

definition hasActiveOrderFilters :: "order_filters \<Rightarrow> bool" where
  "hasActiveOrderFilters f \<longleftrightarrow> bo_tab f \<noteq> TabAllOrders \<or> js_trim (bo_search f) \<noteq> [] \<or> bo_dateFrom f \<noteq> [] \<or>
     bo_dateTo f \<noteq> [] \<or> bo_sort f \<noteq> OrderNewest"

definition isExactOrderRefSearch :: "jstr \<Rightarrow> bool" where
  "isExactOrderRefSearch search =
     (let s = js_trim search
      in if starts_with s (js ''#'') then 1 < length s
         else starts_with (to_lower s) (js ''ord-'') \<and> normalizeOrderCode (Some s) \<noteq> None)"

section \<open>The address and the open order\<close>

definition setFilters :: "order_filters \<Rightarrow> url_params \<Rightarrow> url_params" where
  "setFilters next_filters current = ordersFiltersToSearch (Some current) next_filters"

definition openOrder :: "jstr \<Rightarrow> bool \<Rightarrow> url_params \<Rightarrow> url_params" where
  "openOrder ref review q =
     (let q1 = qdel ''order_id'' (qset ''order'' ref q) in if review then qset ''review'' (js ''1'') q1 else qdel ''review'' q1)"

definition closeOrder :: "url_params \<Rightarrow> url_params" where
  "closeOrder q =
     (let q1 = qdel ''review'' (qdel ''lines'' (qdel ''resources'' (qdel ''order_id'' (qdel ''order'' q))));
          search = or_empty (qget q1 ''search'')
      in if deepLinkedOrderRef q \<noteq> None \<and> starts_with search (js ''#'') then qdel ''search'' q1 else q1)"

section \<open>Dates\<close>

text \<open>A day of the local calendar: year, month from 1, day.\<close>

type_synonym day = "nat \<times> nat \<times> nat"

definition leap_year :: "nat \<Rightarrow> bool" where
  "leap_year y \<longleftrightarrow> y mod 4 = 0 \<and> (y mod 100 \<noteq> 0 \<or> y mod 400 = 0)"

definition days_in_month :: "nat \<Rightarrow> nat \<Rightarrow> nat" where
  "days_in_month y m = (if m = 2 then if leap_year y then 29 else 28 else if m \<in> {4, 6, 9, 11} then 30 else 31)"

text \<open>\<open>setDate(getDate() - n)\<close>, one day at a time.\<close>

fun day_before :: "day \<Rightarrow> day" where
  "day_before (y, m, d) =
     (if 1 < d then (y, m, d - 1) else if 1 < m then (y, m - 1, days_in_month y (m - 1)) else (y - 1, 12, 31))"

definition pad2 :: "nat \<Rightarrow> jstr" where
  "pad2 n = replicate (2 - length (show_nat n)) 48 @ show_nat n"

fun localDateString :: "day \<Rightarrow> jstr" where
  "localDateString (y, m, d) = show_nat y @ 45 # pad2 m @ 45 # pad2 d"

datatype date_preset' = AnyDay | Today | Last7 | Last30

fun preset_days :: "date_preset' \<Rightarrow> nat" where
  "preset_days Today = 0" | "preset_days Last7 = 6" | "preset_days Last30 = 29" | "preset_days AnyDay = 0"

definition datePresetRange :: "date_preset' \<Rightarrow> day \<Rightarrow> jstr \<times> jstr" where
  "datePresetRange preset now =
     (if preset = AnyDay then ([], [])
      else (localDateString ((day_before ^^ preset_days preset) now), localDateString now))"

text \<open>\<^const>\<open>None\<close> is the custom range.\<close>

definition activeDatePreset :: "jstr \<times> jstr \<Rightarrow> day \<Rightarrow> date_preset' option" where
  "activeDatePreset dates now =
     (if dates = ([], []) then Some AnyDay else List.find (\<lambda>p. datePresetRange p now = dates) [Today, Last7, Last30])"

section \<open>One order\<close>

record order =
  od_code :: jstr
  od_quantity :: nat
  od_status :: jstr
  od_escrow_expires_at :: "jstr option"
  od_dispute_open_until :: "jstr option"
  od_created_at :: jstr
  od_delivered_at :: "jstr option"
  od_completed_at :: "jstr option"
  od_delivery_mode :: "jstr option"
  od_sla_hours :: "nat option"

datatype deadline_kind = DisputeWindow | Protection | DeliveryDue

record deadline =
  dl_kind :: deadline_kind
  dl_at :: int
  dl_urgent :: bool

definition DAY_MS :: int where "DAY_MS = 24 * 60 * 60 * 1000"

definition TWO_HOURS :: int where "TWO_HOURS = 2 * 60 * 60 * 1000"

definition dispute_deadline :: "(jstr \<Rightarrow> int option) \<Rightarrow> order \<Rightarrow> int \<Rightarrow> deadline option" where
  "dispute_deadline time_of o' now =
     (if od_status o' = js ''delivered'' \<and> or_empty (od_dispute_open_until o') \<noteq> [] \<and> or_empty (od_escrow_expires_at o') \<noteq> []
      then case (time_of (or_empty (od_dispute_open_until o')), time_of (or_empty (od_escrow_expires_at o'))) of
             (Some until, Some hold) \<Rightarrow>
               if until < hold \<and> now < until
               then Some \<lparr> dl_kind = DisputeWindow, dl_at = until, dl_urgent = (until - now < TWO_HOURS) \<rparr> else None
           | _ \<Rightarrow> None
      else None)"

definition orderDeadline :: "(jstr \<Rightarrow> int option) \<Rightarrow> order \<Rightarrow> bool \<Rightarrow> int \<Rightarrow> deadline option" where
  "orderDeadline time_of o' disputed now =
     (if disputed then None
      else case dispute_deadline time_of o' now of
        Some d \<Rightarrow> Some d
      | None \<Rightarrow>
          if od_status o' = js ''delivered'' \<and> or_empty (od_escrow_expires_at o') \<noteq> []
          then map_option (\<lambda>at'. \<lparr> dl_kind = Protection, dl_at = at', dl_urgent = (at' - now < DAY_MS) \<rparr>)
                 (time_of (or_empty (od_escrow_expires_at o')))
          else case od_sla_hours o' of
            None \<Rightarrow> None
          | Some hours \<Rightarrow>
              if od_status o' = js ''pending'' \<and> od_delivery_mode o' = Some (js ''manual'') \<and> 0 < hours
              then map_option (\<lambda>t. let at' = t + int hours * 60 * 60 * 1000
                                   in \<lparr> dl_kind = DeliveryDue, dl_at = at', dl_urgent = (at' - now < TWO_HOURS) \<rparr>)
                     (time_of (od_created_at o'))
              else None)"

record order_stats =
  os_total :: nat
  os_active :: nat
  os_awaiting_confirm :: nat
  os_awaiting_seller :: "nat option"
  os_disputed :: nat
  os_cancelled_or_refunded :: nat

definition tabCount :: "order_stats option \<Rightarrow> order_tab \<Rightarrow> nat option" where
  "tabCount stats tab =
     (case stats of None \<Rightarrow> None
      | Some s \<Rightarrow> Some (case tab of
            TabAllOrders \<Rightarrow> os_total s
          | TabActive \<Rightarrow> os_active s
          | TabAwaitingSeller \<Rightarrow> (case os_awaiting_seller s of None \<Rightarrow> 0 | Some n \<Rightarrow> n)
          | TabAwaitingConfirm \<Rightarrow> os_awaiting_confirm s
          | TabDisputed \<Rightarrow> os_disputed s
          | TabDeleted \<Rightarrow> os_cancelled_or_refunded s))"

definition deliveredDataFileName :: "order \<Rightarrow> jstr" where
  "deliveredDataFileName o' = od_code o' @ js ''_'' @ show_nat (od_quantity o') @ js ''.txt''"

datatype accent = AccentBad | AccentIris | AccentGood | AccentNeutral | AccentWarn

definition orderAccentTone :: "order \<Rightarrow> bool \<Rightarrow> accent" where
  "orderAccentTone o' disputed =
     (if disputed then AccentBad
      else if od_status o' = js ''completed'' then AccentIris
      else if od_status o' = js ''delivered'' then AccentGood
      else if od_status o' = js ''cancelled'' \<or> od_status o' = js ''refunded'' then AccentNeutral
      else AccentWarn)"

datatype timeline_key = PaidStep | DeliveredStep | ProtectionStep | CompletedStep

datatype timeline_state = TlDone | TlCurrent | TlNext | TlAttention

record timeline_step =
  tl_key :: timeline_key
  tl_state :: timeline_state
  tl_at :: "jstr option"
  tl_until :: "jstr option"

definition orderTimeline :: "order \<Rightarrow> bool \<Rightarrow> timeline_step list option" where
  "orderTimeline o' disputed =
     (if od_status o' = js ''cancelled'' \<or> od_status o' = js ''refunded'' then None
      else let delivered = (od_status o' = js ''delivered'' \<or> od_status o' = js ''completed'' \<or> od_status o' = js ''disputed'');
               completed = (od_status o' = js ''completed'')
           in Some
             [\<lparr> tl_key = PaidStep, tl_state = TlDone, tl_at = Some (od_created_at o'), tl_until = None \<rparr>,
              \<lparr> tl_key = DeliveredStep, tl_state = (if delivered then TlDone else TlCurrent),
                tl_at = (if delivered then od_delivered_at o' else None), tl_until = None \<rparr>,
              \<lparr> tl_key = ProtectionStep,
                tl_state = (if completed then TlDone else if disputed \<or> od_status o' = js ''disputed'' then TlAttention
                            else if delivered then TlCurrent else TlNext),
                tl_at = None, tl_until = od_escrow_expires_at o' \<rparr>,
              \<lparr> tl_key = CompletedStep, tl_state = (if completed then TlDone else TlNext),
                tl_at = (if completed then od_completed_at o' else None), tl_until = None \<rparr>])"

definition nameCarriesTerm :: "(jstr \<Rightarrow> jstr) \<Rightarrow> jstr \<Rightarrow> jstr \<Rightarrow> bool" where
  "nameCarriesTerm lower_vi name term = starts_with (lower_vi (js_trim name)) (lower_vi (js_trim term))"

section \<open>Delivered lines\<close>

definition MASK :: jstr where "MASK = replicate 8 0x2022"

definition separator :: "code_unit \<Rightarrow> bool" where
  "separator c \<longleftrightarrow> c = 124 \<or> c = 58"

definition maskDeliveredLine :: "jstr \<Rightarrow> jstr" where
  "maskDeliveredLine raw =
     (let login = takeWhile (\<lambda>c. \<not> separator c) raw; cut = length login
      in if 0 < cut \<and> cut < length raw then take (cut + 1) raw @ MASK
         else if length raw \<le> 12 then MASK else take 4 raw @ MASK)"

record labelled_field =
  lf_label :: jstr
  lf_value :: jstr

definition labelledFields :: "jstr \<Rightarrow> jstr \<Rightarrow> bool \<Rightarrow> labelled_field list option" where
  "labelledFields raw format masked =
     (let labels = map js_trim (split_on 124 format); vs = split_on 124 raw
      in if length vs \<noteq> length labels then None
         else Some (map (\<lambda>(index, label, v).
                \<lparr> lf_label = (if label \<noteq> [] then label else 35 # show_nat (index + 1)),
                  lf_value = (if masked \<and> 0 < index \<and> v \<noteq> [] then MASK else v) \<rparr>)
              (zip [0..<length labels] (zip labels vs))))"

definition LONG_FIELD_CHARS :: nat where "LONG_FIELD_CHARS = 160"

definition batch_at :: "'b option list \<Rightarrow> nat \<Rightarrow> 'b option" where
  "batch_at batchIds i = (if i < length batchIds then batchIds ! i else None)"

definition startsBatchBlock :: "'b option list \<Rightarrow> nat \<Rightarrow> bool" where
  "startsBatchBlock batchIds index \<longleftrightarrow> index = 0 \<or> batch_at batchIds index \<noteq> batch_at batchIds (index - 1)"

section \<open>The address of the list\<close>

lemma qget_keep_param [simp]:
  "qget (keep_param keep k q) l =
     (if k = l \<and> (case keep of None \<Rightarrow> [] | Some p \<Rightarrow> or_empty (qget p k)) \<noteq> [] then qget (the keep) k else qget q l)"
  by (auto simp: keep_param_def Let_def or_empty_def split: option.splits)

definition orders_valid :: "order_filters \<Rightarrow> bool" where
  "orders_valid f \<longleftrightarrow> (bo_dateFrom f = [] \<or> iso_shape (bo_dateFrom f)) \<and> (bo_dateTo f = [] \<or> iso_shape (bo_dateTo f)) \<and>
     1 \<le> bo_page f \<and> printable_int (bo_page f) \<and> bo_perPage f \<in> set PAGE_SIZES"

definition orders_canon :: "order_filters \<Rightarrow> order_filters" where
  "orders_canon f = f \<lparr> bo_search := js_trim (bo_search f) \<rparr>"

lemma tabFromParam_name [codec_simps]: "tabFromParam (js (order_tab_name t)) = t" "tabFromParam [] = TabAllOrders"
  by (cases t) (simp_all add: tabFromParam_def ORDER_TABS_def js_eq_iff del: js_Cons)

lemma order_sort_pick [codec_simps]: "pick_enum order_sort_name ORDER_SORTS fb (Some (js (order_sort_name e))) = e"
  by (cases e) (simp_all add: pick_enum_def ORDER_SORTS_def js_eq_iff del: js_Cons)

lemma iso_or_empty_id [simp]: "iso_or_empty [] = []" "iso_shape s \<Longrightarrow> iso_or_empty s = s"
  by (auto simp: iso_or_empty_def)

lemma pick_order_size [codec_simps]:
  "n \<in> set PAGE_SIZES \<Longrightarrow> pick_size PAGE_SIZES fb (Some (show_int n)) = n" "pick_size PAGE_SIZES fb None = fb"
  by (auto simp: PAGE_SIZES_def printable_int_def overflow_bound_def)

text \<open>What is read back: everything, except that the search is hidden while the address is a deep link.\<close>

lemma parse_orders_print:
  assumes "orders_valid f"
  shows "parseOrdersFilters (ordersFiltersToSearch keep f) =
    orders_canon f \<lparr> bo_search := (if deepLinkedOrderRef (ordersFiltersToSearch keep f) \<noteq> None then [] else js_trim (bo_search f)) \<rparr>"
proof (rule order_filters.equality)
  show "bo_search (parseOrdersFilters (ordersFiltersToSearch keep f)) = bo_search (orders_canon f
    \<lparr> bo_search := (if deepLinkedOrderRef (ordersFiltersToSearch keep f) \<noteq> None then [] else js_trim (bo_search f)) \<rparr>)"
    by (simp add: parseOrdersFilters_def) (simp add: ordersFiltersToSearch_def)
qed (use assms in \<open>auto simp: parseOrdersFilters_def ordersFiltersToSearch_def orders_canon_def orders_valid_def codec_simps
    simp del: js_Cons\<close>)

lemma no_deep_link_alone: "deepLinkedOrderRef (ordersFiltersToSearch None f) = None"
  by (simp add: deepLinkedOrderRef_def ordersFiltersToSearch_def)

interpretation orders_url: url_codec parseOrdersFilters "ordersFiltersToSearch None" orders_canon orders_valid
proof
  fix f :: order_filters
  assume "orders_valid f"
  then show "parseOrdersFilters (ordersFiltersToSearch None f) = orders_canon f" "orders_valid (orders_canon f)"
    using parse_orders_print [of f None] no_deep_link_alone [of f] by (simp_all add: orders_canon_def orders_valid_def)
qed (auto simp: orders_canon_def ordersFiltersToSearch_def)

text \<open>
  The order console keeps its filters in the address.  Reading the address written for
  any filters gives them back with the search trimmed, and the request to the server is the same; written beside
  an open order, everything but the search comes back, and the search only if the address is no deep link.
\<close>

theorem orders_address:
  assumes "orders_valid f"
  shows "parseOrdersFilters (ordersFiltersToSearch None f) = orders_canon f \<and>
    ordersFiltersToQuery (parseOrdersFilters (ordersFiltersToSearch None f)) = ordersFiltersToQuery f \<and>
    parseOrdersFilters (ordersFiltersToSearch (Some url) f) = orders_canon f
      \<lparr> bo_search := (if deepLinkedOrderRef (ordersFiltersToSearch (Some url) f) \<noteq> None then [] else js_trim (bo_search f)) \<rparr>"
  using orders_url.parse_print [OF assms] parse_orders_print [OF assms, of "Some url"]
  by (simp add: ordersFiltersToQuery_def) (simp add: orders_canon_def)

lemma orders_address_witness:
  "parseOrdersFilters (ordersFiltersToSearch None (DEFAULT_FILTERS \<lparr> bo_tab := TabDisputed, bo_page := 4 \<rparr>)) =
     DEFAULT_FILTERS \<lparr> bo_tab := TabDisputed, bo_page := 4 \<rparr>"
proof -
  have "orders_valid (DEFAULT_FILTERS \<lparr> bo_tab := TabDisputed, bo_page := 4 \<rparr>)"
    by (simp add: orders_valid_def DEFAULT_FILTERS_def DEFAULT_PAGE_SIZE_def PAGE_SIZES_def printable_int_def overflow_bound_def)
  from orders_address [OF this, of "[]"] show ?thesis by (simp add: orders_canon_def DEFAULT_FILTERS_def)
qed

section \<open>Opening and closing an order\<close>

lemma qget_openOrder:
  "qget (openOrder ref review q) k =
     (if k = ''order'' then Some ref else if k = ''order_id'' then None
      else if k = ''review'' then (if review then Some (js ''1'') else None) else qget q k)"
  by (simp add: openOrder_def Let_def del: js_Cons)

lemma open_order_link: "js_trim ref \<noteq> [] \<Longrightarrow> deepLinkedOrderRef (openOrder ref review q) = Some (js_trim ref)"
  by (auto simp: deepLinkedOrderRef_def qget_openOrder Let_def)

lemma parse_open_order:
  "js_trim ref \<noteq> [] \<Longrightarrow> parseOrdersFilters (openOrder ref review q) = parseOrdersFilters q \<lparr> bo_search := [] \<rparr>"
  by (rule order_filters.equality) (simp_all add: parseOrdersFilters_def open_order_link qget_openOrder)



text \<open>
  Looking at an order and closing it again.  From a list without an open order
  the same filters come back, the search included, unless it begins with a number sign: the exact search of one
  order is taken for an old link to it and removed.
\<close>

theorem close_order_restores:
  assumes "deepLinkedOrderRef q = None" and "js_trim ref \<noteq> []"
  shows "parseOrdersFilters (closeOrder (openOrder ref review q)) = parseOrdersFilters q
    \<lparr> bo_search := (if starts_with (or_empty (qget q ''search'')) (js ''#'') then [] else bo_search (parseOrdersFilters q)) \<rparr> \<and>
    deepLinkedOrderRef (closeOrder (openOrder ref review q)) = None"
proof -
  let ?u = "closeOrder (openOrder ref review q)"
  let ?sharp = "starts_with (or_empty (qget q ''search'')) (js ''#'')"
  have link: "deepLinkedOrderRef (openOrder ref review q) \<noteq> None" using open_order_link [OF assms(2)] by simp
  have get: "qget ?u k = (if k \<in> {''order'', ''order_id'', ''resources'', ''lines'', ''review''} \<or> k = ''search'' \<and> ?sharp then None
      else qget q k)" for k
    using link by (simp add: closeOrder_def Let_def qget_openOrder del: js_Cons)
  have none: "deepLinkedOrderRef ?u = None"
    by (simp add: deepLinkedOrderRef_def get)
  have "parseOrdersFilters ?u = parseOrdersFilters q
      \<lparr> bo_search := (if ?sharp then [] else bo_search (parseOrdersFilters q)) \<rparr>"
    by (rule order_filters.equality) (simp_all add: parseOrdersFilters_def none assms(1) get del: js_Cons)
  with none show ?thesis by blast
qed

lemma close_order_restores_witness:
  "parseOrdersFilters (closeOrder (openOrder (js ''ORD-3F9K2M7Q'') True [(js ''search'', js ''proxy'')])) =
     parseOrdersFilters [(js ''search'', js ''proxy'')]"
proof -
  have "deepLinkedOrderRef [(js ''search'', js ''proxy'')] = None" "js_trim (js ''ORD-3F9K2M7Q'') \<noteq> []"
    "\<not> starts_with (or_empty (qget [(js ''search'', js ''proxy'')] ''search'')) (js ''#'')"
    by code_simp+
  then show ?thesis
    using close_order_restores [of "[(js ''search'', js ''proxy'')]" "js ''ORD-3F9K2M7Q''" True] by simp
qed

section \<open>Date presets\<close>

definition real_day :: "day \<Rightarrow> bool" where
  "real_day = (\<lambda>(y, m, d). 1 \<le> m \<and> m \<le> 12 \<and> 1 \<le> d \<and> d \<le> days_in_month y m)"

definition day_number :: "day \<Rightarrow> nat" where
  "day_number = (\<lambda>(y, m, d). y * 372 + m * 31 + d)"

lemma days_in_month_bounds: "28 \<le> days_in_month y m" "days_in_month y m \<le> 31"
  by (auto simp: days_in_month_def)

lemma day_before_real:
  assumes "real_day (y, m, d)" "0 < y"
  shows "real_day (day_before (y, m, d))" "day_number (day_before (y, m, d)) < day_number (y, m, d)"
  using assms days_in_month_bounds [of y "m - 1"] days_in_month_bounds [of "y - 1" 12]
  by (auto simp: real_day_def day_number_def days_in_month_def)

text \<open>Going back fewer days than a year has does not leave the years after 0.\<close>

lemma day_before_year: "fst (day_before (y, m, d)) \<le> y" "y \<le> Suc (fst (day_before (y, m, d)))"
  by auto

lemma days_before:
  assumes "real_day now" "n < fst now"
  shows "real_day ((day_before ^^ n) now) \<and> fst now \<le> fst ((day_before ^^ n) now) + n \<and>
    (0 < n \<longrightarrow> day_number ((day_before ^^ n) now) < day_number now)"
  using assms(2)
proof (induction n)
  case (Suc n)
  obtain y m d where eq: "(day_before ^^ n) now = (y, m, d)" by (cases "(day_before ^^ n) now")
  then have ih: "real_day (y, m, d)" "fst now \<le> y + n" "0 < n \<longrightarrow> day_number (y, m, d) < day_number now" "n = 0 \<longrightarrow> (y, m, d) = now"
    using Suc by auto
  then have "0 < y" using Suc.prems by linarith
  from day_before_real [OF ih(1) this] ih day_before_year [of y m d] show ?case
    using eq by (cases "n = 0") auto
qed (use assms(1) in simp)

lemma length_pad2: "n < 100 \<Longrightarrow> length (pad2 n) = 2"
  using length_show_nat [of n 2] by (simp add: pad2_def)

lemma pad2_inj: "pad2 m = pad2 n \<Longrightarrow> m = n"
proof -
  assume "pad2 m = pad2 n"
  then have "digits_value 10 0 (pad2 m) = digits_value 10 0 (pad2 n)" by simp
  then show ?thesis by (simp add: pad2_def)
qed

lemma localDateString_inj:
  assumes "real_day a" "real_day b" "localDateString a = localDateString b"
  shows "a = b"
proof -
  obtain y m d where a: "a = (y, m, d)" by (cases a)
  obtain y' m' d' where b: "b = (y', m', d')" by (cases b)
  have bounds: "m < 100" "d < 100" "m' < 100" "d' < 100"
    using assms(1,2) days_in_month_bounds(2) [of y m] days_in_month_bounds(2) [of y' m']
    by (auto simp: a b real_day_def)
  have free: "45 \<notin> set (show_nat n)" for n using show_nat_digits digit_neq by blast
  have "split_on 45 (localDateString a) = show_nat y # split_on 45 (pad2 m @ 45 # pad2 d)"
    "split_on 45 (localDateString b) = show_nat y' # split_on 45 (pad2 m' @ 45 # pad2 d')"
    by (simp_all add: a b split_on_append free)
  then have y: "show_nat y = show_nat y'" using assms(3) by simp
  then have "pad2 m @ 45 # pad2 d = pad2 m' @ 45 # pad2 d'" using assms(3) by (simp add: a b)
  then have "pad2 m = pad2 m' \<and> pad2 d = pad2 d'" using bounds by (auto simp: length_pad2)
  then show ?thesis using y by (auto simp: a b show_nat_inj dest: pad2_inj)
qed

lemma preset_from:
  assumes "real_day now" "40 \<le> fst now" "preset_days p \<noteq> preset_days p'" "p \<noteq> AnyDay" "p' \<noteq> AnyDay"
  shows "datePresetRange p now \<noteq> datePresetRange p' now"
proof -
  have lt: "day_number ((day_before ^^ (k + n)) now) < day_number ((day_before ^^ n) now)" if "0 < k" "k + n \<le> 29" for k n
  proof -
    have r: "real_day ((day_before ^^ n) now)" "k < fst ((day_before ^^ n) now)"
      using days_before [OF assms(1), of n] assms(2) that by auto
    show ?thesis using days_before [OF r] that(1) by (simp add: funpow_add)
  qed
  have ne: "(day_before ^^ preset_days p) now \<noteq> (day_before ^^ preset_days p') now"
  proof (cases "preset_days p < preset_days p'")
    case True
    then show ?thesis using lt [of "preset_days p' - preset_days p" "preset_days p"] by (cases p') auto
  next
    case False
    then show ?thesis using lt [of "preset_days p - preset_days p'" "preset_days p'"] assms(3) by (cases p) auto
  qed
  have "real_day ((day_before ^^ preset_days x) now)" for x
    using days_before [OF assms(1), of "preset_days x"] assms(2) by (cases x) auto
  from localDateString_inj [OF this this] ne show ?thesis 
    unfolding datePresetRange_def if_not_P [OF assms(4)] if_not_P [OF assms(5)] by blast
qed

text \<open>
  Date presets.  The range a preset writes into the filters is recognised as that
  preset on the same day, whatever months, leap years and year ends lie inside it, and starts on a
  day of the calendar that is not after today.
\<close>

theorem date_presets_recognised:
  assumes "real_day now" and "40 \<le> fst now"
  shows "activeDatePreset (datePresetRange preset now) now = Some preset \<and>
    real_day ((day_before ^^ preset_days preset) now) \<and>
    day_number ((day_before ^^ preset_days preset) now) \<le> day_number now"
proof (intro conjI)
  have ne: "localDateString x \<noteq> []" for x by (cases x) simp
  show "activeDatePreset (datePresetRange preset now) now = Some preset"
    using preset_from [OF assms, of Today Last7] preset_from [OF assms, of Today Last30] preset_from [OF assms, of Last7 Last30]
    by (cases preset) (auto simp: activeDatePreset_def ne datePresetRange_def [of AnyDay] datePresetRange_def simp del: localDateString.simps)
  show "real_day ((day_before ^^ preset_days preset) now)"
    using days_before [OF assms(1), of "preset_days preset"] assms(2) by (cases preset) auto
  show "day_number ((day_before ^^ preset_days preset) now) \<le> day_number now"
    using days_before [OF assms(1), of "preset_days preset"] assms(2) by (cases preset) auto
qed

lemma date_presets_recognised_witness:
  "activeDatePreset (datePresetRange Last7 (2024, 3, 4)) (2024, 3, 4) = Some Last7 \<and>
   datePresetRange Last7 (2024, 3, 4) = (js ''2024-02-27'', js ''2024-03-04'')"
proof
  have "real_day (2024, 3, 4)" by (simp add: real_day_def days_in_month_def)
  from date_presets_recognised [OF this] show "activeDatePreset (datePresetRange Last7 (2024, 3, 4)) (2024, 3, 4) = Some Last7"
    by simp
  show "datePresetRange Last7 (2024, 3, 4) = (js ''2024-02-27'', js ''2024-03-04'')"
    by code_simp
qed

section \<open>Deadlines and the timeline\<close>

definition active_keys :: "timeline_step list \<Rightarrow> timeline_key list" where
  "active_keys steps = map tl_key (filter (\<lambda>s. tl_state s = TlCurrent \<or> tl_state s = TlAttention) steps)"

lemma dispute_deadlineD:
  "dispute_deadline time_of o' now = Some d \<Longrightarrow> od_status o' = js ''delivered'' \<and> dl_kind d = DisputeWindow \<and> now < dl_at d \<and>
     (\<exists>hold. time_of (or_empty (od_escrow_expires_at o')) = Some hold \<and> dl_at d < hold) \<and> dl_urgent d = (dl_at d - now < TWO_HOURS)"
  by (auto simp: dispute_deadline_def simp del: js_Cons split: option.splits if_splits)

lemma orderDeadlineD:
  assumes "orderDeadline time_of o' disputed now = Some d"
  shows "\<not> disputed \<and>
    (dl_kind d = DisputeWindow \<and> dispute_deadline time_of o' now = Some d \<or>
     dl_kind d = Protection \<and> od_status o' = js ''delivered'' \<and> dl_urgent d = (dl_at d - now < DAY_MS) \<or>
     dl_kind d = DeliveryDue \<and> od_status o' = js ''pending'' \<and> dl_urgent d = (dl_at d - now < TWO_HOURS))"
  using assms
  by (auto simp: orderDeadline_def Let_def simp del: js_Cons dest: dispute_deadlineD split: option.splits if_splits)

text \<open>
  An order's deadline and its timeline agree.  An order that has a deadline has a
  timeline in which exactly one step is under way: its delivery when the deadline is the seller's, the
  protection window otherwise.  The window for disputes is shown only while it is open and ends before the hold,
  and a deadline is urgent in its last two hours, the protection in its last day.
\<close>

theorem deadline_on_timeline:
  assumes "orderDeadline time_of o' disputed now = Some d"
  shows "(\<exists>steps. orderTimeline o' disputed = Some steps \<and>
      active_keys steps = [if dl_kind d = DeliveryDue then DeliveredStep else ProtectionStep]) \<and>
    dl_urgent d = (dl_at d - now < (if dl_kind d = Protection then DAY_MS else TWO_HOURS)) \<and>
    (dl_kind d \<noteq> DisputeWindow \<or>
      now < dl_at d \<and> (\<exists>hold. time_of (or_empty (od_escrow_expires_at o')) = Some hold \<and> dl_at d < hold))"
proof -
  have timeline: "\<exists>steps. orderTimeline o' False = Some steps \<and> active_keys steps = [ProtectionStep]"
    if "od_status o' = js ''delivered''"
    using that by (simp add: orderTimeline_def active_keys_def js_eq_iff del: js_Cons)
  have pending: "\<exists>steps. orderTimeline o' False = Some steps \<and> active_keys steps = [DeliveredStep]"
    if "od_status o' = js ''pending''"
    using that by (simp add: orderTimeline_def active_keys_def js_eq_iff del: js_Cons)
  from orderDeadlineD [OF assms] show ?thesis
    using dispute_deadlineD [of time_of o' now d] timeline pending by (auto simp del: js_Cons)
qed

definition sample_order :: order where
  "sample_order = \<lparr> od_code = js ''ORD-3F9K2M7Q'', od_quantity = 2, od_status = js ''pending'', od_escrow_expires_at = None,
     od_dispute_open_until = None, od_created_at = js ''2026-07-01'', od_delivered_at = None, od_completed_at = None,
     od_delivery_mode = Some (js ''manual''), od_sla_hours = Some 3 \<rparr>"

lemma deadline_on_timeline_witness:
  "\<exists>steps. orderTimeline sample_order False = Some steps \<and> active_keys steps = [DeliveredStep]"
proof -
  have "orderDeadline (\<lambda>_. Some 0) sample_order False 1000 =
      Some \<lparr> dl_kind = DeliveryDue, dl_at = 10800000, dl_urgent = False \<rparr>"
    by (simp add: orderDeadline_def dispute_deadline_def sample_order_def TWO_HOURS_def js_eq_iff del: js_Cons)
  from deadline_on_timeline [OF this] show ?thesis by simp
qed

section \<open>Hidden secrets\<close>



end
