(* ===== verification/Product_Content.thy ===== *)
theory Product_Content
  imports Prelude
begin

text \<open>
  What a product's page says, as the seller edits it: questions and answers as text (lib/faq-text.ts), and
  the content of the seller workbench (features/seller-workbench/logic.ts) with its two locales, its
  typed lists and the translation that is saved.  An object is the list of its entries in insertion order
  (keys that are array indices, which the language lists first, are outside).
\<close>

section \<open>Questions and answers as text\<close>

record faq_pair =
  fq_q :: jstr
  fq_a :: jstr

text \<open>
  \<open>raw.split(/\n\s*\n/)\<close>: a separator starts at a line end and goes on to the last line end of the white
  space behind it.
\<close>

definition blank_skip :: "jstr \<Rightarrow> nat" where
  "blank_skip s = (let ws = takeWhile js_space s in length ws - length (takeWhile (\<lambda>c. c \<noteq> 10) (rev ws)))"

definition cons_first :: "'a \<Rightarrow> 'a list list \<Rightarrow> 'a list list" where
  "cons_first c ys = (case ys of [] \<Rightarrow> [[c]] | y # r \<Rightarrow> (c # y) # r)"

function split_blank :: "jstr \<Rightarrow> jstr list" where
  "split_blank [] = [[]]"
| "split_blank (c # s) =
     (if c = 10 \<and> 10 \<in> set (takeWhile js_space s) then [] # split_blank (drop (blank_skip s) s)
      else cons_first c (split_blank s))"
  by pat_completeness auto
termination
  by (relation "measure length") auto

definition text_lines :: "jstr \<Rightarrow> jstr list" where
  "text_lines raw = filter (\<lambda>l. l \<noteq> []) (map js_trim (split_on 10 raw))"

definition block_pair :: "jstr list \<Rightarrow> faq_pair" where
  "block_pair block = \<lparr> fq_q = hd block, fq_a = join [10] (tl block) \<rparr>"

definition parseFaqBlocks :: "jstr \<Rightarrow> faq_pair list" where
  "parseFaqBlocks raw =
     map block_pair
       (filter (\<lambda>block. 2 \<le> length block) (map text_lines (split_blank raw)))"

definition faqToText :: "faq_pair list \<Rightarrow> jstr" where
  "faqToText its = join [10, 10] (map (\<lambda>i. fq_q i @ [10] @ fq_a i) its)"

section \<open>Typed lists\<close>

definition parseResourceLines :: "jstr \<Rightarrow> jstr list" where
  "parseResourceLines raw =
     foldl (\<lambda>its line. if js_trim line = [] \<or> js_trim line \<in> set its then its else its @ [js_trim line]) [] (split_on 10 raw)"

definition parseFeatureLines :: "jstr \<Rightarrow> jstr list" where
  "parseFeatureLines raw = filter (\<lambda>v. v \<noteq> []) (map js_trim (split_on 10 raw))"

definition spec_line :: "jstr \<Rightarrow> (jstr \<times> jstr) option" where
  "spec_line line =
     (let key = takeWhile (\<lambda>c. c \<noteq> 58) line
      in if key = [] \<or> length key = length line then None
         else let k = js_trim key; v = js_trim (drop (length key + 1) line)
              in if k \<noteq> [] \<and> v \<noteq> [] then Some (k, v) else None)"

definition add_spec :: "(jstr \<times> jstr) list \<Rightarrow> jstr \<Rightarrow> (jstr \<times> jstr) list" where
  "add_spec specs line = (case spec_line line of None \<Rightarrow> specs | Some (k, v) \<Rightarrow> AList.update k v specs)"

definition parseSpecLines :: "jstr \<Rightarrow> (jstr \<times> jstr) list" where
  "parseSpecLines raw = foldl add_spec [] (split_on 10 raw)"

section \<open>Content\<close>

datatype locale' = Vi | En

record content =
  cn_title :: jstr
  cn_description :: jstr
  cn_highlightText :: jstr
  cn_featuresText :: jstr
  cn_specsText :: jstr
  cn_warrantyText :: jstr
  cn_deliveryNote :: jstr
  cn_inspectionText :: jstr
  cn_faqText :: jstr

definition EMPTY_BUYER_CONTENT :: content where
  "EMPTY_BUYER_CONTENT = \<lparr> cn_title = [], cn_description = [], cn_highlightText = [], cn_featuresText = [], cn_specsText = [],
     cn_warrantyText = [], cn_deliveryNote = [], cn_inspectionText = [], cn_faqText = [] \<rparr>"

text \<open>What is saved; an empty text and an empty list of steps or questions are \<open>null\<close>.\<close>

record content_translation =
  ct_title :: jstr
  ct_description :: jstr
  ct_highlight_text :: "jstr option"
  ct_features :: "jstr list"
  ct_specs :: "(jstr \<times> jstr) list"
  ct_warranty_text :: "jstr option"
  ct_delivery_note :: "jstr option"
  ct_inspection_steps :: "jstr list option"
  ct_faq :: "faq_pair list option"

text \<open>What the server sends; every field may be missing.\<close>

record translation =
  tr_title :: "jstr option"
  tr_description :: "jstr option"
  tr_highlight_text :: "jstr option"
  tr_features :: "jstr list option"
  tr_specs :: "(jstr \<times> jstr) list option"
  tr_warranty_text :: "jstr option"
  tr_delivery_note :: "jstr option"
  tr_inspection_steps :: "jstr list option"
  tr_faq :: "faq_pair list option"

definition text_of :: "jstr option \<Rightarrow> jstr" where
  "text_of x = (case x of None \<Rightarrow> [] | Some s \<Rightarrow> s)"

definition list_of :: "'a list option \<Rightarrow> 'a list" where
  "list_of x = (case x of None \<Rightarrow> [] | Some s \<Rightarrow> s)"

definition spec_text :: "jstr \<times> jstr \<Rightarrow> jstr" where
  "spec_text kv = fst kv @ js '': '' @ snd kv"

definition translationToBuyerContent :: "translation \<Rightarrow> content" where
  "translationToBuyerContent t = \<lparr>
     cn_title = text_of (tr_title t), cn_description = text_of (tr_description t),
     cn_highlightText = text_of (tr_highlight_text t),
     cn_featuresText = join [10] (list_of (tr_features t)),
     cn_specsText = join [10] (map spec_text (list_of (tr_specs t))),
     cn_warrantyText = text_of (tr_warranty_text t), cn_deliveryNote = text_of (tr_delivery_note t),
     cn_inspectionText = join [10] (list_of (tr_inspection_steps t)),
     cn_faqText = faqToText (list_of (tr_faq t)) \<rparr>"

definition INSPECTION_STEPS_MAX :: nat where "INSPECTION_STEPS_MAX = 10"
definition PRODUCT_FAQ_MAX :: nat where "PRODUCT_FAQ_MAX = 12"

definition none_if_empty :: "'a list \<Rightarrow> 'a list option" where
  "none_if_empty s = (if s = [] then None else Some s)"

definition buyerContentToTranslation :: "content \<Rightarrow> content_translation" where
  "buyerContentToTranslation c =
     (let steps = take INSPECTION_STEPS_MAX (parseFeatureLines (cn_inspectionText c));
          faq = take PRODUCT_FAQ_MAX (parseFaqBlocks (cn_faqText c))
      in \<lparr> ct_title = js_trim (cn_title c), ct_description = js_trim (cn_description c),
           ct_highlight_text = none_if_empty (js_trim (cn_highlightText c)),
           ct_features = parseFeatureLines (cn_featuresText c), ct_specs = parseSpecLines (cn_specsText c),
           ct_warranty_text = none_if_empty (js_trim (cn_warrantyText c)),
           ct_delivery_note = none_if_empty (js_trim (cn_deliveryNote c)),
           ct_inspection_steps = none_if_empty steps, ct_faq = none_if_empty faq \<rparr>)"

record bilingual =
  bi_vi :: content
  bi_en :: content

definition content_in :: "locale' \<Rightarrow> bilingual \<Rightarrow> content" where
  "content_in l b = (case l of Vi \<Rightarrow> bi_vi b | En \<Rightarrow> bi_en b)"

definition hasCompleteLocalizedContent :: "bilingual \<Rightarrow> locale' \<Rightarrow> bool" where
  "hasCompleteLocalizedContent content' l \<longleftrightarrow>
     js_trim (cn_title (content_in l content')) \<noteq> [] \<and> js_trim (cn_description (content_in l content')) \<noteq> []"

text \<open>The parts of a product the edit form is filled from.\<close>

record product_texts =
  px_available :: "locale' list option"
  px_primary :: "locale' option"
  px_title :: jstr
  px_description :: jstr
  px_highlight_text :: "jstr option"
  px_features :: "jstr list option"
  px_specs :: "(jstr \<times> jstr) list option"
  px_warranty_text :: "jstr option"
  px_vi :: "translation option"
  px_en :: "translation option"

definition primary_locale :: "product_texts \<Rightarrow> locale'" where
  "primary_locale p =
     (case px_primary p of
        Some l \<Rightarrow> l
      | None \<Rightarrow> (case list_of (px_available p) of [l] \<Rightarrow> l | _ \<Rightarrow> Vi))"

definition scalar_fallback :: "product_texts \<Rightarrow> translation" where
  "scalar_fallback p = \<lparr> tr_title = Some (px_title p), tr_description = Some (px_description p),
     tr_highlight_text = px_highlight_text p, tr_features = px_features p, tr_specs = px_specs p,
     tr_warranty_text = px_warranty_text p, tr_delivery_note = None, tr_inspection_steps = None, tr_faq = None \<rparr>"

definition hydrate_locale :: "product_texts \<Rightarrow> locale' \<Rightarrow> translation option \<Rightarrow> content" where
  "hydrate_locale p l t =
     (case t of
        Some t' \<Rightarrow> translationToBuyerContent t'
      | None \<Rightarrow> if primary_locale p = l then translationToBuyerContent (scalar_fallback p) else EMPTY_BUYER_CONTENT)"

definition hydrate_content :: "product_texts \<Rightarrow> bilingual" where
  "hydrate_content p = \<lparr> bi_vi = hydrate_locale p Vi (px_vi p), bi_en = hydrate_locale p En (px_en p) \<rparr>"

section \<open>Lists of lines\<close>

definition good_line :: "jstr \<Rightarrow> bool" where
  "good_line s \<longleftrightarrow> s \<noteq> [] \<and> trimmed s \<and> 10 \<notin> set s"

lemma good_lineD: "good_line s \<Longrightarrow> s \<noteq> [] \<and> js_trim s = s \<and> 10 \<notin> set s \<and> \<not> js_space (hd s) \<and> \<not> js_space (last s)"
  by (auto simp: good_line_def trimmed_def trimmed_js_trim_id)

lemma good_line_trim: "10 \<notin> set s \<Longrightarrow> js_trim s \<noteq> [] \<Longrightarrow> good_line (js_trim s)"
  using set_js_trim_subset [of s] by (auto simp: good_line_def)

lemma parseFeatureLines_good: "v \<in> set (parseFeatureLines raw) \<Longrightarrow> good_line v"
  by (auto simp: parseFeatureLines_def dest: split_on_parts_free intro!: good_line_trim)

lemma parseFeatureLines_join:
  assumes "list_all good_line ls"
  shows "parseFeatureLines (join [10] ls) = ls"
proof (cases "ls = []")
  case False
  then have "split_on 10 (join [10] ls) = ls"
    using assms by (intro split_on_join) (auto simp: list_all_iff dest: good_lineD)
  moreover have "map js_trim ls = ls" using assms by (auto simp: list_all_iff dest: good_lineD intro: map_idI)
  ultimately show ?thesis using assms by (auto simp: parseFeatureLines_def list_all_iff filter_id_conv dest: good_lineD)
qed (simp add: parseFeatureLines_def)

section \<open>Specifications\<close>

definition good_spec :: "jstr \<times> jstr \<Rightarrow> bool" where
  "good_spec kv \<longleftrightarrow> good_line (fst kv) \<and> 58 \<notin> set (fst kv) \<and> good_line (snd kv)"

lemma js_trim_space: "js_trim (32 # s) = js_trim s"
  by (simp add: js_trim_def trim_start_def js_space_def)

lemma spec_line_text: "good_spec kv \<Longrightarrow> spec_line (spec_text kv) = Some kv"
proof -
  assume g: "good_spec kv"
  then have tw: "takeWhile (\<lambda>c. c \<noteq> 58) (spec_text kv) = fst kv"
    by (auto simp: good_spec_def spec_text_def takeWhile_append)
  have t: "js_trim (fst kv) = fst kv" "js_trim (snd kv) = snd kv" "fst kv \<noteq> []" "snd kv \<noteq> []"
    using g by (auto simp: good_spec_def dest: good_lineD)
  show ?thesis
    unfolding spec_line_def Let_def tw using t by (simp add: spec_text_def js_trim_space)
qed

lemma parseSpecLines_join:
  assumes "list_all good_spec specs" "distinct (map fst specs)"
  shows "parseSpecLines (join [10] (map spec_text specs)) = specs"
proof (cases "specs = []")
  case False
  have "10 \<notin> set (spec_text kv)" if "kv \<in> set specs" for kv
    using assms(1) that by (auto simp: list_all_iff good_spec_def spec_text_def dest: good_lineD)
  then have sp: "split_on 10 (join [10] (map spec_text specs)) = map spec_text specs"
    using False by (intro split_on_join) auto
  have "foldl add_spec acc (map spec_text specs) = acc @ specs" if "list_all good_spec specs" "distinct (map fst (acc @ specs))" for acc
    using that
  proof (induction specs arbitrary: acc)
    case (Cons kv specs)
    have "add_spec acc (spec_text kv) = acc @ [kv]"
      using Cons.prems by (cases kv) (auto simp: add_spec_def spec_line_text update_fresh)
    then show ?case using Cons.IH [of "acc @ [kv]"] Cons.prems by simp
  qed simp
  from this [OF assms(1), of "[]"] assms(2) show ?thesis by (simp add: parseSpecLines_def sp)
qed (simp add: parseSpecLines_def add_spec_def spec_line_def)

lemma spec_line_good: "10 \<notin> set line \<Longrightarrow> spec_line line = Some kv \<Longrightarrow> good_spec kv"
proof -
  assume n: "10 \<notin> set line" and s: "spec_line line = Some kv"
  let ?key = "takeWhile (\<lambda>c. c \<noteq> 58) line"
  have "10 \<notin> set ?key" "58 \<notin> set ?key" "10 \<notin> set (drop (length ?key + 1) line)"
    using n by (auto dest: set_takeWhileD in_set_dropD)
  moreover have "set (js_trim ?key) \<subseteq> set ?key" by (rule set_js_trim_subset)
  ultimately show ?thesis
    using s good_line_trim by (auto simp: spec_line_def Let_def good_spec_def split: if_splits)
qed

lemma parseSpecLines_good: "list_all good_spec (parseSpecLines raw) \<and> distinct (map fst (parseSpecLines raw))"
proof -
  have "list_all good_spec (foldl add_spec acc ls) \<and> distinct (map fst (foldl add_spec acc ls))"
    if "\<forall>l \<in> set ls. 10 \<notin> set l" "list_all good_spec acc" "distinct (map fst acc)" for acc ls
    using that
  proof (induction ls arbitrary: acc)
    case (Cons l ls)
    have "list_all good_spec (add_spec acc l) \<and> distinct (map fst (add_spec acc l))"
      using Cons.prems spec_line_good [of l]
      by (auto simp: add_spec_def list_all_iff distinct_update dest: set_update_subset split: option.splits)
    then show ?case using Cons by simp
  qed simp
  moreover have "\<forall>l \<in> set (split_on 10 raw). 10 \<notin> set l" by (auto dest: split_on_parts_free)
  ultimately show ?thesis by (simp add: parseSpecLines_def)
qed

section \<open>Questions and answers read back\<close>

definition solid :: "jstr \<Rightarrow> bool" where
  "solid s \<longleftrightarrow> s \<noteq> [] \<and> \<not> js_space (hd s) \<and> (\<forall>x y. s = x @ 10 # y \<longrightarrow> y \<noteq> [] \<and> \<not> js_space (hd y))"

lemma newline_space [simp]: "js_space 10"
  by (simp add: js_space_def)

lemma split_blank_not_Nil [simp]: "split_blank s \<noteq> []"
  by (cases s) (auto simp: cons_first_def split: list.splits)

lemma solid_tl: "\<forall>x y. c # s = x @ 10 # y \<longrightarrow> y \<noteq> [] \<and> \<not> js_space (hd y) \<Longrightarrow> s = x @ 10 # y \<Longrightarrow> y \<noteq> [] \<and> \<not> js_space (hd y)"
  by (metis append_Cons)

lemma blank_skip_one: "t \<noteq> [] \<Longrightarrow> \<not> js_space (hd t) \<Longrightarrow> blank_skip (10 # t) = 1"
  by (cases t) (simp_all add: blank_skip_def Let_def)

lemma split_blank_solid:
  assumes "\<forall>x y. s = x @ 10 # y \<longrightarrow> y \<noteq> [] \<and> \<not> js_space (hd y)" "t = [] \<or> t \<noteq> [] \<and> \<not> js_space (hd t)"
  shows "split_blank (s @ (if t = [] then [] else 10 # 10 # t)) = (if t = [] then [s] else s # split_blank t)"
  using assms(1)
proof (induction s)
  case Nil
  then show ?case using assms(2) by (auto simp: blank_skip_one)
next
  case (Cons c s)
  let ?e = "if t = [] then [] else 10 # 10 # t"
  have "\<forall>x y. s = x @ 10 # y \<longrightarrow> y \<noteq> [] \<and> \<not> js_space (hd y)" using solid_tl [OF Cons.prems] by blast
  note ih = Cons.IH [OF this]
  have "10 \<notin> set (takeWhile js_space (s @ ?e))" if "c = 10"
  proof -
    have "s \<noteq> [] \<and> \<not> js_space (hd s)" using Cons.prems that by (metis append_Nil)
    then show ?thesis by (cases s) auto
  qed
  then show ?case using ih by (cases "t = []") (auto simp: cons_first_def)
qed

lemma split_blank_join:
  assumes "ss \<noteq> []" "\<forall>s \<in> set ss. solid s"
  shows "split_blank (join [10, 10] ss) = ss"
  using assms
proof (induction "[10, 10] :: jstr" ss rule: join.induct)
  case (2 x)
  then show ?case using split_blank_solid [of x "[]"] by (simp add: solid_def)
next
  case (3 x y ys)
  have "\<not> js_space (hd (join [10, 10] (y # ys)))" "join [10, 10] (y # ys) \<noteq> []"
    using 3(3) by (cases ys; auto simp: solid_def)+
  then show ?case using 3 split_blank_solid [of x "join [10, 10] (y # ys)"] by (simp add: solid_def)
qed simp

text \<open>A block: a question of one line and the lines of its answer.\<close>

definition good_faq :: "faq_pair \<Rightarrow> bool" where
  "good_faq i \<longleftrightarrow> good_line (fq_q i) \<and> (\<exists>ls. ls \<noteq> [] \<and> list_all good_line ls \<and> fq_a i = join [10] ls)"

lemma join_lines_solid:
  assumes "ls \<noteq> []" "list_all good_line ls"
  shows "solid (join [10] ls)"
  using assms
proof (induction "[10] :: jstr" ls rule: join.induct)
  case (2 l)
  then show ?case by (auto simp: solid_def dest: good_lineD)
next
  case (3 l l' ls)
  let ?r = "join [10] (l' # ls)"
  have l: "l \<noteq> []" "10 \<notin> set l" "\<not> js_space (hd l)" using 3(3) by (auto dest: good_lineD)
  have r: "solid ?r" using 3 by simp
  have "y \<noteq> [] \<and> \<not> js_space (hd y)" if "l @ 10 # ?r = x @ 10 # y" for x y
  proof -
    from that [unfolded append_eq_append_conv2] l(2) consider "y = ?r" | us where "?r = us @ 10 # y"
      by (auto simp: Cons_eq_append_conv append_eq_Cons_conv)
    then show ?thesis using r by cases (auto simp: solid_def)
  qed
  then show ?case using l r by (simp add: solid_def)
qed simp

lemma text_lines_eq: "text_lines = parseFeatureLines"
  by (rule ext) (simp add: text_lines_def parseFeatureLines_def)

lemma faq_block: "good_faq i \<Longrightarrow> \<exists>ls. ls \<noteq> [] \<and> list_all good_line (fq_q i # ls) \<and> fq_a i = join [10] ls \<and>
     fq_q i @ [10] @ fq_a i = join [10] (fq_q i # ls)"
  by (auto simp: good_faq_def join_Cons)

lemma faq_roundtrip_good:
  assumes "list_all good_faq its"
  shows "parseFaqBlocks (faqToText its) = its"
proof (cases "its = []")
  case True
  then show ?thesis by (simp add: parseFaqBlocks_def faqToText_def text_lines_def)
next
  case False
  let ?text = "\<lambda>i. fq_q i @ [10] @ fq_a i"
  have solid: "solid (?text i)" if "i \<in> set its" for i
    using faq_block [of i] assms that join_lines_solid by (auto simp: list_all_iff simp del: join.simps)
  have block: "2 \<le> length (text_lines (?text i)) \<and> block_pair (text_lines (?text i)) = i" if i: "i \<in> set its" for i
  proof -
    obtain ls where ls: "ls \<noteq> []" "list_all good_line (fq_q i # ls)" "fq_a i = join [10] ls" "?text i = join [10] (fq_q i # ls)"
      using faq_block [of i] assms i by (auto simp: list_all_iff simp del: join.simps)
    have "text_lines (?text i) = fq_q i # ls"
      unfolding ls(4) text_lines_eq by (rule parseFeatureLines_join [OF ls(2)])
    moreover have "1 \<le> length ls" using ls(1) by (cases ls) auto
    ultimately show ?thesis using ls(3) by (simp add: block_pair_def)
  qed
  have "split_blank (faqToText its) = map ?text its"
    unfolding faqToText_def using False solid by (intro split_blank_join) auto
  then have "parseFaqBlocks (faqToText its) = map block_pair
      (filter (\<lambda>block. 2 \<le> length block) (map (\<lambda>i. text_lines (?text i)) its))"
    by (simp add: parseFaqBlocks_def comp_def)
  also have "filter (\<lambda>block. 2 \<le> length block) (map (\<lambda>i. text_lines (?text i)) its) = map (\<lambda>i. text_lines (?text i)) its"
    using block by (auto simp: filter_id_conv)
  finally show ?thesis
    using block by (simp add: map_idI comp_def)
qed

lemma parseFaqBlocks_good: "list_all good_faq (parseFaqBlocks raw)"
proof -
  have "good_faq (block_pair (text_lines b))" if "2 \<le> length (text_lines b)" for b
  proof -
    have "list_all good_line (text_lines b)"
      using parseFeatureLines_good by (auto simp: list_all_iff text_lines_eq)
    then show ?thesis using that
      by (cases "text_lines b"; cases "tl (text_lines b)") (auto simp: good_faq_def block_pair_def intro!: exI [of _ "tl (text_lines b)"])
  qed
  then show ?thesis by (auto simp: parseFaqBlocks_def list_all_iff)
qed

section \<open>Saving what was loaded\<close>

definition saved :: "content_translation \<Rightarrow> translation" where
  "saved c = \<lparr> tr_title = Some (ct_title c), tr_description = Some (ct_description c), tr_highlight_text = ct_highlight_text c,
     tr_features = Some (ct_features c), tr_specs = Some (ct_specs c), tr_warranty_text = ct_warranty_text c,
     tr_delivery_note = ct_delivery_note c, tr_inspection_steps = ct_inspection_steps c, tr_faq = ct_faq c \<rparr>"

lemma text_of_none_if_empty [simp]:
  "text_of (none_if_empty s) = s" "list_of (none_if_empty xs) = xs" "text_of (Some s) = s" "list_of (Some xs) = xs"
  by (simp_all add: text_of_def list_of_def none_if_empty_def)

text \<open>
  Questions and answers edited as text.  Whatever text is typed, the pairs read from it
  each have a question of one line and an answer, and writing them as text and reading that again gives the
  same pairs: no blank line inside an answer can survive to split it.
\<close>

theorem faq_roundtrip:
  "parseFaqBlocks (faqToText (parseFaqBlocks raw)) = parseFaqBlocks raw \<and> list_all good_faq (parseFaqBlocks raw)"
  using faq_roundtrip_good [OF parseFaqBlocks_good] parseFaqBlocks_good by blast

text \<open>
  The product form keeps what it saves.  Whatever a seller types into the content
  form, opening the saved translation and saving it again writes the same translation: lists, specifications,
  steps and questions survive the way through their text fields, in both locales.
\<close>

theorem content_saved_once:
  "buyerContentToTranslation (translationToBuyerContent (saved (buyerContentToTranslation c))) = buyerContentToTranslation c \<and>
   buyerContentToTranslation (content_in l (hydrate_content
     (p \<lparr> px_vi := Some (saved (buyerContentToTranslation (bi_vi b))), px_en := Some (saved (buyerContentToTranslation (bi_en b))) \<rparr>))) =
   buyerContentToTranslation (content_in l b)"
proof -
  have once: "buyerContentToTranslation (translationToBuyerContent (saved (buyerContentToTranslation c))) = buyerContentToTranslation c"
    for c
  proof -
    let ?steps = "take INSPECTION_STEPS_MAX (parseFeatureLines (cn_inspectionText c))"
    let ?faq = "take PRODUCT_FAQ_MAX (parseFaqBlocks (cn_faqText c))"
    have good: "list_all good_line (parseFeatureLines t)" for t
      using parseFeatureLines_good by (auto simp: list_all_iff)
    then have steps: "parseFeatureLines (join [10] ?steps) = ?steps"
      by (intro parseFeatureLines_join) (auto simp: list_all_iff dest: in_set_takeD)
    have faq: "parseFaqBlocks (faqToText ?faq) = ?faq"
      using parseFaqBlocks_good [of "cn_faqText c"]
      by (intro faq_roundtrip_good) (auto simp: list_all_iff dest: in_set_takeD)
    show ?thesis
      using steps faq parseSpecLines_good [of "cn_specsText c"]
      by (simp add: buyerContentToTranslation_def Let_def saved_def translationToBuyerContent_def
          parseFeatureLines_join [OF good] parseSpecLines_join)
  qed
  then show ?thesis by (cases l) (simp_all add: hydrate_content_def hydrate_locale_def content_in_def)
qed

end
