(* ===== verification/Dynamic_Pricing.thy ===== *)
theory Dynamic_Pricing
  imports Pricing_Grid Product_Content
begin

text \<open>
  Prices of products without fixed packages (features/seller-workbench/logic.ts, lib/dproxy-plan.ts): the
  three work models of the seller workbench with the parameters they are saved as and read back from,
  the sale packages of a proxy plan, price previews and the checklists that let a product be sold.

  \<open>frac_text\<close> is \<open>String\<close> of a number that is no integer, \<open>up\<close> the upper case of a first letter and
  \<open>group_digits\<close> \<open>toLocaleString\<close>.  Numbers are exact, so multiplying a saved discount by 100 again gives it back;
  in binary floating point 0.07 * 100 does not.
\<close>

definition num_text :: "(rat \<Rightarrow> jstr) \<Rightarrow> rat \<Rightarrow> jstr" where
  "num_text frac_text r = (if of_int \<lfloor>r\<rfloor> = r then show_int \<lfloor>r\<rfloor> else frac_text r)"

section \<open>Proxy plans\<close>

definition DPROXY_TYPE_OPTIONS :: "(jstr \<times> jstr \<times> jstr) list" where
  "DPROXY_TYPE_OPTIONS =
    [(js ''residential'', js ''D'' @ [0xE2] @ js ''n c'' @ [0x1B0], js ''Residential''),
     (js ''datacenter'', js ''Datacenter'', js ''Datacenter''),
     (js ''isp'', js ''ISP'', js ''ISP''),
     (js ''mobile'', js ''Di '' @ [0x111, 0x1ED9] @ js ''ng'', js ''Mobile''),
     (js ''static'', js ''IP t'' @ [0x129] @ js ''nh'', js ''Static IP''),
     (js ''rotating'', js ''IP xoay'', js ''Rotating IP'')]"

definition DPROXY_NETWORK_PRESETS :: "(jstr \<times> jstr \<times> jstr) list" where
  "DPROXY_NETWORK_PRESETS =
    [(js ''VN'', js ''Vi'' @ [0x1EC7] @ js ''t Nam'', js ''Vietnam''),
     (js ''viettel'', js ''Viettel'', js ''Viettel''),
     (js ''vinaphone'', js ''Vinaphone'', js ''Vinaphone''),
     (js ''mobifone'', js ''Mobifone'', js ''Mobifone''),
     (js ''fpt'', js ''FPT'', js ''FPT''),
     (js ''US'', js ''Hoa K'' @ [0x1EF3], js ''United States''),
     (js ''GB'', js ''Anh'', js ''United Kingdom''),
     (js ''SG'', js ''Singapore'', js ''Singapore''),
     (js ''JP'', js ''Nh'' @ [0x1EAD] @ js ''t B'' @ [0x1EA3] @ js ''n'', js ''Japan''),
     (js ''KR'', js ''H'' @ [0xE0] @ js ''n Qu'' @ [0x1ED1] @ js ''c'', js ''South Korea''),
     (js ''TH'', js ''Th'' @ [0xE1] @ js ''i Lan'', js ''Thailand''),
     (js ''ID'', js ''Indonesia'', js ''Indonesia''),
     (js ''DE'', [0x110, 0x1EE9] @ js ''c'', js ''Germany''),
     (js ''AU'', [0xDA] @ js ''c'', js ''Australia'')]"

definition option_name :: "locale' \<Rightarrow> jstr \<times> jstr \<Rightarrow> jstr" where
  "option_name l names = (case l of Vi \<Rightarrow> fst names | En \<Rightarrow> snd names)"

definition dproxyTypeLabel :: "(code_unit \<Rightarrow> jstr) \<Rightarrow> jstr \<Rightarrow> locale' \<Rightarrow> jstr" where
  "dproxyTypeLabel up code l =
     (case map_of DPROXY_TYPE_OPTIONS code of None \<Rightarrow> humanize up code | Some names \<Rightarrow> option_name l names)"

definition upper_letter :: "code_unit \<Rightarrow> bool" where
  "upper_letter c \<longleftrightarrow> 65 \<le> c \<and> c \<le> 90"

definition dproxyNetworkLabel :: "(code_unit \<Rightarrow> jstr) \<Rightarrow> jstr \<Rightarrow> locale' \<Rightarrow> jstr" where
  "dproxyNetworkLabel up code l =
     (case map_of DPROXY_NETWORK_PRESETS code of
        None \<Rightarrow> if length code = 2 \<and> list_all upper_letter code then code else humanize up code
      | Some names \<Rightarrow> option_name l names)"

definition formatDproxyPlanKey :: "(rat \<Rightarrow> jstr) \<Rightarrow> jstr \<Rightarrow> jstr \<Rightarrow> rat \<Rightarrow> jstr" where
  "formatDproxyPlanKey frac_text type' network days =
     js_trim type' @ [124] @ js_trim network @ [124] @ num_text frac_text days"

text \<open>\<open>Number(x) || 0\<close>: a number that is not infinite, since a key's days never are.\<close>

definition number_or_zero :: "jsnum \<Rightarrow> rat" where
  "number_or_zero x = (case x of Fin r \<Rightarrow> r | _ \<Rightarrow> 0)"

definition part :: "jstr list \<Rightarrow> nat \<Rightarrow> jstr" where
  "part ps i = (if i < length ps then ps ! i else [])"

definition parseDproxyPlanKey :: "jstr \<Rightarrow> jstr \<times> jstr \<times> rat" where
  "parseDproxyPlanKey key =
     (let ps = split_on 124 key in (part ps 0, part ps 1, number_or_zero (js_number (part ps 2))))"

definition dproxySalePriceFromBase :: "rat \<Rightarrow> rat \<Rightarrow> int" where
  "dproxySalePriceFromBase basePrice days = (if basePrice = 0 \<or> days = 0 then 0 else js_round (basePrice * days / 30))"

definition dproxyBaseFromSalePrice :: "rat \<Rightarrow> rat \<Rightarrow> int" where
  "dproxyBaseFromSalePrice salePrice days = (if salePrice = 0 \<or> days = 0 then 0 else js_round (salePrice * 30 / days))"

definition json_days :: "json \<Rightarrow> rat" where
  "json_days item = (case map_of (json_record (Some item)) (js ''days'') of Some (JNum (Fin r)) \<Rightarrow> r | _ \<Rightarrow> 0)"

definition isSingleConfigPlan :: "params option \<Rightarrow> bool" where
  "isSingleConfigPlan params =
     (case params of
        None \<Rightarrow> False
      | Some p \<Rightarrow>
          let priced = json_record (map_of p (js ''plan_prices''))
          in if length priced = 1 then True
             else if 1 < length priced then False
             else length (json_record (map_of p (js ''type_mult''))) = 1 \<and>
                  length (json_record (map_of p (js ''network_mult''))) = 1 \<and>
                  length (json_array (map_of p (js ''duration_options''))) = 1)"

record sale_package =
  sp_type :: jstr
  sp_network :: jstr
  sp_days :: rat
  sp_price :: rat

text \<open>The values of which \<open>!x\<close> is true.\<close>

definition falsy :: "json \<Rightarrow> bool" where
  "falsy j \<longleftrightarrow> j \<in> {JNull, JBool False, JNum (Fin 0), JNum NaN, JStr []}"

definition priced_package :: "jstr \<times> json \<Rightarrow> sale_package list" where
  "priced_package e =
     (case parseDproxyPlanKey (fst e) of
        (t, n, d) \<Rightarrow>
          if t = [] \<or> n = [] \<or> d = 0 \<or> falsy (snd e) then []
          else [\<lparr> sp_type = t, sp_network = n, sp_days = d, sp_price = number_or_zero (json_number (Some (snd e))) \<rparr>])"

definition packagesFromDproxyParams :: "params option \<Rightarrow> sale_package list" where
  "packagesFromDproxyParams params =
     (case params of
        None \<Rightarrow> []
      | Some p \<Rightarrow>
          let priced = json_record (map_of p (js ''plan_prices''))
          in if priced \<noteq> [] then concat (map priced_package priced)
             else case (map fst (json_record (map_of p (js ''type_mult''))), map fst (json_record (map_of p (js ''network_mult''))),
                        filter (\<lambda>d. 0 < d) (map json_days (json_array (map_of p (js ''duration_options''))))) of
                    ([t], [n], [d]) \<Rightarrow>
                      [\<lparr> sp_type = t, sp_network = n, sp_days = d,
                         sp_price = of_int (dproxySalePriceFromBase (number_or_zero (json_number (map_of p (js ''base_price'')))) d) \<rparr>]
                  | _ \<Rightarrow> [])"

definition valid_package :: "sale_package \<Rightarrow> bool" where
  "valid_package s \<longleftrightarrow> js_trim (sp_type s) \<noteq> [] \<and> js_trim (sp_network s) \<noteq> [] \<and> 0 < sp_days s \<and> 0 < sp_price s"

text \<open>\<open>Object.fromEntries\<close>\<close>

definition from_entries :: "(jstr \<times> 'v) list \<Rightarrow> (jstr \<times> 'v) list" where
  "from_entries es = foldl (\<lambda>m (k, v). AList.update k v m) [] es"

definition package_key :: "(rat \<Rightarrow> jstr) \<Rightarrow> sale_package \<Rightarrow> jstr" where
  "package_key frac_text s = formatDproxyPlanKey frac_text (sp_type s) (sp_network s) (sp_days s)"

definition num :: "rat \<Rightarrow> json" where "num r = JNum (Fin r)"

definition NGAY :: jstr where "NGAY = js '' ng'' @ [0xE0] @ js ''y''"

definition dproxyParamsFromPackages :: "(rat \<Rightarrow> jstr) \<Rightarrow> (code_unit \<Rightarrow> jstr) \<Rightarrow> sale_package list \<Rightarrow> params" where
  "dproxyParamsFromPackages frac_text up packages =
     (let valid = filter valid_package packages;
          types = uniq (map sp_type valid); networks = uniq (map sp_network valid); days = uniq (map sp_days valid)
      in [(js ''base_price'', num (case valid of [] \<Rightarrow> 0 | s # _ \<Rightarrow> of_int (dproxyBaseFromSalePrice (sp_price s) (sp_days s)))),
          (js ''type_mult'', JObj (from_entries (map (\<lambda>t. (t, num 1)) types))),
          (js ''network_mult'', JObj (from_entries (map (\<lambda>n. (n, num 1)) networks))),
          (js ''duration_options'', JArr (map (\<lambda>d. JObj [(js ''days'', num d), (js ''label'', JStr (num_text frac_text d @ NGAY))]) days)),
          (js ''type_display'', JObj (from_entries (map (\<lambda>t. (t, JStr (dproxyTypeLabel up t Vi))) types))),
          (js ''network_display'', JObj (from_entries (map (\<lambda>n. (n, JStr (dproxyNetworkLabel up n Vi))) networks))),
          (js ''plan_prices'', JObj (from_entries (map (\<lambda>s. (package_key frac_text s, num (sp_price s))) valid)))])"

section \<open>Work models\<close>

datatype work_model = B1 | B2 | B3

record mult_item =
  mi_key :: jstr
  mi_label :: jstr
  mi_mult :: rat

record duration_item =
  du_days :: rat
  du_label :: jstr

record b1_config =
  b1_basePrice :: rat
  b1_types :: "mult_item list"
  b1_networks :: "mult_item list"
  b1_durations :: "duration_item list"
  b1_selectedType :: jstr
  b1_selectedNetwork :: jstr
  b1_selectedDays :: rat
  b1_qty :: rat
  b1_isSingleUnit :: bool

record credit_package =
  cp_size :: rat
  cp_label :: jstr
  cp_discountPct :: rat

record b2_credit =
  b2_creditPrice :: rat
  b2_packages :: "credit_package list"
  b2_selectedPackageSize :: rat

record b3_task =
  b3_basePrice :: rat
  b3_platforms :: "mult_item list"
  b3_selectedPlatform :: jstr
  b3_urls :: jstr

abbreviation mult_option :: "string \<Rightarrow> string \<Rightarrow> rat \<Rightarrow> mult_item" where
  "mult_option k l m \<equiv> \<lparr> mi_key = js k, mi_label = js l, mi_mult = m \<rparr>"

definition DEFAULT_B1 :: b1_config where
  "DEFAULT_B1 = \<lparr> b1_basePrice = 0,
     b1_types = [mult_option ''residential'' ''Residential'' (14 / 10), mult_option ''datacenter'' ''Datacenter'' 1],
     b1_networks = [mult_option ''fpt'' ''FPT Telecom'' 1, mult_option ''viettel'' ''Viettel'' (11 / 10)],
     b1_durations = [\<lparr> du_days = 7, du_label = js ''7 days'' \<rparr>, \<lparr> du_days = 30, du_label = js ''30 days'' \<rparr>],
     b1_selectedType = js ''residential'', b1_selectedNetwork = js ''fpt'', b1_selectedDays = 30, b1_qty = 1,
     b1_isSingleUnit = False \<rparr>"

definition DEFAULT_B2 :: b2_credit where
  "DEFAULT_B2 = \<lparr> b2_creditPrice = 0,
     b2_packages = [\<lparr> cp_size = 500, cp_label = js ''500 requests'', cp_discountPct = 0 \<rparr>,
       \<lparr> cp_size = 1000, cp_label = js ''1,000 requests'', cp_discountPct = 10 \<rparr>,
       \<lparr> cp_size = 5000, cp_label = js ''5,000 requests'', cp_discountPct = 20 \<rparr>],
     b2_selectedPackageSize = 1000 \<rparr>"

definition DEFAULT_B3 :: b3_task where
  "DEFAULT_B3 = \<lparr> b3_basePrice = 0,
     b3_platforms = [mult_option ''tiktok'' ''TikTok'' (12 / 10), mult_option ''facebook'' ''Facebook'' 1],
     b3_selectedPlatform = js ''tiktok'', b3_urls = [] \<rparr>"

section \<open>Reading the saved parameters\<close>

type_synonym label_map = "(jstr \<times> jstr) list"

record pricing_labels =
  pl_field :: label_map
  pl_type :: label_map
  pl_network :: label_map
  pl_platform :: label_map
  pl_duration :: label_map
  pl_package :: label_map

definition finiteNumber :: "json option \<Rightarrow> rat \<Rightarrow> rat" where
  "finiteNumber v fallback = (case v of Some (JNum (Fin r)) \<Rightarrow> r | _ \<Rightarrow> fallback)"

fun numeric_entry :: "jstr \<times> json \<Rightarrow> (jstr \<times> rat) list" where
  "numeric_entry (k, JNum (Fin r)) = [(k, r)]"
| "numeric_entry _ = []"

definition numericEntries :: "json option \<Rightarrow> (jstr \<times> rat) list" where
  "numericEntries v = concat (map numeric_entry (json_record v))"

definition label_or :: "label_map \<Rightarrow> jstr \<Rightarrow> jstr \<Rightarrow> jstr" where
  "label_or m k d = (case map_of m k of None \<Rightarrow> d | Some l \<Rightarrow> l)"

definition mult_items :: "label_map \<Rightarrow> mult_item list \<Rightarrow> json option \<Rightarrow> mult_item list" where
  "mult_items labels defaults v =
     (let es = numericEntries v
      in if es = [] then defaults
         else map (\<lambda>(k, m). \<lparr> mi_key = k, mi_label = label_or labels k k, mi_mult = m \<rparr>) es)"

definition text_or :: "json option \<Rightarrow> jstr \<Rightarrow> jstr" where
  "text_or v d = (case v of Some (JStr s) \<Rightarrow> s | _ \<Rightarrow> d)"

definition duration_option :: "(rat \<Rightarrow> jstr) \<Rightarrow> label_map \<Rightarrow> json \<Rightarrow> duration_item list" where
  "duration_option frac_text labels item =
     (let option' = json_record (Some item); days = finiteNumber (map_of option' (js ''days'')) (-1)
      in if days \<le> 0 then []
         else [\<lparr> du_days = days,
                 du_label = label_or labels (num_text frac_text days)
                   (text_or (map_of option' (js ''label'')) (num_text frac_text days @ js '' days'')) \<rparr>])"

definition hydrate_b1 :: "(rat \<Rightarrow> jstr) \<Rightarrow> pricing_labels \<Rightarrow> params \<Rightarrow> b1_config" where
  "hydrate_b1 frac_text labels p =
     (let durations = concat (map (duration_option frac_text (pl_duration labels)) (json_array (map_of p (js ''duration_options''))));
          types = mult_items (pl_type labels) (b1_types DEFAULT_B1) (map_of p (js ''type_mult''));
          networks = mult_items (pl_network labels) (b1_networks DEFAULT_B1) (map_of p (js ''network_mult''));
          ds = (if durations = [] then b1_durations DEFAULT_B1 else durations)
      in DEFAULT_B1 \<lparr> b1_basePrice := finiteNumber (map_of p (js ''base_price'')) 0,
           b1_types := types, b1_networks := networks, b1_durations := ds,
           b1_selectedType := (case types of [] \<Rightarrow> [] | t # _ \<Rightarrow> mi_key t),
           b1_selectedNetwork := (case networks of [] \<Rightarrow> [] | n # _ \<Rightarrow> mi_key n),
           b1_selectedDays := (case ds of [] \<Rightarrow> 30 | d # _ \<Rightarrow> du_days d),
           b1_isSingleUnit := (length types = 1 \<and> length networks = 1 \<and> length ds = 1) \<rparr>)"

definition tier_entry :: "(rat \<times> rat) list \<Rightarrow> json \<Rightarrow> (rat \<times> rat) list" where
  "tier_entry m item =
     (let tier = json_record (Some item); size' = finiteNumber (map_of tier (js ''min_qty'')) (-1)
      in if 0 < size' then AList.update size' (finiteNumber (map_of tier (js ''discount'')) 0 * 100) m else m)"

definition package_option :: "(rat \<Rightarrow> jstr) \<Rightarrow> label_map \<Rightarrow> (rat \<times> rat) list \<Rightarrow> json \<Rightarrow> credit_package list" where
  "package_option frac_text labels discounts item =
     (let pkg = json_record (Some item); size' = finiteNumber (map_of pkg (js ''size'')) (-1)
      in if size' \<le> 0 then []
         else [\<lparr> cp_size = size',
                 cp_label = label_or labels (num_text frac_text size')
                   (text_or (map_of pkg (js ''label'')) (num_text frac_text size' @ js '' requests'')),
                 cp_discountPct = (case map_of discounts size' of None \<Rightarrow> 0 | Some d \<Rightarrow> d) \<rparr>])"

definition hydrate_b2 :: "(rat \<Rightarrow> jstr) \<Rightarrow> pricing_labels \<Rightarrow> params \<Rightarrow> b2_credit" where
  "hydrate_b2 frac_text labels p =
     (let discounts = foldl tier_entry [] (json_array (map_of p (js ''volume_tiers'')));
          packages = concat (map (package_option frac_text (pl_package labels) discounts) (json_array (map_of p (js ''packages''))))
      in \<lparr> b2_creditPrice = finiteNumber (map_of p (js ''credit_price'')) 0,
           b2_packages = (if packages = [] then b2_packages DEFAULT_B2 else packages),
           b2_selectedPackageSize = (case packages of [] \<Rightarrow> b2_selectedPackageSize DEFAULT_B2 | k # _ \<Rightarrow> cp_size k) \<rparr>)"

definition hydrate_b3 :: "pricing_labels \<Rightarrow> params \<Rightarrow> b3_task" where
  "hydrate_b3 labels p =
     (let platforms = mult_items (pl_platform labels) (b3_platforms DEFAULT_B3) (map_of p (js ''platform_mult''))
      in DEFAULT_B3 \<lparr> b3_basePrice := finiteNumber (map_of p (js ''base_price'')) 0, b3_platforms := platforms,
           b3_selectedPlatform := (case platforms of [] \<Rightarrow> [] | t # _ \<Rightarrow> mi_key t) \<rparr>)"

definition hydrate_model :: "jstr \<Rightarrow> work_model" where
  "hydrate_model strategy = (if strategy = js ''credit'' then B2 else if strategy = js ''task'' then B3 else B1)"

section \<open>Writing them\<close>

definition keyedNumbers :: "mult_item list \<Rightarrow> json" where
  "keyedNumbers its = JObj (from_entries (map (\<lambda>i. (mi_key i, num (mi_mult i))) its))"

definition keyed_labels :: "mult_item list \<Rightarrow> json" where
  "keyed_labels its = JObj (from_entries (map (\<lambda>i. (mi_key i, JStr (mi_label i))) its))"

definition find_label :: "mult_item list \<Rightarrow> jstr \<Rightarrow> jstr" where
  "find_label its k = (case List.find (\<lambda>i. mi_key i = k) its of None \<Rightarrow> k | Some i \<Rightarrow> mi_label i)"

record single_patch =
  pa_type :: "jstr option"
  pa_network :: "jstr option"
  pa_days :: "rat option"
  pa_salePrice :: "rat option"

definition given :: "'a option \<Rightarrow> 'a \<Rightarrow> 'a" where
  "given x d = (case x of None \<Rightarrow> d | Some v \<Rightarrow> v)"

definition applyDproxySinglePlan :: "(rat \<Rightarrow> jstr) \<Rightarrow> b1_config \<Rightarrow> single_patch \<Rightarrow> b1_config" where
  "applyDproxySinglePlan frac_text current patch =
     (let type' = given (pa_type patch) (b1_selectedType current);
          network = given (pa_network patch) (b1_selectedNetwork current);
          days = given (pa_days patch) (b1_selectedDays current);
          currentSale = (case b1_durations current of [] \<Rightarrow> b1_basePrice current
                           | d # _ \<Rightarrow> of_int (js_round (b1_basePrice current * du_days d / 30)));
          salePrice = given (pa_salePrice patch) currentSale
      in \<lparr> b1_basePrice = (if 0 < days then of_int (js_round (salePrice * 30 / days)) else 0),
           b1_types = [\<lparr> mi_key = type', mi_label = find_label (b1_types current) type', mi_mult = 1 \<rparr>],
           b1_networks = [\<lparr> mi_key = network, mi_label = find_label (b1_networks current) network, mi_mult = 1 \<rparr>],
           b1_durations = [\<lparr> du_days = days, du_label = num_text frac_text days @ js '' days'' \<rparr>],
           b1_selectedType = type', b1_selectedNetwork = network, b1_selectedDays = days, b1_qty = 1,
           b1_isSingleUnit = True \<rparr>)"

definition chosen_days :: "b1_config \<Rightarrow> rat" where
  "chosen_days b =
     (if b1_selectedDays b \<noteq> 0 then b1_selectedDays b
      else case b1_durations b of d # _ \<Rightarrow> if du_days d \<noteq> 0 then du_days d else 30 | [] \<Rightarrow> 30)"

definition dproxySalePrice :: "b1_config \<Rightarrow> int" where
  "dproxySalePrice b = (if 0 < chosen_days b then js_round (b1_basePrice b * chosen_days b / 30) else 0)"

definition plan_params :: "(rat \<Rightarrow> jstr) \<Rightarrow> (code_unit \<Rightarrow> jstr) \<Rightarrow> work_model \<Rightarrow> b1_config \<Rightarrow> b2_credit \<Rightarrow> b3_task \<Rightarrow> bool \<Rightarrow> params" where
  "plan_params frac_text up model b1 b2 b3 dproxy =
     (case model of
        B1 \<Rightarrow>
          if dproxy
          then AList.update (js ''network_display'') (keyed_labels (b1_networks b1))
                (AList.update (js ''type_display'') (keyed_labels (b1_types b1))
                  (dproxyParamsFromPackages frac_text up [\<lparr> sp_type = b1_selectedType b1, sp_network = b1_selectedNetwork b1,
                     sp_days = b1_selectedDays b1, sp_price = of_int (dproxySalePrice b1) \<rparr>]))
          else [(js ''base_price'', num (b1_basePrice b1)), (js ''type_mult'', keyedNumbers (b1_types b1)),
                (js ''network_mult'', keyedNumbers (b1_networks b1)),
                (js ''duration_options'', JArr (map (\<lambda>d. JObj [(js ''days'', num (du_days d)), (js ''label'', JStr (du_label d))]) (b1_durations b1))),
                (js ''type_display'', keyed_labels (b1_types b1)), (js ''network_display'', keyed_labels (b1_networks b1))]
      | B2 \<Rightarrow>
          [(js ''credit_price'', num (b2_creditPrice b2)),
           (js ''packages'', JArr (map (\<lambda>k. JObj [(js ''size'', num (cp_size k)), (js ''label'', JStr (cp_label k))]) (b2_packages b2))),
           (js ''volume_tiers'', JArr (map (\<lambda>k. JObj [(js ''min_qty'', num (cp_size k)), (js ''discount'', num (cp_discountPct k / 100))])
              (filter (\<lambda>k. 0 < cp_discountPct k) (b2_packages b2))))]
      | B3 \<Rightarrow> [(js ''base_price'', num (b3_basePrice b3)), (js ''platform_mult'', keyedNumbers (b3_platforms b3))])"

definition buildDynamicPricingPlan ::
    "(rat \<Rightarrow> jstr) \<Rightarrow> (code_unit \<Rightarrow> jstr) \<Rightarrow> work_model \<Rightarrow> b1_config \<Rightarrow> b2_credit \<Rightarrow> b3_task \<Rightarrow> bool \<Rightarrow> jstr \<times> params" where
  "buildDynamicPricingPlan frac_text up model b1 b2 b3 dproxy =
     (js (case model of B1 \<Rightarrow> ''config'' | B2 \<Rightarrow> ''credit'' | B3 \<Rightarrow> ''task''), plan_params frac_text up model b1 b2 b3 dproxy)"

definition in_locale :: "locale' \<Rightarrow> jstr \<Rightarrow> jstr \<Rightarrow> jstr" where
  "in_locale l vi en = (case l of Vi \<Rightarrow> vi | En \<Rightarrow> en)"

definition type_defaults :: "locale' \<Rightarrow> label_map" where
  "type_defaults l =
     [(js ''residential'', in_locale l (js ''D'' @ [0xE2] @ js ''n c'' @ [0x1B0] @ js '' s'' @ [0x1EA1] @ js ''ch'') (js ''Residential'')),
      (js ''datacenter'', in_locale l (js ''Trung t'' @ [0xE2] @ js ''m d'' @ [0x1EEF] @ js '' li'' @ [0x1EC7] @ js ''u'') (js ''Datacenter''))]"

definition NO_LABELS :: pricing_labels where
  "NO_LABELS = \<lparr> pl_field = [], pl_type = [], pl_network = [], pl_platform = [], pl_duration = [], pl_package = [] \<rparr>"

definition item_labels :: "mult_item list \<Rightarrow> label_map" where
  "item_labels its = from_entries (map (\<lambda>i. (mi_key i, mi_label i)) its)"

definition buildDynamicPricingLabels ::
    "(rat \<Rightarrow> jstr) \<Rightarrow> (locale' \<Rightarrow> rat \<Rightarrow> jstr) \<Rightarrow> work_model \<Rightarrow> locale' \<Rightarrow> b1_config \<Rightarrow> b2_credit \<Rightarrow> b3_task \<Rightarrow> pricing_labels" where
  "buildDynamicPricingLabels frac_text group_digits model l b1 b2 b3 =
     (case model of
        B1 \<Rightarrow> NO_LABELS \<lparr>
          pl_field := [(js ''type'', in_locale l (js ''Lo'' @ [0x1EA1] @ js ''i proxy'') (js ''Proxy type'')),
                       (js ''network'', in_locale l (js ''Nh'' @ [0xE0] @ js '' m'' @ [0x1EA1] @ js ''ng'') (js ''Network'')),
                       (js ''days'', in_locale l (js ''Th'' @ [0x1EDD] @ js ''i h'' @ [0x1EA1] @ js ''n'') (js ''Duration'')),
                       (js ''quantity'', in_locale l (js ''S'' @ [0x1ED1] @ js '' l'' @ [0x1B0, 0x1EE3] @ js ''ng'') (js ''Quantity''))],
          pl_type := from_entries (map (\<lambda>i. (mi_key i, label_or (type_defaults l) (mi_key i) (mi_label i))) (b1_types b1)),
          pl_network := item_labels (b1_networks b1),
          pl_duration := from_entries (map (\<lambda>d. (num_text frac_text (du_days d),
                           num_text frac_text (du_days d) @ in_locale l NGAY (js '' days''))) (b1_durations b1)) \<rparr>
      | B2 \<Rightarrow> NO_LABELS \<lparr>
          pl_field := [(js ''package_size'', in_locale l (js ''S'' @ [0x1ED1] @ js '' l'' @ [0x1B0, 0x1EE3] @ js ''t trong g'' @ [0xF3] @ js ''i'') (js ''Requests per package''))],
          pl_package := from_entries (map (\<lambda>k. (num_text frac_text (cp_size k),
                          in_locale l (js ''G'' @ [0xF3] @ js ''i '' @ group_digits Vi (cp_size k) @ js '' l'' @ [0x1B0, 0x1EE3] @ js ''t'') (group_digits En (cp_size k) @ js '' requests'')))
                          (b2_packages b2)) \<rparr>
      | B3 \<Rightarrow> NO_LABELS \<lparr>
          pl_field := [(js ''platform'', in_locale l (js ''N'' @ [0x1EC1] @ js ''n t'' @ [0x1EA3] @ js ''ng'') (js ''Platform'')),
                       (js ''target_urls'', in_locale l (js ''Danh s'' @ [0xE1] @ js ''ch URL'') (js ''URL list''))],
          pl_platform := item_labels (b3_platforms b3) \<rparr>)"

section \<open>What lets a product be sold\<close>

text \<open>A package as the workbench shows it: an omitted field is \<^const>\<open>None\<close>, and
  null for a limit is a second one.\<close>

record workbench_variant =
  wv_id :: "int option"
  wv_name :: jstr
  wv_price :: int
  wv_instant :: bool
  wv_stock_count :: int
  wv_sla_hours :: "int option"
  wv_is_active :: "bool option"
  wv_min_per_order :: "int option"
  wv_max_per_order :: "int option option"
  wv_manual_stock :: "int option option"

datatype check_key = CheckInfo | CheckTranslations | CheckVariant | CheckStockSla | CheckEscrow | CheckPricing | CheckBackend

record evaluation =
  ev_checks :: "(check_key \<times> bool) list"
  ev_isSellable :: bool
  ev_passCount :: nat
  ev_totalCount :: nat

definition evaluate :: "(check_key \<times> bool) list \<Rightarrow> evaluation" where
  "evaluate checks =
     (let passCount = length (filter snd checks)
      in \<lparr> ev_checks = checks, ev_isSellable = (passCount = length checks), ev_passCount = passCount, ev_totalCount = length checks \<rparr>)"

definition language_check :: "bool option \<Rightarrow> (check_key \<times> bool) list" where
  "language_check done' = (case done' of None \<Rightarrow> [] | Some b \<Rightarrow> [(CheckTranslations, b)])"

definition variant_stocked :: "workbench_variant \<Rightarrow> bool" where
  "variant_stocked v \<longleftrightarrow> (if wv_instant v then 0 < wv_stock_count v else 0 < given (wv_sla_hours v) 0)"

definition evaluateRouteAChecklist :: "jstr \<Rightarrow> jstr \<Rightarrow> workbench_variant list \<Rightarrow> int \<Rightarrow> bool option \<Rightarrow> evaluation" where
  "evaluateRouteAChecklist title description variants escrowHours contentLanguageComplete =
     (let activeVariants = filter (\<lambda>v. wv_is_active v \<noteq> Some False) variants
      in evaluate ([(CheckInfo, js_trim title \<noteq> [] \<and> js_trim description \<noteq> [])] @ language_check contentLanguageComplete @
           [(CheckVariant, activeVariants \<noteq> [] \<and> list_ex (\<lambda>v. 0 < wv_price v) activeVariants),
            (CheckStockSla, list_ex variant_stocked activeVariants), (CheckEscrow, 0 < escrowHours)]))"

datatype backend_status = NoBackend | BackendPending | BackendApproved | BackendMismatch | BackendDemo

definition evaluateRouteBChecklist ::
    "jstr \<Rightarrow> jstr \<Rightarrow> work_model option \<Rightarrow> bool \<Rightarrow> backend_status \<Rightarrow> int \<Rightarrow> bool option \<Rightarrow> evaluation" where
  "evaluateRouteBChecklist title description workModel priceValid backend escrowHours contentLanguageComplete =
     evaluate ([(CheckInfo, js_trim title \<noteq> [] \<and> js_trim description \<noteq> [])] @ language_check contentLanguageComplete @
       [(CheckPricing, workModel \<noteq> None \<and> priceValid), (CheckBackend, backend = BackendApproved), (CheckEscrow, 0 < escrowHours)])"

section \<open>Price previews\<close>

definition chosen_mult :: "mult_item list \<Rightarrow> jstr \<Rightarrow> rat" where
  "chosen_mult its key =
     (case List.find (\<lambda>t. mi_key t = key) its of
        Some t \<Rightarrow> mi_mult t | None \<Rightarrow> (case its of [] \<Rightarrow> 1 | t # _ \<Rightarrow> mi_mult t))"

definition calculateB1Price :: "b1_config \<Rightarrow> int \<times> bool" where
  "calculateB1Price b =
     (let durationFactor = (if b1_selectedDays b = 0 then 30 else b1_selectedDays b) / 30;
          effectiveQty = (if b1_isSingleUnit b then 1 else max 1 (if b1_qty b = 0 then 1 else b1_qty b));
          total' = b1_basePrice b * chosen_mult (b1_types b) (b1_selectedType b) *
                   chosen_mult (b1_networks b) (b1_selectedNetwork b) * durationFactor * effectiveQty
      in (js_round total', 0 < total'))"

record credit_price =
  kp_rawTotal :: int
  kp_finalTotal :: int
  kp_valid :: bool
  kp_discountPct :: rat

definition calculateB2Price :: "b2_credit \<Rightarrow> credit_price" where
  "calculateB2Price b =
     (let pkg = (case List.find (\<lambda>p. cp_size p = b2_selectedPackageSize b) (b2_packages b) of
                   Some p \<Rightarrow> p
                 | None \<Rightarrow> (case b2_packages b of p # _ \<Rightarrow> p | [] \<Rightarrow> \<lparr> cp_size = 1000, cp_label = [], cp_discountPct = 0 \<rparr>));
          rawTotal = cp_size pkg * b2_creditPrice b;
          finalTotal = rawTotal - rawTotal * cp_discountPct pkg / 100
      in \<lparr> kp_rawTotal = js_round rawTotal, kp_finalTotal = js_round finalTotal, kp_valid = (0 < finalTotal),
           kp_discountPct = cp_discountPct pkg \<rparr>)"

record task_price =
  tp_total :: int
  tp_valid :: bool
  tp_urlCount :: nat
  tp_perUrlPrice :: int

definition calculateB3Price :: "b3_task \<Rightarrow> task_price" where
  "calculateB3Price b =
     (let urlCount = length (filter (\<lambda>u. js_trim u \<noteq> []) (split_on 10 (js_trim (b3_urls b))));
          perUrlPrice = js_round (b3_basePrice b * chosen_mult (b3_platforms b) (b3_selectedPlatform b));
          total' = perUrlPrice * int urlCount
      in \<lparr> tp_total = total', tp_valid = (0 < total'), tp_urlCount = urlCount, tp_perUrlPrice = perUrlPrice \<rparr>)"

section \<open>Parameters read back\<close>

lemma from_entries_distinct: "distinct (map fst es) \<Longrightarrow> from_entries es = es"
proof -
  have "distinct (map fst (acc @ es)) \<Longrightarrow> foldl (\<lambda>m (k, v). AList.update k v m) acc es = acc @ es" for acc
  proof (induction es arbitrary: acc)
    case (Cons e es)
    then have "AList.update (fst e) (snd e) acc = acc @ [e]" by (auto simp: update_fresh)
    then show ?case using Cons.IH [of "acc @ [e]"] Cons.prems by (cases e) simp
  qed simp
  from this [of "[]"] show "distinct (map fst es) \<Longrightarrow> from_entries es = es" by (simp add: from_entries_def)
qed

lemma num_simps [simp]: "finiteNumber (Some (num r)) d = r" "numeric_entry (k, num r) = [(k, r)]"
  by (simp_all add: finiteNumber_def num_def)

lemma numericEntries_keyed:
  assumes "distinct (map mi_key its)"
  shows "numericEntries (Some (keyedNumbers its)) = map (\<lambda>i. (mi_key i, mi_mult i)) its"
proof -
  have "from_entries (map (\<lambda>i. (mi_key i, num (mi_mult i))) its) = map (\<lambda>i. (mi_key i, num (mi_mult i))) its"
    using assms by (intro from_entries_distinct) (simp add: comp_def)
  moreover have "concat (map (\<lambda>i. numeric_entry (mi_key i, num (mi_mult i))) its) = map (\<lambda>i. (mi_key i, mi_mult i)) its"
    by (induction its) simp_all
  ultimately show ?thesis by (simp add: numericEntries_def keyedNumbers_def comp_def)
qed

text \<open>Labels that say the same as the items.\<close>

definition labels_match :: "label_map \<Rightarrow> (jstr \<times> jstr) list \<Rightarrow> bool" where
  "labels_match labels kvs \<longleftrightarrow> list_all (\<lambda>(k, l). map_of labels k = Some l) kvs"

lemma mult_items_keyed:
  assumes "distinct (map mi_key its)" "its \<noteq> []" "labels_match labels (map (\<lambda>i. (mi_key i, mi_label i)) its)"
  shows "mult_items labels d (Some (keyedNumbers its)) = its"
  using assms
  by (auto simp: mult_items_def numericEntries_keyed labels_match_def list_all_iff label_or_def intro!: map_idI)

lemma tiers_read_back:
  assumes "distinct (map cp_size ps)" "list_all (\<lambda>k. 0 < cp_size k \<and> 0 \<le> cp_discountPct k) ps" "k \<in> set ps"
  shows "(case map_of (foldl tier_entry [] (map (\<lambda>k. JObj [(js ''min_qty'', num (cp_size k)), (js ''discount'', num (cp_discountPct k / 100))])
            (filter (\<lambda>k. 0 < cp_discountPct k) ps))) (cp_size k) of None \<Rightarrow> 0 | Some d \<Rightarrow> d) = cp_discountPct k"
proof -
  let ?js = "\<lambda>k. JObj [(js ''min_qty'', num (cp_size k)), (js ''discount'', num (cp_discountPct k / 100))]"
  have entry: "tier_entry m (?js k) = AList.update (cp_size k) (cp_discountPct k) m" if "0 < cp_size k" for m k
    using that by (simp add: tier_entry_def js_eq_iff del: js_Cons)
  have gen: "foldl tier_entry acc (map ?js qs) = acc @ map (\<lambda>k. (cp_size k, cp_discountPct k)) qs"
    if "list_all (\<lambda>k. 0 < cp_size k) qs" "distinct (map fst acc @ map cp_size qs)" for acc qs
    using that
  proof (induction qs arbitrary: acc)
    case (Cons q qs)
    then have "tier_entry acc (?js q) = acc @ [(cp_size q, cp_discountPct q)]"
      by (auto simp: entry update_fresh simp del: js_Cons)
    then show ?case using Cons by (simp del: js_Cons)
  qed simp
  let ?qs = "filter (\<lambda>k. 0 < cp_discountPct k) ps"
  have "list_all (\<lambda>k. 0 < cp_size k) ?qs" "distinct (map cp_size ?qs)"
    using assms(1,2) by (auto simp: list_all_iff distinct_map_filter)
  then have m: "foldl tier_entry [] (map ?js ?qs) = map (\<lambda>k. (cp_size k, cp_discountPct k)) ?qs"
    using gen [of ?qs "[]"] by (simp del: js_Cons)
  show ?thesis
  proof (cases "0 < cp_discountPct k")
    case True
    then have "map_of (map (\<lambda>k. (cp_size k, cp_discountPct k)) ?qs) (cp_size k) = Some (cp_discountPct k)"
      using assms(3) \<open>distinct (map cp_size ?qs)\<close> by (intro map_of_is_SomeI) (auto simp: comp_def)
    then show ?thesis unfolding m by simp
  next
    case False
    then have z: "cp_discountPct k = 0" using assms(2,3) by (auto simp: list_all_iff)
    have "cp_size k \<notin> cp_size ` set ?qs" using assms(1,3) False by (auto simp: distinct_map inj_on_def)
    then have "map_of (map (\<lambda>k. (cp_size k, cp_discountPct k)) ?qs) (cp_size k) = None"
      by (auto simp: map_of_eq_None_iff)
    then show ?thesis unfolding m by (simp add: z)
  qed
qed

definition b1_ok :: "(rat \<Rightarrow> jstr) \<Rightarrow> pricing_labels \<Rightarrow> b1_config \<Rightarrow> bool" where
  "b1_ok frac_text labels b \<longleftrightarrow>
     b1_types b \<noteq> [] \<and> distinct (map mi_key (b1_types b)) \<and> b1_networks b \<noteq> [] \<and> distinct (map mi_key (b1_networks b)) \<and>
     b1_durations b \<noteq> [] \<and> list_all (\<lambda>d. 0 < du_days d) (b1_durations b) \<and>
     labels_match (pl_type labels) (map (\<lambda>i. (mi_key i, mi_label i)) (b1_types b)) \<and>
     labels_match (pl_network labels) (map (\<lambda>i. (mi_key i, mi_label i)) (b1_networks b)) \<and>
     list_all (\<lambda>d. map_of (pl_duration labels) (num_text frac_text (du_days d)) \<in> {None, Some (du_label d)}) (b1_durations b)"

definition b2_ok :: "(rat \<Rightarrow> jstr) \<Rightarrow> pricing_labels \<Rightarrow> b2_credit \<Rightarrow> bool" where
  "b2_ok frac_text labels b \<longleftrightarrow>
     b2_packages b \<noteq> [] \<and> distinct (map cp_size (b2_packages b)) \<and>
     list_all (\<lambda>k. 0 < cp_size k \<and> 0 \<le> cp_discountPct k) (b2_packages b) \<and>
     list_all (\<lambda>k. map_of (pl_package labels) (num_text frac_text (cp_size k)) \<in> {None, Some (cp_label k)}) (b2_packages b)"

definition b3_ok :: "pricing_labels \<Rightarrow> b3_task \<Rightarrow> bool" where
  "b3_ok labels b \<longleftrightarrow> b3_platforms b \<noteq> [] \<and> distinct (map mi_key (b3_platforms b)) \<and>
     labels_match (pl_platform labels) (map (\<lambda>i. (mi_key i, mi_label i)) (b3_platforms b))"

lemma concat_singletons: "(\<And>x. x \<in> set xs \<Longrightarrow> f x = [g x]) \<Longrightarrow> concat (map f xs) = map g xs"
  by (induction xs) auto

lemma hydrate_b1_plan:
  assumes "b1_ok frac_text labels b"
  shows "hydrate_b1 frac_text labels (plan_params frac_text up B1 b b2 b3 False) =
    b \<lparr> b1_selectedType := mi_key (hd (b1_types b)), b1_selectedNetwork := mi_key (hd (b1_networks b)),
      b1_selectedDays := du_days (hd (b1_durations b)), b1_qty := 1,
      b1_isSingleUnit := (length (b1_types b) = 1 \<and> length (b1_networks b) = 1 \<and> length (b1_durations b) = 1) \<rparr>"
proof -
  let ?p = "plan_params frac_text up B1 b b2 b3 False"
  let ?opt = "\<lambda>d. JObj [(js ''days'', num (du_days d)), (js ''label'', JStr (du_label d))]"
  have get: "map_of ?p (js ''base_price'') = Some (num (b1_basePrice b))"
    "map_of ?p (js ''type_mult'') = Some (keyedNumbers (b1_types b))"
    "map_of ?p (js ''network_mult'') = Some (keyedNumbers (b1_networks b))"
    "map_of ?p (js ''duration_options'') = Some (JArr (map ?opt (b1_durations b)))"
    by (simp_all add: plan_params_def js_eq_iff del: js_Cons)
  have opt: "duration_option frac_text (pl_duration labels) (?opt d) = [d]" if "d \<in> set (b1_durations b)" for d
    using that assms by (auto simp: duration_option_def Let_def js_eq_iff b1_ok_def list_all_iff label_or_def text_or_def simp del: js_Cons)
  have durations: "concat (map (duration_option frac_text (pl_duration labels)) (map ?opt (b1_durations b))) = b1_durations b"
    using concat_singletons [of "b1_durations b" "\<lambda>d. duration_option frac_text (pl_duration labels) (?opt d)" "\<lambda>d. d"] opt
    by (simp add: comp_def del: js_Cons)
  have items: "mult_items (pl_type labels) d (Some (keyedNumbers (b1_types b))) = b1_types b"
    "mult_items (pl_network labels) d (Some (keyedNumbers (b1_networks b))) = b1_networks b" for d
    using assms by (simp_all add: b1_ok_def mult_items_keyed)
  obtain t ts n ns d ds where ne: "b1_types b = t # ts" "b1_networks b = n # ns" "b1_durations b = d # ds"
    using assms unfolding b1_ok_def by (metis list.exhaust)
  have not_nil: "b1_types b \<noteq> []" "b1_networks b \<noteq> []" "b1_durations b \<noteq> []" using ne by simp_all
  show ?thesis
    unfolding hydrate_b1_def Let_def get option.case json_array.simps durations items if_not_P [OF not_nil(3)]
    by (rule b1_config.equality) (simp_all add: ne DEFAULT_B1_def)
qed

lemma hydrate_b2_plan:
  assumes "b2_ok frac_text labels b"
  shows "hydrate_b2 frac_text labels (plan_params frac_text up B2 b1 b b3 dproxy) =
    b \<lparr> b2_selectedPackageSize := cp_size (hd (b2_packages b)) \<rparr>"
proof -
  let ?p = "plan_params frac_text up B2 b1 b b3 dproxy"
  let ?opt = "\<lambda>k. JObj [(js ''size'', num (cp_size k)), (js ''label'', JStr (cp_label k))]"
  let ?tiers = "map (\<lambda>k. JObj [(js ''min_qty'', num (cp_size k)), (js ''discount'', num (cp_discountPct k / 100))])
    (filter (\<lambda>k. 0 < cp_discountPct k) (b2_packages b))"
  have get: "map_of ?p (js ''credit_price'') = Some (num (b2_creditPrice b))"
    "map_of ?p (js ''packages'') = Some (JArr (map ?opt (b2_packages b)))"
    "map_of ?p (js ''volume_tiers'') = Some (JArr ?tiers)"
    by (simp_all add: plan_params_def js_eq_iff del: js_Cons)
  have opt: "package_option frac_text (pl_package labels) (foldl tier_entry [] ?tiers) (?opt k) = [k]" if "k \<in> set (b2_packages b)" for k
  proof -
    have "0 < cp_size k" "label_or (pl_package labels) (num_text frac_text (cp_size k)) (cp_label k) = cp_label k"
      using that assms by (auto simp: b2_ok_def list_all_iff label_or_def)
    moreover have "(case map_of (foldl tier_entry [] ?tiers) (cp_size k) of None \<Rightarrow> 0 | Some d \<Rightarrow> d) = cp_discountPct k"
      using that assms by (intro tiers_read_back) (simp_all add: b2_ok_def)
    ultimately show ?thesis
      by (simp add: package_option_def Let_def js_eq_iff text_or_def del: js_Cons)
  qed
  have "concat (map (package_option frac_text (pl_package labels) (foldl tier_entry [] ?tiers)) (map ?opt (b2_packages b))) = b2_packages b"
    using concat_singletons [of "b2_packages b" "\<lambda>k. package_option frac_text (pl_package labels) (foldl tier_entry [] ?tiers) (?opt k)" "\<lambda>k. k"] opt
    by (simp add: comp_def del: js_Cons)
  then show ?thesis
    using assms unfolding hydrate_b2_def Let_def get
    by (cases "b2_packages b") (auto simp: b2_ok_def intro!: b2_credit.equality simp del: js_Cons)
qed

lemma hydrate_b3_plan:
  assumes "b3_ok labels b"
  shows "hydrate_b3 labels (plan_params frac_text up B3 b1 b2 b dproxy) =
    b \<lparr> b3_selectedPlatform := mi_key (hd (b3_platforms b)), b3_urls := [] \<rparr>"
proof -
  let ?p = "plan_params frac_text up B3 b1 b2 b dproxy"
  have get: "map_of ?p (js ''base_price'') = Some (num (b3_basePrice b))"
    "map_of ?p (js ''platform_mult'') = Some (keyedNumbers (b3_platforms b))"
    by (simp_all add: plan_params_def js_eq_iff del: js_Cons)
  have "mult_items (pl_platform labels) d (Some (keyedNumbers (b3_platforms b))) = b3_platforms b" for d
    using assms by (auto simp: b3_ok_def intro!: mult_items_keyed)
  then show ?thesis
    using assms unfolding hydrate_b3_def Let_def get
    by (cases "b3_platforms b") (auto simp: b3_ok_def DEFAULT_B3_def intro!: b3_task.equality simp del: js_Cons)
qed

text \<open>
  Prices of the three work models survive saving.  For a table with distinct codes, sizes
  and durations above zero and labels that are kept, opening the saved strategy and parameters gives the same
  work model, prices, multipliers, packages and discounts, with the first of each chosen.
\<close>

theorem plan_roundtrip:
  assumes "b1_ok frac_text labels b1" "b2_ok frac_text labels b2" "b3_ok labels b3"
  shows "hydrate_model (fst (buildDynamicPricingPlan frac_text up model b1 b2 b3 dproxy)) = model \<and>
    hydrate_b1 frac_text labels (snd (buildDynamicPricingPlan frac_text up B1 b1 b2 b3 False)) =
      b1 \<lparr> b1_selectedType := mi_key (hd (b1_types b1)), b1_selectedNetwork := mi_key (hd (b1_networks b1)),
        b1_selectedDays := du_days (hd (b1_durations b1)), b1_qty := 1,
        b1_isSingleUnit := (length (b1_types b1) = 1 \<and> length (b1_networks b1) = 1 \<and> length (b1_durations b1) = 1) \<rparr> \<and>
    hydrate_b2 frac_text labels (snd (buildDynamicPricingPlan frac_text up B2 b1 b2 b3 dproxy)) =
      b2 \<lparr> b2_selectedPackageSize := cp_size (hd (b2_packages b2)) \<rparr> \<and>
    hydrate_b3 labels (snd (buildDynamicPricingPlan frac_text up B3 b1 b2 b3 dproxy)) =
      b3 \<lparr> b3_selectedPlatform := mi_key (hd (b3_platforms b3)), b3_urls := [] \<rparr>"
  using hydrate_b1_plan [OF assms(1)] hydrate_b2_plan [OF assms(2)] hydrate_b3_plan [OF assms(3)]
  by (cases model) (simp_all add: buildDynamicPricingPlan_def hydrate_model_def js_eq_iff del: js_Cons)

definition kept_labels :: pricing_labels where
  "kept_labels = NO_LABELS \<lparr> pl_type := item_labels (b1_types DEFAULT_B1), pl_network := item_labels (b1_networks DEFAULT_B1),
     pl_platform := item_labels (b3_platforms DEFAULT_B3) \<rparr>"

lemma plan_roundtrip_witness:
  "hydrate_b2 (\<lambda>_. []) kept_labels (snd (buildDynamicPricingPlan (\<lambda>_. []) (\<lambda>c. [c]) B2 DEFAULT_B1 DEFAULT_B2 DEFAULT_B3 False)) =
     DEFAULT_B2 \<lparr> b2_selectedPackageSize := 500 \<rparr>"
proof -
  have "b1_ok (\<lambda>_. []) kept_labels DEFAULT_B1"
    by (simp add: b1_ok_def DEFAULT_B1_def kept_labels_def NO_LABELS_def labels_match_def item_labels_def from_entries_def js_eq_iff del: js_Cons)
  moreover have "b2_ok (\<lambda>_. []) kept_labels DEFAULT_B2"
    by (simp add: b2_ok_def DEFAULT_B2_def kept_labels_def NO_LABELS_def)
  moreover have "b3_ok kept_labels DEFAULT_B3"
    by (simp add: b3_ok_def DEFAULT_B3_def kept_labels_def NO_LABELS_def labels_match_def item_labels_def from_entries_def js_eq_iff del: js_Cons)
  ultimately have "hydrate_b2 (\<lambda>_. []) kept_labels (snd (buildDynamicPricingPlan (\<lambda>_. []) (\<lambda>c. [c]) B2 DEFAULT_B1 DEFAULT_B2 DEFAULT_B3 False)) =
      DEFAULT_B2 \<lparr> b2_selectedPackageSize := cp_size (hd (b2_packages DEFAULT_B2)) \<rparr>"
    using plan_roundtrip by blast
  then show ?thesis by (simp add: DEFAULT_B2_def)
qed

section \<open>Sale packages read back\<close>

definition plain_package :: "sale_package \<Rightarrow> bool" where
  "plain_package s \<longleftrightarrow> trimmed (sp_type s) \<and> 124 \<notin> set (sp_type s) \<and> trimmed (sp_network s) \<and> 124 \<notin> set (sp_network s) \<and>
     (\<exists>n. sp_days s = of_nat n \<and> (of_nat n :: rat) < overflow_bound)"

lemma package_key_parse:
  assumes "plain_package s"
  shows "parseDproxyPlanKey (package_key frac_text s) = (sp_type s, sp_network s, sp_days s)"
proof -
  obtain n where n: "sp_days s = of_nat n" "(of_nat n :: rat) < overflow_bound" using assms by (auto simp: plain_package_def)
  have days: "num_text frac_text (sp_days s) = show_nat n" using n(1) by (simp add: num_text_def show_int_def)
  have t: "js_trim (sp_type s) = sp_type s" "js_trim (sp_network s) = sp_network s" "124 \<notin> set (sp_type s)" "124 \<notin> set (sp_network s)"
    using assms by (simp_all add: plain_package_def trimmed_js_trim_id)
  have "124 \<notin> set (show_nat n)" using show_nat_digits digit_neq by blast
  then have "split_on 124 (package_key frac_text s) = [sp_type s, sp_network s, show_nat n]"
    using t by (simp add: package_key_def formatDproxyPlanKey_def days split_on_append split_on_free)
  then show ?thesis
    using n js_number_show_nat by (simp add: parseDproxyPlanKey_def part_def number_or_zero_def)
qed

lemma priced_package_back:
  "plain_package s \<Longrightarrow> valid_package s \<Longrightarrow> priced_package (package_key frac_text s, num (sp_price s)) = [s]"
  by (auto simp: priced_package_def package_key_parse valid_package_def falsy_def num_def number_or_zero_def intro!: sale_package.equality)

text \<open>
  The packages of a proxy plan survive saving.  Of the packages in the table
  the saleable ones are written, under a key of code, network and days, and exactly these are read back, in order
  and with their prices, when codes hold no bar, days are whole and no two share a key; a plan is taken for a
  single configuration exactly when one package was written.
\<close>

theorem dproxy_packages_roundtrip:
  assumes "\<forall>s \<in> set (filter valid_package ps). plain_package s"
    and "distinct (map (package_key frac_text) (filter valid_package ps))"
  shows "packagesFromDproxyParams (Some (dproxyParamsFromPackages frac_text up ps)) = filter valid_package ps \<and>
    isSingleConfigPlan (Some (dproxyParamsFromPackages frac_text up ps)) = (length (filter valid_package ps) = 1)"
proof -
  let ?v = "filter valid_package ps"
  let ?p = "dproxyParamsFromPackages frac_text up ps"
  have "map_of ?p (js ''plan_prices'') = Some (JObj (from_entries (map (\<lambda>s. (package_key frac_text s, num (sp_price s))) ?v)))"
    by (simp add: dproxyParamsFromPackages_def Let_def js_eq_iff del: js_Cons)
  moreover have "from_entries (map (\<lambda>s. (package_key frac_text s, num (sp_price s))) ?v) = map (\<lambda>s. (package_key frac_text s, num (sp_price s))) ?v"
    using assms(2) by (intro from_entries_distinct) (simp add: comp_def)
  ultimately have prices: "json_record (map_of ?p (js ''plan_prices'')) = map (\<lambda>s. (package_key frac_text s, num (sp_price s))) ?v" by simp
  have "concat (map priced_package (map (\<lambda>s. (package_key frac_text s, num (sp_price s))) ?v)) = ?v"
    using concat_singletons [of ?v "\<lambda>s. priced_package (package_key frac_text s, num (sp_price s))" "\<lambda>s. s"] assms(1)
    by (simp add: comp_def priced_package_back)
  moreover have "?v = [] \<Longrightarrow> packagesFromDproxyParams (Some ?p) = [] \<and> \<not> isSingleConfigPlan (Some ?p)"
    by (simp add: packagesFromDproxyParams_def isSingleConfigPlan_def dproxyParamsFromPackages_def Let_def from_entries_def js_eq_iff del: js_Cons)
  moreover have "?v \<noteq> [] \<Longrightarrow> isSingleConfigPlan (Some ?p) = (length ?v = 1)"
    unfolding isSingleConfigPlan_def option.case Let_def prices by (cases ?v; cases "tl ?v") simp_all
  ultimately show ?thesis
    unfolding packagesFromDproxyParams_def option.case Let_def prices by (cases "?v = []") (simp_all add: packagesFromDproxyParams_def)
qed

lemma dproxy_packages_roundtrip_witness:
  "packagesFromDproxyParams (Some (dproxyParamsFromPackages (\<lambda>_. []) (\<lambda>c. [c])
      [\<lparr> sp_type = js ''mobile'', sp_network = js ''VN'', sp_days = 7, sp_price = 50000 \<rparr>,
       \<lparr> sp_type = js ''mobile'', sp_network = js ''VN'', sp_days = 30, sp_price = 0 \<rparr>])) =
   [\<lparr> sp_type = js ''mobile'', sp_network = js ''VN'', sp_days = 7, sp_price = 50000 \<rparr>]"
proof -
  let ?a = "\<lparr> sp_type = js ''mobile'', sp_network = js ''VN'', sp_days = 7, sp_price = 50000 \<rparr> :: sale_package"
  let ?b = "\<lparr> sp_type = js ''mobile'', sp_network = js ''VN'', sp_days = 30, sp_price = 0 \<rparr> :: sale_package"
  have v: "filter valid_package [?a, ?b] = [?a]"
    by (simp add: valid_package_def js_trim_def trim_start_def trim_end_def js_space_def)
  have "plain_package ?a"
    by (auto simp: plain_package_def trimmed_def js_space_def overflow_bound_def intro!: exI [of _ 7])
  then show ?thesis
    using dproxy_packages_roundtrip [of "[?a, ?b]" "\<lambda>_. []" "\<lambda>c. [c]"] unfolding v by simp
qed

section \<open>Checklists and previews\<close>

lemma find_member: "List.find P xs = Some x \<Longrightarrow> x \<in> set xs"
  by (induction xs) (auto split: if_splits)

lemma all_counted: "(length (filter snd cs) = length cs) = list_all snd cs"
proof (induction cs)
  case (Cons c cs)
  have "length (filter snd cs) \<le> length cs" by simp
  then show ?case using Cons by (cases "snd c") (auto simp del: length_filter_le)
qed simp

lemma evaluate_sellable: "ev_isSellable (evaluate cs) = list_all snd cs"
  by (simp add: evaluate_def Let_def all_counted)

lemma language_check_all [simp]: "list_all snd (language_check d) = (d \<noteq> Some False)"
  by (cases d) (auto simp: language_check_def)

text \<open>The checklist of a listed product is complete exactly when each of its conditions holds.\<close>

lemma route_a_sellable:
  "ev_isSellable (evaluateRouteAChecklist title description variants escrowHours languages) =
     (js_trim title \<noteq> [] \<and> js_trim description \<noteq> [] \<and> languages \<noteq> Some False \<and>
      list_ex (\<lambda>v. wv_is_active v \<noteq> Some False \<and> 0 < wv_price v) variants \<and>
      list_ex (\<lambda>v. wv_is_active v \<noteq> Some False \<and> variant_stocked v) variants \<and> 0 < escrowHours) \<and>
   ev_passCount (evaluateRouteAChecklist title description variants escrowHours languages) \<le>
     ev_totalCount (evaluateRouteAChecklist title description variants escrowHours languages)"
proof -
  have active: "list_ex P (filter Q vs) = list_ex (\<lambda>v. Q v \<and> P v) vs" for P Q :: "workbench_variant \<Rightarrow> bool" and vs
    by (induction vs) auto
  have some: "(filter Q vs \<noteq> [] \<and> list_ex P (filter Q vs)) = list_ex P (filter Q vs)" for P Q :: "workbench_variant \<Rightarrow> bool" and vs
    by (cases "filter Q vs") auto
  have count: "ev_passCount (evaluate cs) \<le> ev_totalCount (evaluate cs)" for cs
    by (simp add: evaluate_def Let_def)
  show ?thesis
    unfolding evaluateRouteAChecklist_def Let_def evaluate_sellable
    by (simp only: list_all_append list.pred_inject language_check_all snd_conv count some) (simp add: active)
qed

text \<open>With a positive credit price, a package of a positive size and a
  discount between nothing and everything, the discounted total of a credit package is never
  negative and never above the undiscounted one, both rounded to whole dong.\<close>

theorem credit_discount_bounds:
  assumes packages: "\<And>p. p \<in> set (b2_packages b) \<Longrightarrow> 0 \<le> cp_size p \<and> 0 \<le> cp_discountPct p \<and> cp_discountPct p \<le> 100"
    and price: "0 \<le> b2_creditPrice b"
  shows "0 \<le> kp_finalTotal (calculateB2Price b) \<and> kp_finalTotal (calculateB2Price b) \<le> kp_rawTotal (calculateB2Price b)"
proof -
  define pkg where "pkg = (case List.find (\<lambda>p. cp_size p = b2_selectedPackageSize b) (b2_packages b) of
                   Some p \<Rightarrow> p
                 | None \<Rightarrow> (case b2_packages b of p # _ \<Rightarrow> p | [] \<Rightarrow> \<lparr> cp_size = 1000, cp_label = [], cp_discountPct = 0 \<rparr>))"
  have pkg: "0 \<le> cp_size pkg \<and> 0 \<le> cp_discountPct pkg \<and> cp_discountPct pkg \<le> 100"
    unfolding pkg_def using packages
    by (auto split: option.split list.split dest!: find_member)
  define raw where "raw = cp_size pkg * b2_creditPrice b"
  have raw: "0 \<le> raw" using pkg price by (simp add: raw_def)
  have cut: "0 \<le> raw * cp_discountPct pkg" "raw * cp_discountPct pkg \<le> raw * 100"
    using raw pkg by (auto intro: mult_left_mono)
  have totals: "kp_rawTotal (calculateB2Price b) = js_round raw"
    "kp_finalTotal (calculateB2Price b) = js_round (raw - raw * cp_discountPct pkg / 100)"
    by (simp_all only: calculateB2Price_def Let_def credit_price.simps raw_def pkg_def)
  show ?thesis
    unfolding totals using raw cut by (auto simp: js_round_def intro!: floor_mono)
qed

lemma credit_discount_bounds_witness:
  "kp_rawTotal (calculateB2Price \<lparr> b2_creditPrice = 3, b2_packages = [\<lparr> cp_size = 1000, cp_label = js ''k'', cp_discountPct = 7 \<rparr>],
       b2_selectedPackageSize = 1000 \<rparr>) = 3000 \<and>
   0 \<le> kp_finalTotal (calculateB2Price \<lparr> b2_creditPrice = 3, b2_packages = [\<lparr> cp_size = 1000, cp_label = js ''k'', cp_discountPct = 7 \<rparr>],
       b2_selectedPackageSize = 1000 \<rparr>) \<and>
   kp_finalTotal (calculateB2Price \<lparr> b2_creditPrice = 3, b2_packages = [\<lparr> cp_size = 1000, cp_label = js ''k'', cp_discountPct = 7 \<rparr>],
       b2_selectedPackageSize = 1000 \<rparr>) \<le>
   kp_rawTotal (calculateB2Price \<lparr> b2_creditPrice = 3, b2_packages = [\<lparr> cp_size = 1000, cp_label = js ''k'', cp_discountPct = 7 \<rparr>],
       b2_selectedPackageSize = 1000 \<rparr>)"
  using credit_discount_bounds [of "\<lparr> b2_creditPrice = 3, b2_packages = [\<lparr> cp_size = 1000, cp_label = js ''k'', cp_discountPct = 7 \<rparr>],
       b2_selectedPackageSize = 1000 \<rparr>"]
  by (simp add: calculateB2Price_def js_round_def floor_eq_iff)

end
