(* ===== verification/Package_Drafts.thy ===== *)
theory Package_Drafts
  imports Dynamic_Pricing Inventory_Stock
begin

text \<open>
  The packages a seller drafts before the product exists on the server
  (\<^verbatim>\<open>features/seller-workbench/logic.ts\<close>): a fresh draft, the drafts that have a name
  in the primary language, an edit of one draft, and the rows of the workbench made from them. The
  client id of a fresh draft is random in the source and a parameter here. The properties show what
  an edit leaves alone and when a product of drafts can be listed.
\<close>

section \<open>Drafts\<close>

type_synonym names = "locale' \<Rightarrow> jstr"

record package_draft =
  pd_clientId :: jstr
  pd_serverId :: "int option"
  pd_names :: names
  pd_price :: int
  pd_slaHours :: int
  pd_manualStock :: "int option"
  pd_stockText :: jstr
  pd_stockSources :: "stock_source list"
  pd_committedStock :: int
  pd_autoDedupe :: bool

definition EMPTY_PACKAGE_NAMES :: names where
  "EMPTY_PACKAGE_NAMES = (\<lambda>_. [])"

text \<open>A partial draft: a field that is left out is \<^const>\<open>None\<close>; names may be given in one language
  only, and a nullable field may be set to null.\<close>

record package_patch =
  pp_clientId :: "jstr option"
  pp_serverId :: "int option option"
  pp_names :: "(locale' \<rightharpoonup> jstr) option"
  pp_price :: "int option"
  pp_slaHours :: "int option"
  pp_manualStock :: "int option option"
  pp_stockText :: "jstr option"
  pp_stockSources :: "stock_source list option"
  pp_committedStock :: "int option"
  pp_autoDedupe :: "bool option"

definition NO_PATCH :: package_patch where
  "NO_PATCH = \<lparr> pp_clientId = None, pp_serverId = None, pp_names = None, pp_price = None, pp_slaHours = None,
     pp_manualStock = None, pp_stockText = None, pp_stockSources = None, pp_committedStock = None, pp_autoDedupe = None \<rparr>"

definition merge_names :: "names \<Rightarrow> (locale' \<rightharpoonup> jstr) option \<Rightarrow> names" where
  "merge_names names patch = (case patch of None \<Rightarrow> names | Some p \<Rightarrow> (\<lambda>l. given (p l) (names l)))"

definition createNewProductPackageDraft :: "jstr \<Rightarrow> package_patch \<Rightarrow> package_draft" where
  "createNewProductPackageDraft random_id overrides =
     \<lparr> pd_clientId = given (pp_clientId overrides) random_id,
       pd_serverId = given (pp_serverId overrides) None,
       pd_names = merge_names EMPTY_PACKAGE_NAMES (pp_names overrides),
       pd_price = given (pp_price overrides) 0,
       pd_slaHours = given (pp_slaHours overrides) 24,
       pd_manualStock = given (pp_manualStock overrides) None,
       pd_stockText = given (pp_stockText overrides) [],
       pd_stockSources = given (pp_stockSources overrides) [],
       pd_committedStock = given (pp_committedStock overrides) 0,
       pd_autoDedupe = given (pp_autoDedupe overrides) True \<rparr>"

definition namedNewProductPackages :: "package_draft list \<Rightarrow> locale' \<Rightarrow> package_draft list" where
  "namedNewProductPackages packages primaryLocale = filter (\<lambda>pkg. js_trim (pd_names pkg primaryLocale) \<noteq> []) packages"

definition patch_draft :: "package_patch \<Rightarrow> package_draft \<Rightarrow> package_draft" where
  "patch_draft patch pkg =
     \<lparr> pd_clientId = given (pp_clientId patch) (pd_clientId pkg),
       pd_serverId = given (pp_serverId patch) (pd_serverId pkg),
       pd_names = merge_names (pd_names pkg) (pp_names patch),
       pd_price = given (pp_price patch) (pd_price pkg),
       pd_slaHours = given (pp_slaHours patch) (pd_slaHours pkg),
       pd_manualStock = given (pp_manualStock patch) (pd_manualStock pkg),
       pd_stockText = given (pp_stockText patch) (pd_stockText pkg),
       pd_stockSources = given (pp_stockSources patch) (pd_stockSources pkg),
       pd_committedStock = given (pp_committedStock patch) (pd_committedStock pkg),
       pd_autoDedupe = given (pp_autoDedupe patch) (pd_autoDedupe pkg) \<rparr>"

definition patchNewProductPackage :: "package_draft list \<Rightarrow> jstr \<Rightarrow> package_patch \<Rightarrow> package_draft list" where
  "patchNewProductPackage packages clientId patch =
     map (\<lambda>pkg. if pd_clientId pkg \<noteq> clientId then pkg else patch_draft patch pkg) packages"

definition toWorkbenchVariantsFromDrafts ::
    "package_draft list \<Rightarrow> locale' \<Rightarrow> locale' \<Rightarrow> bool \<Rightarrow> (jstr \<rightharpoonup> int) \<Rightarrow> workbench_variant list" where
  "toWorkbenchVariantsFromDrafts packages contentLocale primaryLocale instant pendingStockByClientId =
     map (\<lambda>pkg. \<lparr> wv_id = pd_serverId pkg,
                   wv_name = (let n = js_trim (pd_names pkg contentLocale) in if n \<noteq> [] then n else js_trim (pd_names pkg primaryLocale)),
                   wv_price = pd_price pkg,
                   wv_instant = instant,
                   wv_stock_count = (if instant then pd_committedStock pkg + given (pendingStockByClientId (pd_clientId pkg)) 0 else 0),
                   wv_sla_hours = Some (pd_slaHours pkg),
                   wv_is_active = Some True,
                   wv_min_per_order = None,
                   wv_max_per_order = None,
                   wv_manual_stock = Some (if instant then None else pd_manualStock pkg) \<rparr>)
         (namedNewProductPackages packages primaryLocale)"

section \<open>Edits and readiness\<close>

lemma patch_nothing: "patch_draft NO_PATCH pkg = pkg"
  by (simp add: patch_draft_def NO_PATCH_def given_def merge_names_def)

text \<open>An edit that does not rename a draft's client id keeps the number, the
  order and the client ids of the drafts, changes no draft of another client id, and a name given in
  one language leaves the name in the other; two edits of different drafts can be made in either order.\<close>

theorem draft_edit_local:
  assumes "pp_clientId patch = None" and "pp_clientId patch' = None" and "c \<noteq> c'"
  shows "map pd_clientId (patchNewProductPackage ps c patch) = map pd_clientId ps \<and>
    filter (\<lambda>p. pd_clientId p \<noteq> c) (patchNewProductPackage ps c patch) = filter (\<lambda>p. pd_clientId p \<noteq> c) ps \<and>
    patchNewProductPackage (patchNewProductPackage ps c patch) c' patch' =
      patchNewProductPackage (patchNewProductPackage ps c' patch') c patch"
proof (intro conjI)
  have same: "pd_clientId (patch_draft patch p) = pd_clientId p" "pd_clientId (patch_draft patch' p) = pd_clientId p" for p
    using assms by (simp_all add: patch_draft_def given_def)
  show "map pd_clientId (patchNewProductPackage ps c patch) = map pd_clientId ps"
    by (simp add: patchNewProductPackage_def same)
  show "filter (\<lambda>p. pd_clientId p \<noteq> c) (patchNewProductPackage ps c patch) = filter (\<lambda>p. pd_clientId p \<noteq> c) ps"
    by (induction ps) (simp_all add: patchNewProductPackage_def same)
  show "patchNewProductPackage (patchNewProductPackage ps c patch) c' patch' =
      patchNewProductPackage (patchNewProductPackage ps c' patch') c patch"
    using assms(3) by (auto simp: patchNewProductPackage_def same)
qed

text \<open>A product of drafted packages passes its checklist exactly when the texts are
  filled in, the languages are done where that is asked, the escrow time is positive, and among the
  drafts named in the primary language one has a price and one can be delivered: with committed or
  pending stock when the product is instant, with a promised time otherwise; a draft without a name
  counts for neither.\<close>

theorem drafts_ready:
  "ev_isSellable (evaluateRouteAChecklist title description
       (toWorkbenchVariantsFromDrafts packages contentLocale primaryLocale instant pending) escrowHours languages) =
   (js_trim title \<noteq> [] \<and> js_trim description \<noteq> [] \<and> languages \<noteq> Some False \<and> 0 < escrowHours \<and>
    list_ex (\<lambda>p. js_trim (pd_names p primaryLocale) \<noteq> [] \<and> 0 < pd_price p) packages \<and>
    list_ex (\<lambda>p. js_trim (pd_names p primaryLocale) \<noteq> [] \<and>
       (if instant then 0 < pd_committedStock p + given (pending (pd_clientId p)) 0 else 0 < pd_slaHours p)) packages)"
proof -
  have "list_ex P (map f (filter Q xs)) = list_ex (\<lambda>x. Q x \<and> P (f x)) xs" for P :: "workbench_variant \<Rightarrow> bool" and f Q and xs :: "package_draft list"
    by (induction xs) auto
  then show ?thesis
    by (simp add: route_a_sellable toWorkbenchVariantsFromDrafts_def namedNewProductPackages_def variant_stocked_def given_def
        conj_comms cong: list_ex_cong)
qed

lemma draft_edit_local_witness:
  "map pd_clientId (patchNewProductPackage [createNewProductPackageDraft (js ''a'') NO_PATCH, createNewProductPackageDraft (js ''b'') NO_PATCH]
       (js ''a'') (NO_PATCH \<lparr> pp_price := Some 5 \<rparr>)) = [js ''a'', js ''b'']"
  using draft_edit_local [of "NO_PATCH \<lparr> pp_price := Some 5 \<rparr>" "NO_PATCH \<lparr> pp_price := Some 7 \<rparr>" "js ''a''" "js ''b''"
      "[createNewProductPackageDraft (js ''a'') NO_PATCH, createNewProductPackageDraft (js ''b'') NO_PATCH]"]
  by (simp add: NO_PATCH_def createNewProductPackageDraft_def given_def js_eq_iff)

end
