(* ===== verification/Purchase.thy ===== *)
theory Purchase
  imports Stock_Levels
begin

text \<open>
  Buying a package (app/[locale]/products/[key]/purchase.ts and usePurchase.ts): which package is
  selected, how many units one order may take, the state of the order button, and the hook that places
  the order.  The hook is a step relation: the buyer acts, the product is reloaded and the server
  answers in any order; the code between two awaits is one step.
\<close>

section \<open>Decisions on a package\<close>

record variant = stock_hint +
  va_id :: int
  va_price :: int
  va_sla_hours :: "int option"
  va_min_per_order :: "int option"
  va_max_per_order :: "int option"

abbreviation hint :: "variant \<Rightarrow> stock_hint" where
  "hint v \<equiv> stock_hint.truncate v"

definition purchasable :: "variant \<Rightarrow> bool" where
  "purchasable v \<longleftrightarrow> 0 < va_price v \<and> variantPurchasable (hint v)"

definition outOfStock :: "variant \<Rightarrow> bool" where
  "outOfStock v = variantOutOfStock (hint v)"

definition unavailable :: "variant \<Rightarrow> bool" where
  "unavailable v = variantUnavailable (hint v)"

definition paused :: "variant \<Rightarrow> bool" where
  "paused v \<longleftrightarrow> variantStockState (hint v) = SourcePaused"

definition or_else :: "'a option \<Rightarrow> 'a option \<Rightarrow> 'a option" where
  "or_else x y = (case x of None \<Rightarrow> y | Some _ \<Rightarrow> x)"

definition pickDefaultVariant :: "variant list \<Rightarrow> variant option" where
  "pickDefaultVariant variants =
     or_else (List.find purchasable variants)
       (or_else (List.find (\<lambda>v. 0 < va_price v) variants) (case variants of [] \<Rightarrow> None | v # _ \<Rightarrow> Some v))"

definition resolveSelected :: "variant list \<Rightarrow> int option \<Rightarrow> variant option" where
  "resolveSelected variants chosenId =
     or_else (case chosenId of None \<Rightarrow> None | Some i \<Rightarrow> List.find (\<lambda>v. va_id v = i) variants) (pickDefaultVariant variants)"

definition alternativePackages :: "variant list \<Rightarrow> int option \<Rightarrow> nat \<Rightarrow> variant list" where
  "alternativePackages variants excludeId limit =
     take limit (filter (\<lambda>v. Some (va_id v) \<noteq> excludeId \<and> is_active v \<noteq> Some False \<and> purchasable v) variants)"

datatype notice = PriceChanged int | SoldOut

definition noticeFor :: "jstr option \<Rightarrow> int \<Rightarrow> notice option" where
  "noticeFor errorCode oldPrice =
     (if errorCode = Some (js ''ORDER_PRICE_CHANGED'') then Some (PriceChanged oldPrice)
      else if errorCode = Some (js ''RESOURCE_UNAVAILABLE'') then Some SoldOut else None)"

definition maxQtyFor :: "variant option \<Rightarrow> int" where
  "maxQtyFor v = variantMaxQuantity (map_option stock_hint.truncate v)"

definition minQtyFor :: "variant option \<Rightarrow> int" where
  "minQtyFor v =
     max 1 (case v of None \<Rightarrow> 1 | Some w \<Rightarrow> (case va_min_per_order w of None \<Rightarrow> 1 | Some m \<Rightarrow> m))"

definition clampQty :: "int \<Rightarrow> variant option \<Rightarrow> int" where
  "clampQty n v = min (max (minQtyFor v) n) (max (minQtyFor v) (maxQtyFor v))"

definition belowMinimum :: "variant option \<Rightarrow> bool" where
  "belowMinimum v \<longleftrightarrow>
     (case v of None \<Rightarrow> False | Some w \<Rightarrow> delivery_mode w = Some (js ''instant'') \<and> maxQtyFor v < minQtyFor v)"

definition perOrderBounds :: "variant option \<Rightarrow> (int \<times> int option) option" where
  "perOrderBounds v =
     (case v of None \<Rightarrow> None
      | Some w \<Rightarrow> if 1 < minQtyFor v \<or> va_max_per_order w \<noteq> None then Some (minQtyFor v, va_max_per_order w) else None)"

datatype panel_mode = PanelBuy | PanelContact

definition panelMode :: "variant option \<Rightarrow> panel_mode" where
  "panelMode selected = (case selected of Some v \<Rightarrow> if va_price v = 0 then PanelContact else PanelBuy | None \<Rightarrow> PanelBuy)"

datatype cta_label = Processing | PlaceOrder | LoginToBuy | OutOfStockLabel | PausedLabel | NotEnoughStock | BuyNow

datatype cta_intent = IntentLogin | IntentConfirm | IntentNone

record cta_state =
  cta_label :: cta_label
  cta_disabled :: bool
  cta_intent :: cta_intent

definition ctaState :: "bool \<Rightarrow> bool \<Rightarrow> variant option \<Rightarrow> cta_state" where
  "ctaState loggedIn placing selected =
     (if placing then \<lparr> cta_label = Processing, cta_disabled = True, cta_intent = IntentNone \<rparr>
      else case selected of
        None \<Rightarrow> \<lparr> cta_label = PlaceOrder, cta_disabled = True, cta_intent = IntentNone \<rparr>
      | Some v \<Rightarrow>
          if \<not> loggedIn then \<lparr> cta_label = LoginToBuy, cta_disabled = False, cta_intent = IntentLogin \<rparr>
          else if paused v then \<lparr> cta_label = PausedLabel, cta_disabled = True, cta_intent = IntentNone \<rparr>
          else if unavailable v then \<lparr> cta_label = OutOfStockLabel, cta_disabled = True, cta_intent = IntentNone \<rparr>
          else if belowMinimum (Some v) then \<lparr> cta_label = NotEnoughStock, cta_disabled = True, cta_intent = IntentNone \<rparr>
          else \<lparr> cta_label = (if delivery_mode v = Some (js ''instant'') then BuyNow else PlaceOrder),
                 cta_disabled = False, cta_intent = IntentConfirm \<rparr>)"

datatype delivery_summary = DeliveryInstant | DeliveryHours int | DeliveryMixed int | DeliveryAuto

definition deliverySummary :: "variant list \<Rightarrow> jstr option \<Rightarrow> delivery_summary" where
  "deliverySummary variants pricingStrategy =
     (if pricingStrategy \<notin> {None, Some [], Some (js ''fixed'')} then DeliveryAuto
      else let active = filter (\<lambda>v. is_active v \<noteq> Some False) variants;
               manual = filter (\<lambda>v. delivery_mode v \<noteq> Some (js ''instant'')) active
           in if manual = [] then DeliveryInstant
              else let hours = Max (set (map (\<lambda>v. case va_sla_hours v of None \<Rightarrow> 24 | Some h \<Rightarrow> h) manual))
                   in if length manual = length active then DeliveryHours hours else DeliveryMixed hours)"

section \<open>Placing the order\<close>

text \<open>
  A request as \<open>api.createOrder\<close> gets it, with the package it was made for; after an error the buyer
  can recover from, the call still waits for the product to be reloaded.  \<open>pu_sent\<close> is the history of
  the requests, \<open>pu_orders\<close> the one of the orders the server confirmed.
\<close>

record order_request =
  rq_variant :: variant
  rq_quantity :: int
  rq_unit_price :: int
  rq_promo :: "jstr option"

datatype call_phase = AwaitOrder | AwaitReload

record 'o purchase =
  pu_variants :: "variant list option"
  pu_chosenId :: "int option"
  pu_qtyRaw :: int
  pu_order :: "'o option"
  pu_placing :: bool
  pu_placeError :: bool
  pu_showConfirm :: bool
  pu_notice :: "notice option"
  pu_calls :: "(order_request \<times> call_phase) list"
  pu_sent :: "order_request list"
  pu_orders :: "'o list"

definition purchase_start :: "variant list option \<Rightarrow> 'o purchase" where
  "purchase_start product =
     \<lparr> pu_variants = product, pu_chosenId = None, pu_qtyRaw = 1, pu_order = None, pu_placing = False,
       pu_placeError = False, pu_showConfirm = False, pu_notice = None, pu_calls = [], pu_sent = [], pu_orders = [] \<rparr>"

definition selected_of :: "'o purchase \<Rightarrow> variant option" where
  "selected_of s = (case pu_variants s of None \<Rightarrow> None | Some vs \<Rightarrow> resolveSelected vs (pu_chosenId s))"

definition qty_of :: "'o purchase \<Rightarrow> int" where
  "qty_of s = clampQty (pu_qtyRaw s) (selected_of s)"

definition total_of :: "'o purchase \<Rightarrow> int" where
  "total_of s = (case selected_of s of None \<Rightarrow> 0 | Some v \<Rightarrow> va_price v * qty_of s)"

definition pickVariant :: "variant \<Rightarrow> 'o purchase \<Rightarrow> 'o purchase" where
  "pickVariant v s =
     s \<lparr> pu_chosenId := Some (va_id v), pu_placeError := False, pu_notice := None, pu_qtyRaw := clampQty (pu_qtyRaw s) (Some v) \<rparr>"

definition setQty :: "int \<Rightarrow> 'o purchase \<Rightarrow> 'o purchase" where
  "setQty n s = s \<lparr> pu_qtyRaw := clampQty n (selected_of s) \<rparr>"

definition openConfirm :: "'o purchase \<Rightarrow> 'o purchase" where
  "openConfirm s = s \<lparr> pu_showConfirm := True \<rparr>"

definition closeConfirm :: "'o purchase \<Rightarrow> 'o purchase" where
  "closeConfirm s = s \<lparr> pu_showConfirm := False, pu_placeError := False, pu_notice := None \<rparr>"

definition rebuy :: "'o purchase \<Rightarrow> 'o purchase" where
  "rebuy s = s \<lparr> pu_order := None, pu_qtyRaw := 1 \<rparr>"

text \<open>An order exists, from this form or from the form of configurable products.\<close>

definition orderPlaced :: "'o \<Rightarrow> 'o purchase \<Rightarrow> 'o purchase" where
  "orderPlaced o' s = s \<lparr> pu_order := Some o', pu_orders := pu_orders s @ [o'] \<rparr>"

definition buy :: "jstr option \<Rightarrow> 'o purchase \<Rightarrow> 'o purchase" where
  "buy promoCode s =
     (case selected_of s of
        None \<Rightarrow> s
      | Some v \<Rightarrow>
          let request = \<lparr> rq_variant = v, rq_quantity = qty_of s, rq_unit_price = va_price v, rq_promo = promoCode \<rparr>
          in s \<lparr> pu_placing := True, pu_placeError := False, pu_calls := pu_calls s @ [(request, AwaitOrder)],
                 pu_sent := pu_sent s @ [request] \<rparr>)"

definition end_call :: "order_request \<times> call_phase \<Rightarrow> 'o purchase \<Rightarrow> 'o purchase" where
  "end_call call s = s \<lparr> pu_calls := remove1 call (pu_calls s), pu_placing := False \<rparr>"

text \<open>The answer of the server: the order, or the error code of a failure (if it has one).\<close>

definition order_answer :: "order_request \<Rightarrow> jstr option + 'o \<Rightarrow> 'o purchase \<Rightarrow> 'o purchase" where
  "order_answer request answer s =
     (case answer of
        Inr o' \<Rightarrow> end_call (request, AwaitOrder) ((orderPlaced o' s) \<lparr> pu_notice := None, pu_showConfirm := False \<rparr>)
      | Inl code \<Rightarrow>
          (case noticeFor code (rq_unit_price request) of
             Some recover \<Rightarrow>
               s \<lparr> pu_notice := Some recover, pu_calls := remove1 (request, AwaitOrder) (pu_calls s) @ [(request, AwaitReload)] \<rparr>
           | None \<Rightarrow> end_call (request, AwaitOrder) (s \<lparr> pu_placeError := True \<rparr>)))"

text \<open>The product is loaded or reloaded at any time, also by the recovery that waits for it.\<close>

definition product_loaded :: "variant list option \<Rightarrow> 'o purchase \<Rightarrow> 'o purchase" where
  "product_loaded product s = s \<lparr> pu_variants := product \<rparr>"

definition reload_answer :: "order_request \<Rightarrow> 'o purchase \<Rightarrow> 'o purchase" where
  "reload_answer request s = end_call (request, AwaitReload) s"

inductive purchase_step :: "'o purchase \<Rightarrow> 'o purchase \<Rightarrow> bool" where
  step_pick: "v \<in> set (case pu_variants s of None \<Rightarrow> [] | Some vs \<Rightarrow> vs) \<Longrightarrow> purchase_step s (pickVariant v s)"
| step_qty: "purchase_step s (setQty n s)"
| step_open: "purchase_step s (openConfirm s)"
| step_close: "purchase_step s (closeConfirm s)"
| step_buy: "purchase_step s (buy promoCode s)"
| step_answer: "(request, AwaitOrder) \<in> set (pu_calls s) \<Longrightarrow> purchase_step s (order_answer request answer s)"
| step_reloaded: "(request, AwaitReload) \<in> set (pu_calls s) \<Longrightarrow> purchase_step s (reload_answer request s)"
| step_product: "purchase_step s (product_loaded product s)"
| step_rebuy: "purchase_step s (rebuy s)"
| step_other: "purchase_step s (orderPlaced o' s)"

inductive purchase_run :: "'o purchase \<Rightarrow> bool" where
  run_start: "purchase_run (purchase_start product)"
| run_step: "purchase_run s \<Longrightarrow> purchase_step s t \<Longrightarrow> purchase_run t"


inductive_cases purchase_stepE: "purchase_step s t"

section \<open>What is sent\<close>

lemma clampQty_bounds: "minQtyFor v \<le> clampQty n v \<and> clampQty n v \<le> max (minQtyFor v) (maxQtyFor v)"
  by (simp add: clampQty_def)

lemma minQty_pos: "1 \<le> minQtyFor v"
  by (simp add: minQtyFor_def)

lemma maxQty_cap: "maxQtyFor v \<le> MAX_ORDER_QUANTITY"
  by (auto simp: maxQtyFor_def variantMaxQuantity_def MAX_ORDER_QUANTITY_def split: option.splits)

lemmas purchase_defs = pickVariant_def setQty_def openConfirm_def closeConfirm_def rebuy_def orderPlaced_def
  end_call_def product_loaded_def reload_answer_def

definition request_ok :: "order_request \<Rightarrow> bool" where
  "request_ok r \<longleftrightarrow> rq_unit_price r = va_price (rq_variant r) \<and> minQtyFor (Some (rq_variant r)) \<le> rq_quantity r \<and>
     rq_quantity r \<le> max (minQtyFor (Some (rq_variant r))) (maxQtyFor (Some (rq_variant r)))"

definition purchase_ok :: "'o purchase \<Rightarrow> bool" where
  "purchase_ok s \<longleftrightarrow>
     list_all request_ok (pu_sent s) \<and> (\<forall>c \<in> set (pu_calls s). fst c \<in> set (pu_sent s)) \<and>
     (pu_placing s \<longrightarrow> pu_calls s \<noteq> []) \<and> set_option (pu_order s) \<subseteq> set (pu_orders s) \<and>
     (\<forall>p. pu_notice s = Some (PriceChanged p) \<longrightarrow> p \<in> rq_unit_price ` set (pu_sent s))"

lemma purchase_okI:
  assumes "list_all request_ok (pu_sent s)" "\<And>r ph. (r, ph) \<in> set (pu_calls s) \<Longrightarrow> r \<in> set (pu_sent s)" "pu_placing s \<Longrightarrow> pu_calls s \<noteq> []"
    "set_option (pu_order s) \<subseteq> set (pu_orders s)"
    "\<And>p. pu_notice s = Some (PriceChanged p) \<Longrightarrow> p \<in> rq_unit_price ` set (pu_sent s)"
  shows "purchase_ok s"
  using assms by (auto simp: purchase_ok_def)

lemma purchase_okD:
  assumes "purchase_ok s"
  shows "list_all request_ok (pu_sent s)" "(r, ph) \<in> set (pu_calls s) \<Longrightarrow> r \<in> set (pu_sent s)" "pu_placing s \<Longrightarrow> pu_calls s \<noteq> []"
    "set_option (pu_order s) \<subseteq> set (pu_orders s)"
    "pu_notice s = Some (PriceChanged p) \<Longrightarrow> p \<in> rq_unit_price ` set (pu_sent s)"
  using assms by (auto simp: purchase_ok_def)

lemma buy_ok:
  assumes "purchase_ok s" shows "purchase_ok (buy promoCode s)"
proof (cases "selected_of s")
  case None
  with assms show ?thesis by (simp add: buy_def)
next
  case (Some v)
  have "request_ok \<lparr> rq_variant = v, rq_quantity = qty_of s, rq_unit_price = va_price v, rq_promo = promoCode \<rparr>"
    using clampQty_bounds [of "Some v" "pu_qtyRaw s"] by (simp add: request_ok_def qty_of_def Some)
  with Some assms show ?thesis
    by (auto intro!: purchase_okI simp: buy_def Let_def dest: purchase_okD)
qed

lemma noticeFor_price: "noticeFor code p = Some (PriceChanged q) \<Longrightarrow> q = p"
  by (simp add: noticeFor_def split: if_splits)

lemma calls_left: "purchase_ok s \<Longrightarrow> (r, ph) \<in> set (remove1 c (pu_calls s)) \<Longrightarrow> r \<in> set (pu_sent s)"
  using set_remove1_subset [of c "pu_calls s"] purchase_okD(2) by blast

lemma end_call_ok: "purchase_ok s \<Longrightarrow> purchase_ok (end_call c s)"
  by (auto intro!: purchase_okI simp: end_call_def dest: purchase_okD calls_left)

lemma answer_ok:
  assumes "purchase_ok s" "(request, AwaitOrder) \<in> set (pu_calls s)"
  shows "purchase_ok (order_answer request answer s)"
proof (cases answer)
  case (Inr o')
  have "purchase_ok ((orderPlaced o' s) \<lparr> pu_notice := None, pu_showConfirm := False \<rparr>)"
    using assms(1) by (auto intro!: purchase_okI simp: orderPlaced_def dest: purchase_okD)
  then show ?thesis by (simp add: Inr order_answer_def end_call_ok)
next
  case (Inl code)
  have sent: "request \<in> set (pu_sent s)" using purchase_okD(2) [OF assms] .
  show ?thesis
  proof (cases "noticeFor code (rq_unit_price request)")
    case None
    have "purchase_ok (s \<lparr> pu_placeError := True \<rparr>)"
      using assms(1) by (auto intro!: purchase_okI dest: purchase_okD)
    then show ?thesis by (simp add: Inl None order_answer_def end_call_ok)
  next
    case (Some recover)
    have "purchase_ok (s \<lparr> pu_notice := Some recover,
        pu_calls := remove1 (request, AwaitOrder) (pu_calls s) @ [(request, AwaitReload)] \<rparr>)"
      using assms(1) sent Some by (auto intro!: purchase_okI dest: purchase_okD calls_left) (use noticeFor_price in blast)
    then show ?thesis by (simp add: Inl Some order_answer_def)
  qed
qed

lemma purchase_step_ok: "purchase_step s t \<Longrightarrow> purchase_ok s \<Longrightarrow> purchase_ok t"
proof (induction rule: purchase_step.induct)
  case (step_answer request s answer)
  then show ?case by (simp add: answer_ok)
next
  case (step_reloaded request s)
  then show ?case by (simp add: reload_answer_def end_call_ok)
next
  case (step_buy s promoCode)
  then show ?case by (rule buy_ok)
qed (auto intro!: purchase_okI simp: purchase_defs dest: purchase_okD)

lemma purchase_run_ok: "purchase_run s \<Longrightarrow> purchase_ok s"
  by (induction rule: purchase_run.induct)
    (auto simp: purchase_start_def purchase_step_ok intro!: purchase_okI)


section \<open>The package that is selected\<close>

lemma find_mem: "List.find P xs = Some x \<Longrightarrow> x \<in> set xs \<and> P x"
  by (induction xs) (auto split: if_splits)

lemma find_none: "List.find P xs = None \<longleftrightarrow> (\<forall>x \<in> set xs. \<not> P x)"
  by (induction xs) auto

lemma default_variant:
  "(pickDefaultVariant vs = None \<longleftrightarrow> vs = []) \<and>
   (pickDefaultVariant vs = Some v \<longrightarrow> v \<in> set vs \<and> (purchasable v \<or> (\<forall>w \<in> set vs. \<not> purchasable w)))"
  by (auto simp: pickDefaultVariant_def or_else_def find_none split: option.splits list.splits dest: find_mem)

text \<open>The order button asks for a confirmation exactly when the buyer is
  signed in, nothing is being placed and the selected package can be ordered now and, if it is instant,
  holds one order's minimum; then every quantity the form can show is within what the package allows.\<close>

theorem button_offers_an_order:
  "(cta_intent (ctaState loggedIn placing selected) = IntentConfirm) =
     (loggedIn \<and> \<not> placing \<and> (\<exists>v. selected = Some v \<and> variantPurchasable (hint v) \<and> \<not> belowMinimum (Some v))) \<and>
   cta_disabled (ctaState loggedIn placing selected) = (cta_intent (ctaState loggedIn placing selected) = IntentNone) \<and>
   (\<forall>v. selected = Some v \<and> cta_intent (ctaState loggedIn placing selected) = IntentConfirm \<and>
      delivery_mode v = Some (js ''instant'') \<longrightarrow> clampQty n selected \<le> maxQtyFor selected)"
proof -
  have state: "\<not> unavailable v \<longleftrightarrow> variantPurchasable (hint v)" "paused v \<Longrightarrow> \<not> variantPurchasable (hint v)" for v
    by (simp_all add: unavailable_def variantUnavailable_def paused_def variantPurchasable_def)
  have confirm: "(cta_intent (ctaState loggedIn placing selected) = IntentConfirm) =
     (loggedIn \<and> \<not> placing \<and> (\<exists>v. selected = Some v \<and> variantPurchasable (hint v) \<and> \<not> belowMinimum (Some v)))"
    using state by (auto simp: ctaState_def split: option.splits)
  moreover have "cta_disabled (ctaState loggedIn placing selected) = (cta_intent (ctaState loggedIn placing selected) = IntentNone)"
    by (simp add: ctaState_def split: option.splits)
  moreover have "clampQty n selected \<le> maxQtyFor selected"
    if "selected = Some v" "cta_intent (ctaState loggedIn placing selected) = IntentConfirm" "delivery_mode v = Some (js ''instant'')" for v
    using that confirm clampQty_bounds [of selected n] by (simp add: belowMinimum_def)
  ultimately show ?thesis by blast
qed

text \<open>The recovery from a sold-out package: its answer, the reload of the product, the end of the call.\<close>

definition after_sold_out :: "order_request \<Rightarrow> variant list \<Rightarrow> 'o purchase \<Rightarrow> 'o purchase" where
  "after_sold_out r vs s =
     reload_answer r (product_loaded (Some vs) (order_answer r (Inl (Some (js ''RESOURCE_UNAVAILABLE''))) s))"

text \<open>C25: when the package offered by default (the buyer picked none) is
  sold out and the reloaded product has another one that can be ordered, the open confirmation turns to
  that other package: it is the one the sold-out notice names and the one the next confirmation orders.\<close>

theorem sold_out_switches_package:
  assumes "selected_of s = Some a" and "pu_chosenId s = None"
    and "List.find purchasable vs = Some b" and "va_id b \<noteq> va_id a"
  shows "selected_of (after_sold_out r vs s) = Some b \<and> pu_notice (after_sold_out r vs s) = Some SoldOut \<and>
    pu_showConfirm (after_sold_out r vs s) = pu_showConfirm s \<and> \<not> pu_placing (after_sold_out r vs s) \<and>
    va_id (rq_variant (last (pu_sent (buy promoCode (after_sold_out r vs s))))) \<noteq> va_id a \<and>
    pu_orders (after_sold_out r vs s) = pu_orders s"
proof -
  have sold: "noticeFor (Some (js ''RESOURCE_UNAVAILABLE'')) p = Some SoldOut" for p
    by (simp add: noticeFor_def js_eq_iff del: js_Cons)
  have sel: "selected_of (after_sold_out r vs s) = Some b"
    using assms(2,3) unfolding after_sold_out_def order_answer_def sum.case sold option.case
    by (simp add: reload_answer_def end_call_def product_loaded_def selected_of_def
        resolveSelected_def pickDefaultVariant_def or_else_def)
  then show ?thesis
    using assms(4) unfolding after_sold_out_def order_answer_def sum.case sold option.case
    by (simp add: reload_answer_def end_call_def product_loaded_def buy_def Let_def)
qed

text \<open>A product of two instant packages, the first chosen by default and then sold out.\<close>

definition sample_variant :: "int \<Rightarrow> int \<Rightarrow> variant" where
  "sample_variant i units =
     \<lparr> delivery_mode = Some (js ''instant''), stock_state = None, max_quantity = None, stock_count = Some units,
       is_active = Some True, va_id = i, va_price = 100, va_sla_hours = None, va_min_per_order = None, va_max_per_order = None \<rparr>"

definition sample_form :: "int purchase" where
  "sample_form = openConfirm (purchase_start (Some [sample_variant 1 20, sample_variant 2 20]))"

definition sample_request :: order_request where
  "sample_request = \<lparr> rq_variant = sample_variant 1 20, rq_quantity = 1, rq_unit_price = 100, rq_promo = None \<rparr>"

lemma sample_variant_simps:
  "0 < units \<Longrightarrow> purchasable (sample_variant i units)" "\<not> purchasable (sample_variant i 0)" "va_id (sample_variant i units) = i"
  by (simp_all add: sample_variant_def purchasable_def variantPurchasable_def variantStockState_def isStockState_def
      is_manual_def stock_hint.defs STOCK_STATES_def js_eq_iff del: js_Cons)


lemma sold_out_switches_package_witness:
  "selected_of sample_form = Some (sample_variant 1 20) \<and>
   selected_of (after_sold_out sample_request [sample_variant 1 0, sample_variant 2 20] sample_form) = Some (sample_variant 2 20)"
proof -
  have "selected_of sample_form = Some (sample_variant 1 20)" "pu_chosenId sample_form = None"
    by (simp_all add: sample_form_def openConfirm_def purchase_start_def selected_of_def resolveSelected_def
        pickDefaultVariant_def or_else_def sample_variant_simps)
  moreover have "List.find purchasable [sample_variant 1 0, sample_variant 2 20] = Some (sample_variant 2 20)"
    by (simp add: sample_variant_simps)
  ultimately show ?thesis
    using sold_out_switches_package [of sample_form "sample_variant 1 20" "[sample_variant 1 0, sample_variant 2 20]" "sample_variant 2 20" sample_request]
    by (simp add: sample_variant_simps)
qed

lemma button_offers_an_order_witness:
  "cta_intent (ctaState True False (Some (sample_variant 1 20))) = IntentConfirm \<and> clampQty 30 (Some (sample_variant 1 20)) \<le> 20"
proof -
  have "variantPurchasable (hint (sample_variant 1 20))" using sample_variant_simps(1) [of 20 1] by (simp add: purchasable_def)
  moreover have max: "maxQtyFor (Some (sample_variant 1 20)) = 20" "delivery_mode (sample_variant 1 20) = Some (js ''instant'')"
    by (simp_all add: maxQtyFor_def variantMaxQuantity_def sample_variant_def stock_hint.defs MAX_ORDER_QUANTITY_def)
  moreover have "minQtyFor (Some (sample_variant 1 20)) = 1" by (simp add: minQtyFor_def sample_variant_def)
  ultimately show ?thesis
    using button_offers_an_order [of True False "Some (sample_variant 1 20)" 30] by (simp add: belowMinimum_def)
qed

end
