(* ===== verification/Checkout.thy ===== *)
theory Checkout
  imports Purchase Pricing_Grid
begin

text \<open>
  The confirmation of an order: what the wallet lacks and the top-up link (features/checkout/model.ts),
  the promo code with its quotes (features/checkout/usePromoCode.ts), the quantity of configurable
  products (components/dynamic-order-quantity.ts), and the lowest price a card may promise
  (lib/pricing-display.ts).  The promo code is a step relation with the hook's effect: after every
  step the effect runs when its dependencies changed, and the server answers in any order.
\<close>

section \<open>Wallet and deadline\<close>

definition walletShortfall :: "rat \<Rightarrow> jsnum option \<Rightarrow> int" where
  "walletShortfall total' available = (case available of Some (Fin a) \<Rightarrow> max 0 \<lceil>total' - a\<rceil> | _ \<Rightarrow> 0)"

text \<open>The path and the parameters of the wallet page.\<close>

definition topUpHref :: "rat \<Rightarrow> jstr \<Rightarrow> string \<times> (jstr \<times> jstr) list" where
  "topUpHref amount returnPath =
     (''/wallet'', [(js ''amount'', show_int (max 0 \<lceil>amount\<rceil>))] @
        (if starts_with returnPath (js ''/'') \<and> \<not> starts_with returnPath (js ''//'') then [(js ''return'', returnPath)] else []))"

definition HOUR_MS :: int where "HOUR_MS = 3600000"

definition inspectionDeadline :: "int \<Rightarrow> jsnum \<Rightarrow> bool \<Rightarrow> rat option" where
  "inspectionDeadline now escrowHours instant =
     (case escrowHours of Fin h \<Rightarrow> if instant \<and> 0 < h then Some (of_int now + h * of_int HOUR_MS) else None | _ \<Rightarrow> None)"

section \<open>Promo codes\<close>

definition normalizePromoCode :: "(jstr \<Rightarrow> jstr) \<Rightarrow> jstr \<Rightarrow> jstr" where
  "normalizePromoCode upper raw = upper (js_trim raw)"

definition promoQuoteKey :: "(params \<Rightarrow> jstr) \<Rightarrow> params option \<Rightarrow> jstr option" where
  "promoQuoteKey stringify body = map_option (\<lambda>b. stringify (AList.delete (js ''promo_code'') b)) body"

record quote =
  qt_subtotal_amount :: int
  qt_discount_amount :: int
  qt_total_amount :: int
  qt_promo_code :: "jstr option"

text \<open>\<open>key && quote.key === key\<close>: the empty text would not count as a key.\<close>

definition quote_applies :: "jstr option \<Rightarrow> jstr \<Rightarrow> bool" where
  "quote_applies key quote_key \<longleftrightarrow> key = Some quote_key \<and> quote_key \<noteq> []"

definition payableTotal :: "int \<Rightarrow> (jstr \<times> quote) option \<Rightarrow> jstr option \<Rightarrow> int" where
  "payableTotal total' applied key =
     (case applied of None \<Rightarrow> total' | Some (k, q) \<Rightarrow> if quote_applies key k then qt_total_amount q else total')"

datatype promo_error = PromoEmpty | PromoMinOrder int | PromoFailed

text \<open>
  The state of the hook.  \<open>pm_key\<close> is the key of the order body of the last render (none when the
  confirmation is closed), \<open>pm_deps\<close> the dependencies the effect saw last, \<open>pm_calls\<close> the quotes asked
  for and not yet answered (the key and the code), \<open>pm_quoted\<close> the history of the server's quotes.
\<close>

record promo =
  pm_key :: "jstr option"
  pm_active :: bool
  pm_input :: jstr
  pm_quote :: "(jstr \<times> quote) option"
  pm_checking :: bool
  pm_error :: "promo_error option"
  pm_deps :: "bool \<times> jstr option"
  pm_calls :: "(jstr \<times> jstr) list"
  pm_quoted :: "(jstr \<times> jstr \<times> quote) list"

definition stale :: "promo \<Rightarrow> bool" where
  "stale s \<longleftrightarrow> (case pm_quote s of None \<Rightarrow> False | Some (k, q) \<Rightarrow> pm_key s \<noteq> None \<and> Some k \<noteq> pm_key s)"

definition applied_quote :: "promo \<Rightarrow> quote option" where
  "applied_quote s =
     (case pm_quote s of None \<Rightarrow> None | Some (k, q) \<Rightarrow> if quote_applies (pm_key s) k then Some q else None)"

definition checking_shown :: "promo \<Rightarrow> bool" where
  "checking_shown s \<longleftrightarrow> pm_checking s \<or> stale s"

definition promo_code_sent :: "promo \<Rightarrow> jstr option" where
  "promo_code_sent s = (case applied_quote s of None \<Rightarrow> None | Some q \<Rightarrow> qt_promo_code q)"

definition payable :: "int \<Rightarrow> promo \<Rightarrow> int" where
  "payable total' s = payableTotal total' (pm_quote s) (pm_key s)"

definition promo_reset :: "promo \<Rightarrow> promo" where
  "promo_reset s = s \<lparr> pm_input := [], pm_quote := None, pm_error := None \<rparr>"

definition setInput :: "jstr \<Rightarrow> promo \<Rightarrow> promo" where
  "setInput v s = s \<lparr> pm_input := v, pm_error := None \<rparr>"

text \<open>\<open>apply\<close> up to its await, and the answer: a quote, or the error the form shows for a failure.\<close>

definition apply_code :: "(jstr \<Rightarrow> jstr) \<Rightarrow> promo \<Rightarrow> promo" where
  "apply_code upper s =
     (case pm_key s of
        None \<Rightarrow> s
      | Some key \<Rightarrow>
          if key = [] then s
          else let code = normalizePromoCode upper (pm_input s)
               in if code = [] then s \<lparr> pm_error := Some PromoEmpty \<rparr>
                  else s \<lparr> pm_checking := True, pm_error := None, pm_calls := pm_calls s @ [(key, code)] \<rparr>)"

definition promo_answer :: "jstr \<times> jstr \<Rightarrow> promo_error + quote \<Rightarrow> promo \<Rightarrow> promo" where
  "promo_answer call answer s =
     (let s1 = s \<lparr> pm_calls := remove1 call (pm_calls s), pm_checking := False \<rparr>
      in case answer of
           Inr q \<Rightarrow> s1 \<lparr> pm_quote := Some (fst call, q), pm_input := snd call, pm_quoted := pm_quoted s @ [(fst call, snd call, q)] \<rparr>
         | Inl e \<Rightarrow> s1 \<lparr> pm_quote := None, pm_error := Some e \<rparr>)"

text \<open>
  A render: closing forgets the code, opening starts from the state there is.  Then the effect: it
  asks again for a stale quote, but only when what it depends on changed, and not during a check.
\<close>

definition render_body :: "jstr option \<Rightarrow> promo \<Rightarrow> promo" where
  "render_body key s =
     (let s1 = s \<lparr> pm_key := key \<rparr>
      in if (key \<noteq> None) \<noteq> pm_active s
         then (if key = None then promo_reset (s1 \<lparr> pm_active := False \<rparr>) else s1 \<lparr> pm_active := True \<rparr>)
         else s1)"

definition run_effect :: "(jstr \<Rightarrow> jstr) \<Rightarrow> promo \<Rightarrow> promo" where
  "run_effect upper s =
     (if pm_deps s = (stale s, pm_key s) then s
      else let s1 = s \<lparr> pm_deps := (stale s, pm_key s) \<rparr>
           in if stale s \<and> \<not> pm_checking s then apply_code upper s1 else s1)"

definition promo_start :: "jstr option \<Rightarrow> promo" where
  "promo_start key =
     \<lparr> pm_key = key, pm_active = (key \<noteq> None), pm_input = [], pm_quote = None, pm_checking = False, pm_error = None,
       pm_deps = (False, key), pm_calls = [], pm_quoted = [] \<rparr>"

inductive promo_step :: "(jstr \<Rightarrow> jstr) \<Rightarrow> promo \<Rightarrow> promo \<Rightarrow> bool" for upper where
  promo_input: "promo_step upper s (run_effect upper (setInput v s))"
| promo_apply: "promo_step upper s (run_effect upper (apply_code upper s))"
| promo_remove: "promo_step upper s (run_effect upper (promo_reset s))"
| promo_body: "promo_step upper s (run_effect upper (render_body key s))"
| promo_answered: "call \<in> set (pm_calls s) \<Longrightarrow> promo_step upper s (run_effect upper (promo_answer call answer s))"

inductive promo_run :: "(jstr \<Rightarrow> jstr) \<Rightarrow> promo \<Rightarrow> bool" for upper where
  promo_init: "promo_run upper (promo_start key)"
| promo_next: "promo_run upper s \<Longrightarrow> promo_step upper s t \<Longrightarrow> promo_run upper t"


section \<open>The promo code and the price\<close>

lemmas promo_defs = setInput_def promo_reset_def apply_code_def promo_answer_def render_body_def run_effect_def

definition promo_ok :: "promo \<Rightarrow> bool" where
  "promo_ok s \<longleftrightarrow>
     (\<forall>k q. pm_quote s = Some (k, q) \<longrightarrow> (\<exists>c. (k, c, q) \<in> set (pm_quoted s))) \<and> (pm_checking s \<longrightarrow> pm_calls s \<noteq> [])"

lemma promo_okI:
  assumes "\<And>k q. pm_quote s = Some (k, q) \<Longrightarrow> \<exists>c. (k, c, q) \<in> set (pm_quoted s)" "pm_checking s \<Longrightarrow> pm_calls s \<noteq> []"
  shows "promo_ok s"
  using assms by (simp add: promo_ok_def)

lemma promo_okD:
  assumes "promo_ok s"
  shows "pm_quote s = Some (k, q) \<Longrightarrow> \<exists>c. (k, c, q) \<in> set (pm_quoted s)" "pm_checking s \<Longrightarrow> pm_calls s \<noteq> []"
  using assms by (simp_all add: promo_ok_def)

lemma apply_code_ok: "promo_ok s \<Longrightarrow> promo_ok (apply_code upper s)"
  by (auto intro!: promo_okI simp: apply_code_def Let_def split: option.splits dest: promo_okD)

lemma run_effect_ok:
  assumes "promo_ok s" shows "promo_ok (run_effect upper s)"
proof -
  have "promo_ok (s \<lparr> pm_deps := d \<rparr>)" for d
    using assms by (auto intro!: promo_okI dest: promo_okD)
  with assms show ?thesis by (simp add: run_effect_def Let_def apply_code_ok)
qed

lemma promo_answer_ok: "promo_ok s \<Longrightarrow> promo_ok (promo_answer call answer s)"
  by (auto intro!: promo_okI simp: promo_answer_def Let_def split: sum.splits)

lemma render_body_ok: "promo_ok s \<Longrightarrow> promo_ok (render_body key s)"
  by (auto intro!: promo_okI simp: render_body_def promo_reset_def Let_def dest: promo_okD)

lemma promo_run_ok: "promo_run upper s \<Longrightarrow> promo_ok s"
proof (induction rule: promo_run.induct)
  case (promo_init key)
  show ?case by (rule promo_okI) (simp_all add: promo_start_def)
next
  case (promo_next s t)
  from promo_next(2,3) show ?case
  proof (cases rule: promo_step.cases)
    case (promo_input v)
    moreover have "promo_ok (setInput v s)"
      using promo_next(3) by (auto intro!: promo_okI simp: setInput_def dest: promo_okD)
    ultimately show ?thesis by (simp add: run_effect_ok)
  next
    case promo_remove
    moreover have "promo_ok (promo_reset s)"
      using promo_next(3) by (auto intro!: promo_okI simp: promo_reset_def dest: promo_okD)
    ultimately show ?thesis by (simp add: run_effect_ok)
  qed (simp_all add: promo_next(3) run_effect_ok apply_code_ok render_body_ok promo_answer_ok)
qed

text \<open>Whatever the buyer types, however the order changes and in whatever order
  the server answers, the price shown and the code sent are either the list price and no code, or
  those of one quote the server gave for the very order on screen; and a check is shown as running only
  while an answer is awaited or the quote held belongs to another order.\<close>

theorem payable_is_quoted:
  assumes "promo_run upper s"
  shows "(applied_quote s = None \<longrightarrow> payable list_total s = list_total \<and> promo_code_sent s = None) \<and>
    (\<forall>q. applied_quote s = Some q \<longrightarrow>
       (\<exists>k c. pm_key s = Some k \<and> (k, c, q) \<in> set (pm_quoted s) \<and> payable list_total s = qt_total_amount q \<and>
          promo_code_sent s = qt_promo_code q)) \<and>
    (checking_shown s \<longrightarrow> pm_calls s \<noteq> [] \<or> stale s)"
proof -
  note ok = promo_run_ok [OF assms]
  have "\<exists>k c. pm_key s = Some k \<and> (k, c, q) \<in> set (pm_quoted s) \<and> payable list_total s = qt_total_amount q \<and>
      promo_code_sent s = qt_promo_code q" if "applied_quote s = Some q" for q
  proof -
    from that obtain k where k: "pm_quote s = Some (k, q)" "quote_applies (pm_key s) k"
      by (auto simp: applied_quote_def split: option.splits if_splits)
    moreover from promo_okD(1) [OF ok k(1)] obtain c where "(k, c, q) \<in> set (pm_quoted s)" ..
    ultimately show ?thesis
      using that by (auto simp: quote_applies_def payable_def payableTotal_def promo_code_sent_def)
  qed
  moreover have "applied_quote s = None \<longrightarrow> payable list_total s = list_total \<and> promo_code_sent s = None"
    by (auto simp: applied_quote_def payable_def payableTotal_def promo_code_sent_def split: option.splits)
  ultimately show ?thesis using promo_okD(2) [OF ok] by (auto simp: checking_shown_def)
qed

text \<open>
  The contract of a confirmation that hosts the promo code: in every state it reaches the code's state is
  sound and has been rendered with the key of the order on screen.  Then what it shows and sends is priced.
\<close>

locale priced_confirmation =
  fixes reach :: "'s \<Rightarrow> bool"
    and promo_of :: "'s \<Rightarrow> promo"
    and key_of :: "'s \<Rightarrow> jstr option"
  assumes promo_sound: "reach s \<Longrightarrow> promo_ok (promo_of s)"
    and key_rendered: "reach s \<Longrightarrow> pm_key (promo_of s) = key_of s"
begin

lemma shown_price:
  assumes "reach s"
  shows "payable list_total (promo_of s) = list_total \<and> promo_code_sent (promo_of s) = None \<or>
    (\<exists>k c q. key_of s = Some k \<and> (k, c, q) \<in> set (pm_quoted (promo_of s)) \<and>
       payable list_total (promo_of s) = qt_total_amount q \<and> promo_code_sent (promo_of s) = qt_promo_code q)"
proof (cases "applied_quote (promo_of s)")
  case None
  then show ?thesis
    by (auto simp: applied_quote_def payable_def payableTotal_def promo_code_sent_def split: option.splits if_splits)
next
  case (Some q)
  then obtain k where k: "pm_quote (promo_of s) = Some (k, q)" "quote_applies (pm_key (promo_of s)) k"
    by (auto simp: applied_quote_def split: option.splits if_splits)
  moreover from promo_okD(1) [OF promo_sound [OF assms] k(1)] obtain c where "(k, c, q) \<in> set (pm_quoted (promo_of s))" ..
  ultimately show ?thesis
    using Some key_rendered [OF assms] by (auto simp: quote_applies_def payable_def payableTotal_def promo_code_sent_def)
qed

lemma code_needs_order: "reach s \<Longrightarrow> promo_code_sent (promo_of s) = Some c \<Longrightarrow> key_of s \<noteq> None"
  using shown_price [of s 0] by auto

end

text \<open>Two changes of the order in a row while its code is applied, then the answer for the first.\<close>

definition two_changes :: "(jstr \<Rightarrow> jstr) \<Rightarrow> jstr \<Rightarrow> jstr \<Rightarrow> quote \<Rightarrow> promo \<Rightarrow> promo" where
  "two_changes upper b c q s =
     (let s1 = run_effect upper (render_body (Some b) s);
          s2 = run_effect upper (render_body (Some c) s1)
      in run_effect upper (promo_answer (b, normalizePromoCode upper (pm_input s)) (Inr q) s2))"

text \<open>C23: when the order changes twice while a code is applied, the second time before the
  first new quote has arrived, that quote is for neither order: nothing is asked for any more, yet the
  code is shown as being checked, with the confirmation disabled, and rendering again changes nothing.\<close>

theorem recheck_lost:
  assumes "pm_quote s = Some (a, q0)" and "pm_key s = Some a" and "pm_deps s = (False, Some a)" and "pm_active s" and "\<not> pm_checking s" and "pm_calls s = []"
    and "normalizePromoCode upper (pm_input s) \<noteq> []"
    and "distinct [a, b, c]" and "b \<noteq> []" and "c \<noteq> []"
  shows "pm_calls (two_changes upper b c q s) = [] \<and> checking_shown (two_changes upper b c q s) \<and>
    applied_quote (two_changes upper b c q s) = None \<and>
    run_effect upper (render_body (Some c) (two_changes upper b c q s)) = two_changes upper b c q s"
proof -
  define code where "code = normalizePromoCode upper (pm_input s)"
  define asked where "asked = s \<lparr> pm_checking := True, pm_error := None, pm_calls := [(b, code)] \<rparr>"
  have first: "run_effect upper (render_body (Some b) s) = asked \<lparr> pm_key := Some b, pm_deps := (True, Some b) \<rparr>"
    using assms by (auto simp: render_body_def run_effect_def stale_def apply_code_def Let_def code_def asked_def)
  have second: "run_effect upper (render_body (Some c) (asked \<lparr> pm_key := Some b, pm_deps := (True, Some b) \<rparr>)) =
      asked \<lparr> pm_key := Some c, pm_deps := (True, Some c) \<rparr>"
    using assms by (auto simp: render_body_def run_effect_def stale_def Let_def asked_def)
  have "two_changes upper b c q s = asked \<lparr> pm_key := Some c, pm_deps := (True, Some c), pm_calls := [], pm_checking := False,
      pm_quote := Some (b, q), pm_input := code, pm_quoted := pm_quoted s @ [(b, code, q)] \<rparr>" (is "_ = ?end")
    unfolding two_changes_def Let_def first second
    using assms by (auto simp: promo_answer_def run_effect_def stale_def Let_def asked_def code_def)
  moreover have "pm_calls ?end = [] \<and> checking_shown ?end \<and> applied_quote ?end = None \<and> run_effect upper (render_body (Some c) ?end) = ?end"
    using assms by (auto simp: checking_shown_def stale_def applied_quote_def quote_applies_def render_body_def run_effect_def
        asked_def Let_def)
  ultimately show ?thesis by simp
qed

text \<open>C24: a code being checked when the confirmation is closed comes back: its
  quote arrives after the form was cleared, and the confirmation, opened again for the same order,
  starts with the code typed and applied.\<close>

theorem promo_back_after_close:
  assumes "pm_key s = Some k" and "k \<noteq> []" and "pm_active s" and "call \<in> set (pm_calls s)" and "fst call = k"
  shows "pm_input (run_effect upper (render_body None s)) = [] \<and> pm_quote (run_effect upper (render_body None s)) = None \<and>
    (let closed = run_effect upper (render_body None s);
         opened = run_effect upper (render_body (Some k) (run_effect upper (promo_answer call (Inr q) closed)))
     in applied_quote opened = Some q \<and> pm_input opened = snd call)"
proof -
  have "run_effect upper (render_body None s) = (promo_reset s) \<lparr> pm_key := None, pm_active := False, pm_deps := (False, None) \<rparr>"
    using assms by (auto intro!: promo.equality simp: render_body_def run_effect_def stale_def promo_reset_def Let_def)
  then show ?thesis
    using assms by (simp add: promo_reset_def promo_answer_def render_body_def run_effect_def stale_def applied_quote_def
        quote_applies_def Let_def)
qed

text \<open>A code applied to one order, reached from an open confirmation.\<close>

definition sample_quote :: quote where
  "sample_quote = \<lparr> qt_subtotal_amount = 100, qt_discount_amount = 10, qt_total_amount = 90, qt_promo_code = Some (js ''SALE'') \<rparr>"

definition sample_asked :: promo where
  "sample_asked = run_effect id (apply_code id (run_effect id (setInput (js ''SALE'') (promo_start (Some (js ''a''))))))"

definition sample_applied :: promo where
  "sample_applied = run_effect id (promo_answer (js ''a'', js ''SALE'') (Inr sample_quote) sample_asked)"

lemma normalize_sale: "normalizePromoCode id (js ''SALE'') = js ''SALE''"
proof -
  have "trimmed (js ''SALE'')" by (simp add: trimmed_def js_space_def)
  then show ?thesis by (simp add: normalizePromoCode_def trimmed_js_trim_id del: js_Cons)
qed

lemma sample_asked_eq:
  "sample_asked = (promo_start (Some (js ''a''))) \<lparr> pm_input := js ''SALE'', pm_checking := True, pm_calls := [(js ''a'', js ''SALE'')] \<rparr>"
proof -
  have "run_effect id (setInput (js ''SALE'') (promo_start (Some (js ''a'')))) = (promo_start (Some (js ''a''))) \<lparr> pm_input := js ''SALE'' \<rparr>"
    by (simp add: setInput_def promo_start_def run_effect_def stale_def)
  then show ?thesis
    unfolding sample_asked_def
    by (simp add: apply_code_def promo_start_def run_effect_def stale_def normalize_sale Let_def del: js_Cons)
qed

lemma sample_applied_eq:
  "sample_applied = (promo_start (Some (js ''a''))) \<lparr> pm_input := js ''SALE'', pm_quote := Some (js ''a'', sample_quote),
     pm_quoted := [(js ''a'', js ''SALE'', sample_quote)] \<rparr>"
  unfolding sample_applied_def sample_asked_eq
  by (simp add: promo_answer_def promo_start_def run_effect_def stale_def Let_def del: js_Cons)

lemma sample_promo_runs: "promo_run id sample_asked" "promo_run id sample_applied"
proof -
  show asked: "promo_run id sample_asked"
    unfolding sample_asked_def by (rule promo_next [OF promo_next [OF promo_init promo_input] promo_apply])
  have "(js ''a'', js ''SALE'') \<in> set (pm_calls sample_asked)" by (simp add: sample_asked_eq)
  then show "promo_run id sample_applied"
    unfolding sample_applied_def by (rule promo_next [OF asked promo_answered])
qed

lemma payable_is_quoted_witness:
  "promo_run id sample_applied \<and> payable 100 sample_applied = 90 \<and> promo_code_sent sample_applied = Some (js ''SALE'')"
proof -
  have "applied_quote sample_applied = Some sample_quote"
    by (simp add: sample_applied_eq applied_quote_def quote_applies_def promo_start_def)
  then have "payable 100 sample_applied = qt_total_amount sample_quote \<and> promo_code_sent sample_applied = qt_promo_code sample_quote"
    using payable_is_quoted [OF sample_promo_runs(2), of 100] by blast
  then show ?thesis using sample_promo_runs(2) by (simp add: sample_quote_def)
qed

lemma recheck_lost_witness:
  "promo_run id sample_applied \<and> pm_calls (two_changes id (js ''b'') (js ''c'') sample_quote sample_applied) = [] \<and>
   checking_shown (two_changes id (js ''b'') (js ''c'') sample_quote sample_applied)"
  using recheck_lost [of sample_applied "js ''a''" sample_quote id "js ''b''" "js ''c''" sample_quote] sample_promo_runs(2)
  by (simp add: sample_applied_eq promo_start_def normalize_sale js_eq_iff del: js_Cons)

lemma promo_back_after_close_witness:
  "promo_run id sample_asked \<and> pm_input (run_effect id (render_body None sample_asked)) = []"
  using promo_back_after_close [of sample_asked "js ''a''" "(js ''a'', js ''SALE'')" id sample_quote] sample_promo_runs(1)
  by (simp add: sample_asked_eq promo_start_def Let_def)

section \<open>Quantity of configurable products\<close>

record quantity_options =
  qo_strategy :: "jstr option"
  qo_adapter_type :: "jstr option"
  qo_max_quantity :: "jsnum option"

datatype quantity_control = Stepper int bool | Single | NoQuantity

definition isAutoProxy :: "quantity_options \<Rightarrow> bool" where
  "isAutoProxy options \<longleftrightarrow> qo_adapter_type options = Some (js ''auto_proxy'')"

definition isPoolProxy :: "quantity_options \<Rightarrow> bool" where
  "isPoolProxy options \<longleftrightarrow> isAutoProxy options \<and> qo_strategy options = Some (js ''credit'')"

definition perOrderMax :: "jsnum option \<Rightarrow> int" where
  "perOrderMax maxQuantity =
     (case maxQuantity of Some (Fin r) \<Rightarrow> max 1 (min \<lfloor>r\<rfloor> MAX_ORDER_QUANTITY) | _ \<Rightarrow> MAX_ORDER_QUANTITY)"

definition quantityControl :: "quantity_options \<Rightarrow> quantity_control" where
  "quantityControl options =
     (if isAutoProxy options
      then if isPoolProxy options \<or> qo_max_quantity options = None then Single
           else let m = perOrderMax (qo_max_quantity options) in if 1 < m then Stepper m True else Single
      else if qo_strategy options = Some (js ''task'') \<or> qo_strategy options = Some (js ''credit'') then NoQuantity
      else Stepper (perOrderMax (qo_max_quantity options)) False)"

definition clampQuantity :: "jsnum \<Rightarrow> int \<Rightarrow> int" where
  "clampQuantity value m = (let whole = (case value of Fin r \<Rightarrow> \<lfloor>r\<rfloor> | _ \<Rightarrow> 1) in max 1 (min whole (max 1 m)))"

definition orderQuantity :: "quantity_control \<Rightarrow> jsnum \<Rightarrow> int" where
  "orderQuantity control picked = (case control of Stepper m _ \<Rightarrow> clampQuantity picked m | _ \<Rightarrow> 1)"

definition orderConfig :: "params \<Rightarrow> quantity_options \<Rightarrow> int \<Rightarrow> params" where
  "orderConfig config options quantity =
     (let c = AList.update (js ''quantity'') (JNum (Fin (of_int quantity))) config
      in if isPoolProxy options then AList.update (js ''package_size'') (JNum (Fin 1)) c else c)"

lemma perOrderMax_range: "1 \<le> perOrderMax m \<and> perOrderMax m \<le> MAX_ORDER_QUANTITY"
  by (auto simp: perOrderMax_def MAX_ORDER_QUANTITY_def split: option.split jsnum.split)

lemma clampQuantity_range: "1 \<le> clampQuantity picked m \<and> (1 \<le> m \<longrightarrow> clampQuantity picked m \<le> m)"
  by (simp add: clampQuantity_def Let_def)

lemma quantityControl_forms:
  "quantityControl options = Single \<or> quantityControl options = NoQuantity \<or>
   (\<exists>p. quantityControl options = Stepper (perOrderMax (qo_max_quantity options)) p)"
  by (auto simp: quantityControl_def Let_def)

lemma orderQuantity_range:
  "1 \<le> orderQuantity (quantityControl options) picked \<and> orderQuantity (quantityControl options) picked \<le> MAX_ORDER_QUANTITY"
  using quantityControl_forms [of options] perOrderMax_range [of "qo_max_quantity options"]
    clampQuantity_range [of picked "perOrderMax (qo_max_quantity options)"]
  by (auto simp: orderQuantity_def MAX_ORDER_QUANTITY_def)

text \<open>Whatever number is typed, also none or an infinite one, the order of
  a configurable product carries a whole quantity between one and the marketplace's limit, not above
  the limit its source announces when that is at least one, and exactly one for a proxy from the pool,
  a proxy whose source announces no limit, a task and a request package.\<close>

theorem config_quantity_bounds:
  "1 \<le> orderQuantity (quantityControl options) picked \<and> orderQuantity (quantityControl options) picked \<le> MAX_ORDER_QUANTITY \<and>
   (qo_max_quantity options = Some (Fin r) \<longrightarrow> orderQuantity (quantityControl options) picked \<le> max 1 \<lfloor>r\<rfloor>) \<and>
   (isPoolProxy options \<or> isAutoProxy options \<and> qo_max_quantity options = None \<or>
      \<not> isAutoProxy options \<and> qo_strategy options \<in> {Some (js ''task''), Some (js ''credit'')} \<longrightarrow>
    orderQuantity (quantityControl options) picked = 1)"
proof (intro conjI impI)
  show "1 \<le> orderQuantity (quantityControl options) picked" "orderQuantity (quantityControl options) picked \<le> MAX_ORDER_QUANTITY"
    using orderQuantity_range by simp_all
  show "orderQuantity (quantityControl options) picked \<le> max 1 \<lfloor>r\<rfloor>" if "qo_max_quantity options = Some (Fin r)"
    using quantityControl_forms [of options] clampQuantity_range [of picked "perOrderMax (qo_max_quantity options)"] that
    by (auto simp: orderQuantity_def perOrderMax_def)
  show "orderQuantity (quantityControl options) picked = 1"
    if "isPoolProxy options \<or> isAutoProxy options \<and> qo_max_quantity options = None \<or>
      \<not> isAutoProxy options \<and> qo_strategy options \<in> {Some (js ''task''), Some (js ''credit'')}"
    using that by (auto simp: quantityControl_def isPoolProxy_def orderQuantity_def)
qed

lemma config_quantity_bounds_witness:
  "orderQuantity (quantityControl \<lparr> qo_strategy = Some (js ''config''), qo_adapter_type = Some (js ''auto_proxy''),
     qo_max_quantity = Some (Fin 7) \<rparr>) PosInf \<le> 7"
  using config_quantity_bounds [of "\<lparr> qo_strategy = Some (js ''config''), qo_adapter_type = Some (js ''auto_proxy''),
     qo_max_quantity = Some (Fin 7) \<rparr>" PosInf 7] by simp

section \<open>The lowest price a card promises\<close>

record priced_variant = stock_hint +
  pv_price :: int

record priced_product =
  pp_variants :: "priced_variant list option"
  pp_pricing_strategy :: "jstr option"
  pp_pricing_params :: "params option"

definition positive_number :: "json \<Rightarrow> rat list" where
  "positive_number v = (case v of JNum (Fin r) \<Rightarrow> if 0 < r then [r] else [] | _ \<Rightarrow> [])"

definition positive_numbers :: "json list \<Rightarrow> rat list" where
  "positive_numbers vs = concat (map positive_number vs)"

definition smallest :: "rat list \<Rightarrow> rat option" where
  "smallest xs = (case xs of [] \<Rightarrow> None | _ \<Rightarrow> Some (Min (set xs)))"

text \<open>\<open>Object.values\<close> of a record or an array.\<close>

definition json_values :: "json option \<Rightarrow> json list" where
  "json_values v = (case v of Some (JObj es) \<Rightarrow> map snd es | Some (JArr xs) \<Rightarrow> xs | _ \<Rightarrow> [])"

definition minOfMult :: "json option \<Rightarrow> rat" where
  "minOfMult m = (case smallest (positive_numbers (json_values m)) of None \<Rightarrow> 1 | Some x \<Rightarrow> x)"

definition number_field :: "params \<Rightarrow> string \<Rightarrow> rat" where
  "number_field p k = (case map_of p (js k) of Some (JNum (Fin r)) \<Rightarrow> r | _ \<Rightarrow> 0)"

definition field_of_items :: "params \<Rightarrow> string \<Rightarrow> string \<Rightarrow> rat list" where
  "field_of_items p k f =
     concat (map (\<lambda>d. case map_of (json_record (Some d)) (js f) of None \<Rightarrow> [] | Some v \<Rightarrow> positive_number v) (json_array (map_of p (js k))))"

definition configMinPrice :: "params \<Rightarrow> rat" where
  "configMinPrice p =
     (case smallest (positive_numbers (map snd (json_record (map_of p (js ''plan_prices''))))) of
        Some m \<Rightarrow> m
      | None \<Rightarrow>
          let base = number_field p ''base_price'' in
          if base \<le> 0 then 0
          else let minDays = (case smallest (field_of_items p ''duration_options'' ''days'') of None \<Rightarrow> 30 | Some d \<Rightarrow> d)
               in of_int (js_round (base * minOfMult (map_of p (js ''type_mult'')) * minOfMult (map_of p (js ''network_mult'')) * (minDays / 30))))"

definition creditMinPrice :: "params \<Rightarrow> rat" where
  "creditMinPrice p =
     (let u = number_field p ''credit_price''
      in case smallest (field_of_items p ''packages'' ''size'') of
           None \<Rightarrow> 0 | Some s \<Rightarrow> if 0 < u then u * s else 0)"

definition effectiveMinPrice :: "priced_product \<Rightarrow> rat" where
  "effectiveMinPrice p =
     (let priced = filter (\<lambda>v. is_active v \<noteq> Some False \<and> 0 < pv_price v) (case pp_variants p of None \<Rightarrow> [] | Some vs \<Rightarrow> vs);
          orderable = filter (\<lambda>v. variantPurchasable (stock_hint.truncate v)) priced;
          pool = (if orderable \<noteq> [] then orderable else priced)
      in if pool \<noteq> [] then of_int (Min (set (map pv_price pool)))
         else case pp_pricing_params p of
           None \<Rightarrow> 0
         | Some ps \<Rightarrow>
             if pp_pricing_strategy p = Some (js ''config'') then configMinPrice ps
             else if pp_pricing_strategy p = Some (js ''credit'') then creditMinPrice ps
             else number_field ps ''base_price'')"

definition isAdapterFulfilled :: "priced_product \<Rightarrow> bool" where
  "isAdapterFulfilled p \<longleftrightarrow> pp_pricing_strategy p \<noteq> None \<and> pp_pricing_strategy p \<noteq> Some (js ''fixed'')"

lemma positive_numbers_pos: "r \<in> set (positive_numbers vs) \<Longrightarrow> 0 < r"
  by (auto simp: positive_numbers_def positive_number_def split: json.splits jsnum.splits if_splits)

lemma field_of_items_pos: "r \<in> set (field_of_items p k f) \<Longrightarrow> 0 < r"
  by (auto simp: field_of_items_def positive_number_def split: option.splits json.splits jsnum.splits if_splits)

lemma smallest_least: "smallest xs = Some m \<longleftrightarrow> m \<in> set xs \<and> (\<forall>x \<in> set xs. m \<le> x)"
proof (cases xs)
  case (Cons y ys)
  have "Min (set xs) = m \<longleftrightarrow> m \<in> set xs \<and> (\<forall>x \<in> set xs. m \<le> x)"
    by (rule Min_eq_iff) (simp_all add: Cons)
  moreover have "smallest xs = Some (Min (set xs))" by (simp add: smallest_def Cons)
  ultimately show ?thesis by simp
qed (simp add: smallest_def)

lemma smallest_exists: "xs \<noteq> [] \<Longrightarrow> \<exists>m. smallest xs = Some m"
  by (cases xs) (auto simp: smallest_def)

text \<open>The multipliers a buyer may choose: those of the table, or none.\<close>

definition multipliers :: "json option \<Rightarrow> rat set" where
  "multipliers m = (let xs = positive_numbers (json_values m) in if xs = [] then {1} else set xs)"

definition durations :: "params \<Rightarrow> rat set" where
  "durations p = (let xs = field_of_items p ''duration_options'' ''days'' in if xs = [] then {30} else set xs)"

lemma minOfMult_least: "minOfMult m \<in> multipliers m \<and> 0 < minOfMult m \<and> (\<forall>x \<in> multipliers m. minOfMult m \<le> x)"
proof (cases "positive_numbers (json_values m) = []")
  case False
  then obtain x where "smallest (positive_numbers (json_values m)) = Some x" using smallest_exists by blast
  moreover from this have "x \<in> set (positive_numbers (json_values m)) \<and> (\<forall>y \<in> set (positive_numbers (json_values m)). x \<le> y)"
    by (simp add: smallest_least)
  ultimately show ?thesis using False positive_numbers_pos by (auto simp: minOfMult_def multipliers_def)
qed (simp add: minOfMult_def multipliers_def smallest_def)

text \<open>The price a card promises for a product priced by formula is the
  cheapest a buyer can pay: no choice of type, network and duration of the product costs less, and one
  choice costs exactly that.\<close>

theorem card_price_is_cheapest:
  assumes "positive_numbers (map snd (json_record (map_of p (js ''plan_prices'')))) = []"
    and "0 < number_field p ''base_price''"
  shows "(\<forall>t \<in> multipliers (map_of p (js ''type_mult'')). \<forall>n \<in> multipliers (map_of p (js ''network_mult'')). \<forall>d \<in> durations p.
      configMinPrice p \<le> of_int (js_round (number_field p ''base_price'' * t * n * (d / 30)))) \<and>
    (\<exists>t \<in> multipliers (map_of p (js ''type_mult'')). \<exists>n \<in> multipliers (map_of p (js ''network_mult'')). \<exists>d \<in> durations p.
      configMinPrice p = of_int (js_round (number_field p ''base_price'' * t * n * (d / 30))))"
proof -
  define base where "base = number_field p ''base_price''"
  define t0 where "t0 = minOfMult (map_of p (js ''type_mult''))"
  define n0 where "n0 = minOfMult (map_of p (js ''network_mult''))"
  define d0 where "d0 = (case smallest (field_of_items p ''duration_options'' ''days'') of None \<Rightarrow> 30 | Some d \<Rightarrow> d)"
  have t0: "t0 \<in> multipliers (map_of p (js ''type_mult''))" "0 < t0" "\<And>t. t \<in> multipliers (map_of p (js ''type_mult'')) \<Longrightarrow> t0 \<le> t"
    and n0: "n0 \<in> multipliers (map_of p (js ''network_mult''))" "0 < n0" "\<And>n. n \<in> multipliers (map_of p (js ''network_mult'')) \<Longrightarrow> n0 \<le> n"
    using minOfMult_least by (auto simp: t0_def n0_def)
  have d0: "d0 \<in> durations p" "0 < d0" "\<And>d. d \<in> durations p \<Longrightarrow> d0 \<le> d"
  proof -
    have "d0 \<in> durations p \<and> 0 < d0 \<and> (\<forall>d \<in> durations p. d0 \<le> d)"
    proof (cases "field_of_items p ''duration_options'' ''days'' = []")
      case False
      then obtain x where "smallest (field_of_items p ''duration_options'' ''days'') = Some x" using smallest_exists by blast
      moreover from this have "x \<in> set (field_of_items p ''duration_options'' ''days'') \<and>
          (\<forall>y \<in> set (field_of_items p ''duration_options'' ''days''). x \<le> y)"
        by (simp add: smallest_least)
      ultimately show ?thesis using False field_of_items_pos by (auto simp: d0_def durations_def)
    qed (simp add: d0_def durations_def smallest_def)
    then show "d0 \<in> durations p" "0 < d0" "\<And>d. d \<in> durations p \<Longrightarrow> d0 \<le> d" by auto
  qed
  have price: "configMinPrice p = of_int (js_round (base * t0 * n0 * (d0 / 30)))"
    using assms by (simp add: configMinPrice_def smallest_def Let_def base_def t0_def n0_def d0_def del: js_Cons)
  have "base * t0 * n0 * (d0 / 30) \<le> base * t * n * (d / 30)"
    if "t0 \<le> t" "n0 \<le> n" "d0 \<le> d" for t n d
    using assms(2) t0(2) n0(2) d0(2) that by (intro mult_mono) (auto simp: base_def intro!: mult_nonneg_nonneg)
  then have "configMinPrice p \<le> of_int (js_round (base * t * n * (d / 30)))"
    if "t \<in> multipliers (map_of p (js ''type_mult''))" "n \<in> multipliers (map_of p (js ''network_mult''))" "d \<in> durations p" for t n d
    unfolding price using js_round_mono that t0(3) n0(3) d0(3) by simp
  then show ?thesis using price t0(1) n0(1) d0(1) unfolding base_def by blast
qed

lemma card_price_is_cheapest_witness:
  "number_field [(js ''base_price'', JNum (Fin 60))] ''base_price'' = 60 \<and>
   (\<exists>t n d. configMinPrice [(js ''base_price'', JNum (Fin 60))] = of_int (js_round (60 * t * n * (d / 30))))"
proof -
  have "positive_numbers (map snd (json_record (map_of [(js ''base_price'', JNum (Fin 60))] (js ''plan_prices'')))) = []"
    by (simp add: js_eq_iff positive_numbers_def del: js_Cons)
  moreover have base: "number_field [(js ''base_price'', JNum (Fin 60))] ''base_price'' = 60" by (simp add: number_field_def)
  ultimately show ?thesis using card_price_is_cheapest [of "[(js ''base_price'', JNum (Fin 60))]"] by (simp only: base) auto
qed

text \<open>A listed product shows the cheapest package that can be ordered, or the cheapest there is.\<close>

lemma listed_price_cheapest:
  assumes "pp_variants p = Some vs" and "v \<in> set vs" and "is_active v \<noteq> Some False" and "0 < pv_price v"
    and "variantPurchasable (stock_hint.truncate v)"
  shows "effectiveMinPrice p \<le> of_int (pv_price v) \<and>
    (\<exists>w \<in> set vs. effectiveMinPrice p = of_int (pv_price w) \<and> variantPurchasable (stock_hint.truncate w))"
proof -
  let ?pool = "filter (\<lambda>v. variantPurchasable (stock_hint.truncate v)) (filter (\<lambda>v. is_active v \<noteq> Some False \<and> 0 < pv_price v) vs)"
  have v: "v \<in> set ?pool" using assms by simp
  then have "?pool \<noteq> []" by (metis list.set(1) empty_iff)
  then have "effectiveMinPrice p = of_int (Min (set (map pv_price ?pool)))"
    using assms(1) unfolding effectiveMinPrice_def by (simp only: Let_def option.case if_True not_False_eq_True simp_thms)
  moreover have "Min (set (map pv_price ?pool)) \<le> pv_price v" using v by (intro Min_le) (auto intro: image_eqI)
  moreover have "Min (set (map pv_price ?pool)) \<in> set (map pv_price ?pool)" using v by (intro Min_in) auto
  ultimately show ?thesis by auto
qed

text \<open>The shortfall is the smallest whole top-up that covers the total.\<close>

lemma shortfall_covers:
  "total' \<le> a + of_int (walletShortfall total' (Some (Fin a))) \<and>
   (\<forall>n. 0 \<le> n \<and> total' \<le> a + of_int n \<longrightarrow> walletShortfall total' (Some (Fin a)) \<le> n)"
proof (intro conjI allI impI)
  have "total' - a \<le> of_int \<lceil>total' - a\<rceil>" by simp
  then show "total' \<le> a + of_int (walletShortfall total' (Some (Fin a)))"
    by (simp add: walletShortfall_def max_def) linarith
  show "walletShortfall total' (Some (Fin a)) \<le> n" if "0 \<le> n \<and> total' \<le> a + of_int n" for n
    using that by (simp add: walletShortfall_def ceiling_le_iff)
qed

end
