(* ===== verification/Order_Panel.thy ===== *)
theory Order_Panel
  imports Checkout
begin

text \<open>
  The order panel of a product with packages (app/[locale]/products/[key]/OrderPanel.tsx): it puts the
  order form of Purchase, the promo code of Checkout and the wallet together.  The panel renders after
  every event: the promo code then gets the key of the order that is on screen, and its effect runs.
  The button of the page opens the confirmation, the button of the confirmation places the order.
\<close>

section \<open>The panel\<close>

text \<open>
  \<open>pa_confirmed\<close> is the history of the clicks on the confirmation's button: the request that was sent,
  the total the button named, and the balance that was shown.
\<close>

record 'o panel =
  pa_purchase :: "'o purchase"
  pa_promo :: promo
  pa_available :: "jsnum option"
  pa_account :: bool
  pa_frozen :: bool
  pa_confirmed :: "(order_request \<times> int \<times> jsnum option) list"

definition order_body :: "variant \<Rightarrow> int \<Rightarrow> params" where
  "order_body v n =
     [(js ''variant_id'', JNum (Fin (of_int (va_id v)))), (js ''quantity'', JNum (Fin (of_int n))),
      (js ''expected_unit_price'', JNum (Fin (of_int (va_price v))))]"

definition panel_body :: "'o purchase \<Rightarrow> params option" where
  "panel_body p =
     (case selected_of p of None \<Rightarrow> None | Some v \<Rightarrow> if pu_showConfirm p then Some (order_body v (qty_of p)) else None)"

definition panel_key :: "(params \<Rightarrow> jstr) \<Rightarrow> 'o purchase \<Rightarrow> jstr option" where
  "panel_key stringify p = promoQuoteKey stringify (panel_body p)"

definition panel_render :: "(jstr \<Rightarrow> jstr) \<Rightarrow> (params \<Rightarrow> jstr) \<Rightarrow> 'o panel \<Rightarrow> 'o panel" where
  "panel_render upper stringify s =
     s \<lparr> pa_promo := run_effect upper (render_body (panel_key stringify (pa_purchase s)) (pa_promo s)) \<rparr>"

definition panel_payable :: "'o panel \<Rightarrow> int" where
  "panel_payable s = payable (total_of (pa_purchase s)) (pa_promo s)"

definition panel_shortfall :: "'o panel \<Rightarrow> int" where
  "panel_shortfall s = walletShortfall (of_int (panel_payable s)) (pa_available s)"

definition panel_cta :: "'o panel \<Rightarrow> cta_state" where
  "panel_cta s = ctaState (pa_account s) (pu_placing (pa_purchase s)) (selected_of (pa_purchase s))"

text \<open>The page's button is there while no order is shown and the package has a price.\<close>

definition cta_clickable :: "'o panel \<Rightarrow> bool" where
  "cta_clickable s \<longleftrightarrow>
     pu_order (pa_purchase s) = None \<and> panelMode (selected_of (pa_purchase s)) \<noteq> PanelContact \<and>
     \<not> cta_disabled (panel_cta s) \<and> \<not> pa_frozen s"

definition onCtaClick :: "'o panel \<Rightarrow> 'o panel" where
  "onCtaClick s =
     (if cta_intent (panel_cta s) = IntentConfirm then s \<lparr> pa_purchase := openConfirm (pa_purchase s) \<rparr> else s)"

definition panel_close :: "'o panel \<Rightarrow> 'o panel" where
  "panel_close s = s \<lparr> pa_promo := promo_reset (pa_promo s), pa_purchase := closeConfirm (pa_purchase s) \<rparr>"

definition confirm_enabled :: "'o panel \<Rightarrow> bool" where
  "confirm_enabled s \<longleftrightarrow>
     pu_showConfirm (pa_purchase s) \<and> (\<exists>v \<in> set_option (selected_of (pa_purchase s)). purchasable v) \<and>
     \<not> pu_placing (pa_purchase s) \<and> \<not> checking_shown (pa_promo s) \<and> \<not> 0 < panel_shortfall s"

definition confirm_order :: "'o panel \<Rightarrow> 'o panel" where
  "confirm_order s =
     (let p = buy (promo_code_sent (pa_promo s)) (pa_purchase s)
      in s \<lparr> pa_purchase := p,
             pa_confirmed := pa_confirmed s @ [(last (pu_sent p), panel_payable s, pa_available s)] \<rparr>)"

definition panel_start :: "bool \<Rightarrow> variant list \<Rightarrow> 'o panel" where
  "panel_start account variants =
     \<lparr> pa_purchase = purchase_start (Some variants), pa_promo = promo_start None, pa_available = None, pa_account = account,
       pa_frozen = False, pa_confirmed = [] \<rparr>"

text \<open>What happens to the panel between two renders.\<close>

inductive panel_event :: "(jstr \<Rightarrow> jstr) \<Rightarrow> 'o panel \<Rightarrow> 'o panel \<Rightarrow> bool" for upper where
  event_pick: "panel_event upper s (s \<lparr> pa_purchase := pickVariant v (pa_purchase s) \<rparr>)"
| event_qty: "panel_event upper s (s \<lparr> pa_purchase := setQty n (pa_purchase s) \<rparr>)"
| event_cta: "cta_clickable s \<Longrightarrow> panel_event upper s (onCtaClick s)"
| event_close: "panel_event upper s (panel_close s)"
| event_confirm: "confirm_enabled s \<Longrightarrow> panel_event upper s (confirm_order s)"
| event_answer: "(r, AwaitOrder) \<in> set (pu_calls (pa_purchase s)) \<Longrightarrow>
    panel_event upper s (s \<lparr> pa_purchase := order_answer r a (pa_purchase s) \<rparr>)"
| event_reloaded: "(r, AwaitReload) \<in> set (pu_calls (pa_purchase s)) \<Longrightarrow>
    panel_event upper s (s \<lparr> pa_purchase := reload_answer r (pa_purchase s) \<rparr>)"
| event_product: "panel_event upper s (s \<lparr> pa_purchase := product_loaded (Some vs) (pa_purchase s) \<rparr>)"
| event_rebuy: "panel_event upper s (s \<lparr> pa_purchase := rebuy (pa_purchase s) \<rparr>)"
| event_input: "panel_event upper s (s \<lparr> pa_promo := setInput t (pa_promo s) \<rparr>)"
| event_apply: "panel_event upper s (s \<lparr> pa_promo := apply_code upper (pa_promo s) \<rparr>)"
| event_remove: "panel_event upper s (s \<lparr> pa_promo := promo_reset (pa_promo s) \<rparr>)"
| event_quote: "call \<in> set (pm_calls (pa_promo s)) \<Longrightarrow>
    panel_event upper s (s \<lparr> pa_promo := promo_answer call q (pa_promo s) \<rparr>)"
| event_wallet: "panel_event upper s (s \<lparr> pa_available := w \<rparr>)"
| event_site: "panel_event upper s (s \<lparr> pa_account := account, pa_frozen := frozen \<rparr>)"

inductive panel_run :: "(jstr \<Rightarrow> jstr) \<Rightarrow> (params \<Rightarrow> jstr) \<Rightarrow> 'o panel \<Rightarrow> bool" for upper stringify where
  panel_init: "panel_run upper stringify (panel_start account variants)"
| panel_next: "panel_run upper stringify s \<Longrightarrow> panel_event upper s t \<Longrightarrow> panel_run upper stringify (panel_render upper stringify t)"

section \<open>What rendering keeps\<close>

text \<open>The promo code after a render: sound, with the key and the dependencies of that render.\<close>

definition promo_rendered :: "jstr option \<Rightarrow> promo \<Rightarrow> bool" where
  "promo_rendered key m \<longleftrightarrow> promo_ok m \<and> pm_key m = key \<and> pm_deps m = (stale m, key) \<and> pm_active m = (key \<noteq> None)"

lemma stale_same: "pm_quote m = pm_quote n \<Longrightarrow> pm_key m = pm_key n \<Longrightarrow> stale m = stale n"
  by (simp only: stale_def)

lemma apply_code_keeps:
  "pm_key (apply_code upper m) = pm_key m" "pm_deps (apply_code upper m) = pm_deps m" "pm_active (apply_code upper m) = pm_active m"
  "pm_quote (apply_code upper m) = pm_quote m" "pm_quoted (apply_code upper m) = pm_quoted m"
  by (simp_all add: apply_code_def Let_def split: option.split)

lemma render_rendered: "promo_ok m \<Longrightarrow> promo_rendered key (run_effect upper (render_body key m))"
proof -
  assume ok: "promo_ok m"
  have "pm_key (render_body key m) = key" "pm_active (render_body key m) = (key \<noteq> None)"
    by (auto simp: render_body_def promo_reset_def Let_def)
  moreover have "stale (x \<lparr> pm_deps := d \<rparr>) = stale x" "stale (apply_code upper (x \<lparr> pm_deps := d \<rparr>)) = stale x" for x d
    by (rule stale_same; simp add: apply_code_keeps)+
  ultimately have "pm_key (run_effect upper (render_body key m)) = key \<and>
      pm_deps (run_effect upper (render_body key m)) = (stale (run_effect upper (render_body key m)), key) \<and>
      pm_active (run_effect upper (render_body key m)) = (key \<noteq> None)"
    by (simp add: run_effect_def Let_def apply_code_keeps)
  with ok show ?thesis by (simp add: promo_rendered_def run_effect_ok render_body_ok)
qed

lemma render_quoted: "pm_quoted (run_effect upper (render_body key m)) = pm_quoted m"
  by (simp add: run_effect_def render_body_def promo_reset_def Let_def apply_code_keeps)

lemma promo_act_ok:
  assumes "promo_ok m"
  shows "promo_ok (setInput t m)" "promo_ok (promo_reset m)"
  using assms by (auto intro!: promo_okI simp: setInput_def promo_reset_def dest: promo_okD)

lemma promo_act_quoted:
  "pm_quoted (setInput t m) = pm_quoted m" "pm_quoted (promo_reset m) = pm_quoted m"
  "set (pm_quoted m) \<subseteq> set (pm_quoted (promo_answer call a m))"
  by (auto simp: setInput_def promo_reset_def promo_answer_def Let_def split: sum.split)

lemma purchase_act_sent:
  "pu_sent (pickVariant v p) = pu_sent p" "pu_sent (setQty n p) = pu_sent p" "pu_sent (openConfirm p) = pu_sent p"
  "pu_sent (closeConfirm p) = pu_sent p" "pu_sent (rebuy p) = pu_sent p" "pu_sent (product_loaded x p) = pu_sent p"
  "pu_sent (reload_answer r p) = pu_sent p" "pu_sent (order_answer r a p) = pu_sent p"
  by (simp_all add: purchase_defs order_answer_def split: sum.split option.split)


lemma reload_ok: "purchase_ok p \<Longrightarrow> purchase_ok (reload_answer r p)"
  by (simp add: reload_answer_def end_call_ok)

lemma purchase_act_ok:
  assumes "purchase_ok p"
  shows "purchase_ok (pickVariant v p)" "purchase_ok (setQty n p)" "purchase_ok (openConfirm p)" "purchase_ok (closeConfirm p)"
    "purchase_ok (rebuy p)" "purchase_ok (product_loaded x p)"
  using assms by (auto intro!: purchase_okI simp: purchase_defs dest: purchase_okD)

lemma event_sound:
  "panel_event upper s t \<Longrightarrow> purchase_ok (pa_purchase s) \<and> promo_ok (pa_promo s) \<Longrightarrow> purchase_ok (pa_purchase t) \<and> promo_ok (pa_promo t)"
proof (induction rule: panel_event.induct)
  case (event_answer r s a)
  then show ?case by (simp add: answer_ok)
qed (simp_all add: purchase_act_ok promo_act_ok apply_code_ok promo_answer_ok reload_ok buy_ok onCtaClick_def panel_close_def
    confirm_order_def Let_def)

lemma panel_run_sound:
  "panel_run upper stringify s \<Longrightarrow>
   purchase_ok (pa_purchase s) \<and> promo_rendered (panel_key stringify (pa_purchase s)) (pa_promo s)"
proof (induction rule: panel_run.induct)
  case (panel_init account variants)
  have "purchase_ok (purchase_start (Some variants))" by (auto simp: purchase_start_def intro!: purchase_okI)
  moreover have "promo_ok (promo_start None)" by (rule promo_okI) (simp_all add: promo_start_def)
  moreover have "panel_key stringify (purchase_start (Some variants) :: 'a purchase) = None"
    by (simp add: panel_key_def panel_body_def purchase_start_def promoQuoteKey_def split: option.split)
  ultimately show ?case
    by (simp add: panel_start_def promo_rendered_def) (simp add: promo_start_def stale_def)
next
  case (panel_next s t)
  then have "purchase_ok (pa_purchase t) \<and> promo_ok (pa_promo t)"
    using event_sound by (auto simp: promo_rendered_def)
  then show ?case by (simp add: panel_render_def render_rendered)
qed

interpretation order_panel: priced_confirmation "panel_run upper stringify" pa_promo "\<lambda>s. panel_key stringify (pa_purchase s)"
  for upper stringify
proof unfold_locales
  show "promo_ok (pa_promo s)" "pm_key (pa_promo s) = panel_key stringify (pa_purchase s)" if "panel_run upper stringify s" for s
    using panel_run_sound [OF that] by (simp_all add: promo_rendered_def)
qed

section \<open>What is confirmed is what was shown\<close>

text \<open>The total named is the list price and there is no code, or the total the server quoted for this very order.\<close>

definition fairly_priced :: "(params \<Rightarrow> jstr) \<Rightarrow> (jstr \<times> jstr \<times> quote) set \<Rightarrow> order_request \<Rightarrow> int \<Rightarrow> bool" where
  "fairly_priced stringify quoted r shown \<longleftrightarrow>
     shown = rq_unit_price r * rq_quantity r \<and> rq_promo r = None \<or>
     (\<exists>k c q. promoQuoteKey stringify (Some (order_body (rq_variant r) (rq_quantity r))) = Some k \<and>
        (k, c, q) \<in> quoted \<and> shown = qt_total_amount q \<and> rq_promo r = qt_promo_code q)"

definition confirmed_ok :: "(params \<Rightarrow> jstr) \<Rightarrow> (jstr \<times> jstr \<times> quote) set \<Rightarrow> order_request \<times> int \<times> jsnum option \<Rightarrow> bool" where
  "confirmed_ok stringify quoted c \<longleftrightarrow>
     (case c of (r, shown, balance) \<Rightarrow>
        purchasable (rq_variant r) \<and> 1 \<le> rq_quantity r \<and> rq_unit_price r = va_price (rq_variant r) \<and>
        fairly_priced stringify quoted r shown \<and> (\<forall>a. balance = Some (Fin a) \<longrightarrow> of_int shown \<le> a))"

lemma fairly_priced_mono: "fairly_priced stringify quoted r shown \<Longrightarrow> quoted \<subseteq> quoted2 \<Longrightarrow> fairly_priced stringify quoted2 r shown"
  unfolding fairly_priced_def by blast

lemma confirmed_ok_mono: "confirmed_ok stringify quoted c \<Longrightarrow> quoted \<subseteq> quoted2 \<Longrightarrow> confirmed_ok stringify quoted2 c"
  by (auto simp: confirmed_ok_def fairly_priced_mono split: prod.splits)

lemma no_shortfall: "\<not> 0 < walletShortfall t (Some (Fin a)) \<Longrightarrow> t \<le> a"
proof -
  assume "\<not> 0 < walletShortfall t (Some (Fin a))"
  then have "\<lceil>t - a\<rceil> \<le> 0" by (simp add: walletShortfall_def less_max_iff_disj)
  then show "t \<le> a" by simp
qed

lemma confirm_now:
  assumes run: "panel_run upper stringify s" and on: "confirm_enabled s"
  shows "\<exists>r. pu_sent (pa_purchase (confirm_order s)) = pu_sent (pa_purchase s) @ [r] \<and>
    pa_confirmed (confirm_order s) = pa_confirmed s @ [(r, panel_payable s, pa_available s)] \<and>
    confirmed_ok stringify (set (pm_quoted (pa_promo s))) (r, panel_payable s, pa_available s)"
proof -
  from on obtain v where v: "selected_of (pa_purchase s) = Some v" "purchasable v"
    by (auto simp: confirm_enabled_def)
  let ?p = "pa_purchase s"
  define r where "r = \<lparr> rq_variant = v, rq_quantity = qty_of ?p, rq_unit_price = va_price v, rq_promo = promo_code_sent (pa_promo s) \<rparr>"
  have body: "panel_key stringify ?p = promoQuoteKey stringify (Some (order_body v (qty_of ?p)))"
    using on v by (simp add: panel_key_def panel_body_def confirm_enabled_def)
  have qty: "1 \<le> qty_of ?p"
    using clampQty_bounds [of "selected_of ?p" "pu_qtyRaw ?p"] minQty_pos [of "selected_of ?p"] by (simp add: qty_of_def)
  have "fairly_priced stringify (set (pm_quoted (pa_promo s))) r (panel_payable s)"
    using order_panel.shown_price [OF run, of "total_of ?p"] v(1)
    by (simp add: panel_payable_def total_of_def r_def body fairly_priced_def)
  moreover have "of_int (panel_payable s) \<le> a" if "pa_available s = Some (Fin a)" for a
    using on that no_shortfall by (auto simp: confirm_enabled_def panel_shortfall_def)
  ultimately have "confirmed_ok stringify (set (pm_quoted (pa_promo s))) (r, panel_payable s, pa_available s)"
    using v(2) qty by (simp add: confirmed_ok_def r_def)
  then show ?thesis using v(1) by (auto simp: confirm_order_def buy_def Let_def r_def)
qed

definition panel_history :: "(params \<Rightarrow> jstr) \<Rightarrow> 'o panel \<Rightarrow> bool" where
  "panel_history stringify s \<longleftrightarrow>
     pu_sent (pa_purchase s) = map fst (pa_confirmed s) \<and> (\<forall>c \<in> set (pa_confirmed s). confirmed_ok stringify (set (pm_quoted (pa_promo s))) c)"

lemma historyI:
  assumes "panel_history stringify s" "pu_sent (pa_purchase t) = pu_sent (pa_purchase s)" "pa_confirmed t = pa_confirmed s"
    "set (pm_quoted (pa_promo s)) \<subseteq> set (pm_quoted (pa_promo t))"
  shows "panel_history stringify t"
  using assms confirmed_ok_mono unfolding panel_history_def by metis

lemma event_history:
  assumes "panel_event upper s t" "panel_run upper stringify s" "panel_history stringify s"
  shows "panel_history stringify t"
  using assms
proof (cases rule: panel_event.cases)
  case event_confirm
  then obtain r where r: "pu_sent (pa_purchase t) = pu_sent (pa_purchase s) @ [r]"
    "pa_confirmed t = pa_confirmed s @ [(r, panel_payable s, pa_available s)]"
    "confirmed_ok stringify (set (pm_quoted (pa_promo s))) (r, panel_payable s, pa_available s)"
    using confirm_now [OF assms(2)] by blast
  moreover have "pa_promo t = pa_promo s" using event_confirm by (simp add: confirm_order_def Let_def)
  ultimately show ?thesis using assms(3) by (simp add: panel_history_def)
qed (auto intro!: historyI [OF assms(3)] simp: purchase_act_sent promo_act_quoted apply_code_keeps onCtaClick_def panel_close_def
    dest: promo_act_quoted(3) [THEN subsetD])

lemma panel_run_history: "panel_run upper stringify s \<Longrightarrow> panel_history stringify s"
proof (induction rule: panel_run.induct)
  case (panel_init account variants)
  then show ?case by (simp add: panel_history_def panel_start_def purchase_start_def)
next
  case (panel_next s t)
  then have "panel_history stringify t" using event_history by blast
  then show ?case by (rule historyI) (simp_all add: panel_render_def render_quoted)
qed


text \<open>A panel with one package, its confirmation, and the order.\<close>

definition sample_text :: "params \<Rightarrow> jstr" where
  "sample_text b = js (if map_of b (js ''expected_unit_price'') = Some (JNum (Fin 100)) then ''old'' else ''new'')"

definition sample_shop :: "int panel" where
  "sample_shop = panel_start True [sample_variant 1 20]"

definition sample_open :: "int panel" where
  "sample_open = panel_render id sample_text (onCtaClick sample_shop)"

lemma sample_selected: "selected_of (purchase_start (Some [sample_variant 1 20]) :: int purchase) = Some (sample_variant 1 20)"
  by (simp add: purchase_start_def selected_of_def resolveSelected_def pickDefaultVariant_def or_else_def sample_variant_simps)

lemma sample_cta: "cta_clickable sample_shop" "cta_intent (panel_cta sample_shop) = IntentConfirm"
proof -
  have "variantPurchasable (hint (sample_variant 1 20))" using sample_variant_simps(1) [of 20 1] by (simp add: purchasable_def)
  then have "\<not> paused (sample_variant 1 20)" "\<not> unavailable (sample_variant 1 20)"
    by (auto simp: paused_def unavailable_def variantUnavailable_def variantPurchasable_def)
  moreover have "\<not> belowMinimum (Some (sample_variant 1 20))"
    by (simp add: belowMinimum_def maxQtyFor_def minQtyFor_def variantMaxQuantity_def sample_variant_def stock_hint.defs MAX_ORDER_QUANTITY_def)
  moreover have "panel_cta sample_shop = ctaState True False (Some (sample_variant 1 20))"
    by (simp add: panel_cta_def sample_shop_def panel_start_def sample_selected) (simp add: purchase_start_def)
  ultimately show "cta_intent (panel_cta sample_shop) = IntentConfirm" by (simp add: ctaState_def)
  with \<open>panel_cta sample_shop = _\<close> show "cta_clickable sample_shop"
    by (simp add: cta_clickable_def sample_shop_def panel_start_def sample_selected)
      (simp add: purchase_start_def panelMode_def sample_variant_def ctaState_def split: if_splits)
qed

lemma sample_open_run: "panel_run id sample_text sample_open"
  unfolding sample_open_def by (rule panel_next [OF _ event_cta [OF sample_cta(1)]]) (simp add: sample_shop_def panel_init)

lemma selected_open: "selected_of (openConfirm p) = selected_of p"
  by (simp add: openConfirm_def selected_of_def split: option.split)

lemma sample_open_state:
  "pa_purchase sample_open = openConfirm (purchase_start (Some [sample_variant 1 20]))" "pa_available sample_open = None"
  "pa_confirmed sample_open = []" "selected_of (pa_purchase sample_open) = Some (sample_variant 1 20)"
  "pa_promo sample_open = (promo_start None) \<lparr> pm_key := Some (js ''old''), pm_active := True, pm_deps := (False, Some (js ''old'')) \<rparr>"
proof -
  show p: "pa_purchase sample_open = openConfirm (purchase_start (Some [sample_variant 1 20]))" "pa_available sample_open = None"
    "pa_confirmed sample_open = []"
    using sample_cta(2) by (simp_all add: sample_open_def panel_render_def onCtaClick_def) (simp_all add: sample_shop_def panel_start_def)
  show sel: "selected_of (pa_purchase sample_open) = Some (sample_variant 1 20)"
    using sample_selected by (simp add: p selected_open)
  have "panel_key sample_text (openConfirm (purchase_start (Some [sample_variant 1 20])) :: int purchase) = Some (js ''old'')"
    using sel by (simp add: p panel_key_def panel_body_def promoQuoteKey_def del: js_Cons)
      (simp add: openConfirm_def sample_text_def order_body_def sample_variant_def js_eq_iff del: js_Cons)
  moreover have "pa_promo sample_open = run_effect id (render_body (panel_key sample_text (pa_purchase sample_open)) (promo_start None))"
    using sample_cta(2) by (simp add: sample_open_def panel_render_def onCtaClick_def) (simp add: sample_shop_def panel_start_def)
  ultimately show "pa_promo sample_open = (promo_start None) \<lparr> pm_key := Some (js ''old''), pm_active := True, pm_deps := (False, Some (js ''old'')) \<rparr>"
    by (simp add: p render_body_def promo_start_def run_effect_def stale_def Let_def)
qed

lemma sample_confirm: "confirm_enabled sample_open"
  using sample_variant_simps(1) [of 20 1]
  by (simp add: confirm_enabled_def sample_open_state(4) panel_shortfall_def sample_open_state(2) walletShortfall_def)
    (simp add: sample_open_state openConfirm_def purchase_start_def checking_shown_def promo_start_def stale_def)


section \<open>A price that changes under a code\<close>

lemma requote:
  assumes "promo_rendered (Some k) m" "pm_quote m = Some (k, q)" "\<not> pm_checking m" "pm_calls m = []"
    "normalizePromoCode upper (pm_input m) = code" "code \<noteq> []" "k' \<noteq> k" "k' \<noteq> []"
  shows "run_effect upper (render_body (Some k') m) =
    m \<lparr> pm_key := Some k', pm_deps := (True, Some k'), pm_checking := True, pm_error := None, pm_calls := [(k', code)] \<rparr>"
  using assms by (auto simp: promo_rendered_def render_body_def run_effect_def stale_def apply_code_def Let_def)

lemma requoted:
  assumes "m = n \<lparr> pm_key := Some k', pm_deps := (True, Some k'), pm_checking := True, pm_error := None, pm_calls := [(k', code)] \<rparr>"
    "pm_active n" "k' \<noteq> []"
  shows "applied_quote (run_effect upper (render_body (Some k') (promo_answer (k', code) (Inr q') m))) = Some q' \<and>
    \<not> checking_shown (run_effect upper (render_body (Some k') (promo_answer (k', code) (Inr q') m)))"
  using assms
  by (simp add: promo_answer_def render_body_def run_effect_def stale_def applied_quote_def quote_applies_def checking_shown_def Let_def)

lemma payable_applied: "applied_quote m = Some q \<Longrightarrow> payable t m = qt_total_amount q"
  by (auto simp: applied_quote_def payable_def payableTotal_def split: option.splits if_splits)

text \<open>The product is loaded again, and a quote arrives.\<close>

definition product_reloads :: "(jstr \<Rightarrow> jstr) \<Rightarrow> (params \<Rightarrow> jstr) \<Rightarrow> variant list \<Rightarrow> 'o panel \<Rightarrow> 'o panel" where
  "product_reloads upper stringify vs s =
     panel_render upper stringify (s \<lparr> pa_purchase := product_loaded (Some vs) (pa_purchase s) \<rparr>)"

definition quote_arrives :: "(jstr \<Rightarrow> jstr) \<Rightarrow> (params \<Rightarrow> jstr) \<Rightarrow> jstr \<times> jstr \<Rightarrow> quote \<Rightarrow> 'o panel \<Rightarrow> 'o panel" where
  "quote_arrives upper stringify call q s =
     panel_render upper stringify (s \<lparr> pa_promo := promo_answer call (Inr q) (pa_promo s) \<rparr>)"


text \<open>The code of the open confirmation is applied, then the package costs more.\<close>

lemma render_again:
  assumes "panel_key stringify (pa_purchase s) = Some k" "pm_key m = Some k" "pm_active m" "pm_deps m = (stale m, Some k)"
  shows "panel_render upper stringify (s \<lparr> pa_promo := m \<rparr>) = s \<lparr> pa_promo := m \<rparr>"
proof -
  have "render_body (Some k) m = m" using assms(2,3) by (cases m) (simp add: render_body_def)
  then show ?thesis using assms(1,4) by (simp add: panel_render_def run_effect_def assms(2))
qed

definition sample_dearer :: variant where
  "sample_dearer = (sample_variant 1 20) \<lparr> va_price := 120 \<rparr>"

definition sample_typed :: "int panel" where
  "sample_typed = panel_render id sample_text (sample_open \<lparr> pa_promo := setInput (js ''SALE'') (pa_promo sample_open) \<rparr>)"

definition sample_checking :: "int panel" where
  "sample_checking = panel_render id sample_text (sample_typed \<lparr> pa_promo := apply_code id (pa_promo sample_typed) \<rparr>)"

definition sample_coded :: "int panel" where
  "sample_coded = quote_arrives id sample_text (js ''old'', js ''SALE'') sample_quote sample_checking"

lemma sample_key: "panel_key sample_text (pa_purchase sample_open) = Some (js ''old'')"
  using panel_run_sound [OF sample_open_run] by (simp add: promo_rendered_def sample_open_state(5))

lemma sample_typed_eq: "sample_typed = sample_open \<lparr> pa_promo := (pa_promo sample_open) \<lparr> pm_input := js ''SALE'' \<rparr> \<rparr>"
proof -
  have "setInput (js ''SALE'') (pa_promo sample_open) = (pa_promo sample_open) \<lparr> pm_input := js ''SALE'' \<rparr>"
    by (simp add: setInput_def sample_open_state(5) promo_start_def)
  then show ?thesis unfolding sample_typed_def
    by (simp only:) (rule render_again [OF sample_key]; simp add: sample_open_state(5) promo_start_def stale_def)
qed

lemma sample_checking_eq: "sample_checking = sample_open \<lparr> pa_promo := (pa_promo sample_open) \<lparr> pm_input := js ''SALE'',
    pm_checking := True, pm_calls := [(js ''old'', js ''SALE'')] \<rparr> \<rparr>"
proof -
  have "apply_code id (pa_promo sample_typed) = (pa_promo sample_open) \<lparr> pm_input := js ''SALE'',
      pm_checking := True, pm_calls := [(js ''old'', js ''SALE'')] \<rparr>"
    by (simp add: sample_typed_eq sample_open_state(5) promo_start_def apply_code_def normalize_sale Let_def del: js_Cons)
  then show ?thesis unfolding sample_checking_def sample_typed_eq
    by (simp only:) (simp, rule render_again [OF sample_key]; simp add: sample_open_state(5) promo_start_def stale_def)
qed

lemma sample_coded_eq: "sample_coded = sample_open \<lparr> pa_promo := (pa_promo sample_open) \<lparr> pm_input := js ''SALE'',
    pm_quote := Some (js ''old'', sample_quote), pm_quoted := [(js ''old'', js ''SALE'', sample_quote)] \<rparr> \<rparr>"
proof -
  have "promo_answer (js ''old'', js ''SALE'') (Inr sample_quote) (pa_promo sample_checking) = (pa_promo sample_open) \<lparr> pm_input := js ''SALE'',
      pm_quote := Some (js ''old'', sample_quote), pm_quoted := [(js ''old'', js ''SALE'', sample_quote)] \<rparr>"
    by (simp add: sample_checking_eq sample_open_state(5) promo_start_def promo_answer_def Let_def del: js_Cons)
  then show ?thesis unfolding sample_coded_def quote_arrives_def sample_checking_eq
    by (simp only:) (simp, rule render_again [OF sample_key]; simp add: sample_open_state(5) promo_start_def stale_def)
qed

lemma sample_coded_run: "panel_run id sample_text sample_coded"
proof -
  have "panel_run id sample_text sample_typed" unfolding sample_typed_def by (rule panel_next [OF sample_open_run event_input])
  then have run: "panel_run id sample_text sample_checking" unfolding sample_checking_def by (rule panel_next [OF _ event_apply])
  have "(js ''old'', js ''SALE'') \<in> set (pm_calls (pa_promo sample_checking))" by (simp add: sample_checking_eq)
  then show ?thesis unfolding sample_coded_def quote_arrives_def by (rule panel_next [OF run event_quote])
qed

lemma sample_dearer_key: "panel_key sample_text (product_loaded (Some [sample_dearer]) (pa_purchase sample_coded)) = Some (js ''new'')"
proof -
  have "selected_of (product_loaded (Some [sample_dearer]) (pa_purchase sample_coded)) = Some sample_dearer"
    by (simp add: sample_coded_eq sample_open_state openConfirm_def purchase_start_def product_loaded_def selected_of_def
        resolveSelected_def pickDefaultVariant_def or_else_def sample_dearer_def sample_variant_def)
  moreover have "pu_showConfirm (product_loaded (Some [sample_dearer]) (pa_purchase sample_coded))"
    by (simp add: sample_coded_eq sample_open_state openConfirm_def product_loaded_def)
  ultimately show ?thesis
    by (simp add: panel_key_def panel_body_def promoQuoteKey_def order_body_def js_eq_iff del: js_Cons)
      (simp add: sample_text_def sample_dearer_def sample_variant_def js_eq_iff del: js_Cons)
qed


end
