(* ===== verification/Order_Form.thy ===== *)
theory Order_Form
  imports Order_Panel
begin

text \<open>
  The order form of configurable products (components/DynamicOrderForm.tsx).  The pricing options are
  loaded and fill the fields the buyer has not touched; every change of a field or of the quantity starts
  a timer, and when it fires the server is asked for the price; only the answer to the last question
  counts.  The confirmation hosts the promo code of Checkout.  Answers arrive in any order, the timer
  fires at any time after a change, and the component renders after every event.
\<close>

section \<open>Options, fields and defaults\<close>

datatype field_type = FieldSelect | FieldNumber | FieldRadio | FieldTextarea | FieldSlider

record pricing_field =
  fd_field :: jstr
  fd_type :: field_type
  fd_required :: bool
  fd_choices :: "json list option"
  fd_min :: "rat option"
  fd_default :: "json option"

record pricing_options = quantity_options +
  po_fields :: "pricing_field list"
  po_ready :: bool

record calc_result =
  cr_amount :: int
  cr_original_amount :: "int option"
  cr_discount_pct :: "rat option"

definition default_value :: "pricing_field \<Rightarrow> json option" where
  "default_value f =
     (case fd_default f of
        Some v \<Rightarrow> Some v
      | None \<Rightarrow>
          if fd_type f = FieldSelect \<or> fd_type f = FieldRadio
          then (case fd_choices f of Some (v # _) \<Rightarrow> Some v | _ \<Rightarrow> None)
          else if fd_type f = FieldNumber \<or> fd_type f = FieldSlider
          then Some (JNum (Fin (case fd_min f of None \<Rightarrow> 1 | Some m \<Rightarrow> m)))
          else None)"

definition field_defaults :: "pricing_field list \<Rightarrow> params" where
  "field_defaults fs =
     foldl (\<lambda>d f. case default_value f of None \<Rightarrow> d | Some v \<Rightarrow> AList.update (fd_field f) v d) [] fs"

text \<open>\<open>x == null || x === ""\<close>\<close>

definition unset :: "json option \<Rightarrow> bool" where
  "unset x \<longleftrightarrow> x \<in> {None, Some JNull, Some (JStr [])}"

definition merge_defaults :: "params \<Rightarrow> params \<Rightarrow> params" where
  "merge_defaults prev defaults =
     foldl (\<lambda>next' (field, v). if unset (map_of next' field) then AList.update field v next' else next') prev defaults"

section \<open>The form\<close>

text \<open>An order as \<open>api.createOrderWithConfig\<close> gets it.\<close>

record config_order =
  co_config :: params
  co_quantity :: int
  co_promo :: "jstr option"

text \<open>
  \<open>fo_load\<close> numbers the runs of the loading effect, the older ones are cancelled.  \<open>fo_timer\<close> holds what
  the timer's closure captured, \<open>fo_flights\<close> the questions to the server with their number and body, and
  \<open>fo_calc\<close> keeps with the result the body it was asked for.  \<open>fo_priced\<close> and \<open>fo_confirmed\<close> are
  histories: the prices the server gave, and the orders with the total the button named, the balance
  shown and whether the price was settled.
\<close>

record form =
  fo_load :: nat
  fo_loads :: "nat list"
  fo_options :: "pricing_options option"
  fo_loading :: bool
  fo_optionsError :: bool
  fo_config :: params
  fo_qty :: jsnum
  fo_calc :: "(params \<times> calc_result) option"
  fo_calculating :: bool
  fo_calcError :: bool
  fo_timer :: "(params \<times> jsnum) option"
  fo_seq :: nat
  fo_flights :: "(nat \<times> params) list"
  fo_placing :: bool
  fo_placeError :: bool
  fo_showConfirm :: bool
  fo_promo :: promo
  fo_available :: "jsnum option"
  fo_account :: bool
  fo_calls :: "config_order list"
  fo_priced :: "(params \<times> calc_result) list"
  fo_confirmed :: "(config_order \<times> int \<times> jsnum option \<times> bool) list"

abbreviation rules :: "pricing_options \<Rightarrow> quantity_options" where
  "rules o' \<equiv> quantity_options.truncate o'"

definition orderQty :: "form \<Rightarrow> int" where
  "orderQty s = (case fo_options s of None \<Rightarrow> 1 | Some o' \<Rightarrow> orderQuantity (quantityControl (rules o')) (fo_qty s))"

definition finalConfig :: "form \<Rightarrow> params" where
  "finalConfig s = (case fo_options s of None \<Rightarrow> fo_config s | Some o' \<Rightarrow> orderConfig (fo_config s) (rules o') (orderQty s))"

text \<open>The effect on the configuration, the quantity and the options: a timer for the latest values.\<close>

definition schedule :: "form \<Rightarrow> form" where
  "schedule s = (if fo_options s = None then s else s \<lparr> fo_timer := Some (fo_config s, fo_qty s) \<rparr>)"

definition load_options :: "form \<Rightarrow> form" where
  "load_options s = s \<lparr> fo_load := Suc (fo_load s), fo_loads := fo_loads s @ [Suc (fo_load s)] \<rparr>"

definition options_answer :: "nat \<Rightarrow> pricing_options option \<Rightarrow> form \<Rightarrow> form" where
  "options_answer n answer s =
     (let s1 = s \<lparr> fo_loads := remove1 n (fo_loads s) \<rparr>
      in if n \<noteq> fo_load s then s1
         else case answer of
             Some o' \<Rightarrow> schedule (s1 \<lparr> fo_options := Some o', fo_config := merge_defaults (fo_config s) (field_defaults (po_fields o')),
                                     fo_loading := False \<rparr>)
           | None \<Rightarrow> s1 \<lparr> fo_optionsError := True, fo_loading := False \<rparr>)"

text \<open>The language or the texts change: the options are loaded again, and the price is asked for again.\<close>

definition texts_change :: "form \<Rightarrow> form" where
  "texts_change s = schedule (load_options s)"

definition updateField :: "jstr \<Rightarrow> json \<Rightarrow> form \<Rightarrow> form" where
  "updateField field v s = schedule (s \<lparr> fo_config := AList.update field v (fo_config s) \<rparr>)"

text \<open>The stepper, or a number typed; setting the same number renders nothing.\<close>

definition pick_quantity :: "jsnum \<Rightarrow> form \<Rightarrow> form" where
  "pick_quantity n s =
     (case fo_options s of
        None \<Rightarrow> s
      | Some o' \<Rightarrow>
          (case quantityControl (rules o') of
             Stepper m _ \<Rightarrow>
               let q = Fin (of_int (clampQuantity n m)) in if q = fo_qty s then s else schedule (s \<lparr> fo_qty := q \<rparr>)
           | _ \<Rightarrow> s))"

definition missingRequired :: "pricing_options \<Rightarrow> params \<Rightarrow> bool" where
  "missingRequired o' cfg \<longleftrightarrow> (\<exists>f \<in> set (po_fields o'). fd_required f \<and> unset (map_of cfg (fd_field f)))"

definition doCalculate :: "params \<Rightarrow> jsnum \<Rightarrow> form \<Rightarrow> form" where
  "doCalculate cfg q s =
     (case fo_options s of
        None \<Rightarrow> s
      | Some o' \<Rightarrow>
          if \<not> po_ready o' \<or> po_fields o' = [] then s
          else let s1 = s \<lparr> fo_seq := Suc (fo_seq s) \<rparr>
               in if missingRequired o' cfg then s1 \<lparr> fo_calc := None, fo_calcError := False \<rparr>
                  else s1 \<lparr> fo_calculating := True,
                            fo_flights := fo_flights s @ [(Suc (fo_seq s), orderConfig cfg (rules o') (orderQuantity (quantityControl (rules o')) q))] \<rparr>)"

definition timer_fires :: "form \<Rightarrow> form" where
  "timer_fires s = (case fo_timer s of None \<Rightarrow> s | Some (cfg, q) \<Rightarrow> doCalculate cfg q (s \<lparr> fo_timer := None \<rparr>))"

definition calc_answer :: "nat \<times> params \<Rightarrow> calc_result option \<Rightarrow> form \<Rightarrow> form" where
  "calc_answer flight answer s =
     (let s1 = s \<lparr> fo_flights := remove1 flight (fo_flights s) \<rparr>
      in if fst flight \<noteq> fo_seq s then s1
         else case answer of
             Some r \<Rightarrow> s1 \<lparr> fo_calc := Some (snd flight, r), fo_calcError := False, fo_calculating := False,
                           fo_priced := fo_priced s @ [(snd flight, r)] \<rparr>
           | None \<Rightarrow> s1 \<lparr> fo_calc := None, fo_calcError := True, fo_calculating := False \<rparr>)"

section \<open>The confirmation\<close>

definition config_body :: "int \<Rightarrow> params \<Rightarrow> int \<Rightarrow> params" where
  "config_body productId cfg n =
     [(js ''product_id'', JNum (Fin (of_int productId))), (js ''user_config'', JObj cfg), (js ''quantity'', JNum (Fin (of_int n)))]"

definition form_body :: "int \<Rightarrow> form \<Rightarrow> params option" where
  "form_body productId s =
     (if fo_showConfirm s \<and> fo_calc s \<noteq> None
      then Some (config_body productId (finalConfig s) (orderQty s))
      else None)"

definition form_key :: "(params \<Rightarrow> jstr) \<Rightarrow> int \<Rightarrow> form \<Rightarrow> jstr option" where
  "form_key stringify productId s = promoQuoteKey stringify (form_body productId s)"

definition form_render :: "(jstr \<Rightarrow> jstr) \<Rightarrow> (params \<Rightarrow> jstr) \<Rightarrow> int \<Rightarrow> form \<Rightarrow> form" where
  "form_render upper stringify productId s =
     s \<lparr> fo_promo := run_effect upper (render_body (form_key stringify productId s) (fo_promo s)) \<rparr>"

definition displayAmount :: "form \<Rightarrow> int" where
  "displayAmount s = (case fo_calc s of None \<Rightarrow> 0 | Some (b, r) \<Rightarrow> cr_amount r)"

definition form_payable :: "form \<Rightarrow> int" where
  "form_payable s = payable (displayAmount s) (fo_promo s)"

text \<open>A skeleton or an error may stand in place of the form.\<close>

definition form_visible :: "form \<Rightarrow> bool" where
  "form_visible s \<longleftrightarrow> \<not> fo_loading s \<and> \<not> fo_optionsError s \<and> fo_options s \<noteq> None"

definition submit_enabled :: "form \<Rightarrow> bool" where
  "submit_enabled s \<longleftrightarrow>
     form_visible s \<and> (\<exists>o' \<in> set_option (fo_options s). po_ready o') \<and> \<not> fo_placing s \<and> fo_calc s \<noteq> None \<and> \<not> fo_calculating s"

definition handleSubmit :: "form \<Rightarrow> form" where
  "handleSubmit s = (if fo_account s then s \<lparr> fo_showConfirm := True \<rparr> else s)"

definition buy_enabled :: "form \<Rightarrow> bool" where
  "buy_enabled s \<longleftrightarrow>
     form_visible s \<and> fo_showConfirm s \<and> fo_calc s \<noteq> None \<and> \<not> fo_placing s \<and> \<not> checking_shown (fo_promo s) \<and>
     \<not> 0 < walletShortfall (of_int (form_payable s)) (fo_available s)"

text \<open>The price shown is settled: no timer runs and no answer is awaited, for options that can be priced.\<close>

definition settled :: "form \<Rightarrow> bool" where
  "settled s \<longleftrightarrow>
     fo_timer s = None \<and> \<not> fo_calculating s \<and> (\<exists>o' \<in> set_option (fo_options s). po_ready o' \<and> po_fields o' \<noteq> [])"

definition confirmBuy :: "form \<Rightarrow> form" where
  "confirmBuy s =
     (let order = \<lparr> co_config = finalConfig s, co_quantity = orderQty s, co_promo = promo_code_sent (fo_promo s) \<rparr>
      in s \<lparr> fo_placing := True, fo_placeError := False, fo_calls := fo_calls s @ [order],
             fo_confirmed := fo_confirmed s @ [(order, form_payable s, fo_available s, settled s)] \<rparr>)"

definition config_order_answer :: "config_order \<Rightarrow> bool \<Rightarrow> form \<Rightarrow> form" where
  "config_order_answer order created s =
     (let s1 = s \<lparr> fo_calls := remove1 order (fo_calls s), fo_placing := False \<rparr>
      in if created then s1 \<lparr> fo_showConfirm := False, fo_promo := promo_reset (fo_promo s) \<rparr>
         else s1 \<lparr> fo_placeError := True \<rparr>)"

definition close_form :: "form \<Rightarrow> form" where
  "close_form s = s \<lparr> fo_showConfirm := False, fo_placeError := False, fo_promo := promo_reset (fo_promo s) \<rparr>"

definition press_escape :: "form \<Rightarrow> form" where
  "press_escape s = (if fo_showConfirm s \<and> \<not> fo_placing s then s \<lparr> fo_showConfirm := False, fo_placeError := False \<rparr> else s)"

definition form_start :: "bool \<Rightarrow> form" where
  "form_start account =
     \<lparr> fo_load = 0, fo_loads = [0], fo_options = None, fo_loading = True, fo_optionsError = False, fo_config = [], fo_qty = Fin 1,
       fo_calc = None, fo_calculating = False, fo_calcError = False, fo_timer = None, fo_seq = 0, fo_flights = [],
       fo_placing = False, fo_placeError = False, fo_showConfirm = False, fo_promo = promo_start None, fo_available = None,
       fo_account = account, fo_calls = [], fo_priced = [], fo_confirmed = [] \<rparr>"

inductive form_event :: "(jstr \<Rightarrow> jstr) \<Rightarrow> form \<Rightarrow> form \<Rightarrow> bool" for upper where
  form_options: "n \<in> set (fo_loads s) \<Longrightarrow> form_event upper s (options_answer n a s)"
| form_texts: "form_event upper s (texts_change s)"
| form_field: "form_event upper s (updateField k v s)"
| form_quantity: "form_event upper s (pick_quantity n s)"
| form_timer: "form_event upper s (timer_fires s)"
| form_price: "f \<in> set (fo_flights s) \<Longrightarrow> form_event upper s (calc_answer f a s)"
| form_submit: "submit_enabled s \<Longrightarrow> form_event upper s (handleSubmit s)"
| form_buy: "buy_enabled s \<Longrightarrow> form_event upper s (confirmBuy s)"
| form_order: "c \<in> set (fo_calls s) \<Longrightarrow> form_event upper s (config_order_answer c created s)"
| form_close: "\<not> fo_placing s \<Longrightarrow> form_event upper s (close_form s)"
| form_escape: "form_event upper s (press_escape s)"
| form_input: "form_event upper s (s \<lparr> fo_promo := setInput t (fo_promo s) \<rparr>)"
| form_apply: "form_event upper s (s \<lparr> fo_promo := apply_code upper (fo_promo s) \<rparr>)"
| form_remove: "form_event upper s (s \<lparr> fo_promo := promo_reset (fo_promo s) \<rparr>)"
| form_quote: "call \<in> set (pm_calls (fo_promo s)) \<Longrightarrow> form_event upper s (s \<lparr> fo_promo := promo_answer call q (fo_promo s) \<rparr>)"
| form_page: "form_event upper s (s \<lparr> fo_available := w, fo_account := account \<rparr>)"

inductive form_run :: "(jstr \<Rightarrow> jstr) \<Rightarrow> (params \<Rightarrow> jstr) \<Rightarrow> int \<Rightarrow> form \<Rightarrow> bool" for upper stringify productId where
  form_init: "form_run upper stringify productId (form_start account)"
| form_next: "form_run upper stringify productId s \<Longrightarrow> form_event upper s t \<Longrightarrow>
    form_run upper stringify productId (form_render upper stringify productId t)"

section \<open>The price that is shown\<close>

definition priceable :: "form \<Rightarrow> bool" where
  "priceable s \<longleftrightarrow> (\<exists>o' \<in> set_option (fo_options s). po_ready o' \<and> po_fields o' \<noteq> [])"

definition priced_now :: "form \<Rightarrow> bool" where
  "priced_now s \<longleftrightarrow>
     (\<forall>b. (fo_seq s, b) \<in> set (fo_flights s) \<longrightarrow> b = finalConfig s) \<and>
     (\<not> fo_calculating s \<longrightarrow> (\<forall>b r. fo_calc s = Some (b, r) \<longrightarrow> b = finalConfig s))"

definition pricing_ok :: "form \<Rightarrow> bool" where
  "pricing_ok s \<longleftrightarrow>
     (\<forall>c q. fo_timer s = Some (c, q) \<longrightarrow> c = fo_config s \<and> q = fo_qty s) \<and>
     (\<forall>f \<in> set (fo_flights s). fst f \<le> fo_seq s) \<and>
     (\<forall>x. fo_calc s = Some x \<longrightarrow> x \<in> set (fo_priced s)) \<and>
     (fo_options s = None \<longrightarrow> fo_timer s = None) \<and>
     (priceable s \<and> fo_timer s = None \<longrightarrow> priced_now s)"

lemma pricing_okI:
  assumes "\<And>c q. fo_timer s = Some (c, q) \<Longrightarrow> c = fo_config s \<and> q = fo_qty s"
    "\<And>n b. (n, b) \<in> set (fo_flights s) \<Longrightarrow> n \<le> fo_seq s" "\<And>x. fo_calc s = Some x \<Longrightarrow> x \<in> set (fo_priced s)"
    "fo_options s = None \<Longrightarrow> fo_timer s = None" "priceable s \<Longrightarrow> fo_timer s = None \<Longrightarrow> priced_now s"
  shows "pricing_ok s"
  using assms by (auto simp: pricing_ok_def)

lemma pricing_okD:
  assumes "pricing_ok s"
  shows "fo_timer s = Some (c, q) \<Longrightarrow> c = fo_config s \<and> q = fo_qty s" "(n, b) \<in> set (fo_flights s) \<Longrightarrow> n \<le> fo_seq s"
    "fo_calc s = Some x \<Longrightarrow> x \<in> set (fo_priced s)" "fo_options s = None \<Longrightarrow> fo_timer s = None"
    "priceable s \<Longrightarrow> fo_timer s = None \<Longrightarrow> priced_now s"
  using assms by (auto simp: pricing_ok_def)

text \<open>What the price depends on.\<close>

lemma same_final: "fo_options t = fo_options s \<Longrightarrow> fo_config t = fo_config s \<Longrightarrow> fo_qty t = fo_qty s \<Longrightarrow> finalConfig t = finalConfig s"
  by (simp only: finalConfig_def orderQty_def)

lemma same_priceable: "fo_options t = fo_options s \<Longrightarrow> priceable t = priceable s"
  by (simp add: priceable_def)

lemma pricing_same:
  assumes "pricing_ok s" "fo_options t = fo_options s" "fo_config t = fo_config s" "fo_qty t = fo_qty s" "fo_timer t = fo_timer s"
    "fo_flights t = fo_flights s" "fo_seq t = fo_seq s" "fo_calc t = fo_calc s" "fo_calculating t = fo_calculating s" "fo_priced t = fo_priced s"
  shows "pricing_ok t"
  using assms(1) unfolding pricing_ok_def priced_now_def
  by (simp only: assms(2-10) same_final [OF assms(2-4)] same_priceable [OF assms(2)])

lemma schedule_ok:
  assumes "\<And>n b. (n, b) \<in> set (fo_flights s) \<Longrightarrow> n \<le> fo_seq s" "\<And>x. fo_calc s = Some x \<Longrightarrow> x \<in> set (fo_priced s)"
    "fo_options s = None \<Longrightarrow> fo_timer s = None"
  shows "pricing_ok (schedule s)"
  using assms by (auto intro!: pricing_okI simp: schedule_def priceable_def)

lemma fewer_flights:
  assumes "pricing_ok s" shows "pricing_ok (s \<lparr> fo_flights := remove1 f (fo_flights s) \<rparr>)"
proof (rule pricing_okI)
  let ?t = "s \<lparr> fo_flights := remove1 f (fo_flights s) \<rparr>"
  have sub: "set (remove1 f (fo_flights s)) \<subseteq> set (fo_flights s)" by (rule set_remove1_subset)
  show "n \<le> fo_seq ?t" if "(n, b) \<in> set (fo_flights ?t)" for n b
    using that sub pricing_okD(2) [OF assms, of n b] by auto
  show "priced_now ?t" if "priceable ?t" "fo_timer ?t = None"
  proof -
    have "priced_now s" using that pricing_okD(5) [OF assms] same_priceable [of ?t s] by simp
    moreover have "finalConfig ?t = finalConfig s" by (rule same_final) simp_all
    ultimately show ?thesis using sub by (auto simp: priced_now_def)
  qed
qed (use assms in \<open>auto dest: pricing_okD\<close>)

lemma calc_answer_ok:
  assumes ok: "pricing_ok s" and mem: "f \<in> set (fo_flights s)" shows "pricing_ok (calc_answer f a s)"
proof (cases "fst f = fo_seq s")
  case False
  with fewer_flights [OF ok] show ?thesis by (simp add: calc_answer_def)
next
  case True
  let ?u = "s \<lparr> fo_flights := remove1 f (fo_flights s) \<rparr>"
  note ok1 = fewer_flights [OF ok, of f]
  have body: "snd f = finalConfig s" if "priceable s" "fo_timer s = None"
    using pricing_okD(5) [OF ok that] mem True by (metis priced_now_def prod.collapse)
  show ?thesis
  proof (rule pricing_okI)
    let ?t = "calc_answer f a s"
    have same: "fo_options ?t = fo_options ?u" "fo_config ?t = fo_config ?u" "fo_qty ?t = fo_qty ?u" "fo_timer ?t = fo_timer ?u"
      "fo_flights ?t = fo_flights ?u" "fo_seq ?t = fo_seq ?u"
      by (simp_all add: calc_answer_def Let_def split: option.split)
    show "priced_now ?t" if "priceable ?t" "fo_timer ?t = None"
    proof -
      have final1: "finalConfig ?t = finalConfig ?u" by (rule same_final [OF same(1-3)])
      moreover have "finalConfig ?u = finalConfig s" by (rule same_final) simp_all
      ultimately have final: "finalConfig ?t = finalConfig s" by simp
      have here: "priceable s" "fo_timer s = None" using that same same_priceable [of ?t s] by simp_all
      have "priced_now ?u" using pricing_okD(5) [OF ok1] here same_priceable [of ?u s] by simp
      then have "\<forall>b. (fo_seq ?t, b) \<in> set (fo_flights ?t) \<longrightarrow> b = finalConfig ?t"
        unfolding same final1 by (simp add: priced_now_def)
      moreover have "b = finalConfig ?t" if "fo_calc ?t = Some (b, r)" for b r
      proof -
        have "b = snd f" using that True by (auto simp: calc_answer_def Let_def split: option.splits)
        then show ?thesis unfolding final using body [OF here] by simp
      qed
      ultimately show ?thesis by (simp add: priced_now_def)
    qed
    show "c = fo_config ?t \<and> q = fo_qty ?t" if "fo_timer ?t = Some (c, q)" for c q
      using that pricing_okD(1) [OF ok] same by simp
    show "n \<le> fo_seq ?t" if "(n, b) \<in> set (fo_flights ?t)" for n b
      using that pricing_okD(2) [OF ok1, of n b] same by simp
    show "fo_timer ?t = None" if "fo_options ?t = None" using that pricing_okD(4) [OF ok] same by simp
    show "x \<in> set (fo_priced ?t)" if "fo_calc ?t = Some x" for x
      using that True by (auto simp: calc_answer_def Let_def split: option.splits)
  qed
qed

lemma timer_fires_ok:
  assumes ok: "pricing_ok s" shows "pricing_ok (timer_fires s)"
proof (cases "fo_timer s")
  case None
  with ok show ?thesis by (simp add: timer_fires_def)
next
  case (Some cq)
  then have timer: "fo_timer s = Some (fo_config s, fo_qty s)" using pricing_okD(1) [OF ok] by (cases cq) auto
  then obtain o' where o': "fo_options s = Some o'" using pricing_okD(4) [OF ok] by (cases "fo_options s") auto
  let ?t = "timer_fires s"
  let ?body = "orderConfig (fo_config s) (rules o') (orderQuantity (quantityControl (rules o')) (fo_qty s))"
  have body: "?body = finalConfig s" by (simp add: finalConfig_def orderQty_def o')
  show ?thesis
  proof (cases "\<not> po_ready o' \<or> po_fields o' = []")
    case True
    then have t: "?t = s \<lparr> fo_timer := None \<rparr>" by (simp add: timer_fires_def timer doCalculate_def o')
    have "\<not> priceable ?t" using True by (auto simp: t priceable_def o')
    with ok show ?thesis by (intro pricing_okI) (auto simp: t dest: pricing_okD)
  next
    case False
    show ?thesis
    proof (cases "missingRequired o' (fo_config s)")
      case True
      with False have t: "?t = s \<lparr> fo_timer := None, fo_seq := Suc (fo_seq s), fo_calc := None, fo_calcError := False \<rparr>"
        by (simp add: timer_fires_def timer doCalculate_def o' Let_def)
      have "priced_now ?t" using pricing_okD(2) [OF ok] by (force simp: t priced_now_def)
      with ok show ?thesis by (intro pricing_okI) (auto simp: t le_SucI dest: pricing_okD)
    next
      case there: False
      with False have t: "?t = s \<lparr> fo_timer := None, fo_seq := Suc (fo_seq s), fo_calculating := True,
          fo_flights := fo_flights s @ [(Suc (fo_seq s), finalConfig s)] \<rparr>"
        by (simp add: timer_fires_def timer doCalculate_def o' Let_def body)
      have "finalConfig ?t = finalConfig s" by (rule same_final) (simp_all add: t)
      then have "priced_now ?t" using pricing_okD(2) [OF ok] by (force simp: t priced_now_def)
      with ok show ?thesis by (intro pricing_okI) (auto simp: t le_SucI dest: pricing_okD)
    qed
  qed
qed

lemma options_answer_ok: "pricing_ok s \<Longrightarrow> pricing_ok (options_answer n a s)"
proof (cases "n = fo_load s")
  case False
  moreover assume "pricing_ok s"
  ultimately show ?thesis by (auto simp: options_answer_def intro: pricing_same [of s])
next
  case True
  assume ok: "pricing_ok s"
  show ?thesis
  proof (cases a)
    case None
    with True ok show ?thesis by (auto simp: options_answer_def Let_def intro: pricing_same [of s])
  next
    case (Some o')
    then show ?thesis using True ok
      by (auto simp: options_answer_def Let_def intro!: schedule_ok dest: pricing_okD)
  qed
qed

lemma event_priced: "form_event upper s t \<Longrightarrow> pricing_ok s \<Longrightarrow> pricing_ok t"
proof (induction rule: form_event.induct)
  case (form_options n s a)
  then show ?case by (simp add: options_answer_ok)
next
  case (form_texts s)
  then show ?case by (auto simp: texts_change_def load_options_def intro!: schedule_ok dest: pricing_okD)
next
  case (form_field s k v)
  then show ?case by (auto simp: updateField_def intro!: schedule_ok dest: pricing_okD)
next
  case (form_quantity s n)
  then show ?case
    by (auto simp: pick_quantity_def Let_def intro!: schedule_ok split: option.split quantity_control.split dest: pricing_okD)
next
  case (form_timer s)
  then show ?case by (rule timer_fires_ok)
next
  case (form_price f s a)
  then show ?case by (simp add: calc_answer_ok)
qed (erule pricing_same; simp add: handleSubmit_def confirmBuy_def config_order_answer_def close_form_def press_escape_def Let_def)+

lemma form_run_priced: "form_run upper stringify productId s \<Longrightarrow> pricing_ok s"
proof (induction rule: form_run.induct)
  case (form_init account)
  show ?case by (rule pricing_okI) (simp_all add: form_start_def priceable_def)
next
  case (form_next s t)
  then have "pricing_ok t" using event_priced by blast
  then show ?case by (rule pricing_same) (simp_all add: form_render_def)
qed

section \<open>Orders are priced\<close>

lemma event_promo_ok: "form_event upper s t \<Longrightarrow> promo_ok (fo_promo s) \<Longrightarrow> promo_ok (fo_promo t)"
proof (induction rule: form_event.induct)
  case (form_timer s)
  then show ?case by (simp add: timer_fires_def doCalculate_def Let_def split: option.split prod.split)
qed (simp_all add: promo_act_ok apply_code_ok promo_answer_ok options_answer_def texts_change_def load_options_def updateField_def
    pick_quantity_def calc_answer_def handleSubmit_def confirmBuy_def config_order_answer_def close_form_def press_escape_def
    schedule_def Let_def split: option.split quantity_control.split)

lemma form_run_rendered: "form_run upper stringify productId s \<Longrightarrow> promo_rendered (form_key stringify productId s) (fo_promo s)"
proof (induction rule: form_run.induct)
  case (form_init account)
  have "promo_ok (promo_start None)" by (rule promo_okI) (simp_all add: promo_start_def)
  then show ?case
    by (simp add: form_start_def promo_rendered_def form_key_def form_body_def promoQuoteKey_def) (simp add: promo_start_def stale_def)
next
  case (form_next s t)
  then have "promo_ok (fo_promo t)" using event_promo_ok by (auto simp: promo_rendered_def)
  moreover have "form_key stringify productId (t \<lparr> fo_promo := m \<rparr>) = form_key stringify productId t" for m
  proof -
    have "finalConfig (t \<lparr> fo_promo := m \<rparr>) = finalConfig t" by (rule same_final) simp_all
    moreover have "orderQty (t \<lparr> fo_promo := m \<rparr>) = orderQty t" by (simp add: orderQty_def split: option.split)
    ultimately show ?thesis by (auto simp: form_key_def form_body_def)
  qed
  ultimately show ?case by (simp add: form_render_def render_rendered)
qed

interpretation order_form: priced_confirmation "form_run upper stringify productId" fo_promo "form_key stringify productId"
  for upper stringify productId
proof unfold_locales
  show "promo_ok (fo_promo s)" "pm_key (fo_promo s) = form_key stringify productId s" if "form_run upper stringify productId s" for s
    using form_run_rendered [OF that] by (simp_all add: promo_rendered_def)
qed

text \<open>
  The total named: a price the server gave, for the very configuration when the price was settled, and
  no code; or the total quoted for this very order, with its code.
\<close>

definition config_priced ::
    "(params \<Rightarrow> jstr) \<Rightarrow> int \<Rightarrow> (params \<times> calc_result) set \<Rightarrow> (jstr \<times> jstr \<times> quote) set \<Rightarrow> config_order \<Rightarrow> int \<Rightarrow> bool \<Rightarrow> bool" where
  "config_priced stringify productId priced quoted c shown final \<longleftrightarrow>
     co_promo c = None \<and> (\<exists>b r. (b, r) \<in> priced \<and> shown = cr_amount r \<and> (final \<longrightarrow> b = co_config c)) \<or>
     (\<exists>k code q. promoQuoteKey stringify (Some (config_body productId (co_config c) (co_quantity c))) = Some k \<and>
        (k, code, q) \<in> quoted \<and> shown = qt_total_amount q \<and> co_promo c = qt_promo_code q)"

definition config_ok ::
    "(params \<Rightarrow> jstr) \<Rightarrow> int \<Rightarrow> (params \<times> calc_result) set \<Rightarrow> (jstr \<times> jstr \<times> quote) set \<Rightarrow>
     config_order \<times> int \<times> jsnum option \<times> bool \<Rightarrow> bool" where
  "config_ok stringify productId priced quoted x \<longleftrightarrow>
     (case x of (c, shown, balance, final) \<Rightarrow>
        1 \<le> co_quantity c \<and> co_quantity c \<le> MAX_ORDER_QUANTITY \<and>
        map_of (co_config c) (js ''quantity'') = Some (JNum (Fin (of_int (co_quantity c)))) \<and>
        config_priced stringify productId priced quoted c shown final \<and> (\<forall>a. balance = Some (Fin a) \<longrightarrow> of_int shown \<le> a))"

lemma config_priced_mono:
  "config_priced stringify productId priced quoted c shown final \<Longrightarrow> priced \<subseteq> priced2 \<Longrightarrow> quoted \<subseteq> quoted2 \<Longrightarrow>
   config_priced stringify productId priced2 quoted2 c shown final"
  unfolding config_priced_def by blast

lemma config_ok_mono:
  "config_ok stringify productId priced quoted x \<Longrightarrow> priced \<subseteq> priced2 \<Longrightarrow> quoted \<subseteq> quoted2 \<Longrightarrow>
   config_ok stringify productId priced2 quoted2 x"
  by (auto simp: config_ok_def config_priced_mono split: prod.splits)

lemma order_quantity: "1 \<le> orderQty s \<and> orderQty s \<le> MAX_ORDER_QUANTITY"
  using orderQuantity_range by (simp add: orderQty_def MAX_ORDER_QUANTITY_def split: option.split)

lemma final_quantity:
  assumes "fo_options s \<noteq> None"
  shows "map_of (finalConfig s) (js ''quantity'') = Some (JNum (Fin (of_int (orderQty s))))"
  using assms by (auto simp: finalConfig_def orderConfig_def Let_def update_conv' js_eq_iff simp del: js_Cons)

lemma buy_now:
  assumes run: "form_run upper stringify productId s" and on: "buy_enabled s"
  shows "config_ok stringify productId (set (fo_priced s)) (set (pm_quoted (fo_promo s)))
    (\<lparr> co_config = finalConfig s, co_quantity = orderQty s, co_promo = promo_code_sent (fo_promo s) \<rparr>,
     form_payable s, fo_available s, settled s)"
proof -
  note ok = form_run_priced [OF run]
  from on obtain b r where calc: "fo_calc s = Some (b, r)" and form: "fo_options s \<noteq> None" "fo_showConfirm s"
    by (auto simp: buy_enabled_def form_visible_def)
  have priced: "(b, r) \<in> set (fo_priced s)" by (rule pricing_okD(3) [OF ok calc])
  have current: "b = finalConfig s" if "settled s"
  proof -
    have "priced_now s" using pricing_okD(5) [OF ok] that by (simp add: settled_def priceable_def)
    then show ?thesis using that calc by (simp add: priced_now_def settled_def)
  qed
  have key: "form_key stringify productId s = promoQuoteKey stringify (Some (config_body productId (finalConfig s) (orderQty s)))"
    using form(2) calc by (simp add: form_key_def form_body_def)
  from order_form.shown_price [OF run, of "cr_amount r"] key priced current
  have "config_priced stringify productId (set (fo_priced s)) (set (pm_quoted (fo_promo s)))
      \<lparr> co_config = finalConfig s, co_quantity = orderQty s, co_promo = promo_code_sent (fo_promo s) \<rparr> (form_payable s) (settled s)"
    by (auto simp: config_priced_def form_payable_def displayAmount_def calc)
  moreover have "of_int (form_payable s) \<le> a" if "fo_available s = Some (Fin a)" for a
    using on that no_shortfall by (auto simp: buy_enabled_def)
  ultimately show ?thesis using order_quantity [of s] final_quantity [OF form(1)] by (simp add: config_ok_def)
qed

definition form_history :: "(params \<Rightarrow> jstr) \<Rightarrow> int \<Rightarrow> form \<Rightarrow> bool" where
  "form_history stringify productId s \<longleftrightarrow>
     (\<forall>x \<in> set (fo_confirmed s). config_ok stringify productId (set (fo_priced s)) (set (pm_quoted (fo_promo s))) x)"

lemma form_historyI:
  assumes "form_history stringify productId s" "fo_confirmed t = fo_confirmed s" "set (fo_priced s) \<subseteq> set (fo_priced t)"
    "set (pm_quoted (fo_promo s)) \<subseteq> set (pm_quoted (fo_promo t))"
  shows "form_history stringify productId t"
  using assms config_ok_mono unfolding form_history_def by metis

lemma schedule_keeps: "fo_confirmed (schedule s) = fo_confirmed s" "fo_priced (schedule s) = fo_priced s" "fo_promo (schedule s) = fo_promo s"
  by (simp_all add: schedule_def)

lemma timer_keeps: "fo_confirmed (timer_fires s) = fo_confirmed s" "fo_priced (timer_fires s) = fo_priced s" "fo_promo (timer_fires s) = fo_promo s"
  by (simp_all add: timer_fires_def doCalculate_def Let_def split: option.split prod.split)

lemma event_form_history:
  assumes "form_event upper s t" "form_run upper stringify productId s" "form_history stringify productId s"
  shows "form_history stringify productId t"
  using assms
proof (cases rule: form_event.cases)
  case form_buy
  have "fo_confirmed t = fo_confirmed s @ [(\<lparr> co_config = finalConfig s, co_quantity = orderQty s, co_promo = promo_code_sent (fo_promo s) \<rparr>,
      form_payable s, fo_available s, settled s)]" "fo_priced t = fo_priced s" "fo_promo t = fo_promo s"
    using form_buy(1) by (simp_all add: confirmBuy_def Let_def)
  then show ?thesis using buy_now [OF assms(2) form_buy(2)] assms(3) by (simp add: form_history_def)
next
  case (form_options n a)
  then show ?thesis
    by (intro form_historyI [OF assms(3)]) (auto simp: options_answer_def Let_def schedule_keeps split: option.split)
next
  case (form_quantity n)
  then show ?thesis
    by (intro form_historyI [OF assms(3)])
      (auto simp: pick_quantity_def Let_def schedule_keeps split: option.split quantity_control.split)
next
  case (form_price f a)
  then show ?thesis
    by (intro form_historyI [OF assms(3)]) (auto simp: calc_answer_def Let_def split: option.split)
next
  case (form_quote call q)
  then show ?thesis by (intro form_historyI [OF assms(3)]) (simp_all add: promo_act_quoted)
qed (intro form_historyI [OF assms(3)]; simp add: texts_change_def load_options_def updateField_def schedule_keeps timer_keeps
    handleSubmit_def config_order_answer_def close_form_def press_escape_def promo_act_quoted apply_code_keeps Let_def)+

lemma form_run_history: "form_run upper stringify productId s \<Longrightarrow> form_history stringify productId s"
proof (induction rule: form_run.induct)
  case (form_init account)
  then show ?case by (simp add: form_history_def form_start_def)
next
  case (form_next s t)
  then have "form_history stringify productId t" using event_form_history by blast
  then show ?case by (rule form_historyI) (simp_all add: form_render_def render_quoted)
qed


text \<open>A field changes, and the buyer opens the confirmation before the timer has fired.\<close>

definition hasty_confirmation :: "(jstr \<Rightarrow> jstr) \<Rightarrow> (params \<Rightarrow> jstr) \<Rightarrow> int \<Rightarrow> jstr \<Rightarrow> json \<Rightarrow> form \<Rightarrow> form" where
  "hasty_confirmation upper stringify productId k v s =
     form_render upper stringify productId (handleSubmit (form_render upper stringify productId (updateField k v s)))"

lemma quiet_render:
  assumes "promo_ok m" "pm_quote m = None" "\<not> pm_checking m"
  shows "pm_quote (run_effect upper (render_body key m)) = None \<and> \<not> pm_checking (run_effect upper (render_body key m))"
  using assms by (auto simp: render_body_def run_effect_def stale_def promo_reset_def Let_def)

lemma quiet_shown: "pm_quote m = None \<Longrightarrow> \<not> pm_checking m \<Longrightarrow> \<not> checking_shown m \<and> payable t m = t"
  by (simp add: checking_shown_def stale_def payable_def payableTotal_def)

text \<open>C22: between a change of the configuration and its new price, the button that
  opens the confirmation is enabled, and so is the button that places the order: it names the price of
  the old configuration, and the order that is sent has the new one.\<close>

theorem old_price_confirmed:
  assumes "form_run upper stringify productId s" and "submit_enabled s" and "fo_account s" and "fo_calc s = Some (b, r)"
    and "pm_quote (fo_promo s) = None" and "\<not> pm_checking (fo_promo s)" and "fo_available s = None"
    and "finalConfig (updateField k v s) \<noteq> b"
  shows "submit_enabled (updateField k v s) \<and> buy_enabled (hasty_confirmation upper stringify productId k v s) \<and>
    form_payable (hasty_confirmation upper stringify productId k v s) = cr_amount r \<and>
    co_config (last (fo_calls (confirmBuy (hasty_confirmation upper stringify productId k v s)))) = finalConfig (updateField k v s) \<and>
    finalConfig (updateField k v s) \<noteq> b \<and> \<not> settled (hasty_confirmation upper stringify productId k v s)"
proof -
  define u where "u = updateField k v s"
  have opts: "fo_options s \<noteq> None" using assms(2) by (auto simp: submit_enabled_def)
  then have u: "u = s \<lparr> fo_config := AList.update k v (fo_config s), fo_timer := Some (AList.update k v (fo_config s), fo_qty s) \<rparr>"
    by (auto simp: u_def updateField_def schedule_def)
  define m1 where "m1 = fo_promo (form_render upper stringify productId u)"
  define t where "t = hasty_confirmation upper stringify productId k v s"
  have t: "t = u \<lparr> fo_showConfirm := True, fo_promo := fo_promo t \<rparr>"
    by (simp add: t_def hasty_confirmation_def u_def [symmetric] form_render_def handleSubmit_def) (simp add: u assms(3))
  have "promo_ok (fo_promo s)" by (rule order_form.promo_sound [OF assms(1)])
  then have m1: "promo_ok m1" "pm_quote m1 = None" "\<not> pm_checking m1"
    using quiet_render [of "fo_promo s"] assms(5,6) by (simp_all add: m1_def form_render_def u run_effect_ok render_body_ok)
  have "\<exists>key. fo_promo t = run_effect upper (render_body key m1)"
    by (simp add: t_def hasty_confirmation_def u_def [symmetric] form_render_def handleSubmit_def m1_def) blast
  then have "pm_quote (fo_promo t) = None" "\<not> pm_checking (fo_promo t)"
    using quiet_render [OF m1] by auto
  note quiet = quiet_shown [OF this]
  have final: "finalConfig t = finalConfig u" by (rule same_final; subst t; simp)
  have fields: "fo_calc t = Some (b, r)" "fo_available t = None" "fo_placing t = fo_placing s" "fo_showConfirm t" "fo_timer t \<noteq> None"
    "form_visible t = form_visible s"
    by (subst t, simp add: u assms(4,7) form_visible_def)+
  have "buy_enabled t"
    using assms(2) quiet fields by (simp add: buy_enabled_def submit_enabled_def walletShortfall_def)
  moreover have "form_payable t = cr_amount r" using quiet fields(1) by (simp add: form_payable_def displayAmount_def)
  moreover have "co_config (last (fo_calls (confirmBuy t))) = finalConfig u" by (simp add: confirmBuy_def Let_def final)
  moreover have "submit_enabled u" using assms(2) by (simp add: u submit_enabled_def form_visible_def)
  moreover have "\<not> settled t" using fields(5) by (simp add: settled_def)
  ultimately show ?thesis using assms(8) by (simp add: t_def u_def)
qed

text \<open>A form with one choice of days, loaded and priced for the first of them.\<close>

definition sample_field :: pricing_field where
  "sample_field = \<lparr> fd_field = js ''days'', fd_type = FieldSelect, fd_required = True, fd_choices = Some [JStr (js ''7''), JStr (js ''30'')],
     fd_min = None, fd_default = None \<rparr>"

definition sample_options :: pricing_options where
  "sample_options = \<lparr> qo_strategy = Some (js ''config''), qo_adapter_type = None, qo_max_quantity = None,
     po_fields = [sample_field], po_ready = True \<rparr>"

definition sample_result :: calc_result where
  "sample_result = \<lparr> cr_amount = 70, cr_original_amount = None, cr_discount_pct = None \<rparr>"

abbreviation plain_render :: "form \<Rightarrow> form" where
  "plain_render \<equiv> form_render id (\<lambda>_. js ''k'') 1"

definition sample_body :: params where
  "sample_body = [(js ''days'', JStr (js ''7'')), (js ''quantity'', JNum (Fin 1))]"

definition sample_loaded :: form where "sample_loaded = plain_render (options_answer 0 (Some sample_options) (form_start True))"
definition sample_waiting :: form where "sample_waiting = plain_render (timer_fires sample_loaded)"
definition sample_priced :: form where "sample_priced = plain_render (calc_answer (1, sample_body) (Some sample_result) sample_waiting)"

lemma plain_render_closed: "\<not> fo_showConfirm s \<Longrightarrow> fo_promo s = promo_start None \<Longrightarrow> plain_render s = s"
  by (cases s) (simp add: form_render_def form_key_def form_body_def promoQuoteKey_def render_body_def promo_start_def run_effect_def stale_def)

lemma sample_loaded_eq:
  "sample_loaded = (form_start True) \<lparr> fo_loads := [], fo_options := Some sample_options, fo_config := [(js ''days'', JStr (js ''7''))],
     fo_loading := False, fo_timer := Some ([(js ''days'', JStr (js ''7''))], Fin 1) \<rparr>"
proof -
  have merged: "merge_defaults [] (field_defaults [sample_field]) = [(js ''days'', JStr (js ''7''))]"
    by (simp add: merge_defaults_def field_defaults_def default_value_def sample_field_def unset_def del: js_Cons)
  have "options_answer 0 (Some sample_options) (form_start True) = (form_start True) \<lparr> fo_loads := [], fo_options := Some sample_options,
      fo_config := [(js ''days'', JStr (js ''7''))], fo_loading := False, fo_timer := Some ([(js ''days'', JStr (js ''7''))], Fin 1) \<rparr>"
    by (simp add: options_answer_def form_start_def schedule_def Let_def del: js_Cons)
      (simp add: sample_options_def merged del: js_Cons)
  then show ?thesis unfolding sample_loaded_def by (simp only:) (rule plain_render_closed; simp add: form_start_def)
qed

lemma sample_waiting_eq:
  "sample_waiting = sample_loaded \<lparr> fo_timer := None, fo_seq := 1, fo_calculating := True, fo_flights := [(1, sample_body)] \<rparr>"
proof -
  have control: "quantityControl (rules sample_options) = Stepper MAX_ORDER_QUANTITY False"
    by (simp add: quantityControl_def sample_options_def quantity_options.defs isAutoProxy_def perOrderMax_def js_eq_iff del: js_Cons)
  have "orderQuantity (quantityControl (rules sample_options)) (Fin 1) = 1"
    by (simp add: control orderQuantity_def clampQuantity_def MAX_ORDER_QUANTITY_def)
  moreover have "orderConfig [(js ''days'', JStr (js ''7''))] (rules sample_options) 1 = sample_body"
    by (simp add: orderConfig_def sample_body_def isPoolProxy_def isAutoProxy_def sample_options_def quantity_options.defs js_eq_iff del: js_Cons)
  moreover have "\<not> missingRequired sample_options [(js ''days'', JStr (js ''7''))]"
    by (simp add: missingRequired_def sample_options_def sample_field_def unset_def)
  moreover have "po_ready sample_options" "po_fields sample_options \<noteq> []" by (simp_all add: sample_options_def)
  ultimately have "timer_fires sample_loaded = sample_loaded \<lparr> fo_timer := None, fo_seq := 1, fo_calculating := True, fo_flights := [(1, sample_body)] \<rparr>"
    by (simp add: timer_fires_def sample_loaded_eq doCalculate_def form_start_def Let_def del: js_Cons)
  then show ?thesis unfolding sample_waiting_def
    by (simp only:) (rule plain_render_closed; simp add: sample_loaded_eq form_start_def)
qed

lemma sample_priced_eq:
  "sample_priced = sample_loaded \<lparr> fo_timer := None, fo_seq := 1, fo_flights := [], fo_calc := Some (sample_body, sample_result),
     fo_priced := [(sample_body, sample_result)] \<rparr>"
proof -
  have "calc_answer (1, sample_body) (Some sample_result) sample_waiting = sample_loaded \<lparr> fo_timer := None, fo_seq := 1, fo_flights := [],
     fo_calc := Some (sample_body, sample_result), fo_priced := [(sample_body, sample_result)] \<rparr>"
    by (simp add: sample_waiting_eq calc_answer_def Let_def) (simp add: sample_loaded_eq form_start_def)
  then show ?thesis unfolding sample_priced_def
    by (simp only:) (rule plain_render_closed; simp add: sample_loaded_eq form_start_def)
qed

lemma sample_priced_run: "form_run id (\<lambda>_. js ''k'') 1 sample_priced"
proof -
  have "form_run id (\<lambda>_. js ''k'') 1 sample_loaded"
    unfolding sample_loaded_def by (rule form_next [OF form_init form_options]) (simp add: form_start_def)
  then have waiting: "form_run id (\<lambda>_. js ''k'') 1 sample_waiting" unfolding sample_waiting_def by (rule form_next [OF _ form_timer])
  have "(1, sample_body) \<in> set (fo_flights sample_waiting)" by (simp add: sample_waiting_eq)
  then show ?thesis unfolding sample_priced_def by (rule form_next [OF waiting form_price])
qed

lemma sample_submit: "submit_enabled sample_priced" "fo_account sample_priced" "pm_quote (fo_promo sample_priced) = None"
  "\<not> pm_checking (fo_promo sample_priced)" "fo_available sample_priced = None" "fo_calc sample_priced = Some (sample_body, sample_result)"
  by (simp_all add: submit_enabled_def form_visible_def sample_priced_eq sample_loaded_eq form_start_def promo_start_def)
    (simp add: sample_options_def)

lemma old_price_confirmed_witness:
  "form_run id (\<lambda>_. js ''k'') 1 sample_priced \<and>
   buy_enabled (hasty_confirmation id (\<lambda>_. js ''k'') 1 (js ''days'') (JStr (js ''30'')) sample_priced) \<and>
   form_payable (hasty_confirmation id (\<lambda>_. js ''k'') 1 (js ''days'') (JStr (js ''30'')) sample_priced) = 70"
proof -
  have new: "map_of (finalConfig (updateField (js ''days'') (JStr (js ''30'')) sample_priced)) (js ''days'') = Some (JStr (js ''30''))"
    by (simp add: updateField_def schedule_def sample_priced_eq sample_loaded_eq form_start_def finalConfig_def orderConfig_def Let_def
        isPoolProxy_def isAutoProxy_def sample_options_def quantity_options.defs update_conv' js_eq_iff del: js_Cons)
  have old: "map_of sample_body (js ''days'') = Some (JStr (js ''7''))" by (simp add: sample_body_def)
  have "finalConfig (updateField (js ''days'') (JStr (js ''30'')) sample_priced) \<noteq> sample_body"
  proof
    assume "finalConfig (updateField (js ''days'') (JStr (js ''30'')) sample_priced) = sample_body"
    with new old have "js ''30'' = js ''7''" by (simp only: option.inject json.inject)
    then show False by (simp add: js_eq_iff del: js_Cons)
  qed
  from old_price_confirmed [OF sample_priced_run sample_submit(1,2,6,3,4,5) this] sample_priced_run
  show ?thesis by (simp add: sample_result_def)
qed


section \<open>Loading and waiting\<close>

lemma merge_keeps: "\<not> unset (map_of prev k) \<Longrightarrow> map_of (merge_defaults prev ds) k = map_of prev k"
proof (induction ds arbitrary: prev)
  case (Cons d ds)
  obtain field v where d: "d = (field, v)" by (cases d)
  let ?next = "if unset (map_of prev field) then AList.update field v prev else prev"
  have same: "map_of ?next k = map_of prev k" using Cons.prems by (auto simp: update_conv')
  then have "map_of (merge_defaults ?next ds) k = map_of ?next k" using Cons by simp
  then show ?case using same by (simp add: merge_defaults_def d)
qed (simp add: merge_defaults_def)

text \<open>Loading the options never overwrites what the buyer has chosen.\<close>

lemma choices_kept:
  "\<not> unset (map_of (fo_config s) k) \<Longrightarrow> map_of (fo_config (options_answer n a s)) k = map_of (fo_config s) k"
  by (auto simp: options_answer_def Let_def schedule_def merge_keeps split: option.split)

text \<open>Only the answer to the last question about the price counts.\<close>

lemma latest_answer_counts:
  "fst f \<noteq> fo_seq s \<Longrightarrow> calc_answer f a s = s \<lparr> fo_flights := remove1 f (fo_flights s) \<rparr>"
  by (simp add: calc_answer_def)

text \<open>
  When a required field is emptied while a price is being computed, the answer is ignored and nobody
  takes the computing state back: the form goes on saying that it calculates, with nothing asked for.
\<close>

lemma calculating_stuck:
  assumes "fo_options s = Some o'" "po_ready o'" "po_fields o' \<noteq> []" "fo_flights s = [(fo_seq s, b)]" "fo_calculating s"
    "fo_timer s = Some (cfg, q)" "missingRequired o' cfg"
  shows "fo_calculating (calc_answer (fo_seq s, b) a (timer_fires s)) \<and> fo_flights (calc_answer (fo_seq s, b) a (timer_fires s)) = [] \<and>
    fo_timer (calc_answer (fo_seq s, b) a (timer_fires s)) = None"
  using assms by (simp add: timer_fires_def doCalculate_def calc_answer_def Let_def)

text \<open>An error on loading the options stays, also when they are loaded again and arrive.\<close>

lemma options_error_sticks: "fo_optionsError s \<Longrightarrow> \<not> form_visible (options_answer n a s)"
  by (auto simp: form_visible_def options_answer_def schedule_def Let_def split: option.split)

end
