(* ===== verification/Proxy_Plans.thy ===== *)
theory Proxy_Plans
  imports Pricing_Grid Url_Params
begin

text \<open>
  The package table of a proxy product (features/seller-product-form/proxy-plans.ts): the plans of the
  source become draft rows, one per network and duration where the protocols share their price; the
  seller edits prices; saving spreads each row to one price per protocol.  Rounding and margins are those
  of the pricing grid.  Prices are whole dong, costs and percentages exact fractions, and
  \<open>localeCompare\<close> is a parameter.
\<close>

section \<open>Plans and rows\<close>

record plan_row =
  pl_type :: jstr
  pl_network :: jstr
  pl_days :: nat
  pl_network_label :: jstr
  pl_price :: "int option"
  pl_cost_price :: "rat option"
  pl_supported :: bool

record draft_row =
  dr_id :: jstr
  dr_types :: "jstr list"
  dr_network :: jstr
  dr_networkLabel :: jstr
  dr_days :: nat
  dr_price :: int
  dr_savedPrice :: "int option"
  dr_cost :: "rat option"
  dr_supported :: bool

record plan_meta =
  me_adapter :: jstr
  me_min_margin_pct :: rat
  me_from_formula :: bool
  me_can_add :: bool
  me_protocols :: "jstr list"
  me_networks :: "(jstr \<times> jstr) list"

record plan_editor =
  pe_meta :: plan_meta
  pe_rows :: "draft_row list"
  pe_savedRows :: "draft_row list"
  pe_baseParams :: params

definition rowId :: "jstr \<Rightarrow> nat \<Rightarrow> jstr option \<Rightarrow> jstr" where
  "rowId network days type' =
     (case type' of None \<Rightarrow> network @ [124] @ show_nat days | Some t \<Rightarrow> cellKey t network days)"

text \<open>\<open>indexOf\<close>, with the length for what is not there.\<close>

definition network_rank :: "jstr list \<Rightarrow> jstr \<Rightarrow> int" where
  "network_rank networkOrder network = int (length (takeWhile (\<lambda>n. n \<noteq> network) networkOrder))"

definition row_cmp :: "(jstr \<Rightarrow> jstr \<Rightarrow> int) \<Rightarrow> jstr list \<Rightarrow> draft_row \<Rightarrow> draft_row \<Rightarrow> int" where
  "row_cmp lc networkOrder a b =
     (let r = network_rank networkOrder (dr_network a) - network_rank networkOrder (dr_network b);
          d = int (dr_days a) - int (dr_days b)
      in if r \<noteq> 0 then r else if d \<noteq> 0 then d else lc (dr_id a) (dr_id b))"

definition sortRows :: "(jstr \<Rightarrow> jstr \<Rightarrow> int) \<Rightarrow> draft_row list \<Rightarrow> jstr list \<Rightarrow> draft_row list" where
  "sortRows lc rows networkOrder = sort_by (row_cmp lc networkOrder) rows"

text \<open>The default \<open>sort()\<close> of strings.\<close>

definition text_cmp :: "jstr \<Rightarrow> jstr \<Rightarrow> int" where
  "text_cmp a b = (if str_less a b then -1 else if str_less b a then 1 else 0)"

definition price_or_zero :: "plan_row \<Rightarrow> int" where
  "price_or_zero p = (case pl_price p of None \<Rightarrow> 0 | Some q \<Rightarrow> q)"

definition higher :: "'a::linorder option \<Rightarrow> 'a option \<Rightarrow> 'a option" where
  "higher a b = (case (a, b) of (Some x, Some y) \<Rightarrow> Some (max x y) | (None, _) \<Rightarrow> b | (_, None) \<Rightarrow> a)"

definition plan_id :: "jstr list \<Rightarrow> plan_row \<Rightarrow> jstr" where
  "plan_id protocols p =
     rowId (pl_network p) (pl_days p) (if protocols \<noteq> [] \<and> pl_type p \<in> set protocols then None else Some (pl_type p))"

definition new_row :: "jstr \<Rightarrow> plan_row \<Rightarrow> draft_row" where
  "new_row i p =
     \<lparr> dr_id = i, dr_types = [pl_type p], dr_network = pl_network p, dr_networkLabel = pl_network_label p, dr_days = pl_days p,
       dr_price = price_or_zero p, dr_savedPrice = pl_price p, dr_cost = pl_cost_price p, dr_supported = pl_supported p \<rparr>"

definition merge_row :: "draft_row \<Rightarrow> plan_row \<Rightarrow> draft_row" where
  "merge_row r p =
     r \<lparr> dr_types := sort_by text_cmp (uniq (dr_types r @ [pl_type p])),
         dr_price := max (dr_price r) (price_or_zero p),
         dr_savedPrice := higher (dr_savedPrice r) (pl_price p),
         dr_cost := higher (dr_cost r) (pl_cost_price p),
         dr_supported := dr_supported r \<and> pl_supported p \<rparr>"

definition draft_step :: "jstr list \<Rightarrow> (jstr \<times> draft_row) list \<Rightarrow> plan_row \<Rightarrow> (jstr \<times> draft_row) list" where
  "draft_step protocols byId p =
     (let i = plan_id protocols p
      in case map_of byId i of
           None \<Rightarrow> AList.update i (new_row i p) byId
         | Some current \<Rightarrow> AList.update i (merge_row current p) byId)"

definition draftRowsFromPlans :: "(jstr \<Rightarrow> jstr \<Rightarrow> int) \<Rightarrow> plan_row list \<Rightarrow> jstr list \<Rightarrow> jstr list \<Rightarrow> draft_row list" where
  "draftRowsFromPlans lc plans protocols networkOrder =
     sortRows lc (map snd (foldl (draft_step protocols) [] plans)) networkOrder"

definition editorFromPlans :: "(jstr \<Rightarrow> jstr \<Rightarrow> int) \<Rightarrow> plan_meta \<Rightarrow> plan_row list \<Rightarrow> params option \<Rightarrow> plan_editor" where
  "editorFromPlans lc meta plans baseParams =
     (let rows = draftRowsFromPlans lc plans (me_protocols meta) (map fst (me_networks meta))
      in \<lparr> pe_meta = meta, pe_rows = rows, pe_savedRows = rows, pe_baseParams = (case baseParams of None \<Rightarrow> [] | Some p \<Rightarrow> p) \<rparr>)"

section \<open>Editing and saving\<close>

definition suggestPrice :: "rat option \<Rightarrow> rat \<Rightarrow> int" where
  "suggestPrice cost pct = (case cost of None \<Rightarrow> 0 | Some c \<Rightarrow> if c \<le> 0 then 0 else roundUp (c * (1 + pct / 100)))"

datatype row_issue = Unsupported | MissingPrice | BelowFloor

definition rowIssue :: "draft_row \<Rightarrow> rat \<Rightarrow> row_issue option" where
  "rowIssue r minMarginPct =
     (if \<not> dr_supported r then Some Unsupported
      else if dr_price r \<le> 0 then Some MissingPrice
      else case minimumPrice (dr_cost r) minMarginPct of
             Some m \<Rightarrow> if of_int (dr_price r) < m then Some BelowFloor else None
           | None \<Rightarrow> None)"

definition applyMargin :: "draft_row list \<Rightarrow> rat \<Rightarrow> draft_row list" where
  "applyMargin rows pct =
     map (\<lambda>r. if dr_cost r \<notin> {None, Some 0} then r \<lparr> dr_price := suggestPrice (dr_cost r) pct \<rparr> else r) rows"

definition isChanged :: "draft_row \<Rightarrow> bool" where
  "isChanged r \<longleftrightarrow> dr_savedPrice r \<noteq> Some (dr_price r)"

definition changeCount :: "plan_editor \<Rightarrow> nat" where
  "changeCount e =
     length (filter isChanged (pe_rows e)) +
     length (filter (\<lambda>r. dr_id r \<notin> set (map dr_id (pe_rows e))) (pe_savedRows e))"

definition resetEditor :: "plan_editor \<Rightarrow> plan_editor" where
  "resetEditor e = e \<lparr> pe_rows := pe_savedRows e \<rparr>"

definition addRow :: "(jstr \<Rightarrow> jstr \<Rightarrow> int) \<Rightarrow> plan_editor \<Rightarrow> draft_row \<Rightarrow> plan_editor" where
  "addRow lc e r =
     e \<lparr> pe_rows := sortRows lc (filter (\<lambda>i. dr_id i \<noteq> dr_id r) (pe_rows e) @ [r]) (map fst (me_networks (pe_meta e))) \<rparr>"

definition hasRow :: "plan_editor \<Rightarrow> jstr \<Rightarrow> nat \<Rightarrow> bool" where
  "hasRow e network days \<longleftrightarrow> list_ex (\<lambda>r. dr_network r = network \<and> dr_days r = days) (pe_rows e)"

definition row_prices :: "draft_row \<Rightarrow> (jstr \<times> int) list" where
  "row_prices r = map (\<lambda>t. (cellKey t (dr_network r) (dr_days r), dr_price r)) (dr_types r)"

definition planPricesFromRows :: "draft_row list \<Rightarrow> (jstr \<times> int) list" where
  "planPricesFromRows rows = foldl (\<lambda>out r. foldl (\<lambda>o' (k, v). AList.update k v o') out (row_prices r)) [] rows"

definition name_network :: "params \<Rightarrow> draft_row \<Rightarrow> params" where
  "name_network shown r =
     (if map_of shown (dr_network r) \<in> {None, Some (JStr [])}
      then AList.update (dr_network r) (JStr (dr_networkLabel r)) shown else shown)"

definition paramsFromEditor :: "plan_editor \<Rightarrow> params" where
  "paramsFromEditor e =
     (let p = foldl (\<lambda>p k. AList.delete k p) (pe_baseParams e) FORMULA_KEYS;
          shown = foldl name_network (json_record (map_of (pe_baseParams e) (js ''network_display''))) (pe_rows e);
          p1 = AList.update (js ''network_display'') (JObj shown) p
      in AList.update (js ''plan_prices'') (JObj (map (\<lambda>(k, v). (k, JNum (Fin (of_int v)))) (planPricesFromRows (pe_rows e)))) p1)"

definition perDay :: "int \<Rightarrow> nat \<Rightarrow> int" where
  "perDay price days = (if 0 < days then js_round (of_int price / of_nat days) else 0)"

record table_summary =
  ts_count :: nat
  ts_minMargin :: "rat option"
  ts_maxMargin :: "rat option"
  ts_issues :: nat
  ts_changed :: nat
  ts_minPrice :: "int option"

definition table_summary_of :: "draft_row list \<Rightarrow> rat \<Rightarrow> table_summary" where
  "table_summary_of rows minMarginPct =
     (let margins = concat (map (\<lambda>r. case marginPct (dr_price r) (dr_cost r) of None \<Rightarrow> [] | Some m \<Rightarrow> [m]) rows)
      in \<lparr> ts_count = length rows,
           ts_minMargin = (if margins = [] then None else Some (Min (set margins))),
           ts_maxMargin = (if margins = [] then None else Some (Max (set margins))),
           ts_issues = length (filter (\<lambda>r. rowIssue r minMarginPct \<noteq> None) rows),
           ts_changed = length (filter isChanged rows),
           ts_minPrice = foldl (\<lambda>m r. case m of None \<Rightarrow> Some (dr_price r) | Some x \<Rightarrow> if dr_price r < x then Some (dr_price r) else m)
              None (filter (\<lambda>r. 0 < dr_price r) rows) \<rparr>)"

section \<open>Loading the table\<close>

definition merged :: "jstr \<Rightarrow> plan_row \<Rightarrow> plan_row list \<Rightarrow> draft_row" where
  "merged i p ps = foldl merge_row (new_row i p) ps"

definition group_row :: "jstr \<Rightarrow> plan_row list \<Rightarrow> draft_row" where
  "group_row i ps = merged i (hd ps) (tl ps)"

lemma merged_simps: "merged i p [] = new_row i p" "merged i p (ps @ [q]) = merge_row (merged i p ps) q"
  by (simp_all add: merged_def)

lemma update_map_keys:
  "distinct ks \<Longrightarrow> k \<in> set ks \<Longrightarrow> AList.update k v (map (\<lambda>x. (x, f x)) ks) = map (\<lambda>x. (x, if x = k then v else f x)) ks"
  by (induction ks) (auto intro!: map_cong)

definition group_of :: "jstr list \<Rightarrow> plan_row list \<Rightarrow> jstr \<Rightarrow> draft_row" where
  "group_of protocols ps i = group_row i (filter (\<lambda>p. plan_id protocols p = i) ps)"

lemma group_of_other: "i \<noteq> plan_id protocols p \<Longrightarrow> group_of protocols (ps @ [p]) i = group_of protocols ps i"
  by (auto simp: group_of_def)

lemma group_of_new:
  assumes "plan_id protocols p \<notin> set (map (plan_id protocols) ps)"
  shows "group_of protocols (ps @ [p]) (plan_id protocols p) = new_row (plan_id protocols p) p"
proof -
  have "filter (\<lambda>q. plan_id protocols q = plan_id protocols p) ps = []"
    using assms unfolding filter_empty_conv set_map by (metis image_eqI)
  then show ?thesis by (simp add: group_of_def group_row_def merged_def)
qed

lemma group_of_more:
  assumes "plan_id protocols p \<in> set (map (plan_id protocols) ps)"
  shows "group_of protocols (ps @ [p]) (plan_id protocols p) = merge_row (group_of protocols ps (plan_id protocols p)) p"
proof -
  obtain q qs where "filter (\<lambda>q. plan_id protocols q = plan_id protocols p) ps = q # qs"
    using assms by (cases "filter (\<lambda>q. plan_id protocols q = plan_id protocols p) ps") (auto simp: filter_empty_conv)
  then show ?thesis by (simp add: group_of_def group_row_def merged_def)
qed

lemma draft_fold:
  "foldl (draft_step protocols) [] ps = map (\<lambda>i. (i, group_of protocols ps i)) (uniq (map (plan_id protocols) ps))"
proof (induction ps rule: rev_induct)
  case (snoc p ps)
  let ?i = "plan_id protocols p" and ?ks = "uniq (map (plan_id protocols) ps)"
  let ?m = "map (\<lambda>i. (i, group_of protocols ps i)) ?ks"
  have look: "map_of ?m ?i = (if ?i \<in> set ?ks then Some (group_of protocols ps ?i) else None)"
    by (simp add: map_of_map_restrict restrict_map_def)
  have step: "foldl (draft_step protocols) [] (ps @ [p]) = draft_step protocols ?m p" using snoc.IH by simp
  show ?case
  proof (cases "?i \<in> set ?ks")
    case False
    then have fresh: "?i \<notin> set (map (plan_id protocols) ps)" by simp
    have "draft_step protocols ?m p = ?m @ [(?i, new_row ?i p)]"
      using False look by (simp add: draft_step_def Let_def update_fresh image_image)
    moreover have "?m @ [(?i, new_row ?i p)] = map (\<lambda>i. (i, group_of protocols (ps @ [p]) i)) (uniq (map (plan_id protocols) (ps @ [p])))"
    proof -
      have "?m = map (\<lambda>i. (i, group_of protocols (ps @ [p]) i)) ?ks"
        using False by (intro map_cong refl) (metis group_of_other)
      then show ?thesis unfolding uniq_append_single map_append list.map using fresh group_of_new [OF fresh] by simp
    qed
    ultimately show ?thesis unfolding step by (rule trans)
  next
    case True
    then have old: "?i \<in> set (map (plan_id protocols) ps)" by simp
    have "draft_step protocols ?m p = AList.update ?i (merge_row (group_of protocols ps ?i) p) ?m"
      using True look by (simp add: draft_step_def Let_def)
    also have "\<dots> = map (\<lambda>x. (x, if x = ?i then merge_row (group_of protocols ps ?i) p else group_of protocols ps x)) ?ks"
      by (rule update_map_keys) (simp_all only: distinct_uniq True)
    also have "\<dots> = map (\<lambda>i. (i, group_of protocols (ps @ [p]) i)) ?ks"
      by (intro map_cong refl) (simp add: group_of_more [OF old] group_of_other)
    finally show ?thesis
      unfolding step map_append list.map uniq_append_single using old by (simp only: if_True)
  qed
qed simp

lemma merged_facts:
  shows "dr_id (merged i p ps) = i" "dr_network (merged i p ps) = pl_network p" "dr_days (merged i p ps) = pl_days p"
    "set (dr_types (merged i p ps)) = pl_type ` set (p # ps)"
  by (induction ps rule: rev_induct) (auto simp: merged_simps merge_row_def new_row_def)

lemma merged_price:
  "(\<forall>q \<in> set (p # ps). price_or_zero q \<le> dr_price (merged i p ps)) \<and> dr_price (merged i p ps) \<in> price_or_zero ` set (p # ps)"
  by (induction ps rule: rev_induct) (auto simp: merged_simps merge_row_def new_row_def max_def)

lemma merged_saved:
  assumes "\<forall>q \<in> set (p # ps). 0 \<le> price_or_zero q"
  shows "dr_savedPrice (merged i p ps) = (if \<forall>q \<in> set (p # ps). pl_price q = None then None else Some (dr_price (merged i p ps)))"
  using assms
proof (induction ps rule: rev_induct)
  case Nil
  show ?case by (auto simp: merged_simps new_row_def price_or_zero_def)
next
  case (snoc q ps)
  then have q0: "0 \<le> price_or_zero q" and all: "\<forall>q \<in> set (p # ps). 0 \<le> price_or_zero q" by auto
  note saved = snoc.IH [OF all]
  have pos: "0 \<le> dr_price (merged i p ps)" using merged_price [of p ps i] all by force
  have zero: "dr_price (merged i p ps) = 0" if "\<forall>q \<in> set (p # ps). pl_price q = None"
    using merged_price [of p ps i] that by (auto simp: price_or_zero_def)
  show ?case
  proof (cases "\<forall>q \<in> set (p # ps). pl_price q = None")
    case True
    then show ?thesis using saved zero q0 by (auto simp: merged_simps merge_row_def higher_def price_or_zero_def split: option.splits)
  next
    case False
    then have "dr_savedPrice (merged i p ps) = Some (dr_price (merged i p ps))" using saved by simp
    then show ?thesis using False pos by (auto simp: merged_simps merge_row_def higher_def price_or_zero_def split: option.splits)
  qed
qed

text \<open>The rows of a loaded table: one for each identity of a plan, made of the plans of that identity.\<close>

lemma loaded_row:
  assumes "r \<in> set (draftRowsFromPlans lc plans protocols networkOrder)"
  obtains p ps where "filter (\<lambda>q. plan_id protocols q = dr_id r) plans = p # ps" "r = merged (dr_id r) p ps"
proof -
  from assms obtain i where i: "i \<in> plan_id protocols ` set plans" "r = group_row i (filter (\<lambda>q. plan_id protocols q = i) plans)"
    by (auto simp: draftRowsFromPlans_def sortRows_def draft_fold group_of_def)
  then obtain p ps where ps: "filter (\<lambda>q. plan_id protocols q = i) plans = p # ps"
    by (cases "filter (\<lambda>q. plan_id protocols q = i) plans") (auto simp: filter_empty_conv)
  with i(2) have "r = merged i p ps" by (simp add: group_row_def)
  with ps show ?thesis using that merged_facts(1) [of i p ps] by simp
qed

lemma plan_has_row:
  assumes "p \<in> set plans"
  shows "\<exists>r \<in> set (draftRowsFromPlans lc plans protocols networkOrder). dr_id r = plan_id protocols p"
proof -
  let ?ps = "filter (\<lambda>q. plan_id protocols q = plan_id protocols p) plans"
  have "group_row (plan_id protocols p) ?ps \<in> set (draftRowsFromPlans lc plans protocols networkOrder)"
    using assms by (auto simp: draftRowsFromPlans_def sortRows_def draft_fold group_of_def)
  moreover have "dr_id (group_row (plan_id protocols p) ?ps) = plan_id protocols p"
    by (simp add: group_row_def merged_facts)
  ultimately show ?thesis by blast
qed

definition plain_plan :: "plan_row \<Rightarrow> bool" where
  "plain_plan p \<longleftrightarrow> 124 \<notin> set (pl_type p) \<and> 124 \<notin> set (pl_network p)"

definition collapsible :: "jstr list \<Rightarrow> plan_row \<Rightarrow> bool" where
  "collapsible protocols p \<longleftrightarrow> pl_type p \<in> set protocols"

lemma plan_id_eq:
  assumes "plain_plan p" "plain_plan q"
  shows "plan_id protocols p = plan_id protocols q \<longleftrightarrow> pl_network p = pl_network q \<and> pl_days p = pl_days q \<and>
    (pl_type p = pl_type q \<or> collapsible protocols p \<and> collapsible protocols q)"
proof -
  have short: "split_on 124 (n @ 124 # show_nat d) = [n, show_nat d]" if "124 \<notin> set n" for n d
  proof -
    have "124 \<notin> set (show_nat d)" using show_nat_digits [of 124 d] by (auto simp: is_digit_def)
    then show ?thesis using that by (simp add: split_on_append split_on_free)
  qed
  have parts: "split_on 124 (plan_id protocols r) =
      (if collapsible protocols r then [pl_network r, show_nat (pl_days r)] else [pl_type r, pl_network r, show_nat (pl_days r)])"
    if "plain_plan r" for r
    using that by (auto simp: plan_id_def rowId_def collapsible_def plain_plan_def short split_cellKey)
  show ?thesis
  proof
    assume "plan_id protocols p = plan_id protocols q"
    then have "split_on 124 (plan_id protocols p) = split_on 124 (plan_id protocols q)" by simp
    then show "pl_network p = pl_network q \<and> pl_days p = pl_days q \<and>
      (pl_type p = pl_type q \<or> collapsible protocols p \<and> collapsible protocols q)"
      unfolding parts [OF assms(1)] parts [OF assms(2)] by (auto simp: show_nat_inj split: if_splits)
  qed (auto simp: plan_id_def collapsible_def)
qed

section \<open>Saving the table\<close>

lemma foldl_update_last:
  "map_of (foldl (\<lambda>o' (k, v). AList.update k v o') out kvs) key =
     (case map_of (rev kvs) key of None \<Rightarrow> map_of out key | Some v \<Rightarrow> Some v)"
  by (induction kvs arbitrary: out) (auto simp: update_conv' map_add_def split: option.splits)

lemma planPrices_flat: "planPricesFromRows rows = foldl (\<lambda>o' (k, v). AList.update k v o') [] (concat (map row_prices rows))"
proof -
  have "foldl (\<lambda>out r. foldl (\<lambda>o' (k, v). AList.update k v o') out (row_prices r)) out rows =
      foldl (\<lambda>o' (k, v). AList.update k v o') out (concat (map row_prices rows))" for out
    by (induction rows arbitrary: out) auto
  then show ?thesis by (simp add: planPricesFromRows_def)
qed

lemma map_of_same_value:
  assumes "(k, v) \<in> set kvs" "\<And>w. (k, w) \<in> set kvs \<Longrightarrow> w = v"
  shows "map_of kvs k = Some v"
  using assms by (metis map_of_SomeD weak_map_of_SomeI)

lemma saved_price:
  "map_of (planPricesFromRows rows) k = map_of (rev (concat (map row_prices rows))) k"
  by (simp add: planPrices_flat foldl_update_last split: option.split)


text \<open>C31: loading the plans of a proxy product and saving the table unedited
  keeps every package and lowers no price: each plan's protocol, network and duration is in the saved
  prices, at no less than its own price and exactly the price of one of the plans that share its row;
  nothing else is saved; and the freshly loaded table reports as unsaved exactly the rows that have no
  price at all.\<close>

theorem proxy_table_never_lowers:
  assumes "\<forall>p \<in> set plans. plain_plan p \<and> 0 \<le> price_or_zero p"
  shows "(\<forall>p \<in> set plans. \<exists>q.
      map_of (planPricesFromRows (draftRowsFromPlans lc plans protocols order)) (cellKey (pl_type p) (pl_network p) (pl_days p)) = Some q \<and>
      price_or_zero p \<le> q \<and> (\<exists>p' \<in> set plans. plan_id protocols p' = plan_id protocols p \<and> price_or_zero p' = q)) \<and>
    (\<forall>k v. map_of (planPricesFromRows (draftRowsFromPlans lc plans protocols order)) k = Some v \<longrightarrow>
      (\<exists>p \<in> set plans. k = cellKey (pl_type p) (pl_network p) (pl_days p))) \<and>
    (\<forall>r \<in> set (draftRowsFromPlans lc plans protocols order).
      isChanged r = (\<forall>p \<in> set plans. plan_id protocols p = dr_id r \<longrightarrow> pl_price p = None))"
proof (intro conjI ballI allI impI)
  let ?rows = "draftRowsFromPlans lc plans protocols order"
  let ?kvs = "rev (concat (map row_prices ?rows))"
  have row: "\<exists>p \<in> set plans. plan_id protocols p = dr_id r \<and> pl_type p = t \<and> pl_network p = dr_network r \<and> pl_days p = dr_days r"
    if "r \<in> set ?rows" "t \<in> set (dr_types r)" for r t
  proof -
    from loaded_row [OF that(1)] obtain p ps where ps: "filter (\<lambda>q. plan_id protocols q = dr_id r) plans = p # ps"
        and r: "r = merged (dr_id r) p ps" by blast
    have in_plans: "q \<in> set plans \<and> plan_id protocols q = dr_id r" if "q \<in> set (p # ps)" for q
      using that unfolding ps [symmetric] by simp
    from that(2) r obtain q where q: "q \<in> set (p # ps)" "pl_type q = t" by (metis merged_facts(4) imageE)
    have "plan_id protocols q = plan_id protocols p" "plain_plan q" "plain_plan p"
      using in_plans [OF q(1)] in_plans [of p] assms by auto
    then have "pl_network q = pl_network p \<and> pl_days q = pl_days p" using plan_id_eq by blast
    moreover have "dr_network r = pl_network p" "dr_days r = pl_days p"
      using r merged_facts(2,3) by metis+
    ultimately show ?thesis using in_plans [OF q(1)] q(2) by auto
  qed
  show "\<exists>p \<in> set plans. k = cellKey (pl_type p) (pl_network p) (pl_days p)" if "map_of (planPricesFromRows ?rows) k = Some v" for k v
  proof -
    from that have "(k, v) \<in> set ?kvs" unfolding saved_price by (rule map_of_SomeD)
    then obtain r t where "r \<in> set ?rows" "t \<in> set (dr_types r)" "k = cellKey t (dr_network r) (dr_days r)"
      by (auto simp: row_prices_def)
    with row show ?thesis by metis
  qed
  show "\<exists>q. map_of (planPricesFromRows ?rows) (cellKey (pl_type p) (pl_network p) (pl_days p)) = Some q \<and> price_or_zero p \<le> q \<and>
      (\<exists>p' \<in> set plans. plan_id protocols p' = plan_id protocols p \<and> price_or_zero p' = q)" if "p \<in> set plans" for p
  proof -
    from plan_has_row [OF that] obtain r where r: "r \<in> set ?rows" "dr_id r = plan_id protocols p" by blast
    from loaded_row [OF r(1)] obtain p0 ps where ps: "filter (\<lambda>q. plan_id protocols q = dr_id r) plans = p0 # ps"
        and rm: "r = merged (dr_id r) p0 ps" by blast
    have members: "q \<in> set (p0 # ps) \<longleftrightarrow> q \<in> set plans \<and> plan_id protocols q = plan_id protocols p" for q
      unfolding ps [symmetric] r(2) by simp
    have p: "p \<in> set (p0 # ps)" using members that by simp
    have types: "pl_type p \<in> set (dr_types r)" using p rm by (metis merged_facts(4) imageI)
    from row [OF r(1) types] r(2) that assms have place: "dr_network r = pl_network p" "dr_days r = pl_days p"
      using plan_id_eq by metis+
    let ?k = "cellKey (pl_type p) (pl_network p) (pl_days p)"
    have "(?k, dr_price r) \<in> set (row_prices r)" using types by (auto simp: row_prices_def place)
    then have "(?k, dr_price r) \<in> set ?kvs" using r(1) by auto
    moreover have "w = dr_price r" if "(?k, w) \<in> set ?kvs" for w
    proof -
      from that obtain r' t where r': "r' \<in> set ?rows" "t \<in> set (dr_types r')" "?k = cellKey t (dr_network r') (dr_days r')" "w = dr_price r'"
        by (auto simp: row_prices_def)
      from row [OF r'(1,2)] obtain q where q: "q \<in> set plans" "plan_id protocols q = dr_id r'" "pl_type q = t"
          "pl_network q = dr_network r'" "pl_days q = dr_days r'" by blast
      have "pl_type p = pl_type q \<and> pl_network p = pl_network q \<and> pl_days p = pl_days q"
        using r'(3) q assms \<open>p \<in> set plans\<close> by (metis cellKey_inj plain_plan_def)
      then have "dr_id r' = dr_id r" using q(1,2) r(2) assms \<open>p \<in> set plans\<close> plan_id_eq by metis
      moreover obtain p1 ps1 where "filter (\<lambda>q. plan_id protocols q = dr_id r') plans = p1 # ps1" "r' = merged (dr_id r') p1 ps1"
        by (rule loaded_row [OF r'(1)])
      ultimately have "r' = r" using ps rm by simp
      then show ?thesis using r'(4) by simp
    qed
    ultimately have "map_of (planPricesFromRows ?rows) ?k = Some (dr_price r)"
      unfolding saved_price by (rule map_of_same_value)
    moreover have "price_or_zero p \<le> dr_price r" "dr_price r \<in> price_or_zero ` set (p0 # ps)"
      using merged_price [of p0 ps "dr_id r"] p rm by metis+
    moreover from this(2) obtain p' where "p' \<in> set (p0 # ps)" "dr_price r = price_or_zero p'" by (rule imageE) 
    ultimately show ?thesis using members by metis
  qed
  show "isChanged r = (\<forall>p \<in> set plans. plan_id protocols p = dr_id r \<longrightarrow> pl_price p = None)" if "r \<in> set ?rows" for r
  proof -
    from loaded_row [OF that] obtain p ps where ps: "filter (\<lambda>q. plan_id protocols q = dr_id r) plans = p # ps"
        and r: "r = merged (dr_id r) p ps" by blast
    have members: "q \<in> set (p # ps) \<longleftrightarrow> q \<in> set plans \<and> plan_id protocols q = dr_id r" for q
      unfolding ps [symmetric] by simp
    have "dr_savedPrice r = (if \<forall>q \<in> set (p # ps). pl_price q = None then None else Some (dr_price r))"
      using merged_saved [of p ps "dr_id r"] r members assms by metis
    moreover have "(\<forall>q \<in> set (p # ps). pl_price q = None) = (\<forall>p \<in> set plans. plan_id protocols p = dr_id r \<longrightarrow> pl_price p = None)"
      using members by blast
    ultimately show ?thesis by (simp only: isChanged_def split: if_split) simp
  qed
qed

text \<open>Two protocols of one package, one of them priced lower: both are saved at the higher price.\<close>

definition sample_plan :: "string \<Rightarrow> int option \<Rightarrow> plan_row" where
  "sample_plan t p = \<lparr> pl_type = js t, pl_network = js ''vnpt'', pl_days = 30, pl_network_label = js ''VNPT'', pl_price = p,
     pl_cost_price = None, pl_supported = True \<rparr>"

lemma proxy_table_never_lowers_witness:
  "\<exists>q. map_of (planPricesFromRows (draftRowsFromPlans (\<lambda>_ _. 0) [sample_plan ''HTTP'' (Some 5), sample_plan ''SOCKS5'' (Some 7)]
       [js ''HTTP'', js ''SOCKS5''] [])) (cellKey (js ''HTTP'') (js ''vnpt'') 30) = Some q \<and> 5 \<le> q"
  using proxy_table_never_lowers [of "[sample_plan ''HTTP'' (Some 5), sample_plan ''SOCKS5'' (Some 7)]" "\<lambda>_ _. 0"
      "[js ''HTTP'', js ''SOCKS5'']" "[]"]
  by (simp add: sample_plan_def plain_plan_def price_or_zero_def) blast

text \<open>
  Prices put at a margin.  With whole costs and percentages, a row that has a cost and is priced at
  a margin not below the source's minimum is not below its floor afterwards.
\<close>

lemma margin_rows_accepted:
  assumes "dr_cost r = Some (of_int c)" "0 < c" "0 \<le> pct" "minMargin \<le> pct"
  shows "rowIssue (r \<lparr> dr_price := suggestPrice (dr_cost r) (of_int pct) \<rparr>) (of_int minMargin) \<in>
    (if dr_supported r then {None} else {Some Unsupported})"
proof -
  let ?x = "of_int c * (1 + of_int pct / 100) :: rat"
  note up = roundUp_ge(1) [OF margin_cents [of c pct]]
  have "0 < ?x" using assms(2,3) by simp
  then have pos: "0 < roundUp ?x" using up by linarith
  have "of_int c * (1 + of_int minMargin / 100) \<le> ?x" using assms(2,4) by (simp add: divide_right_mono)
  then have "\<not> of_int (roundUp ?x) < of_int c * (1 + of_int minMargin / 100 :: rat)" using up by linarith
  with pos assms show ?thesis by (simp add: rowIssue_def suggestPrice_def minimumPrice_def)
qed

text \<open>What a save leaves of the parameters: the old formula is gone, other fields are untouched.\<close>

lemma saved_params_fields:
  assumes "k \<notin> {js ''network_display'', js ''plan_prices''}"
  shows "map_of (paramsFromEditor e) k = (if k \<in> set FORMULA_KEYS then None else map_of (pe_baseParams e) k)"
proof -
  have "map_of (foldl (\<lambda>p k. AList.delete k p) m ks) k = (if k \<in> set ks then None else map_of m k)" for m :: params and ks
    by (induction ks arbitrary: m) (auto simp: delete_conv')
  then show ?thesis using assms by (simp add: paramsFromEditor_def Let_def update_conv')
qed

end
