(* ===== verification/Seller_Form.thy ===== *)
theory Seller_Form
  imports Dynamic_Pricing Inventory_Report
begin

text \<open>
  The form of a product a seller edits (features/seller-product-form/model.ts): how the goods are
  received, the protection presets, the category select, the toolbar of the description, where a
  failing check leads, and the order of the packages.
\<close>

section \<open>Delivery, protection and categories\<close>

datatype receive_mode = ReceiveInstant | ReceiveSla | ReceiveApi | ReceiveTask

datatype archetype = ArchetypeA | ArchetypeB

record receive_plan =
  rp_archetype :: archetype
  rp_instant :: bool
  rp_workModel :: work_model

definition receiveModeFor :: "receive_mode \<Rightarrow> receive_plan" where
  "receiveModeFor mode =
     \<lparr> rp_archetype = (if mode = ReceiveApi \<or> mode = ReceiveTask then ArchetypeB else ArchetypeA),
       rp_instant = (mode \<noteq> ReceiveSla),
       rp_workModel = (if mode = ReceiveTask then B3 else B2) \<rparr>"

definition PROTECTION_PRESETS :: "int list" where
  "PROTECTION_PRESETS = [6, 12, 24, 48, 72, 168, 336, 720, 1440, 2160]"

definition protectionOptions :: "int \<Rightarrow> int \<Rightarrow> int list" where
  "protectionOptions current floorHours =
     (let s = uniq (filter (\<lambda>hours. floorHours \<le> hours) PROTECTION_PRESETS);
          s1 = (if 0 < floorHours then set_add s floorHours else s);
          s2 = (if 0 < current then set_add s1 current else s1)
      in sort_by (-) s2)"

datatype category = Category (cat_id: int) (cat_name: jstr) (cat_children: "category list")

record category_option =
  co_id :: int
  co_name :: jstr
  co_label :: jstr
  co_depth :: nat

definition TRAIL :: jstr where "TRAIL = [32, 0x203A, 32]"

fun category_walk :: "jstr list \<Rightarrow> category list \<Rightarrow> category_option list" where
  "category_walk trail [] = []"
| "category_walk trail (Category i n ch # cs) =
     \<lparr> co_id = i, co_name = n, co_label = join TRAIL (trail @ [n]), co_depth = length trail \<rparr> #
     category_walk (trail @ [n]) ch @ category_walk trail cs"

definition categoryOptions :: "category list \<Rightarrow> category_option list" where
  "categoryOptions categories = category_walk [] categories"

definition categoryLabel :: "category_option list \<Rightarrow> int \<Rightarrow> jstr" where
  "categoryLabel options i = (case List.find (\<lambda>o'. co_id o' = i) options of None \<Rightarrow> [] | Some o' \<Rightarrow> co_label o')"

section \<open>The toolbar of the description\<close>

datatype markdown_action = MdBold | MdItalic | MdH2 | MdH3 | MdUl | MdOl | MdQuote | MdLink | MdCode | MdCodeblock | MdTable | MdHr

record selection =
  sl_value :: jstr
  sl_start :: nat
  sl_end :: nat

definition js_slice :: "'a list \<Rightarrow> nat \<Rightarrow> nat \<Rightarrow> 'a list" where
  "js_slice s a b = take (b - a) (drop a s)"

definition selected_or :: "selection \<Rightarrow> jstr \<Rightarrow> jstr" where
  "selected_or sel placeholder = (let s = js_slice (sl_value sel) (sl_start sel) (sl_end sel) in if s = [] then placeholder else s)"

definition md_wrap :: "selection \<Rightarrow> jstr \<Rightarrow> jstr \<Rightarrow> jstr \<Rightarrow> selection" where
  "md_wrap sel before after placeholder =
     (let selected = selected_or sel placeholder
      in \<lparr> sl_value = take (sl_start sel) (sl_value sel) @ before @ selected @ after @ drop (sl_end sel) (sl_value sel),
           sl_start = sl_start sel + length before, sl_end = sl_start sel + length before + length selected \<rparr>)"

text \<open>\<open>value.lastIndexOf("\n", start - 1) + 1\<close>: a search from a negative index looks at the first place.\<close>

definition line_start :: "jstr \<Rightarrow> nat \<Rightarrow> nat" where
  "line_start value start =
     (let p = take (max 1 start) value in length p - length (takeWhile (\<lambda>c. c \<noteq> 10) (rev p)))"

definition line_end :: "jstr \<Rightarrow> nat \<Rightarrow> nat" where
  "line_end value start = start + length (takeWhile (\<lambda>c. c \<noteq> 10) (drop start value))"

definition prefixLines :: "selection \<Rightarrow> (nat \<Rightarrow> jstr) \<Rightarrow> selection" where
  "prefixLines sel pre =
     (let a = line_start (sl_value sel) (sl_start sel); b = line_end (sl_value sel) (sl_end sel);
          next' = join [10] (map (\<lambda>(i, l). pre i @ l) (enumerate 0 (split_on 10 (js_slice (sl_value sel) a b))))
      in \<lparr> sl_value = take a (sl_value sel) @ next' @ drop b (sl_value sel), sl_start = a, sl_end = a + length next' \<rparr>)"

definition insertBlock :: "selection \<Rightarrow> jstr \<Rightarrow> selection" where
  "insertBlock sel block =
     (let before = take (sl_start sel) (sl_value sel); after = drop (sl_end sel) (sl_value sel);
          lead = (if before = [] \<or> ends_with before [10, 10] then [] else if ends_with before [10] then [10] else [10, 10]);
          tail' = (if after = [] \<or> starts_with after [10, 10] then [] else if starts_with after [10] then [10] else [10, 10])
      in \<lparr> sl_value = before @ lead @ block @ tail' @ after, sl_start = length before + length lead,
           sl_end = length before + length lead + length block \<rparr>)"

definition TABLE_SNIPPET :: "locale' \<Rightarrow> jstr" where
  "TABLE_SNIPPET l = (case l of
     Vi \<Rightarrow> join [10] [js ''| C'' @ [0x1ED9] @ js ''t 1 | C'' @ [0x1ED9] @ js ''t 2 | C'' @ [0x1ED9] @ js ''t 3 |'',
        js ''| --- | --- | --- |'',
        js ''| Gi'' @ [0xE1] @ js '' tr'' @ [0x1ECB] @ js '' | Gi'' @ [0xE1] @ js '' tr'' @ [0x1ECB] @ js '' | Gi'' @ [0xE1] @ js '' tr'' @ [0x1ECB] @ js '' |'',
        js ''| Gi'' @ [0xE1] @ js '' tr'' @ [0x1ECB] @ js '' | Gi'' @ [0xE1] @ js '' tr'' @ [0x1ECB] @ js '' | Gi'' @ [0xE1] @ js '' tr'' @ [0x1ECB] @ js '' |'']
   | En \<Rightarrow> join [10] [js ''| Column 1 | Column 2 | Column 3 |'',
        js ''| --- | --- | --- |'',
        js ''| Value | Value | Value |'',
        js ''| Value | Value | Value |''])"

definition md_number :: "nat \<Rightarrow> jstr" where
  "md_number i = show_nat (i + 1) @ js ''. ''"

definition FENCE :: jstr where "FENCE = js ''```''"

definition applyMarkdownAction :: "selection \<Rightarrow> markdown_action \<Rightarrow> locale' \<Rightarrow> selection" where
  "applyMarkdownAction sel action l =
     (case action of
        MdBold \<Rightarrow> md_wrap sel (js ''**'') (js ''**'') (if l = Vi then js ''ch'' @ [0x1EEF] @ js '' '' @ [0x111, 0x1EAD] @ js ''m'' else js ''bold text'')
      | MdItalic \<Rightarrow> md_wrap sel (js ''_'') (js ''_'') (if l = Vi then js ''ch'' @ [0x1EEF] @ js '' nghi'' @ [0xEA] @ js ''ng'' else js ''italic text'')
      | MdCode \<Rightarrow> md_wrap sel (js ''`'') (js ''`'') (js ''code'')
      | MdLink \<Rightarrow> md_wrap sel (js ''['') (js ''](https://)'') (if l = Vi then js ''t'' @ [0xEA] @ js ''n li'' @ [0xEA] @ js ''n k'' @ [0x1EBF] @ js ''t'' else js ''link text'')
      | MdH2 \<Rightarrow> prefixLines sel (\<lambda>_. js ''## '')
      | MdH3 \<Rightarrow> prefixLines sel (\<lambda>_. js ''### '')
      | MdUl \<Rightarrow> prefixLines sel (\<lambda>_. js ''- '')
      | MdOl \<Rightarrow> prefixLines sel md_number
      | MdQuote \<Rightarrow> prefixLines sel (\<lambda>_. js ''> '')
      | MdCodeblock \<Rightarrow> insertBlock sel (FENCE @ [10] @
          selected_or sel (if l = Vi then js ''d'' @ [0xE1] @ js ''n code ho'' @ [0x1EB7] @ js ''c v'' @ [0xED] @ js '' d'' @ [0x1EE5] @ js '' '' @ [0x1EDF] @ js '' '' @ [0x111, 0xE2] @ js ''y'' else js ''paste code or an example here'') @ [10] @ FENCE)
      | MdTable \<Rightarrow> insertBlock sel (TABLE_SNIPPET l)
      | MdHr \<Rightarrow> insertBlock sel (js ''---''))"

section \<open>Checks, pictures and packages\<close>

datatype form_section = Basics | Variants | ContentSection | Advanced

definition checklistJump :: "check_key \<Rightarrow> bool \<Rightarrow> form_section \<times> string option" where
  "checklistJump item titleMissing =
     (case item of
        CheckInfo \<Rightarrow> if titleMissing then (Basics, Some ''product-title'') else (ContentSection, Some ''product-description'')
      | CheckTranslations \<Rightarrow> (Advanced, Some ''product-languages'')
      | CheckVariant \<Rightarrow> (Variants, None)
      | CheckStockSla \<Rightarrow> (Variants, None)
      | CheckPricing \<Rightarrow> (Variants, None)
      | CheckBackend \<Rightarrow> (Variants, None)
      | CheckEscrow \<Rightarrow> (Basics, Some ''product-protection''))"

definition missingCount :: "evaluation \<Rightarrow> int" where
  "missingCount e = int (ev_totalCount e) - int (ev_passCount e)"

record uploader_image =
  ui_id :: jstr
  ui_url :: "jstr option"
  ui_thumb_url :: "jstr option"
  ui_w :: nat
  ui_h :: nat

record public_image =
  im_id :: jstr
  im_url :: jstr
  im_thumb_url :: jstr
  im_w :: nat
  im_h :: nat

record product_images =
  pi_cover_id :: "jstr option"
  pi_preset :: bool
  pi_gallery :: "public_image list"
  pi_cover :: "public_image option"

definition picture :: "uploader_image \<Rightarrow> public_image list" where
  "picture img =
     (case ui_url img of
        None \<Rightarrow> []
      | Some u \<Rightarrow> if u = [] then []
                  else [\<lparr> im_id = ui_id img, im_url = u, im_thumb_url = given (ui_thumb_url img) u, im_w = ui_w img, im_h = ui_h img \<rparr>])"

definition previewImages :: "jstr option \<Rightarrow> uploader_image list \<Rightarrow> bool \<Rightarrow> product_images" where
  "previewImages coverId gallery preset =
     (let pictures = concat (map picture gallery)
      in \<lparr> pi_cover_id = (if coverId = Some [] then None else coverId), pi_preset = preset, pi_gallery = pictures,
           pi_cover = (if preset then None else case pictures of [] \<Rightarrow> None | p # _ \<Rightarrow> Some p) \<rparr>)"

definition moveVariant :: "'a list \<Rightarrow> int \<Rightarrow> int \<Rightarrow> 'a list" where
  "moveVariant xs i j =
     (if i = j \<or> i < 0 \<or> j < 0 \<or> int (length xs) \<le> i \<or> int (length xs) \<le> j then xs
      else let a = nat i; b = nat j; rest = take a xs @ drop (Suc a) xs
           in take b rest @ [xs ! a] @ drop b rest)"

definition sortOrderPatches :: "int list \<Rightarrow> (int \<rightharpoonup> nat) \<Rightarrow> (int \<times> nat) list" where
  "sortOrderPatches ids current =
     filter (\<lambda>(i, sort_order). current i \<noteq> Some sort_order) (map (\<lambda>(n, i). (i, n)) (enumerate 0 ids))"

section \<open>What the toolbar keeps\<close>

lemma cut_three: "a \<le> b \<Longrightarrow> take a s @ js_slice s a b @ drop b s = s"
proof -
  assume "a \<le> b"
  then have "take (b - a) (drop a s) @ drop b s = drop a s"
    by (metis append_take_drop_id drop_drop le_add_diff_inverse2)
  then show ?thesis by (simp add: js_slice_def)
qed

lemma subseq_mid: "subseq m m' \<Longrightarrow> subseq (a @ m @ c) (a @ m' @ c)"
  by (simp add: list_emb_append_mono subseq_order.eq_iff)

lemma subseq_pad: "subseq s (p @ s @ q)"
  by (simp add: list_emb_append2 subseq_order.order_refl list_emb_prefix)

lemma join_prefixed: "subseq (join [10] ls) (join [10] (map (\<lambda>(i, l). pre i @ l) (enumerate n ls)))"
proof (induction ls arbitrary: n)
  case (Cons l ls)
  show ?case
  proof (cases ls)
    case Nil
    then show ?thesis by (simp add: list_emb_append2 subseq_order.order_refl)
  next
    case (Cons m ms)
    then have "subseq (join [10] ls) (join [10] (map (\<lambda>(i, l). pre i @ l) (enumerate (Suc n) ls)))"
      using Cons.IH by blast
    then have "subseq (l @ [10] @ join [10] ls) ((pre n @ l) @ [10] @ join [10] (map (\<lambda>(i, l). pre i @ l) (enumerate (Suc n) ls)))"
      by (intro list_emb_append_mono) (simp_all add: list_emb_append2 subseq_order.order_refl)
    then show ?thesis using Cons by (simp add: join_Cons)
  qed
qed simp

lemma line_start_le:
  assumes "start \<le> length v" "\<not> (start = 0 \<and> starts_with v [10])"
  shows "line_start v start \<le> start"
proof (cases "start = 0")
  case True
  then show ?thesis using assms(2) by (cases v) (auto simp: line_start_def starts_with_def)
next
  case False
  then show ?thesis using assms(1) by (simp add: line_start_def Let_def)
qed

lemma wrap_keeps:
  assumes "sl_start sel \<le> sl_end sel" "sl_end sel \<le> length (sl_value sel)"
  shows "subseq (sl_value sel) (sl_value (md_wrap sel before after placeholder)) \<and>
    sl_end (md_wrap sel before after placeholder) \<le> length (sl_value (md_wrap sel before after placeholder)) \<and>
    js_slice (sl_value (md_wrap sel before after placeholder)) (sl_start (md_wrap sel before after placeholder))
      (sl_end (md_wrap sel before after placeholder)) = selected_or sel placeholder"
proof -
  let ?sel = "js_slice (sl_value sel) (sl_start sel) (sl_end sel)"
  have "subseq ?sel (before @ selected_or sel placeholder @ after)"
    using subseq_pad [of ?sel before after] by (simp add: selected_or_def Let_def)
  from subseq_mid [OF this, of "take (sl_start sel) (sl_value sel)" "drop (sl_end sel) (sl_value sel)"]
  have "subseq (sl_value sel) (sl_value (md_wrap sel before after placeholder))"
    using cut_three [OF assms(1), of "sl_value sel"] by (simp add: md_wrap_def Let_def)
  then show ?thesis using assms by (simp add: md_wrap_def Let_def js_slice_def)
qed

lemma prefix_keeps:
  assumes "sl_start sel \<le> sl_end sel" "sl_end sel \<le> length (sl_value sel)" "\<not> (sl_start sel = 0 \<and> starts_with (sl_value sel) [10])"
  shows "subseq (sl_value sel) (sl_value (prefixLines sel pre)) \<and> sl_end (prefixLines sel pre) \<le> length (sl_value (prefixLines sel pre))"
proof -
  let ?a = "line_start (sl_value sel) (sl_start sel)" and ?b = "line_end (sl_value sel) (sl_end sel)"
  have le: "?a \<le> ?b" "?a \<le> length (sl_value sel)"
    using line_start_le [of "sl_start sel" "sl_value sel"] assms by (simp_all add: line_end_def)
  have "subseq (js_slice (sl_value sel) ?a ?b) (join [10] (map (\<lambda>(i, l). pre i @ l) (enumerate 0 (split_on 10 (js_slice (sl_value sel) ?a ?b)))))"
    using join_prefixed [of "split_on 10 (js_slice (sl_value sel) ?a ?b)" pre 0] by simp
  from subseq_mid [OF this, of "take ?a (sl_value sel)" "drop ?b (sl_value sel)"]
  have "subseq (sl_value sel) (sl_value (prefixLines sel pre))"
    using cut_three [OF le(1), of "sl_value sel"] by (simp add: prefixLines_def Let_def)
  then show ?thesis using le by (simp add: prefixLines_def Let_def)
qed

lemma insert_keeps:
  assumes "sl_start sel \<le> sl_end sel" "sl_end sel \<le> length (sl_value sel)"
    and "subseq (js_slice (sl_value sel) (sl_start sel) (sl_end sel)) block"
  shows "subseq (sl_value sel) (sl_value (insertBlock sel block)) \<and> sl_end (insertBlock sel block) \<le> length (sl_value (insertBlock sel block))"
proof -
  have pad: "subseq (js_slice (sl_value sel) (sl_start sel) (sl_end sel)) (p @ block @ q)" for p q
    using assms(3) subseq_pad subseq_order.order_trans by blast
  have "subseq (sl_value sel) (take (sl_start sel) (sl_value sel) @ (p @ block @ q) @ drop (sl_end sel) (sl_value sel))" for p q
    using subseq_mid [OF pad] cut_three [OF assms(1), of "sl_value sel"] by metis
  then show ?thesis using assms by (simp add: insertBlock_def Let_def)
qed

text \<open>No button of the description's toolbar loses a character, for a
  selection inside the text: what was there is still there, in order, and the new selection lies in the
  new text.  The exceptions are the table and the rule over selected text, which they replace, and the
  buttons that mark lines when the cursor is before a line break that opens the text.\<close>

theorem toolbar_keeps_text:
  assumes "sl_start sel \<le> sl_end sel" and "sl_end sel \<le> length (sl_value sel)"
    and "action \<in> {MdTable, MdHr} \<Longrightarrow> sl_start sel = sl_end sel"
    and "action \<in> {MdH2, MdH3, MdUl, MdOl, MdQuote} \<Longrightarrow> \<not> (sl_start sel = 0 \<and> starts_with (sl_value sel) [10])"
  shows "subseq (sl_value sel) (sl_value (applyMarkdownAction sel action l)) \<and>
    sl_end (applyMarkdownAction sel action l) \<le> length (sl_value (applyMarkdownAction sel action l))"
proof -
  note w = wrap_keeps [OF assms(1,2)] and p = prefix_keeps [OF assms(1,2)] and i = insert_keeps [OF assms(1,2)]
  have fenced: "subseq (js_slice (sl_value sel) (sl_start sel) (sl_end sel)) (FENCE @ [10] @ selected_or sel placeholder @ [10] @ FENCE)" for placeholder
    using subseq_pad [of "js_slice (sl_value sel) (sl_start sel) (sl_end sel)" "FENCE @ [10]" "[10] @ FENCE"]
    by (simp add: selected_or_def Let_def del: js_Cons)
  show ?thesis
  proof (cases action)
    case MdTable
    then show ?thesis using assms(3) i [of "TABLE_SNIPPET l"] by (simp add: applyMarkdownAction_def js_slice_def)
  next
    case MdHr
    then show ?thesis using assms(3) i [of "js ''---''"] by (simp add: applyMarkdownAction_def js_slice_def del: js_Cons)
  next
    case MdCodeblock
    then show ?thesis using i [OF fenced] unfolding applyMarkdownAction_def by simp
  qed (use assms(4) w p in \<open>simp_all add: applyMarkdownAction_def del: js_Cons\<close>)
qed

lemma toolbar_keeps_text_witness:
  "subseq (js ''buy now'') (sl_value (applyMarkdownAction \<lparr> sl_value = js ''buy now'', sl_start = 0, sl_end = 3 \<rparr> MdBold En))"
  using toolbar_keeps_text [of "\<lparr> sl_value = js ''buy now'', sl_start = 0, sl_end = 3 \<rparr>" MdBold En]
  by (simp del: js_Cons)

text \<open>
  With the cursor before a line break that opens the text, a heading is put after the break and the
  break is doubled.
\<close>

lemma heading_doubles_break:
  "sl_value (applyMarkdownAction \<lparr> sl_value = 10 # s, sl_start = 0, sl_end = 0 \<rparr> MdH2 l) = [10] @ js ''## '' @ 10 # s"
  by (simp add: applyMarkdownAction_def prefixLines_def line_start_def line_end_def js_slice_def Let_def enumerate_eq_zip)

section \<open>Options and order\<close>

lemma moveVariant_eq: "moveVariant xs i j = moveItem xs i j"
  by (simp add: moveVariant_def moveItem_def Let_def)

lemma total_minus: "total_cmp ((-) :: int \<Rightarrow> int \<Rightarrow> int)"
  by (auto simp: total_cmp_def)

text \<open>The presets offered are sorted, without repetition, and are those the platform allows, its floor and the current one.\<close>

lemma protection_options:
  "sorted (protectionOptions current floorHours)" "distinct (protectionOptions current floorHours)"
  "set (protectionOptions current floorHours) =
     {h \<in> set PROTECTION_PRESETS. floorHours \<le> h} \<union> {h \<in> {floorHours, current}. 0 < h}"
proof -
  show "sorted (protectionOptions current floorHours)"
    using sorted_sort_by [OF total_minus] by (simp add: protectionOptions_def Let_def)
  have "distinct (sort_by (-) xs) = distinct xs" for xs :: "int list" by (metis mset_eq_imp_distinct_iff mset_sort_by)
  then show "distinct (protectionOptions current floorHours)" by (simp add: protectionOptions_def Let_def)
  show "set (protectionOptions current floorHours) =
     {h \<in> set PROTECTION_PRESETS. floorHours \<le> h} \<union> {h \<in> {floorHours, current}. 0 < h}"
    by (auto simp: protectionOptions_def Let_def)
qed

definition after_patches :: "(int \<rightharpoonup> nat) \<Rightarrow> (int \<times> nat) list \<Rightarrow> int \<rightharpoonup> nat" where
  "after_patches current patches = foldl (\<lambda>m (i, n). m(i \<mapsto> n)) current patches"

lemma after_patches_simps:
  "after_patches m [] = m" "after_patches m ((i, n) # ps) = after_patches (m(i \<mapsto> n)) ps"
  by (simp_all add: after_patches_def)

lemma after_patches_get: "distinct (map fst ps) \<Longrightarrow> after_patches m ps i = (case map_of ps i of None \<Rightarrow> m i | Some n \<Rightarrow> Some n)"
proof (induction ps arbitrary: m)
  case (Cons p ps)
  obtain j n where p: "p = (j, n)" by (cases p)
  have "map_of ps j = None" using Cons.prems by (auto simp: p map_of_eq_None_iff)
  then show ?case using Cons by (auto simp: p after_patches_simps split: option.split)
qed (simp add: after_patches_simps)

text \<open>After the packages were moved, the patches sent give every package its
  place in the new order and touch no other package; a package whose place did not change gets none.\<close>

theorem reorder_patches:
  assumes "distinct ids" and "n < length ids"
  shows "after_patches current (sortOrderPatches ids current) (ids ! n) = Some n \<and>
    (i \<notin> set ids \<longrightarrow> after_patches current (sortOrderPatches ids current) i = current i) \<and>
    (current (ids ! n) = Some n \<longrightarrow> ids ! n \<notin> fst ` set (sortOrderPatches ids current))"
proof -
  let ?all = "map (\<lambda>(n, i). (i, n)) (enumerate 0 ids)"
  have fst_all: "map fst ?all = ids" by (simp add: comp_def case_prod_beta enumerate_eq_zip)
  then have dist: "distinct (map fst (sortOrderPatches ids current))"
    using assms(1) unfolding sortOrderPatches_def by (metis distinct_map_filter)
  have "(ids ! n, m) \<in> set ?all \<longleftrightarrow> m = n" for m
    using assms by (auto simp: in_set_enumerate_eq nth_eq_iff_index_eq image_iff intro!: bexI [of _ "(n, ids ! n)"])
  then have mem: "(ids ! n, m) \<in> set (sortOrderPatches ids current) \<longleftrightarrow> m = n \<and> current (ids ! n) \<noteq> Some n" for m
    by (auto simp: sortOrderPatches_def)
  have none: "map_of (sortOrderPatches ids current) (ids ! n) = None" if "current (ids ! n) = Some n"
    using mem that by (auto simp: map_of_eq_None_iff)
  have some: "map_of (sortOrderPatches ids current) (ids ! n) = Some n" if "current (ids ! n) \<noteq> Some n"
    using mem that dist by (simp add: map_of_eq_Some_iff)
  have other: "map_of (sortOrderPatches ids current) i = None" if "i \<notin> set ids"
  proof -
    have "set (sortOrderPatches ids current) \<subseteq> set ?all" unfolding sortOrderPatches_def by (rule filter_is_subset)
    then have "fst ` set (sortOrderPatches ids current) \<subseteq> set (map fst ?all)" unfolding set_map by (rule image_mono)
    then show ?thesis using that unfolding fst_all by (auto simp: map_of_eq_None_iff)
  qed
  show ?thesis
    unfolding after_patches_get [OF dist] using none some other mem by (cases "current (ids ! n) = Some n") auto
qed

lemma reorder_patches_witness:
  "after_patches [7 \<mapsto> 1, 8 \<mapsto> 0] (sortOrderPatches [7, 8, 9] [7 \<mapsto> 1, 8 \<mapsto> 0]) 7 = Some 0"
  using reorder_patches [of "[7, 8, 9]" 0 "[7 \<mapsto> 1, 8 \<mapsto> 0]"] by simp

end
