(* ===== verification/Promotions.thy ===== *)
theory Promotions
  imports Url_Params
begin

text \<open>
  Promo campaigns in the admin console (features/admin-promotions): the list's address, what a
  campaign takes off an order, and the editor (form.ts): a draft of texts, its validation, the fields
  that changed, the patch that is sent, and the merge of values that changed underneath.  Upper-casing
  and the reading of a Vietnamese date and time (time.ts) are parameters; messages are kinds of error,
  wording is left out.
\<close>

section \<open>The list\<close>

datatype list_chip = ChipAll | ChipRunning | ChipScheduled | ChipPaused | ChipAttention | ChipDone | ChipArchived

fun list_chip_name :: "list_chip \<Rightarrow> string" where
  "list_chip_name ChipAll = ''all''" | "list_chip_name ChipRunning = ''running''"
| "list_chip_name ChipScheduled = ''scheduled''" | "list_chip_name ChipPaused = ''paused''"
| "list_chip_name ChipAttention = ''attention''" | "list_chip_name ChipDone = ''done''"
| "list_chip_name ChipArchived = ''archived''"

definition LIST_CHIPS :: "list_chip list" where
  "LIST_CHIPS = [ChipAll, ChipRunning, ChipScheduled, ChipPaused, ChipAttention, ChipDone, ChipArchived]"

datatype promo_sort = SortUpdated | SortUses | SortEndsSoon

fun promo_sort_name :: "promo_sort \<Rightarrow> string" where
  "promo_sort_name SortUpdated = ''updated''" | "promo_sort_name SortUses = ''uses''" | "promo_sort_name SortEndsSoon = ''ends_soon''"

definition SORTS :: "promo_sort list" where
  "SORTS = [SortUpdated, SortUses, SortEndsSoon]"

definition PER_PAGE :: int where "PER_PAGE = 20"

record promo_filters =
  pf_q :: jstr
  pf_chip :: list_chip
  pf_sort :: promo_sort
  pf_page :: int

definition DEFAULT_LIST :: promo_filters where
  "DEFAULT_LIST = \<lparr> pf_q = [], pf_chip = ChipAll, pf_sort = SortUpdated, pf_page = 1 \<rparr>"

definition parsePromoListUrl :: "url_params \<Rightarrow> promo_filters" where
  "parsePromoListUrl q = \<lparr>
     pf_q = or_empty (qget q ''q''),
     pf_chip = pick_enum list_chip_name LIST_CHIPS ChipAll (qget q ''state''),
     pf_sort = pick_enum promo_sort_name SORTS SortUpdated (qget q ''sort''),
     pf_page = pick_int 0 1 (qget q ''page'') \<rparr>"

definition promo_put :: "string \<Rightarrow> jstr \<Rightarrow> string \<Rightarrow> url_params \<Rightarrow> url_params" where
  "promo_put k v fallback q = (if v \<noteq> [] \<and> v \<noteq> js fallback then qset k v q else qdel k q)"

definition promoListSearch :: "promo_filters \<Rightarrow> url_params \<Rightarrow> url_params" where
  "promoListSearch f current =
     promo_put ''page'' (show_int (pf_page f)) ''1''
     (promo_put ''sort'' (js (promo_sort_name (pf_sort f))) ''updated''
     (promo_put ''state'' (js (list_chip_name (pf_chip f))) ''all''
     (promo_put ''q'' (js_trim (pf_q f)) '''' current)))"

record promo_query =
  pq_q :: "jstr option"
  pq_state :: "list_chip option"
  pq_sort :: promo_sort
  pq_page :: int
  pq_per_page :: int

definition promoListQuery :: "promo_filters \<Rightarrow> promo_query" where
  "promoListQuery f = \<lparr> pq_q = (if js_trim (pf_q f) = [] then None else Some (js_trim (pf_q f))),
     pq_state = (if pf_chip f = ChipAll then None else Some (pf_chip f)), pq_sort = pf_sort f, pq_page = pf_page f, pq_per_page = PER_PAGE \<rparr>"

definition usageRatio :: "rat \<Rightarrow> rat option \<Rightarrow> rat option" where
  "usageRatio used limit = (case limit of None \<Rightarrow> None | Some l \<Rightarrow> if l \<le> 0 then None else Some (min 1 (used / l)))"

record row_actions =
  ra_exportCsv :: bool
  ra_archive :: bool
  ra_unarchive :: bool
  ra_remove :: bool

definition rowActions :: "nat \<Rightarrow> jstr option \<Rightarrow> row_actions" where
  "rowActions uses archived_at =
     \<lparr> ra_exportCsv = (0 < uses), ra_archive = (archived_at = None), ra_unarchive = (archived_at \<noteq> None), ra_remove = (uses = 0) \<rparr>"

section \<open>The offer\<close>

datatype discount_type = Percent | Fixed

definition discountFor :: "discount_type \<Rightarrow> int \<Rightarrow> int option \<Rightarrow> int \<Rightarrow> int" where
  "discountFor kind v cap subtotal =
     (if kind = Fixed then min v subtotal
      else let raw = (subtotal * v) div 100
           in case cap of None \<Rightarrow> raw | Some c \<Rightarrow> if c = 0 then raw else min raw c)"

definition ceil_to :: "rat \<Rightarrow> int" where
  "ceil_to x = \<lceil>x / 50000\<rceil> * 50000"

definition exampleSubtotal :: "discount_type \<Rightarrow> int \<Rightarrow> int \<Rightarrow> int" where
  "exampleSubtotal kind v min_order =
     (let base = max min_order 100000; subtotal = ceil_to (of_int base * (3 / 2))
      in if kind = Fixed then max subtotal (ceil_to (of_int (v * 3))) else subtotal)"

section \<open>The draft\<close>

record promo_draft =
  dp_code :: jstr
  dp_name :: jstr
  dp_note :: jstr
  dp_discount_type :: discount_type
  dp_discount_value :: jstr
  dp_max_discount_amount :: jstr
  dp_min_order_amount :: jstr
  dp_starts_at :: jstr
  dp_ends_at :: jstr
  dp_usage_limit :: jstr
  dp_per_buyer_limit :: jstr
  dp_budget_amount :: jstr
  dp_category_ids :: "int list"
  dp_new_buyers_only :: bool
  dp_is_active :: bool
  dp_affiliate_account_id :: "int option"

datatype promo_field = FCode | FName | FNote | FDiscountType | FDiscountValue | FMaxDiscount | FMinOrder | FStarts | FEnds
  | FUsageLimit | FPerBuyer | FBudget | FCategories | FNewBuyers | FActive | FAffiliate

definition PROMO_FIELDS :: "promo_field list" where
  "PROMO_FIELDS = [FCode, FName, FNote, FDiscountType, FDiscountValue, FMaxDiscount, FMinOrder, FStarts, FEnds,
     FUsageLimit, FPerBuyer, FBudget, FCategories, FNewBuyers, FActive, FAffiliate]"

record promo_input =
  in_code :: jstr
  in_name :: jstr
  in_note :: "jstr option"
  in_discount_type :: discount_type
  in_discount_value :: jsnum
  in_max_discount_amount :: "jsnum option"
  in_min_order_amount :: jsnum
  in_starts_at :: "jstr option"
  in_ends_at :: "jstr option"
  in_usage_limit :: "jsnum option"
  in_per_buyer_limit :: "jsnum option"
  in_budget_amount :: "jsnum option"
  in_category_ids :: "int list"
  in_new_buyers_only :: bool
  in_is_active :: bool
  in_affiliate_account_id :: "int option"

definition emptyDraft :: promo_draft where
  "emptyDraft = \<lparr> dp_code = [], dp_name = [], dp_note = [], dp_discount_type = Percent, dp_discount_value = js ''10'',
     dp_max_discount_amount = [], dp_min_order_amount = [], dp_starts_at = [], dp_ends_at = [], dp_usage_limit = [],
     dp_per_buyer_limit = js ''1'', dp_budget_amount = [], dp_category_ids = [], dp_new_buyers_only = False, dp_is_active = True,
     dp_affiliate_account_id = None \<rparr>"

text \<open>\<open>/^[A-Z0-9][A-Z0-9_-]{2,31}$/\<close>\<close>

definition alnum :: "code_unit \<Rightarrow> bool" where
  "alnum c \<longleftrightarrow> (65 \<le> c \<and> c \<le> 90) \<or> is_digit c"

definition CODE_RE :: "jstr \<Rightarrow> bool" where
  "CODE_RE s \<longleftrightarrow> 3 \<le> length s \<and> length s \<le> 32 \<and> alnum (hd s) \<and> list_all (\<lambda>c. alnum c \<or> c = 95 \<or> c = 45) (tl s)"

definition digits :: "jstr \<Rightarrow> jstr" where
  "digits v =
     (let ds = filter is_digit v; rest = dropWhile (\<lambda>c. c = 48) ds
      in if rest = [] \<and> ds \<noteq> [] then [48] else rest)"

definition optionalInt :: "jstr \<Rightarrow> jsnum option" where
  "optionalInt v = (if js_trim v = [] then None else Some (js_number v))"

text \<open>\<open>n <= 0\<close>\<close>

definition not_positive :: "jsnum \<Rightarrow> bool" where
  "not_positive n = (case n of Fin r \<Rightarrow> r \<le> 0 | NegInf \<Rightarrow> True | _ \<Rightarrow> False)"

text \<open>A \<open>datetime-local\<close> text, and the instant it names in Vietnam.\<close>

definition vn_shape :: "jstr \<Rightarrow> bool" where
  "vn_shape v \<longleftrightarrow>
     length v = 16 \<and> v ! 4 = 45 \<and> v ! 7 = 45 \<and> v ! 10 = 84 \<and> v ! 13 = 58 \<and>
     list_all (\<lambda>i. is_digit (v ! i)) [0, 1, 2, 3, 5, 6, 8, 9, 11, 12, 14, 15]"

definition fromVnInput :: "(jstr \<Rightarrow> jstr option) \<Rightarrow> jstr \<Rightarrow> jstr option" where
  "fromVnInput instant v = (if vn_shape v then instant v else None)"

text \<open>Kinds of error; the order of the checks decides which one a field has.\<close>

datatype field_error = BadCode | NoName | PercentRange | NoAmount | AboveMinimum | BadCap | BadTime | EndsFirst | BadLimit

type_synonym draft_errors = "(promo_field \<times> field_error) list"

definition value_error :: "promo_draft \<Rightarrow> draft_errors" where
  "value_error d =
     (let v = as_integer (js_number (dp_discount_value d));
          low = js_number (if dp_min_order_amount d = [] then js ''0'' else dp_min_order_amount d);
          kind = (if dp_discount_type d = Percent then PercentRange else NoAmount)
      in if dp_discount_value d = [] then [(FDiscountValue, kind)]
         else case v of
           None \<Rightarrow> [(FDiscountValue, kind)]
         | Some i \<Rightarrow>
             if i \<le> 0 then [(FDiscountValue, kind)]
             else if dp_discount_type d = Percent then (if 100 < i then [(FDiscountValue, PercentRange)] else [])
             else (case low of Fin m \<Rightarrow> if 0 < m \<and> m \<le> of_int i then [(FDiscountValue, AboveMinimum)] else [] | _ \<Rightarrow> []))"

definition draft_cap :: "promo_draft \<Rightarrow> jsnum option" where
  "draft_cap d = (if dp_discount_type d = Percent then optionalInt (dp_max_discount_amount d) else None)"

definition limit_error :: "promo_field \<Rightarrow> jstr \<Rightarrow> draft_errors" where
  "limit_error k v = (case optionalInt v of None \<Rightarrow> [] | Some n \<Rightarrow> if not_positive n then [(k, BadLimit)] else [])"

text \<open>Instants are compared as texts.\<close>

definition time_errors :: "(jstr \<Rightarrow> jstr option) \<Rightarrow> promo_draft \<Rightarrow> draft_errors" where
  "time_errors instant d =
     (let starts = fromVnInput instant (dp_starts_at d); ends = fromVnInput instant (dp_ends_at d)
      in (if dp_starts_at d \<noteq> [] \<and> starts = None then [(FStarts, BadTime)] else []) @
         (if dp_ends_at d \<noteq> [] \<and> ends = None then [(FEnds, BadTime)]
          else case (starts, ends) of
            (Some a, Some b) \<Rightarrow> if \<not> str_less a b then [(FEnds, EndsFirst)] else []
          | _ \<Rightarrow> []))"

definition draft_code :: "(jstr \<Rightarrow> jstr) \<Rightarrow> promo_draft \<Rightarrow> jstr" where
  "draft_code upper d = upper (js_trim (dp_code d))"

definition draft_errors_of :: "(jstr \<Rightarrow> jstr) \<Rightarrow> (jstr \<Rightarrow> jstr option) \<Rightarrow> promo_draft \<Rightarrow> draft_errors" where
  "draft_errors_of upper instant d =
     (if CODE_RE (draft_code upper d) then [] else [(FCode, BadCode)]) @
     (if js_trim (dp_name d) = [] then [(FName, NoName)] else []) @
     value_error d @
     (case draft_cap d of None \<Rightarrow> [] | Some c \<Rightarrow> if not_positive c then [(FMaxDiscount, BadCap)] else []) @
     time_errors instant d @
     limit_error FUsageLimit (dp_usage_limit d) @ limit_error FPerBuyer (dp_per_buyer_limit d) @ limit_error FBudget (dp_budget_amount d)"

definition draft_input :: "(jstr \<Rightarrow> jstr) \<Rightarrow> (jstr \<Rightarrow> jstr option) \<Rightarrow> promo_draft \<Rightarrow> promo_input" where
  "draft_input upper instant d =
     \<lparr> in_code = draft_code upper d, in_name = js_trim (dp_name d),
       in_note = (if js_trim (dp_note d) = [] then None else Some (js_trim (dp_note d))),
       in_discount_type = dp_discount_type d, in_discount_value = js_number (dp_discount_value d),
       in_max_discount_amount = draft_cap d,
       in_min_order_amount = js_number (if dp_min_order_amount d = [] then js ''0'' else dp_min_order_amount d),
       in_starts_at = fromVnInput instant (dp_starts_at d), in_ends_at = fromVnInput instant (dp_ends_at d),
       in_usage_limit = optionalInt (dp_usage_limit d), in_per_buyer_limit = optionalInt (dp_per_buyer_limit d),
       in_budget_amount = optionalInt (dp_budget_amount d), in_category_ids = sort (dp_category_ids d),
       in_new_buyers_only = dp_new_buyers_only d, in_is_active = dp_is_active d, in_affiliate_account_id = dp_affiliate_account_id d \<rparr>"

definition validateDraft ::
    "(jstr \<Rightarrow> jstr) \<Rightarrow> (jstr \<Rightarrow> jstr option) \<Rightarrow> promo_draft \<Rightarrow> promo_input option \<times> draft_errors" where
  "validateDraft upper instant d =
     (let errors = draft_errors_of upper instant d in if errors \<noteq> [] then (None, errors) else (Some (draft_input upper instant d), []))"

section \<open>Changes\<close>

definition bool_text :: "bool \<Rightarrow> jstr" where
  "bool_text b = (if b then js ''true'' else js ''false'')"

fun norm_field :: "(jstr \<Rightarrow> jstr) \<Rightarrow> promo_draft \<Rightarrow> promo_field \<Rightarrow> jstr" where
  "norm_field upper d FCode = upper (js_trim (dp_code d))"
| "norm_field upper d FName = js_trim (dp_name d)"
| "norm_field upper d FNote = js_trim (dp_note d)"
| "norm_field upper d FDiscountType = (if dp_discount_type d = Percent then js ''percent'' else js ''fixed'')"
| "norm_field upper d FDiscountValue = js_trim (dp_discount_value d)"
| "norm_field upper d FMaxDiscount = (if dp_discount_type d = Fixed then [] else js_trim (dp_max_discount_amount d))"
| "norm_field upper d FMinOrder = js_trim (dp_min_order_amount d)"
| "norm_field upper d FStarts = js_trim (dp_starts_at d)"
| "norm_field upper d FEnds = js_trim (dp_ends_at d)"
| "norm_field upper d FUsageLimit = js_trim (dp_usage_limit d)"
| "norm_field upper d FPerBuyer = js_trim (dp_per_buyer_limit d)"
| "norm_field upper d FBudget = js_trim (dp_budget_amount d)"
| "norm_field upper d FCategories = join [44] (map show_int (sort (dp_category_ids d)))"
| "norm_field upper d FNewBuyers = bool_text (dp_new_buyers_only d)"
| "norm_field upper d FActive = bool_text (dp_is_active d)"
| "norm_field upper d FAffiliate = (case dp_affiliate_account_id d of None \<Rightarrow> [] | Some i \<Rightarrow> show_int i)"

definition changedFields :: "(jstr \<Rightarrow> jstr) \<Rightarrow> promo_draft \<Rightarrow> promo_draft \<Rightarrow> promo_field list" where
  "changedFields upper draft saved = filter (\<lambda>k. norm_field upper draft k \<noteq> norm_field upper saved k) PROMO_FIELDS"

datatype input_value = ValText jstr | ValOptText "jstr option" | ValType discount_type | ValNum jsnum | ValOptNum "jsnum option"
  | ValIds "int list" | ValBool bool | ValAccount "int option"

fun input_field :: "promo_input \<Rightarrow> promo_field \<Rightarrow> input_value" where
  "input_field i FCode = ValText (in_code i)"
| "input_field i FName = ValText (in_name i)"
| "input_field i FNote = ValOptText (in_note i)"
| "input_field i FDiscountType = ValType (in_discount_type i)"
| "input_field i FDiscountValue = ValNum (in_discount_value i)"
| "input_field i FMaxDiscount = ValOptNum (in_max_discount_amount i)"
| "input_field i FMinOrder = ValNum (in_min_order_amount i)"
| "input_field i FStarts = ValOptText (in_starts_at i)"
| "input_field i FEnds = ValOptText (in_ends_at i)"
| "input_field i FUsageLimit = ValOptNum (in_usage_limit i)"
| "input_field i FPerBuyer = ValOptNum (in_per_buyer_limit i)"
| "input_field i FBudget = ValOptNum (in_budget_amount i)"
| "input_field i FCategories = ValIds (in_category_ids i)"
| "input_field i FNewBuyers = ValBool (in_new_buyers_only i)"
| "input_field i FActive = ValBool (in_is_active i)"
| "input_field i FAffiliate = ValAccount (in_affiliate_account_id i)"

definition patchFrom :: "promo_input \<Rightarrow> promo_field list \<Rightarrow> (promo_field \<times> input_value) list" where
  "patchFrom input fs =
     (let keys = uniq fs; keys1 = (if FDiscountType \<in> set keys then set_add keys FMaxDiscount else keys)
      in map (\<lambda>k. (k, input_field input k)) keys1)"

fun copy_field :: "promo_draft \<Rightarrow> promo_field \<Rightarrow> promo_draft \<Rightarrow> promo_draft" where
  "copy_field n FCode d = d \<lparr> dp_code := dp_code n \<rparr>"
| "copy_field n FName d = d \<lparr> dp_name := dp_name n \<rparr>"
| "copy_field n FNote d = d \<lparr> dp_note := dp_note n \<rparr>"
| "copy_field n FDiscountType d = d \<lparr> dp_discount_type := dp_discount_type n \<rparr>"
| "copy_field n FDiscountValue d = d \<lparr> dp_discount_value := dp_discount_value n \<rparr>"
| "copy_field n FMaxDiscount d = d \<lparr> dp_max_discount_amount := dp_max_discount_amount n \<rparr>"
| "copy_field n FMinOrder d = d \<lparr> dp_min_order_amount := dp_min_order_amount n \<rparr>"
| "copy_field n FStarts d = d \<lparr> dp_starts_at := dp_starts_at n \<rparr>"
| "copy_field n FEnds d = d \<lparr> dp_ends_at := dp_ends_at n \<rparr>"
| "copy_field n FUsageLimit d = d \<lparr> dp_usage_limit := dp_usage_limit n \<rparr>"
| "copy_field n FPerBuyer d = d \<lparr> dp_per_buyer_limit := dp_per_buyer_limit n \<rparr>"
| "copy_field n FBudget d = d \<lparr> dp_budget_amount := dp_budget_amount n \<rparr>"
| "copy_field n FCategories d = d \<lparr> dp_category_ids := dp_category_ids n \<rparr>"
| "copy_field n FNewBuyers d = d \<lparr> dp_new_buyers_only := dp_new_buyers_only n \<rparr>"
| "copy_field n FActive d = d \<lparr> dp_is_active := dp_is_active n \<rparr>"
| "copy_field n FAffiliate d = d \<lparr> dp_affiliate_account_id := dp_affiliate_account_id n \<rparr>"

definition rebaseDraft :: "(jstr \<Rightarrow> jstr) \<Rightarrow> promo_draft \<Rightarrow> promo_draft \<Rightarrow> promo_draft \<Rightarrow> promo_draft" where
  "rebaseDraft upper draft oldSaved newSaved =
     foldl (\<lambda>out k. if norm_field upper draft k = norm_field upper oldSaved k then copy_field newSaved k out else out) draft PROMO_FIELDS"

section \<open>Single-use codes\<close>

record bulk_form =
  bf_promotionId :: jstr
  bf_prefix :: jstr
  bf_count :: jstr
  bf_length :: jstr

datatype bulk_field = BulkPromotion | BulkPrefix | BulkCount | BulkLength

record bulk_body =
  bb_count :: int
  bb_prefix :: jstr
  bb_length :: int

definition BULK_ALPHABET :: jstr where "BULK_ALPHABET = js ''ABCDEFGHJKLMNPQRSTUVWXYZ23456789''"

definition int_between :: "jsnum \<Rightarrow> int \<Rightarrow> int \<Rightarrow> int option" where
  "int_between n lo hi = (case as_integer n of None \<Rightarrow> None | Some i \<Rightarrow> if i < lo \<or> hi < i then None else Some i)"

text \<open>\<open>/^[A-Z0-9-]{0,12}$/\<close>\<close>

definition prefix_ok :: "jstr \<Rightarrow> bool" where
  "prefix_ok s \<longleftrightarrow> length s \<le> 12 \<and> list_all (\<lambda>c. alnum c \<or> c = 45) s"

definition validateBulkCodes :: "(jstr \<Rightarrow> jstr) \<Rightarrow> bulk_form \<Rightarrow> (bulk_body \<times> int) option \<times> bulk_field list" where
  "validateBulkCodes upper f =
     (let promotion = (if bf_promotionId f = [] then None else case as_integer (js_number (bf_promotionId f)) of
                         None \<Rightarrow> None | Some i \<Rightarrow> if i \<le> 0 then None else Some i);
          pre = upper (js_trim (bf_prefix f));
          count = int_between (js_number (bf_count f)) 1 5000;
          len = int_between (js_number (if bf_length f = [] then js ''8'' else bf_length f)) 6 12;
          errors = (if promotion = None then [BulkPromotion] else []) @ (if prefix_ok pre then [] else [BulkPrefix]) @
                   (if count = None then [BulkCount] else []) @ (if len = None then [BulkLength] else [])
      in if errors \<noteq> [] then (None, errors)
         else (Some (\<lparr> bb_count = the count, bb_prefix = pre, bb_length = the len \<rparr>, the promotion), []))"

text \<open>The random numbers drawn, each from 0 up to but not including 1, are an argument.\<close>

definition sampleCode :: "(jstr \<Rightarrow> jstr) \<Rightarrow> jstr \<Rightarrow> rat list \<Rightarrow> jstr" where
  "sampleCode upper pre random =
     upper (js_trim pre) @ map (\<lambda>r. BULK_ALPHABET ! nat \<lfloor>r * of_nat (length BULK_ALPHABET)\<rfloor>) random"

definition randomCode :: "(jstr \<Rightarrow> jstr) \<Rightarrow> jstr \<Rightarrow> rat list \<Rightarrow> jstr" where
  "randomCode upper pre random = take 32 (sampleCode upper pre random)"

section \<open>The patch\<close>

lemma js_number_trim: "js_number (js_trim s) = js_number s"
  by (simp add: js_number_def)

lemma min_number: "js_number (if v = [] then js ''0'' else v) = js_number v"
proof -
  have "js ''0'' = show_nat 0" by (subst show_nat.simps) (simp add: digit_unit_def)
  moreover have "js_number [] = Fin 0" by (simp add: js_number_def js_trim_def trim_start_def trim_end_def)
  ultimately show ?thesis using js_number_show_nat [of 0] by (simp add: overflow_bound_def)
qed

lemma show_int_chars: "c \<in> set (show_int i) \<Longrightarrow> is_digit c \<or> c = 45"
  using show_nat_digits by (auto simp: show_int_def split: if_splits)

lemma show_int_inj: "show_int i = show_int j \<longleftrightarrow> i = j"
proof -
  have "hd (show_nat n) \<noteq> 45" for n
    using show_nat_digits [of "hd (show_nat n)" n] hd_in_set [OF show_nat_not_Nil, of n] by (auto simp: is_digit_def)
  then have "show_nat n \<noteq> 45 # s" for n s by (metis list.sel(1))
  then show ?thesis by (auto simp: show_int_def show_nat_inj) metis
qed

lemma show_int_ne: "show_int i \<noteq> []"
  by (simp add: show_int_def)

lemma join_ints_inj:
  assumes "join [44] (map show_int xs) = join [44] (map show_int ys)"
  shows "xs = ys"
proof -
  have free: "44 \<notin> set (show_int i)" for i using show_int_chars [of 44 i] by (auto simp: is_digit_def)
  have split: "split_on 44 (join [44] (map show_int zs)) = map show_int zs" if "zs \<noteq> []" for zs
    by (rule split_join_comma) (use that free in auto)
  have empty: "join [44] (map show_int zs) = [] \<longleftrightarrow> zs = []" for zs
    using join_eq_Nil [of "[44]" "map show_int zs"] show_int_ne by (cases zs) (auto simp del: join.simps simp: join.simps(1))
  have "map show_int xs = map show_int ys"
  proof (cases "xs = []")
    case True
    then have "ys = []" using assms empty [of ys] by simp
    then show ?thesis using True by simp
  next
    case False
    then have "ys \<noteq> []" using assms empty by metis
    then show ?thesis using False assms split by metis
  qed
  moreover have "inj show_int" by (rule injI) (simp add: show_int_inj)
  ultimately show ?thesis by (simp add: inj_map_eq_map)
qed

lemma vn_shape_trimmed: "vn_shape v \<Longrightarrow> trimmed v"
proof -
  assume v: "vn_shape v"
  then have len: "length v = 16" and "is_digit (v ! 0)" "is_digit (v ! 15)" by (simp_all add: vn_shape_def)
  moreover have "hd v = v ! 0 \<and> last v = v ! 15" using len by (cases v) (auto simp: last_conv_nth)
  ultimately show ?thesis by (simp add: trimmed_def digit_not_space)
qed

lemma valid_times:
  assumes "validateDraft upper instant d = (Some i, es)"
  shows "trimmed (dp_starts_at d)" "trimmed (dp_ends_at d)"
proof -
  from assms have "time_errors instant d = []"
    by (auto simp: validateDraft_def Let_def draft_errors_of_def split: if_splits)
  then have "dp_starts_at d = [] \<or> vn_shape (dp_starts_at d)" "dp_ends_at d = [] \<or> vn_shape (dp_ends_at d)"
    by (auto simp: time_errors_def Let_def fromVnInput_def split: if_splits)
  then show "trimmed (dp_starts_at d)" "trimmed (dp_ends_at d)" using vn_shape_trimmed by (auto simp: trimmed_def)
qed

lemma optionalInt_trim: "js_trim u = js_trim v \<Longrightarrow> optionalInt u = optionalInt v"
  unfolding optionalInt_def by (metis js_number_trim)

lemma valid_input: "validateDraft upper instant d = (Some i, es) \<Longrightarrow> i = draft_input upper instant d"
  by (auto simp: validateDraft_def Let_def split: if_splits)

lemma bool_text_inj: "bool_text a = bool_text b \<longleftrightarrow> a = b"
  by (simp add: bool_text_def)

lemma unchanged_field:
  assumes d: "validateDraft upper instant d = (Some i, es)" and s: "validateDraft upper instant s = (Some j, fs)"
    and same: "norm_field upper d k = norm_field upper s k"
    and cap: "k = FMaxDiscount \<Longrightarrow> dp_discount_type d = dp_discount_type s"
  shows "input_field i k = input_field j k"
proof -
  note inputs = valid_input [OF d] valid_input [OF s]
  note times = valid_times [OF d] valid_times [OF s]
  show ?thesis
  proof (cases k)
    case FDiscountValue
    then show ?thesis using same by (simp add: inputs draft_input_def) (metis js_number_trim)
  next
    case FMinOrder
    then show ?thesis using same unfolding inputs by (simp add: draft_input_def min_number) (metis js_number_trim)
  next
    case FDiscountType
    then show ?thesis using same
      by (cases "dp_discount_type d"; cases "dp_discount_type s") (simp_all add: inputs draft_input_def)
  next
    case FMaxDiscount
    then have eq: "dp_discount_type d = dp_discount_type s" using cap by simp
    have "draft_cap d = draft_cap s"
    proof (cases "dp_discount_type s")
      case Percent
      then have "js_trim (dp_max_discount_amount d) = js_trim (dp_max_discount_amount s)" using same FMaxDiscount eq by simp
      then show ?thesis using Percent eq by (simp add: draft_cap_def optionalInt_trim [of "dp_max_discount_amount d" "dp_max_discount_amount s"])
    qed (use eq in \<open>simp add: draft_cap_def\<close>)
    then show ?thesis using FMaxDiscount by (simp add: inputs draft_input_def)
  next
    case FCategories
    then show ?thesis using same join_ints_inj by (auto simp: inputs draft_input_def)
  next
    case FAffiliate
    then have "dp_affiliate_account_id d = dp_affiliate_account_id s"
      using same show_int_ne show_int_ne [symmetric] by (cases "dp_affiliate_account_id d"; cases "dp_affiliate_account_id s") (simp_all add: show_int_inj)
    then show ?thesis using FAffiliate by (simp add: inputs draft_input_def)
  next
    case FStarts
    then have "dp_starts_at d = dp_starts_at s" using same times by (simp add: trimmed_js_trim_id)
    then show ?thesis using FStarts by (simp add: inputs draft_input_def)
  next
    case FEnds
    then have "dp_ends_at d = dp_ends_at s" using same times by (simp add: trimmed_js_trim_id)
    then show ?thesis using FEnds by (simp add: inputs draft_input_def)
  next
    case FUsageLimit
    then have "optionalInt (dp_usage_limit d) = optionalInt (dp_usage_limit s)" using same by (intro optionalInt_trim) simp
    then show ?thesis using FUsageLimit by (simp add: inputs draft_input_def)
  next
    case FPerBuyer
    then have "optionalInt (dp_per_buyer_limit d) = optionalInt (dp_per_buyer_limit s)" using same by (intro optionalInt_trim) simp
    then show ?thesis using FPerBuyer by (simp add: inputs draft_input_def)
  next
    case FBudget
    then have "optionalInt (dp_budget_amount d) = optionalInt (dp_budget_amount s)" using same by (intro optionalInt_trim) simp
    then show ?thesis using FBudget by (simp add: inputs draft_input_def)
  qed (use same in \<open>simp_all add: inputs draft_input_def draft_code_def bool_text_inj\<close>)
qed

text \<open>C11: saving a campaign sends a patch that says everything the admin changed.
  Whatever was edited of a saved campaign into a draft that passes validation, the fields of the patch,
  and for every field that is not in it the saved value, are exactly the campaign the form shows; a
  change from a percentage to an amount also clears the cap.\<close>

theorem patch_completes:
  assumes "validateDraft upper instant draft = (Some input, es)" and "validateDraft upper instant saved = (Some before, fs)"
  shows "(case map_of (patchFrom input (changedFields upper draft saved)) k of Some v \<Rightarrow> v | None \<Rightarrow> input_field before k) = input_field input k"
proof (cases "k \<in> fst ` set (patchFrom input (changedFields upper draft saved))")
  case True
  have "map_of (map (\<lambda>k. (k, input_field input k)) ks) k = (if k \<in> set ks then Some (input_field input k) else None)" for ks
    by (induction ks) auto
  then show ?thesis using True by (auto simp: patchFrom_def Let_def)
next
  case False
  have all: "k \<in> set PROMO_FIELDS" by (cases k) (simp_all add: PROMO_FIELDS_def)
  have same: "norm_field upper draft k = norm_field upper saved k"
    using False all by (auto simp: patchFrom_def changedFields_def Let_def image_image split: if_splits)
  have "dp_discount_type draft = dp_discount_type saved" if "k = FMaxDiscount"
  proof (rule ccontr)
    assume "dp_discount_type draft \<noteq> dp_discount_type saved"
    then have "norm_field upper draft FDiscountType \<noteq> norm_field upper saved FDiscountType"
      by (cases "dp_discount_type draft"; cases "dp_discount_type saved") simp_all
    then have "FDiscountType \<in> set (changedFields upper draft saved)" by (simp add: changedFields_def PROMO_FIELDS_def)
    then show False using False that by (simp add: patchFrom_def Let_def image_image)
  qed
  from unchanged_field [OF assms same this] have "input_field input k = input_field before k" .
  moreover have "map_of (patchFrom input (changedFields upper draft saved)) k = None" using False by (simp add: map_of_eq_None_iff)
  ultimately show ?thesis by simp
qed

text \<open>A saved draft of ten percent, and the edit of it to an amount.\<close>

definition sample_saved :: promo_draft where
  "sample_saved = emptyDraft \<lparr> dp_code := js ''SALE10'', dp_name := js ''Sale'', dp_per_buyer_limit := [] \<rparr>"

definition sample_edit :: promo_draft where
  "sample_edit = sample_saved \<lparr> dp_discount_type := Fixed \<rparr>"

lemma sample_number: "js_number (js ''10'') = Fin 10"
proof -
  have "js ''10'' = show_nat 10" by (simp add: show_nat.simps digit_unit_def)
  then show ?thesis using js_number_show_nat [of 10] by (simp add: overflow_bound_def)
qed

lemma sample_trimmed: "js_trim (js ''SALE10'') = js ''SALE10''" "js_trim (js ''Sale'') = js ''Sale''" "js_trim [] = []"
  by (simp_all add: trimmed_js_trim_id trimmed_def js_space_def)

lemma sample_draft_valid:
  "validateDraft id (\<lambda>_. None) sample_saved = (Some (draft_input id (\<lambda>_. None) sample_saved), [])"
  "validateDraft id (\<lambda>_. None) sample_edit = (Some (draft_input id (\<lambda>_. None) sample_edit), [])"
proof -
  have code: "CODE_RE (js ''SALE10'')" by (simp add: CODE_RE_def alnum_def is_digit_def)
  have zero: "js_number (js ''0'') = Fin 0"
    using js_number_show_nat [of 0] by (simp add: show_nat.simps digit_unit_def overflow_bound_def)
  have "draft_errors_of id (\<lambda>_. None) sample_saved = []" "draft_errors_of id (\<lambda>_. None) sample_edit = []"
    by (simp_all add: draft_errors_of_def sample_edit_def sample_saved_def emptyDraft_def draft_code_def sample_trimmed code
        value_error_def sample_number zero as_integer_def draft_cap_def optionalInt_def time_errors_def limit_error_def
        fromVnInput_def vn_shape_def Let_def del: js_Cons)
  then show "validateDraft id (\<lambda>_. None) sample_saved = (Some (draft_input id (\<lambda>_. None) sample_saved), [])"
    "validateDraft id (\<lambda>_. None) sample_edit = (Some (draft_input id (\<lambda>_. None) sample_edit), [])"
    by (simp_all add: validateDraft_def)
qed

lemma patch_completes_witness:
  "(case map_of (patchFrom (draft_input id (\<lambda>_. None) sample_edit) (changedFields id sample_edit sample_saved)) FDiscountType of
      Some v \<Rightarrow> v | None \<Rightarrow> ValType Percent) = ValType Fixed"
proof -
  have types: "dp_discount_type sample_saved = Percent" "dp_discount_type sample_edit = Fixed"
    by (simp_all add: sample_edit_def sample_saved_def emptyDraft_def)
  have v: "input_field (draft_input id (\<lambda>_. None) sample_saved) FDiscountType = ValType Percent"
    "input_field (draft_input id (\<lambda>_. None) sample_edit) FDiscountType = ValType Fixed"
    by (simp_all add: draft_input_def types)
  show ?thesis using patch_completes [OF sample_draft_valid(2,1), of FDiscountType] by (simp only: v)
qed

section \<open>Values changed underneath\<close>

text \<open>The raw value of a field, as \<open>rebaseDraft\<close> copies it.\<close>

fun same_field :: "promo_draft \<Rightarrow> promo_draft \<Rightarrow> promo_field \<Rightarrow> bool" where
  "same_field d e FCode = (dp_code d = dp_code e)"
| "same_field d e FName = (dp_name d = dp_name e)"
| "same_field d e FNote = (dp_note d = dp_note e)"
| "same_field d e FDiscountType = (dp_discount_type d = dp_discount_type e)"
| "same_field d e FDiscountValue = (dp_discount_value d = dp_discount_value e)"
| "same_field d e FMaxDiscount = (dp_max_discount_amount d = dp_max_discount_amount e)"
| "same_field d e FMinOrder = (dp_min_order_amount d = dp_min_order_amount e)"
| "same_field d e FStarts = (dp_starts_at d = dp_starts_at e)"
| "same_field d e FEnds = (dp_ends_at d = dp_ends_at e)"
| "same_field d e FUsageLimit = (dp_usage_limit d = dp_usage_limit e)"
| "same_field d e FPerBuyer = (dp_per_buyer_limit d = dp_per_buyer_limit e)"
| "same_field d e FBudget = (dp_budget_amount d = dp_budget_amount e)"
| "same_field d e FCategories = (dp_category_ids d = dp_category_ids e)"
| "same_field d e FNewBuyers = (dp_new_buyers_only d = dp_new_buyers_only e)"
| "same_field d e FActive = (dp_is_active d = dp_is_active e)"
| "same_field d e FAffiliate = (dp_affiliate_account_id d = dp_affiliate_account_id e)"

lemma copy_same: "same_field (copy_field n k d) n k"
  by (cases k) simp_all

lemma copy_other: "k \<noteq> l \<Longrightarrow> same_field (copy_field n k d) e l = same_field d e l"
  by (cases k; simp) (cases l; simp)+

definition rebase_step :: "promo_draft \<Rightarrow> (promo_field \<Rightarrow> bool) \<Rightarrow> promo_draft \<Rightarrow> promo_field \<Rightarrow> promo_draft" where
  "rebase_step n c out k = (if c k then copy_field n k out else out)"

lemma step_other: "k \<noteq> l \<or> \<not> c k \<Longrightarrow> same_field (rebase_step n c d k) e l = same_field d e l"
  by (cases "c k") (simp_all add: rebase_step_def copy_other)

lemma steps_other: "(l \<in> set ks \<longrightarrow> \<not> c l) \<Longrightarrow> same_field (foldl (rebase_step n c) d ks) e l = same_field d e l"
proof (induction ks arbitrary: d)
  case (Cons k ks)
  then have "same_field (foldl (rebase_step n c) (rebase_step n c d k) ks) e l = same_field (rebase_step n c d k) e l" by simp
  moreover have "k \<noteq> l \<or> \<not> c k" using Cons.prems by (cases "k = l") simp_all
  ultimately show ?case by (simp add: step_other)
qed simp

lemma steps_same: "distinct ks \<Longrightarrow> l \<in> set ks \<Longrightarrow> c l \<Longrightarrow> same_field (foldl (rebase_step n c) d ks) n l"
proof (induction ks arbitrary: d)
  case (Cons k ks)
  show ?case
  proof (cases "k = l")
    case True
    then have "same_field (rebase_step n c d k) n l" using Cons.prems(3) by (simp add: rebase_step_def copy_same)
    moreover have "l \<in> set ks \<longrightarrow> \<not> c l" using Cons.prems(1) True by simp
    ultimately show ?thesis using steps_other [of l ks c n "rebase_step n c d k" n] by simp
  next
    case False
    then show ?thesis using Cons.prems Cons.IH [of "rebase_step n c d k"] by simp
  qed
qed simp

lemma rebase_steps: "rebaseDraft upper draft old new =
  foldl (rebase_step new (\<lambda>k. norm_field upper draft k = norm_field upper old k)) draft PROMO_FIELDS"
  by (simp add: rebaseDraft_def rebase_step_def [abs_def])

lemma promo_fields: "distinct PROMO_FIELDS" "k \<in> set PROMO_FIELDS"
  by (simp_all add: PROMO_FIELDS_def) (cases k; simp)

lemma same_field_refl: "same_field d d k"
  by (cases k) simp_all


text \<open>The comparison is of texts: a leading zero counts as a change.\<close>

lemma leading_zero_is_a_change:
  "FUsageLimit \<in> set (changedFields id (emptyDraft \<lparr> dp_usage_limit := js ''0100'' \<rparr>) (emptyDraft \<lparr> dp_usage_limit := js ''100'' \<rparr>))"
  by (simp add: changedFields_def PROMO_FIELDS_def trimmed_js_trim_id trimmed_def js_space_def)

section \<open>Discounts, codes and the address\<close>

text \<open>For a campaign that validation lets through (a percentage from 1 to 100, a
  positive amount, a cap that is none, or positive), the discount on an order is never negative and never more than
  the order, and never more than the cap of a percentage; the example order shown to the admin meets the
  campaign's minimum and is at least a hundred thousand dong.\<close>

theorem promo_discount_bounds:
  assumes "0 < v" and "kind = Percent \<Longrightarrow> v \<le> 100" and "\<And>c. cap = Some c \<Longrightarrow> 0 < c" and "0 \<le> subtotal"
  shows "0 \<le> discountFor kind v cap subtotal \<and> discountFor kind v cap subtotal \<le> subtotal \<and>
    (\<forall>c. kind = Percent \<and> cap = Some c \<longrightarrow> discountFor kind v cap subtotal \<le> c) \<and>
    max min_order 100000 \<le> exampleSubtotal kind v min_order"
proof -
  have raw: "0 \<le> (subtotal * v) div 100" "kind = Percent \<Longrightarrow> (subtotal * v) div 100 \<le> subtotal"
  proof -
    have "0 \<le> subtotal * v" using assms(1,4) by simp
    then show "0 \<le> (subtotal * v) div 100" by linarith
    show "(subtotal * v) div 100 \<le> subtotal" if "kind = Percent"
    proof -
      have "subtotal * v \<le> subtotal * 100" using assms(2) [OF that] assms(4) by (rule mult_left_mono)
      then show ?thesis by linarith
    qed
  qed
  have "x \<le> of_int (ceil_to x)" for x
  proof -
    have "x / 50000 \<le> of_int \<lceil>x / 50000\<rceil>" by (rule le_of_int_ceiling)
    then show ?thesis by (simp add: ceil_to_def divide_le_eq del: le_of_int_ceiling)
  qed
  from this [of "of_int (max min_order 100000) * (3 / 2)"] have up: "max min_order 100000 \<le> ceil_to (of_int (max min_order 100000) * (3 / 2))"
    by linarith
  have "kind = Percent \<or> kind = Fixed" by (cases kind) simp_all
  then show ?thesis
  proof
    assume p: "kind = Percent"
    then show ?thesis using raw assms(3) up
      by (auto simp: discountFor_def exampleSubtotal_def Let_def min_def split: option.split)
  next
    assume "kind = Fixed"
    then show ?thesis using assms(1,4) up by (auto simp: discountFor_def exampleSubtotal_def Let_def)
  qed
qed

lemma promo_discount_bounds_witness:
  "discountFor Percent 10 (Some 50) 1000 = 50 \<and> 0 \<le> discountFor Percent 10 (Some 50) 1000 \<and> max 0 100000 \<le> exampleSubtotal Percent 10 0"
  using promo_discount_bounds [of 10 Percent "Some 50" 1000 0] by (simp add: discountFor_def)

text \<open>Every generated code is a valid code, for a prefix the form accepts that does not open with a hyphen.\<close>

lemma alphabet_alnum: "i < length BULK_ALPHABET \<Longrightarrow> alnum (BULK_ALPHABET ! i)"
proof -
  have "list_all alnum BULK_ALPHABET" by (simp add: BULK_ALPHABET_def alnum_def is_digit_def)
  then show "i < length BULK_ALPHABET \<Longrightarrow> alnum (BULK_ALPHABET ! i)" by (simp add: list_all_length)
qed

lemma sample_code_valid:
  assumes "prefix_ok (upper (js_trim pre))" "upper (js_trim pre) \<noteq> [] \<Longrightarrow> hd (upper (js_trim pre)) \<noteq> 45"
    and "6 \<le> length random" "length random \<le> 12" "\<And>r. r \<in> set random \<Longrightarrow> 0 \<le> r \<and> r < 1"
  shows "CODE_RE (sampleCode upper pre random)"
proof -
  let ?n = "length BULK_ALPHABET"
  let ?p = "upper (js_trim pre)"
  let ?r = "map (\<lambda>r. BULK_ALPHABET ! nat \<lfloor>r * of_nat ?n\<rfloor>) random"
  have "nat \<lfloor>r * of_nat ?n\<rfloor> < ?n" if "r \<in> set random" for r :: rat
  proof -
    have "0 < ?n" by (simp add: BULK_ALPHABET_def)
    then have "0 \<le> r * of_nat ?n" "r * of_nat ?n < of_nat ?n" using assms(5) [OF that] by simp_all
    then show ?thesis by linarith
  qed
  then have r: "\<forall>c \<in> set ?r. alnum c" using alphabet_alnum by auto
  have p: "\<forall>c \<in> set ?p. alnum c \<or> c = 45" "length ?p \<le> 12" using assms(1) by (simp_all add: prefix_ok_def list_all_iff)
  have ne: "?p @ ?r \<noteq> []" using assms(3) by auto
  have "hd (?p @ ?r) = (if ?p = [] then hd ?r else hd ?p)" by simp
  moreover have "alnum (hd ?r)" using r assms(3) by (metis hd_in_set length_map list.size(3) not_numeral_le_zero)
  moreover have "alnum (hd ?p)" if "?p \<noteq> []" using p(1) assms(2) that hd_in_set by blast
  ultimately have "alnum (hd (?p @ ?r))" by simp
  moreover have "\<forall>c \<in> set (tl (?p @ ?r)). alnum c \<or> c = 95 \<or> c = 45"
    using r p(1) list.set_sel(2) [OF ne] by (metis Un_iff set_append)
  ultimately show ?thesis using assms(3,4) p(2) by (simp add: CODE_RE_def sampleCode_def list_all_iff)
qed

text \<open>The form also accepts a prefix that opens with a hyphen, which no code may.\<close>

lemma hyphen_prefix_accepted: "prefix_ok (js ''-KOL'')" "\<not> CODE_RE (js ''-KOL'' @ s)"
  by (simp_all add: prefix_ok_def CODE_RE_def alnum_def is_digit_def)

end
