(* ===== verification/Facebook_Lookup.thy ===== *)
theory Facebook_Lookup
  imports Pricing_Grid Url_Params
begin

text \<open>
  The Facebook ID finder: which address a text stands for (lib/facebook-lookup.ts), the lookups kept in
  the browser (features/facebook-lookup/model.ts), and the state of the page (useFacebookLookup.ts), in
  which one request is in flight at a time and older ones are aborted.  The URL parser, percent-encoding
  and the server are parameters; answers arrive in any order.
\<close>

section \<open>Targets\<close>

datatype fb_kind = FbUsername | FbNumeric | FbProfile | FbPage | FbGroup | FbPeople | FbLink

record fb_target =
  ft_url :: jstr
  ft_handle :: jstr
  ft_kind :: fb_kind

text \<open>What the code reads of a \<open>URL\<close>; \<open>fu_clean\<close> is its \<open>href\<close> without the search and the hash.\<close>

record fb_url =
  fu_hostname :: jstr
  fu_pathname :: jstr
  fu_params :: "(jstr \<times> jstr) list"
  fu_clean :: jstr

definition FB_HOSTS :: "jstr list" where
  "FB_HOSTS = [js ''facebook.com'', js ''fb.com'', js ''fb.me'', js ''fb.watch'', js ''messenger.com'']"

definition CANONICAL :: jstr where "CANONICAL = js ''https://www.facebook.com''"

definition RESERVED :: "jstr list" where
  "RESERVED = map js [''profile.php'', ''people'', ''pages'', ''groups'', ''events'', ''photo'', ''photo.php'', ''photos'', ''video'',
     ''videos'', ''watch'', ''reel'', ''reels'', ''share'', ''story.php'', ''permalink.php'', ''posts'', ''marketplace'', ''gaming'',
     ''login'', ''login.php'', ''home.php'', ''hashtag'', ''search'', ''stories'', ''help'', ''policies'', ''privacy'', ''settings'',
     ''messages'', ''notifications'', ''friends'', ''media'', ''l.php'', ''dialog'', ''plugins'']"

definition OWNER_SUBPATHS :: "jstr list" where
  "OWNER_SUBPATHS = map js [''posts'', ''photos'', ''videos'', ''about'', ''friends'', ''reels'', ''reviews'', ''events'', ''community'',
     ''mentions'', ''photos_by'', ''map'', ''live'', ''services'', ''shop'', ''music'']"

definition alnum_unit :: "code_unit \<Rightarrow> bool" where
  "alnum_unit c \<longleftrightarrow> is_digit c \<or> (65 \<le> c \<and> c \<le> 90) \<or> (97 \<le> c \<and> c \<le> 122)"

definition USERNAME_RE :: "jstr \<Rightarrow> bool" where
  "USERNAME_RE s \<longleftrightarrow>
     2 \<le> length s \<and> length s \<le> 64 \<and> alnum_unit (hd s) \<and> alnum_unit (last s) \<and> list_all (\<lambda>c. alnum_unit c \<or> c = 46) s"

definition NUMERIC_RE :: "jstr \<Rightarrow> bool" where
  "NUMERIC_RE s \<longleftrightarrow> 5 \<le> length s \<and> length s \<le> 20 \<and> list_all is_digit s"

definition isFacebookHost :: "jstr \<Rightarrow> bool" where
  "isFacebookHost hostname =
     (let h = to_lower hostname; host = (if starts_with h (js ''www.'') then drop 4 h else h)
      in host \<in> set FB_HOSTS \<or> list_ex (\<lambda>root. ends_with host (46 # root)) FB_HOSTS)"

definition facebookUrl :: "(jstr \<Rightarrow> fb_url option) \<Rightarrow> jstr \<Rightarrow> fb_url option" where
  "facebookUrl parse candidate =
     (case parse candidate of None \<Rightarrow> None | Some url \<Rightarrow> if isFacebookHost (fu_hostname url) then Some url else None)"

text \<open>\<open>/^[a-z][a-z0-9+.-]*:\/\//i\<close>\<close>

definition scheme_unit :: "code_unit \<Rightarrow> bool" where
  "scheme_unit c \<longleftrightarrow> alnum_unit c \<or> c = 43 \<or> c = 46 \<or> c = 45"

definition with_scheme_prefix :: "jstr \<Rightarrow> bool" where
  "with_scheme_prefix s \<longleftrightarrow>
     s \<noteq> [] \<and> alnum_unit (hd s) \<and> \<not> is_digit (hd s) \<and> starts_with (dropWhile scheme_unit s) (js ''://'')"

definition parseUrl :: "(jstr \<Rightarrow> fb_url option) \<Rightarrow> jstr \<Rightarrow> fb_url option" where
  "parseUrl parse input =
     (if with_scheme_prefix input then facebookUrl parse input
      else let head = to_lower (takeWhile (\<lambda>c. c \<notin> {47, 63, 35}) input);
               here = facebookUrl parse (CANONICAL @ js ''/'' @ dropWhile (\<lambda>c. c = 47) input)
           in if 46 \<in> set head \<and> head \<notin> set RESERVED
              then (case facebookUrl parse (js ''https://'' @ input) of Some url \<Rightarrow> Some url | None \<Rightarrow> here)
              else here)"

definition facebookShortQuery :: "fb_target \<Rightarrow> jstr" where
  "facebookShortQuery t =
     (if starts_with (ft_url t) (CANONICAL @ js ''/'') then drop (length CANONICAL + 1) (ft_url t) else ft_url t)"

definition segments :: "(jstr \<Rightarrow> jstr option) \<Rightarrow> fb_url \<Rightarrow> jstr list" where
  "segments decode url =
     map (\<lambda>s. case decode s of None \<Rightarrow> s | Some d \<Rightarrow> d) (filter (\<lambda>s. s \<noteq> []) (map js_trim (split_on 47 (fu_pathname url))))"

definition on_facebook :: "jstr \<Rightarrow> jstr \<Rightarrow> fb_kind \<Rightarrow> fb_target option" where
  "on_facebook path handle kind = Some \<lparr> ft_url = CANONICAL @ js ''/'' @ path, ft_handle = handle, ft_kind = kind \<rparr>"

text \<open>\<open>parts[i]\<close>, which is falsy beyond the end and for the empty text.\<close>

definition part_at :: "jstr list \<Rightarrow> nat \<Rightarrow> jstr option" where
  "part_at parts i = (if i < length parts \<and> parts ! i \<noteq> [] then Some (parts ! i) else None)"

definition numeric_part :: "jstr list \<Rightarrow> nat \<Rightarrow> jstr option" where
  "numeric_part parts i = (case part_at parts i of Some p \<Rightarrow> if NUMERIC_RE p then Some p else None | None \<Rightarrow> None)"

definition short_host :: "jstr \<Rightarrow> bool" where
  "short_host host \<longleftrightarrow>
     host = js ''fb.me'' \<or> ends_with host (js ''.fb.me'') \<or> host = js ''fb.watch'' \<or> ends_with host (js ''.fb.watch'')"

definition or_param :: "jstr option \<Rightarrow> jstr option \<Rightarrow> jstr option" where
  "or_param x y = (case x of None \<Rightarrow> y | Some _ \<Rightarrow> x)"

definition owner_id :: "fb_url \<Rightarrow> jstr option" where
  "owner_id url =
     or_param (map_of (fu_params url) (js ''id''))
       (or_param (map_of (fu_params url) (js ''owner_id'')) (map_of (fu_params url) (js ''profile_id'')))"

text \<open>The owner named by the path of a Facebook address, the first part being \<open>head\<close> in lower case.\<close>

definition owner_target :: "(jstr \<Rightarrow> jstr) \<Rightarrow> fb_url \<Rightarrow> jstr list \<Rightarrow> fb_target option" where
  "owner_target encode url parts =
     (let head = to_lower (hd parts) in
      if ends_with head (js ''.php'') \<or> head = js ''photo''
      then (case owner_id url of
              Some i \<Rightarrow> if NUMERIC_RE i then on_facebook (js ''profile.php?id='' @ i) (js ''profile.php?id='' @ i) FbProfile
                        else (case numeric_part parts 1 of
                                Some p \<Rightarrow> if head = js ''photo'' then on_facebook p p FbNumeric else None | None \<Rightarrow> None)
            | None \<Rightarrow> (case numeric_part parts 1 of
                         Some p \<Rightarrow> if head = js ''photo'' then on_facebook p p FbNumeric else None | None \<Rightarrow> None))
      else if head = js ''groups'' \<and> part_at parts 1 \<noteq> None
      then on_facebook (js ''groups/'' @ parts ! 1) (js ''groups/'' @ parts ! 1) FbGroup
      else if head = js ''people'' \<and> numeric_part parts 2 \<noteq> None
      then on_facebook (js ''people/'' @ encode (parts ! 1) @ js ''/'' @ parts ! 2 @ js ''/'')
             (js ''people/'' @ [0x2026] @ js ''/'' @ parts ! 2) FbPeople
      else if head = js ''pages''
      then (case List.find NUMERIC_RE (rev parts) of
              Some i \<Rightarrow> on_facebook i i FbPage
            | None \<Rightarrow> if part_at parts 1 = None then None
                      else on_facebook (js ''pages/'' @ join (js ''/'') (map encode (tl parts))) (js ''pages/'' @ parts ! 1) FbPage)
      else if head \<in> set RESERVED then None
      else if NUMERIC_RE (hd parts) then on_facebook (hd parts) (hd parts) FbNumeric
      else if \<not> USERNAME_RE (hd parts) then None
      else if (case part_at parts 1 of None \<Rightarrow> False | Some p \<Rightarrow> to_lower p \<notin> set OWNER_SUBPATHS) then None
      else on_facebook (hd parts) (hd parts) FbUsername)"

definition url_target :: "(jstr \<Rightarrow> jstr option) \<Rightarrow> (jstr \<Rightarrow> jstr) \<Rightarrow> fb_url \<Rightarrow> fb_target option" where
  "url_target decode encode url =
     (let host = to_lower (fu_hostname url); parts = segments decode url in
      if parts = [] then None
      else if short_host host \<or> hd parts = js ''share''
      then Some \<lparr> ft_url = fu_clean url, ft_handle = host @ js ''/'' @ join (js ''/'') parts, ft_kind = FbLink \<rparr>
      else owner_target encode url parts)"

definition normalizeFacebookTarget ::
    "(jstr \<Rightarrow> fb_url option) \<Rightarrow> (jstr \<Rightarrow> jstr option) \<Rightarrow> (jstr \<Rightarrow> jstr) \<Rightarrow> jstr \<Rightarrow> fb_target option" where
  "normalizeFacebookTarget parse decode encode raw =
     (let input = js_trim raw in
      if input = [] \<or> list_ex js_space input then None
      else let bare = (if starts_with input (js ''@'') then tl input else input) in
           if NUMERIC_RE bare then on_facebook bare bare FbNumeric
           else if 47 \<notin> set bare \<and> \<not> str_includes bare (js ''.com'') \<and> USERNAME_RE bare then on_facebook bare bare FbUsername
           else (case parseUrl parse input of None \<Rightarrow> None | Some url \<Rightarrow> url_target decode encode url))"

datatype fb_entity = EntityProfile | EntityPage | EntityGroup | EntityEvent | EntityUnknown

definition facebookEntityType :: "json \<Rightarrow> fb_entity" where
  "facebookEntityType v =
     (case v of
        JStr s \<Rightarrow>
          (let t = to_lower (js_trim s) in
           if t = js ''profile'' \<or> t = js ''user'' then EntityProfile else if t = js ''page'' then EntityPage
           else if t = js ''group'' then EntityGroup else if t = js ''event'' then EntityEvent else EntityUnknown)
      | _ \<Rightarrow> EntityUnknown)"

definition facebookIdLink :: "jstr \<Rightarrow> fb_entity \<Rightarrow> jstr" where
  "facebookIdLink i e =
     CANONICAL @ (if e = EntityGroup then js ''/groups/'' else if e = EntityProfile then js ''/profile.php?id='' else js ''/'') @ i"

section \<open>Lookups kept in the browser\<close>

definition RECENT_LIMIT :: nat where "RECENT_LIMIT = 6"

record fb_result =
  fr_input :: jstr
  fr_id :: jstr
  fr_name :: "jstr option"
  fr_type :: jstr
  fr_fetched_at :: jstr

definition recent_entry :: "fb_result \<Rightarrow> params" where
  "recent_entry r =
     [(js ''input'', JStr (fr_input r)), (js ''id'', JStr (fr_id r)),
      (js ''name'', (case fr_name r of None \<Rightarrow> JNull | Some n \<Rightarrow> JStr n)), (js ''type'', JStr (fr_type r)), (js ''at'', JStr (fr_fetched_at r))]"

definition rememberLookup :: "params list \<Rightarrow> fb_result \<Rightarrow> params list" where
  "rememberLookup recent r =
     take RECENT_LIMIT (recent_entry r # filter (\<lambda>item. map_of item (js ''id'') \<noteq> Some (JStr (fr_id r))) recent)"

definition text_field :: "params \<Rightarrow> string \<Rightarrow> bool" where
  "text_field item k \<longleftrightarrow> (case map_of item (js k) of Some (JStr _) \<Rightarrow> True | _ \<Rightarrow> False)"

definition recent_items :: "json \<Rightarrow> params list" where
  "recent_items v =
     (case v of JObj item \<Rightarrow> if text_field item ''input'' \<and> text_field item ''id'' \<and> text_field item ''at'' then [item] else [] | _ \<Rightarrow> [])"

text \<open>The stored text as JSON; nothing stored, blocked storage and text that is no JSON are none.\<close>

definition parseRecent :: "json option \<Rightarrow> params list" where
  "parseRecent raw = (case raw of Some (JArr vs) \<Rightarrow> take RECENT_LIMIT (concat (map recent_items vs)) | _ \<Rightarrow> [])"

section \<open>The page\<close>

datatype lookup_failure = FailEmpty | FailInvalid | FailApi

text \<open>
  Requests are numbered by their abort controllers: \<open>fb_inflight\<close> is the one in the ref, \<open>fb_aborted\<close>
  the aborted ones, \<open>fb_calls\<close> those whose answer has not come.  A result carries the number of its
  request; \<open>fb_query\<close> is the \<open>q\<close> of the address bar.
\<close>

record fb_page =
  fb_value :: jstr
  fb_result :: "(nat \<times> fb_result) option"
  fb_failure :: "lookup_failure option"
  fb_loading :: bool
  fb_recent :: "params list"
  fb_inflight :: "nat option"
  fb_next :: nat
  fb_aborted :: "nat list"
  fb_calls :: "(nat \<times> fb_target) list"
  fb_query :: "jstr option"
  fb_storage :: "json option"

definition page_start :: "jstr option \<Rightarrow> json option \<Rightarrow> fb_page" where
  "page_start q storage =
     \<lparr> fb_value = or_empty q, fb_result = None, fb_failure = None, fb_loading = False, fb_recent = parseRecent storage,
       fb_inflight = None, fb_next = 0, fb_aborted = [], fb_calls = [], fb_query = q, fb_storage = storage \<rparr>"

definition persistRecent :: "bool \<Rightarrow> params list \<Rightarrow> fb_page \<Rightarrow> fb_page" where
  "persistRecent allowed kept s =
     s \<lparr> fb_recent := kept, fb_storage := (if allowed then Some (JArr (map JObj kept)) else fb_storage s) \<rparr>"

definition abort_inflight :: "fb_page \<Rightarrow> fb_page" where
  "abort_inflight s =
     s \<lparr> fb_aborted := (case fb_inflight s of None \<Rightarrow> fb_aborted s | Some n \<Rightarrow> n # fb_aborted s), fb_inflight := None \<rparr>"

definition cancel :: "fb_page \<Rightarrow> fb_page" where
  "cancel s = (abort_inflight s) \<lparr> fb_loading := False \<rparr>"

definition lookup_now :: "(jstr \<Rightarrow> fb_target option) \<Rightarrow> jstr option \<Rightarrow> fb_page \<Rightarrow> fb_page" where
  "lookup_now norm_target raw s =
     (let input = js_trim (case raw of None \<Rightarrow> fb_value s | Some r \<Rightarrow> r);
          s1 = (case raw of None \<Rightarrow> s | Some r \<Rightarrow> s \<lparr> fb_value := r \<rparr>)
      in if input = [] then s1 \<lparr> fb_failure := Some FailEmpty, fb_result := None \<rparr>
         else case norm_target input of
             None \<Rightarrow> s1 \<lparr> fb_failure := Some FailInvalid, fb_result := None \<rparr>
           | Some t \<Rightarrow>
               (abort_inflight s1) \<lparr> fb_inflight := Some (fb_next s), fb_next := Suc (fb_next s), fb_loading := True, fb_failure := None,
                 fb_result := None, fb_calls := fb_calls s @ [(fb_next s, t)] \<rparr>)"

text \<open>The answer to a request: ignored when it was aborted; at the end the ref is cleared if it is still this request.\<close>

definition lookup_answer :: "bool \<Rightarrow> nat \<times> fb_target \<Rightarrow> fb_result option \<Rightarrow> fb_page \<Rightarrow> fb_page" where
  "lookup_answer allowed call answer s =
     (let n = fst call; s1 = s \<lparr> fb_calls := remove1 call (fb_calls s) \<rparr>;
          s2 = (if n \<in> set (fb_aborted s) then s1
                else case answer of
                    Some r \<Rightarrow> persistRecent allowed (rememberLookup (parseRecent (fb_storage s)) r)
                                (s1 \<lparr> fb_result := Some (n, r),
                                      fb_query := (if facebookShortQuery (snd call) = [] then None else Some (facebookShortQuery (snd call))) \<rparr>)
                  | None \<Rightarrow> s1 \<lparr> fb_failure := Some FailApi \<rparr>)
      in if fb_inflight s2 = Some n then s2 \<lparr> fb_inflight := None, fb_loading := False \<rparr> else s2)"

definition reset_page :: "fb_page \<Rightarrow> fb_page" where
  "reset_page s = (cancel s) \<lparr> fb_value := [], fb_result := None, fb_failure := None, fb_query := None \<rparr>"

inductive page_step :: "(jstr \<Rightarrow> fb_target option) \<Rightarrow> fb_page \<Rightarrow> fb_page \<Rightarrow> bool" for norm_target where
  page_type: "page_step norm_target s (s \<lparr> fb_value := v \<rparr>)"
| page_lookup: "page_step norm_target s (lookup_now norm_target raw s)"
| page_answer: "call \<in> set (fb_calls s) \<Longrightarrow> page_step norm_target s (lookup_answer allowed call a s)"
| page_cancel: "page_step norm_target s (cancel s)"
| page_reset: "page_step norm_target s (reset_page s)"
| page_clear: "page_step norm_target s (persistRecent allowed [] s)"
| page_storage: "page_step norm_target s (s \<lparr> fb_storage := v \<rparr>)"

inductive page_run :: "(jstr \<Rightarrow> fb_target option) \<Rightarrow> fb_page \<Rightarrow> bool" for norm_target where
  page_init: "page_run norm_target (page_start q storage)"
| page_next: "page_run norm_target s \<Longrightarrow> page_step norm_target s t \<Longrightarrow> page_run norm_target t"

section \<open>Where a target points\<close>

definition fb_site :: jstr where "fb_site = CANONICAL @ js ''/''"

lemma on_facebook_site: "on_facebook path handle kind = Some t \<Longrightarrow> starts_with (ft_url t) fb_site"
  by (auto simp: on_facebook_def fb_site_def starts_with_def)

lemma owner_target_site: "owner_target encode url parts = Some t \<Longrightarrow> starts_with (ft_url t) fb_site"
  by (auto simp: owner_target_def Let_def dest: on_facebook_site split: if_splits option.splits)

lemma facebookUrl_host: "facebookUrl parse c = Some u \<Longrightarrow> parse c = Some u \<and> isFacebookHost (fu_hostname u)"
  by (auto simp: facebookUrl_def split: option.splits if_splits)

lemma parseUrl_host: "parseUrl parse input = Some u \<Longrightarrow> \<exists>c. parse c = Some u \<and> isFacebookHost (fu_hostname u)"
  by (auto simp: parseUrl_def Let_def split: if_splits option.splits dest: facebookUrl_host)

text \<open>Whatever is pasted, and however the address is parsed and decoded, the
  address that is sent to the lookup is under www.facebook.com, or it is a short or shared link whose
  parsed host is one of Facebook's, without its search and its hash.\<close>

theorem fb_target_on_facebook:
  assumes "normalizeFacebookTarget parse decode encode raw = Some t"
  shows "starts_with (ft_url t) (CANONICAL @ js ''/'') \<or>
    (\<exists>c u. parse c = Some u \<and> isFacebookHost (fu_hostname u) \<and> ft_kind t = FbLink \<and> ft_url t = fu_clean u)"
proof -
  have site: "starts_with (ft_url t) fb_site \<or> (ft_kind t = FbLink \<and> ft_url t = fu_clean u)"
    if "url_target decode encode u = Some t" for u
    using that owner_target_site by (auto simp: url_target_def Let_def split: if_splits)
  show ?thesis
    using assms on_facebook_site site parseUrl_host
    unfolding normalizeFacebookTarget_def Let_def fb_site_def [symmetric]
    by (auto split: if_splits option.splits) blast+
qed

lemma alnum_plain: "alnum_unit c \<or> c = 46 \<Longrightarrow> \<not> js_space c \<and> c \<noteq> 64 \<and> c \<noteq> 47"
  by (auto simp: alnum_unit_def is_digit_unat js_space_def word_le_nat_alt)

lemma sample_zuck: "normalizeFacebookTarget parse decode encode (js ''zuck'') =
  Some \<lparr> ft_url = CANONICAL @ js ''/zuck'', ft_handle = js ''zuck'', ft_kind = FbUsername \<rparr>"
proof -
  have "trimmed (js ''zuck'')" by (simp add: trimmed_def js_space_def)
  then have "js_trim (js ''zuck'') = js ''zuck''" by (rule trimmed_js_trim_id)
  moreover have "\<not> list_ex js_space (js ''zuck'')" by (simp add: js_space_def)
  moreover have "\<not> NUMERIC_RE (js ''zuck'')" by (simp add: NUMERIC_RE_def)
  moreover have "USERNAME_RE (js ''zuck'')" by (simp add: USERNAME_RE_def alnum_unit_def is_digit_def)
  moreover have "\<not> starts_with (js ''zuck'') (js ''@'')" "47 \<notin> set (js ''zuck'')" "\<not> str_includes (js ''zuck'') (js ''.com'')"
    by (simp_all add: starts_with_def)
  ultimately show ?thesis by (simp add: normalizeFacebookTarget_def Let_def on_facebook_def del: js_Cons) simp
qed

lemma fb_target_on_facebook_witness:
  "starts_with (CANONICAL @ js ''/zuck'') (CANONICAL @ js ''/'') \<and>
   normalizeFacebookTarget (\<lambda>_. None) Some id (js ''zuck'') \<noteq> None"
  using fb_target_on_facebook [OF sample_zuck [of "\<lambda>_. None" Some id]] sample_zuck [of "\<lambda>_. None" Some id] by simp

text \<open>A name or a number is read back from the address bar as the same target.\<close>

lemma bare_roundtrip:
  assumes "NUMERIC_RE b \<or> 47 \<notin> set b \<and> \<not> str_includes b (js ''.com'') \<and> USERNAME_RE b"
    and "normalizeFacebookTarget parse decode encode b = Some t"
  shows "facebookShortQuery t = b \<and> normalizeFacebookTarget parse decode encode (facebookShortQuery t) = Some t"
proof -
  have plain: "\<not> js_space c \<and> c \<noteq> 64 \<and> c \<noteq> 47" if "c \<in> set b" for c
    using assms(1) that by (intro alnum_plain) (auto simp: NUMERIC_RE_def USERNAME_RE_def list_all_iff alnum_unit_def)
  have ne: "b \<noteq> []" using assms(1) by (auto simp: NUMERIC_RE_def USERNAME_RE_def)
  have "js_trim b = b" using plain ne by (intro trimmed_js_trim_id) (auto simp: trimmed_def)
  moreover have "\<not> list_ex js_space b" using plain by (auto simp: list_ex_iff)
  moreover have "\<not> starts_with b (js ''@'')" using plain ne by (cases b) (auto simp: starts_with_def)
  ultimately have "\<exists>k. t = \<lparr> ft_url = CANONICAL @ js ''/'' @ b, ft_handle = b, ft_kind = k \<rparr>"
    using assms ne by (auto simp: normalizeFacebookTarget_def Let_def on_facebook_def split: if_splits)
  then have "facebookShortQuery t = b" by (auto simp: facebookShortQuery_def starts_with_def)
  then show ?thesis using assms(2) by simp
qed

text \<open>The part after \<open>groups/\<close> goes decoded into the address: an escaped question mark becomes a query.\<close>

lemma group_part_unescaped:
  assumes "fu_pathname url = js ''/groups/x%3Fa%3Db''" "fu_hostname url = js ''www.facebook.com''"
    "decode (js ''groups'') = Some (js ''groups'')" "decode (js ''x%3Fa%3Db'') = Some (js ''x?a=b'')"
  shows "map_option ft_url (url_target decode encode url) = Some (CANONICAL @ js ''/groups/x?a=b'')"
proof -
  have trim: "js_trim (js ''groups'') = js ''groups''" "js_trim (js ''x%3Fa%3Db'') = js ''x%3Fa%3Db''"
    by (rule trimmed_js_trim_id; simp add: trimmed_def js_space_def)+
  have "split_on 47 (js ''/groups/x%3Fa%3Db'') = [[], js ''groups'', js ''x%3Fa%3Db'']" by simp
  then have "segments decode url = [js ''groups'', js ''x?a=b'']"
    using assms(3,4) by (simp add: segments_def assms(1) trim del: js_Cons)
  moreover have "to_lower (js ''groups'') = js ''groups''" by (simp add: to_lower_def lower_unit_def)
  moreover have "\<not> short_host (to_lower (js ''www.facebook.com''))"
    by (simp add: short_host_def to_lower_def lower_unit_def ends_with_def suffix_to_prefix)
  moreover have "\<not> ends_with (js ''groups'') (js ''.php'')" by (simp add: ends_with_def suffix_to_prefix)
  ultimately show ?thesis
    by (simp add: url_target_def assms(2) owner_target_def part_at_def on_facebook_def js_eq_iff Let_def del: js_Cons) simp
qed

section \<open>One request at a time\<close>

definition page_ok :: "fb_page \<Rightarrow> bool" where
  "page_ok s \<longleftrightarrow>
     (fb_loading s \<longleftrightarrow> fb_inflight s \<noteq> None) \<and>
     (\<forall>n. fb_inflight s = Some n \<longrightarrow> Suc n = fb_next s \<and> n \<notin> set (fb_aborted s) \<and> fb_result s = None) \<and>
     (\<forall>n \<in> set (fb_aborted s). n < fb_next s) \<and>
     (\<forall>c \<in> set (fb_calls s). fst c < fb_next s \<and> (fst c \<in> set (fb_aborted s) \<or> fb_inflight s = Some (fst c))) \<and>
     (\<forall>n r. fb_result s = Some (n, r) \<longrightarrow> Suc n = fb_next s \<and> n \<notin> set (fb_aborted s)) \<and>
     distinct (map fst (fb_calls s)) \<and> length (fb_recent s) \<le> RECENT_LIMIT"

lemma recent_bounds: "length (parseRecent v) \<le> RECENT_LIMIT" "length (rememberLookup kept r) \<le> RECENT_LIMIT"
  by (auto simp: parseRecent_def rememberLookup_def RECENT_LIMIT_def split: option.split json.split)

lemma lookup_now_ok: "page_ok s \<Longrightarrow> page_ok (lookup_now norm_target raw s)"
  by (cases "fb_inflight s")
    (auto simp: page_ok_def lookup_now_def abort_inflight_def Let_def less_Suc_eq image_iff split: option.split)

lemma cancel_ok: "page_ok s \<Longrightarrow> page_ok (cancel s)"
  by (cases "fb_inflight s") (auto simp: page_ok_def cancel_def abort_inflight_def)

lemma fewer_calls_ok: "page_ok s \<Longrightarrow> page_ok (s \<lparr> fb_calls := remove1 c (fb_calls s) \<rparr>)"
  using set_remove1_subset [of c "fb_calls s"] by (auto simp: page_ok_def distinct_map inj_on_def)

lemma persist_fields:
  "fb_loading (persistRecent a k s) = fb_loading s" "fb_inflight (persistRecent a k s) = fb_inflight s"
  "fb_next (persistRecent a k s) = fb_next s" "fb_aborted (persistRecent a k s) = fb_aborted s"
  "fb_calls (persistRecent a k s) = fb_calls s" "fb_result (persistRecent a k s) = fb_result s"
  "fb_failure (persistRecent a k s) = fb_failure s" "fb_recent (persistRecent a k s) = k"
  by (simp_all add: persistRecent_def)

lemma lookup_answer_ok:
  assumes ok: "page_ok s" and mem: "call \<in> set (fb_calls s)"
  shows "page_ok (lookup_answer allowed call a s)"
proof (cases "fst call \<in> set (fb_aborted s)")
  case True
  then have "fb_inflight s \<noteq> Some (fst call)" using ok by (auto simp: page_ok_def)
  then show ?thesis using True fewer_calls_ok [OF ok, of call] by (simp add: lookup_answer_def)
next
  case False
  then have mine: "fb_inflight s = Some (fst call)" using ok mem by (auto simp: page_ok_def)
  have others: "c \<in> set (fb_calls s)" "fst c \<noteq> fst call" if "c \<in> set (remove1 call (fb_calls s))" for c
  proof -
    have dist: "distinct (fb_calls s)" "inj_on fst (set (fb_calls s))" using ok by (simp_all add: page_ok_def distinct_map)
    with that show "c \<in> set (fb_calls s)" by simp
    with that dist mem show "fst c \<noteq> fst call" by (auto dest: inj_onD)
  qed
  have left: "fst c < fb_next s \<and> fst c \<in> set (fb_aborted s)" if "c \<in> set (remove1 call (fb_calls s))" for c
    using others [OF that] ok mine by (auto simp: page_ok_def)
  have dist: "distinct (map fst (remove1 call (fb_calls s)))"
    using fewer_calls_ok [OF ok, of call] by (simp add: page_ok_def)
  show ?thesis
  proof (cases a)
    case None
    with False mine left dist ok show ?thesis
      by (auto simp: lookup_answer_def page_ok_def Let_def)
  next
    case (Some r)
    with False mine left dist ok show ?thesis
      by (auto simp: lookup_answer_def page_ok_def Let_def persist_fields recent_bounds)
  qed
qed

lemma page_run_ok: "page_run norm_target s \<Longrightarrow> page_ok s"
proof (induction rule: page_run.induct)
  case (page_init q storage)
  show ?case by (simp add: page_ok_def page_start_def recent_bounds)
next
  case (page_next s t)
  from page_next(2,3) show ?case
  proof (cases rule: page_step.cases)
    case page_reset
    then show ?thesis using cancel_ok [OF page_next(3)] by (auto simp: reset_page_def page_ok_def cancel_def)
  next
    case (page_clear allowed)
    then show ?thesis using page_next(3) by (simp add: page_ok_def persist_fields)
  qed (use page_next(3) in \<open>simp_all add: lookup_now_ok lookup_answer_ok cancel_ok\<close>, simp_all add: page_ok_def)
qed


text \<open>A lookup of nothing, or of what is no target, does not abort the request
  that runs: its answer arrives later and is shown beside the error, and under the name of another text.\<close>

theorem fb_error_beside_result:
  assumes "page_run norm_target s" and "fb_inflight s = Some n" and "(n, t) \<in> set (fb_calls s)"
    and "js_trim v \<noteq> []" and "norm_target (js_trim v) = None"
  shows "fb_failure (lookup_answer allowed (n, t) (Some r) (lookup_now norm_target (Some v) s)) = Some FailInvalid \<and>
    fb_result (lookup_answer allowed (n, t) (Some r) (lookup_now norm_target (Some v) s)) = Some (n, r) \<and>
    fb_value (lookup_answer allowed (n, t) (Some r) (lookup_now norm_target (Some v) s)) = v"
proof -
  have "n \<notin> set (fb_aborted s)" using page_run_ok [OF assms(1)] assms(2) by (simp add: page_ok_def)
  then show ?thesis using assms(2,4,5) by (simp add: lookup_now_def lookup_answer_def persistRecent_def Let_def)
qed

text \<open>A page on which one name is looked up.\<close>

definition sample_target :: fb_target where
  "sample_target = \<lparr> ft_url = CANONICAL @ js ''/zuck'', ft_handle = js ''zuck'', ft_kind = FbUsername \<rparr>"

definition sample_norm :: "jstr \<Rightarrow> fb_target option" where
  "sample_norm v = (if v = js ''zuck'' then Some sample_target else None)"

definition sample_asking :: fb_page where
  "sample_asking = lookup_now sample_norm (Some (js ''zuck'')) (page_start None None)"

definition sample_found :: fb_result where
  "sample_found = \<lparr> fr_input = js ''zuck'', fr_id = js ''4'', fr_name = None, fr_type = js ''Profile'', fr_fetched_at = [] \<rparr>"

lemma sample_asking_state: "page_run sample_norm sample_asking" "fb_inflight sample_asking = Some 0" "fb_calls sample_asking = [(0, sample_target)]"
proof -
  show "page_run sample_norm sample_asking" unfolding sample_asking_def by (rule page_next [OF page_init page_lookup])
  have "js_trim (js ''zuck'') = js ''zuck''" by (rule trimmed_js_trim_id) (simp add: trimmed_def js_space_def)
  then show "fb_inflight sample_asking = Some 0" "fb_calls sample_asking = [(0, sample_target)]"
    by (simp_all add: sample_asking_def lookup_now_def abort_inflight_def page_start_def sample_norm_def Let_def del: js_Cons)
qed


lemma fb_error_beside_result_witness:
  "fb_failure (lookup_answer True (0, sample_target) (Some sample_found) (lookup_now sample_norm (Some (js ''!'')) sample_asking)) = Some FailInvalid \<and>
   fb_result (lookup_answer True (0, sample_target) (Some sample_found) (lookup_now sample_norm (Some (js ''!'')) sample_asking)) = Some (0, sample_found)"
proof -
  have bang: "js_trim (js ''!'') = js ''!''" by (rule trimmed_js_trim_id) (simp add: trimmed_def js_space_def)
  have "js_trim (js ''!'') \<noteq> []" "sample_norm (js_trim (js ''!'')) = None"
    by (simp_all only: bang) (simp_all add: sample_norm_def)
  from fb_error_beside_result [OF sample_asking_state(1,2) _ this] sample_asking_state(3) show ?thesis by simp
qed

end
