(* ===== verification/Grouping.thy ===== *)
theory Grouping
  imports Prelude
begin

text \<open>
  Grouping a list by a key in the order the keys first appear, as the code does with a \<open>Map\<close> whose
  values are pushed to.  The contract of such a group is a locale: a new group has the key of its item
  and no members, pushing keeps the key and appends the item.  Components interpret it on their groups.
\<close>

definition group_into :: "('a \<Rightarrow> 'k) \<Rightarrow> ('g \<Rightarrow> 'k) \<Rightarrow> ('a \<Rightarrow> 'g) \<Rightarrow> ('a \<Rightarrow> 'g \<Rightarrow> 'g) \<Rightarrow> 'g list \<Rightarrow> 'a \<Rightarrow> 'g list" where
  "group_into key gkey fresh push gs x =
     map (\<lambda>g. if gkey g = key x then push x g else g) (if key x \<in> gkey ` set gs then gs else gs @ [fresh x])"

definition group_by :: "('a \<Rightarrow> 'k) \<Rightarrow> ('g \<Rightarrow> 'k) \<Rightarrow> ('a \<Rightarrow> 'g) \<Rightarrow> ('a \<Rightarrow> 'g \<Rightarrow> 'g) \<Rightarrow> 'a list \<Rightarrow> 'g list" where
  "group_by key gkey fresh push xs = foldl (group_into key gkey fresh push) [] xs"

lemma group_by_snoc: "group_by key gkey fresh push (xs @ [x]) = group_into key gkey fresh push (group_by key gkey fresh push xs) x"
  by (simp add: group_by_def)

locale grouper =
  fixes key :: "'a \<Rightarrow> 'k"
    and gkey :: "'g \<Rightarrow> 'k"
    and fresh :: "'a \<Rightarrow> 'g"
    and push :: "'a \<Rightarrow> 'g \<Rightarrow> 'g"
    and members :: "'g \<Rightarrow> 'a list"
  assumes gkey_fresh: "gkey (fresh x) = key x"
    and gkey_push: "gkey (push x g) = gkey g"
    and members_fresh: "members (fresh x) = []"
    and members_push: "members (push x g) = members g @ [x]"
begin

lemma keys: "map gkey (group_by key gkey fresh push xs) = uniq (map key xs)"
proof (induction xs rule: rev_induct)
  case Nil
  show ?case by (simp add: group_by_def)
next
  case (snoc x xs)
  have same: "map gkey (map (\<lambda>g. if gkey g = key x then push x g else g) gs) = map gkey gs" for gs
    by (simp add: gkey_push)
  have "key x \<in> gkey ` set (group_by key gkey fresh push xs) \<longleftrightarrow> key x \<in> key ` set xs"
    using arg_cong [OF snoc, of set] by simp
  then show ?case
    using snoc by (simp only: group_by_snoc group_into_def same)
      (simp add: uniq_append_single gkey_fresh)
qed

lemma distinct_keys: "distinct (map gkey (group_by key gkey fresh push xs))"
  by (simp add: keys)

lemma members_filter:
  "g \<in> set (group_by key gkey fresh push xs) \<Longrightarrow> members g = filter (\<lambda>x. key x = gkey g) xs"
proof (induction xs arbitrary: g rule: rev_induct)
  case Nil
  then show ?case by (simp add: group_by_def)
next
  case (snoc x xs)
  let ?gs = "group_by key gkey fresh push xs"
  have "\<exists>h. (h \<in> set ?gs \<or> (h = fresh x \<and> key x \<notin> gkey ` set ?gs)) \<and> g = (if gkey h = key x then push x h else h)"
  proof (cases "key x \<in> gkey ` set ?gs")
    case True
    with snoc.prems show ?thesis by (simp only: group_by_snoc group_into_def if_True set_map image_iff) blast
  next
    case False
    with snoc.prems have "\<exists>h \<in> set (?gs @ [fresh x]). g = (if gkey h = key x then push x h else h)"
      by (simp only: group_by_snoc group_into_def if_False set_map image_iff)
    with False show ?thesis by auto
  qed
  then obtain h where h: "h \<in> set ?gs \<or> (h = fresh x \<and> key x \<notin> gkey ` set ?gs)"
    and g: "g = (if gkey h = key x then push x h else h)" by blast
  have gk: "gkey g = gkey h" using g gkey_push by simp
  have "members h = filter (\<lambda>y. key y = gkey h) xs"
  proof (cases "h \<in> set ?gs")
    case True
    then show ?thesis by (rule snoc.IH)
  next
    case False
    with h have "h = fresh x" "key x \<notin> key ` set xs"
      using arg_cong [OF keys [of xs], of set] by auto
    moreover from this(2) have "filter (\<lambda>y. key y = key x) xs = []" by (auto simp: filter_empty_conv image_iff)
    ultimately show ?thesis by (simp add: members_fresh gkey_fresh)
  qed
  then show ?case using g gk by (auto simp: members_push)
qed

lemma covered: "x \<in> set xs \<Longrightarrow> \<exists>g \<in> set (group_by key gkey fresh push xs). gkey g = key x \<and> x \<in> set (members g)"
proof -
  assume x: "x \<in> set xs"
  then have "key x \<in> gkey ` set (group_by key gkey fresh push xs)"
    using arg_cong [OF keys [of xs], of set] by simp
  then obtain g where "g \<in> set (group_by key gkey fresh push xs)" "gkey g = key x" by auto
  moreover from members_filter [OF this(1)] this(2) x have "x \<in> set (members g)" by simp
  ultimately show ?thesis by blast
qed

lemma group_nonempty: "g \<in> set (group_by key gkey fresh push xs) \<Longrightarrow> members g \<noteq> []"
proof -
  assume g: "g \<in> set (group_by key gkey fresh push xs)"
  then have "gkey g \<in> key ` set xs" using arg_cong [OF keys [of xs], of set] by auto
  then show ?thesis using members_filter [OF g] by (auto simp: filter_empty_conv)
qed

lemma group_invariant:
  assumes "\<And>x. I (fresh x)" "\<And>x g. I g \<Longrightarrow> I (push x g)"
  shows "g \<in> set (group_by key gkey fresh push xs) \<Longrightarrow> I g"
proof (induction xs arbitrary: g rule: rev_induct)
  case Nil
  then show ?case by (simp add: group_by_def)
next
  case (snoc x xs)
  then show ?case using assms by (auto simp: group_by_snoc group_into_def split: if_splits)
qed

lemma set_members: "(\<Union>g \<in> set (group_by key gkey fresh push xs). set (members g)) = set xs"
  using members_filter covered by fastforce

text \<open>The members of all groups are the items: nothing is lost and nothing is in two groups.\<close>

lemma total_filtered:
  "sum_list (map (\<lambda>g. length (filter P (members g))) (group_by key gkey fresh push xs)) = length (filter P xs)"
proof -
  let ?gs = "group_by key gkey fresh push xs"
  have "map (\<lambda>g. length (filter P (members g))) ?gs = map (\<lambda>g. length (filter (\<lambda>x. key x = gkey g) (filter P xs))) ?gs"
    using members_filter by (intro map_cong) (simp_all add: conj_commute)
  also have "\<dots> = map (\<lambda>k. length (filter (\<lambda>x. key x = k) (filter P xs))) (uniq (map key xs))"
    by (simp flip: keys add: comp_def)
  finally have sums: "sum_list (map (\<lambda>g. length (filter P (members g))) ?gs) =
      (\<Sum>k \<in> set (map key xs). length (filter (\<lambda>x. key x = k) (filter P xs)))"
    by (simp add: sum_list_distinct_conv_sum_set)
  have "(\<Sum>k \<in> S. length (filter (\<lambda>x. key x = k) ys)) = length ys" if "finite S" "key ` set ys \<subseteq> S" for S ys
    using that
  proof (induction ys)
    case (Cons y ys)
    have "(\<Sum>k \<in> S. length (filter (\<lambda>x. key x = k) (y # ys))) =
        (\<Sum>k \<in> S. (if key y = k then 1 else 0) + length (filter (\<lambda>x. key x = k) ys))"
      by (intro sum.cong) auto
    then show ?case using Cons by (simp add: sum.distrib)
  qed simp
  from this [of "set (map key xs)" "filter P xs"] show ?thesis unfolding sums by auto
qed

lemma total_members: "sum_list (map (\<lambda>g. length (members g)) (group_by key gkey fresh push xs)) = length xs"
  using total_filtered [of "\<lambda>_. True"] by simp

end

end
