(* ===== verification/Seller_Sources.thy ===== *)
theory Seller_Sources
  imports Grouping Js_Number
begin

text \<open>
  A seller's supplier sources (features/seller-sources/logic.ts and offer-grid.ts): the suggested price
  and the repair of a low margin, the state of a listing and the reason it is blocked, listings and
  offers grouped by product, the placement of ticked goods into products, and the stock a seller types.
  Prices, costs and percentages are exact fractions; folding of texts (lib/text-fold.ts) is lower-casing
  and removal of accents, a parameter.
\<close>

section \<open>Prices and names\<close>

definition suggestPrice :: "rat \<Rightarrow> rat \<Rightarrow> rat \<Rightarrow> int" where
  "suggestPrice costPrice marginPct roundTo =
     (if costPrice \<le> 0 then 0
      else let t = (if 0 \<le> roundTo then \<lfloor>roundTo\<rfloor> else \<lceil>roundTo\<rceil>); step = max (if t = 0 then 1 else t) 1
           in \<lceil>costPrice * (1 + marginPct / 100) / of_int step\<rceil> * step)"

definition marginOf :: "rat \<Rightarrow> rat \<Rightarrow> rat option" where
  "marginOf price cost = (if cost \<le> 0 then None else Some ((price - cost) / cost * 100))"

definition ascii_letter :: "code_unit \<Rightarrow> bool" where
  "ascii_letter c \<longleftrightarrow> (65 \<le> c \<and> c \<le> 90) \<or> (97 \<le> c \<and> c \<le> 122)"

text \<open>\<open>/^[A-Z]{1,3}\d{1,4}\.\s*/i\<close>: a code of the shop at the start of a name.\<close>

definition drop_code :: "jstr \<Rightarrow> jstr" where
  "drop_code name =
     (let letters = takeWhile ascii_letter name; rest = dropWhile ascii_letter name;
          ds = takeWhile is_digit rest; rest2 = dropWhile is_digit rest
      in if letters \<noteq> [] \<and> length letters \<le> 3 \<and> ds \<noteq> [] \<and> length ds \<le> 4 \<and> starts_with rest2 (js ''.'')
         then dropWhile js_space (tl rest2) else name)"

text \<open>\<open>/\s{2,}/g\<close> replaced by one space; a single white space stays as it is.\<close>

function squeeze_runs :: "jstr \<Rightarrow> jstr" where
  "squeeze_runs [] = []"
| "squeeze_runs (c # s) =
     (if js_space c \<and> s \<noteq> [] \<and> js_space (hd s) then 32 # squeeze_runs (dropWhile js_space s) else c # squeeze_runs s)"
  by pat_completeness auto
termination by (relation "measure length") (auto simp: le_imp_less_Suc length_dropWhile_le)

definition cleanTitle :: "jstr \<Rightarrow> jstr" where
  "cleanTitle name = js_trim (squeeze_runs (drop_code name))"

definition name_separator :: "code_unit \<Rightarrow> bool" where
  "name_separator c \<longleftrightarrow> js_space c \<or> c \<in> {45, 0x2013, 0x2014, 58, 0xB7, 124, 44}"

definition variantNameFrom :: "(jstr \<Rightarrow> jstr) \<Rightarrow> jstr \<Rightarrow> jstr \<Rightarrow> jstr" where
  "variantNameFrom lower name grp =
     (let cleaned = cleanTitle name; g = js_trim grp;
          rest = js_trim (dropWhile name_separator (drop (length g) cleaned))
      in if g \<noteq> [] \<and> starts_with (lower cleaned) (lower g) \<and> 3 \<le> length rest then rest else cleaned)"

section \<open>Listings\<close>

record source_listing =
  sl_product_id :: int
  sl_product_title :: jstr
  sl_product_status :: jstr
  sl_public_key :: jstr
  sl_group_name :: jstr
  sl_variant_name :: jstr
  sl_variant_active :: bool
  sl_margin_ok :: bool
  sl_sellable :: int
  sl_sync_error :: "jstr option"
  sl_auto_paused_at :: "jstr option"
  sl_cost_price :: rat

datatype listing_state = Selling | Blocked | Off

datatype block_reason = Delisted | LowMargin | AutoPaused | OutOfStock

definition blockReason :: "source_listing \<Rightarrow> block_reason option" where
  "blockReason r =
     (if sl_sync_error r = Some (js ''delisted'') then Some Delisted
      else if sl_auto_paused_at r \<notin> {None, Some []} then Some AutoPaused
      else if \<not> sl_variant_active r then None
      else if \<not> sl_margin_ok r then Some LowMargin
      else if sl_sellable r \<le> 0 then Some OutOfStock
      else None)"

definition listingState :: "source_listing \<Rightarrow> listing_state" where
  "listingState r =
     (if blockReason r \<noteq> None then Blocked
      else if sl_variant_active r \<and> sl_product_status r = js ''active'' then Selling else Off)"

definition needsAction :: "source_listing \<Rightarrow> bool" where
  "needsAction r \<longleftrightarrow> blockReason r \<noteq> None \<and> blockReason r \<noteq> Some OutOfStock"

record price_rule =
  ru_markup_pct :: rat
  ru_round_to :: rat

definition fixPrice :: "source_listing \<Rightarrow> rat \<Rightarrow> price_rule \<Rightarrow> int" where
  "fixPrice r minMarginPct rule =
     max (suggestPrice (sl_cost_price r) (ru_markup_pct rule) (ru_round_to rule))
         (suggestPrice (sl_cost_price r) minMarginPct (ru_round_to rule))"

record listing_group =
  lg_product_id :: int
  lg_product_title :: jstr
  lg_product_status :: jstr
  lg_public_key :: jstr
  lg_group_name :: jstr
  lg_rows :: "source_listing list"

definition new_listing_group :: "source_listing \<Rightarrow> listing_group" where
  "new_listing_group r =
     \<lparr> lg_product_id = sl_product_id r, lg_product_title = sl_product_title r, lg_product_status = sl_product_status r,
       lg_public_key = sl_public_key r, lg_group_name = sl_group_name r, lg_rows = [] \<rparr>"

definition push_listing :: "source_listing \<Rightarrow> listing_group \<Rightarrow> listing_group" where
  "push_listing r g = g \<lparr> lg_rows := lg_rows g @ [r] \<rparr>"

definition groupListings :: "source_listing list \<Rightarrow> listing_group list" where
  "groupListings rows = group_by sl_product_id lg_product_id new_listing_group push_listing rows"

record listing_counts =
  lc_all :: nat
  lc_selling :: nat
  lc_blocked :: nat
  lc_off :: nat

definition count_listing :: "listing_counts \<Rightarrow> source_listing \<Rightarrow> listing_counts" where
  "count_listing out r =
     (case listingState r of
        Selling \<Rightarrow> out \<lparr> lc_selling := Suc (lc_selling out) \<rparr>
      | Blocked \<Rightarrow> out \<lparr> lc_blocked := Suc (lc_blocked out) \<rparr>
      | Off \<Rightarrow> out \<lparr> lc_off := Suc (lc_off out) \<rparr>)"

definition countListings :: "source_listing list \<Rightarrow> listing_counts" where
  "countListings rows = foldl count_listing \<lparr> lc_all = length rows, lc_selling = 0, lc_blocked = 0, lc_off = 0 \<rparr> rows"

definition balanceDays :: "rat option \<Rightarrow> rat \<Rightarrow> int option" where
  "balanceDays balance cost7d =
     (case balance of None \<Rightarrow> None | Some b \<Rightarrow> if cost7d \<le> 0 then None else Some \<lfloor>b / (cost7d / 7)\<rfloor>)"

text \<open>The threshold may be a number or a text; none counts as zero.\<close>

definition lowBalance :: "rat option \<Rightarrow> jsnum \<Rightarrow> bool" where
  "lowBalance balance threshold =
     (case (balance, threshold) of (Some b, Fin t) \<Rightarrow> 0 < t \<and> b < t | (Some b, PosInf) \<Rightarrow> True | _ \<Rightarrow> False)"

definition blockedCount :: "int \<Rightarrow> int \<Rightarrow> int \<Rightarrow> int" where
  "blockedCount errors low_margin auto_paused = errors + low_margin + auto_paused"

section \<open>Placement\<close>

record catalog_item =
  ci_external_id :: jstr
  ci_name :: jstr
  ci_group_name :: jstr
  ci_category_path :: "jstr list"
  ci_cost_price :: rat
  ci_amount :: int

datatype placement = NewProduct jstr | ExistingProduct int

record draft_variant =
  dv_external_id :: jstr
  dv_name :: jstr
  dv_group :: jstr
  dv_variant_name :: jstr
  dv_price :: int
  dv_cost_price :: rat
  dv_amount :: int
  dv_target :: placement

record draft_product =
  dp_key :: jstr
  dp_title :: jstr
  dp_category_id :: int
  dp_group :: jstr

record existing_product =
  ep_product_id :: int
  ep_product_title :: jstr
  ep_group_name :: jstr
  ep_variant_names :: "jstr list"

definition existingProducts :: "source_listing list \<Rightarrow> existing_product list" where
  "existingProducts rows =
     map (\<lambda>g. \<lparr> ep_product_id = lg_product_id g, ep_product_title = lg_product_title g, ep_group_name = lg_group_name g,
                ep_variant_names = map sl_variant_name (lg_rows g) \<rparr>) (groupListings rows)"

definition item_group :: "catalog_item \<Rightarrow> jstr" where
  "item_group it =
     (if ci_group_name it \<noteq> [] then ci_group_name it else case ci_category_path it of [] \<Rightarrow> [] | p # _ \<Rightarrow> p)"

text \<open>The first product of each group; its number zero would not count.\<close>

definition group_product :: "existing_product list \<Rightarrow> jstr \<Rightarrow> int option" where
  "group_product existing grp =
     (if grp = [] then None else map_option ep_product_id (List.find (\<lambda>e. ep_group_name e = grp) existing))"

definition place_variant ::
    "(jstr \<Rightarrow> jstr) \<Rightarrow> existing_product list \<Rightarrow> price_rule \<Rightarrow> draft_variant list \<Rightarrow> catalog_item \<Rightarrow> draft_variant" where
  "place_variant lower existing rule prev it =
     (let grp = item_group it; old = List.find (\<lambda>v. dv_external_id v = ci_external_id it) (rev prev) in
      \<lparr> dv_external_id = ci_external_id it, dv_name = ci_name it, dv_group = grp,
        dv_variant_name = (case old of None \<Rightarrow> variantNameFrom lower (ci_name it) grp | Some v \<Rightarrow> dv_variant_name v),
        dv_price = (case old of None \<Rightarrow> suggestPrice (ci_cost_price it) (ru_markup_pct rule) (ru_round_to rule) | Some v \<Rightarrow> dv_price v),
        dv_cost_price = ci_cost_price it, dv_amount = ci_amount it,
        dv_target = (case old of
            Some v \<Rightarrow> dv_target v
          | None \<Rightarrow> (case group_product existing grp of
                       Some i \<Rightarrow> if i = 0 then NewProduct grp else ExistingProduct i | None \<Rightarrow> NewProduct grp)) \<rparr>)"

definition place_product :: "draft_product list \<Rightarrow> draft_product list \<Rightarrow> draft_variant \<Rightarrow> draft_product list" where
  "place_product prev products v =
     (case dv_target v of
        ExistingProduct _ \<Rightarrow> products
      | NewProduct k \<Rightarrow>
          if k \<in> dp_key ` set products then products
          else products @ [case List.find (\<lambda>p. dp_key p = k) (rev prev) of
                 Some p \<Rightarrow> p
               | None \<Rightarrow> \<lparr> dp_key = k, dp_title = (if dv_group v \<noteq> [] then dv_group v else cleanTitle (dv_name v)), dp_category_id = 0,
                            dp_group = dv_group v \<rparr>])"

definition planPlacement ::
    "(jstr \<Rightarrow> jstr) \<Rightarrow> catalog_item list \<Rightarrow> existing_product list \<Rightarrow> price_rule \<Rightarrow> draft_product list \<times> draft_variant list \<Rightarrow>
     draft_product list \<times> draft_variant list" where
  "planPlacement lower cs existing rule prev =
     (let vs = map (place_variant lower existing rule (snd prev)) cs in (foldl (place_product (fst prev)) [] vs, vs))"

section \<open>Stock typed by hand\<close>

definition MANUAL_STOCK_MAX :: int where "MANUAL_STOCK_MAX = 10000000"

definition parseStockInput :: "jstr \<Rightarrow> int option" where
  "parseStockInput raw =
     (let cleaned = filter (\<lambda>c. \<not> js_space c \<and> c \<noteq> 46 \<and> c \<noteq> 44) (js_trim raw)
      in if cleaned = [] \<or> \<not> list_all is_digit cleaned then None
         else case digits_value 10 0 cleaned of
             None \<Rightarrow> None
           | Some n \<Rightarrow> if int n \<le> MANUAL_STOCK_MAX then Some (int n) else None)"

section \<open>What the functions promise\<close>

interpretation listings: grouper sl_product_id lg_product_id new_listing_group push_listing lg_rows
  by unfold_locales (simp_all add: new_listing_group_def push_listing_def)

text \<open>Each product has one group with all its listings, in their order, and no listing is lost.\<close>

lemma listing_groups:
  "distinct (map lg_product_id (groupListings rows))"
  "g \<in> set (groupListings rows) \<Longrightarrow> lg_rows g = filter (\<lambda>r. sl_product_id r = lg_product_id g) rows"
  "sum_list (map (\<lambda>g. length (lg_rows g)) (groupListings rows)) = length rows"
  by (simp_all add: groupListings_def listings.distinct_keys listings.members_filter listings.total_members)

lemma listing_counts:
  "lc_all (countListings rows) = length rows \<and>
   lc_selling (countListings rows) = length (filter (\<lambda>r. listingState r = Selling) rows) \<and>
   lc_blocked (countListings rows) = length (filter (\<lambda>r. listingState r = Blocked) rows) \<and>
   lc_off (countListings rows) = length (filter (\<lambda>r. listingState r = Off) rows)"
proof -
  have "lc_all (foldl count_listing out rows) = lc_all out \<and>
      lc_selling (foldl count_listing out rows) = lc_selling out + length (filter (\<lambda>r. listingState r = Selling) rows) \<and>
      lc_blocked (foldl count_listing out rows) = lc_blocked out + length (filter (\<lambda>r. listingState r = Blocked) rows) \<and>
      lc_off (foldl count_listing out rows) = lc_off out + length (filter (\<lambda>r. listingState r = Off) rows)" for out
  proof (induction rows arbitrary: out)
    case (Cons r rows)
    then show ?case by (cases "listingState r") (simp_all add: count_listing_def)
  qed simp
  then show ?thesis by (simp add: countListings_def)
qed

lemma round_up_above: "1 \<le> step \<Longrightarrow> x \<le> of_int (\<lceil>x / of_int step\<rceil> * step)" for x :: rat
proof -
  assume "1 \<le> step"
  moreover have "x / of_int step \<le> of_int \<lceil>x / of_int step\<rceil>" by (rule le_of_int_ceiling)
  ultimately show ?thesis by (simp add: divide_le_eq del: le_of_int_ceiling)
qed

lemma suggestPrice_above:
  assumes "0 < cost" shows "cost * (1 + pct / 100) \<le> of_int (suggestPrice cost pct roundTo)"
proof -
  have "1 \<le> max (if x = 0 then 1 else x) 1" for x :: int by simp
  then show ?thesis using assms round_up_above by (simp add: suggestPrice_def Let_def del: of_int_mult)
qed

text \<open>The repaired price of a listing whose cost is known has at least the margin the
  source asks for, and at least the one of the price rule.\<close>

theorem fix_price_clears:
  assumes "0 < sl_cost_price r"
  shows "\<exists>m. marginOf (of_int (fixPrice r minMarginPct rule)) (sl_cost_price r) = Some m \<and> minMarginPct \<le> m \<and> ru_markup_pct rule \<le> m"
proof -
  let ?c = "sl_cost_price r"
  have margin: "p \<le> (x - ?c) / ?c * 100" if "?c * (1 + p / 100) \<le> x" for p x
    using that assms by (simp add: field_simps)
  have "?c * (1 + minMarginPct / 100) \<le> of_int (fixPrice r minMarginPct rule)" "?c * (1 + ru_markup_pct rule / 100) \<le> of_int (fixPrice r minMarginPct rule)"
    using suggestPrice_above [OF assms, of minMarginPct "ru_round_to rule"] suggestPrice_above [OF assms, of "ru_markup_pct rule" "ru_round_to rule"]
    by (simp_all add: fixPrice_def of_int_max max_def)
  from margin [OF this(1)] margin [OF this(2)] show ?thesis using assms by (simp add: marginOf_def)
qed

definition sample_listing :: source_listing where
  "sample_listing = \<lparr> sl_product_id = 1, sl_product_title = [], sl_product_status = [], sl_public_key = [], sl_group_name = [],
     sl_variant_name = [], sl_variant_active = True, sl_margin_ok = False, sl_sellable = 1, sl_sync_error = None,
     sl_auto_paused_at = None, sl_cost_price = 1000 \<rparr>"

lemma fix_price_clears_witness:
  "\<exists>m. marginOf (of_int (fixPrice sample_listing 20 \<lparr> ru_markup_pct = 50, ru_round_to = 1000 \<rparr>)) 1000 = Some m \<and> 20 \<le> m \<and> 50 \<le> m"
  using fix_price_clears [of sample_listing 20 "\<lparr> ru_markup_pct = 50, ru_round_to = 1000 \<rparr>"] by (simp add: sample_listing_def)

text \<open>The typed stock is within its limits, and a decimal number is read without its point.\<close>

lemma stock_input_bounds: "parseStockInput raw = Some n \<Longrightarrow> 0 \<le> n \<and> n \<le> MANUAL_STOCK_MAX"
  by (auto simp: parseStockInput_def Let_def split: if_splits option.splits)

lemma stock_input_decimal: "parseStockInput (js ''1.5'') = Some 15"
proof -
  have "js_trim (js ''1.5'') = js ''1.5''" by (rule trimmed_js_trim_id) (simp add: trimmed_def js_space_def)
  moreover have "filter (\<lambda>c. \<not> js_space c \<and> c \<noteq> 46 \<and> c \<noteq> 44) (js ''1.5'') = show_nat 15"
    by (simp add: js_space_def show_nat.simps digit_unit_def)
  moreover have "list_all is_digit (show_nat 15)" using show_nat_digits by (auto simp: list_all_iff)
  ultimately show ?thesis by (simp add: parseStockInput_def MANUAL_STOCK_MAX_def Let_def del: js_Cons)
qed

section \<open>Planning again changes nothing\<close>

lemma find_distinct: "distinct (map f xs) \<Longrightarrow> x \<in> set xs \<Longrightarrow> List.find (\<lambda>y. f y = f x) (rev xs) = Some x"
proof -
  have "distinct (map f ys) \<Longrightarrow> x \<in> set ys \<Longrightarrow> List.find (\<lambda>y. f y = f x) ys = Some x" for ys
    by (induction ys) (auto simp: image_iff)
  from this [of "rev xs"] show "distinct (map f xs) \<Longrightarrow> x \<in> set xs \<Longrightarrow> List.find (\<lambda>y. f y = f x) (rev xs) = Some x"
    by (simp add: rev_map [symmetric])
qed

text \<open>The product a variant's key gets: the one edited before, or a new one.\<close>

definition chosen_product :: "draft_product list \<Rightarrow> draft_variant \<Rightarrow> jstr \<Rightarrow> draft_product" where
  "chosen_product prev v k =
     (case List.find (\<lambda>p. dp_key p = k) (rev prev) of
        Some p \<Rightarrow> p
      | None \<Rightarrow> \<lparr> dp_key = k, dp_title = (if dv_group v \<noteq> [] then dv_group v else cleanTitle (dv_name v)), dp_category_id = 0,
                   dp_group = dv_group v \<rparr>)"

lemma chosen_key [simp]: "dp_key (chosen_product prev v k) = k"
proof -
  have "List.find P ps = Some p \<Longrightarrow> P p" for P and ps :: "draft_product list" and p by (induction ps) (auto split: if_splits)
  then show ?thesis by (auto simp: chosen_product_def split: option.split)
qed

lemma place_product_eq:
  "place_product prev products v =
     (case dv_target v of
        ExistingProduct _ \<Rightarrow> products
      | NewProduct k \<Rightarrow> if k \<in> dp_key ` set products then products else products @ [chosen_product prev v k])"
  by (simp add: place_product_def chosen_product_def split: placement.split)

lemma place_products_grow: "\<exists>more'. foldl (place_product prev) products vs = products @ more'"
proof (induction vs arbitrary: products)
  case (Cons v vs)
  have "\<exists>a. place_product prev products v = products @ a"
    by (cases "dv_target v") (simp_all add: place_product_eq)
  then obtain a where "place_product prev products v = products @ a" ..
  with Cons [of "products @ a"] show ?case by auto
qed simp

lemma place_products_keys:
  "distinct (map dp_key products) \<Longrightarrow> distinct (map dp_key (foldl (place_product prev) products vs))"
  "dp_key ` set (foldl (place_product prev) products vs) = dp_key ` set products \<union> {k. \<exists>v \<in> set vs. dv_target v = NewProduct k}"
  by (induction vs arbitrary: products) (auto simp: place_product_eq split: placement.splits)

lemma replace_products:
  assumes "P = foldl (place_product prev) [] (us @ ws)"
  shows "foldl (place_product P) [] us = foldl (place_product prev) [] us"
  using assms
proof (induction us arbitrary: ws rule: rev_induct)
  case (snoc u us)
  let ?F = "foldl (place_product prev) [] us"
  have ih: "foldl (place_product P) [] us = ?F" using snoc.IH [of "u # ws"] snoc.prems by simp
  have "place_product P ?F u = place_product prev ?F u"
  proof (cases "dv_target u")
    case (NewProduct k)
    show ?thesis
    proof (cases "k \<in> dp_key ` set ?F")
      case False
      then have "place_product prev ?F u = ?F @ [chosen_product prev u k]" by (simp add: place_product_eq NewProduct)
      then obtain rest where P: "P = (?F @ [chosen_product prev u k]) @ rest"
        using snoc.prems place_products_grow [of prev "place_product prev ?F u" ws] by auto
      then have mem: "chosen_product prev u k \<in> set P" by simp
      have "distinct (map dp_key P)" using place_products_keys(1) [of "[]" prev "(us @ [u]) @ ws"] unfolding snoc.prems [symmetric] by simp
      from find_distinct [OF this mem] have found: "List.find (\<lambda>p. dp_key p = k) (rev P) = Some (chosen_product prev u k)" by simp
      have "chosen_product P u k = chosen_product prev u k" unfolding chosen_product_def [of P] found by simp
      then show ?thesis by (simp add: place_product_eq NewProduct)
    qed (simp add: place_product_eq NewProduct)
  qed (simp add: place_product_eq)
  then show ?case by (simp add: ih)
qed simp


definition sample_item :: catalog_item where
  "sample_item = \<lparr> ci_external_id = js ''a'', ci_name = js ''Clone'', ci_group_name = js ''Facebook'', ci_category_path = [],
     ci_cost_price = 1000, ci_amount = 5 \<rparr>"


section \<open>Offers of a proxy source\<close>

record source_offer =
  so_product_id :: int
  so_product_title :: jstr
  so_product_status :: jstr
  so_product_key :: "jstr option"
  so_type :: jstr
  so_network :: jstr
  so_days :: nat
  so_label :: jstr
  so_plan_key :: jstr
  so_external_name :: "jstr option"
  so_price :: int
  so_margin_pct :: "rat option"
  so_margin_ok :: bool
  so_unmapped :: bool
  so_plan_missing :: "bool option"
  so_upstream_available :: "bool option"

record offer_grid =
  og_productId :: int
  og_title :: jstr
  og_status :: jstr
  og_productKey :: "jstr option"
  og_types :: "(jstr \<times> jstr list) list"
  og_days :: "nat list"
  og_cells :: "((jstr \<times> jstr \<times> nat) \<times> source_offer) list"
  og_offers :: "source_offer list"
  og_attention :: nat
  og_marginMin :: "rat option"
  og_marginMax :: "rat option"

definition needsAttention :: "source_offer \<Rightarrow> bool" where
  "needsAttention offer \<longleftrightarrow>
     \<not> so_margin_ok offer \<or> so_unmapped offer \<or> so_plan_missing offer = Some True \<or> so_upstream_available offer = Some False"

definition new_grid :: "source_offer \<Rightarrow> offer_grid" where
  "new_grid offer =
     \<lparr> og_productId = so_product_id offer, og_title = so_product_title offer, og_status = so_product_status offer,
       og_productKey = so_product_key offer, og_types = [], og_days = [], og_cells = [], og_offers = [], og_attention = 0,
       og_marginMin = None, og_marginMax = None \<rparr>"

text \<open>\<open>m == null ? x : Math.min(m, x)\<close>\<close>

definition with_opt :: "(rat \<Rightarrow> rat \<Rightarrow> rat) \<Rightarrow> rat option \<Rightarrow> rat option \<Rightarrow> rat option" where
  "with_opt f m x = (case x of None \<Rightarrow> m | Some v \<Rightarrow> Some (case m of None \<Rightarrow> v | Some u \<Rightarrow> f u v))"

definition push_offer :: "source_offer \<Rightarrow> offer_grid \<Rightarrow> offer_grid" where
  "push_offer offer grid =
     grid \<lparr> og_types := AList.update (so_type offer)
              (set_add (case map_of (og_types grid) (so_type offer) of None \<Rightarrow> [] | Some ns \<Rightarrow> ns) (so_network offer)) (og_types grid),
            og_days := set_add (og_days grid) (so_days offer),
            og_cells := AList.update (so_type offer, so_network offer, so_days offer) offer (og_cells grid),
            og_offers := og_offers grid @ [offer],
            og_attention := (if needsAttention offer then Suc (og_attention grid) else og_attention grid),
            og_marginMin := with_opt min (og_marginMin grid) (so_margin_pct offer),
            og_marginMax := with_opt max (og_marginMax grid) (so_margin_pct offer) \<rparr>"

definition groupOffers :: "source_offer list \<Rightarrow> offer_grid list" where
  "groupOffers offers =
     map (\<lambda>g. g \<lparr> og_days := sort (og_days g) \<rparr>) (group_by so_product_id og_productId new_grid push_offer offers)"

text \<open>\<open>matchesAllWords\<close> of folded texts: \<open>split\<close> at single spaces, empty words dropped.\<close>

definition matchesAllWords :: "(jstr \<Rightarrow> jstr) \<Rightarrow> jstr \<Rightarrow> jstr \<Rightarrow> bool" where
  "matchesAllWords fold' hay query = list_all (str_includes (fold' hay)) (filter (\<lambda>w. w \<noteq> []) (split_on 32 (fold' query)))"

definition filterGrids :: "(jstr \<Rightarrow> jstr) \<Rightarrow> offer_grid list \<Rightarrow> jstr \<Rightarrow> offer_grid list" where
  "filterGrids fold' grids query =
     (if js_trim query = [] then grids
      else filter (\<lambda>grid. matchesAllWords fold' (og_title grid) query \<or>
             list_ex (\<lambda>o'. matchesAllWords fold' (so_label o' @ [32] @ so_plan_key o' @ [32] @
                 (case so_external_name o' of None \<Rightarrow> [] | Some n \<Rightarrow> n)) query) (og_offers grid)) grids)"

record offer_summary =
  os_selling :: nat
  os_products :: nat
  os_attention :: nat
  os_minPrice :: "int option"
  os_maxPrice :: "int option"
  os_marginMin :: "rat option"
  os_marginMax :: "rat option"

definition least_of :: "'a::linorder list \<Rightarrow> 'a option" where
  "least_of xs = (if xs = [] then None else Some (Min (set xs)))"

definition greatest_of :: "'a::linorder list \<Rightarrow> 'a option" where
  "greatest_of xs = (if xs = [] then None else Some (Max (set xs)))"

definition grid_margins :: "offer_grid \<Rightarrow> rat list" where
  "grid_margins g = (case (og_marginMin g, og_marginMax g) of (Some a, Some b) \<Rightarrow> [a, b] | _ \<Rightarrow> [])"

definition summarizeOffers :: "offer_grid list \<Rightarrow> offer_summary" where
  "summarizeOffers grids =
     (let offers = concat (map og_offers grids); prices = map so_price offers; margins = concat (map grid_margins grids)
      in \<lparr> os_selling = length offers, os_products = length grids, os_attention = sum_list (map og_attention grids),
           os_minPrice = least_of prices, os_maxPrice = greatest_of prices,
           os_marginMin = least_of margins, os_marginMax = greatest_of margins \<rparr>)"

interpretation offers: grouper so_product_id og_productId new_grid push_offer og_offers
  by unfold_locales (simp_all add: new_grid_def push_offer_def)

definition known_margins :: "source_offer list \<Rightarrow> rat list" where
  "known_margins offers = concat (map (\<lambda>o'. case so_margin_pct o' of None \<Rightarrow> [] | Some m \<Rightarrow> [m]) offers)"

lemma least_snoc: "least_of (xs @ [x]) = Some (case least_of xs of None \<Rightarrow> x | Some m \<Rightarrow> min m x)"
  by (simp add: least_of_def min.commute)

lemma greatest_snoc: "greatest_of (xs @ [x]) = Some (case greatest_of xs of None \<Rightarrow> x | Some m \<Rightarrow> max m x)"
  by (simp add: greatest_of_def max.commute)

lemma least_iff: "least_of xs = Some m \<longleftrightarrow> m \<in> set xs \<and> (\<forall>x \<in> set xs. m \<le> x)"
  by (auto simp: least_of_def Min_eq_iff dest: Min_in)

lemma greatest_iff: "greatest_of xs = Some m \<longleftrightarrow> m \<in> set xs \<and> (\<forall>x \<in> set xs. x \<le> m)"
  by (auto simp: greatest_of_def Max_eq_iff)

lemma none_iff: "least_of xs = None \<longleftrightarrow> xs = []" "greatest_of xs = None \<longleftrightarrow> xs = []"
  by (simp_all add: least_of_def greatest_of_def)

lemma least_same_set: "set xs = set ys \<Longrightarrow> least_of xs = least_of ys" "set xs = set ys \<Longrightarrow> greatest_of xs = greatest_of ys"
  by (auto simp: least_of_def greatest_of_def)

definition grid_ok :: "offer_grid \<Rightarrow> bool" where
  "grid_ok g \<longleftrightarrow>
     og_attention g = length (filter needsAttention (og_offers g)) \<and>
     og_marginMin g = least_of (known_margins (og_offers g)) \<and> og_marginMax g = greatest_of (known_margins (og_offers g)) \<and>
     distinct (og_days g) \<and> set (og_days g) = so_days ` set (og_offers g)"

lemma grid_invariant: "g \<in> set (group_by so_product_id og_productId new_grid push_offer offers) \<Longrightarrow> grid_ok g"
proof (rule offers.group_invariant [of grid_ok])
  show "grid_ok (new_grid x)" for x by (simp add: grid_ok_def new_grid_def known_margins_def least_of_def greatest_of_def)
  show "grid_ok (push_offer x g)" if "grid_ok g" for x g
  proof (cases "so_margin_pct x")
    case None
    with that show ?thesis by (simp add: grid_ok_def push_offer_def with_opt_def known_margins_def)
  next
    case (Some m)
    have "known_margins (og_offers g @ [x]) = known_margins (og_offers g) @ [m]" by (simp add: known_margins_def Some)
    with that Some show ?thesis by (simp add: grid_ok_def push_offer_def with_opt_def least_snoc greatest_snoc)
  qed
qed

lemma final_grid:
  assumes "g \<in> set (groupOffers offers)"
  shows "\<exists>h \<in> set (group_by so_product_id og_productId new_grid push_offer offers). g = h \<lparr> og_days := sort (og_days h) \<rparr>"
  using assms by (auto simp: groupOffers_def)

text \<open>The days of a grid are those of its offers, ascending and each once.\<close>

lemma grid_days: "g \<in> set (groupOffers offers) \<Longrightarrow> sorted (og_days g) \<and> distinct (og_days g) \<and> set (og_days g) = so_days ` set (og_offers g)"
  using final_grid grid_invariant by (fastforce simp: grid_ok_def)

lemma grid_margins_ends:
  assumes "grid_ok g"
  shows "set (grid_margins g) \<subseteq> set (known_margins (og_offers g))"
    and "m \<in> set (known_margins (og_offers g)) \<Longrightarrow> \<exists>a b. grid_margins g = [a, b] \<and> a \<le> m \<and> m \<le> b"
proof -
  have ends: "least_of (known_margins (og_offers g)) = Some a \<and> greatest_of (known_margins (og_offers g)) = Some b"
    if "og_marginMin g = Some a" "og_marginMax g = Some b" for a b
    using that assms by (simp add: grid_ok_def)
  show "set (grid_margins g) \<subseteq> set (known_margins (og_offers g))"
  proof (cases "og_marginMin g = None \<or> og_marginMax g = None")
    case False
    then obtain a b where ab: "og_marginMin g = Some a" "og_marginMax g = Some b" by auto
    with ends show ?thesis by (simp add: grid_margins_def least_iff greatest_iff)
  qed (auto simp: grid_margins_def split: option.split)
  assume m: "m \<in> set (known_margins (og_offers g))"
  then obtain a b where "og_marginMin g = Some a" "og_marginMax g = Some b"
    using assms none_iff [of "known_margins (og_offers g)"] by (auto simp: grid_ok_def)
  with ends m show "\<exists>a b. grid_margins g = [a, b] \<and> a \<le> m \<and> m \<le> b"
    by (auto simp: grid_margins_def least_iff greatest_iff)
qed

text \<open>C38: the strip of numbers over the grids of a source, computed grid by grid, is
  what a direct computation over its offers gives: how many are on sale, in how many products, how many
  need a look, and the least and greatest price and margin.\<close>

theorem offer_summary_direct:
  "summarizeOffers (groupOffers offers) =
     \<lparr> os_selling = length offers, os_products = length (uniq (map so_product_id offers)),
       os_attention = length (filter needsAttention offers),
       os_minPrice = least_of (map so_price offers), os_maxPrice = greatest_of (map so_price offers),
       os_marginMin = least_of (known_margins offers), os_marginMax = greatest_of (known_margins offers) \<rparr>"
proof -
  define gs where "gs = group_by so_product_id og_productId new_grid push_offer offers"
  have grids: "map og_offers (groupOffers offers) = map og_offers gs" "map og_attention (groupOffers offers) = map og_attention gs"
    "map grid_margins (groupOffers offers) = map grid_margins gs" "length (groupOffers offers) = length gs"
    by (simp_all add: groupOffers_def gs_def comp_def grid_margins_def)
  have ok: "grid_ok g" if "g \<in> set gs" for g using that grid_invariant by (simp add: gs_def)
  have all: "set (concat (map og_offers gs)) = set offers" using offers.set_members [of offers] by (simp add: gs_def)
  have "length (concat (map og_offers gs)) = length offers"
    using offers.total_members [of offers] by (simp add: gs_def length_concat comp_def)
  moreover have "length gs = length (uniq (map so_product_id offers))"
    using arg_cong [OF offers.keys [of offers], of length] by (simp add: gs_def)
  moreover have "sum_list (map og_attention gs) = length (filter needsAttention offers)"
  proof -
    have "map og_attention gs = map (\<lambda>g. length (filter needsAttention (og_offers g))) gs"
      using ok by (intro map_cong) (simp_all add: grid_ok_def)
    then show ?thesis using offers.total_filtered [of needsAttention offers] by (simp only: gs_def)
  qed
  moreover have "set (map so_price (concat (map og_offers gs))) = set (map so_price offers)" using all by (simp only: set_map)
  note prices = least_same_set [OF this]
  moreover have known: "set (known_margins offers) = (\<Union>g \<in> set gs. set (known_margins (og_offers g)))"
  proof -
    have margins: "set (known_margins xs) = {m. \<exists>o' \<in> set xs. so_margin_pct o' = Some m}" for xs
      by (auto simp: known_margins_def split: option.splits intro!: bexI)
    have "set offers = (\<Union>g \<in> set gs. set (og_offers g))" using all by simp
    then show ?thesis unfolding margins by blast
  qed
  let ?ms = "concat (map grid_margins gs)"
  have sub: "set ?ms \<subseteq> set (known_margins offers)" using grid_margins_ends(1) [OF ok] by (auto simp: known)
  have cover: "\<exists>a \<in> set ?ms. a \<le> m" "\<exists>b \<in> set ?ms. m \<le> b" if "m \<in> set (known_margins offers)" for m
  proof -
    from that obtain g where g: "g \<in> set gs" "m \<in> set (known_margins (og_offers g))" by (auto simp: known)
    from grid_margins_ends(2) [OF ok [OF g(1)] g(2)] obtain a b where "grid_margins g = [a, b]" "a \<le> m" "m \<le> b" by blast
    with g(1) show "\<exists>a \<in> set ?ms. a \<le> m" "\<exists>b \<in> set ?ms. m \<le> b" by force+
  qed
  have "least_of ?ms = least_of (known_margins offers)" "greatest_of ?ms = greatest_of (known_margins offers)"
  proof -
    show "least_of ?ms = least_of (known_margins offers)"
    proof (cases "least_of ?ms")
      case None
      then have "known_margins offers = []" using cover(1) none_iff(1) [of ?ms] by (cases "known_margins offers") auto
      with None show ?thesis by (simp add: least_of_def)
    next
      case (Some m)
      then have "least_of (known_margins offers) = Some m" using sub cover(1) unfolding least_iff by (meson order_trans subsetD)
      with Some show ?thesis by simp
    qed
    show "greatest_of ?ms = greatest_of (known_margins offers)"
    proof (cases "greatest_of ?ms")
      case None
      then have "known_margins offers = []" using cover(2) none_iff(2) [of ?ms] by (cases "known_margins offers") auto
      with None show ?thesis by (simp add: greatest_of_def)
    next
      case (Some m)
      then have "greatest_of (known_margins offers) = Some m" using sub cover(2) unfolding greatest_iff by (meson order_trans subsetD)
      with Some show ?thesis by simp
    qed
  qed
  ultimately show ?thesis by (simp add: summarizeOffers_def Let_def grids prices)
qed

end
