(* ===== verification/Spec2Isabelle.thy ===== *)
theory Spec2Isabelle
  imports Inventory_Filters Export_Scope Inventory_Report Inventory_Stock Bff_Guards Bff_Route Safe_Redirect
    Stock_Levels Disputes Pricing_Grid Buyer_Proxies Takedown Money Wallet_Ledger Search Buyer_Orders Package_Drafts
    Order_Form Proxy_Plans Seller_Form Promotions Facebook_Lookup Seller_Sources
begin

text \<open>
  Verification library of the marketplace frontend.
\<close>

end
